(* ===== verification/Prelude.thy ===== *)
theory Prelude
  imports Main "HOL-Library.Word" "HOL-Library.AList" "HOL-Library.Signed_Division"
begin

text \<open>
  The shared vocabulary of the development: the machine integers and strings of the
  code, C++ exceptions as error values of a sum type with its sequencing operator, and
  the generic facts on association lists, lists and words that the components use.
\<close>

unbundle bit_operations_syntax

section \<open>Types\<close>

type_synonym u8 = "8 word"
type_synonym u16 = "16 word"
type_synonym u32 = "32 word"
type_synonym u64 = "64 word"
type_synonym byte = u8

text \<open>
  \<open>time_point\<close> counts the ticks of \<^verbatim>\<open>std::chrono::system_clock\<close> (nanoseconds since the
  epoch in libstdc++), \<open>steady_time\<close> those of \<^verbatim>\<open>std::chrono::steady_clock\<close>.
\<close>

type_synonym time_point = int
type_synonym steady_time = int

text \<open>
  Facts that evaluate an encoder or a decoder are collected in \<open>codec\<close>, unfoldings of
  small state accessors in \<open>state_simps\<close>.
\<close>

named_theorems codec \<open>equations that run the serializer's readers and writers\<close>
named_theorems state_simps \<open>unfoldings of the small state operations\<close>

section \<open>Exceptions as values\<close>

text \<open>The standard exception classes the program throws; \<open>Inl\<close> carries one.\<close>

datatype exn = LogicError | OutOfRange | RuntimeError | LengthError | InvalidArgument | SystemError

definition and_then :: "'e + 'a \<Rightarrow> ('a \<Rightarrow> 'e + 'b) \<Rightarrow> 'e + 'b" where
  "and_then m f = (case m of Inl e \<Rightarrow> Inl e | Inr x \<Rightarrow> f x)"

lemma and_then_Inr [simp]: "and_then (Inr x) f = f x"
  by (simp add: and_then_def)

lemma and_then_Inl [simp]: "and_then (Inl e) f = Inl e"
  by (simp add: and_then_def)

lemma and_then_eq_Inr:
  "and_then m f = Inr y \<longleftrightarrow> (\<exists>x. m = Inr x \<and> f x = Inr y)"
  by (cases m) simp_all

lemma and_then_eq_Inl:
  "and_then m f = Inl e \<longleftrightarrow> m = Inl e \<or> (\<exists>x. m = Inr x \<and> f x = Inl e)"
  by (cases m) simp_all

lemma and_then_assoc: "and_then (and_then m f) g = and_then m (\<lambda>x. and_then (f x) g)"
  by (cases m) simp_all

section \<open>Hash maps as association lists\<close>

text \<open>
  A \<^verbatim>\<open>std::unordered_map\<close> is an association list with distinct keys; its order stands
  for the unspecified iteration order. \<open>map_of\<close> is \<^verbatim>\<open>find\<close>, \<open>AList.delete\<close> is
  \<^verbatim>\<open>erase\<close>, \<open>AList.update\<close> is \<^verbatim>\<open>insert_or_assign\<close>, and \<open>try_emplace\<close> inserts only
  an absent key and reports whether it did.
\<close>

abbreviation keys :: "('k \<times> 'v) list \<Rightarrow> 'k list" where
  "keys m \<equiv> map fst m"

definition try_emplace :: "'k \<Rightarrow> 'v \<Rightarrow> ('k \<times> 'v) list \<Rightarrow> bool \<times> ('k \<times> 'v) list" where
  "try_emplace k v m =
     (case map_of m k of None \<Rightarrow> (True, AList.update k v m) | Some _ \<Rightarrow> (False, m))"

lemma map_of_update [simp]: "map_of (AList.update k v m) = (map_of m)(k \<mapsto> v)"
  by (simp add: update_conv')

lemma map_of_delete [simp]: "map_of (AList.delete k m) = (map_of m)(k := None)"
  by (rule ext) (simp add: delete_conv')

lemma distinct_keys_update [simp]:
  "distinct (keys m) \<Longrightarrow> distinct (keys (AList.update k v m))"
  by (rule distinct_update)

lemma distinct_keys_delete [simp]:
  "distinct (keys m) \<Longrightarrow> distinct (keys (AList.delete k m))"
  by (rule distinct_delete)

lemma set_alist_map_of:
  "distinct (keys m) \<Longrightarrow> (k, v) \<in> set m \<longleftrightarrow> map_of m k = Some v"
  by (auto intro: map_of_is_SomeI dest: map_of_SomeD)

lemma try_emplace_cases:
  obtains "map_of m k = None" "try_emplace k v m = (True, AList.update k v m)"
  | w where "map_of m k = Some w" "try_emplace k v m = (False, m)"
  by (cases "map_of m k") (simp_all add: try_emplace_def)

section \<open>Lists and words\<close>

lemma drop_length_append [simp]: "drop (length xs) (xs @ ys) = ys"
  by simp

lemma unat_ucast_32_64: "unat (ucast (x :: u32) :: u64) = unat x"
proof -
  have "unat x < 2 ^ 32" using unsigned_less [of x] by simp
  then have "unat x < 2 ^ 64" by simp
  then show ?thesis by (simp add: unsigned_ucast_eq take_bit_nat_eq_self)
qed

text \<open>The number of blocks of size \<open>c\<close> that hold \<open>n\<close> bytes.\<close>

lemma ceil_div_bounds:
  fixes n c :: nat
  assumes "0 < c"
  shows "i < n div c + (if n mod c \<noteq> 0 then 1 else 0) \<longleftrightarrow> i * c < n"
proof -
  have *: "n = n div c * c + n mod c" "n mod c < c"
    using assms by simp_all
  show ?thesis
  proof
    assume i: "i < n div c + (if n mod c \<noteq> 0 then 1 else 0)"
    show "i * c < n"
    proof (cases "i < n div c")
      case True
      then have "i * c + c \<le> n div c * c"
        by (metis Suc_leI mult_Suc mult_le_mono1 add.commute)
      with * assms show ?thesis by linarith
    next
      case False
      with i have "i = n div c" "n mod c \<noteq> 0" by (auto split: if_splits)
      with * show ?thesis by (metis less_add_same_cancel1 neq0_conv)
    qed
  next
    assume "i * c < n"
    then have "i \<le> n div c"
      by (metis assms div_le_mono div_mult_self_is_m less_imp_le)
    moreover have "i = n div c \<Longrightarrow> n mod c \<noteq> 0"
      using \<open>i * c < n\<close> * by (metis add.right_neutral less_irrefl)
    ultimately show "i < n div c + (if n mod c \<noteq> 0 then 1 else 0)"
      by (cases "i = n div c") auto
  qed
qed

text \<open>A counter below a bound does not wrap around.\<close>

lemma counts_up: "(i :: 'a::len word) < n \<Longrightarrow> unat (i + 1) = Suc (unat i)"
proof -
  assume "i < n"
  then have "Suc (unat i) \<le> unat n" by (simp add: word_less_nat_alt)
  also have "unat n < 2 ^ LENGTH('a)" by (rule unsigned_less)
  finally have "Suc (unat i) < 2 ^ LENGTH('a)" .
  moreover have "i + 1 = word_of_nat (Suc (unat i))" by simp
  ultimately show ?thesis by (metis unat_of_nat mod_less)
qed

lemma counts_towards: "(i :: 'a::len word) < n \<Longrightarrow> unat i < unat n"
  by (simp add: word_less_nat_alt)

lemma index_below: "k < unat (n :: u32) \<Longrightarrow> (word_of_nat k :: u32) < n \<and> unat (word_of_nat k :: u32) = k"
proof -
  assume k: "k < unat n"
  have "unat n < 2 ^ 32" using unsigned_less [of n] by simp
  with k have "unat (word_of_nat k :: u32) = k" by (simp add: unat_of_nat)
  with k show ?thesis by (simp add: word_less_nat_alt)
qed

lemma index_end: "(word_of_nat (unat (n :: u32)) :: u32) \<ge> n"
  by simp

end
