(* ===== verification/Serializer.thy ===== *)
theory Serializer
  imports Prelude "HOL-Library.Char_ord"
begin

text \<open>
  The binary serializer of \<^verbatim>\<open>common/Serializer.hpp\<close> and \<^verbatim>\<open>common/Serializer.cpp\<close>: the
  writer with its consumed flag, the reader with its offset, the big-endian integer
  loops and the NUL-terminated strings, followed by the laws that let every protocol
  message be decoded field by field.
\<close>

section \<open>Bytes of strings and integers\<close>

definition byte_of_char :: "char \<Rightarrow> byte" where
  "byte_of_char c = word_of_nat (of_char c)"

definition char_of_byte :: "byte \<Rightarrow> char" where
  "char_of_byte b = char_of (unat b)"

definition bytes_of_string :: "string \<Rightarrow> byte list" where
  "bytes_of_string s = map byte_of_char s"

definition string_of_bytes :: "byte list \<Rightarrow> string" where
  "string_of_bytes bs = map char_of_byte bs"

text \<open>The loop of \<^verbatim>\<open>write_integral\<close>: \<open>index = Suc k\<close> pushes the byte at shift \<open>8 * k\<close>.\<close>

fun be_bytes :: "nat \<Rightarrow> 'a::len word \<Rightarrow> byte list" where
  "be_bytes 0 bits = []"
| "be_bytes (Suc k) bits = ucast (drop_bit (k * 8) bits AND 0xff) # be_bytes k bits"

text \<open>The loop of \<^verbatim>\<open>read_integral\<close>: shift the accumulator by a byte and add the next one.\<close>

fun from_be :: "'a::len word \<Rightarrow> byte list \<Rightarrow> 'a word" where
  "from_be bits [] = bits"
| "from_be bits (b # bs) = from_be (push_bit 8 bits OR ucast b) bs"

section \<open>The writer\<close>

record BinaryWriter =
  wbuffer :: "byte list"
  wvalid :: bool

type_synonym put = "BinaryWriter \<Rightarrow> exn + BinaryWriter"

definition new_writer :: BinaryWriter where
  "new_writer = \<lparr>wbuffer = [], wvalid = True\<rparr>"

definition assert_valid :: "BinaryWriter \<Rightarrow> exn + unit" where
  "assert_valid w = (if \<not> wvalid w then Inl LogicError else Inr ())"

definition write_integral :: "'a::len word \<Rightarrow> put" where
  "write_integral v w = and_then (assert_valid w) (\<lambda>_.
     Inr (w\<lparr>wbuffer := wbuffer w @ be_bytes (LENGTH('a) div 8) v\<rparr>))"

definition write_string :: "string \<Rightarrow> put" where
  "write_string s w = and_then (assert_valid w) (\<lambda>_.
     Inr (w\<lparr>wbuffer := wbuffer w @ bytes_of_string s @ [0]\<rparr>))"

definition write_bool :: "bool \<Rightarrow> put" where
  "write_bool b = write_integral (if b then 1 else 0 :: u8)"

text \<open>\<^verbatim>\<open>duration_cast\<close> to milliseconds truncates towards zero; the count is an \<^verbatim>\<open>int64\<close>.\<close>

definition write_time :: "time_point \<Rightarrow> put" where
  "write_time t = write_integral (word_of_int (t sdiv 1000000) :: u64)"

definition write_bytes :: "byte list \<Rightarrow> put" where
  "write_bytes bs w = and_then (assert_valid w) (\<lambda>_.
     Inr (w\<lparr>wbuffer := wbuffer w @ bs\<rparr>))"

text \<open>The variadic \<^verbatim>\<open>write(values...)\<close> and chained calls: the writes in order.\<close>

fun write_all :: "put list \<Rightarrow> put" where
  "write_all [] w = Inr w"
| "write_all (p # ps) w = and_then (p w) (write_all ps)"

definition writer_length :: "BinaryWriter \<Rightarrow> exn + u32" where
  "writer_length w = and_then (assert_valid w) (\<lambda>_. Inr (word_of_nat (length (wbuffer w))))"

definition writer_data :: "BinaryWriter \<Rightarrow> exn + byte list" where
  "writer_data w = and_then (assert_valid w) (\<lambda>_. Inr (wbuffer w))"

definition move_data :: "BinaryWriter \<Rightarrow> exn + byte list \<times> BinaryWriter" where
  "move_data w = and_then (assert_valid w) (\<lambda>_. Inr (wbuffer w, w\<lparr>wbuffer := [], wvalid := False\<rparr>))"

text \<open>A fresh writer, the given writes, then \<^verbatim>\<open>move_data\<close>: the body of every encoder.\<close>

definition written :: "put list \<Rightarrow> exn + byte list" where
  "written ps = and_then (write_all ps new_writer) (\<lambda>w. and_then (move_data w) (\<lambda>(bs, _). Inr bs))"

section \<open>The reader\<close>

record BinaryReader =
  rdata :: "byte list"
  roffset :: nat

type_synonym 'a get = "BinaryReader \<Rightarrow> exn + 'a \<times> BinaryReader"

definition new_reader :: "byte list \<Rightarrow> BinaryReader" where
  "new_reader bs = \<lparr>rdata = bs, roffset = 0\<rparr>"

definition underrun :: "nat \<Rightarrow> BinaryReader \<Rightarrow> bool" where
  "underrun n r \<longleftrightarrow> roffset r > length (rdata r) \<or> n > length (rdata r) - roffset r"

definition read_integral :: "'a::len word get" where
  "read_integral r =
     (if underrun (LENGTH('a) div 8) r then Inl OutOfRange
      else Inr (from_be 0 (take (LENGTH('a) div 8) (drop (roffset r) (rdata r))),
                r\<lparr>roffset := roffset r + LENGTH('a) div 8\<rparr>))"

definition read_string :: "string get" where
  "read_string r =
     (let unread = drop (roffset r) (rdata r); chars = takeWhile (\<lambda>b. b \<noteq> 0) unread
      in if length chars = length unread then Inl RuntimeError
         else Inr (string_of_bytes chars, r\<lparr>roffset := roffset r + length chars + 1\<rparr>))"

definition read_bytes :: "nat \<Rightarrow> byte list get" where
  "read_bytes n r =
     (if underrun n r then Inl OutOfRange
      else Inr (take n (drop (roffset r) (rdata r)), r\<lparr>roffset := roffset r + n\<rparr>))"

definition remaining :: "BinaryReader \<Rightarrow> nat" where
  "remaining r = length (rdata r) - roffset r"

definition read_remaining :: "byte list get" where
  "read_remaining r = read_bytes (remaining r) r"

definition at_end :: "BinaryReader \<Rightarrow> bool" where
  "at_end r \<longleftrightarrow> roffset r = length (rdata r)"

definition assert_at_end :: "unit get" where
  "assert_at_end r = (if \<not> at_end r then Inl RuntimeError else Inr ((), r))"

text \<open>Sequencing of reads, and the reads of the derived types.\<close>

definition get_then :: "'a get \<Rightarrow> ('a \<Rightarrow> 'b get) \<Rightarrow> 'b get" where
  "get_then g f r = and_then (g r) (\<lambda>(x, r'). f x r')"

definition get_return :: "'a \<Rightarrow> 'a get" where
  "get_return x r = Inr (x, r)"

definition read_u8 :: "u8 get" where "read_u8 = read_integral"
definition read_u16 :: "u16 get" where "read_u16 = read_integral"
definition read_u32 :: "u32 get" where "read_u32 = read_integral"
definition read_u64 :: "u64 get" where "read_u64 = read_integral"

definition read_bool :: "bool get" where
  "read_bool = get_then read_u8 (\<lambda>b. get_return (b = 1))"

definition read_time :: "time_point get" where
  "read_time = get_then read_u64 (\<lambda>ms. get_return (sint ms * 1000000))"

text \<open>Enumerations travel as their underlying byte; \<open>of_u8\<close> is the unchecked cast.\<close>

definition write_enum :: "('j \<Rightarrow> u8) \<Rightarrow> 'j \<Rightarrow> put" where
  "write_enum to_u8 x = write_integral (to_u8 x)"

definition read_enum :: "(u8 \<Rightarrow> 'j) \<Rightarrow> 'j get" where
  "read_enum of_u8 = get_then read_u8 (\<lambda>b. get_return (of_u8 b))"

definition decoded :: "'a get \<Rightarrow> byte list \<Rightarrow> exn + 'a" where
  "decoded g bs = and_then (g (new_reader bs)) (\<lambda>(x, _). Inr x)"

section \<open>Writing never fails on a fresh writer\<close>

definition writes :: "put \<Rightarrow> byte list \<Rightarrow> bool" where
  "writes p bs \<longleftrightarrow> (\<forall>w. wvalid w \<longrightarrow> p w = Inr (w\<lparr>wbuffer := wbuffer w @ bs\<rparr>))"

lemma assert_valid_simps [simp]:
  "wvalid w \<Longrightarrow> assert_valid w = Inr ()"
  "\<not> wvalid w \<Longrightarrow> assert_valid w = Inl LogicError"
  by (simp_all add: assert_valid_def)

text \<open>What each primitive put appends.\<close>

lemma writes_integral [codec]: "writes (write_integral (v::'a::len word)) (be_bytes (LENGTH('a) div 8) v)"
  by (simp add: writes_def write_integral_def)

lemma writes_string [codec]: "writes (write_string s) (bytes_of_string s @ [0])"
  by (simp add: writes_def write_string_def)

lemma writes_bytes [codec]: "writes (write_bytes bs) bs"
  by (simp add: writes_def write_bytes_def)

lemma byte_mask: "(0xff :: 'a::len word) = mask 8"
  by (simp add: mask_eq_exp_minus_1)

declare be_bytes.simps(2) [simp del]

lemma be_bytes_one [simp]: "be_bytes (Suc 0) (b::u8) = [b]"
  by (simp add: be_bytes.simps byte_mask take_bit_word_eq_self flip: take_bit_eq_mask)

lemma writes_bool [codec]: "writes (write_bool b) [if b then 1 else 0]"
  using writes_integral [of "(if b then 1 else 0) :: u8"]
  by (cases b) (simp_all add: write_bool_def)

lemma writes_enum [codec]: "writes (write_enum f x) (be_bytes 1 (f x))"
  using writes_integral [of "f x"] by (simp add: write_enum_def)

lemma writes_time [codec]: "writes (write_time t) (be_bytes 8 (word_of_int (t sdiv 1000000) :: u64))"
  using writes_integral [of "word_of_int (t sdiv 1000000) :: u64"] by (simp add: write_time_def)

lemma write_all_writes:
  "list_all2 writes ps bss \<Longrightarrow> wvalid w \<Longrightarrow>
   write_all ps w = Inr (w\<lparr>wbuffer := wbuffer w @ concat bss\<rparr>)"
proof (induction ps bss arbitrary: w rule: list_all2_induct)
  case Nil
  then show ?case by simp
next
  case (Cons p ps bs bss)
  then have "p w = Inr (w\<lparr>wbuffer := wbuffer w @ bs\<rparr>)" by (simp add: writes_def)
  with Cons show ?case by simp
qed

lemma written_eq:
  assumes "list_all2 writes ps bss"
  shows "written ps = Inr (concat bss)"
  using write_all_writes [OF assms, of new_writer]
  by (simp add: written_def move_data_def new_writer_def)

lemma length_be_bytes [simp]: "length (be_bytes n v) = n"
  by (induction n) (simp_all add: be_bytes.simps)

section \<open>The reader inverts the writer\<close>

text \<open>\<open>reader_at pre xs\<close>: the bytes \<open>pre\<close> are consumed and \<open>xs\<close> is still to be read.\<close>

definition reader_at :: "byte list \<Rightarrow> byte list \<Rightarrow> BinaryReader" where
  "reader_at pre xs = \<lparr>rdata = pre @ xs, roffset = length pre\<rparr>"

lemma new_reader_at: "new_reader xs = reader_at [] xs"
  by (simp add: new_reader_def reader_at_def)

lemma from_be_be_bytes:
  "from_be acc (be_bytes n (v::'a::len word)) = push_bit (8 * n) acc OR take_bit (8 * n) v"
proof (induction n arbitrary: acc)
  case 0
  then show ?case by simp
next
  case (Suc n)
  have "push_bit (8 * n) (push_bit 8 acc OR ucast (ucast (drop_bit (n * 8) v AND 0xff) :: byte))
      OR take_bit (8 * n) v = push_bit (8 * Suc n) acc OR take_bit (8 * Suc n) v"
    unfolding byte_mask
    by (rule bit_word_eqI) (auto simp: bit_simps not_less algebra_simps)
  with Suc show ?case by (simp add: be_bytes.simps)
qed

lemma from_be_bytes_full:
  "LENGTH('a::len) = 8 * n \<Longrightarrow> from_be 0 (be_bytes n (v::'a word)) = v"
  by (simp add: from_be_be_bytes)
     (metis take_bit_length_eq order_refl take_bit_word_eq_self)

lemma char_of_byte_of_char [simp]: "char_of_byte (byte_of_char c) = c"
  by (simp add: char_of_byte_def byte_of_char_def unat_of_nat of_char_mod_256 del: of_nat_of_char)

lemma byte_of_char_of_byte [simp]: "byte_of_char (char_of_byte b) = b"
proof -
  have "unat b < 256" using unsigned_less [of b] by simp
  then show ?thesis by (simp add: char_of_byte_def byte_of_char_def)
qed

lemma byte_of_char_0 [simp]: "byte_of_char c = 0 \<longleftrightarrow> c = CHR 0x00"
proof -
  have "byte_of_char (CHR 0x00) = 0" by (simp add: byte_of_char_def)
  then show ?thesis by (metis char_of_byte_of_char)
qed

lemma string_of_bytes_of_string [simp]: "string_of_bytes (bytes_of_string s) = s"
  by (simp add: string_of_bytes_def bytes_of_string_def comp_def)

lemma length_bytes_of_string [simp]: "length (bytes_of_string s) = length s"
  by (simp add: bytes_of_string_def)

lemma bytes_of_string_of_bytes [simp]: "bytes_of_string (string_of_bytes bs) = bs"
  by (simp add: string_of_bytes_def bytes_of_string_def comp_def)

text \<open>
  A field codec is a put and a get that invert each other on the values \<open>ok\<close>: the put
  appends \<open>bytes x\<close>, and the get, standing before \<open>bytes x\<close>, returns \<open>x\<close> and stands
  behind them. Every message body is a sequence of fields.
\<close>

locale field_codec =
  fixes put_field :: "'a \<Rightarrow> put"
    and get_field :: "'a get"
    and field_bytes :: "'a \<Rightarrow> byte list"
    and field_ok :: "'a \<Rightarrow> bool"
  assumes put_writes: "writes (put_field x) (field_bytes x)"
    and get_back: "field_ok x \<Longrightarrow>
      get_field (reader_at pre (field_bytes x @ xs)) = Inr (x, reader_at (pre @ field_bytes x) xs)"
begin

lemma get_back_end:
  "field_ok x \<Longrightarrow> get_field (reader_at pre (field_bytes x)) = Inr (x, reader_at (pre @ field_bytes x) [])"
  using get_back [of x pre "[]"] by simp

text \<open>A single field is decoded from what was written.\<close>

lemma decoded_written:
  "field_ok x \<Longrightarrow> and_then (written [put_field x]) (decoded get_field) = Inr x"
  using put_writes [of x] get_back_end [of x "[]"]
  by (simp add: written_eq [of _ "[field_bytes x]"] decoded_def new_reader_at)

text \<open>No field is a proper prefix of another: the boundary between fields is unambiguous.\<close>

lemma unambiguous:
  assumes "field_ok x" "field_ok y" "field_bytes x @ xs = field_bytes y @ ys"
  shows "x = y \<and> xs = ys"
proof -
  have "Inr (x, reader_at (field_bytes x) xs) = (Inr (y, reader_at (field_bytes y) ys) :: exn + _)"
    using get_back [OF assms(1), of "[]" xs] get_back [OF assms(2), of "[]" ys] assms(3) by simp
  then show ?thesis by (auto simp: reader_at_def)
qed

end

lemma read_integral_back:
  assumes "LENGTH('a::len) = 8 * n"
  shows "read_integral (reader_at pre (be_bytes n (v::'a word) @ xs))
    = Inr (v, reader_at (pre @ be_bytes n v) xs)"
  using assms
  by (simp add: read_integral_def reader_at_def underrun_def from_be_bytes_full)

interpretation f8: field_codec write_integral read_u8 "\<lambda>v. [v]" "\<lambda>_. True"
  using writes_integral [where 'a = 8] read_integral_back [where 'a = 8 and n = 1]
  by unfold_locales (simp_all add: read_u8_def)

interpretation f16: field_codec write_integral read_u16 "be_bytes 2" "\<lambda>_. True"
  using writes_integral [where 'a = 16] read_integral_back [where 'a = 16 and n = 2]
  by unfold_locales (simp_all add: read_u16_def)

interpretation f32: field_codec write_integral read_u32 "be_bytes 4" "\<lambda>_. True"
  using writes_integral [where 'a = 32] read_integral_back [where 'a = 32 and n = 4]
  by unfold_locales (simp_all add: read_u32_def)

interpretation f64: field_codec write_integral read_u64 "be_bytes 8" "\<lambda>_. True"
  using writes_integral [where 'a = 64] read_integral_back [where 'a = 64 and n = 8]
  by unfold_locales (simp_all add: read_u64_def)

interpretation fbool: field_codec write_bool read_bool "\<lambda>b. [if b then 1 else 0]" "\<lambda>_. True"
  by unfold_locales (auto simp: writes_bool read_bool_def get_then_def get_return_def
      f8.get_back [simplified])

text \<open>A string survives when it holds no NUL, the terminator.\<close>

definition nul_free :: "string \<Rightarrow> bool" where
  "nul_free s \<longleftrightarrow> CHR 0x00 \<notin> set s"

lemma takeWhile_bytes_of_string:
  "nul_free s \<Longrightarrow> takeWhile (\<lambda>b. b \<noteq> 0) (bytes_of_string s @ 0 # xs) = bytes_of_string s"
  by (induction s) (auto simp: nul_free_def bytes_of_string_def)

interpretation fstring: field_codec write_string read_string "\<lambda>s. bytes_of_string s @ [0]" nul_free
  by unfold_locales
    (simp_all add: writes_string read_string_def reader_at_def takeWhile_bytes_of_string Let_def)

text \<open>A time point survives when it is a whole number of milliseconds within \<^verbatim>\<open>int64\<close>.\<close>

definition whole_ms :: "time_point \<Rightarrow> bool" where
  "whole_ms t \<longleftrightarrow> (\<exists>ms. t = ms * 1000000 \<and> - (2 ^ 63) \<le> ms \<and> ms < 2 ^ 63)"

text \<open>In general the milliseconds survive, as long as their count is an \<^verbatim>\<open>int64\<close>.\<close>

definition time_fits :: "time_point \<Rightarrow> bool" where
  "time_fits t \<longleftrightarrow> - (2 ^ 63) \<le> t sdiv 1000000 \<and> t sdiv 1000000 < 2 ^ 63"

definition to_ms :: "time_point \<Rightarrow> time_point" where
  "to_ms t = t sdiv 1000000 * 1000000"

lemma read_time_back:
  assumes "time_fits t"
  shows "read_time (reader_at pre (be_bytes 8 (word_of_int (t sdiv 1000000) :: u64) @ xs))
    = Inr (to_ms t, reader_at (pre @ be_bytes 8 (word_of_int (t sdiv 1000000) :: u64)) xs)"
proof -
  have "sint (word_of_int (t sdiv 1000000) :: u64) = t sdiv 1000000"
    using assms by (simp add: time_fits_def sint_sbintrunc' signed_take_bit_int_eq_self)
  then show ?thesis
    by (simp add: to_ms_def read_time_def get_then_def get_return_def f64.get_back)
qed

interpretation ftime: field_codec write_time read_time
  "\<lambda>t. be_bytes 8 (word_of_int (t sdiv 1000000) :: u64)" whole_ms
proof
  fix x :: time_point and pre xs
  assume "whole_ms x"
  then obtain ms where ms: "x = ms * 1000000" "- (2 ^ 63) \<le> ms" "ms < 2 ^ 63"
    by (auto simp: whole_ms_def)
  then have "x sdiv 1000000 = ms"
    by (simp add: signed_divide_int_def abs_mult sgn_mult mult_sgn_abs)
  with ms read_time_back [of x pre xs, unfolded time_fits_def to_ms_def]
  show "read_time (reader_at pre (be_bytes 8 (word_of_int (x sdiv 1000000) :: u64) @ xs))
    = Inr (x, reader_at (pre @ be_bytes 8 (word_of_int (x sdiv 1000000) :: u64)) xs)"
    by simp
qed (simp add: writes_time)

text \<open>
  An enumeration is a codec on the values whose byte is cast back to them; the cast does
  not check that an enumerator exists, so every byte is accepted.
\<close>

locale enum_codec =
  fixes to_u8 :: "'j \<Rightarrow> u8" and of_u8 :: "u8 \<Rightarrow> 'j" and enum_ok :: "'j \<Rightarrow> bool"
  assumes of_to_u8: "enum_ok x \<Longrightarrow> of_u8 (to_u8 x) = x"
    and to_of_u8: "to_u8 (of_u8 b) = b"
begin

sublocale field_codec "write_enum to_u8" "read_enum of_u8" "\<lambda>x. [to_u8 x]" enum_ok
  using writes_enum [of to_u8]
  by unfold_locales (simp_all add: read_enum_def get_then_def get_return_def
      f8.get_back [simplified] of_to_u8)

lemma read_any:
  "read_enum of_u8 (reader_at pre (b # xs)) = Inr (of_u8 b, reader_at (pre @ [b]) xs)"
  by (simp add: read_enum_def get_then_def get_return_def f8.get_back [simplified])

end

section \<open>Reading the rest and the end\<close>

lemma read_remaining_at [codec, simp]:
  "read_remaining (reader_at pre xs) = Inr (xs, reader_at (pre @ xs) [])"
  by (simp add: read_remaining_def read_bytes_def remaining_def reader_at_def underrun_def)

lemma read_bytes_at:
  "read_bytes n (reader_at pre xs) =
     (if n \<le> length xs then Inr (take n xs, reader_at (pre @ take n xs) (drop n xs)) else Inl OutOfRange)"
  by (auto simp: read_bytes_def reader_at_def underrun_def min_def)

lemma assert_at_end_at [codec, simp]:
  "assert_at_end (reader_at pre xs) = (if xs = [] then Inr ((), reader_at pre xs) else Inl RuntimeError)"
  by (simp add: assert_at_end_def at_end_def reader_at_def)

lemma at_end_at [codec, simp]: "at_end (reader_at pre xs) \<longleftrightarrow> xs = []"
  by (simp add: at_end_def reader_at_def)

lemma get_then_Inr: "g r = Inr (x, r') \<Longrightarrow> get_then g f r = f x r'"
  by (simp add: get_then_def)

lemma get_then_apply [simp]: "get_then g f r = and_then (g r) (\<lambda>(x, r'). f x r')"
  by (simp add: get_then_def)

lemma get_return_apply [simp]: "get_return x r = Inr (x, r)"
  by (simp add: get_return_def)

lemmas field_writes [codec] =
  f8.put_writes f16.put_writes f32.put_writes f64.put_writes fbool.put_writes fstring.put_writes
  ftime.put_writes

lemmas field_reads [codec] =
  f8.get_back [simplified] f8.get_back_end [simplified] f16.get_back [simplified] f16.get_back_end [simplified]
  f32.get_back [simplified] f32.get_back_end [simplified] f64.get_back [simplified] f64.get_back_end [simplified]
  fbool.get_back [simplified] fbool.get_back_end [simplified]
  fstring.get_back [simplified] fstring.get_back_end [simplified]
  ftime.get_back ftime.get_back_end

text \<open>A get only moves forward within the data: it splits what is unread.\<close>

definition advances :: "'a get \<Rightarrow> bool" where
  "advances g \<longleftrightarrow> (\<forall>pre xs x r. g (reader_at pre xs) = Inr (x, r) \<longrightarrow>
     (\<exists>ys zs. xs = ys @ zs \<and> r = reader_at (pre @ ys) zs))"

lemma advancesD:
  "advances g \<Longrightarrow> g (reader_at pre xs) = Inr (x, r) \<Longrightarrow> \<exists>ys zs. xs = ys @ zs \<and> r = reader_at (pre @ ys) zs"
  by (simp add: advances_def)

lemma advances_integral: "advances (read_integral :: 'a::len word get)"
  unfolding advances_def
proof (intro allI impI)
  fix pre xs r and x :: "'a word"
  let ?n = "LENGTH('a) div 8"
  assume "read_integral (reader_at pre xs) = Inr (x, r)"
  then have "?n \<le> length xs" "r = reader_at (pre @ take ?n xs) (drop ?n xs)"
    by (auto simp: read_integral_def underrun_def reader_at_def min_def split: if_splits)
  then show "\<exists>ys zs. xs = ys @ zs \<and> r = reader_at (pre @ ys) zs"
    by (metis append_take_drop_id)
qed

lemma advances_return: "advances (get_return x)"
proof -
  have "xs = [] @ xs \<and> reader_at pre xs = reader_at (pre @ []) xs" for pre xs by simp
  then show ?thesis unfolding advances_def get_return_apply by blast
qed

lemma advances_then:
  assumes "advances g" "\<And>x. advances (f x)"
  shows "advances (get_then g f)"
  unfolding advances_def
proof (intro allI impI)
  fix pre xs x r
  assume "get_then g f (reader_at pre xs) = Inr (x, r)"
  then obtain y r1 where 1: "g (reader_at pre xs) = Inr (y, r1)" and 2: "f y r1 = Inr (x, r)"
    by (auto simp: and_then_eq_Inr)
  obtain ys zs where "xs = ys @ zs" "r1 = reader_at (pre @ ys) zs"
    using advancesD [OF assms(1) 1] by auto
  moreover from this 2 obtain us vs where "zs = us @ vs" "r = reader_at (pre @ ys @ us) vs"
    using advancesD [OF assms(2), of y "pre @ ys" zs x r] by auto
  ultimately show "\<exists>ys zs. xs = ys @ zs \<and> r = reader_at (pre @ ys) zs"
    by (intro exI [of _ "ys @ us"] exI [of _ vs]) simp
qed

lemmas advances_intros =
  advances_integral advances_return advances_then

lemma advances_reads:
  "advances read_u8" "advances read_u32" "advances read_u64" "advances (read_enum of_u8)"
  by (simp_all add: read_u8_def read_u32_def read_u64_def read_enum_def advances_intros)

section \<open>Properties of the encoding\<close>

lemma be_bytes_value:
  "foldl (\<lambda>a b. a * 256 + uint b) x (be_bytes n (v :: 'a::len word)) = x * 256 ^ n + uint v mod 256 ^ n"
proof (induction n arbitrary: x)
  case (Suc k)
  have "uint (ucast (drop_bit (k * 8) v AND 0xff) :: byte) = uint v div 256 ^ k mod 256"
  proof -
    have "(ucast (drop_bit (k * 8) v AND 0xff) :: byte) = ucast (drop_bit (k * 8) v)"
      by (rule bit_word_eqI) (auto simp: bit_simps byte_mask dest: bit_imp_le_length)
    moreover have "uint (drop_bit (k * 8) v) = drop_bit (k * 8) (uint v)"
      by (simp add: unsigned_drop_bit_eq take_bit_int_eq_self)
    moreover have "(2::int) ^ (k * 8) = 256 ^ k" using power_mult [of "2::int" 8 k] by (simp add: mult.commute)
    ultimately show ?thesis
      by (simp only: drop_bit_eq_div unsigned_ucast_eq take_bit_eq_mod) simp
  qed
  moreover have "uint v mod 256 ^ Suc k = uint v div 256 ^ k mod 256 * 256 ^ k + uint v mod 256 ^ k"
    using mod_mult2_eq' [of "uint v" "256 ^ k" 256] by (simp add: mult.commute)
  ultimately show ?case using Suc.IH by (simp add: be_bytes.simps algebra_simps)
qed simp

text \<open>C29. Every field sequence is read back as it was written, up to the milliseconds of a
  time point, and what follows the fields is left to \<open>read_remaining\<close>; integers are sent most
  significant byte first.\<close>

theorem fields_read_back:
  assumes "nul_free s" "time_fits t"
  shows "and_then
      (written [write_integral (v64 :: u64), write_integral (v32 :: u32), write_integral (v16 :: u16),
                write_integral (v8 :: u8), write_string s, write_bool b, write_time t, write_bytes payload])
      (decoded (get_then read_u64 (\<lambda>x64. get_then read_u32 (\<lambda>x32. get_then read_u16 (\<lambda>x16.
        get_then read_u8 (\<lambda>x8. get_then read_string (\<lambda>y. get_then read_bool (\<lambda>c.
        get_then read_time (\<lambda>u. get_then read_remaining (\<lambda>bs.
          get_return (x64, x32, x16, x8, y, c, u, bs))))))))))) =
      Inr (v64, v32, v16, v8, s, b, to_ms t, payload)
    \<and> (\<exists>bs. written [write_integral v32] = Inr bs \<and> length bs = 4
          \<and> foldl (\<lambda>a b. a * 256 + uint b) 0 bs = uint v32)"
proof
  show "\<exists>bs. written [write_integral v32] = Inr bs \<and> length bs = 4
          \<and> foldl (\<lambda>a b. a * 256 + uint b) 0 bs = uint v32"
    using be_bytes_value [of 0 4 v32] uint_bounded [of v32]
    by (simp add: written_eq [of _ "[be_bytes 4 v32]"] codec)
  show "and_then
      (written [write_integral (v64 :: u64), write_integral (v32 :: u32), write_integral (v16 :: u16),
                write_integral (v8 :: u8), write_string s, write_bool b, write_time t, write_bytes payload])
      (decoded (get_then read_u64 (\<lambda>x64. get_then read_u32 (\<lambda>x32. get_then read_u16 (\<lambda>x16.
        get_then read_u8 (\<lambda>x8. get_then read_string (\<lambda>y. get_then read_bool (\<lambda>c.
        get_then read_time (\<lambda>u. get_then read_remaining (\<lambda>bs.
          get_return (x64, x32, x16, x8, y, c, u, bs))))))))))) =
      Inr (v64, v32, v16, v8, s, b, to_ms t, payload)"
    using assms
    by (simp add: written_eq [of _ "[be_bytes 8 v64, be_bytes 4 v32, be_bytes 2 v16, [v8], bytes_of_string s @ [0],
          [if b then 1 else 0], be_bytes 8 (word_of_int (t sdiv 1000000) :: u64), payload]"]
        codec decoded_def new_reader_at read_time_back)
qed

theorem fields_read_back_witness:
  "nul_free ''a/b'' \<and> time_fits 1700000000123456789
   \<and> (\<exists>bs. written [write_integral (0x01020304 :: u32)] = Inr bs \<and> length bs = 4
          \<and> foldl (\<lambda>a b. a * 256 + uint b) 0 bs = 0x01020304)"
  using fields_read_back [of "''a/b''" 1700000000123456789 0 "0x01020304" 0 0 True "[]"]
  by (simp add: nul_free_def time_fits_def signed_divide_int_def)

end
