(* ===== verification/Messages.thy ===== *)
theory Messages
  imports Serializer
begin

text \<open>
  The data exchanged between nodes, \<^verbatim>\<open>common/network/Node.hpp\<close> and
  \<^verbatim>\<open>common/network/Message.hpp\<close>: identities, roles and which roles may connect,
  message headers, frames and received messages. An \<^verbatim>\<open>enum class\<close> over \<^verbatim>\<open>uint8_t\<close> can
  hold any byte, so each enumeration has its enumerators and one further constructor for
  the bytes that name none.
\<close>

section \<open>Nodes\<close>

type_synonym NodeId = string

datatype NodeRole = CLIENT | METADATA | STORAGE | NodeRole_raw u8

fun role_to_u8 :: "NodeRole \<Rightarrow> u8" where
  "role_to_u8 CLIENT = 0"
| "role_to_u8 METADATA = 1"
| "role_to_u8 STORAGE = 2"
| "role_to_u8 (NodeRole_raw b) = b"

definition role_of_u8 :: "u8 \<Rightarrow> NodeRole" where
  "role_of_u8 b = (if b = 0 then CLIENT else if b = 1 then METADATA else if b = 2 then STORAGE
     else NodeRole_raw b)"

definition role_bit :: "NodeRole \<Rightarrow> u8" where
  "role_bit role = ucast (push_bit (unat (role_to_u8 role)) (1 :: u32))"

definition PeerRoles :: "NodeRole \<Rightarrow> u8" where
  "PeerRoles role =
     (case role of
        METADATA \<Rightarrow> role_bit METADATA OR role_bit STORAGE OR role_bit CLIENT
      | STORAGE \<Rightarrow> role_bit METADATA
      | CLIENT \<Rightarrow> role_bit METADATA
      | NodeRole_raw _ \<Rightarrow> 0)"

record Endpoint =
  ep_node_id :: NodeId
  ep_role :: NodeRole
  ep_host :: string
  ep_port :: u16

record NodeConfig =
  cfg_node_id :: NodeId
  cfg_role :: NodeRole
  cfg_host :: string
  cfg_port :: u16
  cfg_data_directory :: string

record NodeIdentity =
  peer_id :: NodeId
  peer_role :: NodeRole

section \<open>Messages\<close>

definition HEADER_MAGIC :: u8 where "HEADER_MAGIC = 0x69"

definition MAX_MESSAGE_SIZE :: u32 where "MAX_MESSAGE_SIZE = 1024 * 1024"

definition MESSAGE_HEADER_SIZE :: nat where "MESSAGE_HEADER_SIZE = 1 + 4 + 1"

datatype MessageType = HELLO | CLIENT_RPC | STORAGE_RPC | STORAGE_HEARTBEAT | MessageType_raw u8

fun type_to_u8 :: "MessageType \<Rightarrow> u8" where
  "type_to_u8 HELLO = 0"
| "type_to_u8 CLIENT_RPC = 1"
| "type_to_u8 STORAGE_RPC = 2"
| "type_to_u8 STORAGE_HEARTBEAT = 3"
| "type_to_u8 (MessageType_raw b) = b"

definition type_of_u8 :: "u8 \<Rightarrow> MessageType" where
  "type_of_u8 b = (if b = 0 then HELLO else if b = 1 then CLIENT_RPC else if b = 2 then STORAGE_RPC
     else if b = 3 then STORAGE_HEARTBEAT else MessageType_raw b)"

record MessageHeader =
  hdr_magic :: u8
  hdr_length :: u32
  hdr_type :: MessageType

record Frame =
  frame_header :: MessageHeader
  frame_buffer :: "byte list"

record Message =
  msg_sender :: NodeIdentity
  msg_header :: MessageHeader
  msg_buffer :: "byte list"

section \<open>The enumerations as codecs\<close>

definition role_ok :: "NodeRole \<Rightarrow> bool" where
  "role_ok r \<longleftrightarrow> role_of_u8 (role_to_u8 r) = r"

definition type_ok :: "MessageType \<Rightarrow> bool" where
  "type_ok t \<longleftrightarrow> type_of_u8 (type_to_u8 t) = t"

interpretation frole: enum_codec role_to_u8 role_of_u8 role_ok
  by unfold_locales (auto simp: role_ok_def role_of_u8_def)

interpretation ftype: enum_codec type_to_u8 type_of_u8 type_ok
  by unfold_locales (auto simp: type_ok_def type_of_u8_def)

lemma named_roles_ok [simp]: "role_ok CLIENT" "role_ok METADATA" "role_ok STORAGE"
  by (simp_all add: role_ok_def role_of_u8_def)

lemma named_types_ok [simp]:
  "type_ok HELLO" "type_ok CLIENT_RPC" "type_ok STORAGE_RPC" "type_ok STORAGE_HEARTBEAT"
  by (simp_all add: type_ok_def type_of_u8_def)

lemma type_of_u8_ok [simp]: "type_ok (type_of_u8 b)"
  by (simp add: type_ok_def ftype.to_of_u8)

lemma role_of_u8_ok [simp]: "role_ok (role_of_u8 b)"
  by (simp add: role_ok_def frole.to_of_u8)

lemmas message_codecs [codec] =
  frole.put_writes ftype.put_writes frole.get_back [simplified] frole.get_back_end [simplified]
  ftype.get_back [simplified] ftype.get_back_end [simplified]

text \<open>The message a receiver queues for a frame read from the peer \<open>sender\<close>.\<close>

definition message_from :: "NodeIdentity \<Rightarrow> Frame \<Rightarrow> Message" where
  "message_from sender f = \<lparr>msg_sender = sender, msg_header = frame_header f, msg_buffer = frame_buffer f\<rparr>"

lemma message_from_sel [simp]:
  "msg_sender (message_from s f) = s"
  "msg_header (message_from s f) = frame_header f"
  "msg_buffer (message_from s f) = frame_buffer f"
  by (simp_all add: message_from_def)

end
