(* ===== verification/FrameIO.thy ===== *)
theory FrameIO
  imports Messages
begin

text \<open>
  Framing on the wire, \<^verbatim>\<open>common/network/FrameIO.cpp\<close>: a six-byte header and the payload.
  The socket belongs to asio and is a parameter: \<open>rd s n\<close> is \<^verbatim>\<open>asio::read\<close> of exactly
  \<open>n\<close> bytes (or an error), \<open>wr s bs\<close> is \<^verbatim>\<open>asio::async_write\<close> of all of \<open>bs\<close>.
\<close>

text \<open>Error codes handed to completion handlers; asio's own are opaque.\<close>

datatype error_code = asio_error nat | protocol_error | message_size

type_synonym 's reading = "'s \<Rightarrow> nat \<Rightarrow> error_code + byte list \<times> 's"
type_synonym 's writing = "'s \<Rightarrow> byte list \<Rightarrow> error_code option \<times> nat \<times> 's"

section \<open>Headers and frames\<close>

definition decode_header :: "byte list \<Rightarrow> exn + MessageHeader" where
  "decode_header bytes =
     and_then
       (decoded (get_then read_u8 (\<lambda>magic. get_then read_u32 (\<lambda>payload_size.
          get_then (read_enum type_of_u8) (\<lambda>message_type.
            get_return (magic, payload_size, message_type))))) bytes)
       (\<lambda>(magic, payload_size, message_type).
          if magic \<noteq> HEADER_MAGIC then Inl RuntimeError
          else if payload_size > MAX_MESSAGE_SIZE then Inl RuntimeError
          else Inr \<lparr>hdr_magic = magic, hdr_length = payload_size, hdr_type = message_type\<rparr>)"

definition encode_frame :: "Frame \<Rightarrow> exn + byte list" where
  "encode_frame frame =
     (if length (frame_buffer frame) > unat MAX_MESSAGE_SIZE then Inl LengthError
      else written [write_integral HEADER_MAGIC,
                    write_integral (word_of_nat (length (frame_buffer frame)) :: u32),
                    write_enum type_to_u8 (hdr_type (frame_header frame)),
                    write_bytes (frame_buffer frame)])"

text \<open>The blocking read: asio and \<open>decode_header\<close> throw.\<close>

definition read_frame :: "'s reading \<Rightarrow> 's \<Rightarrow> exn + Frame \<times> 's" where
  "read_frame rd s =
     (case rd s MESSAGE_HEADER_SIZE of
        Inl _ \<Rightarrow> Inl SystemError
      | Inr (header_bytes, s1) \<Rightarrow>
          and_then (decode_header header_bytes) (\<lambda>header.
            if unat (hdr_length header) = 0
            then Inr (\<lparr>frame_header = header, frame_buffer = []\<rparr>, s1)
            else (case rd s1 (unat (hdr_length header)) of
                    Inl _ \<Rightarrow> Inl SystemError
                  | Inr (payload, s2) \<Rightarrow>
                      Inr (\<lparr>frame_header = header, frame_buffer = payload\<rparr>, s2))))"

text \<open>The asynchronous read: the two arguments its handler is called with, and the socket.\<close>

definition async_read_frame :: "'s reading \<Rightarrow> 's \<Rightarrow> error_code option \<times> Frame option \<times> 's" where
  "async_read_frame rd s =
     (case rd s MESSAGE_HEADER_SIZE of
        Inl error \<Rightarrow> (Some error, None, s)
      | Inr (header_bytes, s1) \<Rightarrow>
          (case decode_header header_bytes of
             Inl _ \<Rightarrow> (Some protocol_error, None, s1)
           | Inr header \<Rightarrow>
               if unat (hdr_length header) = 0
               then (None, Some \<lparr>frame_header = header, frame_buffer = []\<rparr>, s1)
               else (case rd s1 (unat (hdr_length header)) of
                       Inl error \<Rightarrow> (Some error, None, s1)
                     | Inr (payload, s2) \<Rightarrow>
                         (None, Some \<lparr>frame_header = header, frame_buffer = payload\<rparr>, s2))))"

definition async_write_frame :: "'s writing \<Rightarrow> 's \<Rightarrow> Frame \<Rightarrow> error_code option \<times> nat \<times> 's" where
  "async_write_frame wr s frame =
     (case encode_frame frame of
        Inl _ \<Rightarrow> (Some message_size, 0, s)
      | Inr bytes \<Rightarrow> wr s bytes)"

section \<open>The byte stream below\<close>

text \<open>
  What \<^verbatim>\<open>asio::read\<close> promises of a connected socket (\<open>live s\<close>): as long as \<open>n\<close> of the
  peer's bytes \<open>src s\<close> are still to come, exactly these are delivered, in order, once.
\<close>

locale byte_source =
  fixes rd :: "'s \<Rightarrow> nat \<Rightarrow> 'e + byte list \<times> 's" and src :: "'s \<Rightarrow> byte list" and live :: "'s \<Rightarrow> bool"
  assumes rd_exact: "live s \<Longrightarrow> n \<le> length (src s) \<Longrightarrow>
    \<exists>s'. rd s n = Inr (take n (src s), s') \<and> src s' = drop n (src s) \<and> live s'"
begin

lemma rd_prefix:
  "live s \<Longrightarrow> src s = xs @ ys \<Longrightarrow> \<exists>s'. rd s (length xs) = Inr (xs, s') \<and> src s' = ys \<and> live s'"
  using rd_exact [of s "length xs"] by simp

end

text \<open>A buffer in memory is such a source as long as its offset is within its data.\<close>

definition memory_read :: "BinaryReader reading" where
  "memory_read r n = (case read_bytes n r of Inl _ \<Rightarrow> Inl (asio_error 2) | Inr x \<Rightarrow> Inr x)"

interpretation memory: byte_source memory_read
  "\<lambda>r. drop (roffset r) (rdata r)" "\<lambda>r. roffset r \<le> length (rdata r)"
  by unfold_locales (auto simp: memory_read_def read_bytes_def underrun_def add.commute)

section \<open>What is sent is what is received\<close>

text \<open>The frame the peer reconstructs: its header carries the magic and the real length.\<close>

definition sent_frame :: "Frame \<Rightarrow> Frame" where
  "sent_frame f = f\<lparr>frame_header := \<lparr>hdr_magic = HEADER_MAGIC,
     hdr_length = word_of_nat (length (frame_buffer f)), hdr_type = hdr_type (frame_header f)\<rparr>\<rparr>"

definition frame_fits :: "Frame \<Rightarrow> bool" where
  "frame_fits f \<longleftrightarrow> length (frame_buffer f) \<le> unat MAX_MESSAGE_SIZE \<and> type_ok (hdr_type (frame_header f))"

definition header_bytes :: "Frame \<Rightarrow> byte list" where
  "header_bytes f = [HEADER_MAGIC] @ be_bytes 4 (word_of_nat (length (frame_buffer f)) :: u32)
     @ [type_to_u8 (hdr_type (frame_header f))]"

lemma length_header_bytes [simp]: "length (header_bytes f) = MESSAGE_HEADER_SIZE"
  by (simp add: header_bytes_def MESSAGE_HEADER_SIZE_def)

lemma encode_frame_eq:
  "encode_frame f = (if length (frame_buffer f) > unat MAX_MESSAGE_SIZE then Inl LengthError
     else Inr (header_bytes f @ frame_buffer f))"
  by (simp add: encode_frame_def header_bytes_def codec
      written_eq [of _ "[[HEADER_MAGIC], be_bytes 4 (word_of_nat (length (frame_buffer f)) :: u32),
        [type_to_u8 (hdr_type (frame_header f))], frame_buffer f]"])

lemma decode_header_bytes:
  assumes "frame_fits f"
  shows "decode_header (header_bytes f) = Inr (frame_header (sent_frame f))"
proof -
  have "word_of_nat (length (frame_buffer f)) \<le> MAX_MESSAGE_SIZE"
    using assms by (simp add: frame_fits_def word_le_nat_alt unat_of_nat MAX_MESSAGE_SIZE_def)
  with assms show ?thesis
    by (simp add: decode_header_def header_bytes_def decoded_def new_reader_at codec frame_fits_def
        sent_frame_def)
qed

lemma decode_header_limit:
  "decode_header bs = Inr h \<Longrightarrow> hdr_magic h = HEADER_MAGIC \<and> hdr_length h \<le> MAX_MESSAGE_SIZE"
  by (auto simp: decode_header_def and_then_eq_Inr split: if_splits)

lemma sent_frame_length:
  "frame_fits f \<Longrightarrow> unat (hdr_length (frame_header (sent_frame f))) = length (frame_buffer f)"
  by (simp add: frame_fits_def sent_frame_def unat_of_nat MAX_MESSAGE_SIZE_def)

context byte_source
begin

text \<open>The header and the payload leave the stream together.\<close>

lemma source_frame:
  assumes "live s" "src s = header_bytes f @ frame_buffer f @ rest"
  obtains s1 s2 where "rd s MESSAGE_HEADER_SIZE = Inr (header_bytes f, s1)"
    "rd s1 (length (frame_buffer f)) = Inr (frame_buffer f, s2)" "src s1 = frame_buffer f @ rest"
    "src s2 = rest" "live s1" "live s2"
  using rd_prefix [OF assms] rd_prefix [of _ "frame_buffer f" rest] by (metis length_header_bytes)

end

lemma async_read_sent:
  assumes src: "byte_source rd src live" and fits: "frame_fits f"
    and stream: "live s" "src s = header_bytes f @ frame_buffer f @ rest"
  shows "\<exists>s'. async_read_frame rd s = (None, Some (sent_frame f), s') \<and> src s' = rest \<and> live s'"
proof -
  obtain s1 s2 where rds: "rd s MESSAGE_HEADER_SIZE = Inr (header_bytes f, s1)"
    "rd s1 (length (frame_buffer f)) = Inr (frame_buffer f, s2)" "src s1 = frame_buffer f @ rest"
    "src s2 = rest" "live s1" "live s2"
    using byte_source.source_frame [OF src stream] .
  have "sent_frame f = \<lparr>frame_header = frame_header (sent_frame f), frame_buffer = frame_buffer f\<rparr>"
    by (simp add: sent_frame_def)
  with rds fits show ?thesis
    by (cases "frame_buffer f = []")
      (auto simp: async_read_frame_def decode_header_bytes sent_frame_length)
qed

text \<open>A receiver that keeps reading, as the connection's read loop does.\<close>

fun read_frames :: "'s reading \<Rightarrow> nat \<Rightarrow> 's \<Rightarrow> Frame option list \<times> 's" where
  "read_frames rd 0 s = ([], s)"
| "read_frames rd (Suc n) s =
     (case async_read_frame rd s of (_, f, s1) \<Rightarrow>
        (case read_frames rd n s1 of (fs, s2) \<Rightarrow> (f # fs, s2)))"

definition wire :: "Frame list \<Rightarrow> byte list" where
  "wire fs = concat (map (\<lambda>f. header_bytes f @ frame_buffer f) fs)"

lemma read_frames_wire:
  assumes src: "byte_source rd src live"
  shows "\<forall>f \<in> set fs. frame_fits f \<Longrightarrow> live s \<Longrightarrow> src s = wire fs @ rest \<Longrightarrow>
    \<exists>s'. read_frames rd (length fs) s = (map (Some \<circ> sent_frame) fs, s') \<and> src s' = rest \<and> live s'"
proof (induction fs arbitrary: s)
  case Nil
  then show ?case by (simp add: wire_def)
next
  case (Cons f fs)
  then have fits: "frame_fits f"
    and stream: "src s = header_bytes f @ frame_buffer f @ wire fs @ rest"
    by (simp_all add: wire_def)
  from async_read_sent [OF src fits Cons.prems(2) stream] obtain s1 where
    s1: "async_read_frame rd s = (None, Some (sent_frame f), s1)" "src s1 = wire fs @ rest" "live s1"
    by auto
  from Cons.IH [of s1] Cons.prems s1 show ?case by auto
qed

section \<open>Properties of the framing\<close>

lemma be_bytes_numeral: "be_bytes (numeral n) v =
    ucast (drop_bit (pred_numeral n * 8) v AND 0xff) # be_bytes (pred_numeral n) v"
  by (simp only: numeral_eq_Suc be_bytes.simps)

lemma be_bytes_4: "be_bytes 4 v = [ucast (drop_bit 24 v AND 0xff), ucast (drop_bit 16 v AND 0xff),
    ucast (drop_bit 8 v AND 0xff), ucast (v AND 0xff)]"
  by (simp add: be_bytes_numeral be_bytes.simps)

text \<open>C11. Frames written one after the other to a socket are read back one by one, in
  order, without loss or duplication, whatever follows them; their headers carry the magic
  and the real payload length.\<close>

theorem stream_delivers_frames:
  assumes socket: "byte_source rd src live" and up: "live s"
    and sent: "list_all2 (\<lambda>f bs. encode_frame f = Inr bs) fs bss"
    and types: "\<forall>f \<in> set fs. type_ok (hdr_type (frame_header f))"
    and stream: "src s = concat bss @ rest"
  shows "\<exists>s'. read_frames rd (length fs) s = (map (Some \<circ> sent_frame) fs, s') \<and> src s' = rest \<and> live s'"
proof -
  from sent have "concat bss = wire fs"
    by induction (auto simp: wire_def encode_frame_eq split: if_splits)
  moreover from sent types have "\<forall>f \<in> set fs. frame_fits f"
    by induction (auto simp: frame_fits_def encode_frame_eq split: if_splits)
  ultimately show ?thesis using read_frames_wire [OF socket] up stream by metis
qed

theorem stream_delivers_frames_witness:
  "\<exists>s'. read_frames memory_read 2
      \<lparr>rdata = [0x69, 0, 0, 0, 2, 1, 7, 8, 0x69, 0, 0, 0, 0, 3, 0x55], roffset = 0\<rparr> =
    ([Some \<lparr>frame_header = \<lparr>hdr_magic = 0x69, hdr_length = 2, hdr_type = CLIENT_RPC\<rparr>, frame_buffer = [7, 8]\<rparr>,
      Some \<lparr>frame_header = \<lparr>hdr_magic = 0x69, hdr_length = 0, hdr_type = STORAGE_HEARTBEAT\<rparr>, frame_buffer = []\<rparr>], s')
    \<and> drop (roffset s') (rdata s') = [0x55]"
proof -
  let ?fs = "[\<lparr>frame_header = \<lparr>hdr_magic = 0, hdr_length = 0, hdr_type = CLIENT_RPC\<rparr>, frame_buffer = [7, 8]\<rparr>,
    \<lparr>frame_header = \<lparr>hdr_magic = 0, hdr_length = 0, hdr_type = STORAGE_HEARTBEAT\<rparr>, frame_buffer = []\<rparr>]"
    and ?bss = "[[0x69, 0, 0, 0, 2, 1, 7, 8], [0x69, 0, 0, 0, 0, 3]] :: byte list list"
    and ?s = "\<lparr>rdata = [0x69, 0, 0, 0, 2, 1, 7, 8, 0x69, 0, 0, 0, 0, 3, 0x55], roffset = 0\<rparr>"
  have "list_all2 (\<lambda>f bs. encode_frame f = Inr bs) ?fs ?bss"
    by (simp add: encode_frame_eq header_bytes_def HEADER_MAGIC_def MAX_MESSAGE_SIZE_def be_bytes_4)
  then show ?thesis
    using stream_delivers_frames [OF memory.byte_source_axioms, of ?s ?fs ?bss "[0x55]"]
    by (auto simp: sent_frame_def HEADER_MAGIC_def numeral_2_eq_2 simp del: read_frames.simps)
qed

text \<open>C19. Whatever bytes a peer sends, a frame handed to the handler has the magic, at most
  one MiB of payload and exactly the announced length; an error code is passed otherwise,
  and never both.\<close>

theorem received_frame_bounded:
  assumes exact: "\<And>s n bs s'. rd s n = Inr (bs, s') \<Longrightarrow> length bs = n"
  shows "case async_read_frame rd s of
      (None, Some f, _) \<Rightarrow> hdr_magic (frame_header f) = HEADER_MAGIC
        \<and> length (frame_buffer f) = unat (hdr_length (frame_header f)) \<and> length (frame_buffer f) \<le> 1024 * 1024
    | (Some _, None, _) \<Rightarrow> True
    | _ \<Rightarrow> False"
proof -
  have "unat (hdr_length h) \<le> 1024 * 1024" "hdr_magic h = HEADER_MAGIC" if "decode_header bs = Inr h" for bs h
    using decode_header_limit [OF that] by (simp_all add: word_le_nat_alt MAX_MESSAGE_SIZE_def)
  then show ?thesis
    by (auto simp: async_read_frame_def dest: exact split: sum.splits)
qed

theorem received_frame_bounded_witness:
  "case async_read_frame memory_read \<lparr>rdata = [0x69, 0, 0x20, 0, 0, 1], roffset = 0\<rparr> of
      (None, Some f, _) \<Rightarrow> hdr_magic (frame_header f) = HEADER_MAGIC
        \<and> length (frame_buffer f) = unat (hdr_length (frame_header f)) \<and> length (frame_buffer f) \<le> 1024 * 1024
    | (Some _, None, _) \<Rightarrow> True
    | _ \<Rightarrow> False"
  by (rule received_frame_bounded) (auto simp: memory_read_def read_bytes_def underrun_def split: if_splits sum.splits)

end
