(* ===== verification/Paths.thy ===== *)
theory Paths
  imports Serializer
begin

text \<open>
  The lexical part of \<^verbatim>\<open>std::filesystem::path\<close> (POSIX, libstdc++) that the program uses.
  A path is its pathname; \<open>elems\<close> is what iteration yields: the root directory, the
  filenames between slashes, and an empty element for a trailing slash. Two paths are
  equal (and collide as hash keys) when their elements are.
\<close>

section \<open>Elements\<close>

type_synonym path = string

definition slash :: char where "slash = CHR ''/''"

definition skip_slashes :: "string \<Rightarrow> string" where
  "skip_slashes s = dropWhile (\<lambda>c. c = slash) s"

function filenames :: "string \<Rightarrow> string list" where
  "filenames s =
     (let name = takeWhile (\<lambda>c. c \<noteq> slash) s; rest = dropWhile (\<lambda>c. c \<noteq> slash) s
      in if rest = [] then [name]
         else if skip_slashes rest = [] then [name, []]
         else name # filenames (skip_slashes rest))"
  by pat_completeness auto
termination
proof (relation "measure length")
  fix s name rest :: string
  assume rest: "rest = dropWhile (\<lambda>c. c \<noteq> slash) s" "rest \<noteq> []"
  then have "hd rest = slash" using hd_dropWhile [of "\<lambda>c. c \<noteq> slash" s] by simp
  have "length rest \<le> length s" unfolding rest(1) by (rule length_dropWhile_le)
  with \<open>hd rest = slash\<close> rest(2) have "length (skip_slashes rest) < length rest"
    by (cases rest) (simp_all add: skip_slashes_def le_imp_less_Suc length_dropWhile_le)
  with \<open>length rest \<le> length s\<close> show "(skip_slashes rest, s) \<in> measure length" by simp
qed simp

declare filenames.simps [simp del]

definition elems :: "path \<Rightarrow> string list" where
  "elems p =
     (if p = [] then []
      else if hd p = slash then [slash] # (if skip_slashes p = [] then [] else filenames (skip_slashes p))
      else filenames p)"

section \<open>Queries\<close>

definition is_absolute :: "path \<Rightarrow> bool" where
  "is_absolute p \<longleftrightarrow> p \<noteq> [] \<and> hd p = slash"

definition relative_elems :: "path \<Rightarrow> string list" where
  "relative_elems p = (if is_absolute p then tl (elems p) else elems p)"

definition filename :: "path \<Rightarrow> string" where
  "filename p = (if relative_elems p = [] then [] else last (relative_elems p))"

text \<open>The suffix from the last dot of a filename, unless the name is dots or starts with it.\<close>

definition extension_of :: "string \<Rightarrow> string" where
  "extension_of name =
     (if name = ''.'' \<or> name = ''..'' then []
      else let tail = takeWhile (\<lambda>c. c \<noteq> CHR ''.'') (rev name)
           in if length tail = length name \<or> length tail + 1 = length name then []
              else CHR ''.'' # rev tail)"

definition extension :: "path \<Rightarrow> string" where
  "extension p = extension_of (filename p)"

definition has_parent_path :: "path \<Rightarrow> bool" where
  "has_parent_path p \<longleftrightarrow> elems p = [[slash]] \<or> length (elems p) \<ge> 2"

section \<open>Normal form\<close>

text \<open>
  \<^verbatim>\<open>lexically_normal\<close> on the elements after the root: a dot disappears with the slash
  behind it, a name and a following dot-dot cancel, a dot-dot directly under the root
  disappears. \<open>stack\<close> holds the kept names, last first; \<open>trailing\<close> tells whether the
  result so far ends with a slash.
\<close>

fun normal_names :: "bool \<Rightarrow> string list \<Rightarrow> bool \<Rightarrow> string list \<Rightarrow> string list" where
  "normal_names absolute stack trailing [] =
     (if stack = [] then (if absolute then [] else [''.''])
      else if trailing \<and> hd stack \<noteq> ''..'' then rev stack @ [[]]
      else rev stack)"
| "normal_names absolute stack trailing (name # names) =
     (if name = [] \<or> name = ''.'' then normal_names absolute stack True names
      else if name = ''..'' then
        (if stack \<noteq> [] \<and> hd stack \<noteq> ''..'' then normal_names absolute (tl stack) True names
         else if stack = [] \<and> absolute then normal_names absolute stack True names
         else normal_names absolute (name # stack) False names)
      else normal_names absolute (name # stack) False names)"

definition normal_elems :: "path \<Rightarrow> string list" where
  "normal_elems p =
     (if p = [] then []
      else if is_absolute p then [slash] # normal_names True [] False (relative_elems p)
      else normal_names False [] False (relative_elems p))"

section \<open>Composition\<close>

text \<open>Elements back to a pathname, and \<^verbatim>\<open>operator/\<close> for a relative right operand.\<close>

fun join_names :: "string list \<Rightarrow> string" where
  "join_names [] = []"
| "join_names [n] = n"
| "join_names (n # m # ns) = n @ [slash] @ join_names (m # ns)"

definition join_elems :: "string list \<Rightarrow> path" where
  "join_elems es = (if es \<noteq> [] \<and> hd es = [slash] then slash # join_names (tl es) else join_names es)"

definition lexically_normal :: "path \<Rightarrow> path" where
  "lexically_normal p = join_elems (normal_elems p)"

definition path_append :: "path \<Rightarrow> path \<Rightarrow> path" where
  "path_append p q =
     (if is_absolute q then q
      else if p = [] \<or> last p = slash then p @ q
      else p @ [slash] @ q)"

text \<open>\<^verbatim>\<open>path_is_inside\<close>: the loop over both element sequences.\<close>

fun is_inside :: "string list \<Rightarrow> string list \<Rightarrow> bool" where
  "is_inside candidate [] = True"
| "is_inside [] (d # ds) = False"
| "is_inside (c # cs) (d # ds) = (if c \<noteq> d then False else is_inside cs ds)"

section \<open>Facts about elements\<close>

lemma skip_slashes_hd: "skip_slashes s \<noteq> [] \<Longrightarrow> hd (skip_slashes s) \<noteq> slash"
  unfolding skip_slashes_def using hd_dropWhile [of "\<lambda>c. c = slash" s] by simp

lemma filenames_not_Nil: "filenames s \<noteq> []"
  by (subst filenames.simps) (simp add: Let_def)

lemma filenames_no_slash: "name \<in> set (filenames s) \<Longrightarrow> slash \<notin> set name"
proof (induction s rule: filenames.induct)
  case (1 s)
  then show ?case
    by (subst (asm) (2) filenames.simps) (auto simp: Let_def dest: set_takeWhileD split: if_splits)
qed

text \<open>A pathname without a slash is a single element.\<close>

lemma filenames_plain: "slash \<notin> set s \<Longrightarrow> filenames s = [s]"
proof -
  assume "slash \<notin> set s"
  then have "takeWhile (\<lambda>c. c \<noteq> slash) s = s" by (auto simp: takeWhile_eq_all_conv)
  then have "dropWhile (\<lambda>c. c \<noteq> slash) s = []" by (metis append_self_conv takeWhile_dropWhile_id)
  with \<open>takeWhile _ s = s\<close> show ?thesis by (subst filenames.simps) (simp add: Let_def)
qed

lemma elems_plain: "slash \<notin> set s \<Longrightarrow> s \<noteq> [] \<Longrightarrow> elems s = [s]"
  by (auto simp: elems_def filenames_plain dest: hd_in_set)

lemma filenames_cons:
  assumes "slash \<notin> set n" "r \<noteq> []" "hd r \<noteq> slash"
  shows "filenames (n @ slash # r) = n # filenames r"
proof -
  have "takeWhile (\<lambda>c. c \<noteq> slash) (n @ slash # r) = n" "dropWhile (\<lambda>c. c \<noteq> slash) (n @ slash # r) = slash # r"
    using assms(1) by (induction n) auto
  moreover have "skip_slashes (slash # r) = r"
    using assms(2,3) by (cases r) (simp_all add: skip_slashes_def)
  ultimately show ?thesis using assms(2) by (subst filenames.simps) (simp add: Let_def)
qed

text \<open>An ordinary name: not empty and without a slash.\<close>

definition plain_name :: "string \<Rightarrow> bool" where
  "plain_name n \<longleftrightarrow> n \<noteq> [] \<and> slash \<notin> set n"

lemma join_names_hd:
  "ns \<noteq> [] \<Longrightarrow> plain_name (hd ns) \<Longrightarrow> join_names ns \<noteq> [] \<and> hd (join_names ns) \<noteq> slash"
  by (induction ns rule: join_names.induct) (auto simp: plain_name_def neq_Nil_conv)

lemma filenames_join:
  "ns \<noteq> [] \<Longrightarrow> \<forall>n \<in> set ns. plain_name n \<Longrightarrow> filenames (join_names ns) = ns"
proof (induction ns rule: join_names.induct)
  case (2 n)
  then show ?case by (simp add: filenames_plain plain_name_def)
next
  case (3 n m ns)
  then show ?case
    using join_names_hd [of "m # ns"] by (simp add: filenames_cons plain_name_def)
qed simp

lemma elems_join:
  "\<forall>n \<in> set ns. plain_name n \<Longrightarrow> elems (join_names ns) = ns"
proof (cases "ns = []")
  case True
  then show ?thesis by (simp add: elems_def)
next
  case False
  moreover assume "\<forall>n \<in> set ns. plain_name n"
  ultimately show ?thesis
    using join_names_hd [of ns] filenames_join [of ns] by (simp add: elems_def)
qed

lemma join_elems_plain: "\<forall>n \<in> set ns. plain_name n \<Longrightarrow> join_elems ns = join_names ns"
  by (cases ns) (auto simp: join_elems_def plain_name_def)

lemma is_inside_iff: "is_inside c d \<longleftrightarrow> (\<exists>r. c = d @ r)"
  by (induction c d rule: is_inside.induct) auto

text \<open>Appending elements: the directory of a temporary or a renamed entry.\<close>

lemma normal_names_ordinary:
  "\<forall>n \<in> set ns. n \<noteq> [] \<and> n \<noteq> ''.'' \<and> n \<noteq> ''..'' \<Longrightarrow> ns \<noteq> [] \<Longrightarrow>
   normal_names a st t ns = rev st @ ns"
proof (induction ns arbitrary: st t)
  case (Cons n ns)
  then show ?case by (cases "ns = []") simp_all
qed simp

end
