(* ===== verification/FileSystem.thy ===== *)
theory FileSystem
  imports Paths "HOL-Library.Sublist"
begin

text \<open>
  The file system under \<^verbatim>\<open>std::filesystem\<close> and \<^verbatim>\<open>std::fstream\<close>, as far as the program uses it:
  a tree of directories and regular files without links, the calls with the results and
  error codes POSIX and libstdc++ give them, and failures of the host. A disk lists its
  nodes by location; the list order stands for the unspecified directory order.
\<close>

section \<open>Disks and host failures\<close>

type_synonym location = "string list"

datatype node = Dir | File "byte list"

type_synonym disk = "(location \<times> node) list"

datatype errc = no_such_file_or_directory | not_a_directory | file_exists | directory_not_empty
  | is_a_directory | invalid_argument | io_error

datatype syscall = Sys_status | Sys_mkdir | Sys_open | Sys_write | Sys_flush | Sys_close
  | Sys_read | Sys_rename | Sys_remove | Sys_iterate

text \<open>
  \<open>fails c p\<close>: call \<open>c\<close> on path \<open>p\<close> is refused by the host (I/O error, permission, full
  disk); of a failing write the first \<open>kept p\<close> bytes still reach the file.
\<close>

record Faults =
  fails :: "syscall \<Rightarrow> location \<Rightarrow> bool"
  kept :: "location \<Rightarrow> nat"

definition no_faults :: Faults where
  "no_faults = \<lparr>fails = (\<lambda>_ _. False), kept = (\<lambda>_. 0)\<rparr>"

definition node_at :: "disk \<Rightarrow> location \<Rightarrow> node option" where
  "node_at d l = (if l = [] then Some Dir else map_of d l)"

text \<open>Path resolution from directory \<open>cwd\<close>: every component but the last must be a directory.\<close>

fun resolve :: "disk \<Rightarrow> location \<Rightarrow> string list \<Rightarrow> errc + location" where
  "resolve d cwd [] = Inr cwd"
| "resolve d cwd (name # names) =
     (case node_at d cwd of
        None \<Rightarrow> Inl no_such_file_or_directory
      | Some (File _) \<Rightarrow> Inl not_a_directory
      | Some Dir \<Rightarrow>
          resolve d (if name = [] \<or> name = ''.'' then cwd
                     else if name = ''..'' then butlast cwd else cwd @ [name]) names)"

section \<open>Queries\<close>

definition fs_status :: "Faults \<Rightarrow> disk \<Rightarrow> location \<Rightarrow> errc + node option" where
  "fs_status f d p =
     (if fails f Sys_status p then Inl io_error
      else (case resolve d [] p of Inl _ \<Rightarrow> Inr None | Inr l \<Rightarrow> Inr (node_at d l)))"

definition fs_exists :: "Faults \<Rightarrow> disk \<Rightarrow> location \<Rightarrow> errc + bool" where
  "fs_exists f d p = and_then (fs_status f d p) (\<lambda>n. Inr (n \<noteq> None))"

definition fs_is_directory :: "Faults \<Rightarrow> disk \<Rightarrow> location \<Rightarrow> errc + bool" where
  "fs_is_directory f d p = and_then (fs_status f d p)
     (\<lambda>n. case n of None \<Rightarrow> Inl no_such_file_or_directory | Some x \<Rightarrow> Inr (x = Dir))"

definition fs_is_regular_file :: "Faults \<Rightarrow> disk \<Rightarrow> location \<Rightarrow> errc + bool" where
  "fs_is_regular_file f d p = and_then (fs_status f d p)
     (\<lambda>n. case n of None \<Rightarrow> Inl no_such_file_or_directory | Some x \<Rightarrow> Inr (x \<noteq> Dir))"

section \<open>Directories\<close>

definition has_children :: "disk \<Rightarrow> location \<Rightarrow> bool" where
  "has_children d l \<longleftrightarrow> list_ex (\<lambda>(k, _). k \<noteq> [] \<and> butlast k = l) d"

definition fs_create_directory :: "Faults \<Rightarrow> disk \<Rightarrow> location \<Rightarrow> (errc + bool) \<times> disk" where
  "fs_create_directory f d p =
     (if fails f Sys_mkdir p then (Inl io_error, d)
      else (case resolve d [] p of
              Inl e \<Rightarrow> (Inl e, d)
            | Inr l \<Rightarrow> (case node_at d l of
                  Some Dir \<Rightarrow> (Inr False, d)
                | Some (File _) \<Rightarrow> (Inl file_exists, d)
                | None \<Rightarrow> (Inr True, AList.update l Dir d))))"

text \<open>\<^verbatim>\<open>create_directories\<close> of \<open>made @ names\<close>, where \<open>made\<close> is done; the error code it sets.\<close>

fun make_directories :: "Faults \<Rightarrow> disk \<Rightarrow> location \<Rightarrow> string list \<Rightarrow> errc option \<times> disk" where
  "make_directories f d made [] = (None, d)"
| "make_directories f d made (name # names) =
     (let here = made @ [name] in
      case node_at d here of
        Some Dir \<Rightarrow> make_directories f d here names
      | Some (File _) \<Rightarrow> (Some not_a_directory, d)
      | None \<Rightarrow> if fails f Sys_mkdir here then (Some io_error, d)
                else make_directories f (AList.update here Dir d) here names)"

definition fs_create_directories :: "Faults \<Rightarrow> disk \<Rightarrow> location \<Rightarrow> errc option \<times> disk" where
  "fs_create_directories f d p =
     (if fails f Sys_status p then (Some io_error, d) else make_directories f d [] p)"

definition opened_directory :: "disk \<Rightarrow> location \<Rightarrow> errc + location" where
  "opened_directory d p = and_then (resolve d [] p) (\<lambda>l.
     case node_at d l of
       None \<Rightarrow> Inl no_such_file_or_directory
     | Some (File _) \<Rightarrow> Inl not_a_directory
     | Some Dir \<Rightarrow> Inr l)"

text \<open>The entries of a directory, and all entries below one.\<close>

definition fs_list :: "Faults \<Rightarrow> disk \<Rightarrow> location \<Rightarrow> errc + (string \<times> bool) list" where
  "fs_list f d p =
     (if fails f Sys_iterate p then Inl io_error
      else and_then (opened_directory d p) (\<lambda>l.
        Inr (map (\<lambda>(k, n). (last k, n = Dir)) (filter (\<lambda>(k, _). k \<noteq> [] \<and> butlast k = l) d))))"

definition fs_walk :: "Faults \<Rightarrow> disk \<Rightarrow> location \<Rightarrow> errc + (location \<times> node) list" where
  "fs_walk f d p =
     (if fails f Sys_iterate p then Inl io_error
      else and_then (opened_directory d p) (\<lambda>l. Inr (filter (\<lambda>(k, _). strict_prefix l k) d)))"

section \<open>Removing and renaming\<close>

definition fs_remove :: "Faults \<Rightarrow> disk \<Rightarrow> location \<Rightarrow> (errc + bool) \<times> disk" where
  "fs_remove f d p =
     (if fails f Sys_remove p then (Inl io_error, d)
      else (case resolve d [] p of
              Inl e \<Rightarrow> (if e = no_such_file_or_directory then Inr False else Inl e, d)
            | Inr l \<Rightarrow> (case node_at d l of
                  None \<Rightarrow> (Inr False, d)
                | Some (File _) \<Rightarrow> (Inr True, AList.delete l d)
                | Some Dir \<Rightarrow> if l = [] \<or> has_children d l then (Inl directory_not_empty, d)
                               else (Inr True, AList.delete l d))))"

definition move_tree :: "location \<Rightarrow> location \<Rightarrow> disk \<Rightarrow> disk" where
  "move_tree old new d =
     map (\<lambda>(k, n). (if prefix old k then new @ drop (length old) k else k, n)) (AList.delete new d)"

definition fs_rename :: "Faults \<Rightarrow> disk \<Rightarrow> location \<Rightarrow> location \<Rightarrow> errc option \<times> disk" where
  "fs_rename f d p q =
     (if fails f Sys_rename p then (Some io_error, d)
      else (case resolve d [] p of Inl e \<Rightarrow> (Some e, d) | Inr old \<Rightarrow>
           (case resolve d [] q of Inl e \<Rightarrow> (Some e, d) | Inr new \<Rightarrow>
             if node_at d old = None then (Some no_such_file_or_directory, d)
             else if old = new then (None, d)
             else (case node_at d old of
                 Some Dir \<Rightarrow>
                   if prefix old new then (Some invalid_argument, d)
                   else (case node_at d new of
                           Some (File _) \<Rightarrow> (Some not_a_directory, d)
                         | Some Dir \<Rightarrow> if new = [] \<or> has_children d new then (Some directory_not_empty, d)
                                        else (None, move_tree old new d)
                         | None \<Rightarrow> (None, move_tree old new d))
               | Some (File c) \<Rightarrow>
                   (case node_at d new of
                      Some Dir \<Rightarrow> (Some is_a_directory, d)
                    | _ \<Rightarrow> (None, AList.update new (File c) (AList.delete old d)))))))"

section \<open>Streams\<close>

text \<open>Opening for writing: the file's location, created or truncated unless appending.\<close>

definition open_out :: "Faults \<Rightarrow> disk \<Rightarrow> location \<Rightarrow> bool \<Rightarrow> (errc + location) \<times> disk" where
  "open_out f d p appending =
     (if fails f Sys_open p then (Inl io_error, d)
      else (case resolve d [] p of
              Inl e \<Rightarrow> (Inl e, d)
            | Inr l \<Rightarrow> (case node_at d l of
                  Some Dir \<Rightarrow> (Inl is_a_directory, d)
                | Some (File c) \<Rightarrow> (Inr l, AList.update l (File (if appending then c else [])) d)
                | None \<Rightarrow> (Inr l, AList.update l (File []) d))))"

definition file_bytes :: "disk \<Rightarrow> location \<Rightarrow> byte list" where
  "file_bytes d l = (case node_at d l of Some (File c) \<Rightarrow> c | _ \<Rightarrow> [])"

definition append_out :: "Faults \<Rightarrow> disk \<Rightarrow> location \<Rightarrow> byte list \<Rightarrow> bool \<times> disk" where
  "append_out f d l bytes =
     (let failed = fails f Sys_write l; arrived = (if failed then take (kept f l) bytes else bytes)
      in (\<not> failed, AList.update l (File (file_bytes d l @ arrived)) d))"

text \<open>Opening for reading, at the end: the contents whose length \<^verbatim>\<open>tellg\<close> reports.\<close>

definition open_in :: "Faults \<Rightarrow> disk \<Rightarrow> location \<Rightarrow> errc + byte list" where
  "open_in f d p =
     (if fails f Sys_open p then Inl io_error
      else and_then (resolve d [] p) (\<lambda>l.
        case node_at d l of
          None \<Rightarrow> Inl no_such_file_or_directory
        | Some Dir \<Rightarrow> Inl is_a_directory
        | Some (File c) \<Rightarrow> Inr c))"

section \<open>Well-formed disks\<close>

definition plain_path :: "location \<Rightarrow> bool" where
  "plain_path p \<longleftrightarrow> (\<forall>n \<in> set p. n \<noteq> [] \<and> n \<noteq> ''.'' \<and> n \<noteq> ''..'' \<and> slash \<notin> set n)"

definition disk_wf :: "disk \<Rightarrow> bool" where
  "disk_wf d \<longleftrightarrow> distinct (keys d) \<and> [] \<notin> set (keys d)
     \<and> (\<forall>l \<in> set (keys d). plain_path l \<and> node_at d (butlast l) = Some Dir)"

lemma plain_path_simps [simp]:
  "plain_path []"
  "plain_path (n # ns) \<longleftrightarrow> n \<noteq> [] \<and> n \<noteq> ''.'' \<and> n \<noteq> ''..'' \<and> slash \<notin> set n \<and> plain_path ns"
  "plain_path (p @ q) \<longleftrightarrow> plain_path p \<and> plain_path q"
  by (auto simp: plain_path_def)

lemma plain_path_butlast: "plain_path p \<Longrightarrow> plain_path (butlast p)"
  by (auto simp: plain_path_def dest: in_set_butlastD)

lemma node_at_Nil [simp]: "node_at d [] = Some Dir"
  by (simp add: node_at_def)

lemma node_at_update [simp]:
  "l \<noteq> [] \<Longrightarrow> node_at (AList.update l n d) k = (if k = l then Some n else node_at d k)"
  by (simp add: node_at_def)

lemma node_at_delete [simp]:
  "l \<noteq> [] \<Longrightarrow> node_at (AList.delete l d) k = (if k = l then None else node_at d k)"
  by (simp add: node_at_def)

lemma node_at_SomeD: "node_at d l = Some n \<Longrightarrow> l \<noteq> [] \<Longrightarrow> l \<in> set (keys d)"
  by (auto simp: node_at_def dest: map_of_SomeD intro: rev_image_eqI)

lemma node_at_in_keys: "l \<noteq> [] \<Longrightarrow> l \<in> set (keys d) \<longleftrightarrow> node_at d l \<noteq> None"
  by (auto simp: node_at_def map_of_eq_None_iff)

lemma disk_wf_iff:
  "disk_wf d \<longleftrightarrow> distinct (keys d) \<and> [] \<notin> set (keys d)
     \<and> (\<forall>l. l \<noteq> [] \<and> node_at d l \<noteq> None \<longrightarrow> plain_path l \<and> node_at d (butlast l) = Some Dir)"
proof -
  have "l \<in> set (keys d) \<longleftrightarrow> l \<noteq> [] \<and> node_at d l \<noteq> None" if "[] \<notin> set (keys d)" for l
    using that node_at_in_keys by (cases "l = []") simp_all
  then show ?thesis unfolding disk_wf_def by blast
qed

lemma disk_wf_parent:
  "disk_wf d \<Longrightarrow> node_at d (l @ [x]) \<noteq> None \<Longrightarrow> node_at d l = Some Dir"
  unfolding disk_wf_iff by (metis Nil_is_append_conv butlast_snoc not_Cons_self2)

lemma disk_wf_prefix:
  assumes "disk_wf d" "node_at d (l @ r) \<noteq> None" "r \<noteq> []"
  shows "node_at d l = Some Dir"
  using assms(2,3)
proof (induction r rule: rev_induct)
  case (snoc x r)
  then have "node_at d (l @ r) = Some Dir" using disk_wf_parent [OF assms(1), of "l @ r" x] by simp
  with snoc.IH show ?case by (cases "r = []") simp_all
qed simp

text \<open>On a plain path, resolution succeeds exactly when the parent is a directory.\<close>

lemma resolve_plain:
  "plain_path p \<Longrightarrow> resolve d cwd p = Inr l \<Longrightarrow> l = cwd @ p"
proof (induction p arbitrary: cwd)
  case (Cons n p)
  then have "resolve d (cwd @ [n]) p = Inr l" by (auto split: option.splits node.splits)
  with Cons.IH [of "cwd @ [n]"] Cons.prems(1) have "l = (cwd @ [n]) @ p" by simp
  then show ?case by simp
qed simp

lemma resolve_plain_dirs:
  assumes "disk_wf d"
  shows "plain_path p \<Longrightarrow> p \<noteq> [] \<Longrightarrow>
    (resolve d cwd p = Inr (cwd @ p)) = (node_at d (cwd @ butlast p) = Some Dir)"
proof (induction p arbitrary: cwd)
  case (Cons n p)
  show ?case
  proof (cases "p = []")
    case True
    with Cons.prems show ?thesis by (auto split: option.splits node.splits)
  next
    case False
    have up: "node_at d cwd = Some Dir" if "node_at d ((cwd @ [n]) @ butlast p) = Some Dir"
      using disk_wf_prefix [OF assms, of cwd "n # butlast p"] that by simp
    from False Cons.IH [of "cwd @ [n]"] Cons.prems
    have "(resolve d (cwd @ [n]) p = Inr ((cwd @ [n]) @ p))
      = (node_at d ((cwd @ [n]) @ butlast p) = Some Dir)" by simp
    then have "(resolve d (cwd @ [n]) p = Inr (cwd @ n # p)) = (node_at d (cwd @ n # butlast p) = Some Dir)"
      by simp
    with up False Cons.prems show ?thesis by (auto split: option.splits node.splits)
  qed
qed simp

lemma resolve_node:
  assumes "disk_wf d" "plain_path p" "node_at d p = Some n"
  shows "resolve d [] p = Inr p"
proof (cases "p = []")
  case False
  then have "node_at d (butlast p) = Some Dir"
    using assms(1,3) disk_wf_iff by blast
  with resolve_plain_dirs [OF assms(1,2) False, of "[]"] show ?thesis by simp
qed simp

lemma resolve_cases:
  assumes "plain_path p"
  obtains e where "resolve d [] p = Inl e" | "resolve d [] p = Inr p"
  using resolve_plain [OF assms, of d "[]"] by (cases "resolve d [] p") auto

lemma fs_status_plain:
  assumes "disk_wf d" "plain_path p" "\<not> fails f Sys_status p"
  shows "fs_status f d p = Inr (node_at d p)"
proof (cases "resolve d [] p")
  case (Inl e)
  then have "node_at d p = None" using resolve_node [OF assms(1,2)] by fastforce
  with Inl assms(3) show ?thesis by (simp add: fs_status_def)
next
  case (Inr l)
  with resolve_plain [OF assms(2) Inr] assms(3) show ?thesis by (simp add: fs_status_def)
qed

section \<open>What the calls do to a well-formed disk\<close>

lemma has_children_keys:
  "has_children d l \<longleftrightarrow> (\<exists>k \<in> set (keys d). k \<noteq> [] \<and> butlast k = l)"
  by (force simp: has_children_def list_ex_iff)

lemma file_has_no_children:
  assumes "disk_wf d" "node_at d l \<noteq> Some Dir"
  shows "\<not> has_children d l"
proof
  assume "has_children d l"
  then obtain k where "k \<in> set (keys d)" "k \<noteq> []" "butlast k = l"
    by (auto simp: has_children_keys)
  with assms show False unfolding disk_wf_def by metis
qed

lemma has_children_iff:
  "has_children d l \<longleftrightarrow> (\<exists>x. node_at d (l @ [x]) \<noteq> None)"
proof
  assume "has_children d l"
  then obtain k where "k \<in> set (keys d)" "k \<noteq> []" "butlast k = l"
    by (auto simp: has_children_keys)
  then have "node_at d (l @ [last k]) \<noteq> None"
    using node_at_in_keys [of k d] append_butlast_last_id [of k] by simp
  then show "\<exists>x. node_at d (l @ [x]) \<noteq> None" ..
next
  assume "\<exists>x. node_at d (l @ [x]) \<noteq> None"
  then obtain x where "l @ [x] \<in> set (keys d)" using node_at_in_keys by blast
  then show "has_children d l" by (force simp: has_children_keys)
qed

lemma disk_wf_update:
  assumes "disk_wf d" "l \<noteq> []" "plain_path l" "node_at d (butlast l) = Some Dir" "node_at d l \<noteq> Some Dir \<or> n = Dir"
  shows "disk_wf (AList.update l n d)"
proof -
  have "plain_path k \<and> node_at (AList.update l n d) (butlast k) = Some Dir"
    if "k \<noteq> []" "node_at (AList.update l n d) k \<noteq> None" for k
    using that assms disk_wf_iff [of d] by (auto split: if_splits)
  moreover have "[] \<notin> set (keys (AList.update l n d))"
    using assms(1,2) by (simp add: disk_wf_def dom_update)
  ultimately show ?thesis using assms(1) by (simp add: disk_wf_iff)
qed

lemma disk_wf_delete:
  assumes "disk_wf d" "l \<noteq> []" "\<not> has_children d l"
  shows "disk_wf (AList.delete l d)"
proof -
  have "plain_path k \<and> node_at (AList.delete l d) (butlast k) = Some Dir"
    if "k \<noteq> []" "node_at (AList.delete l d) k \<noteq> None" for k
  proof -
    have k: "node_at d k \<noteq> None" "k \<noteq> l" using that assms(2) by (auto split: if_splits)
    have "butlast k \<noteq> l"
      using assms(3) k(1) that(1) has_children_iff [of d l] append_butlast_last_id [of k] by metis
    with k that(1) assms show ?thesis by (simp add: disk_wf_iff)
  qed
  moreover have "[] \<notin> set (keys (AList.delete l d))"
    using assms(1) by (auto simp: disk_wf_def delete_keys)
  ultimately show ?thesis using assms(1) by (simp add: disk_wf_iff)
qed

text \<open>\<open>grown d d'\<close>: only directories were added.\<close>

definition grown :: "disk \<Rightarrow> disk \<Rightarrow> bool" where
  "grown d d' \<longleftrightarrow> (\<forall>k. node_at d' k = node_at d k \<or> node_at d k = None \<and> node_at d' k = Some Dir)"

lemma grown_refl [simp]: "grown d d"
  by (simp add: grown_def)

lemma grown_trans: "grown d e \<Longrightarrow> grown e f \<Longrightarrow> grown d f"
  unfolding grown_def by metis

lemma grown_file: "grown d d' \<Longrightarrow> node_at d' k = Some (File c) \<longleftrightarrow> node_at d k = Some (File c)"
  unfolding grown_def by (metis node.distinct(1) option.distinct(1) option.inject)

lemma grown_dir: "grown d d' \<Longrightarrow> node_at d k = Some Dir \<Longrightarrow> node_at d' k = Some Dir"
  unfolding grown_def by (metis option.distinct(1))

lemma make_directories_grown:
  "make_directories f d made names = (r, d') \<Longrightarrow> disk_wf d \<Longrightarrow> node_at d made = Some Dir \<Longrightarrow>
   plain_path (made @ names) \<Longrightarrow>
   disk_wf d' \<and> grown d d' \<and> (r = None \<longrightarrow> node_at d' (made @ names) = Some Dir)"
proof (induction names arbitrary: d made)
  case (Cons n ns)
  let ?h = "made @ [n]" and ?e = "AList.update (made @ [n]) Dir d"
  show ?case
  proof (cases "node_at d ?h")
    case None
    have e: "disk_wf ?e" using Cons.prems None by (intro disk_wf_update) simp_all
    have "grown d ?e" using None by (auto simp: grown_def)
    with e Cons.IH [of ?e ?h] Cons.prems None show ?thesis
      by (auto simp: Let_def split: if_splits intro: grown_trans)
  next
    case (Some x)
    with Cons.IH [of d ?h] Cons.prems show ?thesis
      by (cases x) (auto simp: Let_def)
  qed
qed auto

lemma create_directories_grown:
  assumes "fs_create_directories f d p = (r, d')" "disk_wf d" "plain_path p"
  shows "disk_wf d' \<and> grown d d' \<and> (r = None \<longrightarrow> node_at d' p = Some Dir)"
  using assms make_directories_grown [of f d "[]" p r d']
  by (auto simp: fs_create_directories_def split: if_splits)

lemma make_directories_done:
  "disk_wf d \<Longrightarrow> node_at d (made @ names) = Some Dir \<Longrightarrow> make_directories f d made names = (None, d)"
proof (induction names arbitrary: made)
  case (Cons n ns)
  have "node_at d (made @ [n]) = Some Dir"
    using Cons.prems disk_wf_prefix [of d "made @ [n]" ns] by (cases "ns = []") simp_all
  with Cons.IH [of "made @ [n]"] Cons.prems show ?case by simp
qed simp

lemma create_directories_done:
  "disk_wf d \<Longrightarrow> node_at d p = Some Dir \<Longrightarrow> \<not> fails f Sys_status p \<Longrightarrow>
   fs_create_directories f d p = (None, d)"
  by (simp add: fs_create_directories_def make_directories_done)

lemma create_directory_grown:
  assumes "fs_create_directory f d p = (r, d')" "disk_wf d" "plain_path p"
  shows "disk_wf d' \<and> grown d d'"
proof (rule resolve_cases [OF assms(3), of d])
  assume r: "resolve d [] p = Inr p"
  show ?thesis
  proof (cases "node_at d p")
    case None
    then have ne: "p \<noteq> []" by auto
    with r resolve_plain_dirs [OF assms(2,3), of "[]"] have "node_at d (butlast p) = Some Dir" by simp
    with assms ne None r show ?thesis
      by (auto simp: fs_create_directory_def grown_def intro: disk_wf_update split: if_splits)
  qed (use assms r in \<open>auto simp: fs_create_directory_def split: if_splits node.splits\<close>)
qed (use assms in \<open>auto simp: fs_create_directory_def split: if_splits\<close>)

lemma open_out_ok:
  assumes "open_out f d p appending = (Inr l, d')" "disk_wf d" "plain_path p"
  shows "l = p \<and> p \<noteq> [] \<and> disk_wf d' \<and> node_at d p \<noteq> Some Dir \<and> node_at d (butlast p) = Some Dir
    \<and> (\<forall>k. node_at d' k = (if k = p then Some (File (if appending then file_bytes d p else [])) else node_at d k))"
proof -
  have r: "resolve d [] p = Inr p" and l: "l = p" and ne: "p \<noteq> []" and nd: "node_at d p \<noteq> Some Dir"
    using assms(1) resolve_plain [OF assms(3), of d "[]"]
    by (auto simp: open_out_def split: if_splits sum.splits option.splits node.splits)
  from r resolve_plain_dirs [OF assms(2,3) ne, of "[]"] have b: "node_at d (butlast p) = Some Dir" by simp
  have d': "d' = AList.update p (File (if appending then file_bytes d p else [])) d"
    using assms(1) r nd
    by (auto simp: open_out_def file_bytes_def split: if_splits option.splits node.splits)
  show ?thesis
    unfolding d' using l ne nd b assms(2,3) by (simp add: disk_wf_update)
qed

lemma open_out_failed: "open_out f d p appending = (Inl e, d') \<Longrightarrow> d' = d"
  by (auto simp: open_out_def split: if_splits sum.splits option.splits node.splits)

lemma append_out_ok:
  assumes "append_out f d l bytes = (r, d')" "disk_wf d" "node_at d l = Some (File c)"
  shows "disk_wf d' \<and> (\<forall>k. k \<noteq> l \<longrightarrow> node_at d' k = node_at d k)
    \<and> (\<exists>c'. node_at d' l = Some (File c') \<and> (r \<longrightarrow> c' = c @ bytes))"
proof -
  have ne: "l \<noteq> []" using assms(3) by auto
  then have b: "node_at d (butlast l) = Some Dir" "plain_path l" using assms(2,3) disk_wf_iff by blast+
  from assms ne b show ?thesis
    by (auto simp: append_out_def Let_def file_bytes_def intro!: disk_wf_update)
qed

lemma remove_ok:
  assumes "fs_remove f d p = (r, d')" "disk_wf d" "plain_path p"
  shows "disk_wf d' \<and> (if r = Inr True then p \<noteq> [] \<and> node_at d p \<noteq> None \<and> \<not> has_children d p
      \<and> (\<forall>k. node_at d' k = (if k = p then None else node_at d k)) else d' = d)"
proof (rule resolve_cases [OF assms(3), of d])
  assume r: "resolve d [] p = Inr p"
  then show ?thesis
    using assms file_has_no_children [OF assms(2), of p]
    by (auto simp: fs_remove_def intro: disk_wf_delete split: if_splits option.splits node.splits)
qed (use assms in \<open>auto simp: fs_remove_def split: if_splits\<close>)

lemma rename_failed: "fs_rename f d p q = (Some e, d') \<Longrightarrow> d' = d"
  by (auto simp: fs_rename_def split: if_splits sum.splits option.splits node.splits)

lemma rename_resolves:
  assumes "fs_rename f d p q = (None, d')" "plain_path p" "plain_path q"
  shows "resolve d [] p = Inr p" "resolve d [] q = Inr q" "node_at d p \<noteq> None"
  using assms resolve_plain [OF assms(2), of d "[]"] resolve_plain [OF assms(3), of d "[]"]
  by (auto simp: fs_rename_def split: if_splits sum.splits)

lemma rename_file_ok:
  assumes ren: "fs_rename f d p q = (None, d')" and wf: "disk_wf d" and plain: "plain_path p" "plain_path q"
    and c: "node_at d p = Some (File c)" and ne: "p \<noteq> q"
  shows "disk_wf d' \<and> q \<noteq> [] \<and> node_at d q \<noteq> Some Dir
    \<and> (\<forall>k. node_at d' k = (if k = q then Some (File c) else if k = p then None else node_at d k))"
proof -
  note r = rename_resolves [OF ren plain]
  have d': "d' = AList.update q (File c) (AList.delete p d)" and q: "node_at d q \<noteq> Some Dir" "q \<noteq> []"
    using ren r c ne by (auto simp: fs_rename_def split: if_splits option.splits node.splits)
  have p: "p \<noteq> []" using c by auto
  have wfp: "disk_wf (AList.delete p d)"
    using wf p c file_has_no_children [OF wf, of p] by (intro disk_wf_delete) auto
  have "node_at d (butlast q) = Some Dir"
    using r(2) resolve_plain_dirs [OF wf plain(2) q(2), of "[]"] by simp
  with c have "node_at (AList.delete p d) (butlast q) = Some Dir" using p by auto
  with wfp p q plain(2) have "disk_wf d'" unfolding d' by (intro disk_wf_update) auto
  with q p show ?thesis unfolding d' by simp
qed

lemma distinct_rekeyed:
  assumes "distinct (keys d)" "inj_on g (set (keys d))"
  shows "distinct (keys (map (\<lambda>(k, n). (g k, n)) d))"
proof -
  have "keys (map (\<lambda>(k, n). (g k, n)) d) = map g (keys d)" by (induction d) auto
  with assms show ?thesis by (simp only: distinct_map)
qed

lemma map_of_rekeyed:
  assumes "distinct (keys d)" "inj_on g (set (keys d))"
  shows "map_of (map (\<lambda>(k, n). (g k, n)) d) k' = Some n \<longleftrightarrow> (\<exists>k. g k = k' \<and> map_of d k = Some n)"
proof -
  have "distinct (keys (map (\<lambda>(k, n). (g k, n)) d))"
    by (rule distinct_rekeyed [OF assms])
  then have "map_of (map (\<lambda>(k, n). (g k, n)) d) k' = Some n \<longleftrightarrow> (k', n) \<in> set (map (\<lambda>(k, n). (g k, n)) d)"
    by (rule set_alist_map_of [symmetric])
  also have "\<dots> \<longleftrightarrow> (\<exists>k. g k = k' \<and> map_of d k = Some n)"
    using set_alist_map_of [OF assms(1)] by (force simp: image_iff)
  finally show ?thesis .
qed

text \<open>Where a node of the renamed tree was before.\<close>

definition moved_from :: "location \<Rightarrow> location \<Rightarrow> location \<Rightarrow> location option" where
  "moved_from old new k =
     (if prefix new k then Some (old @ drop (length new) k) else if prefix old k then None else Some k)"

lemma prefix_butlast: "prefix q (butlast k) \<Longrightarrow> prefix q k"
  by (metis prefixeq_butlast prefix_order.trans)

lemma moved_from_butlast:
  assumes np: "\<not> prefix p q" and nq: "\<not> prefix q p" and l: "moved_from p q k = Some l" and k: "k \<noteq> []"
  shows "moved_from p q (butlast k) = Some (if k = q then butlast q else butlast l) \<and> (k = q \<or> l \<noteq> [])"
proof (cases "prefix q k")
  case True
  then obtain s where s: "k = q @ s" by (auto simp: prefix_def)
  show ?thesis
  proof (cases "s = []")
    case True
    have "\<not> prefix q (butlast q)" using k s True by (metis append_Nil2 append_butlast_last_id not_Cons_self2 prefix_order.antisym prefixeq_butlast self_append_conv)
    moreover have "\<not> prefix p (butlast q)" using np prefix_butlast by blast
    ultimately show ?thesis using s True by (simp add: moved_from_def)
  next
    case False
    then have b: "butlast k = q @ butlast s" using s by (simp add: butlast_append)
    have "l = p @ s" using l s by (simp add: moved_from_def)
    with b s False show ?thesis by (simp add: moved_from_def butlast_append)
  qed
next
  case False
  with l have lk: "l = k" "\<not> prefix p k" by (auto simp: moved_from_def split: if_splits)
  with False k show ?thesis using prefix_butlast by (auto simp: moved_from_def)
qed

lemma move_tree_node:
  assumes wf: "disk_wf d" and old: "old \<noteq> []" "node_at d old = Some Dir"
    and new: "new \<noteq> []" "node_at d new = None" "\<not> prefix old new" "\<not> prefix new old"
  shows "distinct (keys (move_tree old new d))"
    and "node_at (move_tree old new d) k = (case moved_from old new k of None \<Rightarrow> None | Some l \<Rightarrow> node_at d l)"
proof -
  define g where "g k = (if prefix old k then new @ drop (length old) k else k)" for k
  have nokey: "new \<notin> set (keys d)" using new(1,2) node_at_in_keys by blast
  then have del: "AList.delete new d = d" by (intro delete_id) (auto simp: image_iff)
  have below: "\<not> prefix new k" if "k \<in> set (keys d)" for k
  proof
    assume "prefix new k"
    then obtain r where r: "k = new @ r" by (auto simp: prefix_def)
    have "node_at d k \<noteq> None"
      using that wf node_at_in_keys [of k d] by (cases "k = []") (auto simp: disk_wf_def)
    with r disk_wf_prefix [OF wf, of new r] new(2) show False by (cases "r = []") auto
  qed
  have inj: "inj_on g (set (keys d))"
    using below by (auto simp: inj_on_def g_def prefix_def)
  have mt: "move_tree old new d = map (\<lambda>(k, n). (g k, n)) d"
    by (simp add: move_tree_def del g_def)
  have dist: "distinct (keys d)" using wf by (simp add: disk_wf_def)
  show "distinct (keys (move_tree old new d))"
    unfolding mt by (rule distinct_rekeyed [OF dist inj])
  have mo: "map_of (move_tree old new d) k = Some n \<longleftrightarrow>
      (\<exists>l. moved_from old new k = Some l \<and> map_of d l = Some n)" for k n
  proof -
    have "(\<exists>l. g l = k \<and> map_of d l = Some n) \<longleftrightarrow> (\<exists>l. moved_from old new k = Some l \<and> map_of d l = Some n)"
    proof
      assume "\<exists>l. g l = k \<and> map_of d l = Some n"
      then obtain l where l: "g l = k" "map_of d l = Some n" by blast
      then have "\<not> prefix new l" using below by (force dest: map_of_SomeD)
      have "moved_from old new k = Some l"
      proof (cases "prefix old l")
        case True
        then obtain s where s: "l = old @ s" by (auto simp: prefix_def)
        with l(1) have "k = new @ s" by (simp add: g_def)
        with s show ?thesis by (simp add: moved_from_def)
      next
        case False
        with l(1) have "k = l" by (simp add: g_def)
        with False \<open>\<not> prefix new l\<close> show ?thesis by (simp add: moved_from_def)
      qed
      with l show "\<exists>l. moved_from old new k = Some l \<and> map_of d l = Some n" by blast
    next
      assume "\<exists>l. moved_from old new k = Some l \<and> map_of d l = Some n"
      then obtain l where l: "moved_from old new k = Some l" "map_of d l = Some n" by blast
      then have "g l = k"
        by (auto simp: moved_from_def g_def prefix_def split: if_splits)
      with l show "\<exists>l. g l = k \<and> map_of d l = Some n" by blast
    qed
    then show ?thesis unfolding mt map_of_rekeyed [OF dist inj] .
  qed
  show "node_at (move_tree old new d) k = (case moved_from old new k of None \<Rightarrow> None | Some l \<Rightarrow> node_at d l)"
  proof (cases "k = []")
    case True
    with old(1) new(1) show ?thesis by (simp add: moved_from_def)
  next
    case False
    then have "l \<noteq> []" if "moved_from old new k = Some l" for l
      using that old(1) by (auto simp: moved_from_def split: if_splits)
    moreover have "map_of (move_tree old new d) k = (case moved_from old new k of None \<Rightarrow> None | Some l \<Rightarrow> map_of d l)"
    proof (cases "moved_from old new k")
      case None
      then have "map_of (move_tree old new d) k \<noteq> Some n" for n using mo [of k n] by simp
      then have "map_of (move_tree old new d) k = None" by (meson not_Some_eq)
      with None show ?thesis by simp
    next
      case (Some l)
      with mo [of k] have "map_of (move_tree old new d) k = Some n \<longleftrightarrow> map_of d l = Some n" for n by simp
      then have "map_of (move_tree old new d) k = map_of d l" by (metis not_Some_eq)
      with Some show ?thesis by simp
    qed
    ultimately show ?thesis using False by (simp add: node_at_def split: option.split)
  qed
qed

lemma rename_dir_ok:
  assumes ren: "fs_rename f d p q = (None, d')" and wf: "disk_wf d" and plain: "plain_path p" "plain_path q"
    and dir: "p \<noteq> []" "node_at d p = Some Dir" and new: "node_at d q = None"
  shows "disk_wf d' \<and> q \<noteq> [] \<and> \<not> prefix p q \<and> \<not> prefix q p
    \<and> (\<forall>k. node_at d' k = (case moved_from p q k of None \<Rightarrow> None | Some l \<Rightarrow> node_at d l))"
proof -
  note r = rename_resolves [OF ren plain]
  have q: "q \<noteq> []" "p \<noteq> q" using dir(2) new by auto
  have d': "d' = move_tree p q d" and np: "\<not> prefix p q"
    using ren r dir new q by (auto simp: fs_rename_def split: if_splits)
  have nq: "\<not> prefix q p"
  proof
    assume "prefix q p"
    then obtain s where "p = q @ s" by (auto simp: prefix_def)
    with disk_wf_prefix [OF wf, of q s] dir(2) new q show False by auto
  qed
  note mt = move_tree_node [OF wf dir q(1) new np nq]
  have qb: "node_at d (butlast q) = Some Dir"
    using r(2) resolve_plain_dirs [OF wf plain(2) q(1), of "[]"] by simp
  have "plain_path k \<and> node_at d' (butlast k) = Some Dir" if k: "k \<noteq> []" "node_at d' k \<noteq> None" for k
  proof -
    obtain l where l: "moved_from p q k = Some l" "node_at d l \<noteq> None"
      using k(2) mt(2) [of k] by (auto simp: d' split: option.splits)
    have "moved_from p q (butlast k) = Some (if k = q then butlast q else butlast l) \<and> (k = q \<or> l \<noteq> [])"
      by (rule moved_from_butlast [OF np nq l(1) k(1)])
    moreover have "plain_path k"
    proof (cases "l = []")
      case True
      with l(1) k(1) dir(1) plain(2) show ?thesis by (auto simp: moved_from_def split: if_splits)
    next
      case False
      with l(2) wf have "plain_path l" by (simp add: disk_wf_iff)
      with l(1) plain(2) show ?thesis by (auto simp: moved_from_def split: if_splits elim!: prefixE)
    qed
    ultimately show ?thesis using l wf qb mt(2) [of "butlast k"] by (auto simp: d' disk_wf_iff)
  qed
  moreover have "[] \<notin> set (keys d')"
  proof
    assume "[] \<in> set (keys d')"
    then obtain k n where kn: "(k, n) \<in> set (AList.delete q d)" "[] = (if prefix p k then q @ drop (length p) k else k)"
      by (auto simp: d' move_tree_def)
    with q(1) have "k = []" by (auto split: if_splits)
    with kn(1) have "[] \<in> set (keys (AList.delete q d))" by force
    then show False using wf by (simp add: delete_keys disk_wf_def)
  qed
  ultimately have "disk_wf d'" using mt(1) by (simp add: disk_wf_iff d')
  with q(1) np nq mt(2) show ?thesis by (simp add: d')
qed

end
