(* ===== verification/Rpc.thy ===== *)
theory Rpc
  imports Messages
begin

text \<open>
  The RPC layer, \<^verbatim>\<open>common/rpc/Rpc.hpp\<close>: frames that carry a request id, a job and a kind,
  their validation, and the predicates with which a node picks messages from its queue.
  The template parameter \<^verbatim>\<open>Job\<close> with its \<^verbatim>\<open>RpcTraits\<close> is a record of the enumeration's
  casts and its message type.
\<close>

section \<open>Headers and messages\<close>

datatype RpcKind = Response | Request | RpcKind_raw u8

fun kind_to_u8 :: "RpcKind \<Rightarrow> u8" where
  "kind_to_u8 Response = 0"
| "kind_to_u8 Request = 1"
| "kind_to_u8 (RpcKind_raw b) = b"

definition kind_of_u8 :: "u8 \<Rightarrow> RpcKind" where
  "kind_of_u8 b = (if b = 0 then Response else if b = 1 then Request else RpcKind_raw b)"

definition kind_ok :: "RpcKind \<Rightarrow> bool" where
  "kind_ok k \<longleftrightarrow> kind_of_u8 (kind_to_u8 k) = k"

record 'j RpcHeader =
  rpc_request_id :: u64
  rpc_job :: 'j
  rpc_kind :: RpcKind

record 'j RpcMessage =
  rpc_sender :: NodeIdentity
  rpc_message_header :: MessageHeader
  rpc_header :: "'j RpcHeader"
  rpc_body :: "byte list"

record 'j RpcTraits =
  job_to_u8 :: "'j \<Rightarrow> u8"
  job_of_u8 :: "u8 \<Rightarrow> 'j"
  rpc_message_type :: MessageType

record RequestContext =
  ctx_request_id :: u64
  ctx_sender :: NodeIdentity

definition context_from :: "'j RpcMessage \<Rightarrow> RequestContext" where
  "context_from m = \<lparr>ctx_request_id = rpc_request_id (rpc_header m), ctx_sender = rpc_sender m\<rparr>"

section \<open>Building and validating\<close>

definition validate_message :: "'j RpcTraits \<Rightarrow> Message \<Rightarrow> exn + unit" where
  "validate_message T m =
     (if hdr_magic (msg_header m) \<noteq> HEADER_MAGIC then Inl RuntimeError
      else if hdr_type (msg_header m) \<noteq> rpc_message_type T then Inl RuntimeError
      else if unat (hdr_length (msg_header m)) \<noteq> length (msg_buffer m) then Inl RuntimeError
      else Inr ())"

definition validate_rpc_kind :: "'j RpcMessage \<Rightarrow> exn + unit" where
  "validate_rpc_kind m =
     (if rpc_kind (rpc_header m) \<noteq> Request \<and> rpc_kind (rpc_header m) \<noteq> Response
      then Inl RuntimeError else Inr ())"

definition make_frame :: "'j RpcTraits \<Rightarrow> u64 \<Rightarrow> 'j \<Rightarrow> RpcKind \<Rightarrow> byte list \<Rightarrow> exn + Frame" where
  "make_frame T request_id job kind buffer =
     and_then
       (write_all [write_integral request_id, write_enum (job_to_u8 T) job,
                   write_enum kind_to_u8 kind, write_bytes buffer] new_writer) (\<lambda>writer.
     and_then (writer_length writer) (\<lambda>len.
     and_then (move_data writer) (\<lambda>(bytes, _).
       Inr \<lparr>frame_header = \<lparr>hdr_magic = HEADER_MAGIC, hdr_length = len, hdr_type = rpc_message_type T\<rparr>,
            frame_buffer = bytes\<rparr>)))"

definition read_header :: "'j RpcTraits \<Rightarrow> 'j RpcHeader get" where
  "read_header T =
     get_then read_u64 (\<lambda>req_id. get_then (read_enum (job_of_u8 T)) (\<lambda>job.
       get_then (read_enum kind_of_u8) (\<lambda>kind.
         get_return \<lparr>rpc_request_id = req_id, rpc_job = job, rpc_kind = kind\<rparr>)))"

definition read_message :: "'j RpcTraits \<Rightarrow> Message \<Rightarrow> exn + 'j RpcMessage" where
  "read_message T m =
     and_then (validate_message T m) (\<lambda>_.
     and_then
       (decoded (get_then (read_header T) (\<lambda>h. get_then read_remaining (\<lambda>body. get_return (h, body))))
          (msg_buffer m)) (\<lambda>(h, body).
     let rpc_message = \<lparr>rpc_sender = msg_sender m, rpc_message_header = msg_header m,
                        rpc_header = h, rpc_body = body\<rparr>
     in and_then (validate_rpc_kind rpc_message) (\<lambda>_. Inr rpc_message)))"

section \<open>Predicates on queued messages\<close>

definition header_matches :: "'j RpcTraits \<Rightarrow> Message \<Rightarrow> bool" where
  "header_matches T m \<longleftrightarrow> hdr_magic (msg_header m) = HEADER_MAGIC
     \<and> hdr_type (msg_header m) = rpc_message_type T
     \<and> unat (hdr_length (msg_header m)) = length (msg_buffer m)"

definition message_is :: "'j RpcTraits \<Rightarrow> RpcKind \<Rightarrow> Message \<Rightarrow> bool" where
  "message_is T kind m =
     (if \<not> header_matches T m then False
      else (case decoded (get_then read_u64 (\<lambda>_. get_then (read_enum (job_of_u8 T)) (\<lambda>_.
                   read_enum kind_of_u8))) (msg_buffer m) of
              Inl _ \<Rightarrow> False
            | Inr actual_kind \<Rightarrow> actual_kind = kind))"

definition match_any_body :: "bool get" where
  "match_any_body = get_return True"

text \<open>The body predicate that compares the leading chunk index.\<close>

definition chunk_index_is :: "u32 \<Rightarrow> bool get" where
  "chunk_index_is expected = get_then read_u32 (\<lambda>i. get_return (i = expected))"

definition make_message_is ::
  "'j RpcTraits \<Rightarrow> u64 \<Rightarrow> 'j \<Rightarrow> RpcKind \<Rightarrow> NodeId \<Rightarrow> bool get \<Rightarrow> Message \<Rightarrow> bool" where
  "make_message_is T request_id job kind sender body_predicate m =
     (if peer_id (msg_sender m) \<noteq> sender \<or> \<not> header_matches T m then False
      else (case decoded (get_then (read_header T) (\<lambda>h.
                   if rpc_request_id h \<noteq> request_id \<or> rpc_job h \<noteq> job \<or> rpc_kind h \<noteq> kind
                   then get_return False else body_predicate)) (msg_buffer m) of
              Inl _ \<Rightarrow> False
            | Inr b \<Rightarrow> b))"

section \<open>The enumerations as codecs\<close>

interpretation fkind: enum_codec kind_to_u8 kind_of_u8 kind_ok
  by unfold_locales (auto simp: kind_ok_def kind_of_u8_def)

lemma named_kinds_ok [simp]: "kind_ok Request" "kind_ok Response"
  by (simp_all add: kind_ok_def kind_of_u8_def)

lemmas kind_codecs [codec] =
  fkind.put_writes fkind.get_back [simplified] fkind.get_back_end [simplified]

text \<open>The frame \<open>make_frame\<close> builds, without the writer.\<close>

definition rpc_frame :: "'j RpcTraits \<Rightarrow> u64 \<Rightarrow> 'j \<Rightarrow> RpcKind \<Rightarrow> byte list \<Rightarrow> Frame" where
  "rpc_frame T rid job kind body =
     (let bytes = be_bytes 8 rid @ job_to_u8 T job # kind_to_u8 kind # body
      in \<lparr>frame_header = \<lparr>hdr_magic = HEADER_MAGIC, hdr_length = word_of_nat (length bytes),
            hdr_type = rpc_message_type T\<rparr>, frame_buffer = bytes\<rparr>)"

lemma make_frame_eq: "make_frame T rid job kind body = Inr (rpc_frame T rid job kind body)"
  using write_all_writes [of
      "[write_integral rid, write_enum (job_to_u8 T) job, write_enum kind_to_u8 kind, write_bytes body]"
      "[be_bytes 8 rid, [job_to_u8 T job], [kind_to_u8 kind], body]" new_writer]
    writes_enum [of "job_to_u8 T" job]
  by (simp add: make_frame_def new_writer_def codec writer_length_def move_data_def rpc_frame_def Let_def)

lemma rpc_frame_sel [simp]:
  "hdr_magic (frame_header (rpc_frame T rid job kind body)) = HEADER_MAGIC"
  "hdr_type (frame_header (rpc_frame T rid job kind body)) = rpc_message_type T"
  "frame_buffer (rpc_frame T rid job kind body) = be_bytes 8 rid @ job_to_u8 T job # kind_to_u8 kind # body"
  by (simp_all add: rpc_frame_def Let_def)

text \<open>A body that leaves the 32-bit length exact; every frame the wire accepts is far below.\<close>

definition body_fits :: "byte list \<Rightarrow> bool" where
  "body_fits body \<longleftrightarrow> 10 + length body < 2 ^ 32"

lemma rpc_frame_length:
  "body_fits body \<Longrightarrow> unat (hdr_length (frame_header (rpc_frame T rid job kind body))) = 10 + length body"
proof -
  assume "body_fits body"
  then have "unat (word_of_nat (10 + length body) :: u32) = 10 + length body"
    by (simp only: unat_of_nat) (simp add: body_fits_def)
  moreover have "length (be_bytes 8 rid @ job_to_u8 T job # kind_to_u8 kind # body) = 10 + length body"
    by simp
  ultimately show ?thesis by (simp only: rpc_frame_def Let_def Frame.simps MessageHeader.simps)
qed

text \<open>What the decoder of the peer makes of an encoded message that \<open>sender\<close> sent.\<close>

definition delivered ::
  "'j RpcTraits \<Rightarrow> (u64 \<Rightarrow> 'r \<Rightarrow> exn + Frame) \<Rightarrow> ('j RpcMessage \<Rightarrow> exn + 'r)
   \<Rightarrow> NodeIdentity \<Rightarrow> u64 \<Rightarrow> 'r \<Rightarrow> exn + 'r" where
  "delivered T enc dec sender rid r =
     and_then (enc rid r) (\<lambda>f. and_then (read_message T (message_from sender f)) dec)"

section \<open>Laws of a job enumeration\<close>

text \<open>
  What the RPC layer needs of a job type: its casts invert each other on its enumerators.
\<close>

locale job_codec =
  fixes T :: "'j RpcTraits" and job_ok :: "'j \<Rightarrow> bool"
  assumes job_of_to: "job_ok j \<Longrightarrow> job_of_u8 T (job_to_u8 T j) = j"
    and job_to_of: "job_to_u8 T (job_of_u8 T b) = b"
begin

sublocale job: enum_codec "job_to_u8 T" "job_of_u8 T" job_ok
  by unfold_locales (rule job_of_to job_to_of, assumption?)+

lemma read_header_back:
  assumes "job_ok j" "kind_ok kind"
  shows "read_header T (reader_at pre (be_bytes 8 rid @ job_to_u8 T j # kind_to_u8 kind # xs)) =
    Inr (\<lparr>rpc_request_id = rid, rpc_job = j, rpc_kind = kind\<rparr>,
         reader_at (pre @ be_bytes 8 rid @ [job_to_u8 T j, kind_to_u8 kind]) xs)"
  using assms by (simp add: read_header_def codec job.get_back [simplified])

text \<open>The message a peer makes of a frame built here: same id, job, kind and body.\<close>

lemma read_message_back:
  assumes "job_ok j" "kind = Request \<or> kind = Response" "body_fits body"
  shows "read_message T (message_from sender (rpc_frame T rid j kind body)) =
    Inr \<lparr>rpc_sender = sender, rpc_message_header = frame_header (rpc_frame T rid j kind body),
         rpc_header = \<lparr>rpc_request_id = rid, rpc_job = j, rpc_kind = kind\<rparr>, rpc_body = body\<rparr>"
proof -
  have "kind_ok kind" using assms(2) by auto
  with assms show ?thesis
    by (auto simp: read_message_def validate_message_def rpc_frame_length decoded_def new_reader_at
        read_header_back Let_def validate_rpc_kind_def)
qed

text \<open>Such a frame passes exactly the filter for its own id, job, kind and sender.\<close>

lemma make_message_is_back:
  assumes "job_ok j" "kind_ok kind" "body_fits body"
  shows "make_message_is T rid' j' kind' sender' bp (message_from sender (rpc_frame T rid j kind body)) \<longleftrightarrow>
    peer_id sender = sender' \<and> rid = rid' \<and> j = j' \<and> kind = kind' \<and>
    (\<exists>r. bp (reader_at (be_bytes 8 rid @ [job_to_u8 T j, kind_to_u8 kind]) body) = Inr (True, r))"
  using assms
  by (auto simp: make_message_is_def header_matches_def rpc_frame_length decoded_def new_reader_at
      read_header_back split: sum.splits prod.splits)
     (auto simp: and_then_def split: sum.splits)

text \<open>A message that a filter picked is well formed: reading it cannot throw.\<close>

lemma make_message_is_reads:
  assumes "make_message_is T rid j kind sender bp m" "kind = Request \<or> kind = Response"
  obtains rm where "read_message T m = Inr rm" "rpc_request_id (rpc_header rm) = rid"
    "rpc_job (rpc_header rm) = j" "rpc_kind (rpc_header rm) = kind" "peer_id (rpc_sender rm) = sender"
    "rpc_sender rm = msg_sender m"
proof -
  obtain h r where h: "read_header T (new_reader (msg_buffer m)) = Inr (h, r)"
    and eq: "rpc_request_id h = rid" "rpc_job h = j" "rpc_kind h = kind"
    using assms(1) by (auto simp: make_message_is_def decoded_def and_then_def split: if_splits sum.splits)
  have "advances (read_header T)"
    by (simp add: read_header_def advances_intros advances_reads)
  then obtain ys zs where "r = reader_at ys zs"
    using advancesD [of "read_header T" "[]"] h by (fastforce simp: new_reader_at)
  with h eq assms show ?thesis
    by (intro that [of "\<lparr>rpc_sender = msg_sender m, rpc_message_header = msg_header m,
          rpc_header = h, rpc_body = zs\<rparr>"])
      (auto simp: read_message_def validate_message_def decoded_def make_message_is_def
        header_matches_def Let_def validate_rpc_kind_def split: if_splits)
qed

end

end
