(* ===== verification/ClientProtocol.thy ===== *)
theory ClientProtocol
  imports Rpc
begin

text \<open>
  The client--metadata protocol, \<^verbatim>\<open>common/rpc/ClientProtocol.hpp\<close> and
  \<^verbatim>\<open>ClientProtocol.cpp\<close>: the jobs, statuses and message types, one encoder and one
  decoder per message, and for each of them that decoding inverts encoding. A field that
  several messages share is prefixed with its message's initials.
\<close>

section \<open>Jobs, statuses and sizes\<close>

datatype ClientJob = CREATE_FILE | READ_FILE | WRITE_FILE | REMOVE | LIST | MKDIR | RENAME | STAT
  | READ_CHUNK | WRITE_CHUNK | ClientJob_raw u8

fun client_job_to_u8 :: "ClientJob \<Rightarrow> u8" where
  "client_job_to_u8 CREATE_FILE = 0"
| "client_job_to_u8 READ_FILE = 1"
| "client_job_to_u8 WRITE_FILE = 2"
| "client_job_to_u8 REMOVE = 3"
| "client_job_to_u8 LIST = 4"
| "client_job_to_u8 MKDIR = 5"
| "client_job_to_u8 RENAME = 6"
| "client_job_to_u8 STAT = 7"
| "client_job_to_u8 READ_CHUNK = 8"
| "client_job_to_u8 WRITE_CHUNK = 9"
| "client_job_to_u8 (ClientJob_raw b) = b"

definition client_job_of_u8 :: "u8 \<Rightarrow> ClientJob" where
  "client_job_of_u8 b =
     (if b = 0 then CREATE_FILE else if b = 1 then READ_FILE else if b = 2 then WRITE_FILE
      else if b = 3 then REMOVE else if b = 4 then LIST else if b = 5 then MKDIR
      else if b = 6 then RENAME else if b = 7 then STAT else if b = 8 then READ_CHUNK
      else if b = 9 then WRITE_CHUNK else ClientJob_raw b)"

definition client_job_ok :: "ClientJob \<Rightarrow> bool" where
  "client_job_ok j \<longleftrightarrow> client_job_of_u8 (client_job_to_u8 j) = j"

definition client_rpc :: "ClientJob RpcTraits" where
  "client_rpc = \<lparr>job_to_u8 = client_job_to_u8, job_of_u8 = client_job_of_u8, rpc_message_type = CLIENT_RPC\<rparr>"

type_synonym ClientRpcMessage = "ClientJob RpcMessage"

datatype ClientError = ErrAlreadyExists | ErrServerError | ErrBadResponse | ErrBadInput
  | ErrNotImplemented | ErrTimeout | ErrStorageFull | ErrReadError

datatype ClientStatus = Success | ServerError | InputError | AlreadyExists | ClientStatus_raw u8

fun client_status_to_u8 :: "ClientStatus \<Rightarrow> u8" where
  "client_status_to_u8 Success = 0"
| "client_status_to_u8 ServerError = 1"
| "client_status_to_u8 InputError = 2"
| "client_status_to_u8 AlreadyExists = 3"
| "client_status_to_u8 (ClientStatus_raw b) = b"

definition client_status_of_u8 :: "u8 \<Rightarrow> ClientStatus" where
  "client_status_of_u8 b = (if b = 0 then Success else if b = 1 then ServerError
     else if b = 2 then InputError else if b = 3 then AlreadyExists else ClientStatus_raw b)"

definition client_status_ok :: "ClientStatus \<Rightarrow> bool" where
  "client_status_ok s \<longleftrightarrow> client_status_of_u8 (client_status_to_u8 s) = s"

definition CHUNK_SIZE :: u32 where "CHUNK_SIZE = 512 * 1024"

section \<open>Message types\<close>

record FileInfo =
  fi_path :: string
  fi_is_directory :: bool

record FileStat =
  stat_path :: string
  stat_is_directory :: bool
  stat_node_0 :: NodeId
  stat_node_1 :: NodeId
  stat_object_id :: string
  stat_size :: u64
  stat_created_at :: time_point
  stat_modified_at :: time_point

record CreateFileRequest =
  cfq_path :: string
  cfq_context :: RequestContext

record CreateFileResponse =
  cfr_status :: ClientStatus
  cfr_context :: RequestContext

record ReadFileRequest =
  rfq_path :: string
  rfq_context :: RequestContext

record ReadFileResponse =
  rfr_status :: ClientStatus
  rfr_file_size :: u64
  rfr_chunk_count :: u32
  rfr_context :: RequestContext

record ReadChunkRequest =
  rcq_chunk_index :: u32
  rcq_context :: RequestContext

record ReadChunkResponse =
  rcr_chunk_index :: u32
  rcr_status :: ClientStatus
  rcr_data :: "byte list"
  rcr_context :: RequestContext

record WriteFileRequest =
  wfq_file_size :: u64
  wfq_chunk_count :: u32
  wfq_path :: string
  wfq_context :: RequestContext

record WriteFileResponse =
  wfr_status :: ClientStatus
  wfr_context :: RequestContext

record WriteChunkRequest =
  wcq_chunk_index :: u32
  wcq_data :: "byte list"
  wcq_context :: RequestContext

record WriteChunkResponse =
  wcr_chunk_index :: u32
  wcr_status :: ClientStatus
  wcr_context :: RequestContext

record RemoveRequest =
  rmq_path :: string
  rmq_context :: RequestContext

record RemoveResponse =
  rmr_status :: ClientStatus

record ListRequest =
  lsq_path :: string
  lsq_context :: RequestContext

record ListResponse =
  lsr_status :: ClientStatus
  lsr_info_vec :: "FileInfo list"
  lsr_context :: RequestContext

record MakeDirRequest =
  mdq_path :: string
  mdq_context :: RequestContext

record MakeDirResponse =
  mdr_status :: ClientStatus
  mdr_context :: RequestContext

record RenameRequest =
  rnq_old_path :: string
  rnq_new_path :: string
  rnq_context :: RequestContext

record RenameResponse =
  rnr_status :: ClientStatus
  rnr_context :: RequestContext

record StatRequest =
  stq_path :: string
  stq_context :: RequestContext

record StatResponse =
  str_status :: ClientStatus
  str_stat :: FileStat
  str_context :: RequestContext

text \<open>The default-constructed context the client fills into its requests.\<close>

definition empty_context :: RequestContext where
  "empty_context = \<lparr>ctx_request_id = 0, ctx_sender = \<lparr>peer_id = '''', peer_role = CLIENT\<rparr>\<rparr>"

section \<open>Encoders and decoders\<close>

definition validate_client_message :: "ClientJob \<Rightarrow> RpcKind \<Rightarrow> ClientRpcMessage \<Rightarrow> exn + unit" where
  "validate_client_message job kind m =
     (if rpc_kind (rpc_header m) \<noteq> kind then Inl RuntimeError
      else if rpc_job (rpc_header m) \<noteq> job then Inl RuntimeError
      else Inr ())"

text \<open>Write the fields and frame them; validate, read the fields and build the message.\<close>

definition encode_client :: "ClientJob \<Rightarrow> RpcKind \<Rightarrow> u64 \<Rightarrow> put list \<Rightarrow> exn + Frame" where
  "encode_client job kind request_id parts =
     and_then (written parts) (\<lambda>body. make_frame client_rpc request_id job kind body)"

definition decode_client :: "ClientJob \<Rightarrow> RpcKind \<Rightarrow> 'a get \<Rightarrow> ClientRpcMessage \<Rightarrow> exn + 'a" where
  "decode_client job kind parts m =
     and_then (validate_client_message job kind m) (\<lambda>_. decoded parts (rpc_body m))"

definition read_status :: "ClientStatus get" where
  "read_status = read_enum client_status_of_u8"

definition write_status :: "ClientStatus \<Rightarrow> put" where
  "write_status s = write_enum client_status_to_u8 s"

definition encode_create_file_request :: "u64 \<Rightarrow> CreateFileRequest \<Rightarrow> exn + Frame" where
  "encode_create_file_request request_id r =
     encode_client CREATE_FILE Request request_id [write_string (cfq_path r)]"

definition decode_create_file_request :: "ClientRpcMessage \<Rightarrow> exn + CreateFileRequest" where
  "decode_create_file_request m =
     decode_client CREATE_FILE Request
       (get_then read_string (\<lambda>path. get_then assert_at_end (\<lambda>_. 
          get_return \<lparr>cfq_path = path, cfq_context = context_from m\<rparr>))) m"

definition encode_create_file_response :: "u64 \<Rightarrow> CreateFileResponse \<Rightarrow> exn + Frame" where
  "encode_create_file_response request_id r =
     encode_client CREATE_FILE Response request_id [write_status (cfr_status r)]"

definition decode_create_file_response :: "ClientRpcMessage \<Rightarrow> exn + CreateFileResponse" where
  "decode_create_file_response m =
     decode_client CREATE_FILE Response
       (get_then read_status (\<lambda>status. get_then assert_at_end (\<lambda>_. 
          get_return \<lparr>cfr_status = status, cfr_context = context_from m\<rparr>))) m"

definition encode_read_file_request :: "u64 \<Rightarrow> ReadFileRequest \<Rightarrow> exn + Frame" where
  "encode_read_file_request request_id r =
     encode_client READ_FILE Request request_id [write_string (rfq_path r)]"

definition decode_read_file_request :: "ClientRpcMessage \<Rightarrow> exn + ReadFileRequest" where
  "decode_read_file_request m =
     decode_client READ_FILE Request
       (get_then read_string (\<lambda>path. get_then assert_at_end (\<lambda>_. 
          get_return \<lparr>rfq_path = path, rfq_context = context_from m\<rparr>))) m"

definition encode_read_file_response :: "u64 \<Rightarrow> ReadFileResponse \<Rightarrow> exn + Frame" where
  "encode_read_file_response request_id r =
     encode_client READ_FILE Response request_id [write_status (rfr_status r), write_integral (rfr_file_size r), write_integral (rfr_chunk_count r)]"

definition decode_read_file_response :: "ClientRpcMessage \<Rightarrow> exn + ReadFileResponse" where
  "decode_read_file_response m =
     decode_client READ_FILE Response
       (get_then read_status (\<lambda>status. get_then read_u64 (\<lambda>file_size. get_then read_u32 (\<lambda>chunk_count. get_then assert_at_end (\<lambda>_. 
          get_return \<lparr>rfr_status = status, rfr_file_size = file_size, rfr_chunk_count = chunk_count, rfr_context = context_from m\<rparr>))))) m"

definition encode_read_chunk_request :: "u64 \<Rightarrow> ReadChunkRequest \<Rightarrow> exn + Frame" where
  "encode_read_chunk_request request_id r =
     encode_client READ_CHUNK Request request_id [write_integral (rcq_chunk_index r)]"

definition decode_read_chunk_request :: "ClientRpcMessage \<Rightarrow> exn + ReadChunkRequest" where
  "decode_read_chunk_request m =
     decode_client READ_CHUNK Request
       (get_then read_u32 (\<lambda>chunk_index. get_then assert_at_end (\<lambda>_. 
          get_return \<lparr>rcq_chunk_index = chunk_index, rcq_context = context_from m\<rparr>))) m"

definition encode_read_chunk_response :: "u64 \<Rightarrow> ReadChunkResponse \<Rightarrow> exn + Frame" where
  "encode_read_chunk_response request_id r =
     encode_client READ_CHUNK Response request_id [write_integral (rcr_chunk_index r), write_status (rcr_status r), write_bytes (rcr_data r)]"

definition decode_read_chunk_response :: "ClientRpcMessage \<Rightarrow> exn + ReadChunkResponse" where
  "decode_read_chunk_response m =
     decode_client READ_CHUNK Response
       (get_then read_u32 (\<lambda>chunk_index. get_then read_status (\<lambda>status. get_then read_remaining (\<lambda>data. 
          get_return \<lparr>rcr_chunk_index = chunk_index, rcr_status = status, rcr_data = data, rcr_context = context_from m\<rparr>)))) m"

definition encode_write_file_request :: "u64 \<Rightarrow> WriteFileRequest \<Rightarrow> exn + Frame" where
  "encode_write_file_request request_id r =
     encode_client WRITE_FILE Request request_id [write_integral (wfq_file_size r), write_integral (wfq_chunk_count r), write_string (wfq_path r)]"

definition decode_write_file_request :: "ClientRpcMessage \<Rightarrow> exn + WriteFileRequest" where
  "decode_write_file_request m =
     decode_client WRITE_FILE Request
       (get_then read_u64 (\<lambda>file_size. get_then read_u32 (\<lambda>chunk_count. get_then read_string (\<lambda>path. get_then assert_at_end (\<lambda>_. 
          get_return \<lparr>wfq_file_size = file_size, wfq_chunk_count = chunk_count, wfq_path = path, wfq_context = context_from m\<rparr>))))) m"

definition encode_write_file_response :: "u64 \<Rightarrow> WriteFileResponse \<Rightarrow> exn + Frame" where
  "encode_write_file_response request_id r =
     encode_client WRITE_FILE Response request_id [write_status (wfr_status r)]"

definition decode_write_file_response :: "ClientRpcMessage \<Rightarrow> exn + WriteFileResponse" where
  "decode_write_file_response m =
     decode_client WRITE_FILE Response
       (get_then read_status (\<lambda>status. get_then assert_at_end (\<lambda>_. 
          get_return \<lparr>wfr_status = status, wfr_context = context_from m\<rparr>))) m"

definition encode_write_chunk_request :: "u64 \<Rightarrow> WriteChunkRequest \<Rightarrow> exn + Frame" where
  "encode_write_chunk_request request_id r =
     encode_client WRITE_CHUNK Request request_id [write_integral (wcq_chunk_index r), write_bytes (wcq_data r)]"

definition decode_write_chunk_request :: "ClientRpcMessage \<Rightarrow> exn + WriteChunkRequest" where
  "decode_write_chunk_request m =
     decode_client WRITE_CHUNK Request
       (get_then read_u32 (\<lambda>chunk_index. get_then read_remaining (\<lambda>data. 
          get_return \<lparr>wcq_chunk_index = chunk_index, wcq_data = data, wcq_context = context_from m\<rparr>))) m"

definition encode_write_chunk_response :: "u64 \<Rightarrow> WriteChunkResponse \<Rightarrow> exn + Frame" where
  "encode_write_chunk_response request_id r =
     encode_client WRITE_CHUNK Response request_id [write_integral (wcr_chunk_index r), write_status (wcr_status r)]"

definition decode_write_chunk_response :: "ClientRpcMessage \<Rightarrow> exn + WriteChunkResponse" where
  "decode_write_chunk_response m =
     decode_client WRITE_CHUNK Response
       (get_then read_u32 (\<lambda>chunk_index. get_then read_status (\<lambda>status. get_then assert_at_end (\<lambda>_. 
          get_return \<lparr>wcr_chunk_index = chunk_index, wcr_status = status, wcr_context = context_from m\<rparr>)))) m"

definition encode_remove_request :: "u64 \<Rightarrow> RemoveRequest \<Rightarrow> exn + Frame" where
  "encode_remove_request request_id r =
     encode_client REMOVE Request request_id [write_string (rmq_path r)]"

definition decode_remove_request :: "ClientRpcMessage \<Rightarrow> exn + RemoveRequest" where
  "decode_remove_request m =
     decode_client REMOVE Request
       (get_then read_string (\<lambda>path. get_then assert_at_end (\<lambda>_. 
          get_return \<lparr>rmq_path = path, rmq_context = context_from m\<rparr>))) m"

definition encode_remove_response :: "u64 \<Rightarrow> RemoveResponse \<Rightarrow> exn + Frame" where
  "encode_remove_response request_id r =
     encode_client REMOVE Response request_id [write_status (rmr_status r)]"

definition decode_remove_response :: "ClientRpcMessage \<Rightarrow> exn + RemoveResponse" where
  "decode_remove_response m =
     decode_client REMOVE Response
       (get_then read_status (\<lambda>status. get_then assert_at_end (\<lambda>_. 
          get_return \<lparr>rmr_status = status\<rparr>))) m"

definition encode_list_request :: "u64 \<Rightarrow> ListRequest \<Rightarrow> exn + Frame" where
  "encode_list_request request_id r =
     encode_client LIST Request request_id [write_string (lsq_path r)]"

definition decode_list_request :: "ClientRpcMessage \<Rightarrow> exn + ListRequest" where
  "decode_list_request m =
     decode_client LIST Request
       (get_then read_string (\<lambda>path. get_then assert_at_end (\<lambda>_. 
          get_return \<lparr>lsq_path = path, lsq_context = context_from m\<rparr>))) m"

definition encode_list_response :: "u64 \<Rightarrow> ListResponse \<Rightarrow> exn + Frame" where
  "encode_list_response request_id r =
     encode_client LIST Response request_id
       ([write_status (lsr_status r), write_integral (word_of_nat (length (lsr_info_vec r)) :: u32)]
        @ concat (map (\<lambda>info. [write_string (fi_path info), write_bool (fi_is_directory info)]) (lsr_info_vec r)))"

fun read_infos :: "nat \<Rightarrow> FileInfo list get" where
  "read_infos 0 = get_return []"
| "read_infos (Suc n) =
     get_then read_string (\<lambda>path. get_then read_bool (\<lambda>is_dir. get_then (read_infos n) (\<lambda>infos.
       get_return (\<lparr>fi_path = path, fi_is_directory = is_dir\<rparr> # infos))))"

text \<open>
  The vector starts with \<open>size\<close> default entries and the loop counts an \<^verbatim>\<open>int\<close>: a size
  of \<open>2 ^ 31\<close> or more is negative there and no entry is read.
\<close>

definition decode_list_response :: "ClientRpcMessage \<Rightarrow> exn + ListResponse" where
  "decode_list_response m =
     decode_client LIST Response
       (get_then read_status (\<lambda>status. get_then read_u32 (\<lambda>size.
          get_then (read_infos (nat (sint size))) (\<lambda>infos. get_then assert_at_end (\<lambda>_.
            get_return \<lparr>lsr_status = status,
              lsr_info_vec = infos @ replicate (unat size - nat (sint size)) \<lparr>fi_path = '''', fi_is_directory = False\<rparr>,
              lsr_context = context_from m\<rparr>))))) m"

definition encode_mkdir_request :: "u64 \<Rightarrow> MakeDirRequest \<Rightarrow> exn + Frame" where
  "encode_mkdir_request request_id r =
     encode_client MKDIR Request request_id [write_string (mdq_path r)]"

definition decode_mkdir_request :: "ClientRpcMessage \<Rightarrow> exn + MakeDirRequest" where
  "decode_mkdir_request m =
     decode_client MKDIR Request
       (get_then read_string (\<lambda>path. get_then assert_at_end (\<lambda>_. 
          get_return \<lparr>mdq_path = path, mdq_context = context_from m\<rparr>))) m"

definition encode_mdkir_response :: "u64 \<Rightarrow> MakeDirResponse \<Rightarrow> exn + Frame" where
  "encode_mdkir_response request_id r =
     encode_client MKDIR Response request_id [write_status (mdr_status r)]"

definition decode_mkdir_response :: "ClientRpcMessage \<Rightarrow> exn + MakeDirResponse" where
  "decode_mkdir_response m =
     decode_client MKDIR Response
       (get_then read_status (\<lambda>status. get_then assert_at_end (\<lambda>_. 
          get_return \<lparr>mdr_status = status, mdr_context = context_from m\<rparr>))) m"

definition encode_rename_request :: "u64 \<Rightarrow> RenameRequest \<Rightarrow> exn + Frame" where
  "encode_rename_request request_id r =
     encode_client RENAME Request request_id [write_string (rnq_old_path r), write_string (rnq_new_path r)]"

definition decode_rename_request :: "ClientRpcMessage \<Rightarrow> exn + RenameRequest" where
  "decode_rename_request m =
     decode_client RENAME Request
       (get_then read_string (\<lambda>old_path. get_then read_string (\<lambda>new_path. get_then assert_at_end (\<lambda>_. 
          get_return \<lparr>rnq_old_path = old_path, rnq_new_path = new_path, rnq_context = context_from m\<rparr>)))) m"

definition encode_rename_response :: "u64 \<Rightarrow> RenameResponse \<Rightarrow> exn + Frame" where
  "encode_rename_response request_id r =
     encode_client RENAME Response request_id [write_status (rnr_status r)]"

definition decode_rename_response :: "ClientRpcMessage \<Rightarrow> exn + RenameResponse" where
  "decode_rename_response m =
     decode_client RENAME Response
       (get_then read_status (\<lambda>status. get_then assert_at_end (\<lambda>_. 
          get_return \<lparr>rnr_status = status, rnr_context = context_from m\<rparr>))) m"

definition encode_stat_request :: "u64 \<Rightarrow> StatRequest \<Rightarrow> exn + Frame" where
  "encode_stat_request request_id r =
     encode_client STAT Request request_id [write_string (stq_path r)]"

definition decode_stat_request :: "ClientRpcMessage \<Rightarrow> exn + StatRequest" where
  "decode_stat_request m =
     decode_client STAT Request
       (get_then read_string (\<lambda>path. get_then assert_at_end (\<lambda>_. 
          get_return \<lparr>stq_path = path, stq_context = context_from m\<rparr>))) m"

definition encode_stat_response :: "u64 \<Rightarrow> StatResponse \<Rightarrow> exn + Frame" where
  "encode_stat_response request_id r =
     (let stat = str_stat r in
      encode_client STAT Response request_id
       [write_status (str_status r), write_string (stat_path stat), write_bool (stat_is_directory stat),
        write_string (stat_node_0 stat), write_string (stat_node_1 stat), write_string (stat_object_id stat),
        write_integral (stat_size stat), write_time (stat_created_at stat), write_time (stat_modified_at stat)])"

definition decode_stat_response :: "ClientRpcMessage \<Rightarrow> exn + StatResponse" where
  "decode_stat_response m =
     decode_client STAT Response
       (get_then read_status (\<lambda>status. get_then read_string (\<lambda>path. get_then read_bool (\<lambda>is_dir.
        get_then read_string (\<lambda>node_0. get_then read_string (\<lambda>node_1. get_then read_string (\<lambda>obj_id.
        get_then read_u64 (\<lambda>size. get_then read_time (\<lambda>created. get_then read_time (\<lambda>modified.
        get_then assert_at_end (\<lambda>_.
          get_return \<lparr>str_status = status,
            str_stat = \<lparr>stat_path = path, stat_is_directory = is_dir, stat_node_0 = node_0, stat_node_1 = node_1,
              stat_object_id = obj_id, stat_size = size, stat_created_at = created, stat_modified_at = modified\<rparr>,
            str_context = context_from m\<rparr>))))))))))) m"

section \<open>Decoding inverts encoding\<close>

interpretation fstatus: enum_codec client_status_to_u8 client_status_of_u8 client_status_ok
  by unfold_locales (auto simp: client_status_ok_def client_status_of_u8_def)

lemma named_status_ok [simp]:
  "client_status_ok Success" "client_status_ok ServerError" "client_status_ok InputError"
  "client_status_ok AlreadyExists"
  by (simp_all add: client_status_ok_def client_status_of_u8_def)

lemmas status_codecs [codec] =
  fstatus.put_writes [folded write_status_def] fstatus.get_back [simplified, folded read_status_def]
  fstatus.get_back_end [simplified, folded read_status_def]

interpretation client_job: job_codec client_rpc client_job_ok
  by unfold_locales (auto simp: client_rpc_def client_job_ok_def client_job_of_u8_def)

lemma client_rpc_type [simp]: "rpc_message_type client_rpc = CLIENT_RPC"
  by (simp add: client_rpc_def)

lemma client_jobs_ok [simp]:
  "client_job_ok CREATE_FILE" "client_job_ok READ_FILE" "client_job_ok WRITE_FILE" "client_job_ok REMOVE"
  "client_job_ok LIST" "client_job_ok MKDIR" "client_job_ok RENAME" "client_job_ok STAT"
  "client_job_ok READ_CHUNK" "client_job_ok WRITE_CHUNK"
  by (simp_all add: client_job_ok_def client_job_of_u8_def)

lemma encode_client_eq:
  "list_all2 writes parts bss \<Longrightarrow>
   encode_client job kind rid parts = Inr (rpc_frame client_rpc rid job kind (concat bss))"
  by (simp add: encode_client_def written_eq make_frame_eq)

lemma decode_client_eq:
  "rpc_header m = \<lparr>rpc_request_id = rid, rpc_job = job, rpc_kind = kind\<rparr> \<Longrightarrow>
   decode_client job kind parts m = decoded parts (rpc_body m)"
  by (simp add: decode_client_def validate_client_message_def)

lemma decode_client_other:
  "rpc_kind (rpc_header m) \<noteq> kind \<or> rpc_job (rpc_header m) \<noteq> job \<Longrightarrow>
   decode_client job kind parts m = Inl RuntimeError"
  by (auto simp: decode_client_def validate_client_message_def)

text \<open>
  A call of the protocol: an encoder that frames \<open>body r\<close> under its job and kind, and a
  decoder that rebuilds \<open>r\<close> from that body, with the context of the message it came in.
\<close>

locale rpc_call = job_codec T job_ok
  for T :: "'j RpcTraits" and job_ok :: "'j \<Rightarrow> bool" +
  fixes enc :: "u64 \<Rightarrow> 'r \<Rightarrow> exn + Frame" and dec :: "'j RpcMessage \<Rightarrow> exn + 'r"
    and job_id :: 'j and kind :: RpcKind and body :: "'r \<Rightarrow> byte list" and ok :: "'r \<Rightarrow> bool"
    and in_context :: "RequestContext \<Rightarrow> 'r \<Rightarrow> 'r"
  assumes named: "job_ok job_id" "kind = Request \<or> kind = Response"
    and enc_frame: "enc rid r = Inr (rpc_frame T rid job_id kind (body r))"
    and dec_body: "ok r \<Longrightarrow> rpc_header m = \<lparr>rpc_request_id = rid, rpc_job = job_id, rpc_kind = kind\<rparr> \<Longrightarrow>
      rpc_body m = body r \<Longrightarrow> dec m = Inr (in_context (context_from m) r)"
begin

text \<open>The receiver reads back the message, in the context of its sender and request id.\<close>

lemma transported:
  assumes "ok r" "body_fits (body r)"
  shows "delivered T enc dec sender rid r =
    Inr (in_context \<lparr>ctx_request_id = rid, ctx_sender = sender\<rparr> r)"
  using assms named read_message_back [of job_id kind "body r" sender rid]
  by (auto simp: delivered_def enc_frame dec_body context_from_def)

text \<open>The same with the steps of the receiver apart: validation, then the decoder of the job.\<close>

lemma received:
  assumes "ok r" "body_fits (body r)"
  shows "\<exists>m. read_message T (message_from sender (rpc_frame T rid job_id kind (body r))) = Inr m
    \<and> rpc_header m = \<lparr>rpc_request_id = rid, rpc_job = job_id, rpc_kind = kind\<rparr> \<and> rpc_sender m = sender
    \<and> rpc_body m = body r
    \<and> dec m = Inr (in_context \<lparr>ctx_request_id = rid, ctx_sender = sender\<rparr> r)"
  using assms named read_message_back [of job_id kind "body r" sender rid]
  by (auto simp: dec_body context_from_def)

end

interpretation create_file_request: rpc_call client_rpc client_job_ok encode_create_file_request decode_create_file_request
  CREATE_FILE Request "\<lambda>r. bytes_of_string (cfq_path r) @ [0]" "\<lambda>r. nul_free (cfq_path r)" "\<lambda>c r. r\<lparr>cfq_context := c\<rparr>"
  by unfold_locales (simp_all add: encode_create_file_request_def decode_create_file_request_def decode_client_eq decoded_def new_reader_at codec
      encode_client_eq [of "[write_string (cfq_path r)]"
        "[bytes_of_string (cfq_path r) @ [0]]" for r])

interpretation create_file_response: rpc_call client_rpc client_job_ok encode_create_file_response decode_create_file_response
  CREATE_FILE Response "\<lambda>r. [client_status_to_u8 (cfr_status r)]" "\<lambda>r. client_status_ok (cfr_status r)" "\<lambda>c r. r\<lparr>cfr_context := c\<rparr>"
  by unfold_locales (simp_all add: encode_create_file_response_def decode_create_file_response_def decode_client_eq decoded_def new_reader_at codec
      encode_client_eq [of "[write_status (cfr_status r)]"
        "[[client_status_to_u8 (cfr_status r)]]" for r])

interpretation read_file_request: rpc_call client_rpc client_job_ok encode_read_file_request decode_read_file_request
  READ_FILE Request "\<lambda>r. bytes_of_string (rfq_path r) @ [0]" "\<lambda>r. nul_free (rfq_path r)" "\<lambda>c r. r\<lparr>rfq_context := c\<rparr>"
  by unfold_locales (simp_all add: encode_read_file_request_def decode_read_file_request_def decode_client_eq decoded_def new_reader_at codec
      encode_client_eq [of "[write_string (rfq_path r)]"
        "[bytes_of_string (rfq_path r) @ [0]]" for r])

interpretation read_file_response: rpc_call client_rpc client_job_ok encode_read_file_response decode_read_file_response
  READ_FILE Response "\<lambda>r. [client_status_to_u8 (rfr_status r)] @ be_bytes 8 (rfr_file_size r) @ be_bytes 4 (rfr_chunk_count r)" "\<lambda>r. client_status_ok (rfr_status r)" "\<lambda>c r. r\<lparr>rfr_context := c\<rparr>"
  by unfold_locales (simp_all add: encode_read_file_response_def decode_read_file_response_def decode_client_eq decoded_def new_reader_at codec
      encode_client_eq [of "[write_status (rfr_status r), write_integral (rfr_file_size r), write_integral (rfr_chunk_count r)]"
        "[[client_status_to_u8 (rfr_status r)], be_bytes 8 (rfr_file_size r), be_bytes 4 (rfr_chunk_count r)]" for r])

interpretation read_chunk_request: rpc_call client_rpc client_job_ok encode_read_chunk_request decode_read_chunk_request
  READ_CHUNK Request "\<lambda>r. be_bytes 4 (rcq_chunk_index r)" "\<lambda>_. True" "\<lambda>c r. r\<lparr>rcq_context := c\<rparr>"
  by unfold_locales (simp_all add: encode_read_chunk_request_def decode_read_chunk_request_def decode_client_eq decoded_def new_reader_at codec
      encode_client_eq [of "[write_integral (rcq_chunk_index r)]"
        "[be_bytes 4 (rcq_chunk_index r)]" for r])

interpretation read_chunk_response: rpc_call client_rpc client_job_ok encode_read_chunk_response decode_read_chunk_response
  READ_CHUNK Response "\<lambda>r. be_bytes 4 (rcr_chunk_index r) @ [client_status_to_u8 (rcr_status r)] @ rcr_data r" "\<lambda>r. client_status_ok (rcr_status r)" "\<lambda>c r. r\<lparr>rcr_context := c\<rparr>"
  by unfold_locales (simp_all add: encode_read_chunk_response_def decode_read_chunk_response_def decode_client_eq decoded_def new_reader_at codec
      encode_client_eq [of "[write_integral (rcr_chunk_index r), write_status (rcr_status r), write_bytes (rcr_data r)]"
        "[be_bytes 4 (rcr_chunk_index r), [client_status_to_u8 (rcr_status r)], rcr_data r]" for r])

interpretation write_file_request: rpc_call client_rpc client_job_ok encode_write_file_request decode_write_file_request
  WRITE_FILE Request "\<lambda>r. be_bytes 8 (wfq_file_size r) @ be_bytes 4 (wfq_chunk_count r) @ bytes_of_string (wfq_path r) @ [0]" "\<lambda>r. nul_free (wfq_path r)" "\<lambda>c r. r\<lparr>wfq_context := c\<rparr>"
  by unfold_locales (simp_all add: encode_write_file_request_def decode_write_file_request_def decode_client_eq decoded_def new_reader_at codec
      encode_client_eq [of "[write_integral (wfq_file_size r), write_integral (wfq_chunk_count r), write_string (wfq_path r)]"
        "[be_bytes 8 (wfq_file_size r), be_bytes 4 (wfq_chunk_count r), bytes_of_string (wfq_path r) @ [0]]" for r])

interpretation write_file_response: rpc_call client_rpc client_job_ok encode_write_file_response decode_write_file_response
  WRITE_FILE Response "\<lambda>r. [client_status_to_u8 (wfr_status r)]" "\<lambda>r. client_status_ok (wfr_status r)" "\<lambda>c r. r\<lparr>wfr_context := c\<rparr>"
  by unfold_locales (simp_all add: encode_write_file_response_def decode_write_file_response_def decode_client_eq decoded_def new_reader_at codec
      encode_client_eq [of "[write_status (wfr_status r)]"
        "[[client_status_to_u8 (wfr_status r)]]" for r])

interpretation write_chunk_request: rpc_call client_rpc client_job_ok encode_write_chunk_request decode_write_chunk_request
  WRITE_CHUNK Request "\<lambda>r. be_bytes 4 (wcq_chunk_index r) @ wcq_data r" "\<lambda>_. True" "\<lambda>c r. r\<lparr>wcq_context := c\<rparr>"
  by unfold_locales (simp_all add: encode_write_chunk_request_def decode_write_chunk_request_def decode_client_eq decoded_def new_reader_at codec
      encode_client_eq [of "[write_integral (wcq_chunk_index r), write_bytes (wcq_data r)]"
        "[be_bytes 4 (wcq_chunk_index r), wcq_data r]" for r])

interpretation write_chunk_response: rpc_call client_rpc client_job_ok encode_write_chunk_response decode_write_chunk_response
  WRITE_CHUNK Response "\<lambda>r. be_bytes 4 (wcr_chunk_index r) @ [client_status_to_u8 (wcr_status r)]" "\<lambda>r. client_status_ok (wcr_status r)" "\<lambda>c r. r\<lparr>wcr_context := c\<rparr>"
  by unfold_locales (simp_all add: encode_write_chunk_response_def decode_write_chunk_response_def decode_client_eq decoded_def new_reader_at codec
      encode_client_eq [of "[write_integral (wcr_chunk_index r), write_status (wcr_status r)]"
        "[be_bytes 4 (wcr_chunk_index r), [client_status_to_u8 (wcr_status r)]]" for r])

interpretation remove_request: rpc_call client_rpc client_job_ok encode_remove_request decode_remove_request
  REMOVE Request "\<lambda>r. bytes_of_string (rmq_path r) @ [0]" "\<lambda>r. nul_free (rmq_path r)" "\<lambda>c r. r\<lparr>rmq_context := c\<rparr>"
  by unfold_locales (simp_all add: encode_remove_request_def decode_remove_request_def decode_client_eq decoded_def new_reader_at codec
      encode_client_eq [of "[write_string (rmq_path r)]"
        "[bytes_of_string (rmq_path r) @ [0]]" for r])

interpretation remove_response: rpc_call client_rpc client_job_ok encode_remove_response decode_remove_response
  REMOVE Response "\<lambda>r. [client_status_to_u8 (rmr_status r)]" "\<lambda>r. client_status_ok (rmr_status r)" "\<lambda>_ r. r"
  by unfold_locales (simp_all add: encode_remove_response_def decode_remove_response_def decode_client_eq decoded_def new_reader_at codec
      encode_client_eq [of "[write_status (rmr_status r)]"
        "[[client_status_to_u8 (rmr_status r)]]" for r])

interpretation list_request: rpc_call client_rpc client_job_ok encode_list_request decode_list_request
  LIST Request "\<lambda>r. bytes_of_string (lsq_path r) @ [0]" "\<lambda>r. nul_free (lsq_path r)" "\<lambda>c r. r\<lparr>lsq_context := c\<rparr>"
  by unfold_locales (simp_all add: encode_list_request_def decode_list_request_def decode_client_eq decoded_def new_reader_at codec
      encode_client_eq [of "[write_string (lsq_path r)]"
        "[bytes_of_string (lsq_path r) @ [0]]" for r])

interpretation mkdir_request: rpc_call client_rpc client_job_ok encode_mkdir_request decode_mkdir_request
  MKDIR Request "\<lambda>r. bytes_of_string (mdq_path r) @ [0]" "\<lambda>r. nul_free (mdq_path r)" "\<lambda>c r. r\<lparr>mdq_context := c\<rparr>"
  by unfold_locales (simp_all add: encode_mkdir_request_def decode_mkdir_request_def decode_client_eq decoded_def new_reader_at codec
      encode_client_eq [of "[write_string (mdq_path r)]"
        "[bytes_of_string (mdq_path r) @ [0]]" for r])

interpretation mkdir_response: rpc_call client_rpc client_job_ok encode_mdkir_response decode_mkdir_response
  MKDIR Response "\<lambda>r. [client_status_to_u8 (mdr_status r)]" "\<lambda>r. client_status_ok (mdr_status r)" "\<lambda>c r. r\<lparr>mdr_context := c\<rparr>"
  by unfold_locales (simp_all add: encode_mdkir_response_def decode_mkdir_response_def decode_client_eq decoded_def new_reader_at codec
      encode_client_eq [of "[write_status (mdr_status r)]"
        "[[client_status_to_u8 (mdr_status r)]]" for r])

interpretation rename_request: rpc_call client_rpc client_job_ok encode_rename_request decode_rename_request
  RENAME Request "\<lambda>r. bytes_of_string (rnq_old_path r) @ [0] @ bytes_of_string (rnq_new_path r) @ [0]" "\<lambda>r. nul_free (rnq_old_path r) \<and> nul_free (rnq_new_path r)" "\<lambda>c r. r\<lparr>rnq_context := c\<rparr>"
  by unfold_locales (simp_all add: encode_rename_request_def decode_rename_request_def decode_client_eq decoded_def new_reader_at codec
      encode_client_eq [of "[write_string (rnq_old_path r), write_string (rnq_new_path r)]"
        "[bytes_of_string (rnq_old_path r) @ [0], bytes_of_string (rnq_new_path r) @ [0]]" for r])

interpretation rename_response: rpc_call client_rpc client_job_ok encode_rename_response decode_rename_response
  RENAME Response "\<lambda>r. [client_status_to_u8 (rnr_status r)]" "\<lambda>r. client_status_ok (rnr_status r)" "\<lambda>c r. r\<lparr>rnr_context := c\<rparr>"
  by unfold_locales (simp_all add: encode_rename_response_def decode_rename_response_def decode_client_eq decoded_def new_reader_at codec
      encode_client_eq [of "[write_status (rnr_status r)]"
        "[[client_status_to_u8 (rnr_status r)]]" for r])

interpretation stat_request: rpc_call client_rpc client_job_ok encode_stat_request decode_stat_request
  STAT Request "\<lambda>r. bytes_of_string (stq_path r) @ [0]" "\<lambda>r. nul_free (stq_path r)" "\<lambda>c r. r\<lparr>stq_context := c\<rparr>"
  by unfold_locales (simp_all add: encode_stat_request_def decode_stat_request_def decode_client_eq decoded_def new_reader_at codec
      encode_client_eq [of "[write_string (stq_path r)]"
        "[bytes_of_string (stq_path r) @ [0]]" for r])

text \<open>A listing: every entry as its path and its flag, behind their number.\<close>

definition info_bytes :: "FileInfo \<Rightarrow> byte list" where
  "info_bytes info = bytes_of_string (fi_path info) @ [0] @ [if fi_is_directory info then 1 else 0]"

lemma read_infos_back:
  "\<forall>info \<in> set infos. nul_free (fi_path info) \<Longrightarrow>
   read_infos (length infos) (reader_at pre (concat (map info_bytes infos) @ xs)) =
     Inr (infos, reader_at (pre @ concat (map info_bytes infos)) xs)"
  by (induction infos arbitrary: pre) (simp_all add: info_bytes_def codec)

definition listing_ok :: "ListResponse \<Rightarrow> bool" where
  "listing_ok r \<longleftrightarrow> client_status_ok (lsr_status r) \<and> length (lsr_info_vec r) < 2 ^ 31
     \<and> (\<forall>info \<in> set (lsr_info_vec r). nul_free (fi_path info))"

lemma listing_size:
  assumes "length (infos :: FileInfo list) < 2 ^ 31"
  shows "nat (sint (word_of_nat (length infos) :: u32)) = length infos"
    and "unat (word_of_nat (length infos) :: u32) = length infos"
proof -
  show "unat (word_of_nat (length infos) :: u32) = length infos"
    using assms by (simp add: unat_of_nat)
  have "sint (word_of_int (int (length infos)) :: u32) = int (length infos)"
    using assms by (simp only: sint_sbintrunc') (simp add: signed_take_bit_int_eq_self)
  then show "nat (sint (word_of_nat (length infos) :: u32)) = length infos" by simp
qed

lemma listing_writes:
  "list_all2 writes (concat (map (\<lambda>info. [write_string (fi_path info), write_bool (fi_is_directory info)]) infos))
     (concat (map (\<lambda>info. [bytes_of_string (fi_path info) @ [0], [if fi_is_directory info then 1 else 0]]) infos))"
  by (induction infos) (simp_all add: writes_string writes_bool)

lemma concat_listing:
  "concat (concat (map (\<lambda>info. [bytes_of_string (fi_path info) @ [0], [if fi_is_directory info then 1 else 0]]) infos))
   = concat (map info_bytes infos)"
  by (induction infos) (simp_all add: info_bytes_def)

lemma encode_listing:
  "encode_list_response rid r = Inr (rpc_frame client_rpc rid LIST Response
     ([client_status_to_u8 (lsr_status r)] @ be_bytes 4 (word_of_nat (length (lsr_info_vec r)) :: u32)
      @ concat (map info_bytes (lsr_info_vec r))))"
proof -
  have "list_all2 writes [write_status (lsr_status r), write_integral (word_of_nat (length (lsr_info_vec r)) :: u32)]
    [[client_status_to_u8 (lsr_status r)], be_bytes 4 (word_of_nat (length (lsr_info_vec r)) :: u32)]"
    by (simp add: codec)
  from list_all2_appendI [OF this listing_writes] show ?thesis
    unfolding encode_list_response_def by (rule encode_client_eq [THEN trans]) (simp add: concat_listing)
qed

interpretation list_response: rpc_call client_rpc client_job_ok encode_list_response decode_list_response
  LIST Response "\<lambda>r. [client_status_to_u8 (lsr_status r)]
      @ be_bytes 4 (word_of_nat (length (lsr_info_vec r)) :: u32) @ concat (map info_bytes (lsr_info_vec r))"
  listing_ok "\<lambda>c r. r\<lparr>lsr_context := c\<rparr>"
proof
  fix r and m :: ClientRpcMessage and rid :: u64
  assume ok: "listing_ok r" and m: "rpc_header m = \<lparr>rpc_request_id = rid, rpc_job = LIST, rpc_kind = Response\<rparr>"
    "rpc_body m = [client_status_to_u8 (lsr_status r)]
      @ be_bytes 4 (word_of_nat (length (lsr_info_vec r)) :: u32) @ concat (map info_bytes (lsr_info_vec r))"
  with listing_size [of "lsr_info_vec r"] read_infos_back [of "lsr_info_vec r" _ "[]"]
  show "decode_list_response m = Inr (r\<lparr>lsr_context := context_from m\<rparr>)"
    by (simp add: decode_list_response_def decode_client_eq decoded_def new_reader_at codec listing_ok_def)
qed (simp_all only: encode_listing client_jobs_ok simp_thms)

text \<open>A stat: its times are truncated to milliseconds on the way.\<close>

definition stat_ok :: "StatResponse \<Rightarrow> bool" where
  "stat_ok r \<longleftrightarrow> client_status_ok (str_status r) \<and> nul_free (stat_path (str_stat r))
     \<and> nul_free (stat_node_0 (str_stat r)) \<and> nul_free (stat_node_1 (str_stat r))
     \<and> nul_free (stat_object_id (str_stat r))
     \<and> time_fits (stat_created_at (str_stat r)) \<and> time_fits (stat_modified_at (str_stat r))"

definition stat_in_ms :: "FileStat \<Rightarrow> FileStat" where
  "stat_in_ms s = s\<lparr>stat_created_at := to_ms (stat_created_at s), stat_modified_at := to_ms (stat_modified_at s)\<rparr>"

definition stat_fields :: "StatResponse \<Rightarrow> byte list list" where
  "stat_fields r = (let s = str_stat r in
     [[client_status_to_u8 (str_status r)], bytes_of_string (stat_path s) @ [0],
      [if stat_is_directory s then 1 else 0],
      bytes_of_string (stat_node_0 s) @ [0], bytes_of_string (stat_node_1 s) @ [0],
      bytes_of_string (stat_object_id s) @ [0], be_bytes 8 (stat_size s),
      be_bytes 8 (word_of_int (stat_created_at s sdiv 1000000) :: u64),
      be_bytes 8 (word_of_int (stat_modified_at s sdiv 1000000) :: u64)])"

lemma encode_stat:
  "encode_stat_response rid r = Inr (rpc_frame client_rpc rid STAT Response (concat (stat_fields r)))"
  unfolding encode_stat_response_def Let_def
  by (rule encode_client_eq) (simp add: stat_fields_def Let_def codec)

interpretation stat_response: rpc_call client_rpc client_job_ok encode_stat_response decode_stat_response
  STAT Response "\<lambda>r. concat (stat_fields r)" stat_ok
  "\<lambda>c r. r\<lparr>str_stat := stat_in_ms (str_stat r), str_context := c\<rparr>"
proof
  fix r and m :: ClientRpcMessage and rid :: u64
  assume ok: "stat_ok r" and m: "rpc_header m = \<lparr>rpc_request_id = rid, rpc_job = STAT, rpc_kind = Response\<rparr>"
    "rpc_body m = concat (stat_fields r)"
  have last: "read_time (reader_at pre (be_bytes 8 (word_of_int (t sdiv 1000000) :: u64)))
      = Inr (to_ms t, reader_at (pre @ be_bytes 8 (word_of_int (t sdiv 1000000) :: u64)) [])"
    if "time_fits t" for pre t using read_time_back [OF that, of pre "[]"] by simp
  from ok m last
  show "decode_stat_response m = Inr (r\<lparr>str_stat := stat_in_ms (str_stat r), str_context := context_from m\<rparr>)"
    by (simp add: decode_stat_response_def decode_client_eq decoded_def new_reader_at codec stat_ok_def
        stat_fields_def Let_def read_time_back stat_in_ms_def)
qed (simp_all only: encode_stat client_jobs_ok simp_thms)

section \<open>Properties of the protocol\<close>

text \<open>C12. Every request of the client reaches the server unchanged: for paths without NUL
  characters and bodies within the length field, decoding what was encoded gives the same
  request, with the context of the peer that sent it.\<close>

theorem client_requests_delivered:
  assumes paths: "nul_free p" "nul_free q" and size: "length p + length q + length chunk < 2 ^ 31"
  shows
    "delivered client_rpc encode_create_file_request decode_create_file_request sender rid
       \<lparr>cfq_path = p, cfq_context = c\<rparr> = Inr \<lparr>cfq_path = p, cfq_context = \<lparr>ctx_request_id = rid, ctx_sender = sender\<rparr>\<rparr>
     \<and> delivered client_rpc encode_read_file_request decode_read_file_request sender rid
       \<lparr>rfq_path = p, rfq_context = c\<rparr> = Inr \<lparr>rfq_path = p, rfq_context = \<lparr>ctx_request_id = rid, ctx_sender = sender\<rparr>\<rparr>
     \<and> delivered client_rpc encode_write_file_request decode_write_file_request sender rid
       \<lparr>wfq_file_size = file_size, wfq_chunk_count = n, wfq_path = p, wfq_context = c\<rparr> =
       Inr \<lparr>wfq_file_size = file_size, wfq_chunk_count = n, wfq_path = p, wfq_context = \<lparr>ctx_request_id = rid, ctx_sender = sender\<rparr>\<rparr>
     \<and> delivered client_rpc encode_read_chunk_request decode_read_chunk_request sender rid
       \<lparr>rcq_chunk_index = n, rcq_context = c\<rparr> = Inr \<lparr>rcq_chunk_index = n, rcq_context = \<lparr>ctx_request_id = rid, ctx_sender = sender\<rparr>\<rparr>
     \<and> delivered client_rpc encode_write_chunk_request decode_write_chunk_request sender rid
       \<lparr>wcq_chunk_index = n, wcq_data = chunk, wcq_context = c\<rparr> =
       Inr \<lparr>wcq_chunk_index = n, wcq_data = chunk, wcq_context = \<lparr>ctx_request_id = rid, ctx_sender = sender\<rparr>\<rparr>
     \<and> delivered client_rpc encode_remove_request decode_remove_request sender rid
       \<lparr>rmq_path = p, rmq_context = c\<rparr> = Inr \<lparr>rmq_path = p, rmq_context = \<lparr>ctx_request_id = rid, ctx_sender = sender\<rparr>\<rparr>
     \<and> delivered client_rpc encode_list_request decode_list_request sender rid
       \<lparr>lsq_path = p, lsq_context = c\<rparr> = Inr \<lparr>lsq_path = p, lsq_context = \<lparr>ctx_request_id = rid, ctx_sender = sender\<rparr>\<rparr>
     \<and> delivered client_rpc encode_mkdir_request decode_mkdir_request sender rid
       \<lparr>mdq_path = p, mdq_context = c\<rparr> = Inr \<lparr>mdq_path = p, mdq_context = \<lparr>ctx_request_id = rid, ctx_sender = sender\<rparr>\<rparr>
     \<and> delivered client_rpc encode_rename_request decode_rename_request sender rid
       \<lparr>rnq_old_path = p, rnq_new_path = q, rnq_context = c\<rparr> =
       Inr \<lparr>rnq_old_path = p, rnq_new_path = q, rnq_context = \<lparr>ctx_request_id = rid, ctx_sender = sender\<rparr>\<rparr>
     \<and> delivered client_rpc encode_stat_request decode_stat_request sender rid
       \<lparr>stq_path = p, stq_context = c\<rparr> = Inr \<lparr>stq_path = p, stq_context = \<lparr>ctx_request_id = rid, ctx_sender = sender\<rparr>\<rparr>"
  using paths size
  by (simp add: create_file_request.transported read_file_request.transported write_file_request.transported
      read_chunk_request.transported write_chunk_request.transported remove_request.transported
      list_request.transported mkdir_request.transported rename_request.transported
      stat_request.transported body_fits_def)

theorem client_requests_delivered_witness:
  "delivered client_rpc encode_rename_request decode_rename_request \<lparr>peer_id = ''c'', peer_role = CLIENT\<rparr> 7
     \<lparr>rnq_old_path = ''a/b'', rnq_new_path = ''d'', rnq_context = empty_context\<rparr> =
   Inr \<lparr>rnq_old_path = ''a/b'', rnq_new_path = ''d'',
        rnq_context = \<lparr>ctx_request_id = 7, ctx_sender = \<lparr>peer_id = ''c'', peer_role = CLIENT\<rparr>\<rparr>\<rparr>"
  using client_requests_delivered [where p = "''a/b''" and q = "''d''" and chunk = "[]"]
  by (simp add: nul_free_def)

text \<open>C13. Every response of the server reaches the client unchanged, up to the request
  context the client sees and the milliseconds of a stat's times.\<close>

theorem client_responses_delivered:
  assumes status: "client_status_ok s" and data: "length chunk < 2 ^ 31"
    and listing: "listing_ok l" "length (concat (map info_bytes (lsr_info_vec l))) < 2 ^ 31"
    and stat: "stat_ok st" "length (concat (stat_fields st)) < 2 ^ 31"
  shows
    "delivered client_rpc encode_create_file_response decode_create_file_response sender rid
       \<lparr>cfr_status = s, cfr_context = c\<rparr> = Inr \<lparr>cfr_status = s, cfr_context = \<lparr>ctx_request_id = rid, ctx_sender = sender\<rparr>\<rparr>
     \<and> delivered client_rpc encode_read_file_response decode_read_file_response sender rid
       \<lparr>rfr_status = s, rfr_file_size = file_size, rfr_chunk_count = n, rfr_context = c\<rparr> =
       Inr \<lparr>rfr_status = s, rfr_file_size = file_size, rfr_chunk_count = n, rfr_context = \<lparr>ctx_request_id = rid, ctx_sender = sender\<rparr>\<rparr>
     \<and> delivered client_rpc encode_write_file_response decode_write_file_response sender rid
       \<lparr>wfr_status = s, wfr_context = c\<rparr> = Inr \<lparr>wfr_status = s, wfr_context = \<lparr>ctx_request_id = rid, ctx_sender = sender\<rparr>\<rparr>
     \<and> delivered client_rpc encode_read_chunk_response decode_read_chunk_response sender rid
       \<lparr>rcr_chunk_index = n, rcr_status = s, rcr_data = chunk, rcr_context = c\<rparr> =
       Inr \<lparr>rcr_chunk_index = n, rcr_status = s, rcr_data = chunk, rcr_context = \<lparr>ctx_request_id = rid, ctx_sender = sender\<rparr>\<rparr>
     \<and> delivered client_rpc encode_write_chunk_response decode_write_chunk_response sender rid
       \<lparr>wcr_chunk_index = n, wcr_status = s, wcr_context = c\<rparr> =
       Inr \<lparr>wcr_chunk_index = n, wcr_status = s, wcr_context = \<lparr>ctx_request_id = rid, ctx_sender = sender\<rparr>\<rparr>
     \<and> delivered client_rpc encode_remove_response decode_remove_response sender rid
       \<lparr>rmr_status = s\<rparr> = Inr \<lparr>rmr_status = s\<rparr>
     \<and> delivered client_rpc encode_list_response decode_list_response sender rid l =
       Inr (l\<lparr>lsr_context := \<lparr>ctx_request_id = rid, ctx_sender = sender\<rparr>\<rparr>)
     \<and> delivered client_rpc encode_mdkir_response decode_mkdir_response sender rid
       \<lparr>mdr_status = s, mdr_context = c\<rparr> = Inr \<lparr>mdr_status = s, mdr_context = \<lparr>ctx_request_id = rid, ctx_sender = sender\<rparr>\<rparr>
     \<and> delivered client_rpc encode_rename_response decode_rename_response sender rid
       \<lparr>rnr_status = s, rnr_context = c\<rparr> = Inr \<lparr>rnr_status = s, rnr_context = \<lparr>ctx_request_id = rid, ctx_sender = sender\<rparr>\<rparr>
     \<and> delivered client_rpc encode_stat_response decode_stat_response sender rid st =
       Inr (st\<lparr>str_stat := stat_in_ms (str_stat st), str_context := \<lparr>ctx_request_id = rid, ctx_sender = sender\<rparr>\<rparr>)"
proof -
  have "body_fits ([client_status_to_u8 (lsr_status l)]
      @ be_bytes 4 (word_of_nat (length (lsr_info_vec l)) :: u32) @ concat (map info_bytes (lsr_info_vec l)))"
    using listing(2) by (simp add: body_fits_def)
  note listed = list_response.transported [OF listing(1) this]
  have "body_fits (concat (stat_fields st))" using stat(2) by (simp add: body_fits_def)
  note stated = stat_response.transported [OF stat(1) this]
  show ?thesis
    using status data listed stated
    by (simp add: create_file_response.transported read_file_response.transported write_file_response.transported
        read_chunk_response.transported write_chunk_response.transported remove_response.transported
        mkdir_response.transported rename_response.transported body_fits_def)
qed

theorem client_responses_delivered_witness:
  "delivered client_rpc encode_list_response decode_list_response \<lparr>peer_id = ''m'', peer_role = METADATA\<rparr> 3
     \<lparr>lsr_status = Success, lsr_info_vec = [\<lparr>fi_path = ''x'', fi_is_directory = True\<rparr>], lsr_context = empty_context\<rparr> =
   Inr \<lparr>lsr_status = Success, lsr_info_vec = [\<lparr>fi_path = ''x'', fi_is_directory = True\<rparr>],
        lsr_context = \<lparr>ctx_request_id = 3, ctx_sender = \<lparr>peer_id = ''m'', peer_role = METADATA\<rparr>\<rparr>\<rparr>"
  using client_responses_delivered [of Success "[]"
      "\<lparr>lsr_status = Success, lsr_info_vec = [\<lparr>fi_path = ''x'', fi_is_directory = True\<rparr>], lsr_context = empty_context\<rparr>"
      "\<lparr>str_status = Success, str_stat = \<lparr>stat_path = '''', stat_is_directory = False, stat_node_0 = '''',
         stat_node_1 = '''', stat_object_id = '''', stat_size = 0, stat_created_at = 0, stat_modified_at = 0\<rparr>,
         str_context = empty_context\<rparr>"
      "\<lparr>peer_id = ''m'', peer_role = METADATA\<rparr>" 3 empty_context 0 0]
  by (simp add: listing_ok_def stat_ok_def stat_fields_def info_bytes_def client_status_ok_def
      client_status_of_u8_def nul_free_def time_fits_def bytes_of_string_def Let_def)

text \<open>A path with an embedded NUL is not silently shortened: its terminator ends the
  string early and the check for the end of the body rejects the request.\<close>

theorem path_with_nul_rejected:
  assumes "nul_free a" "length a + length b < 2 ^ 31"
  shows "delivered client_rpc encode_remove_request decode_remove_request sender rid
    \<lparr>rmq_path = a @ CHR 0x00 # b, rmq_context = c\<rparr> = Inl RuntimeError"
proof -
  let ?r = "\<lparr>rmq_path = a @ CHR 0x00 # b, rmq_context = c\<rparr>"
  let ?body = "bytes_of_string a @ 0 # bytes_of_string b @ [0]"
  have body: "bytes_of_string (rmq_path ?r) @ [0] = ?body" by (simp add: bytes_of_string_def)
  have fits: "body_fits ?body" using assms(2) by (simp add: body_fits_def bytes_of_string_def)
  have "read_string (reader_at [] ?body) =
      Inr (a, reader_at (bytes_of_string a @ [0]) (bytes_of_string b @ [0]))"
    using fstring.get_back [OF assms(1), of "[]" "bytes_of_string b @ [0]"] by simp
  with client_job.read_message_back [of REMOVE Request ?body sender rid] fits
    remove_request.enc_frame [of rid ?r, unfolded body]
  show ?thesis
    by (simp add: delivered_def decode_remove_request_def decode_client_eq decoded_def new_reader_at)
qed

theorem path_with_nul_rejected_witness:
  "delivered client_rpc encode_remove_request decode_remove_request \<lparr>peer_id = ''c'', peer_role = CLIENT\<rparr> 1
     \<lparr>rmq_path = ''a'' @ CHR 0x00 # ''b'', rmq_context = empty_context\<rparr> = Inl RuntimeError"
  using path_with_nul_rejected [of "''a''" "''b''"] by (simp add: nul_free_def)

end
