(* ===== verification/MetadataStore.thy ===== *)
theory MetadataStore
  imports FileSystem ClientProtocol
begin

text \<open>
  \<^verbatim>\<open>metadata/MetadataStore.hpp\<close> and \<^verbatim>\<open>MetadataStore.cpp\<close>: the table of file metadata in
  memory and its copy on disk, one small file per entry under the data directory. Every
  operation takes the host (clock and failures of system calls) and the store and returns
  the \<^verbatim>\<open>std::expected\<close> result with the store after it.
\<close>

section \<open>State\<close>

definition METADATA_MAGIC :: u8 where "METADATA_MAGIC = 0x69"

definition METADATA_VERSION :: u8 where "METADATA_VERSION = 0x01"

record StorageNodeInfo =
  last_seen :: steady_time
  bytes_left :: u64
  available :: bool

record FileMetadata =
  md_path :: path
  md_size :: u64
  md_obj_id :: string
  md_replica_0 :: NodeId
  md_replica_1 :: NodeId
  md_created_at :: time_point
  md_modified_at :: time_point

datatype MetadataStoreError = OPEN_FAILURE | MALFORMED_FILE | READ_FAILURE | WRITE_FAILURE
  | NOT_FOUND | WRONG_VERSION | INVALID_PATH | ALREADY_EXISTS

text \<open>
  The store and the disk it works on. The table is keyed by the elements of a path, as
  equality and hashing of \<^verbatim>\<open>fs::path\<close> are.
\<close>

record Store =
  ms_disk :: disk
  ms_directory :: location
  ms_data :: "(string list \<times> FileMetadata) list"

record Host =
  host_faults :: Faults
  host_now :: time_point

type_synonym 'a stored = "(MetadataStoreError + 'a) \<times> Store"

text \<open>The constructor, and \<open>directory_ / filename\<close>.\<close>

definition new_store :: "Host \<Rightarrow> disk \<Rightarrow> location \<Rightarrow> (exn + Store) \<times> disk" where
  "new_store h d directory =
     (case fs_create_directories (host_faults h) d directory of (ec, d1) \<Rightarrow>
        if ec \<noteq> None \<or> fs_is_directory (host_faults h) d1 directory \<noteq> Inr True
        then (Inl RuntimeError, d1)
        else (Inr \<lparr>ms_disk = d1, ms_directory = directory, ms_data = []\<rparr>, d1))"

definition physical :: "Store \<Rightarrow> string list \<Rightarrow> location" where
  "physical s names = ms_directory s @ names"

text \<open>\<open>path += ".tmp"\<close> on a location.\<close>

definition temporary :: "location \<Rightarrow> location" where
  "temporary p = butlast p @ [last p @ ''.tmp'']"

section \<open>Metadata files\<close>

definition write_metadata_file :: "Host \<Rightarrow> path \<Rightarrow> FileMetadata \<Rightarrow> Store \<Rightarrow> unit stored" where
  "write_metadata_file h p m s =
     (case written [write_integral METADATA_MAGIC, write_integral METADATA_VERSION,
                    write_integral (md_size m), write_string (md_obj_id m),
                    write_string (md_replica_0 m), write_string (md_replica_1 m),
                    write_time (md_created_at m), write_time (md_modified_at m)] of
        Inl _ \<Rightarrow> (Inl WRITE_FAILURE, s)
      | Inr bytes \<Rightarrow>
     (let f = host_faults h; final = physical s (elems p); temp = temporary final in
      case fs_create_directories f (ms_disk s) (butlast final) of (ec, d1) \<Rightarrow>
      let s1 = s\<lparr>ms_disk := d1\<rparr> in
      if ec = Some file_exists \<or> ec = Some not_a_directory then (Inl INVALID_PATH, s1)
      else if ec \<noteq> None then (Inl WRITE_FAILURE, s1)
      else (case open_out f d1 temp False of
          (Inl _, d2) \<Rightarrow> (Inl WRITE_FAILURE, s\<lparr>ms_disk := d2\<rparr>)
        | (Inr l, d2) \<Rightarrow>
      (case append_out f d2 l bytes of (ok, d3) \<Rightarrow>
      let s3 = s\<lparr>ms_disk := d3\<rparr> in
      if \<not> ok then (Inl WRITE_FAILURE, s3)
      else if fails f Sys_flush temp then (Inl WRITE_FAILURE, s3)
      else if fails f Sys_close temp then (Inl WRITE_FAILURE, s3)
      else (case fs_rename f d3 temp final of
          (None, d4) \<Rightarrow> (Inr (), s\<lparr>ms_disk := d4\<rparr>)
        | (Some _, d4) \<Rightarrow> (Inl WRITE_FAILURE, s\<lparr>ms_disk := snd (fs_remove f d4 temp)\<rparr>))))))"

text \<open>The fields of a metadata file: magic, version, and the rest.\<close>

definition read_metadata_fields :: "(u8 \<times> u8 \<times> u64 \<times> string \<times> NodeId \<times> NodeId \<times> time_point \<times> time_point) get" where
  "read_metadata_fields =
     get_then read_u8 (\<lambda>magic. get_then read_u8 (\<lambda>version. get_then read_u64 (\<lambda>file_size.
     get_then read_string (\<lambda>obj_id. get_then read_string (\<lambda>rep1. get_then read_string (\<lambda>rep2.
     get_then read_time (\<lambda>created_at. get_then read_time (\<lambda>modified_at.
       get_return (magic, version, file_size, obj_id, rep1, rep2, created_at, modified_at)))))))))"

definition read_metadata_file :: "Host \<Rightarrow> string list \<Rightarrow> Store \<Rightarrow> MetadataStoreError + FileMetadata" where
  "read_metadata_file h names s =
     (case open_in (host_faults h) (ms_disk s) (physical s names) of
        Inl _ \<Rightarrow> Inl READ_FAILURE
      | Inr bytes \<Rightarrow>
          if fails (host_faults h) Sys_read (physical s names) then Inl READ_FAILURE
          else (case read_metadata_fields (new_reader bytes) of
              Inl _ \<Rightarrow> Inl MALFORMED_FILE
            | Inr ((magic, version, file_size, obj_id, rep1, rep2, created_at, modified_at), reader) \<Rightarrow>
                if magic \<noteq> METADATA_MAGIC then Inl MALFORMED_FILE
                else if version \<noteq> METADATA_VERSION then Inl WRONG_VERSION
                else if \<not> at_end reader then Inl MALFORMED_FILE
                else Inr \<lparr>md_path = join_names names, md_size = file_size, md_obj_id = obj_id,
                          md_replica_0 = rep1, md_replica_1 = rep2,
                          md_created_at = created_at, md_modified_at = modified_at\<rparr>))"

text \<open>The loop over the recursive directory iterator.\<close>

fun load_entries :: "Host \<Rightarrow> (location \<times> node) list \<Rightarrow> Store \<Rightarrow> unit stored" where
  "load_entries h [] s = (Inr (), s)"
| "load_entries h ((l, n) # entries) s =
     (if fails (host_faults h) Sys_status l then (Inl READ_FAILURE, s)
      else let names = drop (length (ms_directory s)) l in
        if n \<noteq> Dir \<and> extension_of (last names) \<noteq> ''.tmp'' then
          (case read_metadata_file h names s of
             Inl e \<Rightarrow> (Inl e, s)
           | Inr m \<Rightarrow>
               (case try_emplace names m (ms_data s) of
                  (False, _) \<Rightarrow> (Inl MALFORMED_FILE, s)
                | (True, data) \<Rightarrow> load_entries h entries (s\<lparr>ms_data := data\<rparr>)))
        else load_entries h entries s)"

definition load_from_storage :: "Host \<Rightarrow> Store \<Rightarrow> unit stored" where
  "load_from_storage h s =
     (let s0 = s\<lparr>ms_data := []\<rparr> in
      case fs_walk (host_faults h) (ms_disk s) (ms_directory s) of
        Inl _ \<Rightarrow> (Inl READ_FAILURE, s0)
      | Inr entries \<Rightarrow> load_entries h entries s0)"

section \<open>Operations\<close>

definition valid_filename :: "path \<Rightarrow> bool" where
  "valid_filename p =
     (if p = [] \<or> is_absolute p \<or> filename p = [] \<or> extension p = ''.tmp''
         \<or> elems p \<noteq> elems (lexically_normal p) then False
      else \<not> list_ex (\<lambda>component. component = ''.'' \<or> component = ''..'') (elems p))"

definition get_metadata :: "path \<Rightarrow> Store \<Rightarrow> MetadataStoreError + FileMetadata" where
  "get_metadata p s =
     (if \<not> valid_filename p then Inl INVALID_PATH
      else (case map_of (ms_data s) (elems p) of None \<Rightarrow> Inl NOT_FOUND | Some m \<Rightarrow> Inr m))"

definition add_metadata :: "Host \<Rightarrow> path \<Rightarrow> FileMetadata \<Rightarrow> Store \<Rightarrow> unit stored" where
  "add_metadata h p m s =
     (if \<not> valid_filename p then (Inl INVALID_PATH, s)
      else (case fs_exists (host_faults h) (ms_disk s) (physical s (elems p)) of
          Inl _ \<Rightarrow> (Inl WRITE_FAILURE, s)
        | Inr True \<Rightarrow> (Inl ALREADY_EXISTS, s)
        | Inr False \<Rightarrow>
            (let m' = m\<lparr>md_path := p, md_created_at := host_now h, md_modified_at := host_now h\<rparr> in
             case write_metadata_file h p m' s of
               (Inl e, s1) \<Rightarrow> (Inl e, s1)
             | (Inr _, s1) \<Rightarrow> (Inr (), s1\<lparr>ms_data := snd (try_emplace (elems p) m' (ms_data s1))\<rparr>))))"

definition update_metadata :: "Host \<Rightarrow> path \<Rightarrow> FileMetadata \<Rightarrow> Store \<Rightarrow> unit stored" where
  "update_metadata h p m s =
     (if \<not> valid_filename p then (Inl INVALID_PATH, s)
      else (case map_of (ms_data s) (elems p) of
          None \<Rightarrow> add_metadata h p m s
        | Some existing \<Rightarrow>
            (let m' = m\<lparr>md_path := p, md_created_at := md_created_at existing, md_modified_at := host_now h\<rparr> in
             case write_metadata_file h p m' s of
               (Inl e, s1) \<Rightarrow> (Inl e, s1)
             | (Inr _, s1) \<Rightarrow> (Inr (), s1\<lparr>ms_data := AList.update (elems p) m' (ms_data s1)\<rparr>))))"

definition remove_metadata :: "Host \<Rightarrow> path \<Rightarrow> Store \<Rightarrow> unit stored" where
  "remove_metadata h p s =
     (if \<not> valid_filename p then (Inl INVALID_PATH, s)
      else (case fs_remove (host_faults h) (ms_disk s) (physical s (elems p)) of
          (Inl _, d1) \<Rightarrow> (Inl WRITE_FAILURE, s\<lparr>ms_disk := d1\<rparr>)
        | (Inr False, d1) \<Rightarrow> (Inl NOT_FOUND, s\<lparr>ms_disk := d1\<rparr>)
        | (Inr True, d1) \<Rightarrow> (Inr (), s\<lparr>ms_disk := d1, ms_data := AList.delete (elems p) (ms_data s)\<rparr>)))"

definition make_directory :: "Host \<Rightarrow> path \<Rightarrow> Store \<Rightarrow> unit stored" where
  "make_directory h p s =
     (if \<not> valid_filename p then (Inl INVALID_PATH, s)
      else (case fs_create_directory (host_faults h) (ms_disk s) (physical s (relative_elems p)) of
          (Inl ec, d1) \<Rightarrow> (Inl (if ec = no_such_file_or_directory \<or> ec = not_a_directory then INVALID_PATH
                               else WRITE_FAILURE), s\<lparr>ms_disk := d1\<rparr>)
        | (Inr created, d1) \<Rightarrow> (if \<not> created then Inl ALREADY_EXISTS else Inr (), s\<lparr>ms_disk := d1\<rparr>)))"

definition remove_directory :: "Host \<Rightarrow> path \<Rightarrow> Store \<Rightarrow> unit stored" where
  "remove_directory h p s =
     (if \<not> valid_filename p then (Inl INVALID_PATH, s)
      else let final = physical s (relative_elems p); f = host_faults h in
        (case fs_exists f (ms_disk s) final of
           Inl _ \<Rightarrow> (Inl WRITE_FAILURE, s)
         | Inr False \<Rightarrow> (Inl NOT_FOUND, s)
         | Inr True \<Rightarrow>
        (case fs_is_directory f (ms_disk s) final of
           Inl _ \<Rightarrow> (Inl WRITE_FAILURE, s)
         | Inr False \<Rightarrow> (Inl INVALID_PATH, s)
         | Inr True \<Rightarrow>
        (case fs_remove f (ms_disk s) final of (r, d1) \<Rightarrow>
           (if r \<noteq> Inr True then Inl WRITE_FAILURE else Inr (), s\<lparr>ms_disk := d1\<rparr>)))))"

text \<open>An iterator that fails to open is the end iterator, so the loop body that looks at the error code never runs.\<close>

definition list_directory :: "Host \<Rightarrow> path \<Rightarrow> Store \<Rightarrow> MetadataStoreError + FileInfo list" where
  "list_directory h p s =
     (let final = physical s (relative_elems p); f = host_faults h in
      if fs_exists f (ms_disk s) final \<noteq> Inr True \<or> fs_is_directory f (ms_disk s) final \<noteq> Inr True
      then Inl INVALID_PATH
      else (case fs_list f (ms_disk s) final of
          Inl _ \<Rightarrow> Inr []
        | Inr entries \<Rightarrow> Inr (map (\<lambda>(name, is_dir). \<lparr>fi_path = name, fi_is_directory = is_dir\<rparr>) entries)))"

section \<open>Renaming\<close>

text \<open>\<^verbatim>\<open>lexically_relative\<close> of a path inside \<open>base\<close>.\<close>

definition relative_inside :: "string list \<Rightarrow> string list \<Rightarrow> string list" where
  "relative_inside names base =
     (let rest = drop (length base) names in if rest = [] \<or> hd rest = [] then [''.''] else rest)"

text \<open>The pairs of old and new keys, the new one also as the pathname it is stored with.\<close>

definition renamed_entries :: "path \<Rightarrow> path \<Rightarrow> (string list \<times> FileMetadata) list \<Rightarrow> (string list \<times> path) list" where
  "renamed_entries old_path new_path data =
     map (\<lambda>(names, _). (names, path_append new_path (join_names (relative_inside names (elems old_path)))))
       (filter (\<lambda>(names, _). is_inside names (elems old_path)) data)"

text \<open>The loop that moves the table's nodes.\<close>

fun move_entries :: "(string list \<times> path) list \<Rightarrow> Store \<Rightarrow> unit stored" where
  "move_entries [] s = (Inr (), s)"
| "move_entries ((old_entry, new_entry) # entries) s =
     (case map_of (ms_data s) old_entry of
        None \<Rightarrow> (Inl READ_FAILURE, s)
      | Some m \<Rightarrow>
          (case try_emplace (elems new_entry) (m\<lparr>md_path := new_entry\<rparr>) (AList.delete old_entry (ms_data s)) of
             (True, data) \<Rightarrow> move_entries entries (s\<lparr>ms_data := data\<rparr>)
           | (False, data) \<Rightarrow> (Inl WRITE_FAILURE, s\<lparr>ms_data := data\<rparr>)))"

definition rename_metadata :: "Host \<Rightarrow> path \<Rightarrow> path \<Rightarrow> Store \<Rightarrow> unit stored" where
  "rename_metadata h old_path new_path s =
     (if \<not> valid_filename old_path \<or> \<not> valid_filename new_path then (Inl INVALID_PATH, s)
      else let old_final = physical s (relative_elems old_path);
               new_final = physical s (relative_elems new_path);
               f = host_faults h in
      (case fs_exists f (ms_disk s) old_final of
         Inl _ \<Rightarrow> (Inl READ_FAILURE, s)
       | Inr False \<Rightarrow> (Inl NOT_FOUND, s)
       | Inr True \<Rightarrow>
      if elems old_path = elems new_path then (Inr (), s)
      else (case fs_exists f (ms_disk s) new_final of
         Inl _ \<Rightarrow> (Inl READ_FAILURE, s)
       | Inr destination_exists \<Rightarrow>
      if destination_exists \<or> map_of (ms_data s) (elems new_path) \<noteq> None then (Inl ALREADY_EXISTS, s)
      else (case fs_is_directory f (ms_disk s) old_final of
         Inl _ \<Rightarrow> (Inl READ_FAILURE, s)
       | Inr source_is_directory \<Rightarrow>
      (case fs_is_regular_file f (ms_disk s) old_final of
         Inl _ \<Rightarrow> (Inl READ_FAILURE, s)
       | Inr source_is_file \<Rightarrow>
      if \<not> source_is_directory \<and> \<not> source_is_file then (Inl INVALID_PATH, s)
      else if source_is_file \<and> map_of (ms_data s) (elems old_path) = None then (Inl READ_FAILURE, s)
      else let entries = (if source_is_file then [(elems old_path, new_path)]
                          else renamed_entries old_path new_path (ms_data s)) in
        if list_ex (\<lambda>(_, new_entry). map_of (ms_data s) (elems new_entry) \<noteq> None) entries
        then (Inl ALREADY_EXISTS, s)
        else (case fs_rename f (ms_disk s) old_final new_final of
            (Some _, d1) \<Rightarrow> (Inl WRITE_FAILURE, s\<lparr>ms_disk := d1\<rparr>)
          | (None, d1) \<Rightarrow> move_entries entries (s\<lparr>ms_disk := d1\<rparr>)))))))"

end
