(* ===== verification/StoreInvariant.thy ===== *)
theory StoreInvariant
  imports MetadataStore
begin

text \<open>
  What the metadata store promises: the file names it accepts, the invariant that ties the
  table in memory to the files on disk, that every operation keeps it whatever the host
  does, and that reading the directory after a restart gives the table back.
\<close>

section \<open>Accepted file names\<close>

text \<open>A key of the table: ordinary names, and not a temporary file.\<close>

definition good_key :: "string list \<Rightarrow> bool" where
  "good_key k \<longleftrightarrow> k \<noteq> [] \<and> plain_path k \<and> extension_of (last k) \<noteq> ''.tmp''"

lemma filenames_nonempty:
  "s \<noteq> [] \<Longrightarrow> hd s \<noteq> slash \<Longrightarrow> n \<in> set (butlast (filenames s)) \<Longrightarrow> n \<noteq> []"
proof (induction s rule: filenames.induct)
  case (1 s)
  let ?name = "takeWhile (\<lambda>c. c \<noteq> slash) s" and ?rest = "dropWhile (\<lambda>c. c \<noteq> slash) s"
  have name: "?name \<noteq> []" using 1(2,3) by (cases s) auto
  have eq: "filenames s = (if ?rest = [] then [?name] else if skip_slashes ?rest = [] then [?name, []]
      else ?name # filenames (skip_slashes ?rest))"
    by (subst filenames.simps) (simp only: Let_def)
  show ?case
  proof (cases "?rest = [] \<or> skip_slashes ?rest = []")
    case True
    then have "n \<in> {?name}" using 1(4) by (auto simp: eq simp del: takeWhile_eq_Nil_iff dropWhile_eq_Nil_conv split: if_splits)
    with name show ?thesis by simp
  next
    case False
    then have "n = ?name \<or> n \<in> set (butlast (filenames (skip_slashes ?rest)))"
      using 1(4) filenames_not_Nil by (simp only: eq if_False de_Morgan_disj) auto
    moreover have "n \<noteq> []" if "n \<in> set (butlast (filenames (skip_slashes ?rest)))"
      using 1(1) [OF refl refl _ _ _ _ that] False skip_slashes_hd by blast
    ultimately show ?thesis using name by metis
  qed
qed

lemma elems_relative: "\<not> is_absolute p \<Longrightarrow> p \<noteq> [] \<Longrightarrow> elems p = filenames p"
  by (auto simp: elems_def is_absolute_def)

lemma elems_no_slash: "\<not> is_absolute p \<Longrightarrow> n \<in> set (elems p) \<Longrightarrow> slash \<notin> set n"
  by (cases "p = []") (auto simp: elems_relative elems_def [of "[]"] dest: filenames_no_slash)

lemma good_key_plain_name: "good_key k \<Longrightarrow> n \<in> set k \<Longrightarrow> plain_name n"
  by (auto simp: good_key_def plain_name_def plain_path_def)

lemma lexically_normal_good:
  assumes "\<not> is_absolute p" "good_key (elems p)"
  shows "elems (lexically_normal p) = elems p"
proof -
  have ne: "p \<noteq> []" using assms(2) by (auto simp: good_key_def elems_def)
  then have "normal_elems p = elems p"
    using assms normal_names_ordinary [of "elems p" False "[]" False]
    by (auto simp: normal_elems_def relative_elems_def good_key_def plain_path_def)
  moreover have "\<forall>n \<in> set (elems p). plain_name n" using assms(2) good_key_plain_name by blast
  ultimately show ?thesis by (simp add: lexically_normal_def join_elems_plain elems_join)
qed

lemma valid_filename_iff: "valid_filename p \<longleftrightarrow> \<not> is_absolute p \<and> good_key (elems p)"
proof
  assume v: "valid_filename p"
  then have p: "p \<noteq> []" "\<not> is_absolute p" "filename p \<noteq> []" "extension p \<noteq> ''.tmp''"
    and dots: "\<forall>n \<in> set (elems p). n \<noteq> ''.'' \<and> n \<noteq> ''..''"
    by (auto simp: valid_filename_def list_ex_iff split: if_splits)
  then have e: "elems p = filenames p" "filename p = last (elems p)" "elems p \<noteq> []" "hd p \<noteq> slash"
    using elems_relative filenames_not_Nil
    by (auto simp: filename_def relative_elems_def is_absolute_def)
  have "n \<noteq> []" if "n \<in> set (elems p)" for n
  proof (cases "n = last (elems p)")
    case False
    then have "n \<in> set (butlast (elems p))"
      using that e(3) append_butlast_last_id [of "elems p"] by (metis Un_iff empty_iff empty_set insert_iff list.simps(15) set_append)
    then show ?thesis using filenames_nonempty [of p n] p(1) e by simp
  qed (use p(3) e(2) in simp)
  with p e dots show "\<not> is_absolute p \<and> good_key (elems p)"
    using elems_no_slash [OF p(2)] by (auto simp: good_key_def plain_path_def extension_def)
next
  assume *: "\<not> is_absolute p \<and> good_key (elems p)"
  then have e: "elems p \<noteq> []" "plain_path (elems p)" "extension_of (last (elems p)) \<noteq> ''.tmp''"
    by (auto simp: good_key_def)
  then have "p \<noteq> []" by (auto simp: elems_def)
  moreover have "last (elems p) \<noteq> []" using e last_in_set [of "elems p"] by (auto simp: plain_path_def)
  ultimately show "valid_filename p"
    using * e lexically_normal_good [of p]
    by (auto simp: valid_filename_def extension_def filename_def relative_elems_def list_ex_iff plain_path_def)
qed

lemma valid_relative: "valid_filename p \<Longrightarrow> relative_elems p = elems p"
  by (simp add: valid_filename_iff relative_elems_def)

lemma valid_good: "valid_filename p \<Longrightarrow> good_key (elems p)"
  by (simp add: valid_filename_iff)

lemma good_key_plain: "good_key k \<Longrightarrow> plain_path k"
  by (simp add: good_key_def)

lemma takeWhile_tmp: "takeWhile (\<lambda>c. c \<noteq> CHR ''.'') (rev (n @ ''.tmp'')) = ''pmt''"
  by simp

lemma extension_of_tmp: "n \<noteq> [] \<Longrightarrow> extension_of (n @ ''.tmp'') = ''.tmp''"
  using takeWhile_tmp [of n] by (cases n) (auto simp: extension_of_def Let_def)

text \<open>The temporary file of a key lies beside it and is itself no key.\<close>

lemma temporary_good:
  assumes "good_key k"
  shows "temporary (dir @ k) = dir @ butlast k @ [last k @ ''.tmp'']"
    and "\<not> good_key (butlast k @ [last k @ ''.tmp''])"
    and "plain_path (butlast k @ [last k @ ''.tmp''])"
proof -
  have k: "k \<noteq> []" "plain_path k" using assms by (simp_all add: good_key_def)
  then have l: "last k \<noteq> []" "slash \<notin> set (last k)" using last_in_set [of k] by (auto simp: plain_path_def)
  then show "\<not> good_key (butlast k @ [last k @ ''.tmp''])"
    by (simp add: good_key_def extension_of_tmp)
  show "temporary (dir @ k) = dir @ butlast k @ [last k @ ''.tmp'']"
    using k by (simp add: temporary_def butlast_append)
  show "plain_path (butlast k @ [last k @ ''.tmp''])"
    using k l plain_path_butlast [of k]
    by (auto simp: slash_def append_eq_Cons_conv dest: arg_cong [of _ _ length])
qed

section \<open>Metadata files\<close>

definition metadata_bytes :: "FileMetadata \<Rightarrow> byte list" where
  "metadata_bytes m =
     [METADATA_MAGIC] @ [METADATA_VERSION] @ be_bytes 8 (md_size m) @ (bytes_of_string (md_obj_id m) @ [0])
     @ (bytes_of_string (md_replica_0 m) @ [0]) @ (bytes_of_string (md_replica_1 m) @ [0])
     @ be_bytes 8 (word_of_int (md_created_at m sdiv 1000000) :: u64)
     @ be_bytes 8 (word_of_int (md_modified_at m sdiv 1000000) :: u64)"

definition md_ok :: "FileMetadata \<Rightarrow> bool" where
  "md_ok m \<longleftrightarrow> nul_free (md_obj_id m) \<and> nul_free (md_replica_0 m) \<and> nul_free (md_replica_1 m)
     \<and> time_fits (md_created_at m) \<and> time_fits (md_modified_at m)"

lemma written_metadata:
  "written [write_integral METADATA_MAGIC, write_integral METADATA_VERSION,
      write_integral (md_size m), write_string (md_obj_id m),
      write_string (md_replica_0 m), write_string (md_replica_1 m),
      write_time (md_created_at m), write_time (md_modified_at m)] = Inr (metadata_bytes m)"
  by (simp add: metadata_bytes_def codec
      written_eq [of _ "[[METADATA_MAGIC], [METADATA_VERSION], be_bytes 8 (md_size m), bytes_of_string (md_obj_id m) @ [0],
        bytes_of_string (md_replica_0 m) @ [0], bytes_of_string (md_replica_1 m) @ [0],
        be_bytes 8 (word_of_int (md_created_at m sdiv 1000000) :: u64),
        be_bytes 8 (word_of_int (md_modified_at m sdiv 1000000) :: u64)]"])

lemma read_metadata_back:
  assumes "md_ok m"
  shows "read_metadata_fields (new_reader (metadata_bytes m)) =
    Inr ((METADATA_MAGIC, METADATA_VERSION, md_size m, md_obj_id m, md_replica_0 m, md_replica_1 m,
      to_ms (md_created_at m), to_ms (md_modified_at m)), reader_at (metadata_bytes m) [])"
  using assms read_time_back [of "md_modified_at m" _ "[]"]
  by (simp add: read_metadata_fields_def metadata_bytes_def md_ok_def new_reader_at codec read_time_back)

section \<open>The invariant\<close>

definition stored_file :: "Store \<Rightarrow> string list \<Rightarrow> byte list option" where
  "stored_file s k = (case node_at (ms_disk s) (ms_directory s @ k) of Some (File c) \<Rightarrow> Some c | _ \<Rightarrow> None)"

lemma stored_file_Some:
  "stored_file s k = Some c \<longleftrightarrow> node_at (ms_disk s) (ms_directory s @ k) = Some (File c)"
  by (auto simp: stored_file_def split: option.splits node.splits)

text \<open>
  The table holds exactly the metadata files under the directory, with their contents; every
  key is an accepted file name and every entry can be written and read back.
\<close>

definition store_inv :: "Store \<Rightarrow> bool" where
  "store_inv s \<longleftrightarrow>
     disk_wf (ms_disk s) \<and> plain_path (ms_directory s) \<and> node_at (ms_disk s) (ms_directory s) = Some Dir
     \<and> distinct (keys (ms_data s))
     \<and> (\<forall>k m. map_of (ms_data s) k = Some m \<longrightarrow> good_key k \<and> md_ok m \<and> elems (md_path m) = k)
     \<and> (\<forall>k. good_key k \<longrightarrow> stored_file s k = map_option metadata_bytes (map_of (ms_data s) k))"

lemma store_invD:
  assumes "store_inv s"
  shows "disk_wf (ms_disk s)" "plain_path (ms_directory s)" "node_at (ms_disk s) (ms_directory s) = Some Dir"
    "distinct (keys (ms_data s))"
    "map_of (ms_data s) k = Some m \<Longrightarrow> good_key k \<and> md_ok m \<and> elems (md_path m) = k"
    "good_key k \<Longrightarrow> stored_file s k = map_option metadata_bytes (map_of (ms_data s) k)"
  using assms unfolding store_inv_def by blast+

text \<open>A disk step that keeps all directories, and all files but those at \<open>X\<close>.\<close>

definition disk_step :: "location set \<Rightarrow> disk \<Rightarrow> disk \<Rightarrow> bool" where
  "disk_step X d d' \<longleftrightarrow> disk_wf d'
     \<and> (\<forall>l c. l \<notin> X \<longrightarrow> (node_at d' l = Some (File c)) = (node_at d l = Some (File c)))
     \<and> (\<forall>l. node_at d l = Some Dir \<longrightarrow> node_at d' l = Some Dir)"

lemma disk_step_refl: "disk_wf d \<Longrightarrow> disk_step X d d"
  by (simp add: disk_step_def)

lemma disk_step_trans: "disk_step X d e \<Longrightarrow> disk_step Y e f \<Longrightarrow> disk_step (X \<union> Y) d f"
  by (auto simp: disk_step_def)

lemma disk_step_wf: "disk_step X d d' \<Longrightarrow> disk_wf d'"
  by (simp add: disk_step_def)

lemma disk_step_grown: "disk_wf d' \<Longrightarrow> grown d d' \<Longrightarrow> disk_step X d d'"
  by (auto simp: disk_step_def grown_file grown_dir)

text \<open>Files that are no keys may change, and one key may change with its entry.\<close>

lemma stored_file_other:
  assumes "disk_step X (ms_disk s) d" "ms_directory s @ k \<notin> X"
  shows "stored_file (s\<lparr>ms_disk := d, ms_data := data\<rparr>) k = stored_file s k"
proof -
  have "stored_file (s\<lparr>ms_disk := d, ms_data := data\<rparr>) k = Some c \<longleftrightarrow> stored_file s k = Some c" for c
    using assms by (simp add: disk_step_def stored_file_Some)
  then show ?thesis by (metis not_Some_eq)
qed

lemma store_inv_disk:
  assumes "store_inv s" "disk_step X (ms_disk s) d" "\<forall>k. good_key k \<longrightarrow> ms_directory s @ k \<notin> X"
  shows "store_inv (s\<lparr>ms_disk := d\<rparr>)"
proof -
  have "stored_file (s\<lparr>ms_disk := d\<rparr>) k = stored_file s k" if "good_key k" for k
    using stored_file_other [OF assms(2), of k "ms_data s"] assms(3) that by simp
  with assms(1,2) show ?thesis by (simp add: store_inv_def disk_step_def)
qed

lemma store_inv_put:
  assumes inv: "store_inv s" and step: "disk_step X (ms_disk s) d"
    and others: "\<forall>k'. good_key k' \<and> k' \<noteq> k \<longrightarrow> ms_directory s @ k' \<notin> X"
    and contents: "node_at d (ms_directory s @ k) = Some (File (metadata_bytes m))"
    and ok: "good_key k" "md_ok m" "elems (md_path m) = k"
  shows "store_inv (s\<lparr>ms_disk := d, ms_data := AList.update k m (ms_data s)\<rparr>)"
proof -
  let ?s = "s\<lparr>ms_disk := d, ms_data := AList.update k m (ms_data s)\<rparr>"
  have "stored_file ?s k' = map_option metadata_bytes (map_of (ms_data ?s) k')" if "good_key k'" for k'
  proof (cases "k' = k")
    case True
    with contents show ?thesis by (simp add: stored_file_def)
  next
    case False
    with others that have "stored_file ?s k' = stored_file s k'" by (intro stored_file_other [OF step]) simp
    with False store_invD(6) [OF inv that] show ?thesis by simp
  qed
  with inv step ok show ?thesis by (auto simp: store_inv_def disk_step_def)
qed

section \<open>Writing a metadata file\<close>

lemma temp_step:
  assumes "node_at d l \<noteq> Some Dir" "disk_wf d'" "\<forall>k. k \<noteq> l \<longrightarrow> node_at d' k = node_at d k"
  shows "disk_step {l} d d'"
  using assms unfolding disk_step_def by (metis singletonI)

text \<open>
  Either the file at the key has the new contents, or no key's file has changed; the
  temporary file is the only other file touched.
\<close>

lemma write_outcome:
  assumes w: "write_metadata_file h p m s = (r, s')" and inv: "store_inv s" and good: "good_key (elems p)"
  shows "\<exists>d X. s' = s\<lparr>ms_disk := d\<rparr> \<and> disk_step X (ms_disk s) d
    \<and> (\<forall>k. good_key k \<and> (k \<noteq> elems p \<or> r \<noteq> Inr ()) \<longrightarrow> ms_directory s @ k \<notin> X)
    \<and> (r = Inr () \<longrightarrow> node_at d (ms_directory s @ elems p) = Some (File (metadata_bytes m)))"
proof -
  define f where "f = host_faults h"
  define final where "final = physical s (elems p)"
  define temp where "temp = temporary final"
  have final: "final = ms_directory s @ elems p" by (simp add: final_def physical_def)
  have plain: "plain_path final" "plain_path temp" "plain_path (butlast final)"
    using store_invD(2) [OF inv] temporary_good(1) [OF good, of "ms_directory s"] temporary_good(3) [OF good]
      good plain_path_butlast [of "ms_directory s @ elems p"]
    by (auto simp: final temp_def good_key_def)
  have temp: "temp = ms_directory s @ butlast (elems p) @ [last (elems p) @ ''.tmp'']" 
    using temporary_good(1) [OF good] by (simp add: temp_def final)
  have nokey: "ms_directory s @ k \<noteq> temp" if "good_key k" for k
    using temporary_good(2) [OF good] that by (auto simp: temp)
  have ne: "temp \<noteq> final" using nokey [OF good] by (auto simp: final)
  have unchanged: ?thesis if "s' = s\<lparr>ms_disk := d\<rparr>" "disk_step {temp} (ms_disk s) d" "r \<noteq> Inr ()" for d
    using that nokey by blast
  obtain ec d1 where c: "fs_create_directories f (ms_disk s) (butlast final) = (ec, d1)" by fastforce
  from create_directories_grown [OF c store_invD(1) [OF inv] plain(3)]
  have d1: "disk_wf d1" "disk_step {temp} (ms_disk s) d1" by (simp_all add: disk_step_grown)
  show ?thesis
  proof (cases "ec = None")
    case False
    with w c d1(2) show ?thesis
      by (intro unchanged [of d1]) (auto simp: write_metadata_file_def written_metadata Let_def f_def final_def split: if_splits)
  next
    case True
    obtain o1 d2 where o: "open_out f d1 temp False = (o1, d2)" by fastforce
    show ?thesis
    proof (cases o1)
      case (Inl e)
      with o have "d2 = d1" using open_out_failed by blast
      with w c d1(2) True o Inl show ?thesis
        by (intro unchanged [of d1]) (auto simp: write_metadata_file_def written_metadata Let_def f_def final_def temp_def)
    next
      case (Inr l)
      with open_out_ok [of f d1 temp False l d2] o d1(1) plain(2)
      have l: "l = temp" and d2: "disk_wf d2" "node_at d1 temp \<noteq> Some Dir" "node_at d2 temp = Some (File [])"
        and d2n: "\<forall>k. k \<noteq> temp \<longrightarrow> node_at d2 k = node_at d1 k" by auto
      obtain okay d3 where a: "append_out f d2 temp (metadata_bytes m) = (okay, d3)" by fastforce
      from append_out_ok [OF a d2(1,3)] obtain c' where d3: "disk_wf d3" "node_at d3 temp = Some (File c')"
        "okay \<longrightarrow> c' = metadata_bytes m" and d3n: "\<forall>k. k \<noteq> temp \<longrightarrow> node_at d3 k = node_at d2 k" by auto
      from temp_step [OF d2(2) d3(1)] d2n d3n have "disk_step {temp} d1 d3" by simp
      with disk_step_trans [OF d1(2)] have s3: "disk_step {temp} (ms_disk s) d3" by fastforce
      show ?thesis
      proof (cases "okay \<and> \<not> fails f Sys_flush temp \<and> \<not> fails f Sys_close temp")
        case False
        with w c s3 \<open>ec = None\<close> o Inr l a show ?thesis
          by (intro unchanged [of d3]) (auto simp: write_metadata_file_def written_metadata Let_def f_def final_def temp_def split: if_splits)
      next
        case okay: True
        obtain ec4 d4 where rn: "fs_rename f d3 temp final = (ec4, d4)" by fastforce
        show ?thesis
        proof (cases ec4)
          case (Some e)
          with rn have d4: "d4 = d3" using rename_failed by blast
          obtain rr d5 where rm: "fs_remove f d3 temp = (rr, d5)" by fastforce
          from remove_ok [OF rm d3(1) plain(2)] have "disk_wf d5" "\<forall>k. k \<noteq> temp \<longrightarrow> node_at d5 k = node_at d3 k"
            by (auto split: if_splits)
          with temp_step [of d3 temp d5] d3(2) have "disk_step {temp} d3 d5" by simp
          with disk_step_trans [OF s3] have "disk_step {temp} (ms_disk s) d5" by fastforce
          with w c \<open>ec = None\<close> o Inr l a okay rn Some d4 rm show ?thesis
            by (intro unchanged [of d5]) (auto simp: write_metadata_file_def written_metadata Let_def f_def final_def temp_def)
        next
          case None
          with rename_file_ok [OF _ d3(1) plain(2,1) d3(2) ne] rn
          have d4: "disk_wf d4" "node_at d3 final \<noteq> Some Dir" and d4n: "\<forall>k. node_at d4 k =
              (if k = final then Some (File c') else if k = temp then None else node_at d3 k)" by auto
          from d4 d4n d3(2) have "disk_step {temp, final} d3 d4" unfolding disk_step_def by auto
          with disk_step_trans [OF s3] have step: "disk_step {temp, final} (ms_disk s) d4" by fastforce
          from w c \<open>ec = None\<close> o Inr l a okay rn None have "s' = s\<lparr>ms_disk := d4\<rparr>" "r = Inr ()"
            by (auto simp: write_metadata_file_def written_metadata Let_def f_def final_def temp_def)
          with step d4n d3(3) okay nokey show ?thesis
            by (intro exI [of _ d4] exI [of _ "{temp, final}"]) (auto simp: final)
        qed
      qed
    qed
  qed
qed

section \<open>Queries on plain paths\<close>

lemma fs_exists_plain:
  "fs_exists f d p = Inr b \<Longrightarrow> disk_wf d \<Longrightarrow> plain_path p \<Longrightarrow> b = (node_at d p \<noteq> None)"
  using fs_status_plain [of d p f] by (auto simp: fs_exists_def fs_status_def and_then_eq_Inr split: if_splits)

lemma fs_is_directory_plain:
  "fs_is_directory f d p = Inr b \<Longrightarrow> disk_wf d \<Longrightarrow> plain_path p \<Longrightarrow>
   \<exists>n. node_at d p = Some n \<and> b = (n = Dir)"
  using fs_status_plain [of d p f]
  by (auto simp: fs_is_directory_def fs_status_def and_then_eq_Inr split: if_splits option.splits)

lemma fs_is_regular_file_plain:
  "fs_is_regular_file f d p = Inr b \<Longrightarrow> disk_wf d \<Longrightarrow> plain_path p \<Longrightarrow>
   \<exists>n. node_at d p = Some n \<and> b = (n \<noteq> Dir)"
  using fs_status_plain [of d p f]
  by (auto simp: fs_is_regular_file_def fs_status_def and_then_eq_Inr split: if_splits option.splits)

lemma physical_plain: "store_inv s \<Longrightarrow> good_key k \<Longrightarrow> plain_path (physical s k)"
  by (simp add: physical_def store_invD(2) good_key_def)

section \<open>The table the store implements\<close>

text \<open>The abstract name space: what is known of each file, without the spelling of its path.\<close>

definition anon :: "FileMetadata \<Rightarrow> FileMetadata" where
  "anon m = m\<lparr>md_path := []\<rparr>"

definition name_space :: "Store \<Rightarrow> string list \<Rightarrow> FileMetadata option" where
  "name_space s k = map_option anon (map_of (ms_data s) k)"

text \<open>Metadata that the store can take from a caller.\<close>

definition md_strings_ok :: "FileMetadata \<Rightarrow> bool" where
  "md_strings_ok m \<longleftrightarrow> nul_free (md_obj_id m) \<and> nul_free (md_replica_0 m) \<and> nul_free (md_replica_1 m)"

definition stamped :: "time_point \<Rightarrow> time_point \<Rightarrow> FileMetadata \<Rightarrow> FileMetadata" where
  "stamped created modified m = anon (m\<lparr>md_created_at := created, md_modified_at := modified\<rparr>)"

lemma name_space_put:
  "name_space (s\<lparr>ms_disk := d, ms_data := AList.update k m data\<rparr>) =
   (map_option anon \<circ> map_of data)(k \<mapsto> anon m)"
  by (auto simp: name_space_def)

lemma name_space_disk [simp]:
  "name_space (s\<lparr>ms_disk := d\<rparr>) = name_space s"
  "name_space (s\<lparr>ms_disk := d, ms_data := data\<rparr>) = name_space (s\<lparr>ms_data := data\<rparr>)"
  by (simp_all add: name_space_def fun_eq_iff)

lemma name_space_None: "name_space s k = None \<longleftrightarrow> map_of (ms_data s) k = None"
  by (simp add: name_space_def)

text \<open>Writing a new or changed entry: both \<open>add\<close> and \<open>update\<close> end in this step.\<close>

lemma put_outcome:
  assumes w: "write_metadata_file h p m s = (r, s1)" and inv: "store_inv s"
    and ok: "valid_filename p" "md_ok m" "md_path m = p"
  shows "if r = Inr ()
     then ms_data s1 = ms_data s \<and> ms_directory s1 = ms_directory s \<and> store_inv (s1\<lparr>ms_data := AList.update (elems p) m (ms_data s)\<rparr>)
     else store_inv s1 \<and> ms_data s1 = ms_data s \<and> ms_directory s1 = ms_directory s"
proof -
  note good = valid_good [OF ok(1)]
  from write_outcome [OF w inv good] obtain d X where s1: "s1 = s\<lparr>ms_disk := d\<rparr>"
    and step: "disk_step X (ms_disk s) d"
    and X: "\<forall>k. good_key k \<and> (k \<noteq> elems p \<or> r \<noteq> Inr ()) \<longrightarrow> ms_directory s @ k \<notin> X"
    and d: "r = Inr () \<longrightarrow> node_at d (ms_directory s @ elems p) = Some (File (metadata_bytes m))" by blast
  show ?thesis
  proof (cases "r = Inr ()")
    case True
    with store_inv_put [OF inv step _ _ good ok(2)] X d ok(3) s1 show ?thesis by simp
  next
    case False
    with store_inv_disk [OF inv step] X s1 show ?thesis by simp
  qed
qed

lemma add_outcome:
  assumes "add_metadata h p m s = (r, s')" "store_inv s" "md_strings_ok m" "time_fits (host_now h)"
  shows "store_inv s' \<and> (if r = Inr ()
     then valid_filename p \<and> name_space s (elems p) = None
       \<and> name_space s' = (name_space s)(elems p \<mapsto> stamped (host_now h) (host_now h) m)
     else name_space s' = name_space s)"
proof (cases "valid_filename p \<and> fs_exists (host_faults h) (ms_disk s) (physical s (elems p)) = Inr False")
  case False
  with assms show ?thesis
    by (auto simp: add_metadata_def split: if_splits sum.splits bool.splits)
next
  case True
  define m' where "m' = m\<lparr>md_path := p, md_created_at := host_now h, md_modified_at := host_now h\<rparr>"
  note good = valid_good [OF True [THEN conjunct1]]
  have "node_at (ms_disk s) (physical s (elems p)) = None"
    using fs_exists_plain [OF True [THEN conjunct2] store_invD(1) [OF assms(2)] physical_plain [OF assms(2) good]] by simp
  then have "stored_file s (elems p) = None" by (simp add: stored_file_def physical_def)
  with store_invD(6) [OF assms(2) good] have new: "map_of (ms_data s) (elems p) = None" by simp
  obtain r1 s1 where w: "write_metadata_file h p m' s = (r1, s1)" by fastforce
  have "md_ok m'" "md_path m' = p" using assms(3,4) by (simp_all add: m'_def md_ok_def md_strings_ok_def)
  note put = put_outcome [OF w assms(2) True [THEN conjunct1] this]
  show ?thesis
  proof (cases r1)
    case (Inl e)
    with put w True assms(1) show ?thesis
      by (auto simp: add_metadata_def m'_def name_space_def)
  next
    case (Inr u)
    have "anon m' = stamped (host_now h) (host_now h) m" by (simp add: m'_def stamped_def anon_def)
    with Inr put w True assms(1) new show ?thesis
      by (auto simp: add_metadata_def m'_def try_emplace_def name_space_def fun_eq_iff)
  qed
qed

lemma update_outcome:
  assumes "update_metadata h p m s = (r, s')" "store_inv s" "md_strings_ok m" "time_fits (host_now h)"
  shows "store_inv s' \<and> (if r = Inr ()
     then valid_filename p
       \<and> name_space s' = (name_space s)(elems p \<mapsto> stamped
           (case name_space s (elems p) of None \<Rightarrow> host_now h | Some old \<Rightarrow> md_created_at old) (host_now h) m)
     else name_space s' = name_space s)"
proof (cases "valid_filename p")
  case False
  with assms show ?thesis by (auto simp: update_metadata_def)
next
  case valid: True
  show ?thesis
  proof (cases "map_of (ms_data s) (elems p)")
    case None
    with valid assms(1) have "add_metadata h p m s = (r, s')" by (simp add: update_metadata_def)
    from add_outcome [OF this assms(2-4)] None show ?thesis by (auto simp: name_space_def)
  next
    case (Some old)
    define m' where "m' = m\<lparr>md_path := p, md_created_at := md_created_at old, md_modified_at := host_now h\<rparr>"
    obtain r1 s1 where w: "write_metadata_file h p m' s = (r1, s1)" by fastforce
    have "md_ok m'" "md_path m' = p"
      using assms(3,4) store_invD(5) [OF assms(2) Some] by (simp_all add: m'_def md_ok_def md_strings_ok_def)
    note put = put_outcome [OF w assms(2) valid this]
    show ?thesis
    proof (cases r1)
      case (Inl e)
      with put w valid Some assms(1) show ?thesis
        by (auto simp: update_metadata_def m'_def name_space_def)
    next
      case (Inr u)
      have "anon m' = stamped (md_created_at (anon old)) (host_now h) m" by (simp add: m'_def stamped_def anon_def)
      with Inr put w valid Some assms(1) show ?thesis
        by (auto simp: update_metadata_def m'_def name_space_def fun_eq_iff)
    qed
  qed
qed

section \<open>Removing entries and directories\<close>

lemma store_inv_gone:
  assumes inv: "store_inv s" and k: "good_key k" and wf: "disk_wf d"
    and d: "\<forall>l. node_at d l = (if l = ms_directory s @ k then None else node_at (ms_disk s) l)"
    and data: "map_of data = (map_of (ms_data s))(k := None)" "distinct (keys data)"
  shows "store_inv (s\<lparr>ms_disk := d, ms_data := data\<rparr>)"
proof -
  let ?s = "s\<lparr>ms_disk := d, ms_data := data\<rparr>"
  have "k \<noteq> []" using k by (simp add: good_key_def)
  then have dir: "node_at d (ms_directory s) = Some Dir" using d store_invD(3) [OF inv] by simp
  have "stored_file ?s k' = map_option metadata_bytes (map_of data k')" if "good_key k'" for k'
    using store_invD(6) [OF inv that] d by (auto simp: stored_file_def data(1))
  with inv wf dir data show ?thesis by (auto simp: store_inv_def)
qed

lemma remove_outcome:
  assumes "remove_metadata h p s = (r, s')" "store_inv s"
  shows "store_inv s' \<and> (if r = Inr ()
     then valid_filename p \<and> name_space s' = (name_space s)(elems p := None)
     else s' = s)"
proof (cases "valid_filename p")
  case False
  with assms show ?thesis by (auto simp: remove_metadata_def)
next
  case True
  note good = valid_good [OF True]
  obtain rr d where rm: "fs_remove (host_faults h) (ms_disk s) (physical s (elems p)) = (rr, d)" by fastforce
  from remove_ok [OF rm store_invD(1) [OF assms(2)] physical_plain [OF assms(2) good]]
  have d: "disk_wf d" "if rr = Inr True
      then \<forall>k. node_at d k = (if k = ms_directory s @ elems p then None else node_at (ms_disk s) k)
      else d = ms_disk s"
    by (auto simp: physical_def split: if_splits)
  show ?thesis
  proof (cases "rr = Inr True")
    case True
    with d store_inv_gone [OF assms(2) good d(1), of "AList.delete (elems p) (ms_data s)"]
      store_invD(4) [OF assms(2)]
    have "store_inv (s\<lparr>ms_disk := d, ms_data := AList.delete (elems p) (ms_data s)\<rparr>)" by simp
    with True rm assms(1) \<open>valid_filename p\<close> show ?thesis
      by (auto simp: remove_metadata_def name_space_def fun_eq_iff)
  next
    case False
    with d rm assms \<open>valid_filename p\<close> show ?thesis
      by (auto simp: remove_metadata_def split: sum.splits bool.splits)
  qed
qed

lemma make_directory_outcome:
  assumes "make_directory h p s = (r, s')" "store_inv s"
  shows "store_inv s' \<and> ms_data s' = ms_data s"
proof (cases "valid_filename p")
  case False
  with assms show ?thesis by (auto simp: make_directory_def)
next
  case True
  note good = valid_good [OF True]
  obtain rr d where c: "fs_create_directory (host_faults h) (ms_disk s) (physical s (elems p)) = (rr, d)" by fastforce
  from create_directory_grown [OF c store_invD(1) [OF assms(2)] physical_plain [OF assms(2) good]]
  have "store_inv (s\<lparr>ms_disk := d\<rparr>)"
    by (intro store_inv_disk [OF assms(2), of "{}"]) (simp_all add: disk_step_grown)
  with c assms(1) True show ?thesis
    by (auto simp: make_directory_def valid_relative split: sum.splits)
qed

lemma remove_directory_outcome:
  assumes "remove_directory h p s = (r, s')" "store_inv s"
  shows "store_inv s' \<and> ms_data s' = ms_data s"
proof (cases "valid_filename p \<and> fs_exists (host_faults h) (ms_disk s) (physical s (elems p)) = Inr True
    \<and> fs_is_directory (host_faults h) (ms_disk s) (physical s (elems p)) = Inr True")
  case False
  with assms show ?thesis
    by (auto simp: remove_directory_def Let_def valid_relative split: if_splits sum.splits bool.splits)
next
  case True
  note good = valid_good [OF True [THEN conjunct1]]
  have wf: "disk_wf (ms_disk s)" and plain: "plain_path (physical s (elems p))"
    using assms(2) good by (simp_all add: store_invD(1) physical_plain)
  have dir: "node_at (ms_disk s) (physical s (elems p)) = Some Dir"
    using fs_is_directory_plain [OF True [THEN conjunct2, THEN conjunct2] wf plain] by simp
  then have nokey: "map_of (ms_data s) (elems p) = None"
    using store_invD(6) [OF assms(2) good] by (simp add: stored_file_def physical_def)
  obtain rr d where rm: "fs_remove (host_faults h) (ms_disk s) (physical s (elems p)) = (rr, d)" by fastforce
  from remove_ok [OF rm wf plain]
  have d: "disk_wf d" "if rr = Inr True
      then \<forall>k. node_at d k = (if k = ms_directory s @ elems p then None else node_at (ms_disk s) k)
      else d = ms_disk s"
    by (auto simp: physical_def split: if_splits)
  have "store_inv (s\<lparr>ms_disk := d\<rparr>)"
  proof (cases "rr = Inr True")
    case True
    have "map_of (ms_data s) = (map_of (ms_data s))(elems p := None)" using nokey by (simp add: fun_eq_iff)
    from store_inv_gone [OF assms(2) good d(1) _ this store_invD(4) [OF assms(2)]] True d(2)
    show ?thesis by simp
  qed (use d assms(2) in simp)
  with rm assms(1) True show ?thesis
    by (auto simp: remove_directory_def Let_def valid_relative)
qed

section \<open>Renaming\<close>

lemma filenames_append:
  "q \<noteq> [] \<Longrightarrow> last q \<noteq> slash \<Longrightarrow> r \<noteq> [] \<Longrightarrow> hd r \<noteq> slash \<Longrightarrow>
   filenames (q @ slash # r) = filenames q @ filenames r"
proof (induction q rule: filenames.induct)
  case (1 q)
  let ?name = "takeWhile (\<lambda>c. c \<noteq> slash) q" and ?rest = "dropWhile (\<lambda>c. c \<noteq> slash) q"
  show ?case
  proof (cases "slash \<in> set q")
    case False
    with 1(4,5) show ?thesis by (simp add: filenames_cons filenames_plain)
  next
    case True
    then have rest: "?rest \<noteq> []" by auto
    have split: "takeWhile (\<lambda>c. c \<noteq> slash) (q @ slash # r) = ?name"
      "dropWhile (\<lambda>c. c \<noteq> slash) (q @ slash # r) = ?rest @ slash # r"
      using True by simp_all
    have lst: "last ?rest = last q"
      using rest by (metis last_append takeWhile_dropWhile_id)
    have skip: "skip_slashes ?rest \<noteq> []"
      using rest lst 1(3) last_in_set [OF rest] by (auto simp: skip_slashes_def)
    then have skip': "skip_slashes (?rest @ slash # r) = skip_slashes ?rest @ slash # r"
      by (auto simp: skip_slashes_def)
    have "last (skip_slashes ?rest) = last ?rest"
      using skip unfolding skip_slashes_def by (metis last_append takeWhile_dropWhile_id)
    then have "filenames (skip_slashes ?rest @ slash # r) = filenames (skip_slashes ?rest) @ filenames r"
      using 1(1) [OF refl refl rest skip skip] lst 1(3-5) by simp
    then show ?thesis
      using rest skip by (subst (1 2) filenames.simps) (simp only: Let_def split skip', simp)
  qed
qed

lemma filenames_trailing:
  "s \<noteq> [] \<Longrightarrow> last s = slash \<Longrightarrow> last (filenames s) = []"
proof (induction s rule: filenames.induct)
  case (1 s)
  let ?name = "takeWhile (\<lambda>c. c \<noteq> slash) s" and ?rest = "dropWhile (\<lambda>c. c \<noteq> slash) s"
  have rest: "?rest \<noteq> []" using 1(2,3) last_in_set [OF 1(2)] by auto
  have lst: "last ?rest = slash" using rest 1(3) by (metis last_append takeWhile_dropWhile_id)
  show ?case
  proof (cases "skip_slashes ?rest = []")
    case True
    with rest show ?thesis by (subst filenames.simps) (simp only: Let_def, simp)
  next
    case False
    have "last (skip_slashes ?rest) = slash"
      using False lst unfolding skip_slashes_def by (metis last_append takeWhile_dropWhile_id)
    with 1(1) [OF refl refl rest False False] have "last (filenames (skip_slashes ?rest)) = []" by simp
    with rest False filenames_not_Nil show ?thesis by (subst filenames.simps) (simp only: Let_def, simp)
  qed
qed

text \<open>Appending ordinary names to an accepted path appends their elements.\<close>

lemma elems_path_append:
  assumes "valid_filename p" "ns \<noteq> []" "\<forall>n \<in> set ns. plain_name n"
  shows "elems (path_append p (join_names ns)) = elems p @ ns"
proof -
  have p: "\<not> is_absolute p" "good_key (elems p)" using assms(1) by (simp_all add: valid_filename_iff)
  then have ne: "p \<noteq> []" by (auto simp: good_key_def elems_def)
  with p have e: "elems p = filenames p" by (simp add: elems_relative)
  have "last (elems p) \<noteq> []" using p(2) last_in_set [of "elems p"] by (auto simp: good_key_def plain_path_def)
  then have lst: "last p \<noteq> slash" using filenames_trailing [OF ne] e by auto
  have j: "join_names ns \<noteq> []" "hd (join_names ns) \<noteq> slash" using assms(2,3) join_names_hd [of ns] by simp_all
  then have "path_append p (join_names ns) = p @ slash # join_names ns"
    using ne lst by (simp add: path_append_def is_absolute_def)
  moreover have "\<not> is_absolute (p @ slash # join_names ns)" using ne p(1) by (simp add: is_absolute_def)
  ultimately have "elems (path_append p (join_names ns)) = filenames (p @ slash # join_names ns)"
    using elems_relative by simp
  then show ?thesis using filenames_append [OF ne lst j] filenames_join [OF assms(2,3)] e by simp
qed

text \<open>Moving the table's nodes: sources are keys, targets are new, none occurs twice.\<close>

lemma move_entries_ok:
  assumes "distinct (keys (ms_data s))" "distinct (map fst es)" "distinct (map (elems \<circ> snd) es)"
    "fst ` set es \<subseteq> set (keys (ms_data s))" "(elems \<circ> snd) ` set es \<inter> set (keys (ms_data s)) = {}"
  shows "\<exists>data. move_entries es s = (Inr (), s\<lparr>ms_data := data\<rparr>) \<and> distinct (keys data)
    \<and> (\<forall>(l, q) \<in> set es. map_of data (elems q) = Some ((the (map_of (ms_data s) l))\<lparr>md_path := q\<rparr>))
    \<and> (\<forall>k \<in> fst ` set es. map_of data k = None)
    \<and> (\<forall>k. k \<notin> fst ` set es \<and> k \<notin> (elems \<circ> snd) ` set es \<longrightarrow> map_of data k = map_of (ms_data s) k)"
  using assms
proof (induction es arbitrary: s)
  case Nil
  then show ?case by (intro exI [of _ "ms_data s"]) simp
next
  case (Cons e es)
  obtain l q where e: "e = (l, q)" by fastforce
  from Cons.prems(4) e obtain m where m: "map_of (ms_data s) l = Some m"
    by (auto simp: map_of_eq_None_iff dest: weak_map_of_SomeI)
  define data1 where "data1 = AList.update (elems q) (m\<lparr>md_path := q\<rparr>) (AList.delete l (ms_data s))"
  have l: "l \<in> set (keys (ms_data s))" and q: "elems q \<notin> set (keys (ms_data s))"
    using Cons.prems(4,5) e by auto
  then have lq: "l \<noteq> elems q" by metis
  have none: "map_of (ms_data s) (elems q) = None" using q by (simp add: map_of_eq_None_iff)
  have keys1: "set (keys data1) = insert (elems q) (set (keys (ms_data s)) - {l})"
    by (simp add: data1_def flip: dom_map_of_conv_image_fst)
  have step: "move_entries (e # es) s = move_entries es (s\<lparr>ms_data := data1\<rparr>)"
    using m none lq by (simp add: e try_emplace_def data1_def)
  have "distinct (keys (ms_data (s\<lparr>ms_data := data1\<rparr>)))" using Cons.prems(1) by (simp add: data1_def)
  moreover have "fst ` set es \<subseteq> set (keys (ms_data (s\<lparr>ms_data := data1\<rparr>)))"
  proof -
    have "l \<notin> fst ` set es" "fst ` set es \<subseteq> set (keys (ms_data s))" using Cons.prems(2,4) e by auto
    with keys1 show ?thesis by auto
  qed
  moreover have "(elems \<circ> snd) ` set es \<inter> set (keys (ms_data (s\<lparr>ms_data := data1\<rparr>))) = {}"
    using Cons.prems(3,5) e keys1 by auto
  ultimately obtain data where data: "move_entries es (s\<lparr>ms_data := data1\<rparr>) = (Inr (), s\<lparr>ms_data := data1, ms_data := data\<rparr>)"
    "distinct (keys data)"
    "\<forall>(l, q) \<in> set es. map_of data (elems q) = Some ((the (map_of data1 l))\<lparr>md_path := q\<rparr>)"
    "\<forall>k \<in> fst ` set es. map_of data k = None"
    "\<forall>k. k \<notin> fst ` set es \<and> k \<notin> (elems \<circ> snd) ` set es \<longrightarrow> map_of data k = map_of data1 k"
    using Cons.IH [of "s\<lparr>ms_data := data1\<rparr>"] Cons.prems(2,3) e by auto
  have notin: "elems q \<notin> fst ` set es" "elems q \<notin> (elems \<circ> snd) ` set es"
    "l \<notin> fst ` set es" "l \<notin> (elems \<circ> snd) ` set es"
    using Cons.prems(2-5) e l q by auto
  have map1: "map_of data1 k = (if k = elems q then Some (m\<lparr>md_path := q\<rparr>) else if k = l then None else map_of (ms_data s) k)" for k
    by (simp add: data1_def)
  have "(the (map_of data1 l')) = the (map_of (ms_data s) l')" if "(l', q') \<in> set es" for l' q'
    using that notin(1,3) map1 [of l'] by force
  with data(3) have others: "\<forall>(l, q) \<in> set es. map_of data (elems q) = Some ((the (map_of (ms_data s) l))\<lparr>md_path := q\<rparr>)"
    by fastforce
  have "map_of data (elems q) = Some (m\<lparr>md_path := q\<rparr>)" "map_of data l = None"
    using data(5) notin map1 lq by simp_all
  with others data step m e map1 show ?case
    by (intro exI [of _ data]) auto
qed

lemma moved_from_append:
  assumes "moved_from old new k = Some l"
  shows "moved_from (d @ old) (d @ new) (d @ k) = Some (d @ l)"
  using assms by (auto simp: moved_from_def split: if_splits)

lemma moved_from_append_None:
  "moved_from old new k = None \<Longrightarrow> moved_from (d @ old) (d @ new) (d @ k) = None"
  by (auto simp: moved_from_def split: if_splits)

text \<open>A file's old place has nothing below it, so moving it moves a tree of one node.\<close>

lemma rename_tree_ok:
  assumes ren: "fs_rename f d p q = (None, d')" and wf: "disk_wf d" and plain: "plain_path p" "plain_path q"
    and p: "p \<noteq> []" and new: "node_at d q = None"
  shows "disk_wf d' \<and> q \<noteq> [] \<and> \<not> prefix p q \<and> \<not> prefix q p
    \<and> (\<forall>k. node_at d' k = (case moved_from p q k of None \<Rightarrow> None | Some l \<Rightarrow> node_at d l))"
proof (cases "node_at d p = Some Dir")
  case True
  from rename_dir_ok [OF ren wf plain p True new] show ?thesis .
next
  case False
  have some: "node_at d p \<noteq> None" using rename_resolves [OF ren plain] by simp
  then obtain c where c: "node_at d p = Some (File c)" using False by (metis node.exhaust not_None_eq)
  then have pq: "p \<noteq> q" using new by auto
  from rename_file_ok [OF ren wf plain c pq] have d': "disk_wf d'" "q \<noteq> []"
    "\<forall>k. node_at d' k = (if k = q then Some (File c) else if k = p then None else node_at d k)" by blast+
  have below: "node_at d (l @ r) = None" if "node_at d l \<noteq> Some Dir" "r \<noteq> []" for l r
    using disk_wf_prefix [OF wf] that by blast
  have parent: "node_at d (butlast q) = Some Dir"
    using resolve_plain_dirs [OF wf plain(2) d'(2), of "[]"] rename_resolves(2) [OF ren plain] by simp
  have "\<not> prefix p q"
  proof
    assume "prefix p q"
    then obtain r where r: "q = p @ r" "r \<noteq> []" using pq by (auto simp: prefix_def)
    then have "butlast q = p @ butlast r" by (simp add: butlast_append)
    with parent c below [of p "butlast r"] show False by (cases "butlast r = []") auto
  qed
  moreover have "\<not> prefix q p"
  proof
    assume "prefix q p"
    then obtain r where "p = q @ r" "r \<noteq> []" using pq by (auto simp: prefix_def)
    with below [of q r] new c show False by simp
  qed
  moreover have "node_at d' k = (case moved_from p q k of None \<Rightarrow> None | Some l \<Rightarrow> node_at d l)" for k
  proof (cases "k = p \<or> k = q")
    case True
    then show ?thesis using d'(3) c calculation by (auto simp: moved_from_def)
  next
    case False
    then have "prefix q k \<Longrightarrow> node_at d k = None \<and> node_at d (p @ drop (length q) k) = None"
      using below new c by (auto simp: prefix_def)
    moreover have "node_at d k = None" if "prefix p k"
    proof -
      from that False obtain r where "k = p @ r" "r \<noteq> []" by (auto simp: prefix_def)
      with below [of p r] c show ?thesis by simp
    qed
    ultimately show ?thesis using d'(3) False by (auto simp: moved_from_def)
  qed
  ultimately show ?thesis using d' by blast
qed

text \<open>\<open>covers o n es data\<close>: the pairs move every key of \<open>data\<close> at or below \<open>o\<close> to the same place below \<open>n\<close>.\<close>

definition covers :: "string list \<Rightarrow> string list \<Rightarrow> (string list \<times> path) list \<Rightarrow> (string list \<times> FileMetadata) list \<Rightarrow> bool" where
  "covers old new es data \<longleftrightarrow> distinct (map fst es)
     \<and> (\<forall>(l, q) \<in> set es. l \<in> set (keys data) \<and> (\<exists>r. l = old @ r \<and> elems q = new @ r))
     \<and> (\<forall>l \<in> set (keys data). prefix old l \<longrightarrow> l \<in> fst ` set es)"

lemma coversI:
  assumes "distinct (map fst es)" "\<And>l q. (l, q) \<in> set es \<Longrightarrow> l \<in> set (keys data)"
    "\<And>l q. (l, q) \<in> set es \<Longrightarrow> \<exists>r. l = old @ r \<and> elems q = new @ r"
    "\<And>l. l \<in> set (keys data) \<Longrightarrow> prefix old l \<Longrightarrow> l \<in> fst ` set es"
  shows "covers old new es data"
  unfolding covers_def using assms by blast

lemma covers_entry:
  "covers old new es data \<Longrightarrow> (l, q) \<in> set es \<Longrightarrow>
   l \<in> set (keys data) \<and> (\<exists>r. l = old @ r \<and> elems q = new @ r)"
  unfolding covers_def by blast

lemma covers_key:
  assumes "covers old new es data" "l \<in> set (keys data)" "prefix old l"
  obtains q where "(l, q) \<in> set es"
proof -
  have "l \<in> fst ` set es" using assms unfolding covers_def by blast
  then show ?thesis using that by auto
qed

lemma covers_targets:
  assumes "covers old new es data"
  shows "distinct (map (elems \<circ> snd) es)"
proof -
  have src: "\<exists>r. l = old @ r \<and> elems q = new @ r" if "(l, q) \<in> set es" for l q
    using covers_entry [OF assms that] by blast
  have "elems q = new @ drop (length old) l" if "(l, q) \<in> set es" for l q
    using src [OF that] by auto
  then have "map (elems \<circ> snd) es = map (\<lambda>l. new @ drop (length old) l) (map fst es)"
    by auto
  moreover have "inj_on (\<lambda>l. new @ drop (length old) l) (set (map fst es))"
  proof (rule inj_onI)
    fix l l' assume "l \<in> set (map fst es)" "l' \<in> set (map fst es)"
      and eq: "new @ drop (length old) l = new @ drop (length old) l'"
    then obtain q q' where "(l, q) \<in> set es" "(l', q') \<in> set es" by auto
    then obtain r r' where "l = old @ r" "l' = old @ r'" using src by meson
    with eq show "l = l'" by simp
  qed
  ultimately show ?thesis using assms by (simp only: distinct_map covers_def)
qed

lemma renamed_covers:
  assumes inv: "store_inv s" and valid: "valid_filename q" and old: "map_of (ms_data s) (elems p) = None"
  shows "covers (elems p) (elems q) (renamed_entries p q (ms_data s)) (ms_data s)"
proof -
  let ?es = "renamed_entries p q (ms_data s)"
  have fsts: "map fst ?es = filter (\<lambda>k. is_inside k (elems p)) (keys (ms_data s))"
    by (simp add: renamed_entries_def comp_def split_def filter_map)
  have "\<exists>r. l = elems p @ r \<and> elems t = elems q @ r" if "(l, t) \<in> set ?es" for l t
  proof -
    from that have l: "l \<in> set (keys (ms_data s))" "is_inside l (elems p)"
      and t: "t = path_append q (join_names (relative_inside l (elems p)))"
      by (auto simp: renamed_entries_def intro: rev_image_eqI)
    then obtain r where r: "l = elems p @ r" by (auto simp: is_inside_iff)
    from l(1) obtain m where "map_of (ms_data s) l = Some m" by (auto dest: weak_map_of_SomeI)
    then have good: "good_key l" and ne: "r \<noteq> []" using store_invD(5) [OF inv] r old by auto
    then have plain: "\<forall>n \<in> set r. plain_name n" using good_key_plain_name [OF good] r by auto
    then have "hd r \<noteq> []" using ne by (cases r) (auto simp: plain_name_def)
    then have "relative_inside l (elems p) = r" using r ne by (simp add: relative_inside_def)
    with t elems_path_append [OF valid ne plain] have "elems t = elems q @ r" by simp
    with r show ?thesis by blast
  qed
  moreover have "fst ` set ?es = {l \<in> set (keys (ms_data s)). prefix (elems p) l}"
    using arg_cong [OF fsts, of set] by (auto simp: is_inside_iff prefix_def)
  moreover have "distinct (map fst ?es)" using store_invD(4) [OF inv] by (simp add: fsts)
  moreover have "l \<in> set (keys (ms_data s))" if "(l, t) \<in> set ?es" for l t
  proof -
    have "l \<in> set (map fst ?es)" using that by force
    then show ?thesis by (simp only: fsts) simp
  qed
  ultimately show ?thesis by (intro coversI) simp_all
qed

lemma moved_table:
  assumes cov: "covers old new es (ms_data s)" and dist: "distinct (keys (ms_data s))"
    and apart: "\<not> prefix old new" "\<not> prefix new old"
    and fresh: "\<And>r. map_of (ms_data s) (new @ r) = None"
  shows "\<exists>data. move_entries es s = (Inr (), s\<lparr>ms_data := data\<rparr>) \<and> distinct (keys data)
    \<and> name_space (s\<lparr>ms_data := data\<rparr>) =
        (\<lambda>k. case moved_from old new k of None \<Rightarrow> None | Some l \<Rightarrow> name_space s l)
    \<and> (\<forall>k m. map_of data k = Some m \<longrightarrow> elems (md_path m) = k \<or> map_of (ms_data s) k = Some m)"
proof -
  have src: "fst ` set es \<subseteq> set (keys (ms_data s))" using cov by (auto simp: covers_def)
  have tgt: "\<exists>r. t = new @ r \<and> old @ r \<in> fst ` set es" if "t \<in> (elems \<circ> snd) ` set es" for t
  proof -
    from that obtain l q where "(l, q) \<in> set es" "t = elems q" by auto
    with covers_entry [OF cov this(1)] show ?thesis by force
  qed
  have nokey: "new @ r \<notin> set (keys (ms_data s))" for r
    using fresh [of r] by (simp add: map_of_eq_None_iff)
  have "(elems \<circ> snd) ` set es \<inter> set (keys (ms_data s)) = {}"
  proof (rule equals0I)
    fix t assume "t \<in> (elems \<circ> snd) ` set es \<inter> set (keys (ms_data s))"
    then have t: "t \<in> (elems \<circ> snd) ` set es" "t \<in> set (keys (ms_data s))" by simp_all
    from tgt [OF t(1)] obtain r where "t = new @ r" by blast
    with nokey [of r] t(2) show False by simp
  qed
  from move_entries_ok [OF dist _ covers_targets [OF cov] src this] cov
  obtain data where data: "move_entries es s = (Inr (), s\<lparr>ms_data := data\<rparr>)" "distinct (keys data)"
    and put: "\<forall>(l, q) \<in> set es. map_of data (elems q) = Some ((the (map_of (ms_data s) l))\<lparr>md_path := q\<rparr>)"
    and gone: "\<forall>k \<in> fst ` set es. map_of data k = None"
    and same: "\<forall>k. k \<notin> fst ` set es \<and> k \<notin> (elems \<circ> snd) ` set es \<longrightarrow> map_of data k = map_of (ms_data s) k"
    by (auto simp: covers_def)
  have below_old: "prefix old k" if "k \<in> fst ` set es" for k
  proof -
    from that obtain q where "(k, q) \<in> set es" by auto
    with covers_entry [OF cov this] show ?thesis by auto
  qed
  have "map_option anon (map_of data k) =
      (case moved_from old new k of None \<Rightarrow> None | Some l \<Rightarrow> name_space s l)" for k
  proof (cases "prefix new k")
    case True
    then obtain r where k: "k = new @ r" by (auto simp: prefix_def)
    show ?thesis
    proof (cases "old @ r \<in> set (keys (ms_data s))")
      case True
      from covers_key [OF cov this] obtain q where q: "(old @ r, q) \<in> set es" by auto
      with covers_entry [OF cov q] have "elems q = new @ r" by auto
      with put q have "map_of data k = Some ((the (map_of (ms_data s) (old @ r)))\<lparr>md_path := q\<rparr>)" using k by fastforce
      moreover from True obtain m where "map_of (ms_data s) (old @ r) = Some m" by (auto dest: weak_map_of_SomeI)
      ultimately show ?thesis using k by (simp add: moved_from_def name_space_def anon_def)
    next
      case False
      have "k \<notin> (elems \<circ> snd) ` set es"
      proof
        assume "k \<in> (elems \<circ> snd) ` set es"
        from tgt [OF this] k have "old @ r \<in> fst ` set es" by auto
        with src False show False by blast
      qed
      moreover have "k \<notin> fst ` set es" unfolding k using src nokey [of r] by (rule contra_subsetD)
      ultimately have "map_of data k = None" using same fresh k by simp
      moreover have "map_of (ms_data s) (old @ r) = None" using False by (simp add: map_of_eq_None_iff)
      ultimately show ?thesis using k by (simp add: moved_from_def name_space_def)
    qed
  next
    case notnew: False
    have nt: "k \<notin> (elems \<circ> snd) ` set es"
    proof
      assume "k \<in> (elems \<circ> snd) ` set es"
      from tgt [OF this] notnew show False by auto
    qed
    show ?thesis
    proof (cases "k \<in> fst ` set es")
      case True
      have "map_of data k = None" using gone True by (rule bspec)
      moreover have "prefix old k" using True by (rule below_old)
      ultimately show ?thesis using notnew by (simp add: moved_from_def)
    next
      case False
      with same nt have eq: "map_of data k = map_of (ms_data s) k" by blast
      have "map_of (ms_data s) k = None" if "prefix old k"
      proof (rule ccontr)
        assume "map_of (ms_data s) k \<noteq> None"
        then have "k \<in> set (keys (ms_data s))" by (simp add: map_of_eq_None_iff)
        from covers_key [OF cov this that] obtain q where "(k, q) \<in> set es" .
        with False show False by force
      qed
      with eq notnew show ?thesis by (simp add: moved_from_def name_space_def)
    qed
  qed
  moreover have "elems (md_path m) = k \<or> map_of (ms_data s) k = Some m" if "map_of data k = Some m" for k m
  proof (cases "k \<in> (elems \<circ> snd) ` set es")
    case True
    with put that show ?thesis by fastforce
  next
    case False
    with that gone same show ?thesis by (cases "k \<in> fst ` set es") auto
  qed
  ultimately show ?thesis using data by (intro exI [of _ data]) (simp add: name_space_def fun_eq_iff)
qed

lemma good_key_move:
  assumes "good_key old" "good_key new"
  shows "good_key (old @ r) \<longleftrightarrow> good_key (new @ r)"
  using assms by (cases "r = []") (auto simp: good_key_def)

lemma good_key_moved:
  assumes "good_key old" "good_key new" "moved_from old new k = Some l"
  shows "good_key l \<longleftrightarrow> good_key k"
proof (cases "prefix new k")
  case True
  then obtain r where "k = new @ r" by (auto simp: prefix_def)
  with assms good_key_move [OF assms(1,2), of r] show ?thesis by (simp add: moved_from_def)
qed (use assms(3) in \<open>auto simp: moved_from_def split: if_splits\<close>)

lemma anon_keeps: "metadata_bytes (anon m) = metadata_bytes m" "md_ok (anon m) = md_ok m"
  by (simp_all add: anon_def metadata_bytes_def md_ok_def)

lemma anon_eqD: "anon m = anon m' \<Longrightarrow> metadata_bytes m = metadata_bytes m' \<and> md_ok m = md_ok m'"
  using anon_keeps by metis

lemma anon_bytes: "map_option anon x = map_option anon y \<Longrightarrow> map_option metadata_bytes x = map_option metadata_bytes y"
  by (cases x; cases y) (auto dest: anon_eqD)

lemma store_inv_moved:
  assumes inv: "store_inv s" and good: "good_key old" "good_key new"
    and wf: "disk_wf d" and dist: "distinct (keys data)"
    and node: "\<And>k. node_at d k = (case moved_from (ms_directory s @ old) (ms_directory s @ new) k of
        None \<Rightarrow> None | Some l \<Rightarrow> node_at (ms_disk s) l)"
    and table: "name_space (s\<lparr>ms_data := data\<rparr>) =
        (\<lambda>k. case moved_from old new k of None \<Rightarrow> None | Some l \<Rightarrow> name_space s l)"
    and paths: "\<And>k m. map_of data k = Some m \<Longrightarrow> elems (md_path m) = k \<or> map_of (ms_data s) k = Some m"
  shows "store_inv (s\<lparr>ms_disk := d, ms_data := data\<rparr>)"
proof -
  let ?s = "s\<lparr>ms_disk := d, ms_data := data\<rparr>"
  have tab: "map_option anon (map_of data k) =
      (case moved_from old new k of None \<Rightarrow> None | Some l \<Rightarrow> map_option anon (map_of (ms_data s) l))" for k
    using fun_cong [OF table, of k] by (simp add: name_space_def split: option.splits)
  have entry: "good_key k \<and> md_ok m \<and> elems (md_path m) = k" if m: "map_of data k = Some m" for k m
  proof -
    from tab [of k] m obtain l m' where l: "moved_from old new k = Some l" "map_of (ms_data s) l = Some m'"
      "anon m = anon m'" by (auto simp: map_option_case split: option.splits)
    with store_invD(5) [OF inv l(2)] good_key_moved [OF good l(1)] anon_eqD [OF l(3)] paths [OF m]
      store_invD(5) [OF inv, of k m] show ?thesis by auto
  qed
  have "stored_file ?s k = map_option metadata_bytes (map_of data k)" if "good_key k" for k
  proof (cases "moved_from old new k")
    case None
    with tab [of k] node [of "ms_directory s @ k"] moved_from_append_None [OF None, of "ms_directory s"]
    show ?thesis by (simp add: stored_file_def)
  next
    case (Some l)
    have "stored_file ?s k = stored_file s l"
      using node [of "ms_directory s @ k"] moved_from_append [OF Some, of "ms_directory s"]
      by (simp add: stored_file_def)
    also have "\<dots> = map_option metadata_bytes (map_of (ms_data s) l)"
      using store_invD(6) [OF inv] good_key_moved [OF good Some] that by simp
    also have "\<dots> = map_option metadata_bytes (map_of data k)"
      using tab [of k] Some by (intro anon_bytes) simp
    finally show ?thesis .
  qed
  moreover have "node_at d (ms_directory s) = Some Dir"
  proof -
    have "old \<noteq> []" "new \<noteq> []" using good by (auto simp: good_key_def)
    then have "moved_from (ms_directory s @ old) (ms_directory s @ new) (ms_directory s) = Some (ms_directory s)"
      by (auto simp: moved_from_def dest: prefix_length_le)
    with node [of "ms_directory s"] store_invD(3) [OF inv] show ?thesis by simp
  qed
  ultimately show ?thesis using inv wf dist entry by (auto simp: store_inv_def)
qed

lemma no_key_below:
  assumes inv: "store_inv s" and new: "node_at (ms_disk s) (ms_directory s @ n) = None"
  shows "map_of (ms_data s) (n @ t) = None"
proof (rule ccontr)
  assume "map_of (ms_data s) (n @ t) \<noteq> None"
  then obtain m where m: "map_of (ms_data s) (n @ t) = Some m" by blast
  with store_invD(5,6) [OF inv] have "stored_file s (n @ t) \<noteq> None" by fastforce
  then have "node_at (ms_disk s) ((ms_directory s @ n) @ t) \<noteq> None" by (auto simp: stored_file_Some)
  with new disk_wf_prefix [OF store_invD(1) [OF inv] this] show False by (cases "t = []") auto
qed

lemma rename_covers:
  assumes inv: "store_inv s" and valid: "valid_filename p" "valid_filename q"
    and es: "es = (if isfile then [(elems p, q)] else renamed_entries p q (ms_data s))"
    and f: "isfile = (\<exists>c. node_at (ms_disk s) (ms_directory s @ elems p) = Some (File c))"
    and key: "isfile \<Longrightarrow> map_of (ms_data s) (elems p) \<noteq> None"
  shows "covers (elems p) (elems q) es (ms_data s)"
proof (cases isfile)
  case False
  then have "stored_file s (elems p) = None" using f by (auto simp: stored_file_def split: option.splits node.splits)
  with store_invD(6) [OF inv valid_good [OF valid(1)]] have "map_of (ms_data s) (elems p) = None" by simp
  with renamed_covers [OF inv valid(2)] es False show ?thesis by simp
next
  case True
  with f obtain c where c: "node_at (ms_disk s) (ms_directory s @ elems p) = Some (File c)" by blast
  have "l = elems p" if l: "l \<in> set (keys (ms_data s))" "prefix (elems p) l" for l
  proof (rule ccontr)
    assume "l \<noteq> elems p"
    with l(2) obtain t where t: "l = elems p @ t" "t \<noteq> []" by (auto simp: prefix_def)
    from l(1) obtain m where "map_of (ms_data s) l = Some m" by (auto dest: weak_map_of_SomeI)
    with store_invD(5,6) [OF inv] have "stored_file s l \<noteq> None" by fastforce
    then have "node_at (ms_disk s) ((ms_directory s @ elems p) @ t) \<noteq> None" by (auto simp: stored_file_Some t)
    from disk_wf_prefix [OF store_invD(1) [OF inv] this t(2)] c show False by simp
  qed
  moreover have "elems p \<in> set (keys (ms_data s))" using key [OF True] by (simp add: map_of_eq_None_iff)
  ultimately show ?thesis by (intro coversI) (auto simp: es True)
qed

text \<open>A rename moves the name space below the old name, or changes nothing.\<close>

lemma rename_outcome:
  assumes call: "rename_metadata h p q s = (r, s')" and inv: "store_inv s"
  shows "store_inv s' \<and> (if r = Inr ()
     then valid_filename p \<and> valid_filename q \<and> (elems p = elems q \<longrightarrow> s' = s)
       \<and> (elems p \<noteq> elems q \<longrightarrow> name_space s' =
            (\<lambda>k. case moved_from (elems p) (elems q) k of None \<Rightarrow> None | Some l \<Rightarrow> name_space s l))
     else s' = s)"
proof (cases "valid_filename p \<and> valid_filename q \<and> elems p \<noteq> elems q
    \<and> fs_exists (host_faults h) (ms_disk s) (physical s (elems p)) = Inr True
    \<and> fs_exists (host_faults h) (ms_disk s) (physical s (elems q)) = Inr False
    \<and> map_of (ms_data s) (elems q) = None
    \<and> (\<exists>b. fs_is_directory (host_faults h) (ms_disk s) (physical s (elems p)) = Inr b)
    \<and> (\<exists>b. fs_is_regular_file (host_faults h) (ms_disk s) (physical s (elems p)) = Inr b)")
  case False
  with assms show ?thesis
    by (auto simp: rename_metadata_def Let_def valid_relative split: if_splits sum.splits bool.splits)
next
  case True
  let ?o = "elems p" and ?n = "elems q" and ?dir = "ms_directory s" and ?f = "host_faults h"
  have valid: "valid_filename p" "valid_filename q" and differ: "?o \<noteq> ?n"
    and ex: "fs_exists ?f (ms_disk s) (physical s ?o) = Inr True" "fs_exists ?f (ms_disk s) (physical s ?n) = Inr False"
    and newkey: "map_of (ms_data s) ?n = None" using True by blast+
  obtain isdir isfile where queries: "fs_is_directory ?f (ms_disk s) (physical s ?o) = Inr isdir"
    "fs_is_regular_file ?f (ms_disk s) (physical s ?o) = Inr isfile" using True by blast
  note good = valid_good [OF valid(1)] valid_good [OF valid(2)]
  note wf = store_invD(1) [OF inv]
  note plain = physical_plain [OF inv good(1)] physical_plain [OF inv good(2)]
  have kind: "isdir = (\<not> isfile)" "isfile = (\<exists>c. node_at (ms_disk s) (?dir @ ?o) = Some (File c))"
    using fs_is_directory_plain [OF queries(1) wf plain(1)] fs_is_regular_file_plain [OF queries(2) wf plain(1)]
    by (auto simp: physical_def) (metis node.exhaust)
  have newnode: "node_at (ms_disk s) (?dir @ ?n) = None"
    using fs_exists_plain [OF ex(2) wf plain(2)] by (simp add: physical_def)
  define es where "es = (if isfile then [(?o, q)] else renamed_entries p q (ms_data s))"
  show ?thesis
  proof (cases "isfile \<and> map_of (ms_data s) ?o = None \<or> list_ex (\<lambda>(_, e). map_of (ms_data s) (elems e) \<noteq> None) es
      \<or> (\<exists>e. fst (fs_rename ?f (ms_disk s) (physical s ?o) (physical s ?n)) = Some e)")
    case True
    then have "s' = s \<and> r \<noteq> Inr ()"
    proof (cases "fs_rename ?f (ms_disk s) (physical s ?o) (physical s ?n)")
      case (Pair ec d)
      with rename_failed [of ?f "ms_disk s" "physical s ?o" "physical s ?n" _ d]
      show ?thesis using True call valid ex queries differ newkey kind(1)
        by (auto simp: rename_metadata_def Let_def valid_relative es_def split: if_splits)
    qed
    with inv show ?thesis by auto
  next
    case False
    obtain d where ren: "fs_rename ?f (ms_disk s) (?dir @ ?o) (?dir @ ?n) = (None, d)"
      using False by (cases "fs_rename ?f (ms_disk s) (physical s ?o) (physical s ?n)") (auto simp: physical_def)
    have ne: "?dir @ ?o \<noteq> []" using good(1) by (simp add: good_key_def)
    from rename_tree_ok [OF ren wf _ _ ne newnode] plain
    have d: "disk_wf d" and apart: "\<not> prefix ?o ?n" "\<not> prefix ?n ?o"
      and node: "\<And>k. node_at d k = (case moved_from (?dir @ ?o) (?dir @ ?n) k of None \<Rightarrow> None | Some l \<Rightarrow> node_at (ms_disk s) l)"
      by (simp_all add: physical_def)
    have cov: "covers ?o ?n es (ms_data s)" by (rule rename_covers [OF inv valid es_def]) (use False kind in auto)
    have fresh: "map_of (ms_data s) (?n @ t) = None" for t
      by (rule no_key_below [OF inv newnode])
    from moved_table [of ?o ?n es "s\<lparr>ms_disk := d\<rparr>"] cov store_invD(4) [OF inv] apart fresh
    obtain data where data: "move_entries es (s\<lparr>ms_disk := d\<rparr>) = (Inr (), s\<lparr>ms_disk := d, ms_data := data\<rparr>)"
      "distinct (keys data)"
      and table: "name_space (s\<lparr>ms_disk := d, ms_data := data\<rparr>) =
        (\<lambda>k. case moved_from ?o ?n k of None \<Rightarrow> None | Some l \<Rightarrow> name_space (s\<lparr>ms_disk := d\<rparr>) l)"
      and paths: "\<And>k m. map_of data k = Some m \<Longrightarrow> elems (md_path m) = k \<or> map_of (ms_data s) k = Some m"
      by auto
    have res: "s' = s\<lparr>ms_disk := d, ms_data := data\<rparr> \<and> r = Inr ()"
      using False call valid ex queries differ newkey kind(1) ren data(1)
      by (auto simp: rename_metadata_def Let_def valid_relative es_def physical_def split: if_splits)
    have moved: "name_space (s\<lparr>ms_data := data\<rparr>) =
        (\<lambda>k. case moved_from ?o ?n k of None \<Rightarrow> None | Some l \<Rightarrow> name_space s l)"
      using table unfolding name_space_disk .
    from store_inv_moved [OF inv good d data(2) node moved paths] res moved valid differ
    show ?thesis by simp
  qed
qed

section \<open>Calls, runs and restarts\<close>

datatype store_call = Add path FileMetadata | Update path FileMetadata | Remove path
  | Make_directory path | Remove_directory path | Rename path path

fun call_store :: "Host \<Rightarrow> store_call \<Rightarrow> Store \<Rightarrow> unit stored" where
  "call_store h (Add p m) s = add_metadata h p m s"
| "call_store h (Update p m) s = update_metadata h p m s"
| "call_store h (Remove p) s = remove_metadata h p s"
| "call_store h (Make_directory p) s = make_directory h p s"
| "call_store h (Remove_directory p) s = remove_directory h p s"
| "call_store h (Rename p q) s = rename_metadata h p q s"

text \<open>What a successful call does to the name space.\<close>

fun spec_call :: "time_point \<Rightarrow> store_call \<Rightarrow> (string list \<Rightarrow> FileMetadata option) \<Rightarrow> string list \<Rightarrow> FileMetadata option" where
  "spec_call now (Add p m) ns = ns(elems p \<mapsto> stamped now now m)"
| "spec_call now (Update p m) ns =
     ns(elems p \<mapsto> stamped (case ns (elems p) of None \<Rightarrow> now | Some old \<Rightarrow> md_created_at old) now m)"
| "spec_call now (Remove p) ns = ns(elems p := None)"
| "spec_call now (Make_directory p) ns = ns"
| "spec_call now (Remove_directory p) ns = ns"
| "spec_call now (Rename p q) ns =
     (if elems p = elems q then ns
      else (\<lambda>k. case moved_from (elems p) (elems q) k of None \<Rightarrow> None | Some l \<Rightarrow> ns l))"

fun call_ok :: "store_call \<Rightarrow> bool" where
  "call_ok (Add p m) = md_strings_ok m"
| "call_ok (Update p m) = md_strings_ok m"
| "call_ok _ = True"

lemma call_outcome:
  assumes "call_store h c s = (r, s')" "store_inv s" "call_ok c" "time_fits (host_now h)"
  shows "store_inv s' \<and> name_space s' = (if r = Inr () then spec_call (host_now h) c (name_space s) else name_space s)"
proof (cases c)
  case (Add p m)
  with assms add_outcome [of h p m s r s'] show ?thesis by (cases "r = Inr ()") auto
next
  case (Update p m)
  with assms update_outcome [of h p m s r s'] show ?thesis by (cases "r = Inr ()") auto
next
  case (Remove p)
  with assms remove_outcome [of h p s r s'] show ?thesis by (cases "r = Inr ()") auto
next
  case (Make_directory p)
  with assms make_directory_outcome [of h p s r s'] show ?thesis by (auto simp: name_space_def fun_eq_iff)
next
  case (Remove_directory p)
  with assms remove_directory_outcome [of h p s r s'] show ?thesis by (auto simp: name_space_def fun_eq_iff)
next
  case (Rename p q)
  with assms rename_outcome [of h p q s r s'] show ?thesis
    by (cases "r = Inr ()"; cases "elems p = elems q") auto
qed

text \<open>The store and the name space through a run of calls, each with its own host.\<close>

fun run_store :: "(Host \<times> store_call) list \<Rightarrow> Store \<Rightarrow> Store" where
  "run_store [] s = s"
| "run_store ((h, c) # cs) s = run_store cs (snd (call_store h c s))"

fun run_spec :: "(Host \<times> store_call) list \<Rightarrow> Store \<Rightarrow> (string list \<Rightarrow> FileMetadata option) \<Rightarrow> string list \<Rightarrow> FileMetadata option" where
  "run_spec [] s ns = ns"
| "run_spec ((h, c) # cs) s ns =
     run_spec cs (snd (call_store h c s))
       (if fst (call_store h c s) = Inr () then spec_call (host_now h) c ns else ns)"

lemma run_outcome:
  "store_inv s \<Longrightarrow> \<forall>(h, c) \<in> set cs. call_ok c \<and> time_fits (host_now h) \<Longrightarrow>
   store_inv (run_store cs s) \<and> name_space (run_store cs s) = run_spec cs s (name_space s)"
proof (induction cs arbitrary: s)
  case (Cons hc cs)
  obtain h c where hc: "hc = (h, c)" by fastforce
  obtain r s' where c: "call_store h c s = (r, s')" by fastforce
  from Cons.prems hc call_outcome [OF c] have s': "store_inv s'"
    "name_space s' = (if r = Inr () then spec_call (host_now h) c (name_space s) else name_space s)" by auto
  from Cons.IH [OF s'(1)] Cons.prems(2) show ?case by (simp add: hc c s'(2))
qed simp

lemma write_directory: "write_metadata_file h p m s = (r, s') \<Longrightarrow> ms_directory s' = ms_directory s"
  by (auto simp: write_metadata_file_def written_metadata Let_def split: if_splits sum.splits prod.splits option.splits)

lemma move_entries_directory: "ms_directory (snd (move_entries es s)) = ms_directory s"
  by (induction es s rule: move_entries.induct) (auto split: option.split prod.split bool.split)

lemma add_directory: "ms_directory (snd (add_metadata h p m s)) = ms_directory s"
  by (auto simp: add_metadata_def Let_def split: sum.split bool.split prod.split dest: write_directory)

lemma call_directory: "ms_directory (snd (call_store h c s)) = ms_directory s"
proof (cases c)
  case (Add p m)
  then show ?thesis by (simp add: add_directory)
next
  case (Update p m)
  then show ?thesis
    by (auto simp: update_metadata_def add_directory Let_def split: sum.split option.split prod.split dest: write_directory)
next
  case (Rename p q)
  then show ?thesis
    by (auto simp: rename_metadata_def Let_def move_entries_directory split: sum.split option.split prod.split bool.split)
qed (auto simp: remove_metadata_def make_directory_def remove_directory_def Let_def split: sum.split prod.split bool.split)

lemma run_directory: "ms_directory (run_store cs s) = ms_directory s"
  by (induction cs arbitrary: s) (auto simp: call_directory)

definition host_ok :: "Host \<Rightarrow> bool" where
  "host_ok h \<longleftrightarrow> (\<forall>c p. \<not> fails (host_faults h) c p)"

definition in_ms :: "FileMetadata \<Rightarrow> FileMetadata" where
  "in_ms m = m\<lparr>md_created_at := to_ms (md_created_at m), md_modified_at := to_ms (md_modified_at m)\<rparr>"

text \<open>The entry that \<open>load_from_storage\<close> makes of a metadata file.\<close>

definition loaded :: "string list \<Rightarrow> FileMetadata \<Rightarrow> FileMetadata" where
  "loaded k m = (in_ms m)\<lparr>md_path := join_names k\<rparr>"

lemma to_ms_sdiv [simp]: "to_ms t sdiv 1000000 = t sdiv 1000000"
proof -
  have "ms * 1000000 sdiv 1000000 = ms" for ms :: int
    by (simp add: signed_divide_int_def abs_mult sgn_mult mult_sgn_abs)
  then show ?thesis by (simp add: to_ms_def)
qed

lemma loaded_keeps: "metadata_bytes (loaded k m) = metadata_bytes m" "md_ok (loaded k m) = md_ok m"
  "anon (loaded k m) = in_ms (anon m)" "md_path (loaded k m) = join_names k"
  by (simp_all add: loaded_def in_ms_def metadata_bytes_def md_ok_def time_fits_def anon_def)

lemma read_file_back:
  assumes "host_ok h" "disk_wf (ms_disk s)" "plain_path (physical s k)"
    "node_at (ms_disk s) (physical s k) = Some (File (metadata_bytes m))" "md_ok m"
  shows "read_metadata_file h k s = Inr (loaded k m)"
proof -
  have "open_in (host_faults h) (ms_disk s) (physical s k) = Inr (metadata_bytes m)"
    using assms(1) resolve_node [OF assms(2-4)] assms(4) by (simp add: open_in_def host_ok_def)
  with assms(1) read_metadata_back [OF assms(5)] show ?thesis
    by (simp add: read_metadata_file_def host_ok_def loaded_def in_ms_def)
qed

text \<open>\<open>loadable s es\<close>: entries of the disk below the directory whose metadata files decode.\<close>

definition loadable :: "Store \<Rightarrow> (location \<times> node) list \<Rightarrow> bool" where
  "loadable s es \<longleftrightarrow> (\<forall>(l, n) \<in> set es. node_at (ms_disk s) l = Some n \<and> plain_path l
     \<and> (\<exists>k. l = ms_directory s @ k \<and> k \<noteq> [] \<and> k \<notin> set (keys (ms_data s))
          \<and> (\<forall>c. n = File c \<and> extension_of (last k) \<noteq> ''.tmp'' \<longrightarrow> (\<exists>m. md_ok m \<and> c = metadata_bytes m))))"

lemma load_entries_ok:
  assumes "host_ok h" "disk_wf (ms_disk s)" "loadable s es" "distinct (map fst es)" "distinct (keys (ms_data s))"
  shows "\<exists>data. load_entries h es s = (Inr (), s\<lparr>ms_data := data\<rparr>) \<and> distinct (keys data)
    \<and> (\<forall>k m. (ms_directory s @ k, File (metadata_bytes m)) \<in> set es \<and> md_ok m \<and> extension_of (last k) \<noteq> ''.tmp''
          \<longrightarrow> map_of data k = Some (loaded k m))
    \<and> (\<forall>k. (\<forall>c. (ms_directory s @ k, File c) \<in> set es \<longrightarrow> extension_of (last k) = ''.tmp'') \<longrightarrow> map_of data k = map_of (ms_data s) k)"
  using assms(2-)
proof (induction es arbitrary: s)
  case Nil
  then show ?case by (intro exI [of _ "ms_data s"]) simp
next
  case (Cons e es)
  obtain l n where e: "e = (l, n)" by fastforce
  from Cons.prems(2) e obtain k where l: "l = ms_directory s @ k" and k: "k \<noteq> []" "k \<notin> set (keys (ms_data s))"
    and node: "node_at (ms_disk s) l = Some n" "plain_path l"
    and dec: "\<forall>c. n = File c \<and> extension_of (last k) \<noteq> ''.tmp'' \<longrightarrow> (\<exists>m. md_ok m \<and> c = metadata_bytes m)"
    by (auto simp: loadable_def)
  have load_es: "loadable s es" using Cons.prems(2) by (simp add: loadable_def)
  have okay: "\<not> fails (host_faults h) Sys_status l" using assms(1) by (simp add: host_ok_def)
  have fresh: "(l, n') \<notin> set es" for n' using Cons.prems(3) e by force
  show ?case
  proof (cases "n \<noteq> Dir \<and> extension_of (last k) \<noteq> ''.tmp''")
    case False
    then have "load_entries h (e # es) s = load_entries h es s" using okay by (auto simp: e l Let_def)
    with Cons.IH [OF Cons.prems(1) load_es _ Cons.prems(4)] Cons.prems(3) False show ?thesis
      by (auto simp: e l)
  next
    case True
    then obtain c where "n = File c" by (cases n) auto
    with dec True obtain m where m: "md_ok m" "n = File (metadata_bytes m)" by auto
    define s1 where "s1 = s\<lparr>ms_data := AList.update k (loaded k m) (ms_data s)\<rparr>"
    have "read_metadata_file h k s = Inr (loaded k m)"
      using read_file_back [OF assms(1) Cons.prems(1), of k m] node l m by (simp add: physical_def)
    then have step: "load_entries h (e # es) s = load_entries h es s1"
      using okay True k(2) by (simp add: e l Let_def try_emplace_def s1_def map_of_eq_None_iff [THEN iffD2])
    have "loadable s1 es"
      unfolding loadable_def
    proof (clarify)
      fix l' n' assume in_es: "(l', n') \<in> set es"
      with load_es obtain k' where k': "node_at (ms_disk s) l' = Some n'" "plain_path l'" "l' = ms_directory s @ k'" "k' \<noteq> []"
        "k' \<notin> set (keys (ms_data s))"
        "\<forall>c. n' = File c \<and> extension_of (last k') \<noteq> ''.tmp'' \<longrightarrow> (\<exists>m. md_ok m \<and> c = metadata_bytes m)"
        by (auto simp: loadable_def)
      moreover have "k' \<noteq> k" using fresh in_es k'(3) l by auto
      ultimately show "node_at (ms_disk s1) l' = Some n' \<and> plain_path l' \<and> (\<exists>k. l' = ms_directory s1 @ k \<and> k \<noteq> []
          \<and> k \<notin> set (keys (ms_data s1))
          \<and> (\<forall>c. n' = File c \<and> extension_of (last k) \<noteq> ''.tmp'' \<longrightarrow> (\<exists>m. md_ok m \<and> c = metadata_bytes m)))"
        by (auto simp: s1_def dom_update)
    qed
    from Cons.IH [OF _ this] Cons.prems(1,3,4) obtain data where data:
      "load_entries h es s1 = (Inr (), s1\<lparr>ms_data := data\<rparr>)" "distinct (keys data)"
      "\<forall>k m. (ms_directory s @ k, File (metadata_bytes m)) \<in> set es \<and> md_ok m \<and> extension_of (last k) \<noteq> ''.tmp''
          \<longrightarrow> map_of data k = Some (loaded k m)"
      "\<forall>k. (\<forall>c. (ms_directory s @ k, File c) \<in> set es \<longrightarrow> extension_of (last k) = ''.tmp'') \<longrightarrow> map_of data k = map_of (ms_data s1) k"
      by (auto simp: s1_def)
    have "map_of data k = Some (loaded k m)" using data(4) fresh l by (simp add: s1_def)
    moreover have others: "map_of data ka = map_of (ms_data s) ka"
      if "\<forall>c. (ms_directory s @ ka, File c) \<in> set (e # es) \<longrightarrow> extension_of (last ka) = ''.tmp''" for ka
    proof -
      have "ka \<noteq> k" using that True e l m(2) by auto
      moreover have "map_of data ka = map_of (ms_data s1) ka" using data(4) that by (meson list.set_intros(2))
      ultimately show ?thesis by (simp add: s1_def)
    qed
    moreover have "loaded k m' = loaded k m" if "metadata_bytes m' = metadata_bytes m" "md_ok m'" for m'
      using read_metadata_back [OF that(2)] read_metadata_back [OF m(1)] that(1) by (simp add: loaded_def in_ms_def)
    ultimately show ?thesis
      using data(1-3) step m(2) True others by (intro exI [of _ data]) (auto simp: s1_def e l)
  qed
qed

lemma walk_loadable:
  assumes "store_inv s"
  shows "loadable (s\<lparr>ms_data := []\<rparr>) (filter (\<lambda>(k, _). strict_prefix (ms_directory s) k) (ms_disk s))"
  unfolding loadable_def
proof (clarify)
  fix l n assume "(l, n) \<in> set (filter (\<lambda>(k, _). strict_prefix (ms_directory s) k) (ms_disk s))"
  then have l: "(l, n) \<in> set (ms_disk s)" "strict_prefix (ms_directory s) l" by auto
  have wf: "disk_wf (ms_disk s)" using assms by (simp add: store_invD(1))
  from l(1) wf have ne: "l \<noteq> []" and plain: "plain_path l" and "map_of (ms_disk s) l = Some n"
    by (force simp: disk_wf_def)+
  then have node: "node_at (ms_disk s) l = Some n" by (simp add: node_at_def)
  from l(2) obtain k where k: "l = ms_directory s @ k" "k \<noteq> []"
    by (auto simp: strict_prefix_def prefix_def)
  have "\<exists>m. md_ok m \<and> c = metadata_bytes m" if "n = File c" "extension_of (last k) \<noteq> ''.tmp''" for c
  proof -
    have "good_key k" using k plain that(2) by (simp add: good_key_def)
    moreover have "stored_file s k = Some c" using node k that(1) by (simp add: stored_file_Some)
    ultimately obtain m where "map_of (ms_data s) k = Some m" "c = metadata_bytes m"
      using store_invD(6) [OF assms, of k] by auto
    with store_invD(5) [OF assms] show ?thesis by blast
  qed
  with node plain k show "node_at (ms_disk (s\<lparr>ms_data := []\<rparr>)) l = Some n \<and> plain_path l
      \<and> (\<exists>k. l = ms_directory (s\<lparr>ms_data := []\<rparr>) @ k \<and> k \<noteq> [] \<and> k \<notin> set (keys (ms_data (s\<lparr>ms_data := []\<rparr>)))
        \<and> (\<forall>c. n = File c \<and> extension_of (last k) \<noteq> ''.tmp'' \<longrightarrow> (\<exists>m. md_ok m \<and> c = metadata_bytes m)))"
    by auto
qed

text \<open>Loading a directory that a store left behind gives the same name space, in milliseconds.\<close>

lemma load_outcome:
  assumes ok: "host_ok h" and inv: "store_inv s" and load: "load_from_storage h (s\<lparr>ms_data := lost\<rparr>) = (r, s')"
  shows "r = Inr () \<and> store_inv s' \<and> ms_disk s' = ms_disk s \<and> ms_directory s' = ms_directory s
    \<and> name_space s' = (\<lambda>k. map_option in_ms (name_space s k))"
proof -
  let ?es = "filter (\<lambda>(k, _). strict_prefix (ms_directory s) k) (ms_disk s)" and ?s = "s\<lparr>ms_data := []\<rparr>"
  have wf: "disk_wf (ms_disk s)" using inv by (simp add: store_invD(1))
  have dist: "distinct (map fst ?es)"
    using wf distinct_map_filter [of fst "ms_disk s"] by (simp add: disk_wf_def)
  have "fs_walk (host_faults h) (ms_disk s) (ms_directory s) = Inr ?es"
    using ok resolve_node [OF wf store_invD(2,3) [OF inv]] store_invD(3) [OF inv]
    by (simp add: fs_walk_def opened_directory_def host_ok_def)
  with load have "load_entries h ?es ?s = (r, s')" by (simp add: load_from_storage_def)
  with load_entries_ok [OF ok _ walk_loadable [OF inv] dist] wf obtain data where
    res: "r = Inr ()" "s' = s\<lparr>ms_data := data\<rparr>" "distinct (keys data)"
    and got: "\<And>k m. (ms_directory s @ k, File (metadata_bytes m)) \<in> set ?es \<Longrightarrow> md_ok m \<Longrightarrow>
        extension_of (last k) \<noteq> ''.tmp'' \<Longrightarrow> map_of data k = Some (loaded k m)"
    and none: "\<And>k. \<forall>c. (ms_directory s @ k, File c) \<in> set ?es \<longrightarrow> extension_of (last k) = ''.tmp'' \<Longrightarrow> map_of data k = None"
    by auto
  have in_disk: "(l, n) \<in> set (ms_disk s) \<longleftrightarrow> l \<noteq> [] \<and> node_at (ms_disk s) l = Some n" for l n
    using wf set_alist_map_of [of "ms_disk s" l n] by (force simp: disk_wf_def node_at_def)
  have tab: "map_of data k = map_option (loaded k) (map_of (ms_data s) k)" for k
  proof (cases "map_of (ms_data s) k")
    case (Some m)
    with store_invD(5) [OF inv Some] have good: "good_key k" "md_ok m" by simp_all
    with store_invD(6) [OF inv good(1)] Some have "node_at (ms_disk s) (ms_directory s @ k) = Some (File (metadata_bytes m))"
      by (simp add: stored_file_Some)
    with good in_disk have "(ms_directory s @ k, File (metadata_bytes m)) \<in> set ?es"
      by (auto simp: good_key_def strict_prefix_def)
    from got [OF this good(2)] good(1) Some show ?thesis by (simp add: good_key_def)
  next
    case None
    have "extension_of (last k) = ''.tmp''" if "(ms_directory s @ k, File c) \<in> set ?es" for c
    proof (rule ccontr)
      assume "extension_of (last k) \<noteq> ''.tmp''"
      moreover have "k \<noteq> []" "node_at (ms_disk s) (ms_directory s @ k) = Some (File c)"
        using that in_disk by (auto simp: strict_prefix_def)
      moreover have "plain_path (ms_directory s @ k)" using that wf by (force simp: disk_wf_def)
      ultimately have "good_key k" "stored_file s k = Some c" by (auto simp: good_key_def stored_file_Some)
      with store_invD(6) [OF inv] None show False by simp
    qed
    then have "map_of data k = None" by (intro none) blast
    with None show ?thesis by simp
  qed
  have "store_inv s'"
  proof -
    have "good_key k \<and> md_ok m \<and> elems (md_path m) = k" if "map_of data k = Some m" for k m
    proof -
      from that tab [of k] obtain m0 where m0: "map_of (ms_data s) k = Some m0" "m = loaded k m0" by auto
      with store_invD(5) [OF inv m0(1)] good_key_plain_name [of k] show ?thesis
        by (auto simp: loaded_keeps elems_join)
    qed
    moreover have "stored_file s' k = map_option metadata_bytes (map_of data k)" if "good_key k" for k
      using store_invD(6) [OF inv that] tab [of k]
      by (simp add: res(2) stored_file_def option.map_comp comp_def loaded_keeps)
    ultimately show ?thesis using inv res(3) by (auto simp: store_inv_def res(2))
  qed
  moreover have "name_space s' = (\<lambda>k. map_option in_ms (name_space s k))"
    using tab by (auto simp: name_space_def res(2) fun_eq_iff option.map_comp comp_def loaded_keeps)
  ultimately show ?thesis using res by simp
qed

section \<open>A small store\<close>

definition sample_host :: Host where
  "sample_host = \<lparr>host_faults = no_faults, host_now = 0\<rparr>"

definition sample_entry :: FileMetadata where
  "sample_entry = \<lparr>md_path = ''f'', md_size = 3, md_obj_id = ''o'', md_replica_0 = ''s1'', md_replica_1 = ''s2'',
     md_created_at = 0, md_modified_at = 1\<rparr>"

text \<open>One entry, and the temporary file of an interrupted write beside it.\<close>

definition sample_store :: Store where
  "sample_store = \<lparr>
     ms_disk = [([''d''], Dir), ([''d'', ''f''], File (metadata_bytes sample_entry)), ([''d'', ''f.tmp''], File [1])],
     ms_directory = [''d''], ms_data = [([''f''], sample_entry)]\<rparr>"

lemma sample_store_inv: "store_inv sample_store"
proof -
  have "elems ''f'' = [''f'']" by (simp add: elems_plain slash_def)
  moreover have "good_key [''f'']" "\<not> good_key [''f.tmp'']"
    by (simp_all add: good_key_def slash_def extension_of_def)
  moreover have "node_at (ms_disk sample_store) ([''d''] @ k) =
      (if k = [] then Some Dir else if k = [''f''] then Some (File (metadata_bytes sample_entry))
       else if k = [''f.tmp''] then Some (File [1]) else None)" for k
    by (simp add: sample_store_def node_at_def)
  moreover have "\<not> good_key []" by (simp add: good_key_def)
  ultimately show ?thesis
    unfolding store_inv_def stored_file_def
    by (auto simp: sample_store_def disk_wf_def node_at_def slash_def md_ok_def sample_entry_def nul_free_def time_fits_def signed_divide_int_def)
qed

section \<open>Properties of the store\<close>

text \<open>C8. Every operation keeps the table in memory and the files on disk in agreement, and acts
  on the name space as its specification says: a successful call has its effect, a failed one
  none, whatever the clock and whichever system calls fail.\<close>

theorem store_implements_name_space:
  assumes "store_inv s" "\<forall>(h, c) \<in> set cs. call_ok c \<and> time_fits (host_now h)"
  shows "store_inv (run_store cs s) \<and> name_space (run_store cs s) = run_spec cs s (name_space s)"
  using assms by (rule run_outcome)

theorem store_implements_name_space_witness:
  "store_inv (run_store [(sample_host, Add ''a'' sample_entry), (sample_host, Rename ''a'' ''b'')] sample_store)
   \<and> name_space (run_store [(sample_host, Add ''a'' sample_entry), (sample_host, Rename ''a'' ''b'')] sample_store) =
     run_spec [(sample_host, Add ''a'' sample_entry), (sample_host, Rename ''a'' ''b'')] sample_store (name_space sample_store)"
  by (rule store_implements_name_space [OF sample_store_inv])
    (simp add: sample_host_def sample_entry_def md_strings_ok_def nul_free_def time_fits_def)

text \<open>After any run the process may stop, also in the middle of a write: a new process that
  reads the directory finds the same name space, with times in milliseconds.\<close>

theorem restart_recovers:
  assumes "store_inv s" "\<forall>(h, c) \<in> set cs. call_ok c \<and> time_fits (host_now h)" "host_ok h"
    "new_store h (ms_disk (run_store cs s)) (ms_directory s) = (Inr s0, d)"
    "load_from_storage h s0 = (r, s')"
  shows "r = Inr () \<and> store_inv s' \<and> name_space s' = (\<lambda>k. map_option in_ms (run_spec cs s (name_space s) k))"
proof -
  let ?t = "run_store cs s"
  have inv: "store_inv ?t" and ns: "name_space ?t = run_spec cs s (name_space s)"
    using run_outcome [OF assms(1,2)] by simp_all
  have dir: "ms_directory ?t = ms_directory s" by (rule run_directory)
  have "fs_create_directories (host_faults h) (ms_disk ?t) (ms_directory s) = (None, ms_disk ?t)"
    using create_directories_done [OF store_invD(1,3) [OF inv]] assms(3) dir by (simp add: host_ok_def)
  with assms(4) have "s0 = \<lparr>ms_disk = ms_disk ?t, ms_directory = ms_directory s, ms_data = []\<rparr>"
    by (auto simp: new_store_def split: if_splits)
  then have "s0 = ?t\<lparr>ms_data := []\<rparr>" using dir by (cases ?t) simp
  with load_outcome [OF assms(3) inv] assms(5) ns show ?thesis by simp
qed

theorem restart_recovers_witness:
  "fst (load_from_storage sample_host (sample_store\<lparr>ms_data := []\<rparr>)) = Inr ()
   \<and> store_inv (snd (load_from_storage sample_host (sample_store\<lparr>ms_data := []\<rparr>)))
   \<and> name_space (snd (load_from_storage sample_host (sample_store\<lparr>ms_data := []\<rparr>))) [''f''] = Some (in_ms (anon sample_entry))"
proof -
  have ok: "host_ok sample_host" by (simp add: host_ok_def sample_host_def no_faults_def)
  have "new_store sample_host (ms_disk (run_store [] sample_store)) (ms_directory sample_store) =
      (Inr (sample_store\<lparr>ms_data := []\<rparr>), ms_disk sample_store)"
    by (simp add: new_store_def sample_store_def sample_host_def no_faults_def fs_create_directories_def node_at_def
        fs_is_directory_def fs_status_def)
  from restart_recovers [OF sample_store_inv _ ok this surjective_pairing] show ?thesis
    by (simp add: name_space_def) (simp add: sample_store_def)
qed

text \<open>The accepted file names are exactly the relative paths of ordinary names whose last one
  does not end like a temporary file: no accepted name leaves the data directory or
  collides with a temporary file.\<close>

theorem accepted_names:
  "valid_filename p = (\<not> is_absolute p \<and> elems p \<noteq> []
     \<and> list_all (\<lambda>n. n \<noteq> [] \<and> n \<noteq> ''.'' \<and> n \<noteq> ''..'' \<and> slash \<notin> set n) (elems p)
     \<and> extension_of (last (elems p)) \<noteq> ''.tmp'')"
  by (simp add: valid_filename_iff good_key_def plain_path_def list_all_iff)

text \<open>Listing does not check its path: a path with dot-dot components lists a directory
  outside the data directory.\<close>

theorem list_leaves_directory:
  "list_directory sample_host ''../e''
     \<lparr>ms_disk = [([''d''], Dir), ([''e''], Dir), ([''e'', ''secret''], File [])], ms_directory = [''d''], ms_data = []\<rparr>
   = Inr [\<lparr>fi_path = ''secret'', fi_is_directory = False\<rparr>]
   \<and> \<not> valid_filename ''../e''"
proof -
  have e: "elems ''../e'' = [''..'', ''e'']"
    using elems_join [of "[''..'', ''e'']"] by (simp add: plain_name_def slash_def)
  moreover have "\<not> is_absolute ''../e''" by (simp add: is_absolute_def slash_def)
  ultimately show ?thesis
    by (simp add: valid_filename_iff good_key_def list_directory_def relative_elems_def physical_def sample_host_def no_faults_def
        fs_exists_def fs_is_directory_def fs_status_def fs_list_def opened_directory_def node_at_def)
qed

end
