(* ===== verification/BlockingQueue.thy ===== *)
theory BlockingQueue
  imports Prelude "HOL-Library.Multiset"
begin

text \<open>
  \<^verbatim>\<open>common/util/BlockingQueue.hpp\<close>: the queue between the network thread, the producer
  and the workers. The mutex makes every operation atomic, so a run of several threads is
  a sequence of operations on the deque; a pop is modelled at the moment its wait ends,
  with the deque as it is then.
\<close>

section \<open>The operations\<close>

type_synonym 'a queue = "'a list"

definition push :: "'a \<Rightarrow> 'a queue \<Rightarrow> 'a queue" where
  "push item queue = queue @ [item]"

definition pop_with_timeout :: "'a queue \<Rightarrow> 'a option \<times> 'a queue" where
  "pop_with_timeout queue =
     (case queue of [] \<Rightarrow> (None, queue) | item # rest \<Rightarrow> (Some item, rest))"

text \<open>\<^verbatim>\<open>wait_for\<close> ends with an item that satisfies the predicate or with the timeout.\<close>

definition pop_if :: "('a \<Rightarrow> bool) \<Rightarrow> 'a queue \<Rightarrow> 'a option \<times> 'a queue" where
  "pop_if predicate queue =
     (if \<not> list_ex predicate queue then (None, queue)
      else (let before = takeWhile (\<lambda>x. \<not> predicate x) queue;
                it = dropWhile (\<lambda>x. \<not> predicate x) queue
            in (Some (hd it), before @ tl it)))"

text \<open>\<^verbatim>\<open>pop\<close> has no timeout: \<open>None\<close> while the caller still waits.\<close>

definition pop :: "'a queue \<Rightarrow> ('a \<times> 'a queue) option" where
  "pop queue = (case queue of [] \<Rightarrow> None | item # rest \<Rightarrow> Some (item, rest))"

section \<open>The interface of a queue with selective consumers\<close>

locale message_queue =
  fixes put_item :: "'a \<Rightarrow> 'q \<Rightarrow> 'q"
    and take_if :: "('a \<Rightarrow> bool) \<Rightarrow> 'q \<Rightarrow> 'a option \<times> 'q"
    and items :: "'q \<Rightarrow> 'a list"
  assumes items_put: "items (put_item x q) = items q @ [x]"
    and take_none: "take_if P q = (None, q') \<Longrightarrow> q' = q \<and> (\<forall>x \<in> set (items q). \<not> P x)"
    and take_some: "take_if P q = (Some x, q') \<Longrightarrow>
      \<exists>ys zs. items q = ys @ x # zs \<and> P x \<and> (\<forall>y \<in> set ys. \<not> P y) \<and> items q' = ys @ zs"
begin

lemma take_matches: "take_if P q = (Some x, q') \<Longrightarrow> P x \<and> x \<in> set (items q)"
  by (drule take_some) auto

text \<open>The oldest match is taken.\<close>

lemma take_first:
  "take_if P q = (Some x, q') \<Longrightarrow> filter P (items q) = x # filter P (items q')"
  by (drule take_some) (auto simp: filter_empty_conv)

lemma take_nothing: "take_if P q = (None, q') \<Longrightarrow> filter P (items q) = []"
  by (drule take_none) (auto simp: filter_empty_conv)

text \<open>A consumer with another, disjoint predicate neither loses nor reorders anything.\<close>

lemma take_other:
  assumes "take_if P q = (r, q')" "\<And>x. \<not> (P x \<and> Q x)"
  shows "filter Q (items q') = filter Q (items q)"
proof (cases r)
  case None
  with assms show ?thesis by (auto dest: take_none)
next
  case (Some x)
  with assms take_some [of P q x q'] show ?thesis by auto
qed

lemma take_mset:
  "take_if P q = (Some x, q') \<Longrightarrow> mset (items q) = add_mset x (mset (items q'))"
  by (drule take_some) auto

end

lemma pop_if_Some:
  assumes "pop_if P q = (Some x, q')"
  shows "\<exists>ys zs. q = ys @ x # zs \<and> P x \<and> (\<forall>y \<in> set ys. \<not> P y) \<and> q' = ys @ zs"
proof -
  let ?n = "\<lambda>x. \<not> P x"
  from assms have ex: "\<exists>y \<in> set q. P y"
    and x: "x = hd (dropWhile ?n q)" and q': "q' = takeWhile ?n q @ tl (dropWhile ?n q)"
    by (auto simp: pop_if_def list_ex_iff Let_def split: if_splits)
  from ex have ne: "dropWhile ?n q \<noteq> []" by auto
  then have "P x" unfolding x by (metis hd_dropWhile)
  moreover have "q = takeWhile ?n q @ x # tl (dropWhile ?n q)"
    using ne x by simp
  moreover have "\<forall>y \<in> set (takeWhile ?n q). \<not> P y" by (auto dest: set_takeWhileD)
  ultimately show ?thesis using q' by blast
qed

lemma pop_if_None: "pop_if P q = (None, q') \<Longrightarrow> q' = q \<and> (\<forall>x \<in> set q. \<not> P x)"
  by (auto simp: pop_if_def list_ex_iff Let_def split: if_splits)

interpretation mq: message_queue push pop_if "\<lambda>q. q"
proof
  fix P q x q'
  show "pop_if P q = (Some x, q') \<Longrightarrow>
      \<exists>ys zs. q = ys @ x # zs \<and> P x \<and> (\<forall>y \<in> set ys. \<not> P y) \<and> q' = ys @ zs"
    by (rule pop_if_Some)
qed (auto simp: push_def dest: pop_if_None)

lemma pop_with_timeout_any: "pop_with_timeout q = pop_if (\<lambda>_. True) q"
  by (cases q) (simp_all add: pop_with_timeout_def pop_if_def)

lemma pop_any: "pop q = (case pop_with_timeout q of (None, _) \<Rightarrow> None | (Some x, q') \<Rightarrow> Some (x, q'))"
  by (cases q) (simp_all add: pop_with_timeout_def pop_def)

section \<open>Runs of several threads\<close>

text \<open>
  Thread \<open>t\<close> of type \<open>'t\<close> takes with its predicate \<open>wants t\<close>; a run is any interleaving
  of pushes and takes. \<open>received t\<close> is what thread \<open>t\<close> got, in order.
\<close>

datatype ('t, 'a) queue_op = Push 'a | Take 't

fun run_queue :: "('t \<Rightarrow> 'a \<Rightarrow> bool) \<Rightarrow> ('t, 'a) queue_op list \<Rightarrow> 'a queue \<Rightarrow> ('t \<times> 'a) list \<times> 'a queue" where
  "run_queue wants [] q = ([], q)"
| "run_queue wants (Push x # ops) q = run_queue wants ops (push x q)"
| "run_queue wants (Take t # ops) q =
     (case pop_if (wants t) q of
        (None, q') \<Rightarrow> run_queue wants ops q'
      | (Some x, q') \<Rightarrow> (case run_queue wants ops q' of (got, q'') \<Rightarrow> ((t, x) # got, q'')))"

definition pushed :: "('t, 'a) queue_op list \<Rightarrow> 'a list" where
  "pushed ops = concat (map (\<lambda>op. case op of Push x \<Rightarrow> [x] | Take _ \<Rightarrow> []) ops)"

definition received :: "'t \<Rightarrow> ('t \<times> 'a) list \<Rightarrow> 'a list" where
  "received t got = map snd (filter (\<lambda>(u, _). u = t) got)"

lemma pushed_simps [simp]:
  "pushed [] = []" "pushed (Push x # ops) = x # pushed ops" "pushed (Take t # ops) = pushed ops"
  by (simp_all add: pushed_def)

lemma received_simps [simp]:
  "received t [] = []"
  "received t ((u, x) # got) = (if u = t then x # received t got else received t got)"
  by (simp_all add: received_def)

lemma run_queue_in_order:
  assumes disjoint: "\<And>t u x. t \<noteq> u \<Longrightarrow> \<not> (wants t x \<and> wants u x)"
  shows "run_queue wants ops q = (got, q') \<Longrightarrow>
    received t got @ filter (wants t) q' = filter (wants t) (q @ pushed ops)"
proof (induction ops arbitrary: q got)
  case Nil
  then show ?case by simp
next
  case (Cons op ops)
  show ?case
  proof (cases op)
    case (Push x)
    with Cons show ?thesis by (auto simp: push_def)
  next
    case (Take u)
    obtain r q1 where r: "pop_if (wants u) q = (r, q1)" by fastforce
    show ?thesis
    proof (cases r)
      case None
      with Cons Take r show ?thesis by (auto dest: mq.take_none)
    next
      case (Some x)
      with Cons.prems Take r obtain got1
        where got: "got = (u, x) # got1" "run_queue wants ops q1 = (got1, q')"
        by (auto split: prod.splits)
      have "(if u = t then [x] else []) @ filter (wants t) q1 = filter (wants t) q"
        using mq.take_first [of "wants u" q x q1] mq.take_other [OF r, of "wants t"]
          disjoint [of u t] r Some by auto
      with Cons.IH [OF got(2)] got(1) Take show ?thesis by (auto split: if_splits)
    qed
  qed
qed

lemma run_queue_conserves:
  "run_queue wants ops q = (got, q') \<Longrightarrow>
   mset (map snd got) + mset q' = mset q + mset (pushed ops)"
proof (induction wants ops q arbitrary: got rule: run_queue.induct)
  case (3 wants u ops q)
  obtain r q1 where r: "pop_if (wants u) q = (r, q1)" by fastforce
  show ?case
  proof (cases r)
    case None
    with 3 r show ?thesis by (auto dest: mq.take_none)
  next
    case (Some x)
    with 3 r mq.take_mset [of "wants u" q x q1] show ?thesis by (auto split: prod.splits)
  qed
qed (simp_all add: push_def)

section \<open>Properties of the queue\<close>

text \<open>C18. Consumers with disjoint predicates, such as a worker waiting for a storage response
  and the producer, do not disturb each other: however their operations interleave with the
  pushes, each gets the matching items in the order they were pushed.\<close>

theorem consumers_in_order:
  assumes "\<And>t u x. t \<noteq> u \<Longrightarrow> \<not> (wants t x \<and> wants u x)" "run_queue wants ops q = (got, q')"
  shows "received t got @ filter (wants t) q' = filter (wants t) (q @ pushed ops)"
  using assms by (rule run_queue_in_order)

theorem consumers_in_order_witness:
  "received True [(False, 3), (True, 2), (True, 4)] @ filter even [] = filter even ([3] @ [2, 4::nat])"
  using consumers_in_order [of "\<lambda>t x. even x = t" "[Push 2, Take False, Push 4, Take True, Take True]" "[3::nat]"
      "[(False, 3), (True, 2), (True, 4)]" "[]" True]
  by (simp add: pop_if_def push_def)

text \<open>Nothing is lost or delivered twice: what was received and what is left is what was
  there and what was pushed.\<close>

lemma queue_conserves:
  assumes "run_queue wants ops q = (got, q')"
  shows "mset (map snd got) + mset q' = mset q + mset (pushed ops)"
  using assms by (rule run_queue_conserves)

lemma queue_conserves_witness:
  "mset (map snd [((), 3), ((), 2::nat)]) + mset [] = mset [3] + mset (pushed [Push (2::nat), Take (), Take (), Take ()])"
  using queue_conserves [of "\<lambda>_ _. True" "[Push 2, Take (), Take (), Take ()]" "[3::nat]" "[((), 3), ((), 2)]" "[]"]
  by (simp add: pop_if_def push_def)

end
