(* ===== verification/Actions.thy ===== *)
theory Actions
  imports Messages BlockingQueue
begin

text \<open>
  How the handlers and the client run: an action takes the state, may throw, and returns a
  result with the state after it. \<open>wp\<close> reads off what an action guarantees. The second half
  is the network as its users see it: frames handed to \<^verbatim>\<open>Network::send\<close>, the message queue
  behind \<^verbatim>\<open>Network::receive_if\<close>, and everything outside the thread as a parameter.
\<close>

section \<open>Actions\<close>

type_synonym ('s, 'a) act = "'s \<Rightarrow> (exn + 'a) \<times> 's"

definition act_return :: "'a \<Rightarrow> ('s, 'a) act" where
  "act_return x s = (Inr x, s)"

definition act_throw :: "exn \<Rightarrow> ('s, 'a) act" where
  "act_throw e s = (Inl e, s)"

definition act_then :: "('s, 'a) act \<Rightarrow> ('a \<Rightarrow> ('s, 'b) act) \<Rightarrow> ('s, 'b) act" where
  "act_then m f s = (case m s of (Inl e, s1) \<Rightarrow> (Inl e, s1) | (Inr x, s1) \<Rightarrow> f x s1)"

definition act_get :: "('s \<Rightarrow> 'a) \<Rightarrow> ('s, 'a) act" where
  "act_get f s = (Inr (f s), s)"

definition act_modify :: "('s \<Rightarrow> 's) \<Rightarrow> ('s, unit) act" where
  "act_modify f s = (Inr (), f s)"

text \<open>A computation without state, and one on the state that cannot throw.\<close>

definition act_lift :: "exn + 'a \<Rightarrow> ('s, 'a) act" where
  "act_lift r s = (r, s)"

definition act_step :: "('s \<Rightarrow> 'a \<times> 's) \<Rightarrow> ('s, 'a) act" where
  "act_step f s = (case f s of (x, s1) \<Rightarrow> (Inr x, s1))"

fun act_each :: "('x \<Rightarrow> ('s, unit) act) \<Rightarrow> 'x list \<Rightarrow> ('s, unit) act" where
  "act_each f [] = act_return ()"
| "act_each f (x # xs) = act_then (f x) (\<lambda>_. act_each f xs)"

lemma then_assoc: "act_then (act_then a b) c = act_then a (\<lambda>x. act_then (b x) c)"
  by (rule ext) (simp add: act_then_def split: prod.split sum.split)

section \<open>What an action guarantees\<close>

definition wp :: "('s, 'a) act \<Rightarrow> ('a \<Rightarrow> 's \<Rightarrow> bool) \<Rightarrow> (exn \<Rightarrow> 's \<Rightarrow> bool) \<Rightarrow> 's \<Rightarrow> bool" where
  "wp m Q E s = (case m s of (Inl e, s1) \<Rightarrow> E e s1 | (Inr x, s1) \<Rightarrow> Q x s1)"

named_theorems wp_rules \<open>equations for the guarantees of actions\<close>

lemma wp_return [wp_rules]: "wp (act_return x) Q E s = Q x s"
  by (simp add: wp_def act_return_def)

lemma wp_throw [wp_rules]: "wp (act_throw e) Q E s = E e s"
  by (simp add: wp_def act_throw_def)

lemma wp_get [wp_rules]: "wp (act_get f) Q E s = Q (f s) s"
  by (simp add: wp_def act_get_def)

lemma wp_modify [wp_rules]: "wp (act_modify g) Q E s = Q () (g s)"
  by (simp add: wp_def act_modify_def)

lemma wp_then [wp_rules]: "wp (act_then m f) Q E s = wp m (\<lambda>x. wp (f x) Q E) E s"
  by (auto simp: wp_def act_then_def split: prod.split sum.split)

lemma wp_lift [wp_rules]: "wp (act_lift r) Q E s = (case r of Inl e \<Rightarrow> E e s | Inr x \<Rightarrow> Q x s)"
  by (simp add: wp_def act_lift_def)

lemma wp_step [wp_rules]: "wp (act_step f) Q E s = (case f s of (x, s1) \<Rightarrow> Q x s1)"
  by (simp add: wp_def act_step_def split: prod.split)

lemma wp_if [wp_rules]: "wp (if b then m else n) Q E s = (if b then wp m Q E s else wp n Q E s)"
  by simp

lemma wp_option [wp_rules]:
  "wp (case x of None \<Rightarrow> m | Some y \<Rightarrow> f y) Q E s = (case x of None \<Rightarrow> wp m Q E s | Some y \<Rightarrow> wp (f y) Q E s)"
  by (cases x) simp_all

lemma wp_sum [wp_rules]:
  "wp (case x of Inl e \<Rightarrow> g e | Inr y \<Rightarrow> f y) Q E s = (case x of Inl e \<Rightarrow> wp (g e) Q E s | Inr y \<Rightarrow> wp (f y) Q E s)"
  by (cases x) simp_all

lemma wp_prod [wp_rules]:
  "wp (case x of (a, b) \<Rightarrow> f a b) Q E s = (case x of (a, b) \<Rightarrow> wp (f a b) Q E s)"
  by (cases x) simp

lemma wp_let [wp_rules]: "wp (Let x f) Q E s = wp (f x) Q E s"
  by simp

lemma wp_mono:
  "wp m Q E s \<Longrightarrow> (\<And>x s. Q x s \<Longrightarrow> Q' x s) \<Longrightarrow> (\<And>e s. E e s \<Longrightarrow> E' e s) \<Longrightarrow> wp m Q' E' s"
  by (auto simp: wp_def split: prod.splits sum.splits)

lemma wpD:
  assumes "wp m Q E s" "m s = (r, s')"
  shows "case r of Inl e \<Rightarrow> E e s' | Inr x \<Rightarrow> Q x s'"
  using assms by (auto simp: wp_def split: sum.splits)

lemma wp_conj:
  "wp m Q E s \<Longrightarrow> wp m Q' E' s \<Longrightarrow> wp m (\<lambda>x s. Q x s \<and> Q' x s) (\<lambda>e s. E e s \<and> E' e s) s"
  by (auto simp: wp_def split: prod.splits sum.splits)

lemma wp_True: "wp m (\<lambda>_ _. True) (\<lambda>_ _. True) s"
  by (auto simp: wp_def split: prod.splits sum.splits)

text \<open>
  A thrown exception leaves the thread and ends the process, so what an action guarantees to
  the next one concerns its normal return.
\<close>

definition passes :: "('s \<Rightarrow> bool) \<Rightarrow> ('s, 'a) act \<Rightarrow> ('s \<Rightarrow> bool) \<Rightarrow> bool" where
  "passes P m Q \<longleftrightarrow> (\<forall>s. P s \<longrightarrow> wp m (\<lambda>_. Q) (\<lambda>_ _. True) s)"

abbreviation keeps :: "('s \<Rightarrow> bool) \<Rightarrow> ('s, 'a) act \<Rightarrow> bool" where
  "keeps P m \<equiv> passes P m P"

lemma passesI: "(\<And>s. P s \<Longrightarrow> wp m (\<lambda>_. Q) (\<lambda>_ _. True) s) \<Longrightarrow> passes P m Q"
  by (simp add: passes_def)

lemma passesD: "passes P m Q \<Longrightarrow> P s \<Longrightarrow> m s = (Inr x, s') \<Longrightarrow> Q s'"
  by (auto simp: passes_def wp_def split: sum.splits)

named_theorems passes_intros \<open>rules for the guarantees of composed actions\<close>

lemma passes_return [passes_intros]: "keeps P (act_return x)"
  by (simp add: passes_def wp_rules)

lemma passes_throw [passes_intros]: "passes P (act_throw e) Q"
  by (simp add: passes_def wp_rules)

lemma passes_lift [passes_intros]: "keeps P (act_lift r)"
  by (simp add: passes_def wp_rules split: sum.split)

lemma passes_get [passes_intros]: "keeps P (act_get f)"
  by (simp add: passes_def wp_rules)

lemma passes_trans:
  assumes "passes P m Q" "\<And>x. passes Q (f x) R"
  shows "passes P (act_then m f) R"
proof (rule passesI)
  fix s
  assume "P s"
  with assms(1) have "wp m (\<lambda>_. Q) (\<lambda>_ _. True) s" by (simp add: passes_def)
  then have "wp m (\<lambda>x. wp (f x) (\<lambda>_. R) (\<lambda>_ _. True)) (\<lambda>_ _. True) s"
    by (rule wp_mono) (use assms(2) in \<open>auto simp: passes_def\<close>)
  then show "wp (act_then m f) (\<lambda>_. R) (\<lambda>_ _. True) s" by (simp add: wp_rules)
qed

lemma passes_then [passes_intros]: "keeps P m \<Longrightarrow> (\<And>x. passes P (f x) Q) \<Longrightarrow> passes P (act_then m f) Q"
  by (rule passes_trans)

text \<open>A value read from the state, with what is known of it.\<close>

lemma passes_read: "(\<And>x. passes (\<lambda>s. P s \<and> f s = x) (g x) Q) \<Longrightarrow> passes P (act_then (act_get f) g) Q"
  by (auto simp: passes_def wp_rules)

lemma passes_lifted: "(\<And>x. r = Inr x \<Longrightarrow> passes P (g x) Q) \<Longrightarrow> passes P (act_then (act_lift r) g) Q"
  by (auto simp: passes_def wp_rules split: sum.split)

lemma passes_weaken: "passes P m Q \<Longrightarrow> (\<And>s. P' s \<Longrightarrow> P s) \<Longrightarrow> passes P' m Q"
  by (auto simp: passes_def)

lemma passes_fact: "(b \<Longrightarrow> passes P m Q) \<Longrightarrow> passes (\<lambda>s. b \<and> P s) m Q"
  by (auto simp: passes_def)

lemma passes_if [passes_intros]:
  "(b \<Longrightarrow> passes P m Q) \<Longrightarrow> (\<not> b \<Longrightarrow> passes P n Q) \<Longrightarrow> passes P (if b then m else n) Q"
  by simp

lemma passes_option [passes_intros]:
  "(x = None \<Longrightarrow> passes P m Q) \<Longrightarrow> (\<And>y. x = Some y \<Longrightarrow> passes P (f y) Q) \<Longrightarrow>
   passes P (case x of None \<Rightarrow> m | Some y \<Rightarrow> f y) Q"
  by (simp split: option.split)

lemma passes_sum [passes_intros]:
  "(\<And>e. r = Inl e \<Longrightarrow> passes P (g e) Q) \<Longrightarrow> (\<And>y. r = Inr y \<Longrightarrow> passes P (h y) Q) \<Longrightarrow>
   passes P (case r of Inl e \<Rightarrow> g e | Inr y \<Rightarrow> h y) Q"
  by (simp split: sum.split)

lemma passes_prod [passes_intros]:
  "(\<And>a b. x = (a, b) \<Longrightarrow> passes P (f a b) Q) \<Longrightarrow> passes P (case x of (a, b) \<Rightarrow> f a b) Q"
  by (simp split: prod.split)

lemma passes_each [passes_intros]: "(\<And>x. x \<in> set xs \<Longrightarrow> keeps P (f x)) \<Longrightarrow> keeps P (act_each f xs)"
  by (induction xs) (auto intro: passes_intros)

section \<open>The network as its users see it\<close>

text \<open>
  What is outside a thread: \<open>deliver id frame\<close> is the effect of a frame posted for node
  \<open>id\<close> on the rest of the system, and \<open>meanwhile\<close> what happens to the message queue while
  the thread waits in \<^verbatim>\<open>receive_if\<close>: messages arrive and other consumers take theirs.
\<close>

record 'e Outside =
  deliver :: "NodeId \<Rightarrow> Frame \<Rightarrow> 'e \<Rightarrow> 'e"
  meanwhile :: "Message queue \<Rightarrow> 'e \<Rightarrow> Message queue \<times> 'e"

record 'e Net =
  net_queue :: "Message queue"
  net_sent :: "(NodeId \<times> Frame) list"
  net_outside :: 'e

definition post_frame :: "'e Outside \<Rightarrow> NodeId \<Rightarrow> Frame \<Rightarrow> 'e Net \<Rightarrow> 'e Net" where
  "post_frame out node frame n =
     n\<lparr>net_sent := net_sent n @ [(node, frame)], net_outside := deliver out node frame (net_outside n)\<rparr>"

definition await_if :: "'e Outside \<Rightarrow> (Message \<Rightarrow> bool) \<Rightarrow> 'e Net \<Rightarrow> Message option \<times> 'e Net" where
  "await_if out predicate n =
     (case meanwhile out (net_queue n) (net_outside n) of (q, e) \<Rightarrow>
        (case pop_if predicate q of (m, q') \<Rightarrow> (m, n\<lparr>net_queue := q', net_outside := e\<rparr>)))"

lemma post_frame_sel [simp]:
  "net_sent (post_frame out node frame n) = net_sent n @ [(node, frame)]"
  "net_queue (post_frame out node frame n) = net_queue n"
  by (simp_all add: post_frame_def)

lemma await_if_sent: "await_if out p n = (m, n') \<Longrightarrow> net_sent n' = net_sent n"
  by (auto simp: await_if_def split: prod.splits)

lemma await_if_matches: "await_if out p n = (Some m, n') \<Longrightarrow> p m"
  by (auto simp: await_if_def split: prod.splits dest: mq.take_matches)

end
