(* ===== verification/StorageProtocol.thy ===== *)
theory StorageProtocol
  imports ClientProtocol
begin

text \<open>
  The metadata--storage protocol, \<^verbatim>\<open>common/rpc/StorageProtocol.hpp\<close> and
  \<^verbatim>\<open>StorageProtocol.cpp\<close>: chunk writes, chunk reads and deletions, with the same shape of
  encoders and decoders as the client protocol and the same round-trip interface.
\<close>

section \<open>Jobs, statuses and messages\<close>

record StorageHeartbeat =
  hb_sender :: NodeIdentity

datatype StorageJob = PUT | GET | DELETE | StorageJob_raw u8

fun storage_job_to_u8 :: "StorageJob \<Rightarrow> u8" where
  "storage_job_to_u8 PUT = 0"
| "storage_job_to_u8 GET = 1"
| "storage_job_to_u8 DELETE = 2"
| "storage_job_to_u8 (StorageJob_raw b) = b"

definition storage_job_of_u8 :: "u8 \<Rightarrow> StorageJob" where
  "storage_job_of_u8 b = (if b = 0 then PUT else if b = 1 then GET else if b = 2 then DELETE
     else StorageJob_raw b)"

definition storage_job_ok :: "StorageJob \<Rightarrow> bool" where
  "storage_job_ok j \<longleftrightarrow> storage_job_of_u8 (storage_job_to_u8 j) = j"

definition storage_rpc :: "StorageJob RpcTraits" where
  "storage_rpc = \<lparr>job_to_u8 = storage_job_to_u8, job_of_u8 = storage_job_of_u8, rpc_message_type = STORAGE_RPC\<rparr>"

type_synonym StorageRpcMessage = "StorageJob RpcMessage"

datatype StorageStatus = StSuccess | StNoSpace | StWriteError | StReadError | StInvalidRequest
  | StorageStatus_raw u8

fun storage_status_to_u8 :: "StorageStatus \<Rightarrow> u8" where
  "storage_status_to_u8 StSuccess = 0"
| "storage_status_to_u8 StNoSpace = 1"
| "storage_status_to_u8 StWriteError = 2"
| "storage_status_to_u8 StReadError = 3"
| "storage_status_to_u8 StInvalidRequest = 4"
| "storage_status_to_u8 (StorageStatus_raw b) = b"

definition storage_status_of_u8 :: "u8 \<Rightarrow> StorageStatus" where
  "storage_status_of_u8 b = (if b = 0 then StSuccess else if b = 1 then StNoSpace
     else if b = 2 then StWriteError else if b = 3 then StReadError else if b = 4 then StInvalidRequest
     else StorageStatus_raw b)"

definition storage_status_ok :: "StorageStatus \<Rightarrow> bool" where
  "storage_status_ok s \<longleftrightarrow> storage_status_of_u8 (storage_status_to_u8 s) = s"

record PutRequest =
  ptq_object_id :: string
  ptq_chunk_index :: u32
  ptq_final_chunk :: bool
  ptq_data :: "byte list"
  ptq_context :: RequestContext

record PutResponse =
  ptr_chunk_index :: u32
  ptr_size_available :: u64
  ptr_status :: StorageStatus

record GetRequest =
  gtq_object_id :: string
  gtq_chunk_index :: u32
  gtq_byte_count :: u32
  gtq_context :: RequestContext

record GetResponse =
  gtr_chunk_index :: u32
  gtr_status :: StorageStatus
  gtr_data :: "byte list"

record DeleteRequest =
  dlq_object_id :: string
  dlq_context :: RequestContext

record DeleteResponse =
  dlr_status :: StorageStatus

section \<open>Encoders and decoders\<close>

definition validate_storage_message :: "StorageJob \<Rightarrow> RpcKind \<Rightarrow> StorageRpcMessage \<Rightarrow> exn + unit" where
  "validate_storage_message job kind m =
     (if rpc_job (rpc_header m) \<noteq> job then Inl RuntimeError
      else if rpc_kind (rpc_header m) \<noteq> kind then Inl RuntimeError
      else Inr ())"

definition encode_storage :: "StorageJob \<Rightarrow> RpcKind \<Rightarrow> u64 \<Rightarrow> put list \<Rightarrow> exn + Frame" where
  "encode_storage job kind request_id parts =
     and_then (written parts) (\<lambda>body. make_frame storage_rpc request_id job kind body)"

definition decode_storage :: "StorageJob \<Rightarrow> RpcKind \<Rightarrow> 'a get \<Rightarrow> StorageRpcMessage \<Rightarrow> exn + 'a" where
  "decode_storage job kind parts m =
     and_then (validate_storage_message job kind m) (\<lambda>_. decoded parts (rpc_body m))"

definition read_storage_status :: "StorageStatus get" where
  "read_storage_status = read_enum storage_status_of_u8"

definition write_storage_status :: "StorageStatus \<Rightarrow> put" where
  "write_storage_status s = write_enum storage_status_to_u8 s"

definition encode_put_request :: "u64 \<Rightarrow> PutRequest \<Rightarrow> exn + Frame" where
  "encode_put_request request_id r =
     encode_storage PUT Request request_id [write_string (ptq_object_id r), write_integral (ptq_chunk_index r), write_bool (ptq_final_chunk r), write_bytes (ptq_data r)]"

definition decode_put_request :: "StorageRpcMessage \<Rightarrow> exn + PutRequest" where
  "decode_put_request m =
     decode_storage PUT Request
       (get_then read_string (\<lambda>object_id. get_then read_u32 (\<lambda>chunk_index. get_then read_bool (\<lambda>final_chunk. get_then read_remaining (\<lambda>data. 
          get_return \<lparr>ptq_object_id = object_id, ptq_chunk_index = chunk_index, ptq_final_chunk = final_chunk, ptq_data = data, ptq_context = context_from m\<rparr>))))) m"

definition encode_put_response :: "u64 \<Rightarrow> PutResponse \<Rightarrow> exn + Frame" where
  "encode_put_response request_id r =
     encode_storage PUT Response request_id [write_integral (ptr_chunk_index r), write_integral (ptr_size_available r), write_storage_status (ptr_status r)]"

definition decode_put_response :: "StorageRpcMessage \<Rightarrow> exn + PutResponse" where
  "decode_put_response m =
     decode_storage PUT Response
       (get_then read_u32 (\<lambda>chunk_index. get_then read_u64 (\<lambda>size_available. get_then read_storage_status (\<lambda>status. get_then assert_at_end (\<lambda>_. 
          get_return \<lparr>ptr_chunk_index = chunk_index, ptr_size_available = size_available, ptr_status = status\<rparr>))))) m"

definition encode_get_request :: "u64 \<Rightarrow> GetRequest \<Rightarrow> exn + Frame" where
  "encode_get_request request_id r =
     encode_storage GET Request request_id [write_string (gtq_object_id r), write_integral (gtq_chunk_index r), write_integral (gtq_byte_count r)]"

definition decode_get_request :: "StorageRpcMessage \<Rightarrow> exn + GetRequest" where
  "decode_get_request m =
     decode_storage GET Request
       (get_then read_string (\<lambda>object_id. get_then read_u32 (\<lambda>chunk_index. get_then read_u32 (\<lambda>byte_count. get_then assert_at_end (\<lambda>_. 
          get_return \<lparr>gtq_object_id = object_id, gtq_chunk_index = chunk_index, gtq_byte_count = byte_count, gtq_context = context_from m\<rparr>))))) m"

definition encode_get_response :: "u64 \<Rightarrow> GetResponse \<Rightarrow> exn + Frame" where
  "encode_get_response request_id r =
     encode_storage GET Response request_id [write_integral (gtr_chunk_index r), write_storage_status (gtr_status r), write_bytes (gtr_data r)]"

definition decode_get_response :: "StorageRpcMessage \<Rightarrow> exn + GetResponse" where
  "decode_get_response m =
     decode_storage GET Response
       (get_then read_u32 (\<lambda>chunk_index. get_then read_storage_status (\<lambda>status. get_then read_remaining (\<lambda>data. 
          get_return \<lparr>gtr_chunk_index = chunk_index, gtr_status = status, gtr_data = data\<rparr>)))) m"

definition encode_delete_request :: "u64 \<Rightarrow> DeleteRequest \<Rightarrow> exn + Frame" where
  "encode_delete_request request_id r =
     encode_storage DELETE Request request_id [write_string (dlq_object_id r)]"

definition decode_delete_request :: "StorageRpcMessage \<Rightarrow> exn + DeleteRequest" where
  "decode_delete_request m =
     decode_storage DELETE Request
       (get_then read_string (\<lambda>object_id. get_then assert_at_end (\<lambda>_. 
          get_return \<lparr>dlq_object_id = object_id, dlq_context = context_from m\<rparr>))) m"

definition encode_delete_response :: "u64 \<Rightarrow> DeleteResponse \<Rightarrow> exn + Frame" where
  "encode_delete_response request_id r =
     encode_storage DELETE Response request_id [write_storage_status (dlr_status r)]"

definition decode_delete_response :: "StorageRpcMessage \<Rightarrow> exn + DeleteResponse" where
  "decode_delete_response m =
     decode_storage DELETE Response
       (get_then read_storage_status (\<lambda>status. get_then assert_at_end (\<lambda>_. 
          get_return \<lparr>dlr_status = status\<rparr>))) m"

section \<open>Decoding inverts encoding\<close>

interpretation fsstatus: enum_codec storage_status_to_u8 storage_status_of_u8 storage_status_ok
  by unfold_locales (auto simp: storage_status_ok_def storage_status_of_u8_def)

lemma named_storage_status_ok [simp]:
  "storage_status_ok StSuccess" "storage_status_ok StNoSpace" "storage_status_ok StWriteError"
  "storage_status_ok StReadError" "storage_status_ok StInvalidRequest"
  by (simp_all add: storage_status_ok_def storage_status_of_u8_def)

lemmas storage_status_codecs [codec] =
  fsstatus.put_writes [folded write_storage_status_def]
  fsstatus.get_back [simplified, folded read_storage_status_def]
  fsstatus.get_back_end [simplified, folded read_storage_status_def]

interpretation storage_job: job_codec storage_rpc storage_job_ok
  by unfold_locales (auto simp: storage_rpc_def storage_job_ok_def storage_job_of_u8_def)

lemma storage_rpc_type [simp]: "rpc_message_type storage_rpc = STORAGE_RPC"
  by (simp add: storage_rpc_def)

lemma storage_jobs_ok [simp]: "storage_job_ok PUT" "storage_job_ok GET" "storage_job_ok DELETE"
  by (simp_all add: storage_job_ok_def storage_job_of_u8_def)

lemma encode_storage_eq:
  "list_all2 writes parts bss \<Longrightarrow>
   encode_storage job kind rid parts = Inr (rpc_frame storage_rpc rid job kind (concat bss))"
  by (simp add: encode_storage_def written_eq make_frame_eq)

lemma decode_storage_eq:
  "rpc_header m = \<lparr>rpc_request_id = rid, rpc_job = job, rpc_kind = kind\<rparr> \<Longrightarrow>
   decode_storage job kind parts m = decoded parts (rpc_body m)"
  by (simp add: decode_storage_def validate_storage_message_def)

lemma decode_storage_other:
  "rpc_kind (rpc_header m) \<noteq> kind \<or> rpc_job (rpc_header m) \<noteq> job \<Longrightarrow>
   decode_storage job kind parts m = Inl RuntimeError"
  by (auto simp: decode_storage_def validate_storage_message_def)

interpretation put_request: rpc_call storage_rpc storage_job_ok encode_put_request decode_put_request
  PUT Request "\<lambda>r. bytes_of_string (ptq_object_id r) @ [0] @ be_bytes 4 (ptq_chunk_index r) @ [if ptq_final_chunk r then 1 else 0] @ ptq_data r" "\<lambda>r. nul_free (ptq_object_id r)" "\<lambda>c r. r\<lparr>ptq_context := c\<rparr>"
  by unfold_locales (simp_all add: encode_put_request_def decode_put_request_def decode_storage_eq decoded_def
      new_reader_at codec encode_storage_eq [of "[write_string (ptq_object_id r), write_integral (ptq_chunk_index r), write_bool (ptq_final_chunk r), write_bytes (ptq_data r)]"
        "[bytes_of_string (ptq_object_id r) @ [0], be_bytes 4 (ptq_chunk_index r), [if ptq_final_chunk r then 1 else 0], ptq_data r]" for r])

interpretation put_response: rpc_call storage_rpc storage_job_ok encode_put_response decode_put_response
  PUT Response "\<lambda>r. be_bytes 4 (ptr_chunk_index r) @ be_bytes 8 (ptr_size_available r) @ [storage_status_to_u8 (ptr_status r)]" "\<lambda>r. storage_status_ok (ptr_status r)" "\<lambda>_ r. r"
  by unfold_locales (simp_all add: encode_put_response_def decode_put_response_def decode_storage_eq decoded_def
      new_reader_at codec encode_storage_eq [of "[write_integral (ptr_chunk_index r), write_integral (ptr_size_available r), write_storage_status (ptr_status r)]"
        "[be_bytes 4 (ptr_chunk_index r), be_bytes 8 (ptr_size_available r), [storage_status_to_u8 (ptr_status r)]]" for r])

interpretation get_request: rpc_call storage_rpc storage_job_ok encode_get_request decode_get_request
  GET Request "\<lambda>r. bytes_of_string (gtq_object_id r) @ [0] @ be_bytes 4 (gtq_chunk_index r) @ be_bytes 4 (gtq_byte_count r)" "\<lambda>r. nul_free (gtq_object_id r)" "\<lambda>c r. r\<lparr>gtq_context := c\<rparr>"
  by unfold_locales (simp_all add: encode_get_request_def decode_get_request_def decode_storage_eq decoded_def
      new_reader_at codec encode_storage_eq [of "[write_string (gtq_object_id r), write_integral (gtq_chunk_index r), write_integral (gtq_byte_count r)]"
        "[bytes_of_string (gtq_object_id r) @ [0], be_bytes 4 (gtq_chunk_index r), be_bytes 4 (gtq_byte_count r)]" for r])

interpretation get_response: rpc_call storage_rpc storage_job_ok encode_get_response decode_get_response
  GET Response "\<lambda>r. be_bytes 4 (gtr_chunk_index r) @ [storage_status_to_u8 (gtr_status r)] @ gtr_data r" "\<lambda>r. storage_status_ok (gtr_status r)" "\<lambda>_ r. r"
  by unfold_locales (simp_all add: encode_get_response_def decode_get_response_def decode_storage_eq decoded_def
      new_reader_at codec encode_storage_eq [of "[write_integral (gtr_chunk_index r), write_storage_status (gtr_status r), write_bytes (gtr_data r)]"
        "[be_bytes 4 (gtr_chunk_index r), [storage_status_to_u8 (gtr_status r)], gtr_data r]" for r])

interpretation delete_request: rpc_call storage_rpc storage_job_ok encode_delete_request decode_delete_request
  DELETE Request "\<lambda>r. bytes_of_string (dlq_object_id r) @ [0]" "\<lambda>r. nul_free (dlq_object_id r)" "\<lambda>c r. r\<lparr>dlq_context := c\<rparr>"
  by unfold_locales (simp_all add: encode_delete_request_def decode_delete_request_def decode_storage_eq decoded_def
      new_reader_at codec encode_storage_eq [of "[write_string (dlq_object_id r)]"
        "[bytes_of_string (dlq_object_id r) @ [0]]" for r])

interpretation delete_response: rpc_call storage_rpc storage_job_ok encode_delete_response decode_delete_response
  DELETE Response "\<lambda>r. [storage_status_to_u8 (dlr_status r)]" "\<lambda>r. storage_status_ok (dlr_status r)" "\<lambda>_ r. r"
  by unfold_locales (simp_all add: encode_delete_response_def decode_delete_response_def decode_storage_eq decoded_def
      new_reader_at codec encode_storage_eq [of "[write_storage_status (dlr_status r)]"
        "[[storage_status_to_u8 (dlr_status r)]]" for r])

section \<open>Properties of the protocol\<close>

text \<open>Every message between the metadata node and a storage node is decoded to what was
  encoded: requests in the context of their sender, responses as they are.\<close>

theorem storage_messages_delivered:
  assumes id: "nul_free oid" and status: "storage_status_ok s"
    and sizes: "length oid + length chunk < 2 ^ 31"
  shows
    "delivered storage_rpc encode_put_request decode_put_request sender rid
       \<lparr>ptq_object_id = oid, ptq_chunk_index = n, ptq_final_chunk = final, ptq_data = chunk, ptq_context = c\<rparr> =
       Inr \<lparr>ptq_object_id = oid, ptq_chunk_index = n, ptq_final_chunk = final, ptq_data = chunk,
            ptq_context = \<lparr>ctx_request_id = rid, ctx_sender = sender\<rparr>\<rparr>
     \<and> delivered storage_rpc encode_put_response decode_put_response sender rid
       \<lparr>ptr_chunk_index = n, ptr_size_available = left, ptr_status = s\<rparr> =
       Inr \<lparr>ptr_chunk_index = n, ptr_size_available = left, ptr_status = s\<rparr>
     \<and> delivered storage_rpc encode_get_request decode_get_request sender rid
       \<lparr>gtq_object_id = oid, gtq_chunk_index = n, gtq_byte_count = count, gtq_context = c\<rparr> =
       Inr \<lparr>gtq_object_id = oid, gtq_chunk_index = n, gtq_byte_count = count,
            gtq_context = \<lparr>ctx_request_id = rid, ctx_sender = sender\<rparr>\<rparr>
     \<and> delivered storage_rpc encode_get_response decode_get_response sender rid
       \<lparr>gtr_chunk_index = n, gtr_status = s, gtr_data = chunk\<rparr> =
       Inr \<lparr>gtr_chunk_index = n, gtr_status = s, gtr_data = chunk\<rparr>
     \<and> delivered storage_rpc encode_delete_request decode_delete_request sender rid
       \<lparr>dlq_object_id = oid, dlq_context = c\<rparr> =
       Inr \<lparr>dlq_object_id = oid, dlq_context = \<lparr>ctx_request_id = rid, ctx_sender = sender\<rparr>\<rparr>
     \<and> delivered storage_rpc encode_delete_response decode_delete_response sender rid
       \<lparr>dlr_status = s\<rparr> = Inr \<lparr>dlr_status = s\<rparr>"
  using id status sizes
  by (simp add: put_request.transported put_response.transported get_request.transported
      get_response.transported delete_request.transported delete_response.transported body_fits_def)

theorem storage_messages_delivered_witness:
  "delivered storage_rpc encode_put_request decode_put_request \<lparr>peer_id = ''m'', peer_role = METADATA\<rparr> 9
     \<lparr>ptq_object_id = ''o'', ptq_chunk_index = 2, ptq_final_chunk = True, ptq_data = [5, 6], ptq_context = empty_context\<rparr> =
   Inr \<lparr>ptq_object_id = ''o'', ptq_chunk_index = 2, ptq_final_chunk = True, ptq_data = [5, 6],
        ptq_context = \<lparr>ctx_request_id = 9, ctx_sender = \<lparr>peer_id = ''m'', peer_role = METADATA\<rparr>\<rparr>\<rparr>"
  using storage_messages_delivered [where oid = "''o''" and chunk = "[5, 6]" and s = StSuccess]
  by (simp add: nul_free_def)

text \<open>A message that a worker's filter takes from the queue is read without an exception
  and carries the request id, job, kind and sender the worker waits for.\<close>

theorem filtered_message_reads:
  assumes "make_message_is storage_rpc rid job kind sender bp m" "kind = Request \<or> kind = Response"
  shows "\<exists>rm. read_message storage_rpc m = Inr rm \<and> rpc_request_id (rpc_header rm) = rid
    \<and> rpc_job (rpc_header rm) = job \<and> rpc_kind (rpc_header rm) = kind \<and> peer_id (rpc_sender rm) = sender"
  using storage_job.make_message_is_reads [OF assms] by metis

theorem filtered_message_reads_witness:
  "\<exists>rm. read_message storage_rpc
      \<lparr>msg_sender = \<lparr>peer_id = ''s'', peer_role = STORAGE\<rparr>,
       msg_header = \<lparr>hdr_magic = 0x69, hdr_length = 11, hdr_type = STORAGE_RPC\<rparr>,
       msg_buffer = [0, 0, 0, 0, 0, 0, 0, 5, 2, 0, 0]\<rparr> = Inr rm
    \<and> rpc_request_id (rpc_header rm) = 5 \<and> rpc_job (rpc_header rm) = DELETE
    \<and> rpc_kind (rpc_header rm) = Response \<and> peer_id (rpc_sender rm) = ''s''"
  by (rule filtered_message_reads [where bp = match_any_body])
    (simp_all add: make_message_is_def header_matches_def HEADER_MAGIC_def storage_rpc_def decoded_def
      read_header_def read_u64_def read_u8_def read_integral_def underrun_def new_reader_def read_enum_def
      storage_job_of_u8_def kind_of_u8_def match_any_body_def)

end
