(* ===== verification/ObjectId.thy ===== *)
theory ObjectId
  imports Serializer
begin

text \<open>
  \<^verbatim>\<open>common/ObjectId.hpp\<close>: the textual UUID (version 4) that names an object on the storage
  nodes. The two draws of the seeded \<^verbatim>\<open>std::mt19937_64\<close> are the arguments.
\<close>

section \<open>The generator\<close>

definition hex_digits :: string where "hex_digits = ''0123456789abcdef''"

definition raw_bytes :: "u64 \<Rightarrow> u64 \<Rightarrow> byte list" where
  "raw_bytes first second =
     map (\<lambda>i. ucast (drop_bit ((7 - i) * 8) first)) [0..<8] @
     map (\<lambda>i. ucast (drop_bit ((7 - i) * 8) second)) [0..<8]"

definition uuid_bytes :: "u64 \<Rightarrow> u64 \<Rightarrow> byte list" where
  "uuid_bytes first second =
     (let bytes = raw_bytes first second;
          bytes = bytes[6 := (bytes ! 6 AND 0x0f) OR 0x40]
      in bytes[8 := (bytes ! 8 AND 0x3f) OR 0x80])"

definition hex_byte :: "byte \<Rightarrow> string" where
  "hex_byte b = [hex_digits ! unat (drop_bit 4 b), hex_digits ! unat (b AND 0x0f)]"

definition generate :: "u64 \<Rightarrow> u64 \<Rightarrow> string" where
  "generate first second =
     concat (map (\<lambda>i. (if i = 4 \<or> i = 6 \<or> i = 8 \<or> i = 10 then ''-'' else [])
                    @ hex_byte (uuid_bytes first second ! i)) [0..<16])"

section \<open>Shape of an identifier\<close>

lemma length_uuid_bytes [simp]: "length (uuid_bytes a b) = 16"
  by (simp add: uuid_bytes_def raw_bytes_def Let_def)

lemma nibble_bound: "unat (drop_bit 4 (b::byte)) < 16" "unat ((b::byte) AND 0x0f) < 16"
proof -
  have "unat b < 256" using unsigned_less [of b] by simp
  then show "unat (drop_bit 4 b) < 16"
    by (simp add: drop_bit_eq_div unat_div)
  have "b AND 0x0f \<le> 0x0f" by (rule word_and_le1)
  then have "unat (b AND 0x0f) \<le> unat (0x0f :: byte)" by (simp only: word_le_nat_alt)
  then show "unat (b AND 0x0f) < 16" by simp
qed

lemma hex_digit_in: "n < 16 \<Longrightarrow> hex_digits ! n \<in> set hex_digits"
  by (rule nth_mem) (simp add: hex_digits_def)

lemma set_hex_byte: "set (hex_byte b) \<subseteq> set hex_digits"
  using nibble_bound [of b] by (simp add: hex_byte_def hex_digit_in)

lemma set_generate: "set (generate a b) \<subseteq> insert CHR ''-'' (set hex_digits)"
  using set_hex_byte by (auto simp: generate_def)

lemma upt_16: "[0..<16] = [0,1,2,3,4,5,6,7,8,9,10,11,12,13,14,15::nat]"
  by (simp add: upt_rec)

lemma length_hex_byte [simp]: "length (hex_byte b) = 2"
  by (simp add: hex_byte_def)

lemma length_generate: "length (generate a b) = 36"
  by (simp add: generate_def upt_16)

lemma generate_nul_free: "nul_free (generate a b)"
  using set_generate [of a b] by (auto simp: nul_free_def hex_digits_def)

text \<open>Hex digits determine the byte, so the text determines the sixteen bytes.\<close>

lemma hex_digits_inj: "i < 16 \<Longrightarrow> j < 16 \<Longrightarrow> hex_digits ! i = hex_digits ! j \<Longrightarrow> i = j"
  by (rule nth_eq_iff_index_eq [THEN iffD1]) (simp_all add: hex_digits_def)

lemma hex_byte_inj:
  assumes "hex_byte a = hex_byte b"
  shows "a = b"
proof -
  have "unat (drop_bit 4 a) = unat (drop_bit 4 b)" "unat (a AND 0x0f) = unat (b AND 0x0f)"
    using assms by (auto simp: hex_byte_def intro: hex_digits_inj nibble_bound)
  then have "drop_bit 4 a = drop_bit 4 b" "a AND 0x0f = b AND 0x0f"
    by (simp_all only: word_unat_eq_iff)
  moreover have "x = push_bit 4 (drop_bit 4 x) OR (x AND mask 4)" for x :: byte
    by (rule bit_word_eqI) (auto simp: bit_simps)
  moreover have "(0x0f :: byte) = mask 4" by (simp add: mask_eq_exp_minus_1)
  ultimately show ?thesis by metis
qed

lemma append_eq_length2:
  "length x = length y \<Longrightarrow> x @ xs = y @ ys \<longleftrightarrow> x = y \<and> xs = ys"
  by simp

lemma generate_uuid_bytes:
  assumes "generate a b = generate c d"
  shows "uuid_bytes a b = uuid_bytes c d"
proof (rule nth_equalityI)
  show "length (uuid_bytes a b) = length (uuid_bytes c d)" by simp
  fix i assume "i < length (uuid_bytes a b)"
  then have "i \<in> set [0..<16]" by simp
  moreover have "\<forall>i \<in> set [0..<16]. hex_byte (uuid_bytes a b ! i) = hex_byte (uuid_bytes c d ! i)"
    using assms by (simp add: generate_def upt_16)
  ultimately show "uuid_bytes a b ! i = uuid_bytes c d ! i"
    by (blast intro: hex_byte_inj)
qed

section \<open>Properties of identifiers\<close>

lemma version_nibble: "drop_bit 4 ((x AND 0x0f) OR 0x40) = (4 :: byte)"
  by (simp add: drop_bit_and drop_bit_or)

lemma variant_nibble: "drop_bit 4 ((x AND 0x3f) OR 0x80) \<in> {8, 9, 10, 11 :: byte}"
proof -
  have "drop_bit 4 ((x AND 0x3f) OR 0x80) = (drop_bit 4 x AND 3) OR (8 :: byte)"
    by (simp add: drop_bit_and drop_bit_or)
  moreover have "drop_bit 4 x AND 3 \<in> {0, 1, 2, 3 :: byte}"
  proof -
    have "unat (drop_bit 4 x AND 3) \<le> unat (3 :: byte)"
      using word_and_le1 [of "drop_bit 4 x" 3] by (simp only: word_le_nat_alt)
    then have "unat (drop_bit 4 x AND 3) \<in> {0, 1, 2, 3}" by auto
    then show ?thesis by (auto simp: word_unat_eq_iff)
  qed
  ultimately show ?thesis by auto
qed

lemma generate_explicit:
  "generate a b =
     (let h = (\<lambda>i. hex_byte (uuid_bytes a b ! i))
      in h 0 @ h 1 @ h 2 @ h 3 @ ''-'' @ h 4 @ h 5 @ ''-'' @ h 6 @ h 7 @ ''-'' @ h 8 @ h 9 @ ''-''
         @ h 10 @ h 11 @ h 12 @ h 13 @ h 14 @ h 15)"
  by (simp add: generate_def upt_16 Let_def)

lemma generate_nth:
  "generate a b ! 14 = hex_digits ! unat (drop_bit 4 (uuid_bytes a b ! 6))"
  "generate a b ! 19 = hex_digits ! unat (drop_bit 4 (uuid_bytes a b ! 8))"
  by (simp_all add: generate_explicit Let_def hex_byte_def)

lemma hex_not_hyphen: "n < 16 \<Longrightarrow> hex_digits ! n \<noteq> CHR ''-''"
  using hex_digit_in [of n] by (auto simp: hex_digits_def)

lemma generate_hyphens: "filter (\<lambda>i. generate a b ! i = CHR ''-'') [0..<36] = [8, 13, 18, 23]"
  by (simp add: upt_rec generate_explicit Let_def hex_byte_def hex_not_hyphen nibble_bound)

text \<open>C20. An identifier is a version 4 UUID: 36 characters, hyphens at the fixed places, the
  version digit and the variant digit, hex digits elsewhere; and two draws that give the same
  text have the same 16 bytes, so no entropy is lost in printing.\<close>

theorem generate_is_uuid:
  "length (generate a b) = 36
   \<and> filter (\<lambda>i. generate a b ! i = CHR ''-'') [0..<36] = [8, 13, 18, 23]
   \<and> set (generate a b) \<subseteq> insert CHR ''-'' (set hex_digits)
   \<and> generate a b ! 14 = CHR ''4'' \<and> generate a b ! 19 \<in> set ''89ab''
   \<and> (generate a b = generate c d \<longleftrightarrow> uuid_bytes a b = uuid_bytes c d)"
proof -
  have b6: "uuid_bytes a b ! 6 = (raw_bytes a b ! 6 AND 0x0f) OR 0x40"
    and b8: "uuid_bytes a b ! 8 = (raw_bytes a b ! 8 AND 0x3f) OR 0x80"
    by (simp_all add: uuid_bytes_def Let_def raw_bytes_def)
  have four: "drop_bit 4 ((x AND 0x0f) OR 0x40) = (4 :: byte)" for x :: byte
    by (rule version_nibble)
  have variant: "drop_bit 4 ((x AND 0x3f) OR 0x80) \<in> {8, 9, 10, 11 :: byte}" for x :: byte
    by (rule variant_nibble)
  have "generate a b ! 14 = CHR ''4''"
    by (simp add: generate_nth b6 four hex_digits_def)
  moreover have "generate a b ! 19 \<in> set ''89ab''"
    using variant [of "raw_bytes a b ! 8"] by (auto simp: generate_nth b8 hex_digits_def)
  moreover have "uuid_bytes a b = uuid_bytes c d \<Longrightarrow> generate a b = generate c d"
    by (simp add: generate_def)
  ultimately show ?thesis
    using generate_hyphens set_generate length_generate generate_uuid_bytes by blast
qed

end
