(* ===== verification/MetadataWorker.thy ===== *)
theory MetadataWorker
  imports Actions MetadataStore StorageProtocol ObjectId "HOL-Library.List_Lexorder" "HOL-Library.Char_ord"
begin

text \<open>
  \<^verbatim>\<open>metadata/MetadataWorker.hpp\<close> and \<^verbatim>\<open>MetadataWorker.cpp\<close>: the thread of the metadata node
  that executes client requests. A handler is an action on the worker; a thrown exception
  leaves the thread, which ends the process.
\<close>

section \<open>State\<close>

text \<open>\<^verbatim>\<open>PendingRead\<close> and \<^verbatim>\<open>PendingWrite\<close> have the same fields.\<close>

record Pending =
  pd_path :: path
  pd_object_id :: string
  pd_file_size :: u64
  pd_chunk_count :: u32
  pd_next_chunk :: u32
  pd_replica_0 :: NodeId
  pd_replica_1 :: NodeId

type_synonym PendingRead = Pending
type_synonym PendingWrite = Pending

text \<open>\<^verbatim>\<open>{ ClientID : { RequestId : PendingWrite } }\<close>\<close>

type_synonym pending_table = "(NodeId \<times> (u64 \<times> Pending) list) list"

record 'e MetadataWorker =
  mw_store :: Store
  mw_nodes :: "(NodeId \<times> StorageNodeInfo) list"
  current_storage_request_id :: u64
  mw_draws :: nat
  pending_reads :: pending_table
  pending_writes :: pending_table
  mw_net :: "'e Net"

text \<open>
  What a handler meets outside the worker: the network, the host of the store, and the pairs of
  64-bit draws of the random generator, one per object id.
\<close>

record 'e Env =
  env_outside :: "'e Outside"
  env_host :: Host
  env_draw :: "nat \<Rightarrow> u64 \<times> u64"

type_synonym ('e, 'a) worker_act = "('e MetadataWorker, 'a) act"

datatype ClientEvent =
    CreateFileEvent CreateFileRequest | ReadFileEvent ReadFileRequest | ReadChunkEvent ReadChunkRequest
  | WriteFileEvent WriteFileRequest | WriteChunkEvent WriteChunkRequest | RemoveEvent RemoveRequest
  | ListEvent ListRequest | MakeDirEvent MakeDirRequest | RenameEvent RenameRequest | StatEvent StatRequest

section \<open>Helpers\<close>

fun client_status_of :: "MetadataStoreError + 'a \<Rightarrow> ClientStatus" where
  "client_status_of (Inr _) = Success"
| "client_status_of (Inl INVALID_PATH) = InputError"
| "client_status_of (Inl ALREADY_EXISTS) = AlreadyExists"
| "client_status_of (Inl _) = ServerError"

definition send :: "'e Env \<Rightarrow> NodeId \<Rightarrow> Frame \<Rightarrow> ('e, unit) worker_act" where
  "send env node frame = act_modify (\<lambda>s. s\<lparr>mw_net := post_frame (env_outside env) node frame (mw_net s)\<rparr>)"

definition receive_if :: "'e Env \<Rightarrow> (Message \<Rightarrow> bool) \<Rightarrow> ('e, Message option) worker_act" where
  "receive_if env predicate =
     act_step (\<lambda>s. case await_if (env_outside env) predicate (mw_net s) of (m, n) \<Rightarrow> (m, s\<lparr>mw_net := n\<rparr>))"

text \<open>\<^verbatim>\<open>make_responder\<close>, and the plain encode and send of the other handlers.\<close>

definition respond :: "'e Env \<Rightarrow> RequestContext \<Rightarrow> (u64 \<Rightarrow> 'r \<Rightarrow> exn + Frame) \<Rightarrow> 'r \<Rightarrow> ('e, unit) worker_act" where
  "respond env ctx encoder response =
     act_then (act_lift (encoder (ctx_request_id ctx) response)) (\<lambda>frame. send env (peer_id (ctx_sender ctx)) frame)"

definition on_store :: "(Store \<Rightarrow> 'a stored) \<Rightarrow> ('e, MetadataStoreError + 'a) worker_act" where
  "on_store f = act_step (\<lambda>s. case f (mw_store s) of (r, st) \<Rightarrow> (r, s\<lparr>mw_store := st\<rparr>))"

definition new_object_id :: "'e Env \<Rightarrow> ('e, string) worker_act" where
  "new_object_id env = act_step (\<lambda>s. case env_draw env (mw_draws s) of
     (high, low) \<Rightarrow> (generate high low, s\<lparr>mw_draws := mw_draws s + 1\<rparr>))"

definition next_storage_request_id :: "('e, u64) worker_act" where
  "next_storage_request_id = act_step (\<lambda>s. let i = current_storage_request_id s + 1 in
     (i, s\<lparr>current_storage_request_id := i\<rparr>))"

text \<open>The entry that a file first gets: no times, they are set by the store.\<close>

definition file_entry :: "path \<Rightarrow> u64 \<Rightarrow> string \<Rightarrow> NodeId \<Rightarrow> NodeId \<Rightarrow> FileMetadata" where
  "file_entry p n oid r0 r1 = \<lparr>md_path = p, md_size = n, md_obj_id = oid, md_replica_0 = r0,
     md_replica_1 = r1, md_created_at = 0, md_modified_at = 0\<rparr>"

text \<open>The chunks of a file.\<close>

definition chunks_for :: "u64 \<Rightarrow> u64" where
  "chunks_for n = n div ucast CHUNK_SIZE + (if n mod ucast CHUNK_SIZE \<noteq> 0 then 1 else 0)"

definition chunk_length :: "u64 \<Rightarrow> u32 \<Rightarrow> u64" where
  "chunk_length n i = min (ucast CHUNK_SIZE) (n - ucast i * ucast CHUNK_SIZE)"

text \<open>A response whose encoder does not throw is one message to the sender.\<close>

lemma respond_run:
  "enc (ctx_request_id ctx) r = Inr f \<Longrightarrow>
   respond env ctx enc r w = (Inr (), w\<lparr>mw_net := post_frame (env_outside env) (peer_id (ctx_sender ctx)) f (mw_net w)\<rparr>)"
  by (simp add: respond_def act_then_def act_lift_def send_def act_modify_def)

section \<open>The pending tables\<close>

definition find_pending :: "NodeId \<Rightarrow> u64 \<Rightarrow> pending_table \<Rightarrow> Pending option" where
  "find_pending client rid t = (case map_of t client of None \<Rightarrow> None | Some entries \<Rightarrow> map_of entries rid)"

definition emplace_pending :: "NodeId \<Rightarrow> u64 \<Rightarrow> Pending \<Rightarrow> pending_table \<Rightarrow> bool \<times> pending_table" where
  "emplace_pending client rid p t =
     (let entries = (case map_of t client of None \<Rightarrow> [] | Some es \<Rightarrow> es) in
      case try_emplace rid p entries of (inserted, es) \<Rightarrow> (inserted, AList.update client es t))"

definition discard_pending :: "NodeId \<Rightarrow> u64 \<Rightarrow> pending_table \<Rightarrow> pending_table" where
  "discard_pending client rid t =
     (case map_of t client of
        None \<Rightarrow> t
      | Some entries \<Rightarrow> (let es = AList.delete rid entries in
          if es = [] then AList.delete client t else AList.update client es t))"

text \<open>\<^verbatim>\<open>next_chunk++\<close> through the reference to an entry.\<close>

definition advance_pending :: "NodeId \<Rightarrow> u64 \<Rightarrow> pending_table \<Rightarrow> pending_table" where
  "advance_pending client rid t =
     (case map_of t client of
        None \<Rightarrow> t
      | Some entries \<Rightarrow> (case map_of entries rid of
          None \<Rightarrow> t
        | Some p \<Rightarrow> AList.update client (AList.update rid (p\<lparr>pd_next_chunk := pd_next_chunk p + 1\<rparr>) entries) t))"

definition being_written :: "path \<Rightarrow> pending_table \<Rightarrow> bool" where
  "being_written p t = list_ex (\<lambda>(_, entries). list_ex (\<lambda>(_, w). pd_path w = p) entries) t"

section \<open>Placement\<close>

text \<open>Candidates in the order of the sort: most bytes left first, then by id.\<close>

datatype Candidate = Candidate (cand_bytes: u64) (cand_id: NodeId)

instantiation Candidate :: linorder
begin

definition less_eq_Candidate :: "Candidate \<Rightarrow> Candidate \<Rightarrow> bool" where
  "c \<le> d \<longleftrightarrow> (if cand_bytes c \<noteq> cand_bytes d then cand_bytes c > cand_bytes d else cand_id c \<le> cand_id d)"

definition less_Candidate :: "Candidate \<Rightarrow> Candidate \<Rightarrow> bool" where
  "c < d \<longleftrightarrow> (if cand_bytes c \<noteq> cand_bytes d then cand_bytes c > cand_bytes d else cand_id c < cand_id d)"

instance
proof
  fix c d e :: Candidate
  show "(c < d) = (c \<le> d \<and> \<not> d \<le> c)"
    by (auto simp: less_eq_Candidate_def less_Candidate_def)
  show "c \<le> c" by (simp add: less_eq_Candidate_def)
  show "c \<le> d \<Longrightarrow> d \<le> e \<Longrightarrow> c \<le> e" by (auto simp: less_eq_Candidate_def split: if_splits)
  show "c \<le> d \<Longrightarrow> d \<le> c \<Longrightarrow> c = d"
    by (cases c; cases d) (auto simp: less_eq_Candidate_def split: if_splits)
  show "c \<le> d \<or> d \<le> c" by (auto simp: less_eq_Candidate_def)
qed

end

definition placement :: "(NodeId \<times> StorageNodeInfo) list \<Rightarrow> NodeId list" where
  "placement nodes =
     map cand_id (sort (map (\<lambda>(node_id, info). Candidate (bytes_left info) node_id)
       (filter (\<lambda>(_, info). available info) nodes)))"

definition node_available :: "(NodeId \<times> StorageNodeInfo) list \<Rightarrow> NodeId \<Rightarrow> bool" where
  "node_available nodes node = (case map_of nodes node of None \<Rightarrow> False | Some info \<Rightarrow> available info)"

definition set_bytes_left :: "NodeId \<Rightarrow> u64 \<Rightarrow> (NodeId \<times> StorageNodeInfo) list \<Rightarrow> (NodeId \<times> StorageNodeInfo) list" where
  "set_bytes_left node n nodes =
     (case map_of nodes node of None \<Rightarrow> nodes | Some info \<Rightarrow> AList.update node (info\<lparr>bytes_left := n\<rparr>) nodes)"

section \<open>Creating and writing files\<close>

definition handle_create_file :: "'e Env \<Rightarrow> CreateFileRequest \<Rightarrow> ('e, unit) worker_act" where
  "handle_create_file env req =
     act_then (new_object_id env) (\<lambda>oid.
     act_then (on_store (add_metadata (env_host env) (cfq_path req) (file_entry (cfq_path req) 0 oid [] []))) (\<lambda>expected.
       respond env (cfq_context req) encode_create_file_response
         \<lparr>cfr_status = client_status_of expected, cfr_context = cfq_context req\<rparr>))"

definition write_file_reply :: "'e Env \<Rightarrow> WriteFileRequest \<Rightarrow> ClientStatus \<Rightarrow> ('e, unit) worker_act" where
  "write_file_reply env req status =
     respond env (wfq_context req) encode_write_file_response \<lparr>wfr_status = status, wfr_context = empty_context\<rparr>"

definition start_write :: "'e Env \<Rightarrow> WriteFileRequest \<Rightarrow> FileMetadata \<Rightarrow> NodeId \<Rightarrow> NodeId \<Rightarrow> ('e, unit) worker_act" where
  "start_write env req metadata r0 r1 =
     act_then (act_step (\<lambda>s. case emplace_pending (peer_id (ctx_sender (wfq_context req))) (ctx_request_id (wfq_context req))
         \<lparr>pd_path = wfq_path req, pd_object_id = md_obj_id metadata, pd_file_size = wfq_file_size req,
          pd_chunk_count = wfq_chunk_count req, pd_next_chunk = 0, pd_replica_0 = r0, pd_replica_1 = r1\<rparr>
         (pending_writes s) of (inserted, t) \<Rightarrow> (inserted, s\<lparr>pending_writes := t\<rparr>))) (\<lambda>inserted.
       write_file_reply env req (if inserted then Success else ServerError))"

definition write_file_with :: "'e Env \<Rightarrow> WriteFileRequest \<Rightarrow> FileMetadata \<Rightarrow> ('e, unit) worker_act" where
  "write_file_with env req metadata =
     (let r0 = md_replica_0 metadata; r1 = md_replica_1 metadata;
          first_bound = (r0 \<noteq> []); second_bound = (r1 \<noteq> []); reply = write_file_reply env req;
          update = (\<lambda>m. on_store (update_metadata (env_host env) (wfq_path req) m)) in
      if md_obj_id metadata = [] then reply ServerError
      else if first_bound \<noteq> second_bound then reply ServerError
      else if first_bound \<and> r0 = r1 then reply ServerError
      else if wfq_chunk_count req = 0 then
        act_then (update (metadata\<lparr>md_size := 0\<rparr>)) (\<lambda>update_result.
          case update_result of Inl _ \<Rightarrow> reply ServerError | Inr _ \<Rightarrow> reply Success)
      else act_then (act_get mw_nodes) (\<lambda>nodes.
        if first_bound then
          (if \<not> list_all (node_available nodes) [r0, r1] then reply ServerError
           else start_write env req metadata r0 r1)
        else let candidates = placement nodes in
          if length candidates < 2 then reply ServerError
          else let c0 = candidates ! 0; c1 = candidates ! 1 in
            act_then (update (metadata\<lparr>md_replica_0 := c0, md_replica_1 := c1\<rparr>)) (\<lambda>bind_result.
              case bind_result of
                Inl _ \<Rightarrow> reply ServerError
              | Inr _ \<Rightarrow> start_write env req (metadata\<lparr>md_replica_0 := c0, md_replica_1 := c1\<rparr>) c0 c1)))"

definition handle_write_file :: "'e Env \<Rightarrow> WriteFileRequest \<Rightarrow> ('e, unit) worker_act" where
  "handle_write_file env req =
     (if chunks_for (wfq_file_size req) \<noteq> ucast (wfq_chunk_count req) then write_file_reply env req ServerError
      else act_then (act_get (\<lambda>s. get_metadata (wfq_path req) (mw_store s))) (\<lambda>metadata_result.
        case metadata_result of
          Inr metadata \<Rightarrow> write_file_with env req metadata
        | Inl e \<Rightarrow> if e \<noteq> NOT_FOUND then write_file_reply env req ServerError
            else act_then (new_object_id env) (\<lambda>oid.
              write_file_with env req (file_entry (wfq_path req) 0 oid [] []))))"

section \<open>Writing a chunk\<close>

definition write_chunk_reply :: "'e Env \<Rightarrow> WriteChunkRequest \<Rightarrow> ClientStatus \<Rightarrow> ('e, unit) worker_act" where
  "write_chunk_reply env req status =
     respond env (wcq_context req) encode_write_chunk_response
       \<lparr>wcr_chunk_index = wcq_chunk_index req, wcr_status = status, wcr_context = wcq_context req\<rparr>"

definition discard_write :: "RequestContext \<Rightarrow> ('e, unit) worker_act" where
  "discard_write ctx = act_modify (\<lambda>s. s\<lparr>pending_writes :=
     discard_pending (peer_id (ctx_sender ctx)) (ctx_request_id ctx) (pending_writes s)\<rparr>)"

text \<open>The acknowledgement of one replica; only the wait is bounded, a decoding error is not caught.\<close>

definition put_acknowledged :: "'e Env \<Rightarrow> u64 \<Rightarrow> u32 \<Rightarrow> NodeId \<Rightarrow> ('e, bool) worker_act" where
  "put_acknowledged env rid index replica =
     act_then (receive_if env (make_message_is storage_rpc rid PUT Response replica (chunk_index_is index)))
       (\<lambda>response_message. case response_message of
          None \<Rightarrow> act_return False
        | Some m \<Rightarrow>
            act_then (act_lift (and_then (read_message storage_rpc m) decode_put_response)) (\<lambda>response.
            act_then (act_modify (\<lambda>s. s\<lparr>mw_nodes := set_bytes_left replica (ptr_size_available response) (mw_nodes s)\<rparr>)) (\<lambda>_.
              act_return (ptr_status response = StSuccess))))"

fun puts_acknowledged :: "'e Env \<Rightarrow> u64 \<Rightarrow> u32 \<Rightarrow> NodeId list \<Rightarrow> ('e, bool) worker_act" where
  "puts_acknowledged env rid index [] = act_return True"
| "puts_acknowledged env rid index (replica # replicas) =
     act_then (put_acknowledged env rid index replica) (\<lambda>ok.
     act_then (puts_acknowledged env rid index replicas) (\<lambda>oks. act_return (ok \<and> oks)))"

definition write_chunk_to :: "'e Env \<Rightarrow> WriteChunkRequest \<Rightarrow> PendingWrite \<Rightarrow> ('e, unit) worker_act" where
  "write_chunk_to env req w =
     (let ctx = wcq_context req; index = wcq_chunk_index req; reply = write_chunk_reply env req;
          replicas = [pd_replica_0 w, pd_replica_1 w];
          put = \<lparr>ptq_object_id = pd_object_id w, ptq_chunk_index = index,
                 ptq_final_chunk = (index + 1 = pd_chunk_count w), ptq_data = wcq_data req, ptq_context = empty_context\<rparr> in
      if index \<noteq> pd_next_chunk w \<or> index \<ge> pd_chunk_count w
      then act_then (discard_write ctx) (\<lambda>_. reply InputError)
      else if length (wcq_data req) \<noteq> unat (chunk_length (pd_file_size w) index)
      then act_then (discard_write ctx) (\<lambda>_. reply InputError)
      else
        act_then (act_each (\<lambda>replica. act_then (act_lift (encode_put_request (ctx_request_id ctx) put)) (send env replica)) replicas) (\<lambda>_.
        act_then (puts_acknowledged env (ctx_request_id ctx) index replicas) (\<lambda>replicas_succeeded.
        if \<not> replicas_succeeded then act_then (discard_write ctx) (\<lambda>_. reply ServerError)
        else
        act_then (act_modify (\<lambda>s. s\<lparr>pending_writes :=
            advance_pending (peer_id (ctx_sender ctx)) (ctx_request_id ctx) (pending_writes s)\<rparr>)) (\<lambda>_.
        if index + 1 \<noteq> pd_chunk_count w then reply Success
        else
        act_then (on_store (update_metadata (env_host env) (pd_path w)
            (file_entry (pd_path w) (pd_file_size w) (pd_object_id w) (pd_replica_0 w) (pd_replica_1 w)))) (\<lambda>metadata_result.
        act_then (discard_write ctx) (\<lambda>_. reply (client_status_of metadata_result)))))))"

definition handle_write_chunk :: "'e Env \<Rightarrow> WriteChunkRequest \<Rightarrow> ('e, unit) worker_act" where
  "handle_write_chunk env req =
     act_then (act_get (\<lambda>s. find_pending (peer_id (ctx_sender (wcq_context req))) (ctx_request_id (wcq_context req)) (pending_writes s)))
       (\<lambda>entry. case entry of
          None \<Rightarrow> write_chunk_reply env req InputError
        | Some w \<Rightarrow> write_chunk_to env req w)"

section \<open>Reading files\<close>

definition read_file_reply :: "'e Env \<Rightarrow> ReadFileRequest \<Rightarrow> ClientStatus \<Rightarrow> u64 \<Rightarrow> u32 \<Rightarrow> ('e, unit) worker_act" where
  "read_file_reply env req status n chunk_total =
     respond env (rfq_context req) encode_read_file_response
       \<lparr>rfr_status = status, rfr_file_size = n, rfr_chunk_count = chunk_total, rfr_context = rfq_context req\<rparr>"

definition start_read :: "'e Env \<Rightarrow> ReadFileRequest \<Rightarrow> FileMetadata \<Rightarrow> u64 \<Rightarrow> ('e, unit) worker_act" where
  "start_read env req metadata chunk_count =
     (let reply = read_file_reply env req Success (md_size metadata) (ucast chunk_count) in
      if chunk_count = 0 then reply
      else act_then (act_step (\<lambda>s. case emplace_pending (peer_id (ctx_sender (rfq_context req))) (ctx_request_id (rfq_context req))
         \<lparr>pd_path = rfq_path req, pd_object_id = md_obj_id metadata, pd_file_size = md_size metadata,
          pd_chunk_count = ucast chunk_count, pd_next_chunk = 0,
          pd_replica_0 = md_replica_0 metadata, pd_replica_1 = md_replica_1 metadata\<rparr>
         (pending_reads s) of (inserted, t) \<Rightarrow> (inserted, s\<lparr>pending_reads := t\<rparr>))) (\<lambda>inserted.
       if \<not> inserted then read_file_reply env req ServerError 0 0 else reply))"

definition handle_read_file :: "'e Env \<Rightarrow> ReadFileRequest \<Rightarrow> ('e, unit) worker_act" where
  "handle_read_file env req =
     (let respond_error = (\<lambda>status. read_file_reply env req status 0 0) in
      act_then (act_get (\<lambda>s. (being_written (rfq_path req) (pending_writes s), get_metadata (rfq_path req) (mw_store s), mw_nodes s)))
       (\<lambda>(writing, metadata_result, nodes).
        if writing then respond_error ServerError
        else (case metadata_result of
            Inl _ \<Rightarrow> respond_error (client_status_of metadata_result)
          | Inr metadata \<Rightarrow>
        if md_obj_id metadata = [] then respond_error ServerError
        else let chunk_count = chunks_for (md_size metadata); r0 = md_replica_0 metadata; r1 = md_replica_1 metadata in
        if chunk_count > ucast (- 1 :: u32) then respond_error ServerError
        else if md_size metadata \<noteq> 0 \<and> (r0 = [] \<or> r1 = [] \<or> r0 = r1) then respond_error ServerError
        else if md_size metadata \<noteq> 0 \<and> \<not> list_ex (node_available nodes) [r0, r1] then respond_error ServerError
        else start_read env req metadata chunk_count)))"

section \<open>Reading a chunk\<close>

definition read_chunk_reply :: "'e Env \<Rightarrow> ReadChunkRequest \<Rightarrow> ClientStatus \<Rightarrow> byte list \<Rightarrow> ('e, unit) worker_act" where
  "read_chunk_reply env req status bytes =
     respond env (rcq_context req) encode_read_chunk_response
       \<lparr>rcr_chunk_index = rcq_chunk_index req, rcr_status = status, rcr_data = bytes, rcr_context = rcq_context req\<rparr>"

definition discard_read :: "RequestContext \<Rightarrow> ('e, unit) worker_act" where
  "discard_read ctx = act_modify (\<lambda>s. s\<lparr>pending_reads :=
     discard_pending (peer_id (ctx_sender ctx)) (ctx_request_id ctx) (pending_reads s)\<rparr>)"

text \<open>The loop over the replicas: the data of the first that gives the chunk.\<close>

fun fetch_chunk :: "'e Env \<Rightarrow> string \<Rightarrow> u32 \<Rightarrow> u32 \<Rightarrow> NodeId list \<Rightarrow> ('e, byte list option) worker_act" where
  "fetch_chunk env oid index expected_size [] = act_return None"
| "fetch_chunk env oid index expected_size (replica # replicas) =
     act_then (act_get (\<lambda>s. node_available (mw_nodes s) replica)) (\<lambda>usable.
     if \<not> usable then fetch_chunk env oid index expected_size replicas
     else
     act_then next_storage_request_id (\<lambda>rid.
     act_then (act_lift (encode_get_request rid \<lparr>gtq_object_id = oid, gtq_chunk_index = index,
         gtq_byte_count = expected_size, gtq_context = empty_context\<rparr>)) (\<lambda>frame.
     act_then (send env replica frame) (\<lambda>_.
     act_then (receive_if env (make_message_is storage_rpc rid GET Response replica (chunk_index_is index))) (\<lambda>message.
     case message of
       None \<Rightarrow> fetch_chunk env oid index expected_size replicas
     | Some m \<Rightarrow>
         (case and_then (read_message storage_rpc m) decode_get_response of
            Inl _ \<Rightarrow> fetch_chunk env oid index expected_size replicas
          | Inr response \<Rightarrow>
              if gtr_status response \<noteq> StSuccess \<or> gtr_chunk_index response \<noteq> index
                 \<or> length (gtr_data response) \<noteq> unat expected_size
              then fetch_chunk env oid index expected_size replicas
              else act_return (Some (gtr_data response))))))))"

definition read_chunk_of :: "'e Env \<Rightarrow> ReadChunkRequest \<Rightarrow> PendingRead \<Rightarrow> ('e, unit) worker_act" where
  "read_chunk_of env req r =
     (let ctx = rcq_context req; index = rcq_chunk_index req in
      if index \<noteq> pd_next_chunk r \<or> index \<ge> pd_chunk_count r
      then act_then (discard_read ctx) (\<lambda>_. read_chunk_reply env req InputError [])
      else
        act_then (fetch_chunk env (pd_object_id r) index (ucast (chunk_length (pd_file_size r) index))
            [pd_replica_0 r, pd_replica_1 r]) (\<lambda>chunk.
        case chunk of
          None \<Rightarrow> act_then (discard_read ctx) (\<lambda>_. read_chunk_reply env req ServerError [])
        | Some chunk_data \<Rightarrow>
            act_then (act_modify (\<lambda>s. s\<lparr>pending_reads :=
                advance_pending (peer_id (ctx_sender ctx)) (ctx_request_id ctx) (pending_reads s)\<rparr>)) (\<lambda>_.
            act_then (act_lift (encode_read_chunk_response (ctx_request_id ctx)
                \<lparr>rcr_chunk_index = index, rcr_status = Success, rcr_data = chunk_data, rcr_context = ctx\<rparr>)) (\<lambda>frame.
            act_then (if index + 1 = pd_chunk_count r then discard_read ctx else act_return ()) (\<lambda>_.
              send env (peer_id (ctx_sender ctx)) frame)))))"

definition handle_read_chunk :: "'e Env \<Rightarrow> ReadChunkRequest \<Rightarrow> ('e, unit) worker_act" where
  "handle_read_chunk env req =
     act_then (act_get (\<lambda>s. find_pending (peer_id (ctx_sender (rcq_context req))) (ctx_request_id (rcq_context req)) (pending_reads s)))
       (\<lambda>entry. case entry of
          None \<Rightarrow> read_chunk_reply env req InputError []
        | Some r \<Rightarrow> read_chunk_of env req r)"

section \<open>Removing\<close>

definition remove_reply :: "'e Env \<Rightarrow> RemoveRequest \<Rightarrow> ClientStatus \<Rightarrow> ('e, unit) worker_act" where
  "remove_reply env req status = respond env (rmq_context req) encode_remove_response \<lparr>rmr_status = status\<rparr>"

fun deletes_acknowledged :: "'e Env \<Rightarrow> u64 \<Rightarrow> NodeId list \<Rightarrow> ('e, bool) worker_act" where
  "deletes_acknowledged env rid [] = act_return True"
| "deletes_acknowledged env rid (replica # replicas) =
     act_then (receive_if env (make_message_is storage_rpc rid DELETE Response replica match_any_body)) (\<lambda>message.
     let ok = (case message of
                 None \<Rightarrow> False
               | Some m \<Rightarrow> (case and_then (read_message storage_rpc m) decode_delete_response of
                     Inl _ \<Rightarrow> False
                   | Inr response \<Rightarrow> dlr_status response = StSuccess)) in
     act_then (deletes_acknowledged env rid replicas) (\<lambda>oks. act_return (ok \<and> oks)))"

definition remove_file :: "'e Env \<Rightarrow> RemoveRequest \<Rightarrow> FileMetadata \<Rightarrow> ('e, unit) worker_act" where
  "remove_file env req metadata =
     (let r0 = md_replica_0 metadata; r1 = md_replica_1 metadata;
          first_bound = (r0 \<noteq> []); second_bound = (r1 \<noteq> []); reply = remove_reply env req;
          drop_entry = act_then (on_store (remove_metadata (env_host env) (rmq_path req))) (\<lambda>result. reply (client_status_of result)) in
      if first_bound \<noteq> second_bound \<or> (first_bound \<and> r0 = r1) \<or> md_obj_id metadata = [] then reply ServerError
      else if \<not> first_bound then drop_entry
      else act_then (act_get mw_nodes) (\<lambda>nodes.
        if \<not> list_all (node_available nodes) [r0, r1] then reply ServerError
        else act_then next_storage_request_id (\<lambda>rid.
        act_then (act_each (\<lambda>replica. act_then (act_lift (encode_delete_request rid
            \<lparr>dlq_object_id = md_obj_id metadata, dlq_context = empty_context\<rparr>)) (send env replica)) [r0, r1]) (\<lambda>_.
        act_then (deletes_acknowledged env rid [r0, r1]) (\<lambda>replicas_succeeded.
        if \<not> replicas_succeeded then reply ServerError else drop_entry)))))"

definition handle_remove :: "'e Env \<Rightarrow> RemoveRequest \<Rightarrow> ('e, unit) worker_act" where
  "handle_remove env req =
     act_then (act_get (\<lambda>s. (being_written (rmq_path req) (pending_writes s), get_metadata (rmq_path req) (mw_store s))))
       (\<lambda>(writing, metadata_result).
        if writing then remove_reply env req ServerError
        else (case metadata_result of
            Inl e \<Rightarrow> if e \<noteq> NOT_FOUND then remove_reply env req (client_status_of metadata_result)
              else act_then (on_store (remove_directory (env_host env) (rmq_path req))) (\<lambda>directory_result.
                remove_reply env req (client_status_of directory_result))
          | Inr metadata \<Rightarrow> remove_file env req metadata))"

section \<open>The name space\<close>

definition handle_list :: "'e Env \<Rightarrow> ListRequest \<Rightarrow> ('e, unit) worker_act" where
  "handle_list env req =
     act_then (act_get (\<lambda>s. list_directory (env_host env) (lsq_path req) (mw_store s))) (\<lambda>expected.
       respond env (lsq_context req) encode_list_response
         (case expected of
            Inr infos \<Rightarrow> \<lparr>lsr_status = Success, lsr_info_vec = infos, lsr_context = empty_context\<rparr>
          | Inl _ \<Rightarrow> \<lparr>lsr_status = ServerError, lsr_info_vec = [], lsr_context = empty_context\<rparr>))"

definition handle_make_dir :: "'e Env \<Rightarrow> MakeDirRequest \<Rightarrow> ('e, unit) worker_act" where
  "handle_make_dir env req =
     act_then (on_store (make_directory (env_host env) (mdq_path req))) (\<lambda>expected.
       respond env (mdq_context req) encode_mdkir_response
         \<lparr>mdr_status = client_status_of expected, mdr_context = mdq_context req\<rparr>)"

definition handle_rename :: "'e Env \<Rightarrow> RenameRequest \<Rightarrow> ('e, unit) worker_act" where
  "handle_rename env req =
     act_then (on_store (rename_metadata (env_host env) (rnq_old_path req) (rnq_new_path req))) (\<lambda>expected.
       respond env (rnq_context req) encode_rename_response
         \<lparr>rnr_status = client_status_of expected, rnr_context = rnq_context req\<rparr>)"

definition no_stats :: FileStat where
  "no_stats = \<lparr>stat_path = [], stat_is_directory = False, stat_node_0 = [], stat_node_1 = [],
     stat_object_id = [], stat_size = 0, stat_created_at = 0, stat_modified_at = 0\<rparr>"

definition stat_result :: "Host \<Rightarrow> path \<Rightarrow> Store \<Rightarrow> ClientStatus \<times> FileStat" where
  "stat_result h p st =
     (case get_metadata p st of
        Inr m \<Rightarrow> (Success, \<lparr>stat_path = md_path m, stat_is_directory = False, stat_node_0 = md_replica_0 m,
          stat_node_1 = md_replica_1 m, stat_object_id = md_obj_id m, stat_size = md_size m,
          stat_created_at = md_created_at m, stat_modified_at = md_modified_at m\<rparr>)
      | Inl e \<Rightarrow>
          if e = NOT_FOUND then
            (case list_directory h p st of
               Inr _ \<Rightarrow> (Success, no_stats\<lparr>stat_path := p, stat_is_directory := True\<rparr>)
             | Inl e' \<Rightarrow> (client_status_of (Inl e' :: MetadataStoreError + unit), no_stats))
          else (client_status_of (Inl e :: MetadataStoreError + unit), no_stats))"

definition handle_stat :: "'e Env \<Rightarrow> StatRequest \<Rightarrow> ('e, unit) worker_act" where
  "handle_stat env req =
     act_then (act_get (\<lambda>s. stat_result (env_host env) (stq_path req) (mw_store s))) (\<lambda>(status, stats).
       respond env (stq_context req) encode_stat_response
         \<lparr>str_status = status, str_stat = stats, str_context = stq_context req\<rparr>)"

section \<open>Dispatch\<close>

fun handle :: "'e Env \<Rightarrow> ClientEvent \<Rightarrow> ('e, unit) worker_act" where
  "handle env (CreateFileEvent r) = handle_create_file env r"
| "handle env (ReadFileEvent r) = handle_read_file env r"
| "handle env (ReadChunkEvent r) = handle_read_chunk env r"
| "handle env (WriteFileEvent r) = handle_write_file env r"
| "handle env (WriteChunkEvent r) = handle_write_chunk env r"
| "handle env (RemoveEvent r) = handle_remove env r"
| "handle env (ListEvent r) = handle_list env r"
| "handle env (MakeDirEvent r) = handle_make_dir env r"
| "handle env (RenameEvent r) = handle_rename env r"
| "handle env (StatEvent r) = handle_stat env r"

fun event_context :: "ClientEvent \<Rightarrow> RequestContext" where
  "event_context (CreateFileEvent r) = cfq_context r"
| "event_context (ReadFileEvent r) = rfq_context r"
| "event_context (ReadChunkEvent r) = rcq_context r"
| "event_context (WriteFileEvent r) = wfq_context r"
| "event_context (WriteChunkEvent r) = wcq_context r"
| "event_context (RemoveEvent r) = rmq_context r"
| "event_context (ListEvent r) = lsq_context r"
| "event_context (MakeDirEvent r) = mdq_context r"
| "event_context (RenameEvent r) = rnq_context r"
| "event_context (StatEvent r) = stq_context r"

end
