(* ===== verification/WorkerInvariant.thy ===== *)
theory WorkerInvariant
  imports MetadataWorker
begin

text \<open>
  What the metadata worker guarantees on its own, whatever the network and the storage nodes
  do: one answer to every request, the invariant of the pending transfers, and the choice of
  replicas.
\<close>

section \<open>One answer to every request\<close>

abbreviation sent :: "'e MetadataWorker \<Rightarrow> (NodeId \<times> Frame) list" where
  "sent s \<equiv> net_sent (mw_net s)"

fun event_job :: "ClientEvent \<Rightarrow> ClientJob" where
  "event_job (CreateFileEvent r) = CREATE_FILE"
| "event_job (ReadFileEvent r) = READ_FILE"
| "event_job (ReadChunkEvent r) = READ_CHUNK"
| "event_job (WriteFileEvent r) = WRITE_FILE"
| "event_job (WriteChunkEvent r) = WRITE_CHUNK"
| "event_job (RemoveEvent r) = REMOVE"
| "event_job (ListEvent r) = LIST"
| "event_job (MakeDirEvent r) = MKDIR"
| "event_job (RenameEvent r) = RENAME"
| "event_job (StatEvent r) = STAT"

definition to_storage :: "(NodeId \<times> Frame) list \<Rightarrow> bool" where
  "to_storage posted = list_all (\<lambda>(_, f). hdr_type (frame_header f) = STORAGE_RPC) posted"

text \<open>Since \<open>before\<close>, only requests to storage nodes were sent; or those and one response.\<close>

definition unanswered :: "(NodeId \<times> Frame) list \<Rightarrow> 'e MetadataWorker \<Rightarrow> bool" where
  "unanswered before s \<longleftrightarrow> (\<exists>posted. sent s = before @ posted \<and> to_storage posted)"

definition answered :: "(NodeId \<times> Frame) list \<Rightarrow> RequestContext \<Rightarrow> ClientJob \<Rightarrow> 'e MetadataWorker \<Rightarrow> bool" where
  "answered before ctx job s \<longleftrightarrow> (\<exists>posted body. sent s =
     before @ posted @ [(peer_id (ctx_sender ctx), rpc_frame client_rpc (ctx_request_id ctx) job Response body)]
     \<and> to_storage posted)"

lemma encode_client_frame:
  "encode_client job kind rid parts = Inr f \<Longrightarrow> \<exists>body. f = rpc_frame client_rpc rid job kind body"
  by (auto simp: encode_client_def and_then_eq_Inr make_frame_eq)

lemma encode_storage_type:
  "encode_storage job kind rid parts = Inr f \<Longrightarrow> hdr_type (frame_header f) = STORAGE_RPC"
  by (auto simp: encode_storage_def and_then_eq_Inr make_frame_eq)

lemmas client_encoders = encode_create_file_response_def encode_read_file_response_def
  encode_read_chunk_response_def encode_write_file_response_def encode_write_chunk_response_def
  encode_remove_response_def encode_list_response_def encode_mdkir_response_def
  encode_rename_response_def encode_stat_response_def

lemmas storage_encoders = encode_put_request_def encode_get_request_def encode_delete_request_def

lemma unanswered_send:
  "hdr_type (frame_header f) = STORAGE_RPC \<Longrightarrow> keeps (unanswered before) (send env node f)"
  by (rule passesI) (auto simp: wp_rules send_def unanswered_def to_storage_def)

lemma answered_send:
  "passes (unanswered before) (send env (peer_id (ctx_sender ctx)) (rpc_frame client_rpc (ctx_request_id ctx) job Response body))
     (answered before ctx job)"
  by (rule passesI) (auto simp: wp_rules send_def unanswered_def answered_def)

lemma unanswered_receive: "keeps (unanswered before) (receive_if env p)"
  by (rule passesI)
    (auto simp: receive_if_def wp_rules unanswered_def split: prod.splits dest: await_if_sent)

text \<open>An action that changes neither network state nor what was sent.\<close>

lemma unanswered_step:
  "(\<And>s x s'. f s = (x, s') \<Longrightarrow> mw_net s' = mw_net s) \<Longrightarrow> keeps (unanswered before) (act_step f)"
  by (rule passesI) (auto simp: wp_rules unanswered_def split: prod.splits)

lemma unanswered_modify: "(\<And>s. mw_net (f s) = mw_net s) \<Longrightarrow> keeps (unanswered before) (act_modify f)"
  by (rule passesI) (auto simp: wp_rules unanswered_def)

lemma unanswered_encoded:
  "(\<And>f. enc = Inr f \<Longrightarrow> hdr_type (frame_header f) = STORAGE_RPC) \<Longrightarrow>
   (\<And>f. hdr_type (frame_header f) = STORAGE_RPC \<Longrightarrow> passes (unanswered before) (g f) Q) \<Longrightarrow>
   passes (unanswered before) (act_then (act_lift enc) g) Q"
  by (auto simp: passes_def wp_rules split: sum.split)

lemma respond_answers:
  fixes env :: "'e Env"
  assumes "\<And>f. enc (ctx_request_id ctx) r = Inr f \<Longrightarrow>
    \<exists>body. f = rpc_frame client_rpc (ctx_request_id ctx) job Response body"
  shows "passes (unanswered before) (respond env ctx enc r) (answered before ctx job)"
proof (rule passesI)
  fix s :: "'e MetadataWorker"
  assume u: "unanswered before s"
  show "wp (respond env ctx enc r) (\<lambda>_. answered before ctx job) (\<lambda>_ _. True) s"
  proof (cases "enc (ctx_request_id ctx) r")
    case (Inr f)
    with assms obtain body where f: "f = rpc_frame client_rpc (ctx_request_id ctx) job Response body" by blast
    show ?thesis
      using answered_send [unfolded passes_def, rule_format, OF u] by (simp add: respond_def wp_rules Inr f)
  qed (simp add: respond_def wp_rules)
qed

lemma step_simps:
  "keeps (unanswered before) (on_store f)"
  "keeps (unanswered before) (new_object_id env)"
  "keeps (unanswered before) next_storage_request_id"
  "keeps (unanswered before) (discard_write ctx)"
  "keeps (unanswered before) (discard_read ctx)"
  unfolding on_store_def new_object_id_def next_storage_request_id_def discard_write_def discard_read_def
  by (auto intro!: unanswered_step unanswered_modify split: prod.splits simp: Let_def)

lemma reply_answers:
  "passes (unanswered before) (write_file_reply env wq st) (answered before (wfq_context wq) WRITE_FILE)"
  "passes (unanswered before) (write_chunk_reply env wc st) (answered before (wcq_context wc) WRITE_CHUNK)"
  "passes (unanswered before) (read_file_reply env rf st n k) (answered before (rfq_context rf) READ_FILE)"
  "passes (unanswered before) (read_chunk_reply env rc st bs) (answered before (rcq_context rc) READ_CHUNK)"
  "passes (unanswered before) (remove_reply env rm st) (answered before (rmq_context rm) REMOVE)"
  unfolding write_file_reply_def write_chunk_reply_def read_file_reply_def read_chunk_reply_def remove_reply_def
  by (auto intro!: respond_answers simp: client_encoders dest!: encode_client_frame)

lemma encoded_requests:
  "encode_put_request rid p = Inr f \<Longrightarrow> hdr_type (frame_header f) = STORAGE_RPC"
  "encode_get_request rid g = Inr f \<Longrightarrow> hdr_type (frame_header f) = STORAGE_RPC"
  "encode_delete_request rid d = Inr f \<Longrightarrow> hdr_type (frame_header f) = STORAGE_RPC"
  by (auto simp: storage_encoders dest: encode_storage_type)

lemmas quiet = step_simps reply_answers unanswered_send unanswered_receive

lemma start_write_answers:
  "passes (unanswered before) (start_write env req m r0 r1) (answered before (wfq_context req) WRITE_FILE)"
  unfolding start_write_def by (intro passes_then quiet unanswered_step) (auto split: prod.splits)

lemma write_file_answers:
  "passes (unanswered before) (write_file_with env req m) (answered before (wfq_context req) WRITE_FILE)"
  unfolding write_file_with_def Let_def by (intro passes_intros quiet start_write_answers)

lemma puts_quiet: "keeps (unanswered before) (puts_acknowledged env rid i rs)"
proof (induction rs)
  case (Cons r rs)
  have "keeps (unanswered before) (put_acknowledged env rid i r)"
    unfolding put_acknowledged_def by (intro passes_intros quiet unanswered_modify) simp
  with Cons show ?case by (auto intro!: passes_intros)
qed (auto intro: passes_intros)

lemma write_chunk_answers:
  "passes (unanswered before) (write_chunk_to env req w) (answered before (wcq_context req) WRITE_CHUNK)"
  unfolding write_chunk_to_def Let_def
  by (intro passes_intros quiet puts_quiet unanswered_modify unanswered_encoded) (auto dest: encoded_requests)

lemma start_read_answers:
  "passes (unanswered before) (start_read env req m k) (answered before (rfq_context req) READ_FILE)"
  unfolding start_read_def Let_def by (intro passes_intros quiet unanswered_step) (auto split: prod.splits)

lemma fetch_quiet: "keeps (unanswered before) (fetch_chunk env oid i n rs)"
proof (induction rs)
  case (Cons r rs)
  then show ?case
    unfolding fetch_chunk.simps by (intro passes_intros quiet unanswered_encoded) (auto dest: encoded_requests)
qed (auto intro: passes_intros)

lemma deletes_quiet: "keeps (unanswered before) (deletes_acknowledged env rid rs)"
  by (induction rs) (auto intro!: passes_intros quiet simp: Let_def)

lemma read_chunk_answers:
  "passes (unanswered before) (read_chunk_of env req r) (answered before (rcq_context req) READ_CHUNK)"
proof -
  let ?ctx = "rcq_context req"
  have last: "passes (unanswered before) (act_then (act_lift (encode_read_chunk_response (ctx_request_id ?ctx) response)) (\<lambda>frame.
      act_then (if b then discard_read ?ctx else act_return ()) (\<lambda>_. send env (peer_id (ctx_sender ?ctx)) frame)))
    (answered before ?ctx READ_CHUNK)" for response b
  proof (rule passes_lifted)
    fix frame
    assume "encode_read_chunk_response (ctx_request_id ?ctx) response = Inr frame"
    then obtain body where "frame = rpc_frame client_rpc (ctx_request_id ?ctx) READ_CHUNK Response body"
      by (auto simp: client_encoders dest: encode_client_frame)
    then show "passes (unanswered before) (act_then (if b then discard_read ?ctx else act_return ())
        (\<lambda>_. send env (peer_id (ctx_sender ?ctx)) frame)) (answered before ?ctx READ_CHUNK)"
      by (auto intro!: passes_intros quiet answered_send)
  qed
  show ?thesis
    unfolding read_chunk_of_def Let_def
    by (intro passes_if passes_option passes_then quiet fetch_quiet unanswered_modify last) simp
qed

lemma remove_answers:
  "passes (unanswered before) (remove_file env req m) (answered before (rmq_context req) REMOVE)"
  unfolding remove_file_def Let_def
  by (intro passes_intros quiet deletes_quiet unanswered_encoded) (auto dest: encoded_requests)

lemmas handlers_answer = start_write_answers write_file_answers write_chunk_answers start_read_answers
  read_chunk_answers remove_answers

text \<open>Every handler: one response, after any number of storage requests.\<close>

lemma handle_answers:
  "passes (unanswered before) (handle env ev) (answered before (event_context ev) (event_job ev))"
proof (cases ev)
  case (CreateFileEvent r)
  then show ?thesis
    by (auto simp: handle_create_file_def client_encoders intro!: passes_intros quiet respond_answers dest!: encode_client_frame)
next
  case (ReadFileEvent r)
  then show ?thesis
    by (auto simp: handle_read_file_def Let_def intro!: passes_intros quiet handlers_answer)
next
  case (ReadChunkEvent r)
  then show ?thesis by (auto simp: handle_read_chunk_def intro!: passes_intros quiet handlers_answer)
next
  case (WriteFileEvent r)
  then show ?thesis by (auto simp: handle_write_file_def intro!: passes_intros quiet handlers_answer)
next
  case (WriteChunkEvent r)
  then show ?thesis by (auto simp: handle_write_chunk_def intro!: passes_intros quiet handlers_answer)
next
  case (RemoveEvent r)
  then show ?thesis by (auto simp: handle_remove_def intro!: passes_intros quiet handlers_answer)
next
  case (ListEvent r)
  then show ?thesis
    by (auto simp: handle_list_def client_encoders intro!: passes_intros quiet respond_answers dest!: encode_client_frame)
next
  case (MakeDirEvent r)
  then show ?thesis
    by (auto simp: handle_make_dir_def client_encoders intro!: passes_intros quiet respond_answers dest!: encode_client_frame)
next
  case (RenameEvent r)
  then show ?thesis
    by (auto simp: handle_rename_def client_encoders intro!: passes_intros quiet respond_answers dest!: encode_client_frame)
next
  case (StatEvent r)
  then show ?thesis
    by (auto simp: handle_stat_def client_encoders intro!: passes_intros quiet respond_answers dest!: encode_client_frame)
qed

section \<open>The pending transfers\<close>

text \<open>A transfer in progress: its chunk count is the one of its size, chunks are left, and it
  has two different replicas.\<close>

definition pending_ok :: "Pending \<Rightarrow> bool" where
  "pending_ok p \<longleftrightarrow> ucast (pd_chunk_count p) = chunks_for (pd_file_size p) \<and> pd_next_chunk p < pd_chunk_count p
     \<and> pd_replica_0 p \<noteq> [] \<and> pd_replica_1 p \<noteq> [] \<and> pd_replica_0 p \<noteq> pd_replica_1 p"

declare map_of_eq_Some_iff [simp del]

definition table_ok :: "pending_table \<Rightarrow> bool" where
  "table_ok t \<longleftrightarrow> distinct (keys t) \<and> (\<forall>c es. map_of t c = Some es \<longrightarrow>
     es \<noteq> [] \<and> distinct (keys es) \<and> (\<forall>r p. map_of es r = Some p \<longrightarrow> pending_ok p))"

definition nodes_ok :: "(NodeId \<times> StorageNodeInfo) list \<Rightarrow> bool" where
  "nodes_ok nodes \<longleftrightarrow> distinct (keys nodes) \<and> [] \<notin> set (keys nodes)"

definition worker_ok :: "'e MetadataWorker \<Rightarrow> bool" where
  "worker_ok s \<longleftrightarrow> table_ok (pending_writes s) \<and> table_ok (pending_reads s) \<and> nodes_ok (mw_nodes s)"

lemma update_not_Nil [simp]: "AList.update k v es \<noteq> []"
  by (metis map_of_update fun_upd_same map_of.simps(1) option.distinct(1))

lemma find_pending_ok: "table_ok t \<Longrightarrow> find_pending c r t = Some p \<Longrightarrow> pending_ok p"
  by (auto simp: table_ok_def find_pending_def split: option.splits)

lemma emplace_ok: "table_ok t \<Longrightarrow> pending_ok p \<Longrightarrow> table_ok (snd (emplace_pending c r p t))"
  by (auto simp: table_ok_def emplace_pending_def Let_def try_emplace_def split: option.splits)

lemma discard_ok: "table_ok t \<Longrightarrow> table_ok (discard_pending c r t)"
  by (auto simp: table_ok_def discard_pending_def Let_def split: option.splits if_splits)

lemma discard_advance: "table_ok t \<Longrightarrow> table_ok (discard_pending c r (advance_pending c r t))"
proof (cases "map_of t c")
  case (Some es)
  assume t: "table_ok t"
  show ?thesis
  proof (cases "map_of es r")
    case None
    with Some t show ?thesis by (simp add: advance_pending_def discard_ok)
  next
    case (Some p)
    have "AList.delete r (AList.update r q es) = AList.delete r es" for q
      by (induction es) auto
    with Some \<open>map_of t c = Some es\<close> t show ?thesis
      by (auto simp: table_ok_def advance_pending_def discard_pending_def Let_def split: if_splits)
  qed
qed (simp add: advance_pending_def discard_ok)

lemma advance_ok:
  assumes "table_ok t" "find_pending c r t = Some p" "pd_next_chunk p + 1 < pd_chunk_count p"
  shows "table_ok (advance_pending c r t)"
proof -
  have "pending_ok p" using find_pending_ok assms(1,2) by blast
  with assms show ?thesis
    by (auto simp: table_ok_def advance_pending_def find_pending_def pending_ok_def split: option.splits)
qed

lemma nodes_ok_set [simp]: "nodes_ok (set_bytes_left r n nodes) = nodes_ok nodes"
proof (cases "map_of nodes r")
  case (Some info)
  then have "r \<in> set (keys nodes)" by (force dest: map_of_SomeD)
  then show ?thesis by (simp add: set_bytes_left_def nodes_ok_def Some update_keys)
qed (simp add: set_bytes_left_def)

text \<open>A state with the given tables; it is in order if these are.\<close>

definition tables :: "pending_table \<Rightarrow> pending_table \<Rightarrow> 'e MetadataWorker \<Rightarrow> bool" where
  "tables tw tr s \<longleftrightarrow> pending_writes s = tw \<and> pending_reads s = tr \<and> nodes_ok (mw_nodes s)"

lemma tables_passes:
  "(\<And>tw tr. table_ok tw \<Longrightarrow> table_ok tr \<Longrightarrow> passes (tables tw tr) m worker_ok) \<Longrightarrow> keeps worker_ok m"
  by (auto simp: passes_def tables_def worker_ok_def)

lemma tables_modify:
  "(\<And>s. tables tw tr s \<Longrightarrow> tables tw' tr' (f s)) \<Longrightarrow> passes (tables tw tr) (act_modify f) (tables tw' tr')"
  by (auto simp: passes_def wp_rules)

lemma tables_step:
  "(\<And>s x s'. tables tw tr s \<Longrightarrow> f s = (x, s') \<Longrightarrow> tables tw' tr' s') \<Longrightarrow> passes (tables tw tr) (act_step f) (tables tw' tr')"
  by (auto simp: passes_def wp_rules split: prod.splits)

lemma tables_quiet:
  "keeps (tables tw tr) (send env node f)"
  "keeps (tables tw tr) (receive_if env p)"
  "keeps (tables tw tr) (on_store g)"
  "keeps (tables tw tr) (new_object_id env)"
  "keeps (tables tw tr) next_storage_request_id"
  unfolding send_def receive_if_def on_store_def new_object_id_def next_storage_request_id_def
  by (auto intro!: tables_modify tables_step simp: tables_def Let_def split: prod.splits)

lemma tables_respond: "keeps (tables tw tr) (respond env ctx enc r)"
  unfolding respond_def by (intro passes_intros tables_quiet)

lemma tables_replies:
  "keeps (tables tw tr) (write_file_reply env wq st)"
  "keeps (tables tw tr) (write_chunk_reply env wc st)"
  "keeps (tables tw tr) (read_file_reply env rf st n k)"
  "keeps (tables tw tr) (read_chunk_reply env rc st bs)"
  "keeps (tables tw tr) (remove_reply env rm st)"
  unfolding write_file_reply_def write_chunk_reply_def read_file_reply_def read_chunk_reply_def remove_reply_def
  by (rule tables_respond)+

lemma tables_end: "table_ok tw \<Longrightarrow> table_ok tr \<Longrightarrow> passes P m (tables tw tr) \<Longrightarrow> passes P m worker_ok"
  by (fastforce simp: passes_def tables_def worker_ok_def intro: wp_mono)

lemmas tables_keep = tables_quiet tables_respond tables_replies

lemma tables_puts: "keeps (tables tw tr) (puts_acknowledged env rid i rs)"
proof (induction rs)
  case (Cons r rs)
  have "keeps (tables tw tr) (put_acknowledged env rid i r)"
    unfolding put_acknowledged_def by (intro passes_intros tables_quiet tables_modify) (simp add: tables_def)
  with Cons show ?case by (auto intro!: passes_intros)
qed (auto intro: passes_intros)

lemma tables_fetch: "keeps (tables tw tr) (fetch_chunk env oid i n rs)"
proof (induction rs)
  case (Cons r rs)
  then show ?case unfolding fetch_chunk.simps by (intro passes_intros tables_quiet)
qed (auto intro: passes_intros)

lemma tables_deletes: "keeps (tables tw tr) (deletes_acknowledged env rid rs)"
  by (induction rs) (auto intro!: passes_intros tables_quiet simp: Let_def)

section \<open>The choice of replicas\<close>

lemma placement_set: "set (placement nodes) = {n. \<exists>info. (n, info) \<in> set nodes \<and> available info}"
  by (force simp: placement_def)

lemma placement_distinct: "distinct (keys nodes) \<Longrightarrow> distinct (placement nodes)"
proof -
  assume d: "distinct (keys nodes)"
  have "map cand_id (map (\<lambda>(node_id, info). Candidate (bytes_left info) node_id) ns) = keys ns" for ns
    by (induction ns) auto
  moreover have "distinct (keys (filter (\<lambda>(_, info). available info) nodes))" using d by (rule distinct_map_filter)
  ultimately show ?thesis
    unfolding placement_def by (metis distinct_map distinct_sort mset_map mset_sort mset_eq_imp_distinct_iff)
qed

lemma placement_replicas:
  assumes "nodes_ok nodes" "2 \<le> length (placement nodes)"
  shows "placement nodes ! 0 \<noteq> []" "placement nodes ! 1 \<noteq> []" "placement nodes ! 0 \<noteq> placement nodes ! 1"
proof -
  have "set (placement nodes) \<subseteq> set (keys nodes)" by (force simp: placement_set)
  moreover have "placement nodes ! 0 \<in> set (placement nodes)" "placement nodes ! 1 \<in> set (placement nodes)"
    using assms(2) by (auto intro: nth_mem)
  ultimately show "placement nodes ! 0 \<noteq> []" "placement nodes ! 1 \<noteq> []" using assms(1) by (auto simp: nodes_ok_def)
  show "placement nodes ! 0 \<noteq> placement nodes ! 1"
    using placement_distinct [of nodes] assms nth_eq_iff_index_eq [of "placement nodes" 0 1]
    by (cases "placement nodes = []") (simp_all add: nodes_ok_def)
qed

section \<open>Every handler keeps the pending transfers in order\<close>

lemma unat_chunk_count: "ucast (k :: u32) = (n :: u64) \<Longrightarrow> n = 0 \<longleftrightarrow> k = 0"
  by (metis ucast_0 unat_ucast_32_64 unat_eq_zero)

lemma start_write_ok:
  assumes "table_ok tw" "table_ok tr" "ucast (wfq_chunk_count req) = chunks_for (wfq_file_size req)"
    "wfq_chunk_count req \<noteq> 0" "r0 \<noteq> []" "r1 \<noteq> []" "r0 \<noteq> r1"
  shows "passes (tables tw tr) (start_write env req m r0 r1) worker_ok"
proof -
  let ?c = "peer_id (ctx_sender (wfq_context req))" and ?r = "ctx_request_id (wfq_context req)"
  let ?p = "\<lparr>pd_path = wfq_path req, pd_object_id = md_obj_id m, pd_file_size = wfq_file_size req,
          pd_chunk_count = wfq_chunk_count req, pd_next_chunk = 0, pd_replica_0 = r0, pd_replica_1 = r1\<rparr>"
  let ?tw = "snd (emplace_pending ?c ?r ?p tw)"
  have "pending_ok ?p" using assms(3-) by (simp add: pending_ok_def word_gt_0)
  then have ok: "table_ok ?tw" using assms(1) by (simp add: emplace_ok)
  show ?thesis
    unfolding start_write_def
    by (rule tables_end [OF ok assms(2)], rule passes_trans [where Q = "tables ?tw tr"])
      (auto intro!: tables_step tables_keep simp: tables_def split: prod.splits)
qed

lemma write_file_ok:
  assumes "table_ok tw" "table_ok tr" "ucast (wfq_chunk_count req) = chunks_for (wfq_file_size req)"
  shows "passes (tables tw tr) (write_file_with env req m) worker_ok"
proof -
  note fin = tables_end [OF assms(1,2)]
  have fresh: "passes (tables tw tr) (act_then (on_store f)
      (\<lambda>r. case r of Inl e \<Rightarrow> write_file_reply env req ServerError | Inr (_ :: unit) \<Rightarrow>
         start_write env req m' (placement nodes ! 0) (placement nodes ! 1))) worker_ok"
    if "nodes_ok nodes" "\<not> length (placement nodes) < 2" "wfq_chunk_count req \<noteq> 0" for f m' nodes
    using placement_replicas [OF that(1)] that(2,3)
    by (intro passes_then tables_quiet passes_sum fin tables_replies start_write_ok assms) simp_all
  let ?r0 = "md_replica_0 m" and ?r1 = "md_replica_1 m"
  have bound: "passes (\<lambda>s. tables tw tr s \<and> mw_nodes s = nodes)
      (if ?r0 \<noteq> [] then
          (if \<not> list_all (node_available nodes) [?r0, ?r1] then write_file_reply env req ServerError
           else start_write env req m ?r0 ?r1)
        else if length (placement nodes) < 2 then write_file_reply env req ServerError
        else act_then (on_store (f (placement nodes))) (\<lambda>r. case r of Inl e \<Rightarrow> write_file_reply env req ServerError
            | Inr (_ :: unit) \<Rightarrow> start_write env req (m' (placement nodes)) (placement nodes ! 0) (placement nodes ! 1))) worker_ok"
    if "(?r0 \<noteq> []) = (?r1 \<noteq> [])" "\<not> (?r0 \<noteq> [] \<and> ?r0 = ?r1)" "wfq_chunk_count req \<noteq> 0" for nodes f m'
  proof (cases "nodes_ok nodes")
    case True
    with that show ?thesis
      by (intro passes_if passes_weaken [where P = "tables tw tr", OF fresh]
          passes_weaken [where P = "tables tw tr", OF fin [OF tables_replies(1)]]
          passes_weaken [where P = "tables tw tr", OF start_write_ok [OF assms]]) auto
  qed (auto simp: passes_def tables_def)
  show ?thesis
    unfolding write_file_with_def Let_def
    by (intro passes_if fin tables_replies passes_read bound passes_then [OF tables_quiet(3)] passes_sum) auto
qed

lemma write_chunk_ok:
  assumes "table_ok tw" "table_ok tr"
    "find_pending (peer_id (ctx_sender (wcq_context req))) (ctx_request_id (wcq_context req)) tw = Some w"
  shows "passes (tables tw tr) (write_chunk_to env req w) worker_ok"
proof -
  let ?c = "peer_id (ctx_sender (wcq_context req))" and ?r = "ctx_request_id (wcq_context req)"
  note fin = tables_end [OF assms(1,2)]
  have drop: "passes (tables t tr) (act_then (discard_write (wcq_context req)) (\<lambda>_. write_chunk_reply env req st)) worker_ok"
    if "table_ok (discard_pending ?c ?r t)" for st t
    by (rule tables_end [OF that assms(2)], rule passes_trans [where Q = "tables (discard_pending ?c ?r t) tr"])
      (auto simp: discard_write_def tables_def intro!: tables_modify tables_replies)
  have next_ok: "table_ok (advance_pending ?c ?r tw)"
    if "wcq_chunk_index req = pd_next_chunk w" "\<not> wcq_chunk_index req \<ge> pd_chunk_count w" "wcq_chunk_index req + 1 \<noteq> pd_chunk_count w"
    using advance_ok [OF assms(1,3)] that by (simp add: inc_le order.strict_iff_order not_le)
  show ?thesis
    unfolding write_chunk_to_def Let_def
    apply (intro passes_if drop discard_ok assms)
    apply (rule passes_then, intro passes_intros tables_quiet)
    apply (rule passes_then, rule tables_puts)
    apply (intro passes_if drop discard_ok assms)
    apply (rule passes_trans [where Q = "tables (advance_pending ?c ?r tw) tr"])
    subgoal by (auto simp: tables_def intro!: tables_modify)
    apply (intro passes_if)
    subgoal by (rule tables_end [OF next_ok assms(2) tables_replies(2)]) auto
    apply (intro passes_then [OF tables_quiet(3)] drop)
    subgoal using assms(1) by (rule discard_advance)
    done
qed

lemma start_read_ok:
  assumes "table_ok tw" "table_ok tr" "k = chunks_for (md_size m)" "\<not> k > ucast (- 1 :: u32)"
    "\<not> (md_size m \<noteq> 0 \<and> (md_replica_0 m = [] \<or> md_replica_1 m = [] \<or> md_replica_0 m = md_replica_1 m))"
  shows "passes (tables tw tr) (start_read env req m k) worker_ok"
proof (cases "k = 0")
  case True
  then show ?thesis by (auto simp: start_read_def intro: tables_end [OF assms(1,2)] tables_replies)
next
  case False
  let ?c = "peer_id (ctx_sender (rfq_context req))" and ?r = "ctx_request_id (rfq_context req)"
  let ?p = "\<lparr>pd_path = rfq_path req, pd_object_id = md_obj_id m, pd_file_size = md_size m,
          pd_chunk_count = ucast k, pd_next_chunk = 0, pd_replica_0 = md_replica_0 m, pd_replica_1 = md_replica_1 m\<rparr>"
  let ?tr = "snd (emplace_pending ?c ?r ?p tr)"
  have "unat k < 2 ^ 32" using assms(4) by (simp add: not_less word_le_nat_alt unat_ucast_32_64 unsigned_minus_1_eq_mask mask_eq_exp_minus_1)
  then have same: "ucast (ucast k :: u32) = k"
    by (simp add: word_unat_eq_iff unsigned_ucast_eq unsigned_take_bit_eq take_bit_nat_eq_self)
  moreover have "md_size m \<noteq> 0" using False assms(3) by (auto simp: chunks_for_def)
  ultimately have "pending_ok ?p"
    using assms(3,5) False unat_chunk_count [OF same] by (simp add: pending_ok_def word_gt_0)
  then have ok: "table_ok ?tr" using assms(2) by (simp add: emplace_ok)
  show ?thesis
    unfolding start_read_def Let_def if_not_P [OF False]
    by (rule tables_end [OF assms(1) ok], rule passes_trans [where Q = "tables tw ?tr"])
      (auto intro!: tables_step tables_keep passes_if simp: tables_def split: prod.splits)
qed

lemma read_chunk_ok:
  assumes "table_ok tw" "table_ok tr"
    "find_pending (peer_id (ctx_sender (rcq_context req))) (ctx_request_id (rcq_context req)) tr = Some r"
  shows "passes (tables tw tr) (read_chunk_of env req r) worker_ok"
proof -
  let ?c = "peer_id (ctx_sender (rcq_context req))" and ?r = "ctx_request_id (rcq_context req)"
  have drop: "passes (tables tw t) (discard_read (rcq_context req)) (tables tw (discard_pending ?c ?r t))" for t
    by (auto simp: discard_read_def tables_def intro!: tables_modify)
  have give_up: "passes (tables tw tr) (act_then (discard_read (rcq_context req)) (\<lambda>_. read_chunk_reply env req st [])) worker_ok" for st
    by (rule tables_end [OF assms(1) discard_ok [OF assms(2)]], rule passes_trans [OF drop tables_replies(4)])
  have next_ok: "table_ok (advance_pending ?c ?r tr)"
    if "rcq_chunk_index req = pd_next_chunk r" "\<not> rcq_chunk_index req \<ge> pd_chunk_count r" "rcq_chunk_index req + 1 \<noteq> pd_chunk_count r"
    using advance_ok [OF assms(2,3)] that by (simp add: inc_le order.strict_iff_order not_le)
  have last_ok: "table_ok (discard_pending ?c ?r (advance_pending ?c ?r tr))"
    using assms(2) by (rule discard_advance)
  show ?thesis
    unfolding read_chunk_of_def Let_def
    apply (intro passes_if give_up)
    apply (rule passes_then, rule tables_fetch)
    apply (intro passes_option give_up)
    apply (rule passes_trans [where Q = "tables tw (advance_pending ?c ?r tr)"])
    subgoal by (auto simp: tables_def intro!: tables_modify)
    apply (rule passes_then, rule passes_lift)
    subgoal premises prems for chunk
    proof (cases "rcq_chunk_index req + 1 = pd_chunk_count r")
      case True
      then show ?thesis
        by (auto intro!: tables_end [OF assms(1) last_ok] passes_trans [OF drop] tables_quiet)
    next
      case False
      then show ?thesis
        using prems by (auto intro!: tables_end [OF assms(1) next_ok] passes_intros tables_quiet)
    qed
    done
qed

lemma remove_file_ok:
  assumes "table_ok tw" "table_ok tr"
  shows "passes (tables tw tr) (remove_file env req m) worker_ok"
  unfolding remove_file_def Let_def
  by (intro tables_end [OF assms] passes_intros tables_quiet tables_replies tables_deletes)

lemma handle_ok: "keeps worker_ok (handle env ev)"
proof (rule tables_passes)
  fix tw tr
  assume ok: "table_ok tw" "table_ok tr"
  note fin = tables_end [OF ok]
  show "passes (tables tw tr) (handle env ev) worker_ok"
  proof (cases ev)
    case (ReadFileEvent req)
    show ?thesis
      unfolding ReadFileEvent handle.simps handle_read_file_def Let_def
      by (intro passes_then passes_get passes_prod passes_if passes_sum fin tables_replies start_read_ok ok) auto
  next
    case (ReadChunkEvent req)
    show ?thesis
      unfolding ReadChunkEvent handle.simps handle_read_chunk_def
    proof (rule passes_read)
      fix entry
      show "passes (\<lambda>s. tables tw tr s \<and> find_pending (peer_id (ctx_sender (rcq_context req)))
          (ctx_request_id (rcq_context req)) (pending_reads s) = entry)
        (case entry of None \<Rightarrow> read_chunk_reply env req InputError [] | Some r \<Rightarrow> read_chunk_of env req r) worker_ok"
      proof (cases "entry = find_pending (peer_id (ctx_sender (rcq_context req))) (ctx_request_id (rcq_context req)) tr")
        case True
        have "passes (tables tw tr) (case entry of None \<Rightarrow> read_chunk_reply env req InputError []
            | Some r \<Rightarrow> read_chunk_of env req r) worker_ok"
          by (intro passes_option fin tables_replies read_chunk_ok ok) (use True in simp)
        then show ?thesis by (rule passes_weaken) simp
      qed (auto simp: passes_def tables_def)
    qed
  next
    case (WriteFileEvent req)
    show ?thesis
      unfolding WriteFileEvent handle.simps handle_write_file_def
      by (intro passes_if passes_then [OF passes_get] passes_then [OF tables_quiet(4)] passes_sum fin tables_replies write_file_ok ok) auto
  next
    case (WriteChunkEvent req)
    show ?thesis
      unfolding WriteChunkEvent handle.simps handle_write_chunk_def
    proof (rule passes_read)
      fix entry
      show "passes (\<lambda>s. tables tw tr s \<and> find_pending (peer_id (ctx_sender (wcq_context req)))
          (ctx_request_id (wcq_context req)) (pending_writes s) = entry)
        (case entry of None \<Rightarrow> write_chunk_reply env req InputError | Some r \<Rightarrow> write_chunk_to env req r) worker_ok"
      proof (cases "entry = find_pending (peer_id (ctx_sender (wcq_context req))) (ctx_request_id (wcq_context req)) tw")
        case True
        have "passes (tables tw tr) (case entry of None \<Rightarrow> write_chunk_reply env req InputError
            | Some r \<Rightarrow> write_chunk_to env req r) worker_ok"
          by (intro passes_option fin tables_replies write_chunk_ok ok) (use True in simp)
        then show ?thesis by (rule passes_weaken) simp
      qed (auto simp: passes_def tables_def)
    qed
  next
    case (RemoveEvent req)
    show ?thesis
      unfolding RemoveEvent handle.simps handle_remove_def
      by (intro passes_then [OF passes_get] passes_prod passes_if passes_sum fin tables_replies passes_then [OF tables_quiet(3)] remove_file_ok ok)
  qed (auto simp: handle_create_file_def handle_list_def handle_make_dir_def handle_rename_def handle_stat_def
      intro!: fin passes_intros tables_quiet tables_respond)
qed

section \<open>A sample worker\<close>

definition sample_client :: RequestContext where
  "sample_client = \<lparr>ctx_request_id = 5, ctx_sender = \<lparr>peer_id = ''c1'', peer_role = CLIENT\<rparr>\<rparr>"

definition sample_file :: FileMetadata where
  "sample_file = \<lparr>md_path = ''f'', md_size = 3, md_obj_id = ''o'', md_replica_0 = ''s1'', md_replica_1 = ''s2'',
     md_created_at = 0, md_modified_at = 1\<rparr>"

text \<open>One file on two available nodes; nothing pending.\<close>

definition sample_metadata_worker :: "unit MetadataWorker" where
  "sample_metadata_worker = \<lparr>
     mw_store = \<lparr>ms_disk = [([''d''], Dir), ([''d'', ''f''], File [])], ms_directory = [''d''], ms_data = [([''f''], sample_file)]\<rparr>,
     mw_nodes = [(''s1'', \<lparr>last_seen = 0, bytes_left = 7, available = True\<rparr>), (''s2'', \<lparr>last_seen = 0, bytes_left = 9, available = True\<rparr>)],
     current_storage_request_id = 0, mw_draws = 0, pending_reads = [], pending_writes = [],
     mw_net = \<lparr>net_queue = [], net_sent = [], net_outside = ()\<rparr>\<rparr>"

text \<open>A network that never answers.\<close>

definition silent_env :: "unit Env" where
  "silent_env = \<lparr>env_outside = \<lparr>deliver = (\<lambda>_ _ e. e), meanwhile = (\<lambda>q e. (q, e))\<rparr>,
     env_host = \<lparr>host_faults = no_faults, host_now = 0\<rparr>, env_draw = (\<lambda>_. (1, 2))\<rparr>"

definition sample_read :: ClientEvent where
  "sample_read = ReadFileEvent \<lparr>rfq_path = ''f'', rfq_context = sample_client\<rparr>"

lemma sample_worker_ok: "worker_ok sample_metadata_worker"
  by (simp add: worker_ok_def sample_metadata_worker_def table_ok_def nodes_ok_def)

lemma sample_read_runs:
  "handle silent_env sample_read sample_metadata_worker =
     (Inr (), snd (handle silent_env sample_read sample_metadata_worker))"
  by code_simp

section \<open>Properties of the metadata worker\<close>

text \<open>C14. Whatever the network does, a handler that does not end the process sends exactly one
  message to a client: the response to the request it handles, with that request's id and kind,
  to the client it came from, and after the requests to storage nodes it needed.\<close>

theorem one_response:
  assumes "handle env ev s = (Inr (), s')"
  shows "\<exists>posted body. net_sent (mw_net s') = net_sent (mw_net s) @ posted @
      [(peer_id (ctx_sender (event_context ev)),
        rpc_frame client_rpc (ctx_request_id (event_context ev)) (event_job ev) Response body)]
    \<and> list_all (\<lambda>(_, f). hdr_type (frame_header f) = STORAGE_RPC) posted"
proof -
  have "unanswered (sent s) s" by (simp add: unanswered_def to_storage_def)
  from passesD [OF handle_answers this assms] show ?thesis by (simp add: answered_def to_storage_def)
qed

theorem one_response_witness:
  "\<exists>posted body. net_sent (mw_net (snd (handle silent_env sample_read sample_metadata_worker))) = [] @ posted @
      [(''c1'', rpc_frame client_rpc 5 READ_FILE Response body)]
    \<and> list_all (\<lambda>(_, f). hdr_type (frame_header f) = STORAGE_RPC) posted"
  using one_response [OF sample_read_runs]
  by (simp add: sample_read_def sample_client_def sample_metadata_worker_def)

text \<open>C15. Every handler keeps the pending transfers in order, whatever the network, the storage nodes
  and the host do: the chunk count of each is that of its size, its next chunk exists, so the
  offset of a chunk never passes the size, and its replicas are two different nodes.\<close>

theorem pending_transfers_ok:
  assumes "worker_ok s" "handle env ev s = (Inr (), s')"
  shows "worker_ok s'"
  using passesD [OF handle_ok assms] .

theorem pending_transfers_ok_witness:
  "worker_ok (snd (handle silent_env sample_read sample_metadata_worker))"
  by (rule pending_transfers_ok [OF sample_worker_ok sample_read_runs])

text \<open>C16. A new file goes to the two available nodes with the most bytes left, ties broken by the
  smaller id: no available node that is not chosen comes before a chosen one.\<close>

theorem best_replicas_chosen:
  assumes "distinct (keys nodes)" "placement nodes = a # b # rest" "map_of nodes n = Some info" "available info"
    "n \<noteq> a" "n \<noteq> b" "c \<in> {a, b}"
  shows "\<exists>best. map_of nodes c = Some best \<and> available best
    \<and> (bytes_left best > bytes_left info \<or> bytes_left best = bytes_left info \<and> c \<le> n)"
proof -
  let ?L = "map (\<lambda>(node_id, info). Candidate (bytes_left info) node_id) (filter (\<lambda>(_, info). available info) nodes)"
  have known: "\<exists>i. map_of nodes (cand_id x) = Some i \<and> available i \<and> cand_bytes x = bytes_left i" if "x \<in> set ?L" for x
  proof -
    from that obtain node i where "(node, i) \<in> set nodes" "available i" "x = Candidate (bytes_left i) node" by auto
    with map_of_is_SomeI [OF assms(1)] show ?thesis by simp
  qed
  from assms(2) obtain xs where xs: "sort ?L = xs" "map cand_id xs = a # b # rest"
    by (auto simp: placement_def)
  then obtain ca cb cs where split: "xs = ca # cb # cs" "cand_id ca = a" "cand_id cb = b" by auto
  have set: "set xs = set ?L" and sorted: "sorted xs" using xs(1) by auto
  have "(n, info) \<in> set nodes" using assms(3) by (rule map_of_SomeD)
  with assms(4) have "Candidate (bytes_left info) n \<in> set xs" unfolding set by force
  with split assms(5,6) have "Candidate (bytes_left info) n \<in> set cs" by auto
  with sorted split(1) have le: "ca \<le> Candidate (bytes_left info) n" "cb \<le> Candidate (bytes_left info) n" by auto
  have "ca \<in> set ?L" "cb \<in> set ?L" using set split(1) by auto
  from known [OF this(1)] known [OF this(2)] le split assms(7) show ?thesis
    by (auto simp: less_eq_Candidate_def split: if_splits)
qed

theorem best_replicas_chosen_witness:
  "\<exists>best. map_of [(''x'', \<lparr>last_seen = 0, bytes_left = 5, available = True\<rparr>), (''y'', \<lparr>last_seen = 0, bytes_left = 9, available = True\<rparr>),
      (''z'', \<lparr>last_seen = 0, bytes_left = 5, available = True\<rparr>)] ''x'' = Some best \<and> available best
    \<and> (bytes_left best > 5 \<or> bytes_left best = (5 :: u64) \<and> ''x'' \<le> ''z'')"
proof -
  let ?nodes = "[(''x'', \<lparr>last_seen = 0, bytes_left = 5, available = True\<rparr>), (''y'', \<lparr>last_seen = 0, bytes_left = 9, available = True\<rparr>),
      (''z'', \<lparr>last_seen = 0, bytes_left = 5, available = True\<rparr>)]"
  have "placement ?nodes = ''y'' # ''x'' # [''z'']" by code_simp
  from best_replicas_chosen [OF _ this, of "''z''" "\<lparr>last_seen = 0, bytes_left = 5, available = True\<rparr>" "''x''"]
  show ?thesis by simp
qed

text \<open>The choice does not depend on the iteration order of the hash map.\<close>

lemma placement_order_free:
  assumes "mset nodes = mset nodes'"
  shows "placement nodes = placement nodes'"
proof -
  let ?f = "\<lambda>ns. map (\<lambda>(node_id, info). Candidate (bytes_left info) node_id) (filter (\<lambda>(_, info). available info) ns)"
  have "mset (?f nodes) = mset (?f nodes')" using assms by simp
  then have "sort (?f nodes) = sort (?f nodes')" by (metis sorted_list_of_multiset_mset)
  then show ?thesis by (simp add: placement_def)
qed

lemma placement_order_free_witness:
  "placement [(''x'', \<lparr>last_seen = 0, bytes_left = 5, available = True\<rparr>), (''y'', \<lparr>last_seen = 0, bytes_left = 9, available = True\<rparr>)]
   = placement [(''y'', \<lparr>last_seen = 0, bytes_left = 9, available = True\<rparr>), (''x'', \<lparr>last_seen = 0, bytes_left = 5, available = True\<rparr>)]"
  by (rule placement_order_free) simp

end
