(* ===== verification/MetadataNode.thy ===== *)
theory MetadataNode
  imports WorkerInvariant
begin

text \<open>
  \<^verbatim>\<open>metadata/MetadataNode.hpp\<close> and \<^verbatim>\<open>MetadataNode.cpp\<close>: the process of the metadata node. A
  producer thread turns messages into jobs, a worker thread executes them and watches the
  heartbeats of the storage nodes. One iteration of a thread is an action on the node; the
  steps of the threads and of the network interleave in \<open>metadata_step\<close>.
\<close>

section \<open>State\<close>

datatype Event = ClientJobEvent ClientEvent | HeartbeatEvent StorageHeartbeat

record 'e MetadataNode =
  mn_worker :: "'e MetadataWorker"
  mn_jobs :: "Event queue"
  mn_stopping :: bool

text \<open>Ten seconds in the ticks of the steady clock.\<close>

definition heartbeat_timeout :: steady_time where "heartbeat_timeout = 10 * 10 ^ 9"

text \<open>
  The constructor: the store is opened and loaded before the network starts. The network of the
  node is that of its worker.
\<close>

definition new_metadata_node ::
  "Host \<Rightarrow> (path \<Rightarrow> location) \<Rightarrow> NodeConfig \<Rightarrow> 'e Net \<Rightarrow> disk \<Rightarrow> (exn + 'e MetadataNode) \<times> disk" where
  "new_metadata_node h located config net d =
     (case new_store h d (located (cfg_data_directory config)) of
        (Inl e, d1) \<Rightarrow> (Inl e, d1)
      | (Inr st, d1) \<Rightarrow>
          (case load_from_storage h st of
             (Inl _, st1) \<Rightarrow> (Inl RuntimeError, ms_disk st1)
           | (Inr _, st1) \<Rightarrow>
               (Inr \<lparr>mn_worker = \<lparr>mw_store = st1, mw_nodes = [], current_storage_request_id = 0, mw_draws = 0,
                      pending_reads = [], pending_writes = [], mw_net = net\<rparr>,
                    mn_jobs = [], mn_stopping = False\<rparr>, ms_disk st1)))"

section \<open>The producer\<close>

definition producer_wants :: "Message \<Rightarrow> bool" where
  "producer_wants m \<longleftrightarrow> message_is client_rpc Request m \<or> hdr_type (msg_header m) = STORAGE_HEARTBEAT"

definition client_event :: "ClientRpcMessage \<Rightarrow> exn + ClientEvent" where
  "client_event m =
     (case rpc_job (rpc_header m) of
        CREATE_FILE \<Rightarrow> and_then (decode_create_file_request m) (\<lambda>r. Inr (CreateFileEvent r))
      | READ_FILE \<Rightarrow> and_then (decode_read_file_request m) (\<lambda>r. Inr (ReadFileEvent r))
      | READ_CHUNK \<Rightarrow> and_then (decode_read_chunk_request m) (\<lambda>r. Inr (ReadChunkEvent r))
      | WRITE_FILE \<Rightarrow> and_then (decode_write_file_request m) (\<lambda>r. Inr (WriteFileEvent r))
      | WRITE_CHUNK \<Rightarrow> and_then (decode_write_chunk_request m) (\<lambda>r. Inr (WriteChunkEvent r))
      | REMOVE \<Rightarrow> and_then (decode_remove_request m) (\<lambda>r. Inr (RemoveEvent r))
      | LIST \<Rightarrow> and_then (decode_list_request m) (\<lambda>r. Inr (ListEvent r))
      | MKDIR \<Rightarrow> and_then (decode_mkdir_request m) (\<lambda>r. Inr (MakeDirEvent r))
      | RENAME \<Rightarrow> and_then (decode_rename_request m) (\<lambda>r. Inr (RenameEvent r))
      | STAT \<Rightarrow> and_then (decode_stat_request m) (\<lambda>r. Inr (StatEvent r))
      | ClientJob_raw _ \<Rightarrow> Inl RuntimeError)"

definition push_worker_job :: "Message \<Rightarrow> Event queue \<Rightarrow> exn + Event queue" where
  "push_worker_job m jobs =
     (if hdr_type (msg_header m) = CLIENT_RPC then
        and_then (read_message client_rpc m) (\<lambda>rpc. and_then (client_event rpc) (\<lambda>e. Inr (push (ClientJobEvent e) jobs)))
      else if hdr_type (msg_header m) = STORAGE_HEARTBEAT then
        Inr (push (HeartbeatEvent \<lparr>hb_sender = msg_sender m\<rparr>) jobs)
      else Inr jobs)"

text \<open>One iteration of the producer, at the moment its wait ends.\<close>

definition produce :: "('e MetadataNode, unit) act" where
  "produce s =
     (let w = mn_worker s; net = mw_net w in
      case pop_if producer_wants (net_queue net) of
        (None, q) \<Rightarrow> (Inr (), s)
      | (Some m, q) \<Rightarrow>
          (let s1 = s\<lparr>mn_worker := w\<lparr>mw_net := net\<lparr>net_queue := q\<rparr>\<rparr>\<rparr> in
           case push_worker_job m (mn_jobs s1) of
             Inl e \<Rightarrow> (Inl e, s1)
           | Inr jobs \<Rightarrow> (Inr (), s1\<lparr>mn_jobs := jobs\<rparr>)))"

section \<open>Heartbeats\<close>

definition handle_heartbeat ::
  "steady_time \<Rightarrow> StorageHeartbeat \<Rightarrow> (NodeId \<times> StorageNodeInfo) list \<Rightarrow> (NodeId \<times> StorageNodeInfo) list" where
  "handle_heartbeat now heartbeat nodes =
     (let node_id = peer_id (hb_sender heartbeat) in
      case try_emplace node_id \<lparr>last_seen = now, bytes_left = 0, available = True\<rparr> nodes of
        (True, nodes1) \<Rightarrow> nodes1
      | (False, nodes1) \<Rightarrow>
          (case map_of nodes1 node_id of
             None \<Rightarrow> nodes1
           | Some info \<Rightarrow> AList.update node_id (info\<lparr>last_seen := now, available := True\<rparr>) nodes1))"

definition timed_out :: "steady_time \<Rightarrow> StorageNodeInfo \<Rightarrow> StorageNodeInfo" where
  "timed_out now info =
     (if \<not> available info then info
      else if now - last_seen info \<ge> heartbeat_timeout then info\<lparr>available := False\<rparr> else info)"

definition check_heartbeat_timeouts ::
  "steady_time \<Rightarrow> (NodeId \<times> StorageNodeInfo) list \<Rightarrow> (NodeId \<times> StorageNodeInfo) list" where
  "check_heartbeat_timeouts now nodes = map (\<lambda>(node_id, info). (node_id, timed_out now info)) nodes"

section \<open>The worker thread\<close>

definition on_worker :: "('e MetadataWorker, 'a) act \<Rightarrow> ('e MetadataNode, 'a) act" where
  "on_worker m s = (case m (mn_worker s) of (r, w) \<Rightarrow> (r, s\<lparr>mn_worker := w\<rparr>))"

definition on_nodes :: "((NodeId \<times> StorageNodeInfo) list \<Rightarrow> (NodeId \<times> StorageNodeInfo) list) \<Rightarrow> ('e MetadataNode, unit) act" where
  "on_nodes f = on_worker (act_modify (\<lambda>w. w\<lparr>mw_nodes := f (mw_nodes w)\<rparr>))"

text \<open>One iteration; \<open>now\<close> and \<open>later\<close> are the two readings of the clock.\<close>

definition work :: "'e Env \<Rightarrow> steady_time \<Rightarrow> steady_time \<Rightarrow> ('e MetadataNode, unit) act" where
  "work env now later =
     act_then (act_step (\<lambda>s. case pop_with_timeout (mn_jobs s) of (e, jobs) \<Rightarrow> (e, s\<lparr>mn_jobs := jobs\<rparr>))) (\<lambda>event.
     act_then (case event of
         None \<Rightarrow> act_return ()
       | Some e \<Rightarrow> (case e of
             ClientJobEvent request \<Rightarrow> on_worker (handle env request)
           | HeartbeatEvent heartbeat \<Rightarrow> on_nodes (handle_heartbeat now heartbeat))) (\<lambda>_.
       on_nodes (check_heartbeat_timeouts later)))"

definition stop :: "'e MetadataNode \<Rightarrow> 'e MetadataNode" where
  "stop s = s\<lparr>mn_stopping := True\<rparr>"

section \<open>Steps of the process\<close>

text \<open>
  The network names every peer (a \<^verbatim>\<open>HELLO\<close> with an empty id is refused, and a string is decoded
  up to its NUL), so all messages have senders with names; the environment of a waiting worker
  respects that. The clock of the host is a 64-bit time point.
\<close>

definition proper_name :: "NodeId \<Rightarrow> bool" where
  "proper_name n \<longleftrightarrow> n \<noteq> [] \<and> nul_free n"

definition named :: "Message queue \<Rightarrow> bool" where
  "named q \<longleftrightarrow> list_all (\<lambda>m. proper_name (peer_id (msg_sender m))) q"

definition names_senders :: "'e Env \<Rightarrow> bool" where
  "names_senders env \<longleftrightarrow> (\<forall>q e. named q \<longrightarrow> named (fst (meanwhile (env_outside env) q e)))"

abbreviation queue_of :: "'e MetadataNode \<Rightarrow> Message queue" where
  "queue_of s \<equiv> net_queue (mw_net (mn_worker s))"

definition receive :: "Message \<Rightarrow> 'e MetadataNode \<Rightarrow> 'e MetadataNode" where
  "receive m s = s\<lparr>mn_worker := (mn_worker s)\<lparr>mw_net := (mw_net (mn_worker s))\<lparr>net_queue := push m (queue_of s)\<rparr>\<rparr>\<rparr>"

inductive metadata_step :: "'e MetadataNode \<Rightarrow> 'e MetadataNode \<Rightarrow> bool" where
  arrives: "proper_name (peer_id (msg_sender m)) \<Longrightarrow> metadata_step s (receive m s)"
| produces: "\<not> mn_stopping s \<Longrightarrow> produce s = (Inr (), s') \<Longrightarrow> metadata_step s s'"
| works: "\<not> mn_stopping s \<Longrightarrow> names_senders env \<Longrightarrow> time_fits (host_now (env_host env)) \<Longrightarrow>
    work env now later s = (Inr (), s') \<Longrightarrow> metadata_step s s'"
| stops: "metadata_step s (stop s)"

inductive_cases metadata_stepE: "metadata_step s s'"

section \<open>Properties of the network state that every handler keeps\<close>

text \<open>
  A handler touches its network only by posting frames and by waiting for messages, and the
  table of nodes only by noting how many bytes are left.
\<close>

definition net_closed :: "'e Env \<Rightarrow> ('e Net \<Rightarrow> (NodeId \<times> StorageNodeInfo) list \<Rightarrow> bool) \<Rightarrow> bool" where
  "net_closed env P \<longleftrightarrow> (\<forall>n nodes node f. P n nodes \<longrightarrow> P (post_frame (env_outside env) node f n) nodes)
     \<and> (\<forall>n nodes p. P n nodes \<longrightarrow> P (snd (await_if (env_outside env) p n)) nodes)
     \<and> (\<forall>n nodes r k. P n nodes \<longrightarrow> P n (set_bytes_left r k nodes))"

abbreviation on_net :: "('e Net \<Rightarrow> (NodeId \<times> StorageNodeInfo) list \<Rightarrow> bool) \<Rightarrow> 'e MetadataWorker \<Rightarrow> bool" where
  "on_net P s \<equiv> P (mw_net s) (mw_nodes s)"

lemma net_step: "(\<And>s x s'. f s = (x, s') \<Longrightarrow> mw_net s' = mw_net s \<and> mw_nodes s' = mw_nodes s) \<Longrightarrow> keeps (on_net P) (act_step f)"
  by (rule passesI) (auto simp: wp_rules split: prod.splits)

lemma net_modify: "(\<And>s. mw_net (f s) = mw_net s \<and> mw_nodes (f s) = mw_nodes s) \<Longrightarrow> keeps (on_net P) (act_modify f)"
  by (rule passesI) (auto simp: wp_rules)

lemma net_steps:
  "keeps (on_net P) (on_store f)"
  "keeps (on_net P) (new_object_id env)"
  "keeps (on_net P) next_storage_request_id"
  "keeps (on_net P) (discard_write ctx)"
  "keeps (on_net P) (discard_read ctx)"
  unfolding on_store_def new_object_id_def next_storage_request_id_def discard_write_def discard_read_def
  by (auto intro!: net_step net_modify split: prod.splits simp: Let_def)

lemma net_io:
  assumes "net_closed env P"
  shows "keeps (on_net P) (send env node f)" "keeps (on_net P) (receive_if env p)"
  using assms by (auto simp: send_def receive_if_def passes_def wp_rules net_closed_def snd_def split: prod.splits)

lemma net_replies:
  assumes "net_closed env P"
  shows "keeps (on_net P) (respond env ctx enc r)"
    "keeps (on_net P) (write_file_reply env wq st)"
    "keeps (on_net P) (write_chunk_reply env wc st)"
    "keeps (on_net P) (read_file_reply env rf st n k)"
    "keeps (on_net P) (read_chunk_reply env rc st bs)"
    "keeps (on_net P) (remove_reply env rm st)"
  unfolding write_file_reply_def write_chunk_reply_def read_file_reply_def read_chunk_reply_def remove_reply_def respond_def
  by (intro passes_intros net_io [OF assms])+

lemma net_waits:
  assumes "net_closed env P"
  shows "keeps (on_net P) (puts_acknowledged env rid i rs)"
    "keeps (on_net P) (fetch_chunk env oid i n rs)"
    "keeps (on_net P) (deletes_acknowledged env rid rs)"
proof -
  have "keeps (on_net P) (put_acknowledged env rid i r)" for r
    unfolding put_acknowledged_def
    by (intro passes_intros net_io [OF assms]) (use assms in \<open>simp add: passes_def wp_rules net_closed_def\<close>)
  then show "keeps (on_net P) (puts_acknowledged env rid i rs)"
    by (induction rs) (auto intro!: passes_intros)
  show "keeps (on_net P) (fetch_chunk env oid i n rs)"
  proof (induction rs)
    case (Cons r rs)
    then show ?case unfolding fetch_chunk.simps by (intro passes_intros net_io [OF assms] net_steps)
  qed (auto intro: passes_intros)
  show "keeps (on_net P) (deletes_acknowledged env rid rs)"
    by (induction rs) (auto intro!: passes_intros net_io [OF assms] simp: Let_def)
qed

lemma handle_net:
  assumes "net_closed env P"
  shows "keeps (on_net P) (handle env ev)"
proof -
  note io = net_io [OF assms] net_replies [OF assms] net_waits [OF assms] net_steps
  have start1: "keeps (on_net P) (start_write env wq m r0 r1)" for wq m r0 r1
    unfolding start_write_def by (intro passes_intros io net_step) (auto split: prod.splits)
  have start2: "keeps (on_net P) (start_read env rq m k)" for rq m k
    unfolding start_read_def Let_def by (intro passes_intros io net_step) (auto split: prod.splits)
  note start = start1 start2
  have "keeps (on_net P) (write_file_with env wq m)" "keeps (on_net P) (write_chunk_to env wc w)"
    "keeps (on_net P) (read_chunk_of env rc w)" "keeps (on_net P) (remove_file env rm m)" for wq wc rc rm m w
    unfolding write_file_with_def write_chunk_to_def read_chunk_of_def remove_file_def Let_def
    by (intro passes_intros io start net_modify, (simp; fail)?)+
  note parts = this start
  show ?thesis
    by (cases ev) (auto simp: handle_create_file_def handle_write_file_def handle_write_chunk_def handle_read_file_def
        handle_read_chunk_def handle_remove_def handle_list_def handle_make_dir_def handle_rename_def handle_stat_def Let_def
        intro!: passes_intros io parts)
qed

lemma named_closed: "names_senders env \<Longrightarrow> net_closed env (\<lambda>n _. named (net_queue n))"
proof -
  assume env: "names_senders env"
  have "named q'" if "named q" "pop_if p q = (m, q')" for p q m q'
  proof -
    from that(2) have "set q' \<subseteq> set q"
      by (cases m) (auto dest: mq.take_none mq.take_some)
    with that(1) show ?thesis by (auto simp: named_def list_all_iff)
  qed
  with env show ?thesis
    unfolding net_closed_def names_senders_def await_if_def
    by (auto split: prod.splits) (metis fst_conv)
qed

section \<open>The invariant of the process\<close>

definition node_ok :: "'e MetadataNode \<Rightarrow> bool" where
  "node_ok s \<longleftrightarrow> worker_ok (mn_worker s) \<and> named (queue_of s)
     \<and> list_all (\<lambda>e. case e of HeartbeatEvent h \<Rightarrow> proper_name (peer_id (hb_sender h)) | ClientJobEvent _ \<Rightarrow> True) (mn_jobs s)"

lemma nodes_ok_iff: "nodes_ok nodes \<longleftrightarrow> distinct (keys nodes) \<and> map_of nodes [] = None"
  by (simp add: nodes_ok_def map_of_eq_None_iff)

lemma nodes_ok_heartbeat:
  "nodes_ok nodes \<Longrightarrow> peer_id (hb_sender h) \<noteq> [] \<Longrightarrow> nodes_ok (handle_heartbeat now h nodes)"
  by (auto simp: nodes_ok_iff handle_heartbeat_def Let_def try_emplace_def split: prod.splits option.splits)

lemma keys_timeouts [simp]: "keys (check_heartbeat_timeouts now nodes) = keys nodes"
  by (induction nodes) (auto simp: check_heartbeat_timeouts_def)

lemma nodes_ok_timeouts [simp]: "nodes_ok (check_heartbeat_timeouts now nodes) = nodes_ok nodes"
  by (simp only: nodes_ok_def keys_timeouts)

lemma push_worker_job_jobs:
  assumes "push_worker_job m jobs = Inr jobs'" "proper_name (peer_id (msg_sender m))"
  obtains "jobs' = jobs" | e where "jobs' = jobs @ [e]" "case e of HeartbeatEvent h \<Rightarrow> proper_name (peer_id (hb_sender h)) | ClientJobEvent _ \<Rightarrow> True"
  using assms by (auto simp: push_worker_job_def push_def and_then_eq_Inr split: if_splits)

lemma produce_ok: "node_ok s \<Longrightarrow> produce s = (Inr (), s') \<Longrightarrow> node_ok s'"
proof -
  assume ok: "node_ok s" and run: "produce s = (Inr (), s')"
  obtain r q where pop: "pop_if producer_wants (queue_of s) = (r, q)" by fastforce
  show ?thesis
  proof (cases r)
    case None
    with run pop ok show ?thesis by (auto simp: produce_def Let_def)
  next
    case (Some m)
    from mq.take_some [OF pop [unfolded Some]] ok have m: "proper_name (peer_id (msg_sender m))" and q: "named q"
      by (auto simp: node_ok_def named_def list_all_iff)
    from run pop Some obtain jobs where jobs: "push_worker_job m (mn_jobs s) = Inr jobs"
      and s': "s' = s\<lparr>mn_worker := (mn_worker s)\<lparr>mw_net := (mw_net (mn_worker s))\<lparr>net_queue := q\<rparr>\<rparr>, mn_jobs := jobs\<rparr>"
      by (auto simp: produce_def Let_def split: sum.splits)
    have "node_ok s'" if "jobs = mn_jobs s" using that ok q s' by (simp add: node_ok_def worker_ok_def)
    moreover have "node_ok s'" if "jobs = mn_jobs s @ [e]"
      "case e of HeartbeatEvent h \<Rightarrow> proper_name (peer_id (hb_sender h)) | ClientJobEvent _ \<Rightarrow> True" for e
      using that ok q s' by (simp add: node_ok_def worker_ok_def)
    ultimately show ?thesis using push_worker_job_jobs [OF jobs m] by metis
  qed
qed

lemma on_worker_run: "on_worker m s = (r, s') \<Longrightarrow>
  \<exists>w. m (mn_worker s) = (r, w) \<and> s' = s\<lparr>mn_worker := w\<rparr>"
  by (auto simp: on_worker_def split: prod.splits)

lemma work_ok:
  assumes "node_ok s" "names_senders env" "work env now later s = (Inr (), s')"
  shows "node_ok s'"
proof -
  obtain e jobs where pop: "pop_with_timeout (mn_jobs s) = (e, jobs)" by fastforce
  define s1 where "s1 = s\<lparr>mn_jobs := jobs\<rparr>"
  have jobs: "set jobs \<subseteq> set (mn_jobs s)" "\<And>x. e = Some x \<Longrightarrow> x \<in> set (mn_jobs s)"
    using pop by (auto simp: pop_with_timeout_def split: list.splits)
  with assms(1) have ok1: "node_ok s1" by (auto simp: node_ok_def s1_def list_all_iff)
  let ?body = "case e of None \<Rightarrow> act_return () | Some e \<Rightarrow> (case e of
      ClientJobEvent request \<Rightarrow> on_worker (handle env request) | HeartbeatEvent heartbeat \<Rightarrow> on_nodes (handle_heartbeat now heartbeat))"
  obtain s2 where body: "?body s1 = (Inr (), s2)" and s': "on_nodes (check_heartbeat_timeouts later) s2 = (Inr (), s')"
    using assms(3) pop by (auto simp: work_def act_then_def act_step_def s1_def split: prod.splits sum.splits)
  have "node_ok s2"
  proof (cases e)
    case None
    with body ok1 show ?thesis by (simp add: act_return_def)
  next
    case (Some x)
    show ?thesis
    proof (cases x)
      case (ClientJobEvent ev)
      with body Some obtain w where w: "handle env ev (mn_worker s1) = (Inr (), w)" "s2 = s1\<lparr>mn_worker := w\<rparr>"
        by (auto dest: on_worker_run)
      have "worker_ok w" using passesD [OF handle_ok _ w(1)] ok1 by (simp add: node_ok_def)
      moreover have "named (net_queue (mw_net w))"
        using passesD [OF handle_net [OF named_closed [OF assms(2)]] _ w(1)] ok1 by (simp add: node_ok_def)
      ultimately show ?thesis using ok1 w(2) by (simp add: node_ok_def)
    next
      case (HeartbeatEvent h)
      with Some jobs(2) assms(1) have "peer_id (hb_sender h) \<noteq> []" by (auto simp: node_ok_def list_all_iff proper_name_def)
      with body Some HeartbeatEvent ok1 nodes_ok_heartbeat show ?thesis
        by (auto simp: on_nodes_def on_worker_def act_modify_def node_ok_def worker_ok_def)
    qed
  qed
  with s' show ?thesis
    by (auto simp: on_nodes_def on_worker_def act_modify_def node_ok_def worker_ok_def)
qed

lemma step_ok: "metadata_step s s' \<Longrightarrow> node_ok s \<Longrightarrow> node_ok s'"
proof (induction rule: metadata_step.induct)
  case (arrives m s)
  then show ?case by (simp add: node_ok_def receive_def worker_ok_def named_def push_def)
next
  case (stops s)
  then show ?case by (simp add: node_ok_def stop_def)
qed (auto intro: produce_ok work_ok)

section \<open>Heartbeats over time\<close>

datatype beat = Beat steady_time NodeId | Check steady_time

fun beat_time :: "beat \<Rightarrow> steady_time" where
  "beat_time (Beat t n) = t"
| "beat_time (Check t) = t"

fun run_beat :: "beat \<Rightarrow> (NodeId \<times> StorageNodeInfo) list \<Rightarrow> (NodeId \<times> StorageNodeInfo) list" where
  "run_beat (Beat t n) nodes = handle_heartbeat t \<lparr>hb_sender = \<lparr>peer_id = n, peer_role = STORAGE\<rparr>\<rparr> nodes"
| "run_beat (Check t) nodes = check_heartbeat_timeouts t nodes"

definition run_beats :: "beat list \<Rightarrow> (NodeId \<times> StorageNodeInfo) list" where
  "run_beats bs = fold run_beat bs []"

fun last_beat :: "NodeId \<Rightarrow> beat list \<Rightarrow> steady_time option" where
  "last_beat n [] = None"
| "last_beat n (b # bs) = (case last_beat n bs of
     Some t \<Rightarrow> Some t
   | None \<Rightarrow> (case b of Beat t m \<Rightarrow> if m = n then Some t else None | Check _ \<Rightarrow> None))"

lemma last_beat_snoc: "last_beat n (bs @ [b]) =
  (case b of Beat t m \<Rightarrow> if m = n then Some t else last_beat n bs | Check _ \<Rightarrow> last_beat n bs)"
  by (induction bs) (auto split: beat.splits option.splits)

lemma map_of_timeouts: "map_of (check_heartbeat_timeouts now nodes) n = map_option (timed_out now) (map_of nodes n)"
  by (induction nodes) (auto simp: check_heartbeat_timeouts_def)

lemma map_of_heartbeat:
  "map_of (handle_heartbeat now h nodes) n =
     (if n \<noteq> peer_id (hb_sender h) then map_of nodes n
      else (case map_of nodes n of
              None \<Rightarrow> Some \<lparr>last_seen = now, bytes_left = 0, available = True\<rparr>
            | Some info \<Rightarrow> Some (info\<lparr>last_seen := now, available := True\<rparr>)))"
  by (auto simp: handle_heartbeat_def Let_def try_emplace_def split: option.splits)

lemma timed_out_seen [simp]: "last_seen (timed_out now info) = last_seen info"
  by (simp add: timed_out_def)

lemma run_beats_info:
  "map_option last_seen (map_of (run_beats bs) n) = last_beat n bs
   \<and> (\<forall>info now. map_of (run_beats bs) n = Some info \<longrightarrow> (\<forall>b \<in> set bs. beat_time b \<le> now) \<longrightarrow>
        now - last_seen info < heartbeat_timeout \<longrightarrow> available info)"
proof (induction bs rule: rev_induct)
  case Nil
  show ?case by (simp add: run_beats_def)
next
  case (snoc b bs)
  have run: "run_beats (bs @ [b]) = run_beat b (run_beats bs)" by (simp add: run_beats_def)
  show ?case
  proof (cases b)
    case (Beat t m)
    with snoc run show ?thesis by (auto simp: map_of_heartbeat last_beat_snoc split: option.splits)
  next
    case (Check t)
    show ?thesis
    proof (cases "map_of (run_beats bs) n")
      case None
      with snoc run Check show ?thesis by (simp add: map_of_timeouts last_beat_snoc)
    next
      case (Some info)
      have "available (timed_out t info)"
        if "\<forall>b \<in> set (bs @ [b]). beat_time b \<le> now" "now - last_seen info < heartbeat_timeout" for now
      proof -
        have "t \<le> now" "\<forall>b \<in> set bs. beat_time b \<le> now" using that(1) Check by auto
        with snoc Some that(2) show ?thesis by (simp add: timed_out_def)
      qed
      with snoc run Check Some show ?thesis by (simp add: map_of_timeouts last_beat_snoc)
    qed
  qed
qed

section \<open>Requests on their way to a handler\<close>

fun encode_event :: "u64 \<Rightarrow> ClientEvent \<Rightarrow> exn + Frame" where
  "encode_event rid (CreateFileEvent r) = encode_create_file_request rid r"
| "encode_event rid (ReadFileEvent r) = encode_read_file_request rid r"
| "encode_event rid (ReadChunkEvent r) = encode_read_chunk_request rid r"
| "encode_event rid (WriteFileEvent r) = encode_write_file_request rid r"
| "encode_event rid (WriteChunkEvent r) = encode_write_chunk_request rid r"
| "encode_event rid (RemoveEvent r) = encode_remove_request rid r"
| "encode_event rid (ListEvent r) = encode_list_request rid r"
| "encode_event rid (MakeDirEvent r) = encode_mkdir_request rid r"
| "encode_event rid (RenameEvent r) = encode_rename_request rid r"
| "encode_event rid (StatEvent r) = encode_stat_request rid r"

fun with_context :: "RequestContext \<Rightarrow> ClientEvent \<Rightarrow> ClientEvent" where
  "with_context c (CreateFileEvent r) = CreateFileEvent (r\<lparr>cfq_context := c\<rparr>)"
| "with_context c (ReadFileEvent r) = ReadFileEvent (r\<lparr>rfq_context := c\<rparr>)"
| "with_context c (ReadChunkEvent r) = ReadChunkEvent (r\<lparr>rcq_context := c\<rparr>)"
| "with_context c (WriteFileEvent r) = WriteFileEvent (r\<lparr>wfq_context := c\<rparr>)"
| "with_context c (WriteChunkEvent r) = WriteChunkEvent (r\<lparr>wcq_context := c\<rparr>)"
| "with_context c (RemoveEvent r) = RemoveEvent (r\<lparr>rmq_context := c\<rparr>)"
| "with_context c (ListEvent r) = ListEvent (r\<lparr>lsq_context := c\<rparr>)"
| "with_context c (MakeDirEvent r) = MakeDirEvent (r\<lparr>mdq_context := c\<rparr>)"
| "with_context c (RenameEvent r) = RenameEvent (r\<lparr>rnq_context := c\<rparr>)"
| "with_context c (StatEvent r) = StatEvent (r\<lparr>stq_context := c\<rparr>)"

text \<open>The strings and data of a request, which must be free of NUL and within the length field.\<close>

fun event_paths :: "ClientEvent \<Rightarrow> string list" where
  "event_paths (CreateFileEvent r) = [cfq_path r]"
| "event_paths (ReadFileEvent r) = [rfq_path r]"
| "event_paths (WriteFileEvent r) = [wfq_path r]"
| "event_paths (RemoveEvent r) = [rmq_path r]"
| "event_paths (ListEvent r) = [lsq_path r]"
| "event_paths (MakeDirEvent r) = [mdq_path r]"
| "event_paths (RenameEvent r) = [rnq_old_path r, rnq_new_path r]"
| "event_paths (StatEvent r) = [stq_path r]"
| "event_paths (ReadChunkEvent r) = []"
| "event_paths (WriteChunkEvent r) = []"

fun event_data :: "ClientEvent \<Rightarrow> byte list" where
  "event_data (WriteChunkEvent r) = wcq_data r"
| "event_data _ = []"

definition sendable :: "ClientEvent \<Rightarrow> bool" where
  "sendable ev \<longleftrightarrow> list_all nul_free (event_paths ev) \<and> length (concat (event_paths ev)) + length (event_data ev) < 2 ^ 31"

lemma dispatched:
  assumes "read_message client_rpc m = Inr rpc" "client_event rpc = Inr e"
    "message_is client_rpc Request m"
  shows "producer_wants m \<and> push_worker_job m jobs = Inr (push (ClientJobEvent e) jobs)"
  using assms by (auto simp: producer_wants_def push_worker_job_def message_is_def header_matches_def split: if_splits)

lemma request_is_request:
  assumes "body_fits body" "client_job_ok job"
  shows "message_is client_rpc Request (message_from sender (rpc_frame client_rpc rid job Request body))"
  using assms
  by (simp add: message_is_def header_matches_def rpc_frame_length decoded_def new_reader_at codec
      client_job.job.get_back [simplified] del: kind_to_u8.simps)

lemma dispatch_call:
  assumes "\<exists>m. read_message client_rpc (message_from sender (rpc_frame client_rpc rid job Request body)) = Inr m
      \<and> rpc_header m = \<lparr>rpc_request_id = rid, rpc_job = job, rpc_kind = Request\<rparr> \<and> rpc_sender m = sender
      \<and> rpc_body m = body \<and> dec m = Inr r"
    and "\<And>m. rpc_job (rpc_header m) = job \<Longrightarrow> client_event m = and_then (dec m) (\<lambda>r. Inr (mk r))"
    and "body_fits body" "client_job_ok job" "enc = Inr (rpc_frame client_rpc rid job Request body)"
  shows "\<exists>f. enc = Inr f \<and> producer_wants (message_from sender f)
    \<and> push_worker_job (message_from sender f) jobs = Inr (jobs @ [ClientJobEvent (mk r)])"
proof -
  from assms(1) obtain m where m: "read_message client_rpc (message_from sender (rpc_frame client_rpc rid job Request body)) = Inr m"
    "rpc_job (rpc_header m) = job" "dec m = Inr r" by auto
  with assms(2) have "client_event m = Inr (mk r)" by simp
  from dispatched [OF m(1) this request_is_request [OF assms(3,4)]] assms(5) show ?thesis by (simp add: push_def)
qed

lemmas dispatch_facts = sendable_def body_fits_def client_event_def

lemma request_dispatched:
  assumes "sendable ev"
  shows "\<exists>f. encode_event rid ev = Inr f \<and> producer_wants (message_from sender f)
    \<and> push_worker_job (message_from sender f) jobs =
        Inr (jobs @ [ClientJobEvent (with_context \<lparr>ctx_request_id = rid, ctx_sender = sender\<rparr> ev)])"
proof (cases ev)
  case (CreateFileEvent r)
  with assms show ?thesis
    unfolding CreateFileEvent encode_event.simps with_context.simps
    by (intro dispatch_call [OF create_file_request.received _ _ _ create_file_request.enc_frame]) (auto simp: dispatch_facts)
next
  case (ReadFileEvent r)
  with assms show ?thesis
    unfolding ReadFileEvent encode_event.simps with_context.simps
    by (intro dispatch_call [OF read_file_request.received _ _ _ read_file_request.enc_frame]) (auto simp: dispatch_facts)
next
  case (ReadChunkEvent r)
  with assms show ?thesis
    unfolding ReadChunkEvent encode_event.simps with_context.simps
    by (intro dispatch_call [OF read_chunk_request.received _ _ _ read_chunk_request.enc_frame]) (auto simp: dispatch_facts)
next
  case (WriteFileEvent r)
  with assms show ?thesis
    unfolding WriteFileEvent encode_event.simps with_context.simps
    by (intro dispatch_call [OF write_file_request.received _ _ _ write_file_request.enc_frame]) (auto simp: dispatch_facts)
next
  case (WriteChunkEvent r)
  with assms show ?thesis
    unfolding WriteChunkEvent encode_event.simps with_context.simps
    by (intro dispatch_call [OF write_chunk_request.received _ _ _ write_chunk_request.enc_frame]) (auto simp: dispatch_facts)
next
  case (RemoveEvent r)
  with assms show ?thesis
    unfolding RemoveEvent encode_event.simps with_context.simps
    by (intro dispatch_call [OF remove_request.received _ _ _ remove_request.enc_frame]) (auto simp: dispatch_facts)
next
  case (ListEvent r)
  with assms show ?thesis
    unfolding ListEvent encode_event.simps with_context.simps
    by (intro dispatch_call [OF list_request.received _ _ _ list_request.enc_frame]) (auto simp: dispatch_facts)
next
  case (MakeDirEvent r)
  with assms show ?thesis
    unfolding MakeDirEvent encode_event.simps with_context.simps
    by (intro dispatch_call [OF mkdir_request.received _ _ _ mkdir_request.enc_frame]) (auto simp: dispatch_facts)
next
  case (RenameEvent r)
  with assms show ?thesis
    unfolding RenameEvent encode_event.simps with_context.simps
    by (intro dispatch_call [OF rename_request.received _ _ _ rename_request.enc_frame]) (auto simp: dispatch_facts)
next
  case (StatEvent r)
  with assms show ?thesis
    unfolding StatEvent encode_event.simps with_context.simps
    by (intro dispatch_call [OF stat_request.received _ _ _ stat_request.enc_frame]) (auto simp: dispatch_facts)
qed

text \<open>A node started on an empty data directory, and a heartbeat that reaches it.\<close>

definition sample_net :: "unit Net" where
  "sample_net = \<lparr>net_queue = [], net_sent = [], net_outside = ()\<rparr>"

definition sample_config :: NodeConfig where
  "sample_config = \<lparr>cfg_node_id = ''m'', cfg_role = METADATA, cfg_host = ''h'', cfg_port = 1, cfg_data_directory = ''d''\<rparr>"

definition sample_node :: "unit MetadataNode" where
  "sample_node = \<lparr>mn_worker = \<lparr>mw_store = \<lparr>ms_disk = [([''d''], Dir)], ms_directory = [''d''], ms_data = []\<rparr>,
     mw_nodes = [], current_storage_request_id = 0, mw_draws = 0, pending_reads = [], pending_writes = [],
     mw_net = sample_net\<rparr>, mn_jobs = [], mn_stopping = False\<rparr>"

definition sample_heartbeat :: Message where
  "sample_heartbeat = message_from \<lparr>peer_id = ''s1'', peer_role = STORAGE\<rparr>
     \<lparr>frame_header = \<lparr>hdr_magic = HEADER_MAGIC, hdr_length = 0, hdr_type = STORAGE_HEARTBEAT\<rparr>, frame_buffer = []\<rparr>"

section \<open>Properties of the metadata node\<close>

text \<open>C30. With a clock that does not go back, a storage node is available after a check exactly when its
  last heartbeat is less than ten seconds old: a node that stays silent is taken out, one that
  beats again is taken back, and one that never beat is unknown.\<close>

theorem availability_is_recent_heartbeat:
  assumes "sorted (map beat_time (bs @ [Check now]))"
  shows "node_available (run_beats (bs @ [Check now])) n =
    (\<exists>t. last_beat n bs = Some t \<and> now - t < heartbeat_timeout)"
proof -
  have before: "\<forall>b \<in> set bs. beat_time b \<le> now" using assms by (auto simp: sorted_append)
  have run: "run_beats (bs @ [Check now]) = check_heartbeat_timeouts now (run_beats bs)" by (simp add: run_beats_def)
  show ?thesis
  proof (cases "map_of (run_beats bs) n")
    case None
    then have "last_beat n bs = None" using run_beats_info [of bs n] by simp
    with None show ?thesis by (simp add: run node_available_def map_of_timeouts)
  next
    case (Some info)
    then have "last_beat n bs = Some (last_seen info)" using run_beats_info [of bs n] by simp
    moreover have "now - last_seen info < heartbeat_timeout \<Longrightarrow> available info"
      using run_beats_info [of bs n] Some before by blast
    ultimately show ?thesis using Some by (auto simp: run node_available_def map_of_timeouts timed_out_def)
  qed
qed

theorem availability_is_recent_heartbeat_witness:
  "node_available (run_beats ([Beat 0 ''s1'', Beat 1 ''s2'', Check 10000000000, Beat 12000000000 ''s1''] @ [Check 13000000000])) ''s1'' =
    (\<exists>t. last_beat ''s1'' [Beat 0 ''s1'', Beat 1 ''s2'', Check 10000000000, Beat 12000000000 ''s1''] = Some t
      \<and> 13000000000 - t < heartbeat_timeout)"
  by (rule availability_is_recent_heartbeat) simp

text \<open>A request encoded by a client passes the producer's filter and is queued, as the last job, for
  the handler of its kind, unchanged but for the context of its sender.\<close>

theorem requests_dispatched:
  assumes "sendable ev"
  shows "\<exists>f. encode_event rid ev = Inr f \<and> producer_wants (message_from sender f)
    \<and> push_worker_job (message_from sender f) jobs =
        Inr (jobs @ [ClientJobEvent (with_context \<lparr>ctx_request_id = rid, ctx_sender = sender\<rparr> ev)])"
  using assms by (rule request_dispatched)

theorem requests_dispatched_witness:
  "\<exists>f. encode_event 9 (RenameEvent \<lparr>rnq_old_path = ''a'', rnq_new_path = ''b/c'', rnq_context = empty_context\<rparr>) = Inr f
    \<and> producer_wants (message_from (ctx_sender sample_client) f)
    \<and> push_worker_job (message_from (ctx_sender sample_client) f) [] =
        Inr ([] @ [ClientJobEvent (with_context \<lparr>ctx_request_id = 9, ctx_sender = ctx_sender sample_client\<rparr>
          (RenameEvent \<lparr>rnq_old_path = ''a'', rnq_new_path = ''b/c'', rnq_context = empty_context\<rparr>))])"
  by (rule requests_dispatched) (simp add: sendable_def nul_free_def)

text \<open>The producer and a worker that waits for a storage node never want the same message, so
  neither takes a message the other waits for.\<close>

theorem producer_and_worker_disjoint:
  "\<not> (producer_wants m \<and> make_message_is storage_rpc rid job Response sender body_predicate m)"
  by (auto simp: producer_wants_def message_is_def make_message_is_def header_matches_def split: if_splits)

text \<open>The producer's filter looks at the kind of a message only: a create request without a path
  passes it, and its decoding throws in the producer thread, which ends the process.\<close>

theorem malformed_request_ends_node:
  "producer_wants (message_from sender (rpc_frame client_rpc rid CREATE_FILE Request []))
   \<and> push_worker_job (message_from sender (rpc_frame client_rpc rid CREATE_FILE Request [])) jobs = Inl RuntimeError"
proof -
  let ?m = "message_from sender (rpc_frame client_rpc rid CREATE_FILE Request [])"
  have fits: "body_fits []" by (simp add: body_fits_def)
  have "producer_wants ?m" using request_is_request [OF fits, of CREATE_FILE] by (simp add: producer_wants_def)
  moreover have "decoded (get_then read_string f) [] = Inl RuntimeError" for f :: "string \<Rightarrow> CreateFileRequest get"
    by code_simp
  ultimately show ?thesis
    using client_job.read_message_back [OF _ _ fits, of CREATE_FILE Request sender rid]
    by (simp add: push_worker_job_def client_event_def decode_create_file_request_def decode_client_eq)
qed

end
