(* ===== verification/Durability.thy ===== *)
theory Durability
  imports MetadataNode StoreInvariant
begin

text \<open>
  The metadata node and its disk: whatever the requests, the network, the storage nodes and the
  host do, the table in memory and the files under the data directory agree at every moment a
  process may be killed, so a restarted process finds the name space the killed one had.
\<close>

section \<open>What the worker keeps\<close>

text \<open>The names that may end up in a metadata file have no NUL, which ends a string there.\<close>

definition pending_named :: "Pending \<Rightarrow> bool" where
  "pending_named p \<longleftrightarrow> nul_free (pd_object_id p) \<and> nul_free (pd_replica_0 p) \<and> nul_free (pd_replica_1 p)"

definition writes_named :: "pending_table \<Rightarrow> bool" where
  "writes_named t \<longleftrightarrow> (\<forall>(c, es) \<in> set t. \<forall>(r, p) \<in> set es. pending_named p)"

definition durable :: "location \<Rightarrow> 'e MetadataWorker \<Rightarrow> bool" where
  "durable dir s \<longleftrightarrow> store_inv (mw_store s) \<and> ms_directory (mw_store s) = dir \<and> list_all nul_free (keys (mw_nodes s)) \<and> writes_named (pending_writes s)"

lemma update_entries: "x \<in> set (AList.update k v t) \<Longrightarrow> x = (k, v) \<or> x \<in> set t"
  by (induction t) (auto split: if_splits)

lemma writes_named_update:
  assumes "writes_named t" "\<forall>(r, p) \<in> set es. pending_named p"
  shows "writes_named (AList.update c es t)"
  using assms update_entries unfolding writes_named_def by fastforce

lemma writes_named_entries: "writes_named t \<Longrightarrow> map_of t c = Some es \<Longrightarrow> (r, p) \<in> set es \<Longrightarrow> pending_named p"
  by (fastforce simp: writes_named_def dest: map_of_SomeD)

lemma find_pending_named: "writes_named t \<Longrightarrow> find_pending c r t = Some p \<Longrightarrow> pending_named p"
  by (auto simp: find_pending_def split: option.splits dest: writes_named_entries map_of_SomeD)

lemma emplace_named:
  assumes "emplace_pending c r p t = (b, t')" "writes_named t" "pending_named p"
  shows "writes_named t'"
  using assms writes_named_entries [OF assms(2)]
  by (auto simp: emplace_pending_def Let_def try_emplace_def split: option.splits intro!: writes_named_update dest: update_entries)

lemma discard_named: "writes_named t \<Longrightarrow> writes_named (discard_pending c r t)"
proof -
  assume ok: "writes_named t"
  have "writes_named (AList.delete c t)" using ok by (auto simp: writes_named_def AList.delete_eq)
  moreover have "writes_named (AList.update c (AList.delete r es) t)" if "map_of t c = Some es" for es
    using ok that writes_named_entries [OF ok that] by (intro writes_named_update) (auto simp: AList.delete_eq)
  ultimately show ?thesis using ok by (auto simp: discard_pending_def Let_def split: option.split)
qed

lemma advance_named: "writes_named t \<Longrightarrow> writes_named (advance_pending c r t)"
proof -
  assume ok: "writes_named t"
  have "writes_named (AList.update c (AList.update r (p\<lparr>pd_next_chunk := n\<rparr>) es) t)"
    if "map_of t c = Some es" "map_of es r = Some p" for es p n
  proof (rule writes_named_update [OF ok])
    have "pending_named p" using writes_named_entries [OF ok that(1)] map_of_SomeD [OF that(2)] by blast
    then show "\<forall>(r, p) \<in> set (AList.update r (p\<lparr>pd_next_chunk := n\<rparr>) es). pending_named p"
      using writes_named_entries [OF ok that(1)] by (auto dest!: update_entries simp: pending_named_def)
  qed
  with ok show ?thesis by (auto simp: advance_pending_def split: option.split)
qed

section \<open>Steps that keep it\<close>

lemma durable_modify:
  "(\<And>s. mw_store (f s) = mw_store s \<and> keys (mw_nodes (f s)) = keys (mw_nodes s)
      \<and> (writes_named (pending_writes s) \<longrightarrow> writes_named (pending_writes (f s)))) \<Longrightarrow> keeps (durable dir) (act_modify f)"
  by (auto simp: passes_def wp_rules durable_def)

lemma durable_step:
  "(\<And>s x s'. f s = (x, s') \<Longrightarrow> mw_store s' = mw_store s \<and> mw_nodes s' = mw_nodes s
      \<and> (writes_named (pending_writes s) \<longrightarrow> writes_named (pending_writes s'))) \<Longrightarrow> keeps (durable dir) (act_step f)"
  by (auto simp: passes_def wp_rules durable_def split: prod.splits)

lemma keys_set_bytes_left [simp]: "keys (set_bytes_left r n nodes) = keys nodes"
proof (cases "map_of nodes r")
  case (Some info)
  then have "r \<in> set (keys nodes)" by (force dest: map_of_SomeD)
  then show ?thesis by (simp add: set_bytes_left_def Some update_keys)
qed (simp add: set_bytes_left_def)

lemma durable_quiet:
  "keeps (durable dir) (send env node f)"
  "keeps (durable dir) (receive_if env p)"
  "keeps (durable dir) next_storage_request_id"
  "keeps (durable dir) (new_object_id env)"
  "keeps (durable dir) (discard_write ctx)"
  "keeps (durable dir) (discard_read ctx)"
  unfolding send_def receive_if_def next_storage_request_id_def new_object_id_def discard_write_def discard_read_def
  by (auto intro!: durable_modify durable_step simp: Let_def discard_named split: prod.splits)

lemma durable_replies:
  "keeps (durable dir) (respond env ctx enc r)"
  "keeps (durable dir) (write_file_reply env wq st)"
  "keeps (durable dir) (write_chunk_reply env wc st)"
  "keeps (durable dir) (read_file_reply env rf st n k)"
  "keeps (durable dir) (read_chunk_reply env rc st bs)"
  "keeps (durable dir) (remove_reply env rm st)"
  unfolding write_file_reply_def write_chunk_reply_def read_file_reply_def read_chunk_reply_def remove_reply_def respond_def
  by (intro passes_intros durable_quiet)+

lemma durable_waits:
  "keeps (durable dir) (puts_acknowledged env rid i rs)"
  "keeps (durable dir) (fetch_chunk env oid i n rs)"
  "keeps (durable dir) (deletes_acknowledged env rid rs)"
proof -
  have "keeps (durable dir) (put_acknowledged env rid i r)" for r
    unfolding put_acknowledged_def by (intro passes_intros durable_quiet durable_modify) simp
  then show "keeps (durable dir) (puts_acknowledged env rid i rs)"
    by (induction rs) (auto intro!: passes_intros)
  show "keeps (durable dir) (fetch_chunk env oid i n rs)"
  proof (induction rs)
    case (Cons r rs)
    then show ?case unfolding fetch_chunk.simps by (intro passes_intros durable_quiet)
  qed (auto intro: passes_intros)
  show "keeps (durable dir) (deletes_acknowledged env rid rs)"
    by (induction rs) (auto intro!: passes_intros durable_quiet simp: Let_def)
qed

text \<open>A call of the store with an entry that can be written keeps it, also when it fails.\<close>

lemma durable_call:
  assumes "call_ok c" "time_fits (host_now h)"
  shows "keeps (durable dir) (on_store (call_store h c))"
proof (rule passesI)
  fix s :: "'e MetadataWorker"
  assume s: "durable dir s"
  obtain r st where run: "call_store h c (mw_store s) = (r, st)" by fastforce
  with call_outcome [OF run] call_directory [of h c "mw_store s"] s assms
  have "store_inv st" "ms_directory st = dir" by (simp_all add: durable_def)
  with s run show "wp (on_store (call_store h c)) (\<lambda>_. durable dir) (\<lambda>_ _. True) s"
    by (simp add: on_store_def wp_rules durable_def)
qed

lemma call_store_eqs:
  "call_store h (Add p m) = add_metadata h p m"
  "call_store h (Update p m) = update_metadata h p m"
  "call_store h (Remove p) = remove_metadata h p"
  "call_store h (Make_directory p) = make_directory h p"
  "call_store h (Remove_directory p) = remove_directory h p"
  "call_store h (Rename p q) = rename_metadata h p q"
  by (simp_all add: fun_eq_iff)

lemma durable_calls:
  assumes "time_fits (host_now h)"
  shows "md_strings_ok m \<Longrightarrow> keeps (durable dir) (on_store (add_metadata h p m))"
    "md_strings_ok m \<Longrightarrow> keeps (durable dir) (on_store (update_metadata h p m))"
    "keeps (durable dir) (on_store (remove_metadata h p))"
    "keeps (durable dir) (on_store (make_directory h p))"
    "keeps (durable dir) (on_store (remove_directory h p))"
    "keeps (durable dir) (on_store (rename_metadata h p q))"
  using durable_call [OF _ assms, of "Add p m"] durable_call [OF _ assms, of "Update p m"]
    durable_call [OF _ assms, of "Remove p"] durable_call [OF _ assms, of "Make_directory p"]
    durable_call [OF _ assms, of "Remove_directory p"] durable_call [OF _ assms, of "Rename p q"]
  unfolding call_store_eqs by simp_all

text \<open>A fact that every state at hand has.\<close>

lemma passes_known: "(\<And>s. P s \<Longrightarrow> b) \<Longrightarrow> (b \<Longrightarrow> passes P m Q) \<Longrightarrow> passes P m Q"
  by (auto simp: passes_def)

lemma durable_fresh_id:
  fixes env :: "'e Env"
  assumes "\<And>oid. nul_free oid \<Longrightarrow> keeps (durable dir) (f oid)"
  shows "keeps (durable dir) (act_then (new_object_id env) f)"
proof (rule passesI)
  fix s :: "'e MetadataWorker"
  assume s: "durable dir s"
  obtain high low where d: "env_draw env (mw_draws s) = (high, low)" by fastforce
  have "durable dir (s\<lparr>mw_draws := mw_draws s + 1\<rparr>)" using s by (simp add: durable_def)
  with assms [OF generate_nul_free, of high low] show "wp (act_then (new_object_id env) f) (\<lambda>_. durable dir) (\<lambda>_ _. True) s"
    by (simp add: wp_rules new_object_id_def d passes_def)
qed

section \<open>Every handler keeps it\<close>

lemma get_metadata_strings: "durable dir s \<Longrightarrow> get_metadata p (mw_store s) = Inr m \<Longrightarrow> md_strings_ok m"
  using store_invD(5) [of "mw_store s" "elems p" m]
  by (auto simp: durable_def get_metadata_def md_ok_def md_strings_ok_def split: if_splits option.splits)

lemma start_write_durable:
  assumes "md_strings_ok m" "nul_free r0" "nul_free r1"
  shows "keeps (durable dir) (start_write env req m r0 r1)"
  using assms unfolding start_write_def
  by (intro passes_then durable_step durable_replies)
    (auto simp: md_strings_ok_def pending_named_def split: prod.splits intro: emplace_named)

lemma start_read_durable: "keeps (durable dir) (start_read env req m k)"
  unfolding start_read_def Let_def
  by (intro passes_intros durable_step durable_replies) (auto split: prod.splits)

lemma placement_names: "set (placement nodes) \<subseteq> set (keys nodes)"
  by (force simp: placement_set)

lemma candidates_named:
  assumes "list_all nul_free (keys nodes)" "\<not> length (placement nodes) < 2"
  shows "nul_free (placement nodes ! 0)" "nul_free (placement nodes ! 1)"
proof -
  have "placement nodes ! 0 \<in> set (placement nodes)" "placement nodes ! 1 \<in> set (placement nodes)"
    using assms(2) by (auto intro: nth_mem)
  then show "nul_free (placement nodes ! 0)" "nul_free (placement nodes ! 1)"
    using assms(1) placement_names unfolding list_all_iff by blast+
qed

lemma write_file_durable:
  assumes time: "time_fits (host_now (env_host env))" and m: "md_strings_ok m"
  shows "keeps (durable dir) (write_file_with env req m)"
proof -
  have upd: "md_strings_ok m' \<Longrightarrow> keeps (durable dir) (on_store (update_metadata (env_host env) (wfq_path req) m'))" for m'
    by (rule durable_calls(2) [OF time])
  have bound: "passes (\<lambda>s. durable dir s \<and> mw_nodes s = nodes) n (durable dir)"
    if "list_all nul_free (keys nodes) \<Longrightarrow> keeps (durable dir) n" for nodes and n :: "('e, unit) worker_act"
    by (rule passes_known [where b = "list_all nul_free (keys nodes)"])
      (use that in \<open>auto simp: durable_def intro: passes_weaken\<close>)
  show ?thesis
    unfolding write_file_with_def Let_def
    using m
    by (intro passes_if passes_read bound passes_then [OF upd] passes_sum durable_replies start_write_durable candidates_named)
      (auto simp: md_strings_ok_def candidates_named [simplified])
qed

lemma write_chunk_durable:
  assumes time: "time_fits (host_now (env_host env))" and w: "pending_named w"
  shows "keeps (durable dir) (write_chunk_to env req w)"
proof -
  have "md_strings_ok (file_entry (pd_path w) (pd_file_size w) (pd_object_id w) (pd_replica_0 w) (pd_replica_1 w))"
    using w by (simp add: pending_named_def md_strings_ok_def file_entry_def)
  note upd = durable_calls(2) [OF time this]
  show ?thesis
    unfolding write_chunk_to_def Let_def
    by (intro passes_intros durable_quiet durable_waits durable_replies upd durable_modify) (auto simp: advance_named)
qed

lemma read_chunk_durable: "keeps (durable dir) (read_chunk_of env req r)"
  unfolding read_chunk_of_def Let_def
  by (intro passes_intros durable_quiet durable_waits durable_replies durable_modify) auto

lemma remove_file_durable:
  assumes "time_fits (host_now (env_host env))"
  shows "keeps (durable dir) (remove_file env req m)"
  unfolding remove_file_def Let_def
  by (intro passes_intros durable_quiet durable_waits durable_replies durable_calls [OF assms])

lemma handle_durable:
  assumes time: "time_fits (host_now (env_host env))"
  shows "keeps (durable dir) (handle env ev)"
proof (cases ev)
  case (CreateFileEvent r)
  show ?thesis
    unfolding CreateFileEvent handle.simps handle_create_file_def
    by (intro durable_fresh_id passes_then durable_calls [OF time] durable_replies)
      (simp add: md_strings_ok_def file_entry_def nul_free_def)
next
  case (ReadFileEvent r)
  show ?thesis
    unfolding ReadFileEvent handle.simps handle_read_file_def Let_def
    by (intro passes_intros durable_replies start_read_durable)
next
  case (ReadChunkEvent r)
  show ?thesis
    unfolding ReadChunkEvent handle.simps handle_read_chunk_def
    by (intro passes_intros durable_replies read_chunk_durable)
next
  case (WriteFileEvent r)
  have known: "passes (\<lambda>s. durable dir s \<and> get_metadata (wfq_path r) (mw_store s) = Inr m) (write_file_with env r m) (durable dir)" for m
    by (rule passes_known [where b = "md_strings_ok m"])
      (auto intro: get_metadata_strings passes_weaken [OF write_file_durable [OF time]])
  have new: "keeps (durable dir) (write_file_with env r (file_entry p 0 oid [] []))" if "nul_free oid" for p oid
    using that by (intro write_file_durable [OF time]) (simp add: md_strings_ok_def file_entry_def nul_free_def)
  show ?thesis
    unfolding WriteFileEvent handle.simps handle_write_file_def
    apply (intro passes_if passes_read durable_replies)
    subgoal for x
      by (cases x) (auto intro!: known passes_weaken [where P = "durable dir"] durable_fresh_id durable_replies new)
    done
next
  case (WriteChunkEvent r)
  have known: "passes (\<lambda>s. durable dir s \<and> find_pending c i (pending_writes s) = Some w) (write_chunk_to env r w) (durable dir)" for c i w
    by (rule passes_known [where b = "pending_named w"])
      (auto simp: durable_def intro: find_pending_named passes_weaken [OF write_chunk_durable [OF time]])
  show ?thesis
    unfolding WriteChunkEvent handle.simps handle_write_chunk_def
    apply (intro passes_read)
    subgoal for x
      by (cases x) (auto intro!: known passes_weaken [where P = "durable dir", OF durable_replies(3)])
    done
next
  case (RemoveEvent r)
  show ?thesis
    unfolding RemoveEvent handle.simps handle_remove_def
    by (intro passes_intros durable_replies durable_calls [OF time] remove_file_durable [OF time])
qed (auto simp: handle_list_def handle_make_dir_def handle_rename_def handle_stat_def
    intro!: passes_intros durable_replies durable_calls [OF time])

section \<open>The process\<close>

lemma keys_heartbeat: "set (keys (handle_heartbeat now h nodes)) = insert (peer_id (hb_sender h)) (set (keys nodes))"
proof -
  have "fst ` set xs = {n. map_of xs n \<noteq> None}" for xs :: "(NodeId \<times> StorageNodeInfo) list"
    by (auto simp: map_of_eq_None_iff)
  then show ?thesis by (auto simp: map_of_heartbeat split: option.splits if_splits)
qed

definition node_durable :: "location \<Rightarrow> 'e MetadataNode \<Rightarrow> bool" where
  "node_durable dir s \<longleftrightarrow> node_ok s \<and> durable dir (mn_worker s)"

lemma durable_net [simp]: "durable dir (s\<lparr>mw_net := n\<rparr>) = durable dir s"
  by (simp add: durable_def)

lemma durable_nodes:
  "durable dir s \<Longrightarrow> list_all nul_free (keys nodes) \<Longrightarrow> durable dir (s\<lparr>mw_nodes := nodes\<rparr>)"
  by (simp add: durable_def)

lemma produce_durable: "produce s = (Inr (), s') \<Longrightarrow> durable dir (mn_worker s') = durable dir (mn_worker s)"
  by (auto simp: produce_def Let_def split: prod.splits option.splits sum.splits)

lemma work_durable:
  assumes s: "node_durable dir s" and time: "time_fits (host_now (env_host env))"
    and run: "work env now later s = (Inr (), s')"
  shows "durable dir (mn_worker s')"
proof -
  obtain e jobs where pop: "pop_with_timeout (mn_jobs s) = (e, jobs)" by fastforce
  define s1 where "s1 = s\<lparr>mn_jobs := jobs\<rparr>"
  have jobs: "e = Some x \<Longrightarrow> x \<in> set (mn_jobs s)" for x
    using pop by (auto simp: pop_with_timeout_def split: list.splits)
  have d1: "durable dir (mn_worker s1)" using s by (simp add: node_durable_def s1_def)
  let ?body = "case e of None \<Rightarrow> act_return () | Some e \<Rightarrow> (case e of
      ClientJobEvent request \<Rightarrow> on_worker (handle env request) | HeartbeatEvent heartbeat \<Rightarrow> on_nodes (handle_heartbeat now heartbeat))"
  obtain s2 where body: "?body s1 = (Inr (), s2)" and s': "on_nodes (check_heartbeat_timeouts later) s2 = (Inr (), s')"
    using run pop by (auto simp: work_def act_then_def act_step_def s1_def split: prod.splits sum.splits)
  have "durable dir (mn_worker s2)"
  proof (cases e)
    case None
    with body d1 show ?thesis by (simp add: act_return_def)
  next
    case (Some x)
    show ?thesis
    proof (cases x)
      case (ClientJobEvent ev)
      with body Some obtain w where w: "handle env ev (mn_worker s1) = (Inr (), w)" "s2 = s1\<lparr>mn_worker := w\<rparr>"
        by (auto dest: on_worker_run)
      with passesD [OF handle_durable [OF time] d1 w(1)] show ?thesis by simp
    next
      case (HeartbeatEvent h)
      with Some jobs s have "nul_free (peer_id (hb_sender h))"
        by (auto simp: node_durable_def node_ok_def list_all_iff proper_name_def)
      moreover have "list_all nul_free (keys (mw_nodes (mn_worker s1)))" using d1 by (simp add: durable_def)
      ultimately have "list_all nul_free (keys (handle_heartbeat now h (mw_nodes (mn_worker s1))))"
        unfolding list_all_iff keys_heartbeat by blast
      with d1 body Some HeartbeatEvent show ?thesis
        by (auto simp: on_nodes_def on_worker_def act_modify_def intro: durable_nodes)
    qed
  qed
  with s' show ?thesis
    by (auto simp: on_nodes_def on_worker_def act_modify_def durable_def)
qed

lemma step_durable: "metadata_step s s' \<Longrightarrow> node_durable dir s \<Longrightarrow> node_durable dir s'"
proof -
  assume step: "metadata_step s s'" and s: "node_durable dir s"
  have "node_ok s'" using step_ok [OF step] s by (simp add: node_durable_def)
  moreover have "durable dir (mn_worker s')"
    using step
  proof (cases rule: metadata_step.cases)
    case (arrives m)
    with s show ?thesis by (simp add: node_durable_def receive_def)
  next
    case produces
    with produce_durable [OF produces(2)] s show ?thesis by (simp add: node_durable_def)
  next
    case (works env now later)
    with work_durable [OF s] show ?thesis by simp
  next
    case stops
    with s show ?thesis by (simp add: node_durable_def stop_def)
  qed
  ultimately show ?thesis by (simp add: node_durable_def)
qed

section \<open>The process over its lifetimes\<close>

text \<open>A data directory that holds no file yet, or does not exist.\<close>

definition empty_directory :: "disk \<Rightarrow> location \<Rightarrow> bool" where
  "empty_directory d dir \<longleftrightarrow> disk_wf d \<and> plain_path dir \<and> (\<forall>k c. node_at d (dir @ k) \<noteq> Some (File c))"

text \<open>
  The states of a metadata node that starts on an empty directory, runs, is killed between any
  two steps, starts again on the disk it left, and so on.
\<close>

inductive lives :: "(path \<Rightarrow> location) \<Rightarrow> NodeConfig \<Rightarrow> 'e MetadataNode \<Rightarrow> bool"
  for located :: "path \<Rightarrow> location" and config :: NodeConfig where
  begins: "new_metadata_node h located config net d = (Inr s, d1) \<Longrightarrow> net_queue net = [] \<Longrightarrow>
    empty_directory d (located (cfg_data_directory config)) \<Longrightarrow> lives located config s"
| runs: "lives located config s \<Longrightarrow> metadata_step s s' \<Longrightarrow> lives located config s'"
| restarts: "lives located config s \<Longrightarrow> net_queue net = [] \<Longrightarrow> host_ok h \<Longrightarrow>
    new_metadata_node h located config net (ms_disk (mw_store (mn_worker s))) = (Inr s', d1) \<Longrightarrow> lives located config s'"

inductive_cases livesE: "lives located config s"

lemma load_directories:
  assumes "\<forall>(l, n) \<in> set es. n = Dir" "load_entries h es s = (Inr (), s')"
  shows "s' = s"
  using assms by (induction es) (auto simp: Let_def split: if_splits)

lemma new_node_parts:
  assumes "new_metadata_node h located config net d = (Inr s, d1)"
  shows "\<exists>st d0. new_store h d (located (cfg_data_directory config)) = (Inr st, d0)
    \<and> load_from_storage h st = (Inr (), mw_store (mn_worker s))
    \<and> mw_nodes (mn_worker s) = [] \<and> pending_reads (mn_worker s) = [] \<and> pending_writes (mn_worker s) = []
    \<and> mw_net (mn_worker s) = net \<and> mn_jobs s = []"
  using assms by (auto simp: new_metadata_node_def split: prod.splits sum.splits)

lemma new_node_durable:
  assumes "new_metadata_node h located config net d = (Inr s, d1)" "net_queue net = []" "store_inv (mw_store (mn_worker s))"
  shows "node_durable (ms_directory (mw_store (mn_worker s))) s"
  using new_node_parts [OF assms(1)] assms(2,3)
  by (auto simp: node_durable_def node_ok_def worker_ok_def table_ok_def nodes_ok_def named_def durable_def writes_named_def)

text \<open>A first start, on a data directory without files.\<close>

lemma first_start:
  assumes new: "new_metadata_node h located config net d = (Inr s, d1)"
    and empty: "empty_directory d (located (cfg_data_directory config))"
  shows "store_inv (mw_store (mn_worker s)) \<and> ms_directory (mw_store (mn_worker s)) = located (cfg_data_directory config)
    \<and> ms_data (mw_store (mn_worker s)) = []"
proof -
  let ?dir = "located (cfg_data_directory config)" and ?st = "mw_store (mn_worker s)"
  from new_node_parts [OF new] obtain st d0 where st: "new_store h d ?dir = (Inr st, d0)"
    and load: "load_from_storage h st = (Inr (), ?st)" by blast
  obtain ec d2 where c: "fs_create_directories (host_faults h) d ?dir = (ec, d2)" by fastforce
  with st have ec: "ec = None" and st': "st = \<lparr>ms_disk = d2, ms_directory = ?dir, ms_data = []\<rparr>"
    by (auto simp: new_store_def split: if_splits)
  from empty have e: "disk_wf d" "plain_path ?dir" "\<forall>k c. node_at d (?dir @ k) \<noteq> Some (File c)"
    by (simp_all add: empty_directory_def)
  from create_directories_grown [OF c e(1,2)] ec have d2: "disk_wf d2" "grown d d2" "node_at d2 ?dir = Some Dir" by simp_all
  with e(3) have files: "node_at d2 (?dir @ k) \<noteq> Some (File c)" for k c by (simp add: grown_file)
  let ?es = "filter (\<lambda>(k, _). strict_prefix ?dir k) d2"
  have "fs_walk (host_faults h) d2 ?dir = Inr ?es"
    using load st' resolve_node [OF d2(1) e(2) d2(3)] d2(3)
    by (auto simp: load_from_storage_def fs_walk_def opened_directory_def split: if_splits)
  with load st' have run: "load_entries h ?es st = (Inr (), ?st)" by (simp add: load_from_storage_def)
  have "n = Dir" if "(l, n) \<in> set ?es" for l n
  proof (rule ccontr)
    assume "n \<noteq> Dir"
    then obtain b where b: "n = File b" by (cases n) auto
    from that obtain k where l: "l = ?dir @ k" "(l, n) \<in> set d2" by (auto simp: strict_prefix_def prefix_def)
    with d2(1) have "node_at d2 l = Some n" by (force simp: disk_wf_def node_at_def)
    with files b l(1) show False by simp
  qed
  then have same: "?st = st" using load_directories [OF _ run] by blast
  have "stored_file st k = None" for k
    using files by (simp add: stored_file_def st' split: option.split node.split)
  with d2 e(2) same st' show ?thesis by (simp add: store_inv_def)
qed

text \<open>A later start, on the disk a process left: the same name space, with times in milliseconds.\<close>

lemma next_start:
  fixes s :: "'e MetadataNode" and s' :: "'f MetadataNode"
  assumes inv: "store_inv (mw_store (mn_worker s))" and dir: "ms_directory (mw_store (mn_worker s)) = located (cfg_data_directory config)"
    and ok: "host_ok h" and new: "new_metadata_node h located config net (ms_disk (mw_store (mn_worker s))) = (r, d1)"
  shows "\<exists>s' :: 'f MetadataNode. r = Inr s' \<and> store_inv (mw_store (mn_worker s'))
    \<and> ms_directory (mw_store (mn_worker s')) = ms_directory (mw_store (mn_worker s))
    \<and> name_space (mw_store (mn_worker s')) = (\<lambda>k. map_option in_ms (name_space (mw_store (mn_worker s)) k))"
proof -
  let ?t = "mw_store (mn_worker s)"
  have "fs_create_directories (host_faults h) (ms_disk ?t) (ms_directory ?t) = (None, ms_disk ?t)"
    using create_directories_done [OF store_invD(1,3) [OF inv]] ok by (simp add: host_ok_def)
  moreover have "fs_is_directory (host_faults h) (ms_disk ?t) (ms_directory ?t) = Inr True"
    using resolve_node [OF store_invD(1-3) [OF inv]] store_invD(3) [OF inv] ok
    by (simp add: fs_is_directory_def fs_status_def host_ok_def)
  ultimately have st: "new_store h (ms_disk ?t) (ms_directory ?t) = (Inr (?t\<lparr>ms_data := []\<rparr>), ms_disk ?t)"
    by (simp add: new_store_def)
  obtain l st' where load: "load_from_storage h (?t\<lparr>ms_data := []\<rparr>) = (l, st')" by fastforce
  from load_outcome [OF ok inv load] have st': "l = Inr ()" "store_inv st'" "ms_directory st' = ms_directory ?t"
    "name_space st' = (\<lambda>k. map_option in_ms (name_space ?t k))" by simp_all
  with new st load dir show ?thesis by (auto simp: new_metadata_node_def)
qed

lemma lives_durable:
  "lives located config s \<Longrightarrow> node_durable (located (cfg_data_directory config)) s"
proof (induction rule: lives.induct)
  case (begins h net d s d1)
  with first_start [OF begins(1,3)] new_node_durable [OF begins(1,2)] show ?case by simp
next
  case (runs s s')
  with step_durable show ?case by blast
next
  case (restarts s net h s' d1)
  from restarts(5) have st: "store_inv (mw_store (mn_worker s))"
    "ms_directory (mw_store (mn_worker s)) = located (cfg_data_directory config)"
    by (simp_all add: node_durable_def durable_def)
  from next_start [OF st restarts(3,4)] st(2) have "store_inv (mw_store (mn_worker s'))"
    "ms_directory (mw_store (mn_worker s')) = located (cfg_data_directory config)" by auto
  with new_node_durable [OF restarts(4,2)] show ?case by simp
qed

section \<open>A file created before the node is killed\<close>

definition sample_creation :: ClientEvent where
  "sample_creation = CreateFileEvent \<lparr>cfq_path = ''f'', cfq_context = sample_client\<rparr>"

definition sample_killed :: "unit MetadataNode" where
  "sample_killed = snd (work silent_env 0 0 (sample_node\<lparr>mn_jobs := [ClientJobEvent sample_creation]\<rparr>))"

lemma sample_starts:
  "new_metadata_node (env_host silent_env) (\<lambda>_. [''d'']) sample_config sample_net [([''d''], Dir)] =
    (Inr sample_node, [([''d''], Dir)])"
  by (simp add: new_metadata_node_def new_store_def silent_env_def no_faults_def sample_node_def
      fs_create_directories_def fs_is_directory_def fs_status_def node_at_def load_from_storage_def fs_walk_def opened_directory_def)

lemma sample_lives: "lives (\<lambda>_. [''d'']) sample_config sample_node"
proof (rule begins [OF sample_starts])
  show "net_queue sample_net = []" by (simp add: sample_net_def)
  show "empty_directory [([''d''], Dir)] [''d'']"
    by (simp add: empty_directory_def disk_wf_def node_at_def slash_def)
qed

lemma sample_job: "metadata_step (receive (message_from (ctx_sender sample_client) f) sample_node) (sample_node\<lparr>mn_jobs := [ClientJobEvent sample_creation]\<rparr>)"
  if "encode_event 5 (CreateFileEvent \<lparr>cfq_path = ''f'', cfq_context = empty_context\<rparr>) = Inr f"
proof -
  let ?ev = "CreateFileEvent \<lparr>cfq_path = ''f'', cfq_context = empty_context\<rparr>" and ?m = "message_from (ctx_sender sample_client) f"
  have "sendable ?ev" by (simp add: sendable_def nul_free_def)
  from request_dispatched [OF this, of 5 "ctx_sender sample_client" "[]"] that
  have "producer_wants ?m" "push_worker_job ?m [] = Inr [ClientJobEvent sample_creation]"
    by (simp_all add: sample_creation_def sample_client_def)
  then have "produce (receive ?m sample_node) = (Inr (), sample_node\<lparr>mn_jobs := [ClientJobEvent sample_creation]\<rparr>)"
    by (simp add: produce_def receive_def sample_node_def sample_net_def push_def pop_if_def Let_def)
  then show ?thesis by (intro produces) (simp_all add: receive_def sample_node_def)
qed

lemma sample_work:
  "map_prod id (\<lambda>s. keys (ms_data (mw_store (mn_worker s))))
     (work silent_env 0 0 (sample_node\<lparr>mn_jobs := [ClientJobEvent sample_creation]\<rparr>)) = (Inr (), [[''f'']])"
  by code_simp

lemma sample_killed_lives: "lives (\<lambda>_. [''d'']) sample_config sample_killed"
proof -
  let ?s = "sample_node\<lparr>mn_jobs := [ClientJobEvent sample_creation]\<rparr>"
  let ?ev = "CreateFileEvent \<lparr>cfq_path = ''f'', cfq_context = empty_context\<rparr>"
  have "sendable ?ev" by (simp add: sendable_def nul_free_def)
  from request_dispatched [OF this, of 5] obtain f where f: "encode_event 5 ?ev = Inr f" by blast
  have "metadata_step sample_node (receive (message_from (ctx_sender sample_client) f) sample_node)"
    by (rule arrives) (simp add: sample_client_def proper_name_def nul_free_def)
  then have "lives (\<lambda>_. [''d'']) sample_config ?s"
    using runs [OF runs [OF sample_lives] sample_job [OF f]] by blast
  moreover have "work silent_env 0 0 ?s = (Inr (), sample_killed)"
    using sample_work by (cases "work silent_env 0 0 ?s") (simp add: sample_killed_def)
  then have "metadata_step ?s sample_killed"
    by (intro works [where env = silent_env]) (simp_all add: sample_node_def silent_env_def names_senders_def time_fits_def)
  ultimately show ?thesis by (rule runs)
qed

section \<open>Properties of the metadata node over its lifetimes\<close>

text \<open>C10. Memory and disk never disagree: in every state of a metadata node, from its first start on an
  empty directory, through any interleaving of messages, producer, worker and heartbeats, any
  failures of system calls and any number of kills and restarts, the table holds exactly the
  metadata files under the data directory, with their contents, and every one of them can be
  read back.\<close>

theorem table_matches_disk:
  assumes "lives located config s"
  shows "store_inv (mw_store (mn_worker s)) \<and> worker_ok (mn_worker s)
    \<and> ms_directory (mw_store (mn_worker s)) = located (cfg_data_directory config)"
  using lives_durable [OF assms] by (simp add: node_durable_def node_ok_def durable_def)

theorem table_matches_disk_witness:
  "store_inv (mw_store (mn_worker sample_killed)) \<and> worker_ok (mn_worker sample_killed)
   \<and> ms_directory (mw_store (mn_worker sample_killed)) = [''d'']"
  using table_matches_disk [OF sample_killed_lives] .

text \<open>C31. Every step of the process keeps everything in order: started on a disk that it loads into a
  consistent store, as a first start and every restart do (\<open>first_start\<close>, \<open>next_start\<close>), and under every
  interleaving of arriving messages, the producer, the worker and the end of the threads, the
  store stays consistent with its disk and in its directory, the pending transfers and the table
  of storage nodes stay in order, and the names in the message queue, the pending uploads and the
  node table stay proper.\<close>

theorem node_stays_ok:
  assumes "new_metadata_node h located config net d = (Inr s0, d1)" "net_queue net = []"
    "store_inv (mw_store (mn_worker s0))" "rtranclp metadata_step s0 s"
  shows "store_inv (mw_store (mn_worker s)) \<and> ms_directory (mw_store (mn_worker s)) = ms_directory (mw_store (mn_worker s0))
    \<and> worker_ok (mn_worker s) \<and> writes_named (pending_writes (mn_worker s))
    \<and> list_all nul_free (keys (mw_nodes (mn_worker s))) \<and> named (net_queue (mw_net (mn_worker s)))"
proof -
  from assms(4) new_node_durable [OF assms(1,2,3)] have "node_durable (ms_directory (mw_store (mn_worker s0))) s"
    by (induction rule: rtranclp_induct) (auto intro: step_durable)
  then show ?thesis by (simp add: node_durable_def node_ok_def durable_def)
qed

theorem node_stays_ok_witness:
  "store_inv (mw_store (mn_worker (receive sample_heartbeat sample_node)))
   \<and> ms_directory (mw_store (mn_worker (receive sample_heartbeat sample_node))) = ms_directory (mw_store (mn_worker sample_node))
   \<and> worker_ok (mn_worker (receive sample_heartbeat sample_node))
   \<and> writes_named (pending_writes (mn_worker (receive sample_heartbeat sample_node)))
   \<and> list_all nul_free (keys (mw_nodes (mn_worker (receive sample_heartbeat sample_node))))
   \<and> named (net_queue (mw_net (mn_worker (receive sample_heartbeat sample_node))))"
proof (rule node_stays_ok [OF sample_starts])
  show "net_queue sample_net = []" by (simp add: sample_net_def)
  show "store_inv (mw_store (mn_worker sample_node))"
    using lives_durable [OF sample_lives] by (simp add: node_durable_def durable_def)
  have "metadata_step sample_node (receive sample_heartbeat sample_node)"
    by (rule arrives) (simp add: sample_heartbeat_def proper_name_def nul_free_def)
  then show "rtranclp metadata_step sample_node (receive sample_heartbeat sample_node)" by (rule r_into_rtranclp)
qed

text \<open>C9. A metadata node that is killed at any such moment comes back: on a host whose calls succeed, a
  new process starts on the disk that was left, and its name space is the one the killed
  process had, with times cut to milliseconds; no acknowledged change is lost.\<close>

theorem killed_node_comes_back:
  assumes "lives located config s" "host_ok h"
  shows "\<exists>s' d. new_metadata_node h located config net (ms_disk (mw_store (mn_worker s))) = (Inr s', d)
    \<and> name_space (mw_store (mn_worker s')) = (\<lambda>k. map_option in_ms (name_space (mw_store (mn_worker s)) k))"
proof -
  obtain r d where new: "new_metadata_node h located config net (ms_disk (mw_store (mn_worker s))) = (r, d)" by fastforce
  from lives_durable [OF assms(1)] have "store_inv (mw_store (mn_worker s))"
    "ms_directory (mw_store (mn_worker s)) = located (cfg_data_directory config)"
    by (simp_all add: node_durable_def durable_def)
  from next_start [OF this assms(2) new] new show ?thesis by auto
qed

theorem killed_node_comes_back_witness:
  "\<exists>s' d. new_metadata_node (env_host silent_env) (\<lambda>_. [''d'']) sample_config sample_net (ms_disk (mw_store (mn_worker sample_killed))) = (Inr s', d)
    \<and> name_space (mw_store (mn_worker s')) [''f''] \<noteq> None"
proof -
  have "host_ok (env_host silent_env)" by (simp add: host_ok_def silent_env_def no_faults_def)
  from killed_node_comes_back [OF sample_killed_lives this, of sample_net] obtain s' d where
    s': "new_metadata_node (env_host silent_env) (\<lambda>_. [''d'']) sample_config sample_net (ms_disk (mw_store (mn_worker sample_killed))) = (Inr s', d)"
    "name_space (mw_store (mn_worker s')) = (\<lambda>k. map_option in_ms (name_space (mw_store (mn_worker sample_killed)) k))" by blast
  have "keys (ms_data (mw_store (mn_worker sample_killed))) = [[''f'']]"
    using sample_work by (cases "work silent_env 0 0 (sample_node\<lparr>mn_jobs := [ClientJobEvent sample_creation]\<rparr>)") (simp add: sample_killed_def)
  then have "map_of (ms_data (mw_store (mn_worker sample_killed))) [''f''] \<noteq> None"
    by (metis list.set_intros(1) list.set_map map_of_eq_None_iff)
  with s' show ?thesis by (simp add: name_space_None [symmetric])
qed

end
