(* ===== verification/StorageWorker.thy ===== *)
theory StorageWorker
  imports FileSystem StorageProtocol MetadataStore ObjectId
begin

text \<open>
  \<^verbatim>\<open>storage/StorageWorker.hpp\<close> and \<^verbatim>\<open>StorageWorker.cpp\<close>: the objects of a storage node, one
  file each, written chunk by chunk into a temporary file that the last chunk renames. A
  handler returns the frame it sends and the worker after it.
\<close>

section \<open>State\<close>

text \<open>\<open>sh_space d\<close> is what \<^verbatim>\<open>fs::space\<close> reports as available with disk \<open>d\<close>, or an error.\<close>

record StorageHost =
  sh_faults :: Faults
  sh_space :: "disk \<Rightarrow> u64 option"

record StorageWorker =
  sw_disk :: disk
  objects_directory :: location
  next_chunks :: "(string \<times> u32) list"

type_synonym outgoing = "NodeId \<times> Frame"

text \<open>The constructor; \<open>located\<close> gives the location that a configured path denotes.\<close>

definition new_storage_worker ::
  "StorageHost \<Rightarrow> (path \<Rightarrow> location) \<Rightarrow> NodeConfig \<Rightarrow> disk \<Rightarrow> (exn + StorageWorker) \<times> disk" where
  "new_storage_worker h located config d =
     (if cfg_data_directory config = [] then (Inl InvalidArgument, d)
      else let objects = located (cfg_data_directory config) @ [''objects''] in
        (case fs_create_directories (sh_faults h) d objects of (ec, d1) \<Rightarrow>
           if ec \<noteq> None \<or> fs_is_directory (sh_faults h) d1 objects \<noteq> Inr True
           then (Inl RuntimeError, d1)
           else (Inr \<lparr>sw_disk = d1, objects_directory = objects, next_chunks = []\<rparr>, d1)))"

definition valid_object_id :: "string \<Rightarrow> bool" where
  "valid_object_id object_id =
     (if object_id = [] \<or> object_id = ''.'' \<or> object_id = ''..'' then False
      else \<not> is_absolute object_id \<and> \<not> has_parent_path object_id
         \<and> elems object_id = elems (filename object_id))"

definition object_path :: "StorageWorker \<Rightarrow> string \<Rightarrow> location" where
  "object_path s object_id = objects_directory s @ elems object_id"

text \<open>The object id is not used, and the expected chunk is kept.\<close>

definition abort_write :: "StorageHost \<Rightarrow> string \<Rightarrow> location \<Rightarrow> StorageWorker \<Rightarrow> StorageWorker" where
  "abort_write h object_id p s = s\<lparr>sw_disk := snd (fs_remove (sh_faults h) (sw_disk s) p)\<rparr>"

definition available_bytes :: "StorageHost \<Rightarrow> StorageWorker \<Rightarrow> u64" where
  "available_bytes h s = (case sh_space h (sw_disk s) of None \<Rightarrow> 0 | Some n \<Rightarrow> n)"

section \<open>Writing a chunk\<close>

definition write_chunk :: "StorageHost \<Rightarrow> PutRequest \<Rightarrow> StorageWorker \<Rightarrow> StorageStatus \<times> StorageWorker" where
  "write_chunk h req s =
     (let f = sh_faults h; oid = ptq_object_id req; index = ptq_chunk_index req in
      if \<not> valid_object_id oid then (StInvalidRequest, s)
      else let final = object_path s oid; tmp = temporary final;
               s0 = (if index = 0 then s\<lparr>next_chunks := AList.update oid 0 (next_chunks s)\<rparr> else s) in
        (case map_of (next_chunks s0) oid of
           None \<Rightarrow> (StInvalidRequest, abort_write h oid tmp s0)
         | Some expected \<Rightarrow>
        if index \<noteq> expected then (StInvalidRequest, abort_write h oid tmp s0)
        else (case sh_space h (sw_disk s0) of
           None \<Rightarrow> (StWriteError, abort_write h oid tmp s0)
         | Some space_available \<Rightarrow>
        if unat space_available < length (ptq_data req) then (StNoSpace, abort_write h oid tmp s0)
        else (case open_out f (sw_disk s0) tmp (index \<noteq> 0) of
           (Inl _, d1) \<Rightarrow> (StWriteError, abort_write h oid tmp (s0\<lparr>sw_disk := d1\<rparr>))
         | (Inr l, d1) \<Rightarrow>
        (case append_out f d1 l (ptq_data req) of (ok, d2) \<Rightarrow>
        let s2 = s0\<lparr>sw_disk := d2\<rparr> in
        if \<not> ok \<or> fails f Sys_flush tmp \<or> fails f Sys_close tmp
        then (StWriteError, abort_write h oid tmp s2)
        else let s3 = s2\<lparr>next_chunks := AList.update oid (expected + 1) (next_chunks s2)\<rparr> in
        if \<not> ptq_final_chunk req then (StSuccess, s3)
        else (case fs_rename f d2 tmp final of
           (Some _, d3) \<Rightarrow> (StWriteError, abort_write h oid tmp (s3\<lparr>sw_disk := d3\<rparr>))
         | (None, d3) \<Rightarrow> (StSuccess, s3\<lparr>sw_disk := d3, next_chunks := AList.delete oid (next_chunks s3)\<rparr>)))))))"

section \<open>Handlers\<close>

definition handle_put :: "StorageHost \<Rightarrow> PutRequest \<Rightarrow> StorageWorker \<Rightarrow> (exn + outgoing) \<times> StorageWorker" where
  "handle_put h req s =
     (case write_chunk h req s of (status, s1) \<Rightarrow>
        (and_then (encode_put_response (ctx_request_id (ptq_context req))
            \<lparr>ptr_chunk_index = ptq_chunk_index req, ptr_size_available = available_bytes h s1, ptr_status = status\<rparr>)
           (\<lambda>frame. Inr (peer_id (ctx_sender (ptq_context req)), frame)), s1))"

text \<open>The status and the data of a read.\<close>

definition read_object :: "StorageHost \<Rightarrow> GetRequest \<Rightarrow> StorageWorker \<Rightarrow> StorageStatus \<times> byte list" where
  "read_object h req s =
     (let f = sh_faults h; p = object_path s (gtq_object_id req) in
      if \<not> valid_object_id (gtq_object_id req) \<or> gtq_byte_count req > CHUNK_SIZE then (StInvalidRequest, [])
      else (case open_in f (sw_disk s) p of
          Inl _ \<Rightarrow> (StReadError, [])
        | Inr content \<Rightarrow>
      let file_size = word_of_nat (length content) :: u64;
          offset = ucast (gtq_chunk_index req) * ucast CHUNK_SIZE :: u64 in
      if offset > file_size then (StInvalidRequest, [])
      else let bytes_to_read = min (ucast (gtq_byte_count req)) (file_size - offset) in
        if bytes_to_read \<noteq> 0 \<and> fails f Sys_read p then (StReadError, [])
        else (StSuccess, take (unat bytes_to_read) (drop (unat offset) content))))"

definition handle_get :: "StorageHost \<Rightarrow> GetRequest \<Rightarrow> StorageWorker \<Rightarrow> (exn + outgoing) \<times> StorageWorker" where
  "handle_get h req s =
     (case read_object h req s of (status, bytes) \<Rightarrow>
        (and_then (encode_get_response (ctx_request_id (gtq_context req))
            \<lparr>gtr_chunk_index = gtq_chunk_index req, gtr_status = status, gtr_data = bytes\<rparr>)
           (\<lambda>frame. Inr (peer_id (ctx_sender (gtq_context req)), frame)), s))"

definition delete_object :: "StorageHost \<Rightarrow> string \<Rightarrow> StorageWorker \<Rightarrow> StorageStatus \<times> StorageWorker" where
  "delete_object h oid s =
     (if \<not> valid_object_id oid then (StInvalidRequest, s)
      else let final = object_path s oid; tmp = temporary final in
        (case fs_remove (sh_faults h) (sw_disk s) final of
           (Inl _, d1) \<Rightarrow> (StWriteError, s\<lparr>sw_disk := d1\<rparr>)
         | (Inr _, d1) \<Rightarrow>
        (case fs_remove (sh_faults h) d1 tmp of
           (Inl _, d2) \<Rightarrow> (StWriteError, s\<lparr>sw_disk := d2\<rparr>)
         | (Inr _, d2) \<Rightarrow>
             (StSuccess, s\<lparr>sw_disk := d2, next_chunks := AList.delete oid (next_chunks s)\<rparr>))))"

definition handle_delete :: "StorageHost \<Rightarrow> DeleteRequest \<Rightarrow> StorageWorker \<Rightarrow> (exn + outgoing) \<times> StorageWorker" where
  "handle_delete h req s =
     (case delete_object h (dlq_object_id req) s of (status, s1) \<Rightarrow>
        (and_then (encode_delete_response (ctx_request_id (dlq_context req)) \<lparr>dlr_status = status\<rparr>)
           (\<lambda>frame. Inr (peer_id (ctx_sender (dlq_context req)), frame)), s1))"

section \<open>Object ids\<close>

lemma valid_object_id_iff:
  "valid_object_id oid \<longleftrightarrow> oid \<noteq> [] \<and> oid \<noteq> ''.'' \<and> oid \<noteq> ''..'' \<and> slash \<notin> set oid"
proof (cases "oid = [] \<or> oid = ''.'' \<or> oid = ''..''")
  case False
  show ?thesis
  proof (cases "slash \<in> set oid")
    case True
    have "\<not> (\<not> is_absolute oid \<and> \<not> has_parent_path oid)"
    proof
      assume *: "\<not> is_absolute oid \<and> \<not> has_parent_path oid"
      then have "elems oid = filenames oid" using False by (auto simp: elems_def is_absolute_def)
      with * have "length (filenames oid) < 2" by (simp add: has_parent_path_def)
      moreover have "length (filenames oid) \<ge> 2"
        using True filenames_not_Nil
        by (subst filenames.simps) (auto simp: Let_def Suc_le_eq)
      ultimately show False by simp
    qed
    with True show ?thesis by (auto simp: valid_object_id_def)
  next
    case no: False
    with \<open>\<not> (oid = [] \<or> _ \<or> _)\<close> have e: "elems oid = [oid]" by (simp add: elems_plain)
    moreover have "\<not> is_absolute oid" using no False by (auto simp: is_absolute_def dest: hd_in_set)
    moreover have "oid \<noteq> [slash]" using no by auto
    ultimately show ?thesis
      using no False by (auto simp: valid_object_id_def has_parent_path_def filename_def relative_elems_def)
  qed
qed (auto simp: valid_object_id_def)

lemma valid_elems: "valid_object_id oid \<Longrightarrow> elems oid = [oid]"
  by (simp add: valid_object_id_iff elems_plain)

text \<open>A proper id, not the name of another object's temporary file.\<close>

definition proper_id :: "string \<Rightarrow> bool" where
  "proper_id oid \<longleftrightarrow> valid_object_id oid \<and> (\<forall>n. oid \<noteq> n @ ''.tmp'')"

lemma generated_proper: "proper_id (generate a b)"
proof -
  have set: "set (generate a b) \<subseteq> insert CHR ''-'' (set hex_digits)" by (rule set_generate)
  have "generate a b \<noteq> []" "length (generate a b) > 2" using length_generate [of a b] by auto
  moreover have "slash \<notin> set (generate a b)" "CHR ''.'' \<notin> set (generate a b)"
    using set by (auto simp: slash_def hex_digits_def)
  ultimately show ?thesis
    by (auto simp: proper_id_def valid_object_id_iff)
qed

section \<open>The objects a worker holds\<close>

definition file_in :: "disk \<Rightarrow> location \<Rightarrow> byte list option" where
  "file_in d l = (case node_at d l of Some (File c) \<Rightarrow> Some c | _ \<Rightarrow> None)"

definition committed :: "StorageWorker \<Rightarrow> string \<Rightarrow> byte list option" where
  "committed s oid = file_in (sw_disk s) (objects_directory s @ [oid])"

definition staged :: "StorageWorker \<Rightarrow> string \<Rightarrow> byte list option" where
  "staged s oid = file_in (sw_disk s) (objects_directory s @ [oid @ ''.tmp''])"

definition expected_chunk :: "StorageWorker \<Rightarrow> string \<Rightarrow> u32 option" where
  "expected_chunk s oid = map_of (next_chunks s) oid"

definition worker_inv :: "StorageWorker \<Rightarrow> bool" where
  "worker_inv s \<longleftrightarrow> disk_wf (sw_disk s) \<and> plain_path (objects_directory s)
     \<and> node_at (sw_disk s) (objects_directory s) = Some Dir"

text \<open>A disk step that changes nodes at \<open>X\<close> only.\<close>

definition touches :: "location set \<Rightarrow> disk \<Rightarrow> disk \<Rightarrow> bool" where
  "touches X d d' \<longleftrightarrow> disk_wf d' \<and> (\<forall>l. l \<notin> X \<longrightarrow> node_at d' l = node_at d l)"

lemma touches_trans: "touches X d e \<Longrightarrow> touches X e f \<Longrightarrow> touches X d f"
  by (simp add: touches_def)

lemma touches_refl: "disk_wf d \<Longrightarrow> touches X d d"
  by (simp add: touches_def)

lemma touches_mono: "touches X d e \<Longrightarrow> X \<subseteq> Y \<Longrightarrow> touches Y d e"
  by (auto simp: touches_def)

lemma remove_touches:
  "disk_wf d \<Longrightarrow> plain_path p \<Longrightarrow> touches {p} d (snd (fs_remove f d p))"
  using remove_ok [of f d p "fst (fs_remove f d p)" "snd (fs_remove f d p)"]
  by (auto simp: touches_def split: if_splits)

definition places :: "StorageWorker \<Rightarrow> string \<Rightarrow> location set" where
  "places s oid = {objects_directory s @ [oid], objects_directory s @ [oid @ ''.tmp'']}"

lemma places_other:
  assumes "proper_id oid" "proper_id oid'" "oid' \<noteq> oid"
  shows "objects_directory s @ [oid'] \<notin> places s oid" "objects_directory s @ [oid' @ ''.tmp''] \<notin> places s oid"
  using assms by (auto simp: places_def proper_id_def)

text \<open>What a step on one object leaves alone: every other object, and the worker's invariant.\<close>

definition only_object :: "string \<Rightarrow> StorageWorker \<Rightarrow> StorageWorker \<Rightarrow> bool" where
  "only_object oid s s' \<longleftrightarrow> worker_inv s' \<and> objects_directory s' = objects_directory s
     \<and> (\<forall>o'. proper_id o' \<and> o' \<noteq> oid \<longrightarrow> committed s' o' = committed s o' \<and> staged s' o' = staged s o'
          \<and> expected_chunk s' o' = expected_chunk s o')"

lemma only_objectI:
  assumes "worker_inv s" "proper_id oid" "touches (places s oid) (sw_disk s) (sw_disk s')"
    "objects_directory s' = objects_directory s" "\<And>k. k \<noteq> oid \<Longrightarrow> map_of (next_chunks s') k = map_of (next_chunks s) k"
  shows "only_object oid s s'"
proof -
  have "objects_directory s \<notin> places s oid" by (auto simp: places_def)
  with assms(1,3,4) have "worker_inv s'" by (simp add: worker_inv_def touches_def)
  with assms places_other [OF assms(2)] show ?thesis
    by (auto simp: only_object_def committed_def staged_def expected_chunk_def file_in_def touches_def)
qed

lemma proper_plain:
  assumes "worker_inv s" "proper_id oid"
  shows "plain_path (objects_directory s @ [oid])" "plain_path (objects_directory s @ [oid @ ''.tmp''])"
    "object_path s oid = objects_directory s @ [oid]"
    "temporary (object_path s oid) = objects_directory s @ [oid @ ''.tmp'']"
proof -
  have v: "valid_object_id oid" using assms(2) by (simp add: proper_id_def)
  then show o: "object_path s oid = objects_directory s @ [oid]" by (simp add: object_path_def valid_elems)
  then show "temporary (object_path s oid) = objects_directory s @ [oid @ ''.tmp'']" by (simp add: temporary_def)
  show "plain_path (objects_directory s @ [oid])" "plain_path (objects_directory s @ [oid @ ''.tmp''])"
    using assms(1) v by (auto simp: worker_inv_def valid_object_id_iff slash_def append_eq_Cons_conv dest: arg_cong [of _ _ length])
qed

lemma abort_touches:
  assumes "worker_inv s" "proper_id oid" "touches {objects_directory s @ [oid @ ''.tmp'']} (sw_disk s) d"
  shows "touches {objects_directory s @ [oid @ ''.tmp'']} (sw_disk s)
    (snd (fs_remove f d (objects_directory s @ [oid @ ''.tmp''])))"
  using assms(3) remove_touches [OF _ proper_plain(2) [OF assms(1,2)], of d f]
  by (blast intro: touches_trans dest: touches_def [THEN iffD1])

lemma touches_committed:
  "touches {objects_directory s @ [oid @ ''.tmp'']} (sw_disk s) (sw_disk s') \<Longrightarrow>
   objects_directory s' = objects_directory s \<Longrightarrow> committed s' oid = committed s oid"
  by (simp add: touches_def committed_def file_in_def)

section \<open>The outcome of a chunk\<close>

text \<open>What the temporary file holds after the chunk.\<close>

definition chunk_written :: "PutRequest \<Rightarrow> StorageWorker \<Rightarrow> byte list" where
  "chunk_written req s =
     (if ptq_chunk_index req = 0 then []
      else (case staged s (ptq_object_id req) of None \<Rightarrow> [] | Some c \<Rightarrow> c)) @ ptq_data req"

text \<open>
  A successful chunk is the expected one and extends the temporary file, or the object
  itself when it is the last; a refused one leaves every committed object as it is.
\<close>

lemma write_chunk_outcome:
  assumes call: "write_chunk h req s = (st, s')" and inv: "worker_inv s" and proper: "proper_id (ptq_object_id req)"
  shows "only_object (ptq_object_id req) s s'
    \<and> (if st = StSuccess
       then (ptq_chunk_index req = 0 \<or> expected_chunk s (ptq_object_id req) = Some (ptq_chunk_index req))
         \<and> (if ptq_final_chunk req
            then committed s' (ptq_object_id req) = Some (chunk_written req s)
              \<and> expected_chunk s' (ptq_object_id req) = None
            else committed s' (ptq_object_id req) = committed s (ptq_object_id req)
              \<and> staged s' (ptq_object_id req) = Some (chunk_written req s)
              \<and> expected_chunk s' (ptq_object_id req) = Some (ptq_chunk_index req + 1))
       else committed s' (ptq_object_id req) = committed s (ptq_object_id req))"
proof -
  define f where "f = sh_faults h"
  define oid where "oid = ptq_object_id req"
  define i where "i = ptq_chunk_index req"
  define final where "final = objects_directory s @ [oid]"
  define tmp where "tmp = objects_directory s @ [oid @ ''.tmp'']"
  define s0 where "s0 = (if i = 0 then s\<lparr>next_chunks := AList.update oid 0 (next_chunks s)\<rparr> else s)"
  have pr: "proper_id oid" "valid_object_id oid" using proper by (simp_all add: oid_def proper_id_def)
  note pl = proper_plain [OF inv pr(1), folded final_def tmp_def]
  have s0: "sw_disk s0 = sw_disk s" "objects_directory s0 = objects_directory s" "object_path s0 oid = final"
    "\<And>k. k \<noteq> oid \<Longrightarrow> map_of (next_chunks s0) k = map_of (next_chunks s) k"
    using pl(3) by (auto simp: s0_def object_path_def)
  have wf: "disk_wf (sw_disk s)" using inv by (simp add: worker_inv_def)
  have pls: "places s oid = {final, tmp}" by (simp add: places_def final_def tmp_def)
  have aborted: "only_object oid s (abort_write h oid tmp t) \<and> committed (abort_write h oid tmp t) oid = committed s oid"
    if "touches {tmp} (sw_disk s) (sw_disk t)" "objects_directory t = objects_directory s"
      "\<And>k. k \<noteq> oid \<Longrightarrow> map_of (next_chunks t) k = map_of (next_chunks s) k" for t
  proof -
    let ?t = "abort_write h oid tmp t"
    have d: "touches {tmp} (sw_disk s) (sw_disk ?t)"
      using abort_touches [OF inv pr(1), folded tmp_def, OF that(1), of "sh_faults h"] by (simp add: abort_write_def)
    then have "touches (places s oid) (sw_disk s) (sw_disk ?t)" by (rule touches_mono) (simp add: pls)
    with only_objectI [OF inv pr(1), of ?t] touches_committed [of s oid ?t] d that(2,3) show ?thesis
      by (simp add: abort_write_def tmp_def)
  qed
  have tf: "temporary final = tmp" using pl(3,4) by simp
  have eq: "write_chunk h req s =
    (case map_of (next_chunks s0) oid of
       None \<Rightarrow> (StInvalidRequest, abort_write h oid tmp s0)
     | Some expected \<Rightarrow>
    if i \<noteq> expected then (StInvalidRequest, abort_write h oid tmp s0)
    else (case sh_space h (sw_disk s0) of
       None \<Rightarrow> (StWriteError, abort_write h oid tmp s0)
     | Some space_available \<Rightarrow>
    if unat space_available < length (ptq_data req) then (StNoSpace, abort_write h oid tmp s0)
    else (case open_out f (sw_disk s0) tmp (i \<noteq> 0) of
       (Inl _, d1) \<Rightarrow> (StWriteError, abort_write h oid tmp (s0\<lparr>sw_disk := d1\<rparr>))
     | (Inr l, d1) \<Rightarrow>
    (case append_out f d1 l (ptq_data req) of (ok, d2) \<Rightarrow>
    let s2 = s0\<lparr>sw_disk := d2\<rparr> in
    if \<not> ok \<or> fails f Sys_flush tmp \<or> fails f Sys_close tmp
    then (StWriteError, abort_write h oid tmp s2)
    else let s3 = s2\<lparr>next_chunks := AList.update oid (expected + 1) (next_chunks s2)\<rparr> in
    if \<not> ptq_final_chunk req then (StSuccess, s3)
    else (case fs_rename f d2 tmp final of
       (Some _, d3) \<Rightarrow> (StWriteError, abort_write h oid tmp (s3\<lparr>sw_disk := d3\<rparr>))
     | (None, d3) \<Rightarrow> (StSuccess, s3\<lparr>sw_disk := d3, next_chunks := AList.delete oid (next_chunks s3)\<rparr>))))))"
    unfolding write_chunk_def Let_def oid_def [symmetric] i_def [symmetric] f_def [symmetric] pl(3) tf s0_def [symmetric]
    using pr(2) by simp
  have refl: "touches {tmp} (sw_disk s) (sw_disk s)" using wf by (rule touches_refl)
  show ?thesis
  proof (cases "map_of (next_chunks s0) oid = Some i \<and> (\<exists>n. sh_space h (sw_disk s) = Some n \<and> length (ptq_data req) \<le> unat n)")
    case False
    with call have "st \<noteq> StSuccess \<and> s' = abort_write h oid tmp s0"
      by (auto simp: eq s0(1) split: option.splits if_splits)
    with aborted [of s0] refl s0 show ?thesis by (simp add: oid_def)
  next
    case True
    then obtain n where n: "map_of (next_chunks s0) oid = Some i" "sh_space h (sw_disk s) = Some n"
      "\<not> unat n < length (ptq_data req)" by auto
    obtain o1 d1 where o: "open_out f (sw_disk s) tmp (i \<noteq> 0) = (o1, d1)" by fastforce
    show ?thesis
    proof (cases o1)
      case (Inl e)
      with o have "d1 = sw_disk s" using open_out_failed by blast
      with call n o Inl s0 have "st \<noteq> StSuccess" "s' = abort_write h oid tmp (s0\<lparr>sw_disk := sw_disk s\<rparr>)"
        by (auto simp: eq)
      with aborted [of "s0\<lparr>sw_disk := sw_disk s\<rparr>"] refl s0 show ?thesis by (simp add: oid_def)
    next
      case (Inr l)
      from open_out_ok [OF o [unfolded Inr] wf pl(2)] have l: "l = tmp" and wf1: "disk_wf d1"
        and d1: "\<And>k. node_at d1 k = (if k = tmp then Some (File (if i \<noteq> 0 then file_bytes (sw_disk s) tmp else []))
            else node_at (sw_disk s) k)" by auto
      obtain ok d2 where ap: "append_out f d1 tmp (ptq_data req) = (ok, d2)" by fastforce
      have "node_at d1 tmp = Some (File (if i \<noteq> 0 then file_bytes (sw_disk s) tmp else []))" by (simp add: d1)
      from append_out_ok [OF ap wf1 this] obtain c where wf2: "disk_wf d2" and c: "node_at d2 tmp = Some (File c)"
        "ok \<longrightarrow> c = (if i \<noteq> 0 then file_bytes (sw_disk s) tmp else []) @ ptq_data req"
        and d2: "\<And>k. k \<noteq> tmp \<Longrightarrow> node_at d2 k = node_at d1 k" by auto
      have t2: "touches {tmp} (sw_disk s) d2" using wf2 d1 d2 by (simp add: touches_def)
      show ?thesis
      proof (cases "\<not> ok \<or> fails f Sys_flush tmp \<or> fails f Sys_close tmp")
        case True
        with call n o Inr l ap s0 have "st \<noteq> StSuccess" "s' = abort_write h oid tmp (s0\<lparr>sw_disk := d2\<rparr>)"
          by (auto simp: eq)
        with aborted [of "s0\<lparr>sw_disk := d2\<rparr>"] t2 s0 show ?thesis by (simp add: oid_def)
      next
        case False
        have "file_bytes (sw_disk s) tmp = (case staged s oid of None \<Rightarrow> [] | Some c \<Rightarrow> c)"
          by (simp add: file_bytes_def staged_def file_in_def tmp_def split: option.split node.split)
        then have cw: "c = chunk_written req s" using c(2) False
          by (simp add: chunk_written_def i_def oid_def)
        have idx: "i = 0 \<or> expected_chunk s oid = Some i" using n(1) by (auto simp: s0_def expected_chunk_def split: if_splits)
        let ?s3 = "s0\<lparr>sw_disk := d2, next_chunks := AList.update oid (i + 1) (next_chunks s0)\<rparr>"
        have nx: "\<And>k. k \<noteq> oid \<Longrightarrow> map_of (next_chunks ?s3) k = map_of (next_chunks s) k" using s0(4) by simp
        show ?thesis
        proof (cases "ptq_final_chunk req")
          case nf: False
          with call n o Inr l ap s0 False have res: "st = StSuccess" "s' = ?s3" by (auto simp: eq)
          have "touches (places s oid) (sw_disk s) (sw_disk ?s3)" using touches_mono [OF t2] by (simp add: pls)
          with only_objectI [OF inv pr(1), of ?s3] nx s0(2) have "only_object oid s ?s3" by simp
          moreover have "committed ?s3 oid = committed s oid"
            using touches_committed [of s oid ?s3] t2 s0(2) by (simp add: tmp_def)
          moreover have "staged ?s3 oid = Some c" "expected_chunk ?s3 oid = Some (i + 1)"
            using c(1) s0(2) by (simp_all add: staged_def file_in_def tmp_def expected_chunk_def)
          ultimately show ?thesis using res nf idx cw by (simp add: oid_def i_def)
        next
          case fin: True
          obtain ec d3 where rn: "fs_rename f d2 tmp final = (ec, d3)" by fastforce
          show ?thesis
          proof (cases ec)
            case (Some e)
            with rn have d3: "d3 = d2" using rename_failed by blast
            with call n o Inr l ap s0 False fin rn Some have "st \<noteq> StSuccess" "s' = abort_write h oid tmp (?s3\<lparr>sw_disk := d2\<rparr>)"
              by (auto simp: eq)
            with aborted [of "?s3\<lparr>sw_disk := d2\<rparr>"] t2 nx s0 show ?thesis by (simp add: oid_def)
          next
            case None
            have ne: "tmp \<noteq> final" by (simp add: tmp_def final_def)
            from rename_file_ok [OF rn [unfolded None] wf2 pl(2,1) c(1) ne]
            have wf3: "disk_wf d3" and d3: "\<And>k. node_at d3 k =
                (if k = final then Some (File c) else if k = tmp then None else node_at d2 k)" by blast+
            let ?s4 = "s0\<lparr>sw_disk := d3, next_chunks := AList.delete oid (next_chunks ?s3)\<rparr>"
            from call n o Inr l ap s0 False fin rn None have res: "st = StSuccess" "s' = ?s4" by (auto simp: eq)
            have "touches (places s oid) (sw_disk s) (sw_disk ?s4)"
              using wf3 d3 d2 d1 by (simp add: touches_def pls)
            with only_objectI [OF inv pr(1), of ?s4] nx s0 have "only_object oid s ?s4" by simp
            moreover have "committed ?s4 oid = Some c" "expected_chunk ?s4 oid = None"
              using d3 s0(2) by (simp_all add: committed_def file_in_def final_def expected_chunk_def)
            ultimately show ?thesis using res fin idx cw by (simp add: oid_def i_def)
          qed
        qed
      qed
    qed
  qed
qed

lemma remove_file_in:
  assumes "fs_remove f d p = (Inr b, d')" "disk_wf d" "plain_path p"
  shows "file_in d' p = None"
proof (cases b)
  case True
  with remove_ok [OF assms] show ?thesis by (simp add: file_in_def)
next
  case False
  have "node_at d p = None"
  proof (rule ccontr)
    assume "node_at d p \<noteq> None"
    with resolve_node [OF assms(2,3)] have "resolve d [] p = Inr p" by blast
    with assms(1) False \<open>node_at d p \<noteq> None\<close> show False
      by (auto simp: fs_remove_def split: if_splits option.splits node.splits)
  qed
  moreover have "d' = d" using remove_ok [OF assms] False by simp
  ultimately show ?thesis by (simp add: file_in_def)
qed

lemma delete_outcome:
  assumes call: "delete_object h oid s = (st, s')" and inv: "worker_inv s" and proper: "proper_id oid"
  shows "only_object oid s s'
    \<and> (st = StSuccess \<longrightarrow> committed s' oid = None \<and> staged s' oid = None \<and> expected_chunk s' oid = None)"
proof -
  define final where "final = objects_directory s @ [oid]"
  define tmp where "tmp = objects_directory s @ [oid @ ''.tmp'']"
  note pl = proper_plain [OF inv proper, folded final_def tmp_def]
  have v: "valid_object_id oid" using proper by (simp add: proper_id_def)
  have wf: "disk_wf (sw_disk s)" using inv by (simp add: worker_inv_def)
  obtain r1 d1 where d1: "fs_remove (sh_faults h) (sw_disk s) final = (r1, d1)" by fastforce
  obtain r2 d2 where d2: "fs_remove (sh_faults h) d1 tmp = (r2, d2)" by fastforce
  note o1 = remove_ok [OF d1 wf pl(1)]
  then have wf1: "disk_wf d1" by blast
  note o2 = remove_ok [OF d2 wf1 pl(2)]
  have pls: "places s oid = {final, tmp}" by (simp add: places_def final_def tmp_def)
  have t1: "touches (places s oid) (sw_disk s) d1" using o1 by (auto simp: touches_def pls split: if_splits)
  have t2: "touches (places s oid) d1 d2" using o2 by (auto simp: touches_def pls split: if_splits)
  have tmp: "temporary final = tmp" using pl(3,4) by simp
  have s': "s' = s\<lparr>sw_disk := d1\<rparr> \<and> st \<noteq> StSuccess \<or> s' = s\<lparr>sw_disk := d2\<rparr> \<and> st \<noteq> StSuccess
      \<or> s' = s\<lparr>sw_disk := d2, next_chunks := AList.delete oid (next_chunks s)\<rparr> \<and> (\<exists>b. r1 = Inr b) \<and> (\<exists>b. r2 = Inr b)"
    using call v d1 d2 by (auto simp: delete_object_def Let_def pl(3) tmp split: sum.splits)
  then have "only_object oid s s'"
    using only_objectI [OF inv proper, of s'] t1 touches_trans [OF t1 t2] by auto
  moreover have gone: "file_in d2 final = None \<and> file_in d2 tmp = None" if "r1 = Inr b1" "r2 = Inr b2" for b1 b2
  proof -
    have gone1: "file_in d1 final = None"
      using o1 remove_file_in [OF d1 [unfolded that(1)] wf pl(1)] by simp
    have gone2: "file_in d2 tmp = None" using remove_file_in [OF d2 [unfolded that(2)] wf1 pl(2)] by simp
    have "final \<noteq> tmp" by (simp add: final_def tmp_def)
    with o2 have "node_at d2 final = node_at d1 final" by (auto split: if_splits)
    with gone1 gone2 show ?thesis by (simp add: file_in_def)
  qed
  moreover have "committed s' oid = None \<and> staged s' oid = None \<and> expected_chunk s' oid = None" if "st = StSuccess"
  proof -
    from s' that obtain b1 b2 where res: "s' = s\<lparr>sw_disk := d2, next_chunks := AList.delete oid (next_chunks s)\<rparr>"
      and ok: "r1 = Inr b1" "r2 = Inr b2" by blast
    from gone [OF ok] show ?thesis
      by (simp add: res committed_def staged_def expected_chunk_def final_def tmp_def)
  qed
  ultimately show ?thesis by blast
qed

section \<open>Runs of a worker\<close>

datatype storage_request = Put PutRequest | Get GetRequest | Delete DeleteRequest

text \<open>One request: its status, the data it returns, and the worker after it.\<close>

fun serve :: "StorageHost \<Rightarrow> storage_request \<Rightarrow> StorageWorker \<Rightarrow> StorageStatus \<times> byte list \<times> StorageWorker" where
  "serve h (Put req) s = (case write_chunk h req s of (st, s') \<Rightarrow> (st, [], s'))"
| "serve h (Get req) s = (case read_object h req s of (st, bytes) \<Rightarrow> (st, bytes, s))"
| "serve h (Delete req) s = (case delete_object h (dlq_object_id req) s of (st, s') \<Rightarrow> (st, [], s'))"

fun target :: "storage_request \<Rightarrow> string" where
  "target (Put req) = ptq_object_id req"
| "target (Get req) = gtq_object_id req"
| "target (Delete req) = dlq_object_id req"

fun serve_all :: "(StorageHost \<times> storage_request) list \<Rightarrow> StorageWorker \<Rightarrow> (storage_request \<times> StorageStatus) list \<times> StorageWorker" where
  "serve_all [] s = ([], s)"
| "serve_all ((h, r) # rs) s =
     (case serve h r s of (st, _, s1) \<Rightarrow> (case serve_all rs s1 of (out, s2) \<Rightarrow> ((r, st) # out, s2)))"

lemma serve_only:
  "serve h r s = (st, bytes, s') \<Longrightarrow> worker_inv s \<Longrightarrow> proper_id (target r) \<Longrightarrow> only_object (target r) s s'"
  by (cases r) (auto simp: only_object_def split: prod.splits dest: write_chunk_outcome delete_outcome)

lemma serve_keeps:
  assumes "serve h r s = (st, bytes, s')" "worker_inv s" "proper_id (target r)" "proper_id oid"
    "target r \<noteq> oid \<or> (\<exists>g. r = Get g)"
  shows "worker_inv s' \<and> committed s' oid = committed s oid \<and> staged s' oid = staged s oid
    \<and> expected_chunk s' oid = expected_chunk s oid"
  using serve_only [OF assms(1-3)] assms(1,2,4,5)
  by (auto simp: only_object_def split: prod.splits)

fun changes :: "string \<Rightarrow> storage_request \<Rightarrow> bool" where
  "changes oid (Get g) = False"
| "changes oid r = (target r = oid)"

text \<open>The chunks \<open>k, k + 1, \<dots>\<close> of an upload, the last of them marked as final.\<close>

fun upload :: "nat \<Rightarrow> PutRequest list \<Rightarrow> bool" where
  "upload k [] = True"
| "upload k (p # ps) = (ptq_chunk_index p = word_of_nat k \<and> ptq_final_chunk p = (ps = []) \<and> k < 2 ^ 32
     \<and> upload (Suc k) ps)"

lemma serve_keeps_others:
  assumes "serve h r s = (st, bytes, s')" "worker_inv s" "proper_id (target r)" "proper_id oid" "\<not> changes oid r"
  shows "worker_inv s' \<and> committed s' oid = committed s oid \<and> staged s' oid = staged s oid"
  using serve_keeps [OF assms(1-4)] assms(5) by (cases r) auto

lemma serve_all_keeps:
  "serve_all rs s = (out, s') \<Longrightarrow> worker_inv s \<Longrightarrow> \<forall>(h, r) \<in> set rs. proper_id (target r) \<and> \<not> changes oid r \<Longrightarrow>
   proper_id oid \<Longrightarrow> worker_inv s' \<and> committed s' oid = committed s oid"
proof (induction rs arbitrary: s out)
  case (Cons hr rs)
  obtain h r where hr: "hr = (h, r)" by fastforce
  obtain st bytes s1 where s1: "serve h r s = (st, bytes, s1)" by (cases "serve h r s") auto
  with Cons.prems hr have "worker_inv s1 \<and> committed s1 oid = committed s oid"
    using serve_keeps_others [OF s1] by auto
  with Cons.IH [of s1] Cons.prems hr s1 show ?case by (auto split: prod.splits)
qed simp

lemma upload_committed:
  "serve_all rs s = (out, s') \<Longrightarrow> worker_inv s \<Longrightarrow> proper_id oid \<Longrightarrow> \<forall>(h, r) \<in> set rs. proper_id (target r) \<Longrightarrow>
   filter (changes oid) (map snd rs) = map Put ps \<Longrightarrow> ps \<noteq> [] \<Longrightarrow> upload k ps \<Longrightarrow>
   \<forall>(r, st) \<in> set out. changes oid r \<longrightarrow> st = StSuccess \<Longrightarrow>
   k = 0 \<and> w = [] \<or> 0 < k \<and> staged s oid = Some w \<Longrightarrow>
   worker_inv s' \<and> committed s' oid = Some (w @ concat (map ptq_data ps))"
proof (induction rs arbitrary: s out k w ps)
  case (Cons hr rs)
  obtain h r where hr: "hr = (h, r)" by fastforce
  obtain st bytes s1 where s1: "serve h r s = (st, bytes, s1)" by (cases "serve h r s") auto
  obtain out1 where out1: "serve_all rs s1 = (out1, s')" "out = (r, st) # out1"
    using Cons.prems(1) hr s1 by (auto split: prod.splits)
  have proper: "proper_id (target r)" "\<forall>(h, r) \<in> set rs. proper_id (target r)" using Cons.prems(4) hr by auto
  show ?case
  proof (cases "changes oid r")
    case False
    with serve_keeps_others [OF s1 Cons.prems(2) proper(1) Cons.prems(3)]
    have "worker_inv s1" "staged s1 oid = staged s oid" by simp_all
    with Cons.IH [OF out1(1) _ Cons.prems(3) proper(2), of ps k w] Cons.prems(5-9) False hr out1(2)
    show ?thesis by auto
  next
    case True
    with Cons.prems(5) hr obtain p qs where ps: "ps = p # qs" "r = Put p"
      and qs: "filter (changes oid) (map snd rs) = map Put qs" by (cases ps) auto
    have tgt: "ptq_object_id p = oid" using True ps by simp
    have up: "ptq_chunk_index p = word_of_nat k" "ptq_final_chunk p = (qs = [])" "k < 2 ^ 32" "upload (Suc k) qs"
      using Cons.prems(7) ps by auto
    have st: "st = StSuccess" using Cons.prems(8) out1(2) True by auto
    have wc: "write_chunk h p s = (st, s1)" using s1 ps by (auto split: prod.splits)
    have "unat (word_of_nat k :: u32) = k" using up(3) by (simp add: unat_of_nat)
    then have "(word_of_nat k :: u32) = 0 \<longleftrightarrow> k = 0" by (metis unat_0 unat_eq_0)
    then have cw: "chunk_written p s = w @ ptq_data p"
      using Cons.prems(9) up(1) tgt by (auto simp: chunk_written_def)
    note oc = write_chunk_outcome [OF wc Cons.prems(2)]
    have inv1: "worker_inv s1" using oc Cons.prems(3) tgt by (simp add: only_object_def)
    show ?thesis
    proof (cases "qs = []")
      case True
      with oc st up(2) tgt Cons.prems(3) cw have "committed s1 oid = Some (w @ ptq_data p)" by simp
      moreover have "\<forall>(h, r) \<in> set rs. proper_id (target r) \<and> \<not> changes oid r"
        using qs True proper(2) by (fastforce simp: filter_empty_conv)
      ultimately show ?thesis
        using serve_all_keeps [OF out1(1) inv1 _ Cons.prems(3)] ps True by simp
    next
      case False
      with oc st up(2) tgt Cons.prems(3) cw have "staged s1 oid = Some (w @ ptq_data p)" by simp
      with Cons.IH [OF out1(1) inv1 Cons.prems(3) proper(2) qs False up(4), of "w @ ptq_data p"] Cons.prems(8) out1(2) ps
      show ?thesis by auto
    qed
  qed
qed simp

section \<open>Reading an object back\<close>

lemma read_object_slice:
  assumes ok: "\<not> fails (sh_faults h) Sys_open (object_path s oid)" "\<not> fails (sh_faults h) Sys_read (object_path s oid)"
    and inv: "worker_inv s" and proper: "proper_id oid" and obj: "committed s oid = Some c"
    and req: "gtq_object_id req = oid" "gtq_byte_count req \<le> CHUNK_SIZE"
    and len: "length c < 2 ^ 64" "unat (gtq_chunk_index req) * unat CHUNK_SIZE \<le> length c"
  shows "read_object h req s =
    (StSuccess, take (unat (gtq_byte_count req)) (drop (unat (gtq_chunk_index req) * unat CHUNK_SIZE) c))"
proof -
  let ?p = "objects_directory s @ [oid]"
  note pl = proper_plain [OF inv proper]
  have node: "node_at (sw_disk s) ?p = Some (File c)"
    using obj by (auto simp: committed_def file_in_def split: option.splits node.splits)
  then have "resolve (sw_disk s) [] ?p = Inr ?p"
    using resolve_node [OF _ pl(1)] inv by (auto simp: worker_inv_def)
  with ok node have open_ok: "open_in (sh_faults h) (sw_disk s) ?p = Inr c" by (simp add: open_in_def pl(3))
  define off where "off = (ucast (gtq_chunk_index req) * ucast CHUNK_SIZE :: u64)"
  have "unat (gtq_chunk_index req) < 2 ^ 32" using unsigned_less [of "gtq_chunk_index req"] by simp
  then have "unat (gtq_chunk_index req) * 524288 < 2 ^ 64" by simp
  then have off: "unat off = unat (gtq_chunk_index req) * unat CHUNK_SIZE"
    by (simp add: off_def CHUNK_SIZE_def unat_word_ariths unat_ucast_32_64)
  have size: "unat (word_of_nat (length c) :: u64) = length c" using len(1) by (simp add: unat_of_nat)
  have le: "\<not> off > word_of_nat (length c)" using len(2) off size by (simp add: word_less_nat_alt)
  have bytes: "unat (min (ucast (gtq_byte_count req)) (word_of_nat (length c) - off)) =
      min (unat (gtq_byte_count req)) (length c - unat off)"
  proof -
    have "unat (word_of_nat (length c) - off) = length c - unat off" using le size by (simp add: unat_sub not_less)
    then show ?thesis by (simp add: min_def word_le_nat_alt unat_ucast_32_64)
  qed
  have "read_object h req s = (StSuccess, take (unat (min (ucast (gtq_byte_count req)) (word_of_nat (length c) - off))) (drop (unat off) c))"
    using open_ok ok(2) req proper le by (simp add: read_object_def pl(3) proper_id_def Let_def off_def not_less)
  moreover have "take (min n (length xs)) xs = take n xs" for n and xs :: "byte list" by (simp add: min_def)
  from this [of "unat (gtq_byte_count req)" "drop (unat off) c"] have
    "take (min (unat (gtq_byte_count req)) (length c - unat off)) (drop (unat off) c) =
      take (unat (gtq_byte_count req)) (drop (unat off) c)" by simp
  ultimately show ?thesis unfolding bytes by (simp only: off)
qed

text \<open>An object cut into blocks, the last one possibly short.\<close>

lemma concat_slices:
  "length c \<le> n * b \<Longrightarrow> concat (map (\<lambda>i. take b (drop (i * b) c)) [0..<n]) = c"
proof -
  have "concat (map (\<lambda>i. take b (drop (i * b) c)) [0..<n]) = take (n * b) c"
    by (induction n) (simp_all add: take_add add.commute [of b])
  then show "length c \<le> n * b \<Longrightarrow> ?thesis" by simp
qed

text \<open>The request for block \<open>i\<close>, as a reader of whole blocks sends it.\<close>

definition block_request :: "RequestContext \<Rightarrow> string \<Rightarrow> nat \<Rightarrow> GetRequest" where
  "block_request ctx oid i = \<lparr>gtq_object_id = oid, gtq_chunk_index = word_of_nat i,
     gtq_byte_count = CHUNK_SIZE, gtq_context = ctx\<rparr>"

section \<open>A sample worker\<close>

text \<open>Object \<open>a\<close> is stored, object \<open>b\<close> is being written.\<close>

definition sample_worker :: StorageWorker where
  "sample_worker = \<lparr>
     sw_disk = [([''o''], Dir), ([''o'', ''a''], File [1, 2]), ([''o'', ''b.tmp''], File [9])],
     objects_directory = [''o''], next_chunks = [(''b'', 1)]\<rparr>"

definition roomy :: StorageHost where
  "roomy = \<lparr>sh_faults = no_faults, sh_space = (\<lambda>_. Some 100)\<rparr>"

definition full :: StorageHost where
  "full = \<lparr>sh_faults = no_faults, sh_space = (\<lambda>_. Some 0)\<rparr>"

definition sample_context :: RequestContext where
  "sample_context = \<lparr>ctx_request_id = 1, ctx_sender = \<lparr>peer_id = ''m'', peer_role = METADATA\<rparr>\<rparr>"

definition sample_put :: "string \<Rightarrow> u32 \<Rightarrow> bool \<Rightarrow> byte list \<Rightarrow> PutRequest" where
  "sample_put oid i final bytes = \<lparr>ptq_object_id = oid, ptq_chunk_index = i, ptq_final_chunk = final,
     ptq_data = bytes, ptq_context = sample_context\<rparr>"

lemma sample_worker_inv: "worker_inv sample_worker"
  by (simp add: worker_inv_def sample_worker_def disk_wf_def node_at_def slash_def)

lemma sample_ids: "proper_id ''a''" "proper_id ''b''" "proper_id ''c''"
  by (simp_all add: proper_id_def valid_object_id_iff slash_def Cons_eq_append_conv)

definition sample_run :: "(StorageHost \<times> storage_request) list" where
  "sample_run = [(roomy, Put (sample_put ''c'' 0 False [5])), (full, Put (sample_put ''b'' 1 True [7])),
     (roomy, Get (block_request sample_context ''a'' 0)), (roomy, Put (sample_put ''c'' 1 True [6]))]"

lemma sample_statuses: "map snd (fst (serve_all sample_run sample_worker)) = [StSuccess, StNoSpace, StSuccess, StSuccess]"
  by code_simp

section \<open>Properties of a storage node\<close>

text \<open>The object ids a node accepts are exactly the ordinary file names: an accepted id names a
  file of the objects directory and nothing else.\<close>

lemma accepted_object_ids:
  "valid_object_id oid = (oid \<noteq> [] \<and> oid \<noteq> ''.'' \<and> oid \<noteq> ''..'' \<and> slash \<notin> set oid)"
  by (rule valid_object_id_iff)

text \<open>Every id the metadata node generates is accepted, and is not the name of the temporary file
  of another object.\<close>

theorem generated_ids_accepted: "proper_id (generate a b)"
  by (rule generated_proper)

text \<open>C17. An upload commits what was sent: if the requests that change an object are its chunks
  \<open>0, 1, \<dots>\<close>, the last one marked final, and each was answered with success, the object afterwards
  is their concatenation, whatever requests for other objects and reads came between and
  whichever calls of the host failed.\<close>

theorem upload_commits:
  assumes "serve_all rs s = (out, s')" "worker_inv s" "proper_id oid" "\<forall>(h, r) \<in> set rs. proper_id (target r)"
    "filter (changes oid) (map snd rs) = map Put ps" "ps \<noteq> []" "upload 0 ps"
    "\<forall>(r, st) \<in> set out. changes oid r \<longrightarrow> st = StSuccess"
  shows "committed s' oid = Some (concat (map ptq_data ps))"
  using upload_committed [OF assms, of "[]"] by simp

theorem upload_commits_witness:
  "committed (snd (serve_all sample_run sample_worker)) ''c'' = Some [5, 6]"
proof -
  have "committed (snd (serve_all sample_run sample_worker)) ''c'' =
      Some (concat (map ptq_data [sample_put ''c'' 0 False [5], sample_put ''c'' 1 True [6]]))"
  proof (rule upload_commits [OF surjective_pairing sample_worker_inv sample_ids(3)])
    show "\<forall>(r, st) \<in> set (fst (serve_all sample_run sample_worker)). changes ''c'' r \<longrightarrow> st = StSuccess"
      by code_simp
  qed (use sample_ids in \<open>auto simp: sample_run_def sample_put_def block_request_def\<close>)
  then show ?thesis by (simp add: sample_put_def)
qed

text \<open>C21. A stored object changes in two ways only: a successful final chunk replaces it by the
  chunks written, or a request to delete it came. An upload that fails or stops half way leaves
  the old object.\<close>

theorem object_changes:
  assumes "serve h r s = (st, bytes, s')" "worker_inv s" "proper_id (target r)" "proper_id oid"
    "committed s' oid \<noteq> committed s oid"
  shows "(\<exists>p. r = Put p \<and> ptq_object_id p = oid \<and> ptq_final_chunk p \<and> st = StSuccess
       \<and> committed s' oid = Some (chunk_written p s))
     \<or> (\<exists>q. r = Delete q \<and> dlq_object_id q = oid)"
proof (cases r)
  case (Put p)
  have wc: "write_chunk h p s = (st, s')" using assms(1) Put by (auto split: prod.splits)
  have oid: "ptq_object_id p = oid" using serve_keeps_others [OF assms(1-4)] assms(5) Put by auto
  show ?thesis
    using write_chunk_outcome [OF wc assms(2)] assms(4,5) oid Put by (auto split: if_splits)
next
  case (Get g)
  with assms(1,5) show ?thesis by (auto split: prod.splits)
next
  case (Delete q)
  with serve_keeps_others [OF assms(1-4)] assms(5) show ?thesis by auto
qed

theorem object_changes_witness:
  "(\<exists>p. Put (sample_put ''b'' 1 True [7]) = Put p \<and> ptq_object_id p = ''b'' \<and> ptq_final_chunk p
       \<and> StSuccess = StSuccess
       \<and> committed (snd (snd (serve roomy (Put (sample_put ''b'' 1 True [7])) sample_worker))) ''b'' = Some (chunk_written p sample_worker))
     \<or> (\<exists>q. Put (sample_put ''b'' 1 True [7]) = Delete q \<and> dlq_object_id q = ''b'')"
proof (rule object_changes [OF _ sample_worker_inv _ sample_ids(2)])
  show "serve roomy (Put (sample_put ''b'' 1 True [7])) sample_worker =
      (StSuccess, [], snd (snd (serve roomy (Put (sample_put ''b'' 1 True [7])) sample_worker)))"
    by code_simp
  show "committed (snd (snd (serve roomy (Put (sample_put ''b'' 1 True [7])) sample_worker))) ''b'' \<noteq> committed sample_worker ''b''"
    by code_simp
qed (use sample_ids in \<open>simp add: sample_put_def\<close>)

text \<open>Reading the blocks of an object one after the other gives the object back.\<close>

theorem blocks_give_object:
  assumes "\<not> fails (sh_faults h) Sys_open (object_path s oid)" "\<not> fails (sh_faults h) Sys_read (object_path s oid)"
    "worker_inv s" "proper_id oid" "committed s oid = Some c" "length c \<le> n * unat CHUNK_SIZE" "n < 2 ^ 32"
    "\<forall>i < n. i * unat CHUNK_SIZE \<le> length c"
  shows "concat (map (\<lambda>i. snd (read_object h (block_request ctx oid i) s)) [0..<n]) = c"
proof -
  have "unat CHUNK_SIZE = 524288" by (simp add: CHUNK_SIZE_def)
  then have len: "length c < 2 ^ 64" using assms(6,7) by simp
  have "read_object h (block_request ctx oid i) s
      = (StSuccess, take (unat CHUNK_SIZE) (drop (i * unat CHUNK_SIZE) c))" if "i < n" for i
  proof -
    have "unat (word_of_nat i :: u32) = i" using that assms(7) by (simp add: unat_of_nat)
    then show ?thesis
      using read_object_slice [OF assms(1-5) _ _ len, of "block_request ctx oid i"] assms(8) that by (simp add: block_request_def)
  qed
  then have "map (\<lambda>i. snd (read_object h (block_request ctx oid i) s)) [0..<n] = map (\<lambda>i. take (unat CHUNK_SIZE) (drop (i * unat CHUNK_SIZE) c)) [0..<n]"
    by simp
  then show ?thesis by (simp only: concat_slices [OF assms(6)])
qed

theorem blocks_give_object_witness:
  "concat (map (\<lambda>i. snd (read_object roomy (block_request sample_context ''a'' i) sample_worker)) [0..<1]) = [1, 2]"
  by (rule blocks_give_object [OF _ _ sample_worker_inv sample_ids(1)])
    (simp_all add: roomy_def no_faults_def committed_def file_in_def node_at_def sample_worker_def CHUNK_SIZE_def)

text \<open>C26. After a refused chunk the temporary file is gone but its number stays expected: the same
  chunk sent again is taken, and as a final chunk commits an object without its beginning.\<close>

theorem retried_chunk_truncates:
  assumes "worker_inv s" "proper_id (ptq_object_id p)" "expected_chunk s (ptq_object_id p) = Some (ptq_chunk_index p)"
    "ptq_chunk_index p \<noteq> 0" "sh_space h (sw_disk s) = Some space" "unat space < length (ptq_data p)"
    "staged s1 (ptq_object_id p) = None" "write_chunk h p s = (st, s1)"
    "ptq_final_chunk p" "write_chunk h' p s1 = (StSuccess, s2)"
  shows "st = StNoSpace \<and> expected_chunk s1 (ptq_object_id p) = Some (ptq_chunk_index p)
    \<and> committed s2 (ptq_object_id p) = Some (ptq_data p)"
proof -
  have v: "valid_object_id (ptq_object_id p)" using assms(2) by (simp add: proper_id_def)
  have "st = StNoSpace \<and> next_chunks s1 = next_chunks s"
    using assms(3-6,8) v by (auto simp: write_chunk_def Let_def expected_chunk_def abort_write_def)
  moreover have "worker_inv s1" using write_chunk_outcome [OF assms(8,1,2)] by (simp add: only_object_def)
  from write_chunk_outcome [OF assms(10) this assms(2)] have "committed s2 (ptq_object_id p) = Some (ptq_data p)"
    using assms(4,7,9) by (simp add: chunk_written_def)
  ultimately show ?thesis using assms(3) by (simp add: expected_chunk_def)
qed

theorem retried_chunk_truncates_witness:
  "fst (write_chunk full (sample_put ''b'' 1 True [7]) sample_worker) = StNoSpace
   \<and> expected_chunk (snd (write_chunk full (sample_put ''b'' 1 True [7]) sample_worker)) ''b'' = Some 1
   \<and> committed (snd (write_chunk roomy (sample_put ''b'' 1 True [7])
        (snd (write_chunk full (sample_put ''b'' 1 True [7]) sample_worker)))) ''b'' = Some [7]"
proof -
  let ?p = "sample_put ''b'' 1 True [7]"
  let ?s1 = "snd (write_chunk full ?p sample_worker)"
  have staged: "staged ?s1 (ptq_object_id ?p) = None" by code_simp
  have second: "write_chunk roomy ?p ?s1 = (StSuccess, snd (write_chunk roomy ?p ?s1))" by code_simp
  show ?thesis
    using retried_chunk_truncates [OF sample_worker_inv _ _ _ _ _ staged surjective_pairing _ second, of 0] sample_ids
    by (simp add: sample_put_def full_def expected_chunk_def sample_worker_def)
qed

text \<open>C23. A storage node does not tell uploads of one object apart: when a first chunk of another upload
  comes between two chunks of one, all three are acknowledged, and what is committed is the
  other's beginning with the end of the first, a file that no client sent.\<close>

theorem interleaved_uploads_mix:
  assumes "worker_inv s" "proper_id oid" "ptq_object_id p = oid" "ptq_object_id q = oid" "ptq_object_id p' = oid"
    "ptq_chunk_index p = 0" "ptq_chunk_index q = 0" "ptq_chunk_index p' = 1"
    "\<not> ptq_final_chunk p" "\<not> ptq_final_chunk q" "ptq_final_chunk p'"
    "write_chunk h0 p s = (StSuccess, s1)" "write_chunk h1 q s1 = (StSuccess, s2)" "write_chunk h2 p' s2 = (st, s3)"
  shows "expected_chunk s2 oid = Some (ptq_chunk_index p')
    \<and> (st = StSuccess \<longrightarrow> committed s3 oid = Some (ptq_data q @ ptq_data p'))"
proof -
  have "worker_inv s1" using write_chunk_outcome [OF assms(12,1)] assms(2,3) by (simp add: only_object_def)
  from write_chunk_outcome [OF assms(13) this] assms(2,4,7,10)
  have s2: "worker_inv s2" "staged s2 oid = Some (ptq_data q)" "expected_chunk s2 oid = Some 1"
    by (simp_all add: only_object_def chunk_written_def)
  from write_chunk_outcome [OF assms(14) s2(1)] assms(2,5,8,11) s2 show ?thesis by (auto simp: chunk_written_def)
qed

theorem interleaved_uploads_mix_witness:
  "let s1 = snd (write_chunk roomy (sample_put ''c'' 0 False [1]) sample_worker);
       s2 = snd (write_chunk roomy (sample_put ''c'' 0 False [5]) s1);
       s3 = snd (write_chunk roomy (sample_put ''c'' 1 True [2]) s2)
   in committed s3 ''c'' = Some [5, 2]"
proof -
  let ?s1 = "snd (write_chunk roomy (sample_put ''c'' 0 False [1]) sample_worker)"
  let ?s2 = "snd (write_chunk roomy (sample_put ''c'' 0 False [5]) ?s1)"
  let ?s3 = "snd (write_chunk roomy (sample_put ''c'' 1 True [2]) ?s2)"
  have steps: "write_chunk roomy (sample_put ''c'' 0 False [1]) sample_worker = (StSuccess, ?s1)"
    "write_chunk roomy (sample_put ''c'' 0 False [5]) ?s1 = (StSuccess, ?s2)"
    "write_chunk roomy (sample_put ''c'' 1 True [2]) ?s2 = (StSuccess, ?s3)" by code_simp+
  show ?thesis
    using interleaved_uploads_mix [OF sample_worker_inv sample_ids(3) _ _ _ _ _ _ _ _ _ steps]
    by (simp add: sample_put_def Let_def)
qed

end
