(* ===== verification/Connection.thy ===== *)
theory Connection
  imports FrameIO BlockingQueue
begin

text \<open>
  \<^verbatim>\<open>common/network/Connection.hpp\<close>: one TCP connection and its queue of frames to write. The
  socket is asio's: \<open>writing\<close> is the frame of the asynchronous write that has not completed,
  \<open>handed\<close> are the frames given to \<^verbatim>\<open>FrameIO::async_write_frame\<close> so far, and \<open>operation\<close> is the
  other asynchronous operation that is under way, which \<^verbatim>\<open>Network.tpp\<close> starts and completes.
\<close>

section \<open>State\<close>

datatype ConnectionOrigin = Incoming | Outgoing

datatype operation = Resolving Endpoint | Connecting Endpoint | SayingHello | AwaitingHello | ReadingFrames | NoOperation

record Connection =
  origin :: ConnectionOrigin
  remote :: "NodeIdentity option"
  expected_remote :: "NodeIdentity option"
  write_queue :: "Frame queue"
  write_in_progress :: bool
  closed :: bool
  operation :: operation
  writing :: "Frame option"
  handed :: "Frame list"

definition new_connection :: "ConnectionOrigin \<Rightarrow> NodeIdentity option \<Rightarrow> operation \<Rightarrow> Connection" where
  "new_connection orig expected oper =
     \<lparr>origin = orig, remote = None, expected_remote = expected, write_queue = [], write_in_progress = False,
      closed = False, operation = oper, writing = None, handed = []\<rparr>"

section \<open>Operations\<close>

definition write_next :: "Connection \<Rightarrow> Connection" where
  "write_next c =
     (if closed c then c
      else (case pop (write_queue c) of
          None \<Rightarrow> c\<lparr>write_in_progress := False\<rparr>
        | Some (frame, rest) \<Rightarrow>
            c\<lparr>write_in_progress := True, write_queue := rest, writing := Some frame, handed := handed c @ [frame]\<rparr>))"

definition enqueue_write :: "Frame \<Rightarrow> Connection \<Rightarrow> Connection" where
  "enqueue_write frame c =
     (if closed c then c
      else let c1 = c\<lparr>write_queue := push frame (write_queue c)\<rparr> in
        if \<not> write_in_progress c1 then write_next c1 else c1)"

definition close :: "Connection \<Rightarrow> Connection" where
  "close c = (if closed c then c else c\<lparr>closed := True, write_in_progress := False, write_queue := []\<rparr>)"

text \<open>
  The completion of a write: the connection after it, and whether the failure handler is called.
\<close>

definition write_completed :: "bool \<Rightarrow> Connection \<Rightarrow> bool \<times> Connection" where
  "write_completed error c =
     (let c1 = c\<lparr>writing := None\<rparr> in
      if closed c1 then (False, c1)
      else if error then (True, c1\<lparr>write_in_progress := False\<rparr>)
      else (False, write_next c1))"

section \<open>At most one write at a time, in order\<close>

text \<open>The flag tells whether a write is under way, and an idle connection has nothing queued.\<close>

definition connection_ok :: "Connection \<Rightarrow> bool" where
  "connection_ok c \<longleftrightarrow> closed c \<or> (write_in_progress c = (writing c \<noteq> None) \<and> (writing c = None \<longrightarrow> write_queue c = []))"

definition taken :: "Connection \<Rightarrow> Frame list" where
  "taken c = handed c @ write_queue c"

lemma new_connection_ok [simp]:
  "connection_ok (new_connection orig e oper)" "taken (new_connection orig e oper) = []"
  "remote (new_connection orig e oper) = None" "closed (new_connection orig e oper) = False"
  "operation (new_connection orig e oper) = oper"
  by (simp_all add: new_connection_def connection_ok_def taken_def)

lemma write_next_keeps [simp]:
  "remote (write_next c) = remote c" "closed (write_next c) = closed c" "operation (write_next c) = operation c"
  "expected_remote (write_next c) = expected_remote c" "taken (write_next c) = taken c"
  by (auto simp: write_next_def pop_def taken_def split: list.split)

lemma write_next_ok: "writing c = None \<Longrightarrow> connection_ok (write_next c)"
  by (auto simp: write_next_def pop_def connection_ok_def split: list.split)

lemma enqueue_write_keeps [simp]:
  "remote (enqueue_write f c) = remote c" "closed (enqueue_write f c) = closed c"
  "operation (enqueue_write f c) = operation c" "expected_remote (enqueue_write f c) = expected_remote c"
  by (simp_all add: enqueue_write_def Let_def)

lemma enqueue_write_ok: "connection_ok c \<Longrightarrow> connection_ok (enqueue_write f c)"
  by (auto simp: enqueue_write_def Let_def connection_ok_def push_def write_next_def pop_def split: list.split)

lemma enqueue_write_taken: "\<not> closed c \<Longrightarrow> taken (enqueue_write f c) = taken c @ [f]"
proof -
  assume open_c: "\<not> closed c"
  have "taken (c\<lparr>write_queue := push f (write_queue c)\<rparr>) = taken c @ [f]" by (simp add: taken_def push_def)
  with open_c write_next_keeps(5) show ?thesis by (simp add: enqueue_write_def Let_def)
qed

lemma close_simps [simp]:
  "closed (close c)" "remote (close c) = remote c" "operation (close c) = operation c" "connection_ok (close c)"
  by (simp_all add: close_def connection_ok_def)

lemma write_completed_keeps:
  assumes "write_completed error c = (failed, c')"
  shows "remote c' = remote c \<and> closed c' = closed c \<and> operation c' = operation c"
  using assms by (auto simp: write_completed_def Let_def split: if_splits)

lemma write_completed_ok:
  assumes "write_completed error c = (failed, c')" "\<not> failed"
  shows "connection_ok c' \<and> taken c' = taken c"
proof -
  have "taken (c\<lparr>writing := None\<rparr>) = taken c" by (simp add: taken_def)
  moreover have "connection_ok (write_next (c\<lparr>writing := None\<rparr>))" by (rule write_next_ok) simp
  moreover have "closed c \<Longrightarrow> connection_ok (c\<lparr>writing := None\<rparr>)" by (simp add: connection_ok_def)
  ultimately show ?thesis using assms by (auto simp: write_completed_def Let_def split: if_splits)
qed

end
