(* ===== verification/Network.thy ===== *)
theory Network
  imports Connection "HOL-Library.List_Lexorder" "HOL-Library.Char_ord"
begin

text \<open>
  \<^verbatim>\<open>common/network/Network.hpp\<close> and \<^verbatim>\<open>Network.tpp\<close>: the connections of a node. All of it runs
  on the network thread as handlers of \<^verbatim>\<open>asio\<close>, one at a time; a handler is a function on the
  state, and \<open>net_event\<close> lists what calls one: a posted frame, the completion of an asynchronous
  operation with its error, a timer. The template parameter \<^verbatim>\<open>SelfRole\<close> is an argument.
\<close>

section \<open>State\<close>

text \<open>
  Connections are shared objects; a pointer is an index into \<open>objects\<close>. \<open>timers\<close> are the
  reconnect timers that are running, \<open>accepting\<close> tells whether an accept is under way.
\<close>

record Network =
  self_endpoint :: Endpoint
  objects :: "Connection list"
  connections :: "(NodeId \<times> nat) list"
  pending_connections :: "nat list"
  pending_frames :: "(NodeId \<times> Frame list) list"
  queued_messages :: "Message queue"
  timers :: "Endpoint list"
  accepting :: bool

definition new_network :: "Endpoint \<Rightarrow> Network" where
  "new_network self = \<lparr>self_endpoint = self, objects = [], connections = [], pending_connections = [],
     pending_frames = [], queued_messages = [], timers = [], accepting = False\<rparr>"

definition network_of_config :: "NodeConfig \<Rightarrow> Network" where
  "network_of_config c = new_network \<lparr>ep_node_id = cfg_node_id c, ep_role = cfg_role c,
     ep_host = cfg_host c, ep_port = cfg_port c\<rparr>"

definition object :: "nat \<Rightarrow> Network \<Rightarrow> Connection" where
  "object k s = objects s ! k"

definition update_object :: "nat \<Rightarrow> (Connection \<Rightarrow> Connection) \<Rightarrow> Network \<Rightarrow> Network" where
  "update_object k f s = s\<lparr>objects := (objects s)[k := f (objects s ! k)]\<rparr>"

definition set_operation :: "operation \<Rightarrow> nat \<Rightarrow> Network \<Rightarrow> Network" where
  "set_operation oper k s = update_object k (\<lambda>c. c\<lparr>operation := oper\<rparr>) s"

section \<open>Who connects to whom\<close>

definition can_connect_with_role :: "NodeRole \<Rightarrow> NodeRole \<Rightarrow> bool" where
  "can_connect_with_role self_role role \<longleftrightarrow> PeerRoles self_role AND role_bit role \<noteq> 0"

definition should_connect :: "NodeRole \<Rightarrow> Endpoint \<Rightarrow> Endpoint \<Rightarrow> bool" where
  "should_connect self_role self endpoint \<longleftrightarrow>
     can_connect_with_role self_role (ep_role endpoint) \<and> ep_node_id self < ep_node_id endpoint"

section \<open>Sending\<close>

definition frames_pending :: "NodeId \<Rightarrow> Network \<Rightarrow> Frame list" where
  "frames_pending node s = (case map_of (pending_frames s) node of None \<Rightarrow> [] | Some fs \<Rightarrow> fs)"

definition send_posted :: "NodeId \<Rightarrow> Frame \<Rightarrow> Network \<Rightarrow> Network" where
  "send_posted node frame s =
     (case map_of (connections s) node of
        None \<Rightarrow> s\<lparr>pending_frames := AList.update node (push frame (frames_pending node s)) (pending_frames s)\<rparr>
      | Some k \<Rightarrow> update_object k (enqueue_write frame) s)"

definition has_role :: "NodeRole \<Rightarrow> nat \<Rightarrow> Network \<Rightarrow> bool" where
  "has_role role k s = (case remote (object k s) of None \<Rightarrow> False | Some r \<Rightarrow> peer_role r = role)"

definition broadcast_posted :: "NodeRole \<Rightarrow> Frame \<Rightarrow> Network \<Rightarrow> Network" where
  "broadcast_posted role frame s =
     fold (\<lambda>(_, k) t. if has_role role k t then update_object k (enqueue_write frame) t else t) (connections s) s"

section \<open>Connecting\<close>

definition add_object :: "Connection \<Rightarrow> Network \<Rightarrow> Network" where
  "add_object c s = s\<lparr>objects := objects s @ [c], pending_connections := length (objects s) # pending_connections s\<rparr>"

definition connect :: "Endpoint \<Rightarrow> Network \<Rightarrow> Network" where
  "connect endpoint s = add_object (new_connection Outgoing
     (Some \<lparr>peer_id = ep_node_id endpoint, peer_role = ep_role endpoint\<rparr>) (Resolving endpoint)) s"

definition fail_connection :: "nat \<Rightarrow> Network \<Rightarrow> Network" where
  "fail_connection k s =
     (let s1 = (update_object k close s)\<lparr>pending_connections := removeAll k (pending_connections s)\<rparr> in
      case remote (object k s1) of
        None \<Rightarrow> s1
      | Some r \<Rightarrow> if map_of (connections s1) (peer_id r) = Some k
                  then s1\<lparr>connections := AList.delete (peer_id r) (connections s1)\<rparr> else s1)"

definition schedule_reconnect :: "Endpoint \<Rightarrow> Network \<Rightarrow> Network" where
  "schedule_reconnect endpoint s = s\<lparr>timers := endpoint # timers s\<rparr>"

definition timer_fired :: "Endpoint \<Rightarrow> bool \<Rightarrow> Network \<Rightarrow> Network" where
  "timer_fired endpoint error s =
     (let s1 = s\<lparr>timers := remove1 endpoint (timers s)\<rparr> in
      if error \<or> map_of (connections s1) (ep_node_id endpoint) \<noteq> None then s1 else connect endpoint s1)"

text \<open>The start of a handshake: the own \<^verbatim>\<open>HELLO\<close> is on its way.\<close>

definition hello_frame :: "NodeRole \<Rightarrow> Endpoint \<Rightarrow> exn + Frame" where
  "hello_frame self_role self =
     (let has_endpoint = (ep_host self \<noteq> [] \<and> ep_port self \<noteq> 0) in
      and_then (write_all ([write_enum role_to_u8 self_role, write_string (ep_node_id self),
          write_integral (if has_endpoint then 1 else 0 :: u8)]
          @ (if has_endpoint then [write_string (ep_host self), write_integral (ep_port self)] else [])) new_writer) (\<lambda>writer.
      and_then (writer_length writer) (\<lambda>len.
      and_then (move_data writer) (\<lambda>(bytes, _).
        Inr \<lparr>frame_header = \<lparr>hdr_magic = HEADER_MAGIC, hdr_length = len, hdr_type = HELLO\<rparr>, frame_buffer = bytes\<rparr>))))"

definition handshake :: "nat \<Rightarrow> Network \<Rightarrow> Network" where
  "handshake k s = set_operation SayingHello k s"

definition resolve_completed :: "nat \<Rightarrow> bool \<Rightarrow> Endpoint \<Rightarrow> Network \<Rightarrow> Network" where
  "resolve_completed k error endpoint s =
     (if error then schedule_reconnect endpoint (fail_connection k (set_operation NoOperation k s))
      else set_operation (Connecting endpoint) k s)"

definition connect_completed :: "nat \<Rightarrow> bool \<Rightarrow> Endpoint \<Rightarrow> Network \<Rightarrow> Network" where
  "connect_completed k error endpoint s =
     (if error then schedule_reconnect endpoint (fail_connection k (set_operation NoOperation k s))
      else handshake k s)"

text \<open>
  An accept that succeeds or fails is followed by the next one, but for the one that is aborted;
  the acceptor is never closed.
\<close>

datatype accept_error = OperationAborted | AcceptFailed

definition accept_completed :: "accept_error option \<Rightarrow> Network \<Rightarrow> Network" where
  "accept_completed error s =
     (case error of
        Some OperationAborted \<Rightarrow> s\<lparr>accepting := False\<rparr>
      | Some AcceptFailed \<Rightarrow> s
      | None \<Rightarrow> add_object (new_connection Incoming None SayingHello) s)"

text \<open>
  Opening the acceptor throws when the host is no address or the port cannot be bound; \<open>usable\<close>
  tells whether it can be opened.
\<close>

definition start_accepting :: "bool \<Rightarrow> Network \<Rightarrow> (exn + unit) \<times> Network" where
  "start_accepting usable s = (if usable then (Inr (), s\<lparr>accepting := True\<rparr>) else (Inl SystemError, s))"

text \<open>The handlers run once \<open>start\<close> has returned; if it throws, the network thread never runs.\<close>

definition start :: "NodeRole \<Rightarrow> Endpoint list \<Rightarrow> bool \<Rightarrow> Network \<Rightarrow> (exn + unit) \<times> Network" where
  "start self_role seed_nodes usable s =
     start_accepting usable
       (fold (\<lambda>endpoint t. if \<not> should_connect self_role (self_endpoint t) endpoint then t else connect endpoint t)
         seed_nodes (s\<lparr>connections := []\<rparr>))"

section \<open>Handshake\<close>

definition valid_role :: "NodeRole \<Rightarrow> bool" where
  "valid_role role \<longleftrightarrow> role = CLIENT \<or> role = METADATA \<or> role = STORAGE"

text \<open>
  The body of the \<^verbatim>\<open>try\<close>: who the peer says it is, \<open>None\<close> if it is refused. The endpoint it
  advertises is read and checked, then dropped.
\<close>

definition read_hello :: "NodeRole \<Rightarrow> NodeIdentity option \<Rightarrow> NodeIdentity option get" where
  "read_hello self_role expected =
     get_then (read_enum role_of_u8) (\<lambda>role. get_then read_string (\<lambda>node_id. get_then read_bool (\<lambda>has_endpoint.
       if \<not> valid_role role \<or> \<not> can_connect_with_role self_role role \<or> node_id = [] then get_return None
       else get_then
         (if has_endpoint then get_then read_string (\<lambda>host. get_then read_u16 (\<lambda>port.
            get_return (host \<noteq> [] \<and> port \<noteq> 0))) else get_return True) (\<lambda>endpoint_ok.
         if \<not> endpoint_ok then get_return None
         else (\<lambda>reader.
           if \<not> at_end reader then Inr (None, reader)
           else let identity = \<lparr>peer_id = node_id, peer_role = role\<rparr> in
             if expected \<noteq> None \<and> expected \<noteq> Some identity then Inr (None, reader)
             else Inr (Some identity, reader))))))"

definition accept_hello :: "NodeRole \<Rightarrow> NodeIdentity option \<Rightarrow> byte list \<Rightarrow> NodeIdentity option" where
  "accept_hello self_role expected buffer =
     (case decoded (read_hello self_role expected) buffer of Inl _ \<Rightarrow> None | Inr r \<Rightarrow> r)"

definition start_reading :: "nat \<Rightarrow> Network \<Rightarrow> Network" where
  "start_reading k s =
     (if remote (object k s) = None then fail_connection k s else set_operation ReadingFrames k s)"

definition register_connection :: "nat \<Rightarrow> NodeIdentity \<Rightarrow> Network \<Rightarrow> Network" where
  "register_connection k r s =
     (let s1 = (update_object k (\<lambda>c. c\<lparr>remote := Some r\<rparr>) s)
            \<lparr>pending_connections := removeAll k (pending_connections s),
             connections := AList.update (peer_id r) k (connections s)\<rparr>;
          s2 = (case map_of (pending_frames s1) (peer_id r) of
                  None \<Rightarrow> s1
                | Some frames \<Rightarrow> (fold (\<lambda>f t. update_object k (enqueue_write f) t) frames s1)
                    \<lparr>pending_frames := AList.delete (peer_id r) (pending_frames s1)\<rparr>)
      in start_reading k s2)"

definition hello_written :: "nat \<Rightarrow> bool \<Rightarrow> Network \<Rightarrow> Network" where
  "hello_written k error s =
     (if error then fail_connection k (set_operation NoOperation k s) else set_operation AwaitingHello k s)"

definition hello_received :: "NodeRole \<Rightarrow> nat \<Rightarrow> bool \<Rightarrow> Frame option \<Rightarrow> Network \<Rightarrow> Network" where
  "hello_received self_role k error frame s =
     (let s1 = set_operation NoOperation k s in
      case frame of
        None \<Rightarrow> fail_connection k s1
      | Some f \<Rightarrow>
          if error \<or> hdr_type (frame_header f) \<noteq> HELLO then fail_connection k s1
          else (case accept_hello self_role (expected_remote (object k s)) (frame_buffer f) of
                  None \<Rightarrow> fail_connection k s1
                | Some r \<Rightarrow> register_connection k r s1))"

section \<open>Reading\<close>

definition frame_received :: "nat \<Rightarrow> bool \<Rightarrow> Frame option \<Rightarrow> Network \<Rightarrow> Network" where
  "frame_received k error frame s =
     (let s1 = set_operation NoOperation k s in
      case (remote (object k s), frame) of
        (Some r, Some f) \<Rightarrow>
          if error then fail_connection k s1
          else if hdr_type (frame_header f) = HELLO then fail_connection k s1
          else start_reading k (s1\<lparr>queued_messages := push (message_from r f) (queued_messages s1)\<rparr>)
      | _ \<Rightarrow> fail_connection k s1)"

definition write_done :: "nat \<Rightarrow> bool \<Rightarrow> Network \<Rightarrow> Network" where
  "write_done k error s =
     (case write_completed error (object k s) of (failed, c) \<Rightarrow>
        let s1 = s\<lparr>objects := (objects s)[k := c]\<rparr> in if failed then fail_connection k s1 else s1)"

text \<open>The consumers: \<^verbatim>\<open>receive()\<close>, with a timeout, and with a predicate.\<close>

definition receive_any :: "Network \<Rightarrow> (Message \<times> Network) option" where
  "receive_any s = (case pop (queued_messages s) of None \<Rightarrow> None | Some (m, q) \<Rightarrow> Some (m, s\<lparr>queued_messages := q\<rparr>))"

definition receive_timeout :: "Network \<Rightarrow> Message option \<times> Network" where
  "receive_timeout s = (case pop_with_timeout (queued_messages s) of (m, q) \<Rightarrow> (m, s\<lparr>queued_messages := q\<rparr>))"

definition receive_matching :: "(Message \<Rightarrow> bool) \<Rightarrow> Network \<Rightarrow> Message option \<times> Network" where
  "receive_matching predicate s = (case pop_if predicate (queued_messages s) of (m, q) \<Rightarrow> (m, s\<lparr>queued_messages := q\<rparr>))"

section \<open>Events\<close>

datatype net_event =
    Sent NodeId Frame | Broadcast NodeRole Frame
  | Resolved nat bool | ConnectDone nat bool | HelloWritten nat bool | HelloRead nat bool "Frame option"
  | FrameRead nat bool "Frame option" | WriteDone nat bool | TimerFired Endpoint bool | AcceptDone "accept_error option"
  | Received "Message \<Rightarrow> bool"

text \<open>An operation completes only when it was started.\<close>

fun enabled :: "net_event \<Rightarrow> Network \<Rightarrow> bool" where
  "enabled (Resolved k _) s = (k < length (objects s) \<and> (case operation (object k s) of Resolving _ \<Rightarrow> True | _ \<Rightarrow> False))"
| "enabled (ConnectDone k _) s = (k < length (objects s) \<and> (case operation (object k s) of Connecting _ \<Rightarrow> True | _ \<Rightarrow> False))"
| "enabled (HelloWritten k _) s = (k < length (objects s) \<and> operation (object k s) = SayingHello)"
| "enabled (HelloRead k _ _) s = (k < length (objects s) \<and> operation (object k s) = AwaitingHello)"
| "enabled (FrameRead k _ _) s = (k < length (objects s) \<and> operation (object k s) = ReadingFrames)"
| "enabled (WriteDone k _) s = (k < length (objects s) \<and> writing (object k s) \<noteq> None)"
| "enabled (TimerFired e _) s = (e \<in> set (timers s))"
| "enabled (AcceptDone _) s = accepting s"
| "enabled _ s = True"

fun run_event :: "NodeRole \<Rightarrow> net_event \<Rightarrow> Network \<Rightarrow> Network" where
  "run_event role (Sent node frame) s = send_posted node frame s"
| "run_event role (Broadcast to frame) s = broadcast_posted to frame s"
| "run_event role (Resolved k error) s =
     (case operation (object k s) of Resolving e \<Rightarrow> resolve_completed k error e s | _ \<Rightarrow> s)"
| "run_event role (ConnectDone k error) s =
     (case operation (object k s) of Connecting e \<Rightarrow> connect_completed k error e s | _ \<Rightarrow> s)"
| "run_event role (HelloWritten k error) s = hello_written k error s"
| "run_event role (HelloRead k error frame) s = hello_received role k error frame s"
| "run_event role (FrameRead k error frame) s = frame_received k error frame s"
| "run_event role (WriteDone k error) s = write_done k error s"
| "run_event role (TimerFired e error) s = timer_fired e error s"
| "run_event role (AcceptDone error) s = accept_completed error s"
| "run_event role (Received predicate) s = snd (receive_matching predicate s)"

text \<open>A run; \<open>None\<close> if an event comes that cannot.\<close>

fun net_run :: "NodeRole \<Rightarrow> net_event list \<Rightarrow> Network \<Rightarrow> Network option" where
  "net_run role [] s = Some s"
| "net_run role (ev # evs) s = (if enabled ev s then net_run role evs (run_event role ev s) else None)"

end
