(* ===== verification/NetworkSafety.thy ===== *)
theory NetworkSafety
  imports Network
begin

text \<open>
  What the network layer guarantees under every order of its events: who is registered, what
  reaches the message queue, and what becomes of the frames that are sent.
\<close>

section \<open>The invariant\<close>

text \<open>An unregistered connection has written nothing of the queue and is open while its handshake runs.\<close>

definition object_ok :: "NodeRole \<Rightarrow> Connection \<Rightarrow> bool" where
  "object_ok role c \<longleftrightarrow> connection_ok c \<and> (case remote c of
     None \<Rightarrow> operation c \<noteq> ReadingFrames \<and> taken c = [] \<and> writing c = None \<and> (operation c \<noteq> NoOperation \<longrightarrow> \<not> closed c)
   | Some r \<Rightarrow> peer_id r \<noteq> [] \<and> valid_role (peer_role r) \<and> can_connect_with_role role (peer_role r)
       \<and> (operation c = ReadingFrames \<or> operation c = NoOperation))"

definition registered_ok :: "NodeId \<Rightarrow> nat \<Rightarrow> Network \<Rightarrow> bool" where
  "registered_ok n k s \<longleftrightarrow> k < length (objects s) \<and> map_option peer_id (remote (object k s)) = Some n
     \<and> \<not> closed (object k s) \<and> operation (object k s) = ReadingFrames \<and> map_of (pending_frames s) n = None"

definition message_ok :: "NodeRole \<Rightarrow> Message \<Rightarrow> bool" where
  "message_ok role m \<longleftrightarrow> peer_id (msg_sender m) \<noteq> [] \<and> valid_role (peer_role (msg_sender m))
     \<and> can_connect_with_role role (peer_role (msg_sender m)) \<and> hdr_type (msg_header m) \<noteq> HELLO"

definition net_ok :: "NodeRole \<Rightarrow> Network \<Rightarrow> bool" where
  "net_ok role s \<longleftrightarrow> (\<forall>k < length (objects s). object_ok role (object k s))
     \<and> (\<forall>n k. map_of (connections s) n = Some k \<longrightarrow> registered_ok n k s)
     \<and> (\<forall>m \<in> set (queued_messages s). message_ok role m)"

lemma update_object_sel [simp]:
  "connections (update_object k f s) = connections s" "pending_frames (update_object k f s) = pending_frames s"
  "queued_messages (update_object k f s) = queued_messages s" "length (objects (update_object k f s)) = length (objects s)"
  "timers (update_object k f s) = timers s" "pending_connections (update_object k f s) = pending_connections s"
  "self_endpoint (update_object k f s) = self_endpoint s"
  by (simp_all add: update_object_def)

lemma object_update [simp]:
  "object j (update_object k f s) = (if j = k \<and> k < length (objects s) then f (object k s) else object j s)"
  by (cases "k < length (objects s)") (auto simp: object_def update_object_def nth_list_update list_update_beyond)

lemma object_other [simp]:
  "object j (s\<lparr>connections := x\<rparr>) = object j s" "object j (s\<lparr>pending_connections := y\<rparr>) = object j s"
  "object j (s\<lparr>pending_frames := z\<rparr>) = object j s" "object j (s\<lparr>queued_messages := q\<rparr>) = object j s"
  "object j (s\<lparr>timers := ts\<rparr>) = object j s" "object j (s\<lparr>accepting := b\<rparr>) = object j s"
  by (simp_all add: object_def)

lemma net_okD:
  assumes "net_ok role s" "map_of (connections s) n = Some k"
  shows "k < length (objects s)" "map_option peer_id (remote (object k s)) = Some n" "\<not> closed (object k s)"
    "operation (object k s) = ReadingFrames" "map_of (pending_frames s) n = None" "object_ok role (object k s)"
  using assms by (auto simp: net_ok_def registered_ok_def)

text \<open>A connection is registered under one id.\<close>

lemma registered_once:
  "net_ok role s \<Longrightarrow> map_of (connections s) n = Some k \<Longrightarrow> map_of (connections s) m = Some k \<Longrightarrow> n = m"
  using net_okD(2) by (metis option.inject)

section \<open>Frames on their way\<close>

text \<open>The frames for node \<open>n\<close> that its connection has taken, or that wait for a connection.\<close>

definition node_frames :: "NodeId \<Rightarrow> Network \<Rightarrow> Frame list" where
  "node_frames n s = (case map_of (connections s) n of None \<Rightarrow> frames_pending n s | Some k \<Rightarrow> taken (object k s))"

text \<open>What an event sends to \<open>n\<close>, and what was taken by the connection to \<open>n\<close> that it ends.\<close>

fun sends :: "NodeId \<Rightarrow> net_event \<Rightarrow> Network \<Rightarrow> Frame list" where
  "sends n (Sent m f) s = (if m = n then [f] else [])"
| "sends n (Broadcast r f) s = (case map_of (connections s) n of None \<Rightarrow> [] | Some k \<Rightarrow> if has_role r k s then [f] else [])"
| "sends n _ s = []"

definition dropped :: "NodeId \<Rightarrow> Network \<Rightarrow> Network \<Rightarrow> Frame list" where
  "dropped n s s' = (case map_of (connections s) n of
     None \<Rightarrow> []
   | Some k \<Rightarrow> if map_of (connections s') n = Some k then [] else taken (object k s))"

definition accounts :: "NodeRole \<Rightarrow> net_event \<Rightarrow> Network \<Rightarrow> Network \<Rightarrow> bool" where
  "accounts role ev s s' \<longleftrightarrow> net_ok role s' \<and> (\<forall>n. node_frames n s @ sends n ev s = dropped n s s' @ node_frames n s')"

section \<open>The handlers\<close>

text \<open>A change of one object that keeps what its registration rests on and what it has taken.\<close>

lemma update_accounts:
  assumes ok: "net_ok role s" and k: "k < length (objects s)" "object_ok role (f (object k s))"
    and same: "remote (f (object k s)) = remote (object k s)" "taken (f (object k s)) = taken (object k s)"
      "\<And>n. map_of (connections s) n = Some k \<Longrightarrow> \<not> closed (f (object k s)) \<and> operation (f (object k s)) = ReadingFrames"
  shows "net_ok role (update_object k f s) \<and> node_frames n (update_object k f s) = node_frames n s
    \<and> dropped n s (update_object k f s) = []"
proof -
  have "net_ok role (update_object k f s)"
    using ok k same(1,3) unfolding net_ok_def registered_ok_def by auto
  moreover have "node_frames n (update_object k f s) = node_frames n s"
    using same(2) by (simp add: node_frames_def frames_pending_def split: option.split)
  ultimately show ?thesis by (simp add: dropped_def split: option.split)
qed

lemma fail_accounts:
  assumes ok: "net_ok role s" and k: "k < length (objects s)" and c: "object_ok role (close (f (object k s)))"
    "remote (f (object k s)) = remote (object k s)"
  shows "net_ok role (fail_connection k (update_object k f s))
    \<and> dropped n s (fail_connection k (update_object k f s)) @ node_frames n (fail_connection k (update_object k f s)) = node_frames n s"
proof -
  let ?s = "fail_connection k (update_object k f s)"
  have conn: "map_of (connections ?s) m = (if map_of (connections s) m = Some k then None else map_of (connections s) m)" for m
  proof (cases "map_of (connections s) m = Some k")
    case True
    from net_okD(2) [OF ok this] obtain r where "remote (object k s) = Some r" "peer_id r = m" by auto
    with True k c(2) show ?thesis by (simp add: fail_connection_def Let_def)
  next
    case False
    with k c(2) show ?thesis by (auto simp: fail_connection_def Let_def split: option.split)
  qed
  have rest: "pending_frames ?s = pending_frames s" "queued_messages ?s = queued_messages s" "length (objects ?s) = length (objects s)"
    "\<And>j. object j ?s = (if j = k then close (f (object k s)) else object j s)"
    using k by (auto simp: fail_connection_def Let_def split: option.split)
  have "net_ok role ?s"
    using ok c(1) unfolding net_ok_def registered_ok_def rest conn by auto
  moreover have "dropped n s ?s @ node_frames n ?s = node_frames n s"
    using net_okD(5) [OF ok, of n] rest conn
    by (auto simp: dropped_def node_frames_def frames_pending_def split: option.splits)
  ultimately show ?thesis by simp
qed

lemma add_object_accounts:
  assumes ok: "net_ok role s" and c: "object_ok role c"
  shows "net_ok role (add_object c s) \<and> node_frames n (add_object c s) = node_frames n s \<and> dropped n s (add_object c s) = []"
proof -
  have old: "object j (add_object c s) = object j s" if "j < length (objects s)" for j
    using that by (simp add: object_def add_object_def nth_append)
  have new: "object (length (objects s)) (add_object c s) = c" by (simp add: object_def add_object_def)
  have rest: "connections (add_object c s) = connections s" "pending_frames (add_object c s) = pending_frames s"
    "queued_messages (add_object c s) = queued_messages s" "length (objects (add_object c s)) = Suc (length (objects s))"
    by (simp_all add: add_object_def)
  have "object_ok role (object k (add_object c s))" if "k < Suc (length (objects s))" for k
    using ok c old new that by (cases "k = length (objects s)") (auto simp: net_ok_def)
  moreover have "registered_ok n k (add_object c s)" if "map_of (connections s) n = Some k" for n k
    using ok that old by (auto simp: net_ok_def registered_ok_def rest intro: less_SucI)
  ultimately have "net_ok role (add_object c s)" using ok by (simp add: net_ok_def rest)
  moreover have "node_frames n (add_object c s) = node_frames n s"
    using net_okD(1) [OF ok] by (auto simp: node_frames_def frames_pending_def rest old split: option.split)
  ultimately show ?thesis by (simp add: dropped_def rest split: option.split)
qed

text \<open>Parts of the state that no connection depends on.\<close>

lemma aside_ok [simp]:
  "net_ok role (s\<lparr>timers := ts\<rparr>) = net_ok role s" "net_ok role (s\<lparr>pending_connections := ps\<rparr>) = net_ok role s"
  "node_frames n (s\<lparr>timers := ts\<rparr>) = node_frames n s" "node_frames n (s\<lparr>pending_connections := ps\<rparr>) = node_frames n s"
  "dropped n s (t\<lparr>timers := ts\<rparr>) = dropped n s t" "dropped n (s\<lparr>timers := ts\<rparr>) t = dropped n s t"
  "net_ok role (s\<lparr>accepting := b\<rparr>) = net_ok role s" "node_frames n (s\<lparr>accepting := b\<rparr>) = node_frames n s"
  "dropped n s (t\<lparr>accepting := b\<rparr>) = dropped n s t"
  by (simp_all add: net_ok_def registered_ok_def node_frames_def frames_pending_def dropped_def split: option.split)

lemma messages_ok:
  "net_ok role s \<Longrightarrow> \<forall>m \<in> set q. message_ok role m \<Longrightarrow> net_ok role (s\<lparr>queued_messages := q\<rparr>)"
  "node_frames n (s\<lparr>queued_messages := q\<rparr>) = node_frames n s"
  "dropped n s (t\<lparr>queued_messages := q\<rparr>) = dropped n s t" "dropped n (s\<lparr>queued_messages := q\<rparr>) t = dropped n s t"
  by (simp_all add: net_ok_def registered_ok_def node_frames_def frames_pending_def dropped_def split: option.split)

lemma new_object_ok:
  "object_ok role (new_connection orig e oper)" if "oper \<noteq> ReadingFrames"
  using that by (simp add: object_ok_def) (simp add: new_connection_def)

lemma connect_accounts:
  "net_ok role s \<Longrightarrow> net_ok role (connect e s) \<and> node_frames n (connect e s) = node_frames n s \<and> dropped n s (connect e s) = []"
  unfolding connect_def by (rule add_object_accounts) (simp_all add: new_object_ok)

lemma timer_accounts: "net_ok role s \<Longrightarrow> accounts role (TimerFired e err) s (timer_fired e err s)"
proof -
  let ?s = "s\<lparr>timers := remove1 e (timers s)\<rparr>"
  assume "net_ok role s"
  then have "net_ok role ?s" by simp
  from connect_accounts [OF this, of e] have
    "net_ok role (connect e ?s)" "node_frames n (connect e ?s) = node_frames n s" "dropped n s (connect e ?s) = []" for n by auto
  moreover have "dropped n s ?s = []" for n by (simp add: dropped_def split: option.split)
  ultimately show ?thesis using \<open>net_ok role s\<close> by (simp add: accounts_def timer_fired_def Let_def)
qed

lemma no_drop [simp]: "dropped n s s = []"
  by (simp add: dropped_def split: option.split)

lemma accept_accounts: "net_ok role s \<Longrightarrow> accounts role (AcceptDone err) s (accept_completed err s)"
  using add_object_accounts [of role s "new_connection Incoming None SayingHello"]
  by (simp add: accounts_def accept_completed_def new_object_ok split: option.split accept_error.split)

lemma send_accounts: "net_ok role s \<Longrightarrow> accounts role (Sent m f) s (send_posted m f s)"
proof (cases "map_of (connections s) m")
  case None
  assume ok: "net_ok role s"
  let ?s = "s\<lparr>pending_frames := AList.update m (push f (frames_pending m s)) (pending_frames s)\<rparr>"
  have "net_ok role ?s" using ok None by (auto simp: net_ok_def registered_ok_def)
  moreover have "node_frames n s @ sends n (Sent m f) s = dropped n s ?s @ node_frames n ?s" for n
    using None by (auto simp: node_frames_def frames_pending_def push_def dropped_def split: option.split)
  ultimately show ?thesis using None by (simp add: accounts_def send_posted_def)
next
  case (Some k)
  assume ok: "net_ok role s"
  note k = net_okD [OF ok Some]
  let ?s = "update_object k (enqueue_write f) s"
  have "object_ok role (enqueue_write f (object k s))"
    using k(2,6) by (auto simp: object_ok_def enqueue_write_ok split: option.splits)
  then have "net_ok role ?s" using ok k(1) unfolding net_ok_def registered_ok_def by auto
  moreover have "node_frames n s @ sends n (Sent m f) s = dropped n s ?s @ node_frames n ?s" for n
  proof (cases "n = m")
    case True
    with Some k(1,3) show ?thesis by (simp add: node_frames_def dropped_def enqueue_write_taken)
  next
    case False
    then have "map_of (connections s) n \<noteq> Some k" using registered_once [OF ok Some, of n] by blast
    with False show ?thesis by (auto simp: node_frames_def dropped_def frames_pending_def split: option.split)
  qed
  ultimately show ?thesis using Some by (simp add: accounts_def send_posted_def)
qed

text \<open>A broadcast reaches every registered connection to a node of the role once.\<close>

lemma has_role_enqueue [simp]: "has_role role j (update_object k (enqueue_write f) s) = has_role role j s"
  by (simp add: has_role_def)

lemma broadcast_fold:
  "broadcast_posted role frame s =
     fold (\<lambda>k t. if has_role role k t then update_object k (enqueue_write frame) t else t) (map snd (connections s)) s"
  by (simp add: broadcast_posted_def fold_map comp_def case_prod_unfold)

lemma broadcast_loop:
  "distinct ks \<Longrightarrow> object j (fold (\<lambda>k t. if has_role role k t then update_object k (enqueue_write f) t else t) ks s) =
      (if j \<in> set ks \<and> has_role role j s \<and> j < length (objects s) then enqueue_write f (object j s) else object j s)"
  "connections (fold (\<lambda>k t. if has_role role k t then update_object k (enqueue_write f) t else t) ks s) = connections s"
  "pending_frames (fold (\<lambda>k t. if has_role role k t then update_object k (enqueue_write f) t else t) ks s) = pending_frames s"
  "queued_messages (fold (\<lambda>k t. if has_role role k t then update_object k (enqueue_write f) t else t) ks s) = queued_messages s"
  "length (objects (fold (\<lambda>k t. if has_role role k t then update_object k (enqueue_write f) t else t) ks s)) = length (objects s)"
  by (induction ks arbitrary: s) auto

lemma registered_objects:
  assumes "net_ok role s" "distinct (keys (connections s))"
  shows "distinct (map snd (connections s))" "k \<in> snd ` set (connections s) \<longleftrightarrow> (\<exists>n. map_of (connections s) n = Some k)"
proof -
  have "inj_on snd (set (connections s))"
  proof (rule inj_onI)
    fix x y
    assume xy: "x \<in> set (connections s)" "y \<in> set (connections s)" "snd x = snd y"
    then have "map_of (connections s) (fst x) = Some (snd x)" "map_of (connections s) (fst y) = Some (snd x)"
      using assms(2) by (metis map_of_is_SomeI prod.collapse)+
    with registered_once [OF assms(1)] have "fst x = fst y" by blast
    with xy(3) show "x = y" by (simp add: prod_eq_iff)
  qed
  with assms(2) show "distinct (map snd (connections s))" by (simp add: distinct_map)
  show "k \<in> snd ` set (connections s) \<longleftrightarrow> (\<exists>n. map_of (connections s) n = Some k)"
    using assms(2) by (force dest: map_of_SomeD intro: map_of_is_SomeI)
qed

lemma enqueue_object_ok: "object_ok role c \<Longrightarrow> remote c \<noteq> None \<Longrightarrow> object_ok role (enqueue_write f c)"
  by (auto simp: object_ok_def enqueue_write_ok split: option.splits)

lemma broadcast_accounts:
  assumes ok: "net_ok role s" and d: "distinct (keys (connections s))"
  shows "accounts role (Broadcast r f) s (broadcast_posted r f s)"
proof -
  note obj = registered_objects [OF ok d]
  note loop = broadcast_loop(1) [OF obj(1), where role = r and f = f and s = s, folded broadcast_fold]
    broadcast_loop(2-5) [where role = r and f = f and s = s and ks = "map snd (connections s)", folded broadcast_fold]
  let ?s = "broadcast_posted r f s"
  have reg: "k < length (objects s) \<and> remote (object k s) \<noteq> None \<and> object_ok role (object k s)"
    if "k \<in> snd ` set (connections s)" for k
    using that net_okD [OF ok] unfolding obj(2) by fastforce
  have "object_ok role (object k ?s)" if "k < length (objects s)" for k
    using ok that reg [of k] by (simp add: loop(1) enqueue_object_ok) (simp add: net_ok_def)
  moreover have "registered_ok n k ?s" if "map_of (connections s) n = Some k" for n k
    using net_okD [OF ok that] by (auto simp: registered_ok_def loop)
  ultimately have "net_ok role ?s" using ok by (simp add: net_ok_def loop)
  moreover have "node_frames n s @ sends n (Broadcast r f) s = dropped n s ?s @ node_frames n ?s" for n
  proof (cases "map_of (connections s) n")
    case None
    then show ?thesis by (simp add: node_frames_def frames_pending_def dropped_def loop)
  next
    case (Some k)
    note k = net_okD [OF ok Some]
    have "k \<in> snd ` set (connections s)" using Some obj(2) by blast
    with Some k show ?thesis by (simp add: node_frames_def dropped_def loop enqueue_write_taken)
  qed
  ultimately show ?thesis by (simp add: accounts_def)
qed

text \<open>Registering: the waiting frames come first.\<close>

lemma flush_loop:
  "object j (fold (\<lambda>f t. update_object k (enqueue_write f) t) fs s) =
     (if j = k \<and> k < length (objects s) then fold enqueue_write fs (object k s) else object j s)"
  "connections (fold (\<lambda>f t. update_object k (enqueue_write f) t) fs s) = connections s"
  "pending_frames (fold (\<lambda>f t. update_object k (enqueue_write f) t) fs s) = pending_frames s"
  "queued_messages (fold (\<lambda>f t. update_object k (enqueue_write f) t) fs s) = queued_messages s"
  "length (objects (fold (\<lambda>f t. update_object k (enqueue_write f) t) fs s)) = length (objects s)"
  by (induction fs arbitrary: s) auto

lemma flush_connection:
  assumes "connection_ok c" "\<not> closed c"
  shows "connection_ok (fold enqueue_write fs c) \<and> taken (fold enqueue_write fs c) = taken c @ fs
    \<and> remote (fold enqueue_write fs c) = remote c \<and> \<not> closed (fold enqueue_write fs c)"
  using assms by (induction fs arbitrary: c) (simp_all add: enqueue_write_ok enqueue_write_taken)

lemma operation_ok [simp]:
  "connection_ok (c\<lparr>operation := oper\<rparr>) = connection_ok c" "taken (c\<lparr>operation := oper\<rparr>) = taken c"
  "connection_ok (c\<lparr>remote := r\<rparr>) = connection_ok c" "taken (c\<lparr>remote := r\<rparr>) = taken c"
  by (simp_all add: connection_ok_def taken_def)

lemma register_accounts:
  assumes ok: "net_ok role s" and k: "k < length (objects s)" "remote (object k s) = None" "operation (object k s) \<noteq> NoOperation"
    and r: "peer_id r \<noteq> []" "valid_role (peer_role r)" "can_connect_with_role role (peer_role r)"
  shows "net_ok role (register_connection k r (set_operation NoOperation k s))
    \<and> (\<forall>n. node_frames n s = dropped n s (register_connection k r (set_operation NoOperation k s))
        @ node_frames n (register_connection k r (set_operation NoOperation k s)))"
proof -
  let ?s = "register_connection k r (set_operation NoOperation k s)"
  let ?n = "peer_id r"
  have objk: "object_ok role (object k s)" using ok k(1) by (simp add: net_ok_def)
  with k(2,3) have c0: "connection_ok (object k s)" "\<not> closed (object k s)" "taken (object k s) = []"
    by (auto simp: object_ok_def)
  define c1 where "c1 = (object k s)\<lparr>operation := NoOperation, remote := Some r\<rparr>"
  define c2 where "c2 = fold enqueue_write (frames_pending ?n s) c1"
  have c1: "connection_ok c1" "\<not> closed c1" "taken c1 = []" "remote c1 = Some r" using c0 by (simp_all add: c1_def)
  note c2 = flush_connection [OF c1(1,2), of "frames_pending ?n s", folded c2_def]
  have parts: "connections ?s = AList.update ?n k (connections s)" "map_of (pending_frames ?s) = (map_of (pending_frames s))(?n := None)"
    "queued_messages ?s = queued_messages s" "length (objects ?s) = length (objects s)"
    "\<And>j. object j ?s = (if j = k then c2\<lparr>operation := ReadingFrames\<rparr> else object j s)"
    using k(1) c1(4) c2
    by (auto simp: register_connection_def Let_def set_operation_def start_reading_def flush_loop c1_def c2_def
        frames_pending_def split: option.split)
  have others: "j \<noteq> k" if "map_of (connections s) n = Some j" for n j
    using net_okD(2) [OF ok that] k(2) by auto
  have "object_ok role (c2\<lparr>operation := ReadingFrames\<rparr>)" using c2 c1(4) r by (simp add: object_ok_def)
  then have "object_ok role (object j ?s)" if "j < length (objects s)" for j
    using ok that by (auto simp: parts(5) net_ok_def)
  moreover have "registered_ok n j ?s" if "map_of (connections ?s) n = Some j" for n j
    using that net_okD [OF ok, of n j] others [of n j] k(1) c1(4) c2
    by (auto simp: registered_ok_def parts split: if_splits)
  ultimately have "net_ok role ?s" using ok by (simp add: net_ok_def parts(3,4))
  moreover have "node_frames n s = dropped n s ?s @ node_frames n ?s" for n
  proof (cases "map_of (connections s) n")
    case None
    with c1(3) c2 show ?thesis by (simp add: node_frames_def dropped_def parts frames_pending_def)
  next
    case (Some j)
    with others [OF Some] net_okD(5) [OF ok Some] c1(3) c2 show ?thesis
      by (auto simp: node_frames_def dropped_def parts frames_pending_def)
  qed
  ultimately show ?thesis by blast
qed

text \<open>The handlers of a connection's operations.\<close>

lemma set_operation_accounts:
  assumes ok: "net_ok role s" and k: "k < length (objects s)"
    and oper: "operation (object k s) \<noteq> ReadingFrames" "operation (object k s) \<noteq> NoOperation"
      "oper \<noteq> ReadingFrames" "oper \<noteq> NoOperation"
  shows "net_ok role (set_operation oper k s) \<and> (\<forall>n. node_frames n (set_operation oper k s) = node_frames n s
    \<and> dropped n s (set_operation oper k s) = [])"
proof -
  have c: "object_ok role (object k s)" using ok k by (simp add: net_ok_def)
  then have "object_ok role ((object k s)\<lparr>operation := oper\<rparr>)"
    using oper by (auto simp: object_ok_def split: option.splits)
  moreover have "map_of (connections s) n \<noteq> Some k" for n using net_okD(4) [OF ok] oper(1) by blast
  ultimately show ?thesis
    using update_accounts [OF ok k, of "\<lambda>c. c\<lparr>operation := oper\<rparr>"] by (simp add: set_operation_def)
qed

lemma closed_taken: "writing (close c) = writing c" "taken c = [] \<Longrightarrow> taken (close c) = []"
  by (auto simp: close_def taken_def)

lemma closing_ok: "object_ok role c \<Longrightarrow> object_ok role (close (c\<lparr>operation := NoOperation\<rparr>))"
  using closed_taken [of "c\<lparr>operation := NoOperation\<rparr>"]
  by (auto simp: object_ok_def split: option.splits)

lemma give_up_accounts:
  assumes ok: "net_ok role s" and k: "k < length (objects s)"
  shows "net_ok role (fail_connection k (set_operation NoOperation k s))
    \<and> (\<forall>n. node_frames n s = dropped n s (fail_connection k (set_operation NoOperation k s))
        @ node_frames n (fail_connection k (set_operation NoOperation k s)))"
proof -
  have "object_ok role (object k s)" using ok k by (simp add: net_ok_def)
  then have "object_ok role (close ((object k s)\<lparr>operation := NoOperation\<rparr>))" by (rule closing_ok)
  from fail_accounts [OF ok k, of "\<lambda>c. c\<lparr>operation := NoOperation\<rparr>", OF this] show ?thesis
    by (simp add: set_operation_def)
qed

lemma accept_hello_Some:
  assumes "accept_hello role expected buffer = Some r"
  shows "peer_id r \<noteq> [] \<and> valid_role (peer_role r) \<and> can_connect_with_role role (peer_role r)
    \<and> (expected = None \<or> expected = Some r)"
  using assms
  by (auto simp: accept_hello_def read_hello_def decoded_def get_then_def get_return_def and_then_def Let_def
      split: sum.splits prod.splits if_splits)

lemma hello_accounts:
  assumes ok: "net_ok role s" and en: "enabled (HelloRead k e f) s"
  shows "accounts role (HelloRead k e f) s (hello_received role k e f s)"
proof -
  have k: "k < length (objects s)" "operation (object k s) = AwaitingHello" using en by auto
  have "object_ok role (object k s)" using ok k(1) by (simp add: net_ok_def)
  with k(2) have fresh: "remote (object k s) = None" by (auto simp: object_ok_def split: option.splits)
  note give_up = give_up_accounts [OF ok k(1)]
  show ?thesis
  proof (cases "f = None \<or> e \<or> hdr_type (frame_header (the f)) \<noteq> HELLO
      \<or> accept_hello role (expected_remote (object k s)) (frame_buffer (the f)) = None")
    case True
    with give_up show ?thesis by (auto simp: accounts_def hello_received_def Let_def split: option.split)
  next
    case False
    then obtain g r where f: "f = Some g" "\<not> e" "hdr_type (frame_header g) = HELLO"
      and r: "accept_hello role (expected_remote (object k s)) (frame_buffer g) = Some r" by auto
    from register_accounts [OF ok k(1) fresh] k(2) accept_hello_Some [OF r] f r show ?thesis
      by (simp add: accounts_def hello_received_def Let_def)
  qed
qed

lemma frame_accounts:
  assumes ok: "net_ok role s" and en: "enabled (FrameRead k e f) s"
  shows "accounts role (FrameRead k e f) s (frame_received k e f s)"
proof -
  have k: "k < length (objects s)" "operation (object k s) = ReadingFrames" using en by auto
  have c: "object_ok role (object k s)" using ok k(1) by (simp add: net_ok_def)
  with k(2) obtain r where r: "remote (object k s) = Some r" by (auto simp: object_ok_def split: option.splits)
  with c have ident: "peer_id r \<noteq> []" "valid_role (peer_role r)" "can_connect_with_role role (peer_role r)"
    by (simp_all add: object_ok_def)
  show ?thesis
  proof (cases "f = None \<or> e \<or> hdr_type (frame_header (the f)) = HELLO")
    case True
    with give_up_accounts [OF ok k(1)] r show ?thesis
      by (auto simp: accounts_def frame_received_def Let_def split: option.split)
  next
    case False
    then obtain g where f: "f = Some g" "\<not> e" "hdr_type (frame_header g) \<noteq> HELLO" by auto
    let ?m = "message_from r g"
    have same: "(objects s)[k := (objects s ! k)\<lparr>operation := ReadingFrames\<rparr>] = objects s"
      using k by (intro list_update_same_conv [THEN iffD2]) (simp_all add: object_def)
    have s': "frame_received k e f s = s\<lparr>queued_messages := push ?m (queued_messages s)\<rparr>"
      using f r k(1) same
      by (simp add: frame_received_def Let_def start_reading_def set_operation_def update_object_def object_def)
    have "message_ok role ?m" using ident f(3) by (simp add: message_ok_def)
    then have "\<forall>m \<in> set (push ?m (queued_messages s)). message_ok role m"
      using ok by (auto simp: net_ok_def push_def)
    with messages_ok(1) [OF ok] show ?thesis
      by (simp add: accounts_def s' messages_ok(2,3))
  qed
qed

lemma write_accounts:
  assumes ok: "net_ok role s" and en: "enabled (WriteDone k e) s"
  shows "accounts role (WriteDone k e) s (write_done k e s)"
proof -
  have k: "k < length (objects s)" "writing (object k s) \<noteq> None" using en by auto
  have c: "object_ok role (object k s)" using ok k(1) by (simp add: net_ok_def)
  with k(2) obtain r where r: "remote (object k s) = Some r" by (auto simp: object_ok_def split: option.splits)
  obtain failed c' where w: "write_completed e (object k s) = (failed, c')" by fastforce
  note same = write_completed_keeps [OF w]
  have s1: "s\<lparr>objects := (objects s)[k := c']\<rparr> = update_object k (\<lambda>_. c') s" by (simp add: update_object_def)
  show ?thesis
  proof (cases failed)
    case True
    have "object_ok role (close c')" using c same r by (auto simp: object_ok_def split: option.splits)
    from fail_accounts [OF ok k(1), of "\<lambda>_. c'", OF this] same w True s1 show ?thesis
      by (simp add: accounts_def write_done_def Let_def)
  next
    case False
    note done_ok = write_completed_ok [OF w False]
    have "object_ok role c'" using c same done_ok r by (auto simp: object_ok_def split: option.splits)
    moreover have "\<not> closed c' \<and> operation c' = ReadingFrames" if "map_of (connections s) n = Some k" for n
      using net_okD [OF ok that] same by simp
    ultimately show ?thesis
      using update_accounts [OF ok k(1), of "\<lambda>_. c'"] same done_ok w False s1
      by (simp add: accounts_def write_done_def Let_def)
  qed
qed

lemma dial_accounts:
  assumes ok: "net_ok role s" and k: "k < length (objects s)" "operation (object k s) \<noteq> ReadingFrames" "operation (object k s) \<noteq> NoOperation"
  shows "accounts role (Resolved k b) s (resolve_completed k e ep s)" "accounts role (ConnectDone k b) s (connect_completed k e ep s)"
    "accounts role (HelloWritten k b) s (hello_written k e s)"
  using give_up_accounts [OF ok k(1)] set_operation_accounts [OF ok k, of "Connecting ep"]
    set_operation_accounts [OF ok k, of SayingHello] set_operation_accounts [OF ok k, of AwaitingHello]
  by (simp_all add: accounts_def resolve_completed_def connect_completed_def hello_written_def handshake_def schedule_reconnect_def)

lemma received_accounts: "net_ok role s \<Longrightarrow> accounts role (Received P) s (snd (receive_matching P s))"
proof -
  assume ok: "net_ok role s"
  obtain m q where pop: "pop_if P (queued_messages s) = (m, q)" by fastforce
  then have "set q \<subseteq> set (queued_messages s)" by (cases m) (auto dest: mq.take_none mq.take_some)
  with ok have "\<forall>m \<in> set q. message_ok role m" by (auto simp: net_ok_def)
  with messages_ok(1) [OF ok] pop show ?thesis
    by (simp add: accounts_def receive_matching_def messages_ok(2,3))
qed

lemma event_accounts:
  assumes ok: "net_ok role s" and d: "distinct (keys (connections s))" and en: "enabled ev s"
  shows "accounts role ev s (run_event role ev s)"
  using en
  by (cases ev) (auto simp: ok d send_accounts broadcast_accounts hello_accounts frame_accounts write_accounts timer_accounts
      accept_accounts received_accounts intro!: dial_accounts split: operation.splits)

section \<open>Runs\<close>

lemma distinct_fail: "distinct (keys (connections s)) \<Longrightarrow> distinct (keys (connections (fail_connection k s)))"
  by (simp add: fail_connection_def Let_def split: option.split)

lemma distinct_start_reading:
  "distinct (keys (connections s)) \<Longrightarrow> distinct (keys (connections (start_reading k s)))"
  by (simp add: start_reading_def set_operation_def distinct_fail)

lemma distinct_register:
  "distinct (keys (connections s)) \<Longrightarrow> distinct (keys (connections (register_connection k r s)))"
  unfolding register_connection_def Let_def
  by (rule distinct_start_reading) (simp add: flush_loop split: option.split)

lemma distinct_event:
  assumes "distinct (keys (connections s))"
  shows "distinct (keys (connections (run_event role ev s)))"
proof -
  have oper: "connections (set_operation oper k s) = connections s" for oper k by (simp add: set_operation_def)
  have bc: "connections (broadcast_posted r f s) = connections s" for r f
    by (simp add: broadcast_fold broadcast_loop(2))
  show ?thesis
    using assms distinct_fail [of "set_operation NoOperation k s" for k]
    by (cases ev)
      (auto simp: oper bc send_posted_def resolve_completed_def connect_completed_def hello_written_def hello_received_def
        frame_received_def write_done_def timer_fired_def accept_completed_def schedule_reconnect_def handshake_def
        receive_matching_def connect_def add_object_def Let_def
        intro!: distinct_fail distinct_register distinct_start_reading
        split: option.split operation.split prod.split accept_error.split)
qed

fun addressed :: "NodeRole \<Rightarrow> NodeId \<Rightarrow> net_event list \<Rightarrow> Network \<Rightarrow> Frame list" where
  "addressed role n [] s = []"
| "addressed role n (ev # evs) s = sends n ev s @ addressed role n evs (run_event role ev s)"

fun taken_by_ended :: "NodeRole \<Rightarrow> NodeId \<Rightarrow> net_event list \<Rightarrow> Network \<Rightarrow> Frame list" where
  "taken_by_ended role n [] s = []"
| "taken_by_ended role n (ev # evs) s = dropped n s (run_event role ev s) @ taken_by_ended role n evs (run_event role ev s)"

lemma run_accounts:
  "net_run role evs s = Some s' \<Longrightarrow> net_ok role s \<Longrightarrow> distinct (keys (connections s)) \<Longrightarrow>
   net_ok role s' \<and> distinct (keys (connections s'))
   \<and> node_frames n s @ addressed role n evs s = taken_by_ended role n evs s @ node_frames n s'"
proof (induction evs arbitrary: s)
  case (Cons ev evs)
  from Cons.prems(1) have en: "enabled ev s" and run: "net_run role evs (run_event role ev s) = Some s'"
    by (simp_all split: if_splits)
  from event_accounts [OF Cons.prems(2,3) en] have step: "net_ok role (run_event role ev s)"
    "node_frames n s @ sends n ev s = dropped n s (run_event role ev s) @ node_frames n (run_event role ev s)"
    by (simp_all add: accounts_def)
  from Cons.IH [OF run step(1) distinct_event [OF Cons.prems(3)]] step(2) show ?case
    by (metis addressed.simps(2) append.assoc taken_by_ended.simps(2))
qed simp

text \<open>What \<open>start\<close> leaves for the network thread.\<close>

lemma new_network_ok: "net_ok role (new_network self)" "connections (new_network self) = []"
  "node_frames n (new_network self) = []"
  by (simp_all add: new_network_def net_ok_def node_frames_def frames_pending_def)

lemma connect_sel: "connections (connect e s) = connections s" "self_endpoint (connect e s) = self_endpoint s"
  by (simp_all add: connect_def add_object_def)

lemma dial_all:
  "net_ok role s \<Longrightarrow> net_ok role (fold (\<lambda>e t. if \<not> should_connect self_role (self_endpoint t) e then t else connect e t) seeds s)
    \<and> node_frames n (fold (\<lambda>e t. if \<not> should_connect self_role (self_endpoint t) e then t else connect e t) seeds s) = node_frames n s
    \<and> connections (fold (\<lambda>e t. if \<not> should_connect self_role (self_endpoint t) e then t else connect e t) seeds s) = connections s"
proof (induction seeds arbitrary: s)
  case (Cons e seeds)
  then show ?case using connect_accounts [OF Cons.prems, of e n] by (simp add: connect_sel)
qed simp

lemma started_ok:
  assumes "start role seeds usable (new_network self) = (Inr (), s)"
  shows "net_ok role s" "connections s = []" "node_frames n s = []"
proof -
  have "(new_network self)\<lparr>connections := []\<rparr> = new_network self" by (simp add: new_network_def)
  with dial_all [OF new_network_ok(1), where self_role = role and seeds = seeds and n = n] assms new_network_ok(2) [of self] new_network_ok(3) [of n self]
  show "net_ok role s" "connections s = []" "node_frames n s = []"
    by (auto simp: start_def start_accepting_def split: if_splits)
qed

section \<open>Where peers and messages come from\<close>

text \<open>The node may dial an endpoint among its seeds.\<close>

definition dialable :: "NodeRole \<Rightarrow> Endpoint \<Rightarrow> Endpoint list \<Rightarrow> Endpoint \<Rightarrow> bool" where
  "dialable role self seeds e \<longleftrightarrow> e \<in> set seeds \<and> should_connect role self e"

definition endpoint_identity :: "Endpoint \<Rightarrow> NodeIdentity" where
  "endpoint_identity e = \<lparr>peer_id = ep_node_id e, peer_role = ep_role e\<rparr>"

text \<open>
  In a run \<open>evs\<close> the peer of connection \<open>k\<close> introduced itself as \<open>r\<close>: its \<^verbatim>\<open>HELLO\<close> was read from
  that very connection and accepted, and if this node dialled, it dialled the endpoint of \<open>r\<close>.
\<close>

definition introduced :: "NodeRole \<Rightarrow> Endpoint \<Rightarrow> Endpoint list \<Rightarrow> net_event list \<Rightarrow> nat \<Rightarrow> Connection \<Rightarrow> NodeIdentity \<Rightarrow> bool" where
  "introduced role self seeds evs k c r \<longleftrightarrow> remote c = Some r
     \<and> peer_id r \<noteq> [] \<and> valid_role (peer_role r) \<and> can_connect_with_role role (peer_role r)
     \<and> (\<exists>f. HelloRead k False (Some f) \<in> set evs \<and> hdr_type (frame_header f) = HELLO
          \<and> accept_hello role (expected_remote c) (frame_buffer f) = Some r)
     \<and> (origin c = Outgoing \<longrightarrow> (\<exists>e. dialable role self seeds e \<and> r = endpoint_identity e))"

fun dialled :: "operation \<Rightarrow> Endpoint option" where
  "dialled (Resolving e) = Some e"
| "dialled (Connecting e) = Some e"
| "dialled _ = None"

definition object_traced :: "NodeRole \<Rightarrow> Endpoint \<Rightarrow> Endpoint list \<Rightarrow> net_event list \<Rightarrow> nat \<Rightarrow> Connection \<Rightarrow> bool" where
  "object_traced role self seeds evs k c \<longleftrightarrow>
     (case origin c of
        Incoming \<Rightarrow> expected_remote c = None \<and> dialled (operation c) = None
      | Outgoing \<Rightarrow> (\<exists>e. dialable role self seeds e \<and> expected_remote c = Some (endpoint_identity e)
          \<and> (dialled (operation c) = None \<or> dialled (operation c) = Some e)))
     \<and> (\<forall>r. remote c = Some r \<longrightarrow> introduced role self seeds evs k c r)"

definition message_traced :: "net_event list \<Rightarrow> Network \<Rightarrow> Message \<Rightarrow> bool" where
  "message_traced evs s m \<longleftrightarrow> (\<exists>k f r. k < length (objects s) \<and> FrameRead k False (Some f) \<in> set evs
     \<and> remote (object k s) = Some r \<and> m = message_from r f)"

definition traced :: "NodeRole \<Rightarrow> Endpoint \<Rightarrow> Endpoint list \<Rightarrow> net_event list \<Rightarrow> Network \<Rightarrow> bool" where
  "traced role self seeds evs s \<longleftrightarrow> self_endpoint s = self \<and> (\<forall>e \<in> set (timers s). dialable role self seeds e)
     \<and> (\<forall>k < length (objects s). object_traced role self seeds evs k (object k s))
     \<and> (\<forall>m \<in> set (queued_messages s). message_traced evs s m)"

text \<open>Steps that neither introduce a peer, nor dial, nor receive.\<close>

definition same_peer :: "Connection \<Rightarrow> Connection \<Rightarrow> bool" where
  "same_peer c c' \<longleftrightarrow> origin c' = origin c \<and> expected_remote c' = expected_remote c \<and> remote c' = remote c
     \<and> (dialled (operation c') = None \<or> dialled (operation c') = dialled (operation c))"

definition same_peers :: "Network \<Rightarrow> Network \<Rightarrow> bool" where
  "same_peers s s' \<longleftrightarrow> self_endpoint s' = self_endpoint s \<and> timers s' = timers s \<and> queued_messages s' = queued_messages s
     \<and> length (objects s') = length (objects s) \<and> (\<forall>k. same_peer (object k s) (object k s'))"

lemma same_peer_refl [simp]: "same_peer c c"
  by (simp add: same_peer_def)

lemma same_peers_refl [simp]: "same_peers s s"
  by (simp add: same_peers_def)

lemma same_peer_trans: "same_peer a b \<Longrightarrow> same_peer b c \<Longrightarrow> same_peer a c"
  by (auto simp: same_peer_def)

lemma same_peers_trans: "same_peers s t \<Longrightarrow> same_peers t u \<Longrightarrow> same_peers s u"
  unfolding same_peers_def by (metis same_peer_trans)

lemma write_next_origin [simp]: "origin (write_next c) = origin c"
  by (simp add: write_next_def split: option.split prod.split)

lemma same_peer_steps:
  "same_peer c (enqueue_write f c)" "same_peer c (close c)" "dialled oper = None \<Longrightarrow> same_peer c (c\<lparr>operation := oper\<rparr>)"
  "write_completed e c = (b, c') \<Longrightarrow> same_peer c c'"
proof -
  show "same_peer c (enqueue_write f c)" by (simp add: same_peer_def enqueue_write_def Let_def)
  show "same_peer c (close c)" by (simp add: same_peer_def close_def)
  show "dialled oper = None \<Longrightarrow> same_peer c (c\<lparr>operation := oper\<rparr>)" by (simp add: same_peer_def)
  show "write_completed e c = (b, c') \<Longrightarrow> same_peer c c'"
    by (auto simp: same_peer_def write_completed_def Let_def split: if_splits)
qed

lemma update_same_peers: "same_peer (object k s) (f (object k s)) \<Longrightarrow> same_peers s (update_object k f s)"
  by (simp add: same_peers_def)

lemma operation_same_peers: "dialled oper = None \<Longrightarrow> same_peers s (set_operation oper k s)"
  by (simp add: set_operation_def update_same_peers same_peer_steps)

lemma fail_same_peers: "same_peers s (fail_connection k s)"
  using update_same_peers [where f = close and k = k and s = s, OF same_peer_steps(2)]
  by (simp add: fail_connection_def Let_def same_peers_def split: option.split)

lemma give_up_same_peers: "same_peers s (fail_connection k (set_operation NoOperation k s))"
  using same_peers_trans [OF operation_same_peers fail_same_peers] by simp

lemma start_reading_same_peers: "same_peers s (start_reading k s)"
  by (simp add: start_reading_def fail_same_peers operation_same_peers)

lemma aside_same_peers [simp]:
  "same_peers s (s\<lparr>connections := x\<rparr>)" "same_peers s (s\<lparr>pending_frames := z\<rparr>)" "same_peers s (s\<lparr>pending_connections := y\<rparr>)"
  "same_peers s (s\<lparr>accepting := b\<rparr>)"
  by (simp_all add: same_peers_def)

lemma fold_same_peers: "(\<And>x t. same_peers t (f x t)) \<Longrightarrow> same_peers s (fold f xs s)"
  by (induction xs arbitrary: s) (auto intro: same_peers_trans)

lemma send_same_peers: "same_peers s (send_posted n f s)"
  by (simp add: send_posted_def update_same_peers same_peer_steps split: option.split)

lemma broadcast_same_peers: "same_peers s (broadcast_posted r f s)"
  unfolding broadcast_fold by (rule fold_same_peers) (simp add: update_same_peers same_peer_steps)

lemma write_same_peers: "same_peers s (write_done k e s)"
proof -
  obtain b c where w: "write_completed e (object k s) = (b, c)" by fastforce
  have "same_peers s (update_object k (\<lambda>_. c) s)" by (rule update_same_peers) (rule same_peer_steps(4) [OF w])
  from same_peers_trans [OF this fail_same_peers] this show ?thesis
    by (simp add: write_done_def w Let_def update_object_def)
qed

text \<open>A longer run keeps what was traced.\<close>

lemma introduced_longer: "introduced role self seeds evs k c r \<Longrightarrow> set evs \<subseteq> set evs' \<Longrightarrow> introduced role self seeds evs' k c r"
  by (auto simp: introduced_def)

lemma object_traced_same:
  assumes "object_traced role self seeds evs k c" "same_peer c c'" "set evs \<subseteq> set evs'"
  shows "object_traced role self seeds evs' k c'"
proof -
  have "introduced role self seeds evs' k c' r" if "remote c' = Some r" for r
  proof -
    have same: "remote c' = remote c" "expected_remote c' = expected_remote c" "origin c' = origin c"
      using assms(2) by (simp_all add: same_peer_def)
    with assms(1) that have "introduced role self seeds evs k c r" by (simp add: object_traced_def)
    from introduced_longer [OF this assms(3)] show ?thesis by (simp add: introduced_def same)
  qed
  moreover have "dialled (operation c') = None \<or> dialled (operation c') = dialled (operation c)"
    "origin c' = origin c" "expected_remote c' = expected_remote c" using assms(2) by (simp_all add: same_peer_def)
  ultimately show ?thesis
    using assms(1) by (auto simp: object_traced_def split: ConnectionOrigin.splits)
qed

lemma traced_same:
  assumes "traced role self seeds evs s" "same_peers s s'" "set evs \<subseteq> set evs'"
  shows "traced role self seeds evs' s'"
proof -
  have "remote (object k s') = remote (object k s)" for k using assms(2) by (simp add: same_peers_def same_peer_def)
  then have "message_traced evs' s' m" if "message_traced evs s m" for m
    using that assms(2,3) by (auto simp: message_traced_def same_peers_def)
  moreover have "object_traced role self seeds evs' k (object k s')" if "k < length (objects s)" for k
    using object_traced_same [OF _ _ assms(3)] assms(1,2) that by (auto simp: traced_def same_peers_def)
  ultimately show ?thesis using assms(1,2) by (simp add: traced_def same_peers_def)
qed

text \<open>Dialling, timers, introductions and messages.\<close>

lemma traced_dialled:
  assumes "traced role self seeds evs s" "k < length (objects s)" "dialled (operation (object k s)) = Some e"
  shows "dialable role self seeds e"
proof -
  from assms(1,2) have "object_traced role self seeds evs k (object k s)" by (simp add: traced_def)
  with assms(3) show ?thesis by (auto simp: object_traced_def split: ConnectionOrigin.splits)
qed

lemma traced_timers:
  "traced role self seeds evs s \<Longrightarrow> \<forall>e \<in> set ts. dialable role self seeds e \<Longrightarrow> traced role self seeds evs (s\<lparr>timers := ts\<rparr>)"
  by (simp add: traced_def message_traced_def)

lemma traced_add:
  assumes "traced role self seeds evs s" "object_traced role self seeds evs (length (objects s)) c"
  shows "traced role self seeds evs (add_object c s)"
proof -
  have obj: "object k (add_object c s) = (if k < length (objects s) then object k s else c)" if "k < Suc (length (objects s))" for k
    using that by (auto simp: object_def add_object_def nth_append less_Suc_eq)
  have "message_traced evs (add_object c s) m" if m: "message_traced evs s m" for m
  proof -
    from m obtain k f r where k: "k < length (objects s)" "FrameRead k False (Some f) \<in> set evs" "remote (object k s) = Some r" "m = message_from r f"
      by (auto simp: message_traced_def)
    then have "k < length (objects (add_object c s))" "remote (object k (add_object c s)) = Some r"
      using obj [of k] by (simp_all add: add_object_def)
    with k(2,4) show ?thesis unfolding message_traced_def by blast
  qed
  moreover have "object_traced role self seeds evs k (object k (add_object c s))" if "k < Suc (length (objects s))" for k
    using assms obj [OF that] that by (auto simp: traced_def less_Suc_eq)
  ultimately show ?thesis using assms(1) by (simp add: traced_def) (simp add: add_object_def)
qed

lemma traced_connect: "traced role self seeds evs s \<Longrightarrow> dialable role self seeds e \<Longrightarrow> traced role self seeds evs (connect e s)"
  unfolding connect_def
  by (rule traced_add) (simp_all add: object_traced_def, auto simp: new_connection_def endpoint_identity_def)

lemma traced_message:
  assumes "traced role self seeds evs s" "\<forall>m \<in> set q. message_traced evs s m"
  shows "traced role self seeds evs (s\<lparr>queued_messages := q\<rparr>)"
  using assms by (simp add: traced_def message_traced_def)

lemma traced_longer: "traced role self seeds evs s \<Longrightarrow> traced role self seeds (evs @ [ev]) s"
  by (erule traced_same) auto

lemma register_same_peers:
  "same_peers (update_object k (\<lambda>c. c\<lparr>remote := Some r\<rparr>) s) (register_connection k r s)"
proof -
  let ?s = "update_object k (\<lambda>c. c\<lparr>remote := Some r\<rparr>) s"
  let ?s1 = "?s\<lparr>pending_connections := removeAll k (pending_connections s), connections := AList.update (peer_id r) k (connections s)\<rparr>"
  have s1: "same_peers ?s ?s1" by (simp add: same_peers_def)
  moreover have "same_peers ?s1 ((fold (\<lambda>f t. update_object k (enqueue_write f) t) fs ?s1)\<lparr>pending_frames := z\<rparr>)" for fs z
    by (rule same_peers_trans [OF fold_same_peers aside_same_peers(2)]) (simp add: update_same_peers same_peer_steps)
  ultimately have "same_peers ?s (case map_of (pending_frames ?s1) (peer_id r) of
      None \<Rightarrow> ?s1
    | Some frames \<Rightarrow> (fold (\<lambda>f t. update_object k (enqueue_write f) t) frames ?s1)
        \<lparr>pending_frames := AList.delete (peer_id r) (pending_frames ?s1)\<rparr>)"
    by (cases "map_of (pending_frames ?s1) (peer_id r)") (auto intro: same_peers_trans)
  from same_peers_trans [OF this start_reading_same_peers, of k] show ?thesis by (simp add: register_connection_def Let_def)
qed

lemma traced_register:
  assumes tr: "traced role self seeds evs s" and k: "k < length (objects s)" "remote (object k s) = None"
    and f: "HelloRead k False (Some f) \<in> set evs" "hdr_type (frame_header f) = HELLO"
      "accept_hello role (expected_remote (object k s)) (frame_buffer f) = Some r"
  shows "traced role self seeds evs (register_connection k r (set_operation NoOperation k s))"
proof -
  let ?s = "set_operation NoOperation k s"
  let ?t = "update_object k (\<lambda>c. c\<lparr>remote := Some r\<rparr>) ?s"
  have same: "traced role self seeds evs ?s" using traced_same [OF tr operation_same_peers] by simp
  have s: "length (objects ?s) = length (objects s)" "\<And>j. remote (object j ?s) = remote (object j s)"
    "\<And>j. expected_remote (object j ?s) = expected_remote (object j s)" "\<And>j. origin (object j ?s) = origin (object j s)"
    by (simp_all add: set_operation_def)
  note r = accept_hello_Some [OF f(3)]
  have "object_traced role self seeds evs k (object k ?s)" using same k(1) s(1) by (simp add: traced_def)
  then have "object_traced role self seeds evs k ((object k ?s)\<lparr>remote := Some r\<rparr>)"
    using f r s by (auto simp: object_traced_def introduced_def split: ConnectionOrigin.splits)
  moreover have "message_traced evs ?t m" if "message_traced evs ?s m" for m
    using that k s unfolding message_traced_def by fastforce
  ultimately have "traced role self seeds evs ?t" using same k(1) s(1) by (auto simp: traced_def)
  from traced_same [OF this register_same_peers] show ?thesis by simp
qed

lemma traced_event:
  assumes tr: "traced role self seeds evs s" and ok: "net_ok role s" and en: "enabled ev s"
  shows "traced role self seeds (evs @ [ev]) (run_event role ev s)"
proof -
  let ?evs = "evs @ [ev]"
  have same: "traced role self seeds ?evs s'" if "same_peers s s'" for s' by (rule traced_same [OF tr that]) auto
  have ok_object: "k < length (objects s) \<Longrightarrow> object_ok role (object k s)" for k using ok by (simp add: net_ok_def)
  have retry: "traced role self seeds ?evs (schedule_reconnect e (fail_connection k (set_operation NoOperation k s)))"
    if "k < length (objects s)" "dialled (operation (object k s)) = Some e" for k e
    unfolding schedule_reconnect_def
    by (rule traced_timers [OF same [OF give_up_same_peers]])
      (use traced_dialled [OF tr that] same [OF give_up_same_peers] in \<open>auto simp: traced_def\<close>)
  have dial: "same_peers s (set_operation (Connecting e) k s)" if "dialled (operation (object k s)) = Some e" for k e
    unfolding set_operation_def by (rule update_same_peers) (simp add: same_peer_def that)
  show ?thesis
  proof (cases ev)
    case (Sent n f)
    then show ?thesis using same [OF send_same_peers] by simp
  next
    case (Broadcast r f)
    then show ?thesis using same [OF broadcast_same_peers] by simp
  next
    case (Resolved k b)
    with en retry dial same show ?thesis by (auto simp: resolve_completed_def split: operation.splits)
  next
    case (ConnectDone k b)
    with en retry same [OF operation_same_peers] show ?thesis
      by (auto simp: connect_completed_def handshake_def split: operation.splits)
  next
    case (HelloWritten k b)
    then show ?thesis
      using same [OF give_up_same_peers] same [OF operation_same_peers] by (cases b) (simp_all add: hello_written_def)
  next
    case (HelloRead k e f)
    with en have k: "k < length (objects s)" "operation (object k s) = AwaitingHello" by auto
    with ok_object [OF k(1)] have fresh: "remote (object k s) = None" by (auto simp: object_ok_def split: option.splits)
    show ?thesis
    proof (cases "f = None \<or> e \<or> hdr_type (frame_header (the f)) \<noteq> HELLO
        \<or> accept_hello role (expected_remote (object k s)) (frame_buffer (the f)) = None")
      case True
      with HelloRead same [OF give_up_same_peers] show ?thesis by (auto simp: hello_received_def Let_def split: option.split)
    next
      case False
      then obtain g r where f: "f = Some g" "\<not> e" "hdr_type (frame_header g) = HELLO"
        and r: "accept_hello role (expected_remote (object k s)) (frame_buffer g) = Some r" by auto
      from traced_register [OF traced_longer [OF tr] k(1) fresh _ f(3) r] HelloRead f r show ?thesis
        by (simp add: hello_received_def Let_def)
    qed
  next
    case (FrameRead k e f)
    with en have k: "k < length (objects s)" by auto
    show ?thesis
    proof (cases "f = None \<or> e \<or> hdr_type (frame_header (the f)) = HELLO \<or> remote (object k s) = None")
      case True
      with FrameRead same [OF give_up_same_peers] show ?thesis by (auto simp: frame_received_def Let_def split: option.split)
    next
      case False
      then obtain g r where f: "f = Some g" "\<not> e" "hdr_type (frame_header g) \<noteq> HELLO" and r: "remote (object k s) = Some r" by auto
      let ?s = "set_operation NoOperation k s"
      have s: "traced role self seeds ?evs ?s" using same [OF operation_same_peers] by simp
      have "message_traced ?evs ?s (message_from r g)"
        using k r FrameRead f unfolding message_traced_def by (intro exI [of _ k] exI [of _ g] exI [of _ r]) (simp add: set_operation_def)
      with s have "traced role self seeds ?evs (?s\<lparr>queued_messages := push (message_from r g) (queued_messages ?s)\<rparr>)"
        by (intro traced_message) (auto simp: traced_def push_def)
      from traced_same [OF this start_reading_same_peers subset_refl, of k] FrameRead f r show ?thesis
        by (simp add: frame_received_def Let_def)
    qed
  next
    case (WriteDone k e)
    then show ?thesis using same [OF write_same_peers] by simp
  next
    case (TimerFired e b)
    with en tr have e: "dialable role self seeds e" by (simp add: traced_def)
    have "set (remove1 e (timers s)) \<subseteq> set (timers s)" by (rule set_remove1_subset)
    then have "traced role self seeds ?evs (s\<lparr>timers := remove1 e (timers s)\<rparr>)"
      using traced_longer [OF tr] by (intro traced_timers) (auto simp: traced_def)
    with traced_connect [OF this e] TimerFired show ?thesis by (cases b) (simp_all add: timer_fired_def Let_def)
  next
    case (AcceptDone e)
    have "traced role self seeds ?evs (add_object (new_connection Incoming None SayingHello) s)"
      by (rule traced_add [OF traced_longer [OF tr]]) (simp add: object_traced_def, simp add: new_connection_def)
    moreover have "traced role self seeds ?evs (s\<lparr>accepting := False\<rparr>)" by (rule same) simp
    ultimately have "traced role self seeds ?evs (accept_completed e s)"
      using traced_longer [OF tr] by (simp add: accept_completed_def split: option.split accept_error.split)
    with AcceptDone show ?thesis by simp
  next
    case (Received P)
    obtain m q where pop: "pop_if P (queued_messages s) = (m, q)" by fastforce
    then have "set q \<subseteq> set (queued_messages s)" by (cases m) (auto dest: mq.take_none mq.take_some)
    with traced_longer [OF tr] have "traced role self seeds ?evs (s\<lparr>queued_messages := q\<rparr>)"
      by (intro traced_message) (auto simp: traced_def)
    with Received pop show ?thesis by (simp add: receive_matching_def)
  qed
qed

lemma run_traced:
  "net_run role evs s = Some s' \<Longrightarrow> net_ok role s \<Longrightarrow> distinct (keys (connections s)) \<Longrightarrow> traced role self seeds pre s \<Longrightarrow>
   traced role self seeds (pre @ evs) s'"
proof (induction evs arbitrary: pre s)
  case (Cons ev evs)
  from Cons.prems(1) have en: "enabled ev s" and run: "net_run role evs (run_event role ev s) = Some s'"
    by (simp_all split: if_splits)
  from event_accounts [OF Cons.prems(2,3) en] have "net_ok role (run_event role ev s)" by (simp add: accounts_def)
  from Cons.IH [OF run this distinct_event [OF Cons.prems(3)] traced_event [OF Cons.prems(4,2) en]] show ?case by simp
qed simp

lemma dial_all_traced:
  "traced role self seeds [] s \<Longrightarrow> set es \<subseteq> set seeds \<Longrightarrow>
   traced role self seeds [] (fold (\<lambda>e t. if \<not> should_connect role (self_endpoint t) e then t else connect e t) es s)"
proof (induction es arbitrary: s)
  case (Cons e es)
  then have "self_endpoint s = self" by (simp add: traced_def)
  with Cons show ?case using traced_connect [OF Cons.prems(1), of e] by (auto simp: dialable_def)
qed simp

lemma started_traced:
  assumes "start role seeds usable (new_network self) = (Inr (), s)"
  shows "traced role self seeds [] s"
proof -
  have "traced role self seeds [] ((new_network self)\<lparr>connections := []\<rparr>)"
    by (simp add: traced_def) (simp add: new_network_def)
  from dial_all_traced [OF this subset_refl] assms show ?thesis
    by (auto simp: start_def start_accepting_def traced_same split: if_splits)
qed

section \<open>Hello\<close>

definition hello_bytes :: "NodeRole \<Rightarrow> Endpoint \<Rightarrow> byte list" where
  "hello_bytes role e =
     (if ep_host e \<noteq> [] \<and> ep_port e \<noteq> 0
      then [role_to_u8 role] @ (bytes_of_string (ep_node_id e) @ [0]) @ [1] @ (bytes_of_string (ep_host e) @ [0]) @ be_bytes 2 (ep_port e)
      else [role_to_u8 role] @ (bytes_of_string (ep_node_id e) @ [0]) @ [0])"

lemma hello_frame_eq:
  "hello_frame role e = Inr \<lparr>frame_header = \<lparr>hdr_magic = HEADER_MAGIC, hdr_length = word_of_nat (length (hello_bytes role e)),
     hdr_type = HELLO\<rparr>, frame_buffer = hello_bytes role e\<rparr>"
proof (cases "ep_host e \<noteq> [] \<and> ep_port e \<noteq> 0")
  case True
  then have "write_all [write_enum role_to_u8 role, write_string (ep_node_id e), write_integral (1 :: u8),
      write_string (ep_host e), write_integral (ep_port e)] new_writer = Inr (new_writer\<lparr>wbuffer := hello_bytes role e\<rparr>)"
    using write_all_writes [of "[write_enum role_to_u8 role, write_string (ep_node_id e), write_integral (1 :: u8),
        write_string (ep_host e), write_integral (ep_port e)]"
        "[[role_to_u8 role], bytes_of_string (ep_node_id e) @ [0], [1], bytes_of_string (ep_host e) @ [0], be_bytes 2 (ep_port e)]" new_writer]
      writes_enum [of role_to_u8 role] writes_integral [of "1 :: u8"] writes_integral [of "ep_port e"]
    by (simp add: codec hello_bytes_def new_writer_def)
  with True show ?thesis
    by (simp add: hello_frame_def new_writer_def writer_length_def move_data_def)
next
  case False
  then have "write_all [write_enum role_to_u8 role, write_string (ep_node_id e), write_integral (0 :: u8)] new_writer =
      Inr (new_writer\<lparr>wbuffer := hello_bytes role e\<rparr>)"
    using write_all_writes [of "[write_enum role_to_u8 role, write_string (ep_node_id e), write_integral (0 :: u8)]"
        "[[role_to_u8 role], bytes_of_string (ep_node_id e) @ [0], [0]]" new_writer]
      writes_enum [of role_to_u8 role] writes_integral [of "0 :: u8"]
    by (auto simp add: codec hello_bytes_def new_writer_def)
  with False show ?thesis
    by (auto simp add: hello_frame_def new_writer_def writer_length_def move_data_def)
qed

lemma roles_connect:
  "valid_role a \<Longrightarrow> valid_role b \<Longrightarrow> can_connect_with_role a b \<longleftrightarrow> a = METADATA \<or> b = METADATA"
  by (auto simp: valid_role_def can_connect_with_role_def PeerRoles_def role_bit_def)

lemma read_bool_at: "read_bool (reader_at pre (b # xs)) = Inr (b = 1, reader_at (pre @ [b]) xs)"
  by (simp add: read_bool_def get_then_def get_return_def f8.get_back [simplified])

section \<open>Sample events\<close>

definition sample_self :: Endpoint where
  "sample_self = \<lparr>ep_node_id = ''m'', ep_role = METADATA, ep_host = ''h'', ep_port = 80\<rparr>"

definition sample_peer :: Endpoint where
  "sample_peer = \<lparr>ep_node_id = ''s1'', ep_role = STORAGE, ep_host = ''k'', ep_port = 81\<rparr>"

definition sample_hello :: Frame where
  "sample_hello = projr (hello_frame STORAGE sample_peer)"

definition sample_frame :: "u8 \<Rightarrow> Frame" where
  "sample_frame b = \<lparr>frame_header = \<lparr>hdr_magic = HEADER_MAGIC, hdr_length = 1, hdr_type = STORAGE_RPC\<rparr>, frame_buffer = [b]\<rparr>"

text \<open>
  The node dials its seed. Name resolution fails at first; the timer dials again, and meanwhile a
  client connects. Two frames are sent before the peer is there, one after; then the connection
  breaks and a fourth is sent.
\<close>

definition sample_visitor :: Endpoint where
  "sample_visitor = \<lparr>ep_node_id = ''c'', ep_role = CLIENT, ep_host = [], ep_port = 0\<rparr>"

definition sample_started :: Network where
  "sample_started = snd (start METADATA [sample_peer] True (new_network sample_self))"

definition sample_events :: "net_event list" where
  "sample_events = [Sent ''s1'' (sample_frame 1), Resolved 0 True, AcceptDone None, TimerFired sample_peer False,
     Resolved 2 False, HelloWritten 1 False, ConnectDone 2 False, HelloWritten 2 False, Sent ''s1'' (sample_frame 2),
     HelloRead 1 False (Some (projr (hello_frame CLIENT sample_visitor))), HelloRead 2 False (Some sample_hello),
     Sent ''s1'' (sample_frame 3), WriteDone 2 False, FrameRead 2 False (Some (sample_frame 9)),
     FrameRead 1 False (Some (sample_frame 8)), FrameRead 2 True None, Sent ''s1'' (sample_frame 4)]"

definition sample_state :: Network where
  "sample_state = the (net_run METADATA sample_events sample_started)"

lemma sample_starts_up: "start METADATA [sample_peer] True (new_network sample_self) = (Inr (), sample_started)"
  by (rule prod_eqI) (code_simp, simp add: sample_started_def)

lemma sample_events_run: "net_run METADATA sample_events sample_started = Some sample_state"
proof -
  have "net_run METADATA sample_events sample_started \<noteq> None" by code_simp
  then show ?thesis by (simp add: sample_state_def)
qed

lemma sample_state_shows:
  "(map origin (objects sample_state), connections sample_state, length (queued_messages sample_state), timers sample_state) =
    ([Outgoing, Incoming, Outgoing], [(''c'', 1)], 2, [])"
  by code_simp

definition takeover_events :: "net_event list" where
  "takeover_events = [AcceptDone None, AcceptDone None, HelloWritten 0 False, HelloWritten 1 False,
     HelloRead 0 False (Some sample_hello), HelloRead 1 False (Some sample_hello), FrameRead 0 False (Some (sample_frame 7))]"

section \<open>Properties of the network\<close>

text \<open>Of two nodes whose roles may connect exactly one dials the other, so they end up with one
  connection; of two whose roles may not, none does.\<close>

theorem one_side_dials:
  assumes "valid_role (ep_role a)" "valid_role (ep_role b)" "ep_node_id a \<noteq> ep_node_id b"
  shows "if can_connect_with_role (ep_role a) (ep_role b)
    then should_connect (ep_role a) a b \<noteq> should_connect (ep_role b) b a
    else \<not> should_connect (ep_role a) a b \<and> \<not> should_connect (ep_role b) b a"
  using assms roles_connect [of "ep_role a" "ep_role b"] roles_connect [of "ep_role b" "ep_role a"]
  by (auto simp: should_connect_def)

theorem one_side_dials_witness:
  "if can_connect_with_role (ep_role sample_self) (ep_role sample_peer)
    then should_connect (ep_role sample_self) sample_self sample_peer \<noteq> should_connect (ep_role sample_peer) sample_peer sample_self
    else \<not> should_connect (ep_role sample_self) sample_self sample_peer \<and> \<not> should_connect (ep_role sample_peer) sample_peer sample_self"
  by (rule one_side_dials) (simp_all add: sample_self_def sample_peer_def valid_role_def)

text \<open>C32. A handshake between honest nodes succeeds: what a node says in its \<^verbatim>\<open>HELLO\<close> a peer of a
  fitting role accepts, under the id and role the node has, when it dialled it as well as when it
  was dialled; and a \<^verbatim>\<open>HELLO\<close> from any other node than the one dialled is refused.\<close>

theorem handshake_identifies:
  assumes "valid_role role" "can_connect_with_role other role" "ep_node_id e \<noteq> []" "nul_free (ep_node_id e)" "nul_free (ep_host e)"
  shows "\<exists>f. hello_frame role e = Inr f \<and> hdr_type (frame_header f) = HELLO
    \<and> accept_hello other expected (frame_buffer f) =
       (if expected = None \<or> expected = Some \<lparr>peer_id = ep_node_id e, peer_role = role\<rparr>
        then Some \<lparr>peer_id = ep_node_id e, peer_role = role\<rparr> else None)"
proof -
  have ok: "role_ok role" using assms(1) by (auto simp: valid_role_def)
  have "accept_hello other expected (hello_bytes role e) =
       (if expected = None \<or> expected = Some \<lparr>peer_id = ep_node_id e, peer_role = role\<rparr>
        then Some \<lparr>peer_id = ep_node_id e, peer_role = role\<rparr> else None)"
    using assms ok
    by (cases "ep_host e \<noteq> [] \<and> ep_port e \<noteq> 0")
      (auto simp: accept_hello_def read_hello_def decoded_def new_reader_at hello_bytes_def codec Let_def read_bool_at)
  then show ?thesis by (simp add: hello_frame_eq)
qed

theorem handshake_identifies_witness:
  "\<exists>f. hello_frame STORAGE sample_peer = Inr f \<and> hdr_type (frame_header f) = HELLO
    \<and> accept_hello METADATA (Some \<lparr>peer_id = ''x'', peer_role = STORAGE\<rparr>) (frame_buffer f) =
       (if Some \<lparr>peer_id = ''x'', peer_role = STORAGE\<rparr> = None
           \<or> Some \<lparr>peer_id = ''x'', peer_role = STORAGE\<rparr> = Some \<lparr>peer_id = ep_node_id sample_peer, peer_role = STORAGE\<rparr>
        then Some \<lparr>peer_id = ep_node_id sample_peer, peer_role = STORAGE\<rparr> else None)"
  by (rule handshake_identifies) (simp_all add: roles_connect valid_role_def sample_peer_def nul_free_def)

text \<open>C33. Frames sent to a node keep their order and none is lost but with its connection: a node that
  has started, dials its seeds and accepts others, and under every order of events after that the
  frames addressed to a node are those the earlier, ended connections to it took, followed by those
  its connection has taken or, without one, by those that wait for it.\<close>

theorem frames_keep_order:
  assumes "start role seeds usable (new_network self) = (Inr (), s0)" "net_run role evs s0 = Some s"
  shows "addressed role n evs s0 = taken_by_ended role n evs s0 @
    (case map_of (connections s) n of None \<Rightarrow> frames_pending n s | Some k \<Rightarrow> handed (object k s) @ write_queue (object k s))"
  using run_accounts [OF assms(2) started_ok(1) [OF assms(1)], of n] started_ok(2) [OF assms(1)] started_ok(3) [OF assms(1), of n]
  by (cases "map_of (connections s) n") (simp_all add: node_frames_def taken_def)

theorem frames_keep_order_witness:
  "addressed METADATA ''s1'' sample_events sample_started = taken_by_ended METADATA ''s1'' sample_events sample_started @
    (case map_of (connections sample_state) ''s1'' of
       None \<Rightarrow> frames_pending ''s1'' sample_state
     | Some k \<Rightarrow> handed (object k sample_state) @ write_queue (object k sample_state))"
  using frames_keep_order [OF sample_starts_up sample_events_run] .

text \<open>C34. Only who introduced itself is a peer: after \<open>start\<close> and under every order of events, each message
  in the queue was read, as a frame other than \<^verbatim>\<open>HELLO\<close>, from a connection whose peer introduced
  itself as the sender, and each registered connection is open, without frames waiting beside it,
  and registered under the id its peer introduced itself with. To introduce itself a peer has to
  send a \<^verbatim>\<open>HELLO\<close> over that connection, with a name, one of the three roles and one this node may
  connect with; if this node dialled the connection, the \<^verbatim>\<open>HELLO\<close> names the seed it dialled.\<close>

theorem only_accepted_peers:
  assumes "start role seeds usable (new_network self) = (Inr (), s0)" "net_run role evs s0 = Some s"
  shows "list_all (\<lambda>m. hdr_type (msg_header m) \<noteq> HELLO
      \<and> (\<exists>k f. k < length (objects s) \<and> FrameRead k False (Some f) \<in> set evs
           \<and> introduced role self seeds evs k (object k s) (msg_sender m) \<and> m = message_from (msg_sender m) f)) (queued_messages s)
    \<and> list_all (\<lambda>(n, k). (\<exists>r. peer_id r = n \<and> introduced role self seeds evs k (object k s) r) \<and> \<not> closed (object k s)
      \<and> frames_pending n s = []) (connections s)"
proof -
  from run_accounts [OF assms(2) started_ok(1) [OF assms(1)], of "[]"] started_ok(2) [OF assms(1)]
  have ok: "net_ok role s" and d: "distinct (keys (connections s))" by simp_all
  from run_traced [OF assms(2) started_ok(1) [OF assms(1)] _ started_traced [OF assms(1)]] started_ok(2) [OF assms(1)]
  have tr: "traced role self seeds evs s" by simp
  have intro: "introduced role self seeds evs k (object k s) r" if "k < length (objects s)" "remote (object k s) = Some r" for k r
    using tr that by (auto simp: traced_def object_traced_def)
  have "(\<exists>r. peer_id r = n \<and> introduced role self seeds evs k (object k s) r) \<and> \<not> closed (object k s) \<and> frames_pending n s = []"
    if "(n, k) \<in> set (connections s)" for n k
  proof -
    from d that have "map_of (connections s) n = Some k" by (rule map_of_is_SomeI)
    from net_okD [OF ok this] intro [of k] show ?thesis by (auto simp: frames_pending_def)
  qed
  moreover have "hdr_type (msg_header m) \<noteq> HELLO \<and> (\<exists>k f. k < length (objects s) \<and> FrameRead k False (Some f) \<in> set evs
      \<and> introduced role self seeds evs k (object k s) (msg_sender m) \<and> m = message_from (msg_sender m) f)"
    if m: "m \<in> set (queued_messages s)" for m
  proof -
    from tr m obtain k f r where "k < length (objects s)" "FrameRead k False (Some f) \<in> set evs" "remote (object k s) = Some r" "m = message_from r f"
      by (auto simp: traced_def message_traced_def)
    moreover have "hdr_type (msg_header m) \<noteq> HELLO" using ok m by (simp add: net_ok_def message_ok_def)
    ultimately show ?thesis using intro [of k r] by (auto simp: message_from_def)
  qed
  ultimately show ?thesis by (auto simp: list_all_iff)
qed

theorem only_accepted_peers_witness:
  "list_all (\<lambda>m. hdr_type (msg_header m) \<noteq> HELLO
      \<and> (\<exists>k f. k < length (objects sample_state) \<and> FrameRead k False (Some f) \<in> set sample_events
           \<and> introduced METADATA sample_self [sample_peer] sample_events k (object k sample_state) (msg_sender m)
           \<and> m = message_from (msg_sender m) f)) (queued_messages sample_state)
    \<and> list_all (\<lambda>(n, k). (\<exists>r. peer_id r = n \<and> introduced METADATA sample_self [sample_peer] sample_events k (object k sample_state) r)
      \<and> \<not> closed (object k sample_state) \<and> frames_pending n sample_state = []) (connections sample_state)"
  using only_accepted_peers [OF sample_starts_up sample_events_run] .

text \<open>A second connection that says the same id takes the first one's place without closing it: the
  first stays open, and the frames it brings still count as messages of that node.\<close>

theorem same_id_takes_over:
  "map_option (\<lambda>s. (connections s, map closed (objects s), queued_messages s))
      (net_run METADATA takeover_events (snd (start METADATA [] True (new_network sample_self)))) =
    Some ([(''s1'', 1)], [False, False], [message_from \<lparr>peer_id = ''s1'', peer_role = STORAGE\<rparr> (sample_frame 7)])"
  by code_simp

text \<open>An established connection that breaks is not dialled again: no reconnect timer is started
  and no new connection is made when a read or a write on it fails.\<close>

lemma broken_connection_not_redialled:
  "timers (frame_received k e f s) = timers s \<and> length (objects (frame_received k e f s)) = length (objects s)
   \<and> timers (write_done k e s) = timers s \<and> length (objects (write_done k e s)) = length (objects s)"
  by (auto simp: frame_received_def write_done_def start_reading_def set_operation_def fail_connection_def Let_def
      split: option.split prod.split)

end
