(* ===== verification/StorageNode.thy ===== *)
theory StorageNode
  imports Actions StorageWorker
begin

text \<open>
  \<^verbatim>\<open>storage/StorageNode.hpp\<close> and \<^verbatim>\<open>StorageHeart.hpp\<close>: the process of a storage node. One thread
  turns messages into jobs, one executes them and one sends heartbeats. An iteration of a
  thread is an action on the node; a schedule of such iterations and of arriving messages is
  a run of the process.
\<close>

section \<open>State\<close>

datatype StorageEvent = PutEvent PutRequest | GetEvent GetRequest | DeleteEvent DeleteRequest

record StorageNode =
  sn_worker :: StorageWorker
  sn_inbox :: "Message queue"
  sn_jobs :: "StorageEvent queue"
  sn_sent :: "(NodeId \<times> Frame) list"
  metadata_node :: NodeId
  sn_stopping :: bool

fun metadata_node_id :: "Endpoint list \<Rightarrow> exn + NodeId" where
  "metadata_node_id [] = Inl InvalidArgument"
| "metadata_node_id (node # nodes) =
     (if ep_role node = METADATA then Inr (ep_node_id node) else metadata_node_id nodes)"

definition new_storage_node ::
  "StorageHost \<Rightarrow> (path \<Rightarrow> location) \<Rightarrow> NodeConfig \<Rightarrow> Endpoint list \<Rightarrow> disk \<Rightarrow> (exn + StorageNode) \<times> disk" where
  "new_storage_node h located config seed_nodes d =
     (case new_storage_worker h located config d of
        (Inl e, d1) \<Rightarrow> (Inl e, d1)
      | (Inr worker, d1) \<Rightarrow>
          (and_then (metadata_node_id seed_nodes) (\<lambda>node.
             Inr \<lparr>sn_worker = worker, sn_inbox = [], sn_jobs = [], sn_sent = [], metadata_node = node, sn_stopping = False\<rparr>),
           d1))"

section \<open>The producer\<close>

definition storage_event :: "StorageJob RpcMessage \<Rightarrow> exn + StorageEvent" where
  "storage_event m =
     (case rpc_job (rpc_header m) of
        PUT \<Rightarrow> and_then (decode_put_request m) (\<lambda>r. Inr (PutEvent r))
      | DELETE \<Rightarrow> and_then (decode_delete_request m) (\<lambda>r. Inr (DeleteEvent r))
      | GET \<Rightarrow> and_then (decode_get_request m) (\<lambda>r. Inr (GetEvent r))
      | StorageJob_raw _ \<Rightarrow> Inl RuntimeError)"

definition push_storage_job :: "Message \<Rightarrow> StorageEvent queue \<Rightarrow> exn + StorageEvent queue" where
  "push_storage_job m jobs =
     and_then (read_message storage_rpc m) (\<lambda>rpc. and_then (storage_event rpc) (\<lambda>e. Inr (push e jobs)))"

text \<open>One iteration once a message is there; without one the thread blocks.\<close>

definition produce_job :: "(StorageNode, unit) act" where
  "produce_job s =
     (case pop (sn_inbox s) of
        None \<Rightarrow> (Inr (), s)
      | Some (m, inbox) \<Rightarrow>
          (let s1 = s\<lparr>sn_inbox := inbox\<rparr> in
           case push_storage_job m (sn_jobs s1) of
             Inl e \<Rightarrow> (Inl e, s1)
           | Inr jobs \<Rightarrow> (Inr (), s1\<lparr>sn_jobs := jobs\<rparr>)))"

section \<open>The worker thread and the heart\<close>

fun handle_storage :: "StorageHost \<Rightarrow> StorageEvent \<Rightarrow> StorageWorker \<Rightarrow> (exn + outgoing) \<times> StorageWorker" where
  "handle_storage h (PutEvent r) s = handle_put h r s"
| "handle_storage h (GetEvent r) s = handle_get h r s"
| "handle_storage h (DeleteEvent r) s = handle_delete h r s"

definition work_job :: "StorageHost \<Rightarrow> (StorageNode, unit) act" where
  "work_job h s =
     (case pop (sn_jobs s) of
        None \<Rightarrow> (Inr (), s)
      | Some (job, jobs) \<Rightarrow>
          (case handle_storage h job (sn_worker s) of
             (Inl e, w) \<Rightarrow> (Inl e, s\<lparr>sn_jobs := jobs, sn_worker := w\<rparr>)
           | (Inr out, w) \<Rightarrow> (Inr (), s\<lparr>sn_jobs := jobs, sn_worker := w, sn_sent := sn_sent s @ [out]\<rparr>)))"

definition heartbeat_frame :: Frame where
  "heartbeat_frame = \<lparr>frame_header = \<lparr>hdr_magic = HEADER_MAGIC, hdr_length = 0, hdr_type = STORAGE_HEARTBEAT\<rparr>, frame_buffer = []\<rparr>"

definition heart_beat :: "(StorageNode, unit) act" where
  "heart_beat s = (Inr (), s\<lparr>sn_sent := sn_sent s @ [(metadata_node s, heartbeat_frame)]\<rparr>)"

definition stop_storage :: "StorageNode \<Rightarrow> StorageNode" where
  "stop_storage s = s\<lparr>sn_stopping := True\<rparr>"

section \<open>Schedules\<close>

datatype storage_turn = Arrives Message | Produces | Works StorageHost | Beats | Stops

text \<open>A thread checks for the stop request before an iteration.\<close>

fun take_turn :: "storage_turn \<Rightarrow> (StorageNode, unit) act" where
  "take_turn (Arrives m) s = (Inr (), s\<lparr>sn_inbox := push m (sn_inbox s)\<rparr>)"
| "take_turn Produces s = (if sn_stopping s then (Inr (), s) else produce_job s)"
| "take_turn (Works h) s = (if sn_stopping s then (Inr (), s) else work_job h s)"
| "take_turn Beats s = (if sn_stopping s then (Inr (), s) else heart_beat s)"
| "take_turn Stops s = (Inr (), stop_storage s)"

section \<open>Calls and their answers\<close>

record storage_call =
  call_sender :: NodeIdentity
  call_id :: u64
  call_request :: storage_request

abbreviation call_context :: "storage_call \<Rightarrow> RequestContext" where
  "call_context c \<equiv> \<lparr>ctx_request_id = call_id c, ctx_sender = call_sender c\<rparr>"

fun encode_call :: "u64 \<Rightarrow> storage_request \<Rightarrow> exn + Frame" where
  "encode_call rid (Put r) = encode_put_request rid r"
| "encode_call rid (Get r) = encode_get_request rid r"
| "encode_call rid (Delete r) = encode_delete_request rid r"

text \<open>The message a storage node receives for a call, and the job that call stands for.\<close>

definition call_message :: "storage_call \<Rightarrow> Message" where
  "call_message c = message_from (call_sender c) (projr (encode_call (call_id c) (call_request c)))"

definition call_job :: "storage_call \<Rightarrow> StorageEvent" where
  "call_job c = (case call_request c of
      Put r \<Rightarrow> PutEvent (r\<lparr>ptq_context := call_context c\<rparr>)
    | Get r \<Rightarrow> GetEvent (r\<lparr>gtq_context := call_context c\<rparr>)
    | Delete r \<Rightarrow> DeleteEvent (r\<lparr>dlq_context := call_context c\<rparr>))"

fun call_data :: "storage_request \<Rightarrow> byte list" where
  "call_data (Put r) = ptq_data r"
| "call_data _ = []"

definition call_ok :: "storage_call \<Rightarrow> bool" where
  "call_ok c \<longleftrightarrow> nul_free (target (call_request c))
     \<and> length (target (call_request c)) + length (call_data (call_request c)) < 2 ^ 31"

text \<open>The answer to a call: what the worker says of the request, in a response of its kind.\<close>

definition answer :: "StorageHost \<Rightarrow> storage_call \<Rightarrow> StorageWorker \<Rightarrow> outgoing \<times> StorageWorker" where
  "answer h c w =
     (case serve h (call_request c) w of (status, bytes, w1) \<Rightarrow>
        ((peer_id (call_sender c), projr (case call_request c of
            Put r \<Rightarrow> encode_put_response (call_id c)
              \<lparr>ptr_chunk_index = ptq_chunk_index r, ptr_size_available = available_bytes h w1, ptr_status = status\<rparr>
          | Get r \<Rightarrow> encode_get_response (call_id c)
              \<lparr>gtr_chunk_index = gtq_chunk_index r, gtr_status = status, gtr_data = bytes\<rparr>
          | Delete r \<Rightarrow> encode_delete_response (call_id c) \<lparr>dlr_status = status\<rparr>)), w1))"

fun answers :: "(StorageHost \<times> storage_call) list \<Rightarrow> StorageWorker \<Rightarrow> outgoing list \<times> StorageWorker" where
  "answers [] w = ([], w)"
| "answers ((h, c) # hcs) w =
     (case answer h c w of (out, w1) \<Rightarrow> (case answers hcs w1 of (outs, w2) \<Rightarrow> (out # outs, w2)))"

lemma answers_snoc:
  "answers (hcs @ [(h, c)]) w =
   (case answers hcs w of (outs, w1) \<Rightarrow> (case answer h c w1 of (out, w2) \<Rightarrow> (outs @ [out], w2)))"
  by (induction hcs arbitrary: w) (auto split: prod.split)

lemma answers_length: "length (fst (answers hcs w)) = length hcs"
proof (induction hcs arbitrary: w)
  case (Cons hc hcs)
  obtain h c where "hc = (h, c)" by fastforce
  moreover obtain out w1 where "answer h c w = (out, w1)" by fastforce
  ultimately show ?case using Cons.IH [of w1] by (cases "answers hcs w1") simp
qed simp

text \<open>The worker ignores the context of a request, and answers a job as its call.\<close>

lemma context_ignored:
  "write_chunk h (r\<lparr>ptq_context := c\<rparr>) w = write_chunk h r w"
  "read_object h (g\<lparr>gtq_context := c\<rparr>) w = read_object h g w"
proof -
  have put: "ptq_object_id (r\<lparr>ptq_context := c\<rparr>) = ptq_object_id r" "ptq_chunk_index (r\<lparr>ptq_context := c\<rparr>) = ptq_chunk_index r"
    "ptq_data (r\<lparr>ptq_context := c\<rparr>) = ptq_data r" "ptq_final_chunk (r\<lparr>ptq_context := c\<rparr>) = ptq_final_chunk r"
    by simp_all
  have get: "gtq_object_id (g\<lparr>gtq_context := c\<rparr>) = gtq_object_id g" "gtq_chunk_index (g\<lparr>gtq_context := c\<rparr>) = gtq_chunk_index g"
    "gtq_byte_count (g\<lparr>gtq_context := c\<rparr>) = gtq_byte_count g"
    by simp_all
  show "write_chunk h (r\<lparr>ptq_context := c\<rparr>) w = write_chunk h r w"
    unfolding write_chunk_def put by (rule refl)
  show "read_object h (g\<lparr>gtq_context := c\<rparr>) w = read_object h g w"
    unfolding read_object_def get by (rule refl)
qed

lemma handle_job: "handle_storage h (call_job c) w = (case answer h c w of (out, w1) \<Rightarrow> (Inr out, w1))"
  by (cases "call_request c")
    (simp_all add: call_job_def answer_def handle_put_def handle_get_def handle_delete_def context_ignored
      put_response.enc_frame get_response.enc_frame delete_response.enc_frame split: prod.split)

lemma answer_type: "answer h c w = (out, w1) \<Longrightarrow> hdr_type (frame_header (snd out)) = STORAGE_RPC"
  by (cases "call_request c")
    (auto simp: answer_def put_response.enc_frame get_response.enc_frame delete_response.enc_frame split: prod.splits)

text \<open>The producer makes the job of a call from its message.\<close>

lemma push_call:
  assumes "call_ok c"
  shows "push_storage_job (call_message c) jobs = Inr (jobs @ [call_job c])"
proof (cases "call_request c")
  case (Put r)
  with assms put_request.received [of r "call_sender c" "call_id c"] show ?thesis
    by (auto simp: call_ok_def body_fits_def push_storage_job_def call_message_def put_request.enc_frame
        storage_event_def call_job_def push_def)
next
  case (Get r)
  with assms get_request.received [of r "call_sender c" "call_id c"] show ?thesis
    by (auto simp: call_ok_def body_fits_def push_storage_job_def call_message_def get_request.enc_frame
        storage_event_def call_job_def push_def)
next
  case (Delete r)
  with assms delete_request.received [of r "call_sender c" "call_id c"] show ?thesis
    by (auto simp: call_ok_def body_fits_def push_storage_job_def call_message_def delete_request.enc_frame
        storage_event_def call_job_def push_def)
qed

section \<open>Runs\<close>

definition replies :: "StorageNode \<Rightarrow> outgoing list" where
  "replies s = filter (\<lambda>(_, f). hdr_type (frame_header f) \<noteq> STORAGE_HEARTBEAT) (sn_sent s)"

text \<open>
  Started with worker \<open>w\<close>, the node has answered \<open>served\<close>, and \<open>queued\<close> are its jobs and
  \<open>waiting\<close> its messages.
\<close>

definition has_served ::
  "StorageWorker \<Rightarrow> (StorageHost \<times> storage_call) list \<Rightarrow> storage_call list \<Rightarrow> storage_call list \<Rightarrow> StorageNode \<Rightarrow> bool" where
  "has_served w served queued waiting s \<longleftrightarrow> answers served w = (replies s, sn_worker s)
     \<and> sn_jobs s = map call_job queued \<and> sn_inbox s = map call_message waiting
     \<and> list_all call_ok waiting \<and> \<not> sn_stopping s"

fun arrivals :: "storage_turn list \<Rightarrow> Message list" where
  "arrivals [] = []"
| "arrivals (Arrives m # ts) = m # arrivals ts"
| "arrivals (_ # ts) = arrivals ts"

lemma arrive_step:
  "has_served w served queued waiting s \<Longrightarrow> call_ok c \<Longrightarrow>
   \<exists>s'. take_turn (Arrives (call_message c)) s = (Inr (), s') \<and> has_served w served queued (waiting @ [c]) s'"
  by (simp add: has_served_def replies_def push_def)

lemma produce_step:
  "has_served w served queued waiting s \<Longrightarrow>
   \<exists>s'. take_turn Produces s = (Inr (), s') \<and> has_served w served (queued @ take 1 waiting) (drop 1 waiting) s'"
  by (cases waiting) (auto simp: has_served_def produce_job_def replies_def pop_def push_call Let_def)

lemma work_step:
  assumes "has_served w served queued waiting s"
  shows "\<exists>s'. take_turn (Works h) s = (Inr (), s')
    \<and> has_served w (served @ map (Pair h) (take 1 queued)) (drop 1 queued) waiting s'"
proof (cases queued)
  case Nil
  with assms show ?thesis by (auto simp: has_served_def work_job_def pop_def)
next
  case (Cons c cs)
  obtain out w1 where "answer h c (sn_worker s) = (out, w1)" by fastforce
  with assms Cons answer_type [of h c "sn_worker s" out w1] show ?thesis
    by (auto simp: has_served_def work_job_def pop_def handle_job answers_snoc replies_def split: prod.split)
qed

lemma beat_step:
  "has_served w served queued waiting s \<Longrightarrow>
   \<exists>s'. take_turn Beats s = (Inr (), s') \<and> has_served w served queued waiting s'"
  by (auto simp: has_served_def heart_beat_def replies_def heartbeat_frame_def)

text \<open>Every schedule without a stop: nothing throws, and the calls stay in order.\<close>

lemma schedule_served:
  "has_served w served queued waiting s \<Longrightarrow> Stops \<notin> set turns \<Longrightarrow> arrivals turns = map call_message calls \<Longrightarrow>
   list_all call_ok calls \<Longrightarrow>
   \<exists>s' served' queued' waiting'. act_each take_turn turns s = (Inr (), s') \<and> has_served w served' queued' waiting' s'
     \<and> map snd served' @ queued' @ waiting' = map snd served @ queued @ waiting @ calls"
proof (induction turns arbitrary: s served queued waiting calls)
  case Nil
  then show ?case by (fastforce simp: act_return_def)
next
  case (Cons turn turns)
  have "\<exists>s1 served1 queued1 waiting1 calls1. take_turn turn s = (Inr (), s1) \<and> has_served w served1 queued1 waiting1 s1
     \<and> arrivals turns = map call_message calls1 \<and> list_all call_ok calls1
     \<and> map snd served1 @ queued1 @ waiting1 @ calls1 = map snd served @ queued @ waiting @ calls"
  proof (cases turn)
    case (Arrives m)
    with Cons.prems obtain c cs where calls: "calls = c # cs" "m = call_message c" "call_ok c"
      by (cases calls) auto
    from arrive_step [OF Cons.prems(1) calls(3)] Arrives calls Cons.prems show ?thesis by fastforce
  next
    case Produces
    have "queued @ take 1 waiting @ drop 1 waiting = queued @ waiting" by (simp only: append_take_drop_id)
    with produce_step [OF Cons.prems(1)] Produces Cons.prems show ?thesis
      by (metis append.assoc arrivals.simps(3))
  next
    case (Works h)
    have "map snd (served @ map (Pair h) (take 1 queued)) @ drop 1 queued = map snd served @ queued"
      by (simp add: comp_def)
    with work_step [OF Cons.prems(1), of h] Works Cons.prems show ?thesis
      by (metis append.assoc arrivals.simps(4))
  next
    case Beats
    with beat_step [OF Cons.prems(1)] Cons.prems show ?thesis by (metis arrivals.simps(5))
  qed (use Cons.prems(2) in simp)
  then obtain s1 served1 queued1 waiting1 calls1 where 1: "take_turn turn s = (Inr (), s1)"
    "has_served w served1 queued1 waiting1 s1" "arrivals turns = map call_message calls1" "list_all call_ok calls1"
    "map snd served1 @ queued1 @ waiting1 @ calls1 = map snd served @ queued @ waiting @ calls"
    by blast
  from Cons.IH [OF 1(2) _ 1(3,4)] Cons.prems(2) 1(1,5) show ?case
    by (auto simp: act_then_def)
qed

text \<open>Turns that let the threads catch up.\<close>

definition settling :: "nat \<Rightarrow> StorageHost \<Rightarrow> storage_turn list" where
  "settling n h = replicate n Produces @ replicate n (Works h)"

lemma act_each_append: "act_each f (xs @ ys) s = act_then (act_each f xs) (\<lambda>_. act_each f ys) s"
  by (induction xs arbitrary: s) (auto simp: act_then_def act_return_def split: prod.split sum.split)

lemma produce_all:
  "has_served w served queued waiting s \<Longrightarrow> length waiting \<le> n \<Longrightarrow>
   \<exists>s'. act_each take_turn (replicate n Produces) s = (Inr (), s') \<and> has_served w served (queued @ waiting) [] s'"
proof (induction n arbitrary: s queued waiting)
  case 0
  then show ?case by (simp add: act_return_def)
next
  case (Suc n)
  from produce_step [OF Suc.prems(1)] obtain s1 where s1: "take_turn Produces s = (Inr (), s1)"
    "has_served w served (queued @ take 1 waiting) (drop 1 waiting) s1" by blast
  from Suc.IH [OF s1(2)] Suc.prems(2) s1(1) show ?case
    by (cases waiting) (auto simp: act_then_def)
qed

lemma work_all:
  "has_served w served queued waiting s \<Longrightarrow> length queued \<le> n \<Longrightarrow>
   \<exists>s'. act_each take_turn (replicate n (Works h)) s = (Inr (), s')
     \<and> has_served w (served @ map (Pair h) queued) [] waiting s'"
proof (induction n arbitrary: s served queued)
  case 0
  then show ?case by (simp add: act_return_def)
next
  case (Suc n)
  from work_step [OF Suc.prems(1), of h] obtain s1 where s1: "take_turn (Works h) s = (Inr (), s1)"
    "has_served w (served @ map (Pair h) (take 1 queued)) (drop 1 queued) waiting s1" by blast
  from Suc.IH [OF s1(2)] Suc.prems(2) s1(1) show ?case
    by (cases queued) (auto simp: act_then_def)
qed

lemma settled:
  assumes "has_served w served queued waiting s" "length queued + length waiting \<le> n"
  shows "\<exists>s' served'. act_each take_turn (settling n h) s = (Inr (), s') \<and> has_served w served' [] [] s'
    \<and> map snd served' = map snd served @ queued @ waiting"
proof -
  from produce_all [OF assms(1), of n] assms(2) obtain s1 where s1: "act_each take_turn (replicate n Produces) s = (Inr (), s1)"
    "has_served w served (queued @ waiting) [] s1" by auto
  from work_all [OF s1(2), of n h] assms(2) obtain s2 where "act_each take_turn (replicate n (Works h)) s1 = (Inr (), s2)"
    "has_served w (served @ map (Pair h) (queued @ waiting)) [] [] s2" by auto
  with s1(1) show ?thesis
    by (intro exI [of _ s2] exI [of _ "served @ map (Pair h) (queued @ waiting)"])
      (simp add: settling_def act_each_append act_then_def comp_def)
qed

section \<open>Samples\<close>

definition idle_node :: "StorageWorker \<Rightarrow> StorageNode" where
  "idle_node w = \<lparr>sn_worker = w, sn_inbox = [], sn_jobs = [], sn_sent = [], metadata_node = ''m'', sn_stopping = False\<rparr>"

lemma idle_served: "has_served w [] [] [] (idle_node w)"
  by (simp add: has_served_def idle_node_def replies_def)

definition sample_call :: "u64 \<Rightarrow> storage_request \<Rightarrow> storage_call" where
  "sample_call i r = \<lparr>call_sender = \<lparr>peer_id = ''m'', peer_role = METADATA\<rparr>, call_id = i, call_request = r\<rparr>"

definition sample_calls :: "storage_call list" where
  "sample_calls = [sample_call 1 (Put (sample_put ''a'' 0 True [1, 2])), sample_call 2 (Delete \<lparr>dlq_object_id = ''a'', dlq_context = sample_context\<rparr>)]"

definition sample_turns :: "storage_turn list" where
  "sample_turns = [Beats, Arrives (call_message (sample_calls ! 0)), Produces, Arrives (call_message (sample_calls ! 1)), Works roomy]"

lemma sample_calls_ok: "list_all call_ok sample_calls"
  by (simp add: sample_calls_def sample_call_def call_ok_def nul_free_def sample_put_def)

lemma sample_turns_arrivals: "arrivals sample_turns = map call_message sample_calls" "Stops \<notin> set sample_turns"
  by (simp_all add: sample_turns_def sample_calls_def)

section \<open>Properties of the storage node\<close>

text \<open>C35. Under every schedule of its threads a storage node answers the calls that arrive in their
  order, each once: what it has sent besides heartbeats are the answers its worker gives to
  the first of the calls, and no schedule makes it throw.\<close>

theorem storage_answers_in_order:
  assumes "Stops \<notin> set turns" "arrivals turns = map call_message calls" "list_all call_ok calls"
  shows "\<exists>s' served. act_each take_turn turns (idle_node w) = (Inr (), s')
    \<and> answers served w = (replies s', sn_worker s') \<and> map snd served = take (length (replies s')) calls"
proof -
  from schedule_served [OF idle_served [of w] assms] obtain s' served queued waiting where run:
    "act_each take_turn turns (idle_node w) = (Inr (), s')" "has_served w served queued waiting s'"
    "map snd served @ queued @ waiting = calls" by auto
  then have eq: "answers served w = (replies s', sn_worker s')" by (simp add: has_served_def)
  then have "length (replies s') = length served" using answers_length [of served w] by simp
  with run(3) have "map snd served = take (length (replies s')) calls" by (metis append_eq_conv_conj length_map)
  with run(1) eq show ?thesis by blast
qed

theorem storage_answers_in_order_witness:
  "\<exists>s' served. act_each take_turn sample_turns (idle_node sample_worker) = (Inr (), s')
    \<and> answers served sample_worker = (replies s', sn_worker s') \<and> map snd served = take (length (replies s')) sample_calls"
  by (rule storage_answers_in_order [OF sample_turns_arrivals(2,1) sample_calls_ok])

text \<open>No call waits forever: after any schedule, as many further iterations of the producer and
  of the worker thread as calls have come leave no call unanswered.\<close>

theorem storage_calls_answered:
  assumes "Stops \<notin> set turns" "arrivals turns = map call_message calls" "list_all call_ok calls"
    "length calls \<le> n"
  shows "\<exists>s' served. act_each take_turn (turns @ settling n h) (idle_node w) = (Inr (), s')
    \<and> answers served w = (replies s', sn_worker s') \<and> map snd served = calls"
proof -
  from schedule_served [OF idle_served [of w] assms(1-3)] obtain s1 served queued waiting where run:
    "act_each take_turn turns (idle_node w) = (Inr (), s1)" "has_served w served queued waiting s1"
    "map snd served @ queued @ waiting = calls" by auto
  from run(3) assms(4) have "length queued + length waiting \<le> n" by auto
  from settled [OF run(2) this, of h] run(1,3) show ?thesis
    by (fastforce simp: act_each_append act_then_def has_served_def)
qed

theorem storage_calls_answered_witness:
  "\<exists>s' served. act_each take_turn (sample_turns @ settling 2 roomy) (idle_node sample_worker) = (Inr (), s')
    \<and> answers served sample_worker = (replies s', sn_worker s') \<and> map snd served = sample_calls"
  by (rule storage_calls_answered [OF sample_turns_arrivals(2,1) sample_calls_ok]) (simp add: sample_calls_def)

text \<open>A message that is no well-formed storage call ends the storage node: the producer takes
  every message there is, and the exception of the reader leaves its thread.\<close>

lemma unexpected_message_ends_storage_node:
  "hdr_type (msg_header m) \<noteq> STORAGE_RPC \<Longrightarrow>
   fst (produce_job ((idle_node w)\<lparr>sn_inbox := [m]\<rparr>)) = Inl RuntimeError"
  by (simp add: produce_job_def idle_node_def pop_def push_storage_job_def read_message_def validate_message_def)

lemma unexpected_message_ends_storage_node_witness:
  "fst (produce_job ((idle_node sample_worker)\<lparr>sn_inbox :=
      [message_from \<lparr>peer_id = ''m'', peer_role = METADATA\<rparr> heartbeat_frame]\<rparr>)) = Inl RuntimeError"
  by (rule unexpected_message_ends_storage_node) (simp add: heartbeat_frame_def)

end
