(* ===== verification/Client.thy ===== *)
theory Client
  imports Actions FileSystem ClientProtocol
begin

text \<open>
  \<^verbatim>\<open>client/Client.hpp\<close> and \<^verbatim>\<open>Client.cpp\<close>: the client library. An operation is an action on the
  client that sends requests to the metadata node, waits for the responses, and returns the
  \<^verbatim>\<open>std::expected\<close> result; exceptions of the decoders leave the operation. The local files
  that \<^verbatim>\<open>read_file\<close> and \<^verbatim>\<open>write_file\<close> use are on a disk of the client.
\<close>

section \<open>State\<close>

record 'e Client =
  current_id :: u64
  cl_metadata_node :: NodeId
  cl_disk :: disk
  cl_net :: "'e Net"

text \<open>The network, the host's failures, and the locations that local path names denote.\<close>

record 'e ClientEnv =
  ce_outside :: "'e Outside"
  ce_faults :: Faults
  ce_located :: "path \<Rightarrow> location"

type_synonym ('e, 'a) client_act = "('e Client, ClientError + 'a) act"

text \<open>Without a metadata node among the seeds the id stays empty.\<close>

fun first_metadata_node :: "Endpoint list \<Rightarrow> NodeId" where
  "first_metadata_node [] = []"
| "first_metadata_node (node # nodes) =
     (if ep_role node = METADATA then ep_node_id node else first_metadata_node nodes)"

definition new_client :: "Endpoint list \<Rightarrow> disk \<Rightarrow> 'e Net \<Rightarrow> 'e Client" where
  "new_client seed_nodes d net =
     \<lparr>current_id = 0, cl_metadata_node = first_metadata_node seed_nodes, cl_disk = d, cl_net = net\<rparr>"

definition next_id :: "('e Client, u64) act" where
  "next_id = act_step (\<lambda>s. let i = current_id s + 1 in (i, s\<lparr>current_id := i\<rparr>))"

definition validate_rpc_header :: "ClientJob \<Rightarrow> RpcKind \<Rightarrow> ClientJob RpcHeader \<Rightarrow> u64 \<Rightarrow> bool" where
  "validate_rpc_header job kind header request_id \<longleftrightarrow>
     rpc_request_id header = request_id \<and> rpc_kind header = kind \<and> rpc_job header = job"

fun status_to_error :: "ClientStatus \<Rightarrow> ClientError" where
  "status_to_error AlreadyExists = ErrAlreadyExists"
| "status_to_error _ = ErrServerError"

section \<open>One exchange with the metadata node\<close>

definition client_send :: "'e ClientEnv \<Rightarrow> Frame \<Rightarrow> ('e Client, unit) act" where
  "client_send env frame =
     act_modify (\<lambda>s. s\<lparr>cl_net := post_frame (ce_outside env) (cl_metadata_node s) frame (cl_net s)\<rparr>)"

definition client_receive_if ::
  "'e ClientEnv \<Rightarrow> u64 \<Rightarrow> ClientJob \<Rightarrow> bool get \<Rightarrow> ('e Client, Message option) act" where
  "client_receive_if env request_id job body_predicate =
     act_step (\<lambda>s. case await_if (ce_outside env)
         (make_message_is client_rpc request_id job Response (cl_metadata_node s) body_predicate) (cl_net s) of
       (m, n) \<Rightarrow> (m, s\<lparr>cl_net := n\<rparr>))"

text \<open>
  The steps every operation takes for a request: encode, send, wait, read, validate, decode.
\<close>

definition call ::
  "'e ClientEnv \<Rightarrow> u64 \<Rightarrow> ClientJob \<Rightarrow> bool get \<Rightarrow> (u64 \<Rightarrow> 'q \<Rightarrow> exn + Frame) \<Rightarrow> 'q
   \<Rightarrow> (ClientRpcMessage \<Rightarrow> exn + 'r) \<Rightarrow> ('e, 'r) client_act" where
  "call env request_id job body_predicate encoder request decoder =
     act_then (act_lift (encoder request_id request)) (\<lambda>frame.
     act_then (client_send env frame) (\<lambda>_.
     act_then (client_receive_if env request_id job body_predicate) (\<lambda>message.
     case message of
       None \<Rightarrow> act_return (Inl ErrTimeout)
     | Some m \<Rightarrow>
         act_then (act_lift (read_message client_rpc m)) (\<lambda>rpc_message.
         if \<not> validate_rpc_header job Response (rpc_header rpc_message) request_id
         then act_return (Inl ErrBadResponse)
         else act_then (act_lift (decoder rpc_message)) (\<lambda>response. act_return (Inr response))))))"

text \<open>The operations with one exchange: what a status and a value of the response come to.\<close>

definition by_status :: "ClientStatus \<Rightarrow> 'a \<Rightarrow> ClientError + 'a" where
  "by_status status x = (if status = Success then Inr x else Inl (status_to_error status))"

definition simple_call ::
  "'e ClientEnv \<Rightarrow> ClientJob \<Rightarrow> (u64 \<Rightarrow> 'q \<Rightarrow> exn + Frame) \<Rightarrow> 'q \<Rightarrow> (ClientRpcMessage \<Rightarrow> exn + 'r)
   \<Rightarrow> ('r \<Rightarrow> ClientStatus) \<Rightarrow> ('r \<Rightarrow> 'a) \<Rightarrow> ('e, 'a) client_act" where
  "simple_call env job encoder request decoder status_of value_of =
     act_then next_id (\<lambda>request_id.
     act_then (call env request_id job match_any_body encoder request decoder) (\<lambda>result.
       case result of
         Inl e \<Rightarrow> act_return (Inl e)
       | Inr response \<Rightarrow> act_return (by_status (status_of response) (value_of response))))"

definition create_file :: "'e ClientEnv \<Rightarrow> path \<Rightarrow> ('e, unit) client_act" where
  "create_file env path =
     simple_call env CREATE_FILE encode_create_file_request \<lparr>cfq_path = lexically_normal path, cfq_context = empty_context\<rparr>
       decode_create_file_response cfr_status (\<lambda>_. ())"

definition client_remove :: "'e ClientEnv \<Rightarrow> path \<Rightarrow> ('e, unit) client_act" where
  "client_remove env path =
     simple_call env REMOVE encode_remove_request \<lparr>rmq_path = path, rmq_context = empty_context\<rparr>
       decode_remove_response rmr_status (\<lambda>_. ())"

definition client_list :: "'e ClientEnv \<Rightarrow> path \<Rightarrow> ('e, FileInfo list) client_act" where
  "client_list env directory =
     simple_call env LIST encode_list_request \<lparr>lsq_path = directory, lsq_context = empty_context\<rparr>
       decode_list_response lsr_status lsr_info_vec"

definition client_mkdir :: "'e ClientEnv \<Rightarrow> path \<Rightarrow> ('e, unit) client_act" where
  "client_mkdir env path =
     simple_call env MKDIR encode_mkdir_request \<lparr>mdq_path = path, mdq_context = empty_context\<rparr>
       decode_mkdir_response mdr_status (\<lambda>_. ())"

definition client_rename :: "'e ClientEnv \<Rightarrow> path \<Rightarrow> path \<Rightarrow> ('e, unit) client_act" where
  "client_rename env old_path new_path =
     simple_call env RENAME encode_rename_request
       \<lparr>rnq_old_path = old_path, rnq_new_path = new_path, rnq_context = empty_context\<rparr>
       decode_rename_response rnr_status (\<lambda>_. ())"

definition client_stat :: "'e ClientEnv \<Rightarrow> path \<Rightarrow> ('e, FileStat) client_act" where
  "client_stat env path =
     simple_call env STAT encode_stat_request \<lparr>stq_path = path, stq_context = empty_context\<rparr>
       decode_stat_response str_status str_stat"

section \<open>Reading a file\<close>

fun decimal :: "nat \<Rightarrow> string" where
  "decimal n = (if n < 10 then [char_of (48 + n)] else decimal (n div 10) @ [char_of (48 + n mod 10)])"

declare decimal.simps [simp del]

definition chunks_expected :: "u64 \<Rightarrow> u64" where
  "chunks_expected n = n div ucast CHUNK_SIZE + (if n mod ucast CHUNK_SIZE \<noteq> 0 then 1 else 0)"

definition size_expected :: "u64 \<Rightarrow> u32 \<Rightarrow> u64" where
  "size_expected file_size chunk_index =
     (let offset = ucast chunk_index * ucast CHUNK_SIZE in min (ucast CHUNK_SIZE) (file_size - offset))"

definition remove_local :: "'e ClientEnv \<Rightarrow> location \<Rightarrow> ('e Client, unit) act" where
  "remove_local env p = act_modify (\<lambda>s. s\<lparr>cl_disk := snd (fs_remove (ce_faults env) (cl_disk s) p)\<rparr>)"

text \<open>\<^verbatim>\<open>discard_temporary\<close> and the error returned after it.\<close>

definition give_up :: "'e ClientEnv \<Rightarrow> location \<Rightarrow> ClientError \<Rightarrow> ('e, 'a) client_act" where
  "give_up env tmp e = act_then (remove_local env tmp) (\<lambda>_. act_return (Inl e))"

definition open_output :: "'e ClientEnv \<Rightarrow> location \<Rightarrow> ('e Client, location option) act" where
  "open_output env tmp = act_step (\<lambda>s. case open_out (ce_faults env) (cl_disk s) tmp False of
     (Inl _, d) \<Rightarrow> (None, s\<lparr>cl_disk := d\<rparr>) | (Inr l, d) \<Rightarrow> (Some l, s\<lparr>cl_disk := d\<rparr>))"

definition write_output :: "'e ClientEnv \<Rightarrow> location \<Rightarrow> byte list \<Rightarrow> ('e Client, bool) act" where
  "write_output env output bytes = act_step (\<lambda>s. case append_out (ce_faults env) (cl_disk s) output bytes of
     (ok, d) \<Rightarrow> (ok, s\<lparr>cl_disk := d\<rparr>))"

text \<open>The loop over the chunks; \<open>output\<close> is the open temporary file.\<close>

function read_chunks ::
  "'e ClientEnv \<Rightarrow> u64 \<Rightarrow> ReadFileResponse \<Rightarrow> location \<Rightarrow> location \<Rightarrow> u32 \<Rightarrow> ('e, unit) client_act" where
  "read_chunks env request_id response tmp output chunk_index =
     (if chunk_index \<ge> rfr_chunk_count response then act_return (Inr ())
      else act_then (call env request_id READ_CHUNK (chunk_index_is chunk_index) encode_read_chunk_request
          \<lparr>rcq_chunk_index = chunk_index, rcq_context = empty_context\<rparr> decode_read_chunk_response) (\<lambda>result.
        case result of
          Inl e \<Rightarrow> give_up env tmp e
        | Inr chunk \<Rightarrow>
            if rcr_status chunk \<noteq> Success then give_up env tmp (status_to_error (rcr_status chunk))
            else if rcr_chunk_index chunk \<noteq> chunk_index
                \<or> length (rcr_data chunk) \<noteq> unat (size_expected (rfr_file_size response) chunk_index)
            then give_up env tmp ErrBadResponse
            else act_then (write_output env output (rcr_data chunk)) (\<lambda>ok.
              if \<not> ok then give_up env tmp ErrReadError
              else read_chunks env request_id response tmp output (chunk_index + 1))))"
  by pat_completeness auto
termination
  by (relation "measure (\<lambda>(env, rid, response, tmp, output, i). unat (rfr_chunk_count response) - unat i)")
    (auto simp: not_le counts_up dest: counts_towards)

declare read_chunks.simps [simp del]

text \<open>Flush, close, and the renaming of the temporary file.\<close>

definition finish_read :: "'e ClientEnv \<Rightarrow> location \<Rightarrow> location \<Rightarrow> ('e, unit) client_act" where
  "finish_read env tmp destination =
     (let f = ce_faults env in
      if fails f Sys_flush tmp \<or> fails f Sys_close tmp then give_up env tmp ErrReadError
      else act_then (act_step (\<lambda>s. case fs_rename f (cl_disk s) tmp destination of (ec, d) \<Rightarrow> (ec, s\<lparr>cl_disk := d\<rparr>)))
        (\<lambda>rename_error. if rename_error \<noteq> None then give_up env tmp ErrReadError else act_return (Inr ())))"

definition read_file :: "'e ClientEnv \<Rightarrow> path \<Rightarrow> path \<Rightarrow> ('e, unit) client_act" where
  "read_file env from_path to_path =
     act_then next_id (\<lambda>request_id.
     act_then (call env request_id READ_FILE match_any_body encode_read_file_request
         \<lparr>rfq_path = from_path, rfq_context = empty_context\<rparr> decode_read_file_response) (\<lambda>result.
     case result of
       Inl e \<Rightarrow> act_return (Inl e)
     | Inr response \<Rightarrow>
         if rfr_status response \<noteq> Success then act_return (Inl (status_to_error (rfr_status response)))
         else if chunks_expected (rfr_file_size response) \<noteq> ucast (rfr_chunk_count response)
         then act_return (Inl ErrBadResponse)
         else if to_path = [] then act_return (Inl ErrBadInput)
         else
           let destination = ce_located env to_path;
               tmp = ce_located env (to_path @ ''.dfs-read-'' @ decimal (unat request_id) @ ''.tmp'') in
           act_then (open_output env tmp) (\<lambda>opened.
           case opened of
             None \<Rightarrow> act_return (Inl ErrBadInput)
           | Some output \<Rightarrow>
               act_then (read_chunks env request_id response tmp output 0) (\<lambda>result.
               case result of Inl e \<Rightarrow> act_return (Inl e) | Inr _ \<Rightarrow> finish_read env tmp destination))))"

section \<open>Writing a file\<close>

text \<open>
  The loop over the chunks; \<open>content\<close> is what the local stream has not yet given. \<open>status\<close>
  is compared only after the index.
\<close>

function write_chunks ::
  "'e ClientEnv \<Rightarrow> u64 \<Rightarrow> u32 \<Rightarrow> location \<Rightarrow> byte list \<Rightarrow> u32 \<Rightarrow> ('e, unit) client_act" where
  "write_chunks env request_id chunk_count local content chunk_index =
     (if chunk_index \<ge> chunk_count then act_return (Inr ())
      else let bytes = (if fails (ce_faults env) Sys_read local then [] else take (unat CHUNK_SIZE) content) in
        if bytes = [] then act_return (Inl ErrReadError)
        else act_then (call env request_id WRITE_CHUNK (chunk_index_is chunk_index) encode_write_chunk_request
            \<lparr>wcq_chunk_index = chunk_index, wcq_data = bytes, wcq_context = empty_context\<rparr> decode_write_chunk_response)
          (\<lambda>result. case result of
             Inl e \<Rightarrow> act_return (Inl e)
           | Inr response \<Rightarrow>
               if wcr_chunk_index response \<noteq> chunk_index then act_return (Inl ErrBadResponse)
               else if wcr_status response \<noteq> Success then act_return (Inl (status_to_error (wcr_status response)))
               else write_chunks env request_id chunk_count local (drop (length bytes) content) (chunk_index + 1)))"
  by pat_completeness auto
termination
  by (relation "measure (\<lambda>(env, rid, n, p, content, i). unat n - unat i)")
    (auto simp: not_le counts_up dest: counts_towards)

declare write_chunks.simps [simp del]

text \<open>A directory can be opened as a stream, but \<^verbatim>\<open>fs::file_size\<close> throws on it.\<close>

definition open_local :: "'e ClientEnv \<Rightarrow> location \<Rightarrow> ('e, byte list) client_act" where
  "open_local env p s =
     (case open_in (ce_faults env) (cl_disk s) p of
        Inl e \<Rightarrow> if e = is_a_directory then (Inl SystemError, s) else (Inr (Inl ErrBadInput), s)
      | Inr content \<Rightarrow>
          if fails (ce_faults env) Sys_status p then (Inl SystemError, s) else (Inr (Inr content), s))"

definition write_file :: "'e ClientEnv \<Rightarrow> path \<Rightarrow> path \<Rightarrow> ('e, unit) client_act" where
  "write_file env local_path path =
     act_then next_id (\<lambda>request_id.
     act_then (open_local env (ce_located env local_path)) (\<lambda>opened.
     case opened of
       Inl e \<Rightarrow> act_return (Inl e)
     | Inr content \<Rightarrow>
         let file_size = word_of_nat (length content) :: u64; chunks = chunks_expected file_size in
         if chunks > ucast (- 1 :: u32) then act_return (Inl ErrStorageFull)
         else let chunk_count = ucast chunks :: u32 in
           act_then (call env request_id WRITE_FILE match_any_body encode_write_file_request
               \<lparr>wfq_file_size = file_size, wfq_chunk_count = chunk_count, wfq_path = path, wfq_context = empty_context\<rparr>
               decode_write_file_response) (\<lambda>result.
           case result of
             Inl e \<Rightarrow> act_return (Inl e)
           | Inr response \<Rightarrow>
               if wfr_status response \<noteq> Success then act_return (Inl (status_to_error (wfr_status response)))
               else write_chunks env request_id chunk_count (ce_located env local_path) content 0)))"

section \<open>What an exchange does\<close>

text \<open>A message the filter lets through reads and validates, so only its decoding can fail.\<close>

lemma call_run:
  fixes encoder :: "u64 \<Rightarrow> 'q \<Rightarrow> exn + Frame" and decoder :: "ClientRpcMessage \<Rightarrow> exn + 'r" and s :: "'e Client"
  assumes "encoder rid q = Inr f"
  shows "call env rid job bp encoder q decoder s =
    (case await_if (ce_outside env) (make_message_is client_rpc rid job Response (cl_metadata_node s) bp)
        (post_frame (ce_outside env) (cl_metadata_node s) f (cl_net s)) of
       (None, n) \<Rightarrow> (Inr (Inl ErrTimeout), s\<lparr>cl_net := n\<rparr>)
     | (Some m, n) \<Rightarrow> (and_then (read_message client_rpc m) (\<lambda>rpc. and_then (decoder rpc) (\<lambda>r. Inr (Inr r))), s\<lparr>cl_net := n\<rparr>))"
proof -
  let ?p = "make_message_is client_rpc rid job Response (cl_metadata_node s) bp"
  obtain m n where await: "await_if (ce_outside env) ?p (post_frame (ce_outside env) (cl_metadata_node s) f (cl_net s)) = (m, n)"
    by fastforce
  show ?thesis
  proof (cases m)
    case None
    with await assms show ?thesis
      by (simp add: call_def act_then_def act_lift_def client_send_def act_modify_def client_receive_if_def act_step_def act_return_def)
  next
    case (Some x)
    with await have "?p x" using await_if_matches by blast
    then obtain rm where "read_message client_rpc x = Inr rm" "rpc_request_id (rpc_header rm) = rid"
      "rpc_job (rpc_header rm) = job" "rpc_kind (rpc_header rm) = Response"
      by (auto elim: client_job.make_message_is_reads)
    with Some await assms show ?thesis
      by (cases "decoder rm") (simp_all add: call_def act_then_def act_lift_def client_send_def act_modify_def
          client_receive_if_def act_step_def act_return_def validate_rpc_header_def)
  qed
qed

lemma client_rpc_bytes: "job_to_u8 client_rpc = client_job_to_u8"
  by (simp add: client_rpc_def)

lemma pop_if_last: "list_all (\<lambda>x. \<not> P x) q \<Longrightarrow> P x \<Longrightarrow> pop_if P (q @ [x]) = (Some x, q)"
  by (simp add: pop_if_def list_all_iff list_ex_iff takeWhile_append dropWhile_append Let_def
      takeWhile_eq_all_conv [THEN iffD2])

text \<open>
  The metadata node as the client relies on it: a request that it answers leads, by the time
  the client has waited, to one more message in the client's queue.
\<close>

locale service =
  fixes out :: "'e Outside" and server :: NodeIdentity
    and answers :: "Frame \<Rightarrow> 'e \<Rightarrow> Frame \<Rightarrow> 'e \<Rightarrow> bool"
  assumes answered: "answers f e g e' \<Longrightarrow>
    meanwhile out q (deliver out (peer_id server) f e) = (q @ [message_from server g], e')"
begin

lemma call_returns:
  assumes "answers f (net_outside (cl_net s)) (rpc_frame client_rpc rid job Response body) e'"
    and "encoder rid q = Inr f" "ce_outside env = out" "cl_metadata_node s = peer_id server"
    and "list_all (\<lambda>m. \<not> make_message_is client_rpc rid job Response (peer_id server) bp m) (net_queue (cl_net s))"
    and "client_job_ok job" "body_fits body"
    and "\<exists>r. bp (reader_at (be_bytes 8 rid @ [client_job_to_u8 job, 0]) body) = Inr (True, r)"
    and "\<exists>m. read_message client_rpc (message_from server (rpc_frame client_rpc rid job Response body)) = Inr m \<and> dec m = Inr r"
  shows "call env rid job bp encoder q dec s =
    (Inr (Inr r), s\<lparr>cl_net := \<lparr>net_queue = net_queue (cl_net s), net_sent = net_sent (cl_net s) @ [(peer_id server, f)],
       net_outside = e'\<rparr>\<rparr>)"
proof -
  let ?m = "message_from server (rpc_frame client_rpc rid job Response body)"
  let ?p = "make_message_is client_rpc rid job Response (peer_id server) bp"
  have "?p ?m" using assms(6-8) by (simp add: client_job.make_message_is_back client_rpc_bytes)
  then have "pop_if ?p (net_queue (cl_net s) @ [?m]) = (Some ?m, net_queue (cl_net s))"
    by (rule pop_if_last [OF assms(5)])
  with answered [OF assms(1), of "net_queue (cl_net s)"] assms(3,4)
  have "await_if out ?p (post_frame out (peer_id server) f (cl_net s)) =
      (Some ?m, \<lparr>net_queue = net_queue (cl_net s), net_sent = net_sent (cl_net s) @ [(peer_id server, f)], net_outside = e'\<rparr>)"
    by (simp add: await_if_def post_frame_def)
  with assms(9) show ?thesis by (auto simp: call_run [where encoder = encoder and rid = rid and q = q, OF assms(2)] assms(3,4))
qed

end

end
