(* ===== verification/Chunks.thy ===== *)
theory Chunks
  imports ClientProtocol
begin

text \<open>
  The arithmetic of chunks that the client and the metadata node share: how many chunks a size
  has, how long each is, and how a file is cut into them.
\<close>

lemma CHUNK_SIZE_nat: "unat CHUNK_SIZE = 524288"
  by (simp add: CHUNK_SIZE_def)

lemma CHUNK_SIZE_64: "unat (ucast CHUNK_SIZE :: u64) = 524288"
  by (simp add: CHUNK_SIZE_def)

definition count_chunks :: "nat \<Rightarrow> nat" where
  "count_chunks n = n div 524288 + (if n mod 524288 \<noteq> 0 then 1 else 0)"

lemma count_chunks_less: "i < count_chunks n \<longleftrightarrow> i * 524288 < n"
  unfolding count_chunks_def by (rule ceil_div_bounds) simp

lemma count_chunks_0 [simp]: "count_chunks n = 0 \<longleftrightarrow> n = 0"
  using count_chunks_less [of 0 n] by auto

lemma count_chunks_bound: "n \<le> count_chunks n * 524288"
  using count_chunks_less [of "count_chunks n" n] by simp

text \<open>The 64-bit expressions of the code, without overflow or underflow.\<close>

lemma chunk_count_nat:
  "unat ((n :: u64) div ucast CHUNK_SIZE + (if n mod ucast CHUNK_SIZE \<noteq> 0 then 1 else 0)) = count_chunks (unat n)"
proof -
  have m: "n mod ucast CHUNK_SIZE = 0 \<longleftrightarrow> unat n mod 524288 = 0"
    by (simp add: word_eq_iff_unsigned unat_mod_distrib CHUNK_SIZE_64 flip: unat_eq_0)
  have "unat n < 2 ^ 64" using unsigned_less [of n] by simp
  then have "unat n div 524288 \<le> 2 ^ 64 div 524288" by (intro div_le_mono) simp
  then have "unat n div 524288 + 1 < 2 ^ 64" by simp
  then show ?thesis
    by (auto simp: m count_chunks_def unat_word_ariths unat_div_distrib CHUNK_SIZE_64)
qed

lemma chunk_offset_nat: "unat (ucast (i :: u32) * ucast CHUNK_SIZE :: u64) = unat i * 524288"
proof -
  have "unat i < 2 ^ 32" using unsigned_less [of i] by simp
  then have "unat i * 524288 < 2 ^ 64" by simp
  then show ?thesis by (simp add: unat_word_ariths unat_ucast_32_64 CHUNK_SIZE_nat)
qed

lemma chunk_length_nat:
  assumes "unat i * 524288 \<le> unat (n :: u64)"
  shows "unat (min (ucast CHUNK_SIZE) (n - ucast (i :: u32) * ucast CHUNK_SIZE)) = min 524288 (unat n - unat i * 524288)"
proof -
  have le: "ucast i * ucast CHUNK_SIZE \<le> n" using assms by (simp add: word_le_nat_alt chunk_offset_nat)
  have "unat (n - ucast i * ucast CHUNK_SIZE) = unat n - unat i * 524288"
    by (simp add: unat_sub [OF le] chunk_offset_nat)
  then show ?thesis by (auto simp: min_def word_le_nat_alt CHUNK_SIZE_64)
qed

text \<open>Chunk \<open>i\<close> of a file, and that the chunks make up the file.\<close>

definition chunk :: "nat \<Rightarrow> byte list \<Rightarrow> byte list" where
  "chunk i xs = take 524288 (drop (i * 524288) xs)"

lemma length_chunk: "length (chunk i xs) = min 524288 (length xs - i * 524288)"
  by (simp add: chunk_def min.commute)

lemma take_chunk: "take (Suc i * 524288) xs = take (i * 524288) xs @ chunk i xs"
proof -
  have "take (i * 524288 + 524288) xs = take (i * 524288) xs @ take 524288 (drop (i * 524288) xs)"
    by (rule take_add)
  then show ?thesis by (simp add: chunk_def add.commute)
qed

lemma concat_chunks: "concat (map (\<lambda>i. chunk i xs) [0..<k]) = take (k * 524288) xs"
  by (induction k) (simp_all only: take_chunk upt_Suc_append map_append concat_append list.map concat.simps append_Nil2
      take0 mult_0 upt_0 le0)

lemma all_chunks: "concat (map (\<lambda>i. chunk i xs) [0..<count_chunks (length xs)]) = xs"
  unfolding concat_chunks using count_chunks_bound [of "length xs"] by simp

lemma chunk_not_Nil: "i < count_chunks (length xs) \<Longrightarrow> chunk i xs \<noteq> []"
  by (simp add: count_chunks_less chunk_def)

end
