(* ===== verification/ClientSafety.thy ===== *)
theory ClientSafety
  imports Client Chunks
begin

text \<open>
  What the client guarantees on its own, whatever the metadata node and the network do: one
  request per exchange, loops that end, local files that are replaced as a whole or not at
  all, and uploads that send the whole file.
\<close>

section \<open>Exchanges\<close>

abbreviation requests :: "'e Client \<Rightarrow> (NodeId \<times> Frame) list" where
  "requests s \<equiv> net_sent (cl_net s)"

lemma await_posted: "await_if out p (post_frame out node f n) = (m, n') \<Longrightarrow> net_sent n' = net_sent n @ [(node, f)]"
  using await_if_sent by fastforce

lemma call_wp:
  assumes "encoder rid q = Inr f"
    and "\<And>r n. net_sent n = requests s @ [(cl_metadata_node s, f)] \<Longrightarrow> Q r (s\<lparr>cl_net := n\<rparr>)"
    and "\<And>e n. net_sent n = requests s @ [(cl_metadata_node s, f)] \<Longrightarrow> E e (s\<lparr>cl_net := n\<rparr>)"
  shows "wp (call env rid job bp encoder q dec) Q E s"
  unfolding wp_def call_run [where encoder = encoder and rid = rid and q = q, OF assms(1)]
  by (auto split: prod.split option.split sum.split dest!: await_posted intro: assms(2,3))

section \<open>The loop of a download\<close>

definition chunk_request :: "NodeId \<Rightarrow> u64 \<Rightarrow> nat \<Rightarrow> NodeId \<times> Frame" where
  "chunk_request node rid i = (node, rpc_frame client_rpc rid READ_CHUNK Request (be_bytes 4 (word_of_nat i :: u32)))"

text \<open>Everything but the temporary file stays; the disk stays well-formed.\<close>

definition others_kept :: "location \<Rightarrow> 'e Client \<Rightarrow> 'e Client \<Rightarrow> bool" where
  "others_kept tmp s t \<longleftrightarrow> disk_wf (cl_disk t) \<and> (\<forall>l. l \<noteq> tmp \<longrightarrow> node_at (cl_disk t) l = node_at (cl_disk s) l)
     \<and> cl_metadata_node t = cl_metadata_node s"

lemma others_kept_trans: "others_kept tmp s t \<Longrightarrow> others_kept tmp t u \<Longrightarrow> others_kept tmp s u"
  by (simp add: others_kept_def)

lemma others_kept_net [simp]:
  "others_kept tmp (s\<lparr>cl_net := n\<rparr>) t = others_kept tmp s t"
  "others_kept tmp s (t\<lparr>cl_net := n\<rparr>) = others_kept tmp s t"
  by (simp_all add: others_kept_def)

lemma give_up_wp:
  assumes "disk_wf (cl_disk s)" "plain_path tmp" "\<And>t. others_kept tmp s t \<Longrightarrow> Q (Inl e) t"
  shows "wp (give_up env tmp e) Q E s"
proof -
  obtain r d where rm: "fs_remove (ce_faults env) (cl_disk s) tmp = (r, d)" by fastforce
  from remove_ok [OF rm assms(1,2)] have "others_kept tmp s (s\<lparr>cl_disk := d\<rparr>)"
    by (auto simp: others_kept_def split: if_splits)
  with rm show ?thesis by (simp add: give_up_def remove_local_def wp_rules assms(3))
qed

lemma write_output_wp:
  assumes "disk_wf (cl_disk s)" "node_at (cl_disk s) tmp = Some (File c)"
    and "\<And>ok t c'. others_kept tmp s t \<Longrightarrow> requests t = requests s \<Longrightarrow> node_at (cl_disk t) tmp = Some (File c') \<Longrightarrow>
      (ok \<Longrightarrow> c' = c @ bytes) \<Longrightarrow> Q ok t"
  shows "wp (write_output env tmp bytes) Q E s"
proof -
  obtain ok d where app: "append_out (ce_faults env) (cl_disk s) tmp bytes = (ok, d)" by fastforce
  from append_out_ok [OF app assms(1,2)] obtain c' where "disk_wf d" "\<forall>k. k \<noteq> tmp \<longrightarrow> node_at d k = node_at (cl_disk s) k"
    "node_at d tmp = Some (File c')" "ok \<longrightarrow> c' = c @ bytes" by blast
  then have "Q ok (s\<lparr>cl_disk := d\<rparr>)" by (intro assms(3) [of _ c']) (auto simp: others_kept_def)
  then show ?thesis by (simp add: write_output_def wp_rules app)
qed

lemma read_chunks_wp:
  fixes s :: "'e Client"
  assumes "disk_wf (cl_disk s)" "plain_path tmp" "node_at (cl_disk s) tmp = Some (File c)"
    "k \<le> unat (rfr_chunk_count resp)" "count_chunks (unat (rfr_file_size resp)) = unat (rfr_chunk_count resp)"
    "length c = min (k * 524288) (unat (rfr_file_size resp))"
  shows "wp (read_chunks env rid resp tmp tmp (word_of_nat k))
    (\<lambda>r t. others_kept tmp s t \<and> (r = Inr () \<longrightarrow>
        (\<exists>c'. node_at (cl_disk t) tmp = Some (File c') \<and> length c' = unat (rfr_file_size resp))
        \<and> requests t = requests s @ map (chunk_request (cl_metadata_node s) rid) [k..<unat (rfr_chunk_count resp)]))
    (\<lambda>_ t. others_kept tmp s t) s"
  using assms
proof (induction "unat (rfr_chunk_count resp) - k" arbitrary: k s c)
  case 0
  then have k: "k = unat (rfr_chunk_count resp)" by simp
  then have "length c = unat (rfr_file_size resp)"
    using 0 count_chunks_bound [of "unat (rfr_file_size resp)"] by simp
  with 0 k show ?case by (subst read_chunks.simps) (simp add: wp_rules others_kept_def)
next
  case (Suc m)
  let ?fs = "unat (rfr_file_size resp)" and ?i = "word_of_nat k :: u32"
  note small = CHUNK_SIZE_nat
  have k: "k < unat (rfr_chunk_count resp)" using Suc.hyps(2) by simp
  note i = index_below [OF k]
  have off: "k * 524288 < ?fs" using k Suc.prems(5) by (metis count_chunks_less)
  then have size: "unat (size_expected (rfr_file_size resp) ?i) = min 524288 (?fs - k * 524288)"
    using chunk_length_nat [of ?i "rfr_file_size resp"] i by (simp add: size_expected_def Let_def)
  let ?Q = "\<lambda>r t. others_kept tmp s t \<and> (r = Inr () \<longrightarrow>
        (\<exists>c'. node_at (cl_disk t) tmp = Some (File c') \<and> length c' = unat (rfr_file_size resp))
        \<and> requests t = requests s @ map (chunk_request (cl_metadata_node s) rid) [k..<unat (rfr_chunk_count resp)])"
  let ?E = "\<lambda>_ :: exn. others_kept tmp s"
  have upt: "[k..<unat (rfr_chunk_count resp)] = k # [Suc k..<unat (rfr_chunk_count resp)]" using k by (simp add: upt_conv_Cons)
  have quit: "wp (give_up env tmp e) ?Q ?E t" if "others_kept tmp s t" for e t
    using that others_kept_trans [OF that] Suc.prems(2) by (intro give_up_wp) (auto simp: others_kept_def)
  have next_chunk: "wp (act_then (write_output env tmp bytes) (\<lambda>ok. if \<not> ok then give_up env tmp ErrReadError
      else read_chunks env rid resp tmp tmp (?i + 1))) ?Q ?E (s\<lparr>cl_net := n\<rparr>)"
    if n: "net_sent n = requests s @ [chunk_request (cl_metadata_node s) rid k]" and len: "length bytes = min 524288 (?fs - k * 524288)"
    for n bytes
    unfolding wp_then
  proof (rule write_output_wp)
    show "disk_wf (cl_disk (s\<lparr>cl_net := n\<rparr>))" "node_at (cl_disk (s\<lparr>cl_net := n\<rparr>)) tmp = Some (File c)"
      using Suc.prems by simp_all
    fix ok t c'
    assume t: "others_kept tmp (s\<lparr>cl_net := n\<rparr>) t" "requests t = requests (s\<lparr>cl_net := n\<rparr>)"
      "node_at (cl_disk t) tmp = Some (File c')" "ok \<Longrightarrow> c' = c @ bytes"
    show "wp (if \<not> ok then give_up env tmp ErrReadError else read_chunks env rid resp tmp tmp (?i + 1)) ?Q ?E t"
    proof (cases ok)
      case False
      with t(1) quit show ?thesis by simp
    next
      case True
      have "length c' = min (Suc k * 524288) ?fs" using t(4) [OF True] Suc.prems(6) len off by simp
      from Suc.hyps(1) [OF _ _ Suc.prems(2) t(3) _ Suc.prems(5) this] Suc.hyps(2) k t(1)
      have "wp (read_chunks env rid resp tmp tmp (word_of_nat (Suc k))) (\<lambda>r u. others_kept tmp t u \<and> (r = Inr () \<longrightarrow>
        (\<exists>c'. node_at (cl_disk u) tmp = Some (File c') \<and> length c' = unat (rfr_file_size resp))
        \<and> requests u = requests t @ map (chunk_request (cl_metadata_node t) rid) [Suc k..<unat (rfr_chunk_count resp)]))
        (\<lambda>_. others_kept tmp t) t"
        by (auto simp: others_kept_def)
      then have "wp (read_chunks env rid resp tmp tmp (word_of_nat (Suc k))) ?Q ?E t"
        by (rule wp_mono) (use t(1,2) n upt in \<open>auto simp: others_kept_def\<close>)
      with True show ?thesis by (simp add: add.commute)
    qed
  qed
  have start: "wp (case r of Inl e \<Rightarrow> give_up env tmp e
      | Inr response \<Rightarrow>
          if rcr_status response \<noteq> Success then give_up env tmp (status_to_error (rcr_status response))
          else if rcr_chunk_index response \<noteq> ?i \<or> length (rcr_data response) \<noteq> unat (size_expected (rfr_file_size resp) ?i)
          then give_up env tmp ErrBadResponse
          else act_then (write_output env tmp (rcr_data response)) (\<lambda>ok.
            if \<not> ok then give_up env tmp ErrReadError
            else read_chunks env rid resp tmp tmp (?i + 1))) ?Q ?E (s\<lparr>cl_net := n\<rparr>)"
    if n: "net_sent n = requests s @ [chunk_request (cl_metadata_node s) rid k]" for r n
    using quit [of "s\<lparr>cl_net := n\<rparr>"] next_chunk [OF n] Suc.prems(1) size
    by (auto simp: others_kept_def split: sum.split)
  have "\<not> ?i \<ge> rfr_chunk_count resp" using i by (simp add: not_le)
  then show ?case
    by (subst read_chunks.simps, simp only: if_False wp_then)
      (rule call_wp, rule read_chunk_request.enc_frame,
       use start Suc.prems(1) in \<open>auto simp: chunk_request_def others_kept_def\<close>)
qed

section \<open>A download\<close>

lemma open_output_wp:
  assumes "disk_wf (cl_disk s)" "plain_path tmp" "Q None s"
    and "\<And>t. others_kept tmp s t \<Longrightarrow> requests t = requests s \<Longrightarrow> node_at (cl_disk t) tmp = Some (File []) \<Longrightarrow> Q (Some tmp) t"
  shows "wp (open_output env tmp) Q E s"
proof -
  obtain r d where op: "open_out (ce_faults env) (cl_disk s) tmp False = (r, d)" by fastforce
  show ?thesis
  proof (cases r)
    case (Inl e)
    with op open_out_failed [of "ce_faults env" "cl_disk s" tmp False e d] have "d = cl_disk s" by simp
    with op Inl assms(3) show ?thesis by (simp add: open_output_def wp_rules)
  next
    case (Inr l)
    from open_out_ok [OF op [unfolded Inr] assms(1,2)] have "l = tmp" "others_kept tmp s (s\<lparr>cl_disk := d\<rparr>)"
      "node_at d tmp = Some (File [])" by (auto simp: others_kept_def)
    with op Inr assms(4) [of "s\<lparr>cl_disk := d\<rparr>"] show ?thesis by (simp add: open_output_def wp_rules)
  qed
qed

text \<open>The end of a download: the destination gets the whole temporary file, or stays.\<close>

lemma finish_read_wp:
  assumes "disk_wf (cl_disk s)" "plain_path tmp" "plain_path dest" "tmp \<noteq> dest" "node_at (cl_disk s) tmp = Some (File c)"
    and "\<And>e t. others_kept tmp s t \<Longrightarrow> Q (Inl e) t"
    and "\<And>t. requests t = requests s \<Longrightarrow> node_at (cl_disk t) dest = Some (File c) \<Longrightarrow>
      (\<And>l. l \<noteq> dest \<Longrightarrow> l \<noteq> tmp \<Longrightarrow> node_at (cl_disk t) l = node_at (cl_disk s) l) \<Longrightarrow> Q (Inr ()) t"
  shows "wp (finish_read env tmp dest) Q E s"
proof -
  obtain ec d where ren: "fs_rename (ce_faults env) (cl_disk s) tmp dest = (ec, d)" by fastforce
  have quit: "wp (give_up env tmp e) Q E t" if "others_kept tmp s t" for e t
    using that others_kept_trans [OF that] assms(2,6) by (intro give_up_wp) (auto simp: others_kept_def)
  have keep: "others_kept tmp s s" using assms(1) by (simp add: others_kept_def)
  show ?thesis
  proof (cases ec)
    case (Some e)
    with rename_failed ren have "d = cl_disk s" by blast
    with ren Some quit [OF keep] show ?thesis by (simp add: finish_read_def Let_def wp_rules)
  next
    case None
    from rename_file_ok [OF ren [unfolded None] assms(1-3,5,4)]
    have "Q (Inr ()) (s\<lparr>cl_disk := d\<rparr>)" by (intro assms(7)) auto
    with ren None quit [OF keep] show ?thesis by (simp add: finish_read_def Let_def wp_rules)
  qed
qed

definition read_request :: "NodeId \<Rightarrow> u64 \<Rightarrow> path \<Rightarrow> NodeId \<times> Frame" where
  "read_request node rid p = (node, rpc_frame client_rpc rid READ_FILE Request (bytes_of_string p @ [0]))"

definition temporary_name :: "u64 \<Rightarrow> path \<Rightarrow> path" where
  "temporary_name rid p = p @ ''.dfs-read-'' @ decimal (unat rid) @ ''.tmp''"

lemma read_file_wp:
  fixes s :: "'e Client"
  assumes wf: "disk_wf (cl_disk s)"
    and paths: "tmp = ce_located env (temporary_name (current_id s + 1) to)" "dest = ce_located env to"
      "plain_path tmp" "plain_path dest" "tmp \<noteq> dest"
  shows "wp (read_file env from to)
    (\<lambda>r t. (\<forall>l. l \<noteq> dest \<and> l \<noteq> tmp \<longrightarrow> node_at (cl_disk t) l = node_at (cl_disk s) l)
      \<and> (if r = Inr () then \<exists>c. node_at (cl_disk t) dest = Some (File c)
            \<and> requests t = requests s @ read_request (cl_metadata_node s) (current_id s + 1) from
                # map (chunk_request (cl_metadata_node s) (current_id s + 1)) [0..<count_chunks (length c)]
         else node_at (cl_disk t) dest = node_at (cl_disk s) dest))
    (\<lambda>_ t. (\<forall>l. l \<noteq> tmp \<longrightarrow> node_at (cl_disk t) l = node_at (cl_disk s) l)) s"
  (is "wp _ ?Q ?E s")
proof -
  let ?rid = "current_id s + 1" and ?node = "cl_metadata_node s"
  define Q where "Q = ?Q"
  define s1 where "s1 = s\<lparr>current_id := ?rid\<rparr>"
  have keepQ: "Q (Inl e) t" if "\<And>l. l \<noteq> tmp \<Longrightarrow> node_at (cl_disk t) l = node_at (cl_disk s) l" for e t
    using that paths(5) by (auto simp: Q_def)
  have loop: "wp (read_chunks env ?rid resp tmp tmp 0)
      (\<lambda>r. wp (case r of Inl e \<Rightarrow> act_return (Inl e) | Inr _ \<Rightarrow> finish_read env tmp dest) Q ?E) ?E t"
    if t: "others_kept tmp s t" "requests t = requests s @ [read_request ?node ?rid from]" "node_at (cl_disk t) tmp = Some (File [])"
      and n: "chunks_expected (rfr_file_size resp) = ucast (rfr_chunk_count resp)" for t resp
  proof -
    have total: "count_chunks (unat (rfr_file_size resp)) = unat (rfr_chunk_count resp)"
      using arg_cong [OF n, of unat] by (simp add: chunks_expected_def chunk_count_nat unat_ucast_32_64)
    have "wp (read_chunks env ?rid resp tmp tmp (word_of_nat 0)) (\<lambda>r u. others_kept tmp t u \<and> (r = Inr () \<longrightarrow>
        (\<exists>c'. node_at (cl_disk u) tmp = Some (File c') \<and> length c' = unat (rfr_file_size resp))
        \<and> requests u = requests t @ map (chunk_request (cl_metadata_node t) ?rid) [0..<unat (rfr_chunk_count resp)]))
        (\<lambda>_ u. others_kept tmp t u) t"
      by (rule read_chunks_wp) (use t paths(3) total in \<open>auto simp: others_kept_def\<close>)
    then have "wp (read_chunks env ?rid resp tmp tmp (word_of_nat 0))
      (\<lambda>r. wp (case r of Inl e \<Rightarrow> act_return (Inl e) | Inr _ \<Rightarrow> finish_read env tmp dest) Q ?E) ?E t"
    proof (rule wp_mono)
      fix r :: "ClientError + unit" and u :: "'e Client"
      assume u: "others_kept tmp t u \<and> (r = Inr () \<longrightarrow>
        (\<exists>c'. node_at (cl_disk u) tmp = Some (File c') \<and> length c' = unat (rfr_file_size resp))
        \<and> requests u = requests t @ map (chunk_request (cl_metadata_node t) ?rid) [0..<unat (rfr_chunk_count resp)])"
      then have kept: "others_kept tmp s u" using t(1) others_kept_trans by blast
      show "wp (case r of Inl e \<Rightarrow> act_return (Inl e) | Inr _ \<Rightarrow> finish_read env tmp dest) Q ?E u"
      proof (cases r)
        case (Inl e)
        have "Q (Inl e) u" by (rule keepQ) (use kept in \<open>simp add: others_kept_def\<close>)
        with Inl show ?thesis by (simp only: sum.case wp_return)
      next
        case (Inr x)
        with u obtain c where c: "node_at (cl_disk u) tmp = Some (File c)" "length c = unat (rfr_file_size resp)"
          "requests u = requests t @ map (chunk_request (cl_metadata_node t) ?rid) [0..<unat (rfr_chunk_count resp)]" by auto
        have "wp (finish_read env tmp dest) Q ?E u"
        proof (rule finish_read_wp [OF _ paths(3-5) c(1)])
          show "disk_wf (cl_disk u)" using kept by (simp add: others_kept_def)
          show "Q (Inl e) v" if "others_kept tmp u v" for e v
            by (rule keepQ) (use others_kept_trans [OF kept that] in \<open>simp add: others_kept_def\<close>)
          show "Q (Inr ()) v" if "requests v = requests u" "node_at (cl_disk v) dest = Some (File c)"
            "\<And>l. l \<noteq> dest \<Longrightarrow> l \<noteq> tmp \<Longrightarrow> node_at (cl_disk v) l = node_at (cl_disk u) l" for v
            using that c t kept total by (auto simp: Q_def others_kept_def)
        qed
        with Inr show ?thesis by simp
      qed
    qed (use t(1) in \<open>auto simp: others_kept_def\<close>)
    then show ?thesis by simp
  qed
  have reply: "wp (case r of
       Inl e \<Rightarrow> act_return (Inl e)
     | Inr response \<Rightarrow>
         if rfr_status response \<noteq> Success then act_return (Inl (status_to_error (rfr_status response)))
         else if chunks_expected (rfr_file_size response) \<noteq> ucast (rfr_chunk_count response)
         then act_return (Inl ErrBadResponse)
         else if to = [] then act_return (Inl ErrBadInput)
         else act_then (open_output env tmp) (\<lambda>opened.
           case opened of
             None \<Rightarrow> act_return (Inl ErrBadInput)
           | Some output \<Rightarrow>
               act_then (read_chunks env ?rid response tmp output 0) (\<lambda>result.
               case result of Inl e \<Rightarrow> act_return (Inl e) | Inr _ \<Rightarrow> finish_read env tmp dest))) Q ?E (s1\<lparr>cl_net := n\<rparr>)"
    if n: "net_sent n = requests s1 @ [(cl_metadata_node s1, rpc_frame client_rpc ?rid READ_FILE Request (bytes_of_string from @ [0]))]" for r n
  proof -
    have same: "Q (Inl e) (s1\<lparr>cl_net := n\<rparr>)" for e by (rule keepQ) (simp add: s1_def)
    have opened: "wp (open_output env tmp) (\<lambda>opened. wp (case opened of
             None \<Rightarrow> act_return (Inl ErrBadInput)
           | Some output \<Rightarrow>
               act_then (read_chunks env ?rid response tmp output 0) (\<lambda>result.
               case result of Inl e \<Rightarrow> act_return (Inl e) | Inr _ \<Rightarrow> finish_read env tmp dest)) Q ?E) ?E (s1\<lparr>cl_net := n\<rparr>)"
      if ok: "chunks_expected (rfr_file_size response) = ucast (rfr_chunk_count response)" for response
    proof (rule open_output_wp [OF _ paths(3)])
      show "disk_wf (cl_disk (s1\<lparr>cl_net := n\<rparr>))" using wf by (simp add: s1_def)
    qed (use same loop [OF _ _ _ ok] n in \<open>auto simp: wp_return wp_then s1_def read_request_def others_kept_def\<close>)
    show ?thesis using same opened by (auto simp: wp_return wp_then split: sum.split)
  qed
  have "wp (read_file env from to) Q ?E s \<longleftrightarrow> wp (call env ?rid READ_FILE match_any_body encode_read_file_request
         \<lparr>rfq_path = from, rfq_context = empty_context\<rparr> decode_read_file_response) (\<lambda>r. wp (case r of
       Inl e \<Rightarrow> act_return (Inl e)
     | Inr response \<Rightarrow>
         if rfr_status response \<noteq> Success then act_return (Inl (status_to_error (rfr_status response)))
         else if chunks_expected (rfr_file_size response) \<noteq> ucast (rfr_chunk_count response)
         then act_return (Inl ErrBadResponse)
         else if to = [] then act_return (Inl ErrBadInput)
         else act_then (open_output env tmp) (\<lambda>opened.
           case opened of
             None \<Rightarrow> act_return (Inl ErrBadInput)
           | Some output \<Rightarrow>
               act_then (read_chunks env ?rid response tmp output 0) (\<lambda>result.
               case result of Inl e \<Rightarrow> act_return (Inl e) | Inr _ \<Rightarrow> finish_read env tmp dest))) Q ?E) ?E s1"
    unfolding read_file_def next_id_def wp_then wp_step Let_def prod.case s1_def paths(1,2) temporary_name_def by (rule refl)
  also have "\<dots>"
    by (rule call_wp, rule read_file_request.enc_frame) (use reply in \<open>simp_all add: s1_def\<close>)
  finally show ?thesis unfolding Q_def .
qed

section \<open>An upload\<close>

definition chunk_upload :: "NodeId \<Rightarrow> u64 \<Rightarrow> byte list \<Rightarrow> nat \<Rightarrow> NodeId \<times> Frame" where
  "chunk_upload node rid xs i =
     (node, rpc_frame client_rpc rid WRITE_CHUNK Request (be_bytes 4 (word_of_nat i :: u32) @ chunk i xs))"

definition write_request :: "NodeId \<Rightarrow> u64 \<Rightarrow> path \<Rightarrow> nat \<Rightarrow> NodeId \<times> Frame" where
  "write_request node rid p n = (node, rpc_frame client_rpc rid WRITE_FILE Request
     (be_bytes 8 (word_of_nat n :: u64) @ be_bytes 4 (word_of_nat (count_chunks n) :: u32) @ bytes_of_string p @ [0]))"

lemma drop_chunk: "drop (length (take 524288 (drop (k * 524288) xs))) (drop (k * 524288) xs) = drop (Suc k * 524288) xs"
  by (cases "length xs - k * 524288 \<le> 524288") (simp_all add: add.commute)

text \<open>Up to \<open>m\<close> chunks have been sent, all of them in the case of success.\<close>

definition uploaded :: "'e Client \<Rightarrow> u64 \<Rightarrow> byte list \<Rightarrow> nat \<Rightarrow> bool \<Rightarrow> 'e Client \<Rightarrow> bool" where
  "uploaded s rid xs k success t \<longleftrightarrow> cl_disk t = cl_disk s \<and> (\<exists>m. k \<le> m \<and> m \<le> count_chunks (length xs)
     \<and> requests t = requests s @ map (chunk_upload (cl_metadata_node s) rid xs) [k..<m]
     \<and> (success \<longrightarrow> m = count_chunks (length xs)))"

lemma uploaded_start: "k \<le> count_chunks (length xs) \<Longrightarrow> uploaded s rid xs k (k = count_chunks (length xs)) s"
  by (auto simp: uploaded_def)

lemma uploaded_next:
  assumes "uploaded (s\<lparr>cl_net := n\<rparr>) rid xs (Suc k) b t" "net_sent n = requests s @ [chunk_upload (cl_metadata_node s) rid xs k]"
  shows "uploaded s rid xs k b t"
proof -
  from assms(1) obtain m where m: "Suc k \<le> m" "m \<le> count_chunks (length xs)" "cl_disk t = cl_disk s"
    "requests t = net_sent n @ map (chunk_upload (cl_metadata_node s) rid xs) [Suc k..<m]" "b \<longrightarrow> m = count_chunks (length xs)"
    by (auto simp: uploaded_def)
  then have "[k..<m] = k # [Suc k..<m]" by (simp add: upt_conv_Cons)
  with m assms(2) show ?thesis by (auto simp: uploaded_def intro!: exI [of _ m])
qed

lemma write_chunks_wp:
  fixes s :: "'e Client"
  assumes "k \<le> unat chunk_count" "count_chunks (length xs) = unat chunk_count"
  shows "wp (write_chunks env rid chunk_count local (drop (k * 524288) xs) (word_of_nat k))
    (\<lambda>r. uploaded s rid xs k (r = Inr ())) (\<lambda>_. uploaded s rid xs k False) s"
  using assms
proof (induction "unat chunk_count - k" arbitrary: k s)
  case 0
  then have k: "k = unat chunk_count" by simp
  with 0 uploaded_start [of k xs s rid] show ?case by (subst write_chunks.simps) (simp add: wp_rules)
next
  case (Suc m)
  let ?i = "word_of_nat k :: u32" and ?Q = "\<lambda>r. uploaded s rid xs k (r = Inr ())" and ?E = "\<lambda>_ :: exn. uploaded s rid xs k False"
  have k: "k < unat chunk_count" using Suc.hyps(2) by simp
  note i = index_below [OF k]
  have small: "\<not> ?i \<ge> chunk_count" using i by (simp add: not_le)
  have nonempty: "chunk k xs \<noteq> []" using k Suc.prems(2) by (intro chunk_not_Nil) simp
  have quit: "?Q (Inl e) s" "?E x s" for e x using k Suc.prems by (auto simp: uploaded_def intro!: exI [of _ k])
  have sent: "uploaded s rid xs k False (s\<lparr>cl_net := n\<rparr>)"
    if "net_sent n = requests s @ [chunk_upload (cl_metadata_node s) rid xs k]" for n
    using that k Suc.prems(2) by (auto simp: uploaded_def intro!: exI [of _ "Suc k"])
  have rest: "wp (write_chunks env rid chunk_count local (drop (Suc k * 524288) xs) (?i + 1)) ?Q ?E (s\<lparr>cl_net := n\<rparr>)"
    if "net_sent n = requests s @ [chunk_upload (cl_metadata_node s) rid xs k]" for n
  proof -
    have "wp (write_chunks env rid chunk_count local (drop (Suc k * 524288) xs) (word_of_nat (Suc k)))
        (\<lambda>r. uploaded (s\<lparr>cl_net := n\<rparr>) rid xs (Suc k) (r = Inr ())) (\<lambda>_. uploaded (s\<lparr>cl_net := n\<rparr>) rid xs (Suc k) False) (s\<lparr>cl_net := n\<rparr>)"
      by (rule Suc.hyps(1)) (use Suc.hyps(2) k Suc.prems in auto)
    then have "wp (write_chunks env rid chunk_count local (drop (Suc k * 524288) xs) (word_of_nat (Suc k))) ?Q ?E (s\<lparr>cl_net := n\<rparr>)"
      by (rule wp_mono) (auto intro: uploaded_next [OF _ that])
    then show ?thesis by (simp only: of_nat_Suc add.commute [of 1])
  qed
  show ?case
  proof (cases "fails (ce_faults env) Sys_read local")
    case True
    with small quit show ?thesis by (subst write_chunks.simps) (simp add: wp_rules)
  next
    case False
    have bytes: "take (unat CHUNK_SIZE) (drop (k * 524288) xs) = chunk k xs" by (simp add: chunk_def CHUNK_SIZE_nat)
    have dropped: "drop (length (chunk k xs)) (drop (k * 524288) xs) = drop (Suc k * 524288) xs"
      using drop_chunk [of k xs] by (simp only: chunk_def)
    show ?thesis
      apply (subst write_chunks.simps)
      apply (simp only: small if_False False bytes Let_def nonempty wp_then dropped)
      apply (rule call_wp, rule write_chunk_request.enc_frame)
      using sent rest
      by (auto simp: chunk_upload_def wp_return split: sum.split)
  qed
qed

text \<open>What an upload of \<open>content\<close> has sent, all of it in the case of success.\<close>

definition sent_upload :: "'e Client \<Rightarrow> u64 \<Rightarrow> path \<Rightarrow> byte list \<Rightarrow> bool \<Rightarrow> 'e Client \<Rightarrow> bool" where
  "sent_upload s rid p content success t \<longleftrightarrow> (\<exists>m \<le> count_chunks (length content).
     requests t = requests s @ write_request (cl_metadata_node s) rid p (length content)
       # map (chunk_upload (cl_metadata_node s) rid content) [0..<m]
     \<and> (success \<longrightarrow> m = count_chunks (length content)))"

lemma open_local_wp:
  assumes "\<And>e. Q (Inl e) s" "\<And>e. E e s" "\<And>c. open_in (ce_faults env) (cl_disk s) p = Inr c \<Longrightarrow> Q (Inr c) s"
  shows "wp (open_local env p) Q E s"
  using assms by (auto simp: open_local_def wp_def split: sum.split)

lemma write_file_wp:
  fixes s :: "'e Client"
  assumes small: "\<And>c. open_in (ce_faults env) (cl_disk s) (ce_located env src) = Inr c \<Longrightarrow> length c < 2 ^ 64"
  shows "wp (write_file env src to)
    (\<lambda>r t. cl_disk t = cl_disk s \<and> (r \<noteq> Inr () \<and> requests t = requests s \<or> (\<exists>c.
        open_in (ce_faults env) (cl_disk s) (ce_located env src) = Inr c \<and> sent_upload s (current_id s + 1) to c (r = Inr ()) t)))
    (\<lambda>_ t. cl_disk t = cl_disk s \<and> (requests t = requests s \<or> (\<exists>c.
        open_in (ce_faults env) (cl_disk s) (ce_located env src) = Inr c \<and> sent_upload s (current_id s + 1) to c False t))) s"
  (is "wp _ ?Q ?E s")
proof -
  let ?rid = "current_id s + 1" and ?node = "cl_metadata_node s" and ?p = "ce_located env src"
  define Q where "Q = ?Q"
  define E where "E = ?E"
  define s1 where "s1 = s\<lparr>current_id := ?rid\<rparr>"
  have unsent: "Q (Inl e) s1" "E x s1" for e x by (simp_all add: Q_def E_def s1_def)
  have sending: "wp (let file_size = word_of_nat (length c) :: u64; chunks = chunks_expected file_size in
         if chunks > ucast (- 1 :: u32) then act_return (Inl ErrStorageFull)
         else let chunk_count = ucast chunks :: u32 in
           act_then (call env ?rid WRITE_FILE match_any_body encode_write_file_request
               \<lparr>wfq_file_size = file_size, wfq_chunk_count = chunk_count, wfq_path = to, wfq_context = empty_context\<rparr>
               decode_write_file_response) (\<lambda>result.
           case result of
             Inl e \<Rightarrow> act_return (Inl e)
           | Inr response \<Rightarrow>
               if wfr_status response \<noteq> Success then act_return (Inl (status_to_error (wfr_status response)))
               else write_chunks env ?rid chunk_count ?p c 0)) Q E s1"
    if c: "open_in (ce_faults env) (cl_disk s) ?p = Inr c" for c
  proof -
    let ?size = "word_of_nat (length c) :: u64"
    let ?count = "ucast (chunks_expected ?size) :: u32"
    have size: "unat ?size = length c" using small [OF c] by (simp add: unat_of_nat)
    then have chunks: "unat (chunks_expected ?size) = count_chunks (length c)"
      by (simp add: chunks_expected_def chunk_count_nat)
    show ?thesis
    proof (cases "chunks_expected ?size > ucast (- 1 :: u32)")
      case True
      then show ?thesis by (simp add: Let_def wp_return) (rule unsent(1))
    next
      case False
      then have "count_chunks (length c) \<le> unat (ucast (- 1 :: u32) :: u64)"
        using chunks by (simp add: not_less word_le_nat_alt)
      moreover have "unat (ucast (- 1 :: u32) :: u64) = 2 ^ 32 - 1"
        by (simp add: unat_ucast_32_64 unsigned_minus_1_eq_mask mask_eq_exp_minus_1)
      ultimately have "count_chunks (length c) < 2 ^ 32" by simp
      moreover have "?count = word_of_nat (count_chunks (length c))"
        unfolding chunks [symmetric] by (metis of_nat_unat ucast_eq)
      ultimately have count: "?count = word_of_nat (count_chunks (length c))" "unat ?count = count_chunks (length c)"
        by (simp_all add: unat_of_nat)
      have req: "(?node, rpc_frame client_rpc ?rid WRITE_FILE Request
          (be_bytes 8 ?size @ be_bytes 4 ?count @ bytes_of_string to @ [0])) = write_request ?node ?rid to (length c)"
        by (simp only: write_request_def count(1))
      have sent: "Q (Inl e) (s1\<lparr>cl_net := n\<rparr>)" "E x (s1\<lparr>cl_net := n\<rparr>)"
        if "net_sent n = requests s @ [write_request ?node ?rid to (length c)]" for n e x
        using that c by (auto simp: Q_def E_def s1_def sent_upload_def intro!: exI [of _ c] exI [of _ 0])
      have loop: "wp (write_chunks env ?rid ?count ?p c 0) Q E (s1\<lparr>cl_net := n\<rparr>)"
        if n: "net_sent n = requests s @ [write_request ?node ?rid to (length c)]" for n
      proof -
        have "wp (write_chunks env ?rid ?count ?p (drop (0 * 524288) c) (word_of_nat 0))
            (\<lambda>r. uploaded (s1\<lparr>cl_net := n\<rparr>) ?rid c 0 (r = Inr ())) (\<lambda>_. uploaded (s1\<lparr>cl_net := n\<rparr>) ?rid c 0 False) (s1\<lparr>cl_net := n\<rparr>)"
          by (rule write_chunks_wp) (simp_all only: count(2) le0 zero_le)
        then have "wp (write_chunks env ?rid ?count ?p (drop (0 * 524288) c) (word_of_nat 0)) Q E (s1\<lparr>cl_net := n\<rparr>)"
          by (rule wp_mono)
            (use n c in \<open>auto simp: uploaded_def Q_def E_def s1_def sent_upload_def intro!: exI [of _ c]\<close>)
        then show ?thesis by simp
      qed
      show ?thesis
        unfolding Let_def using False
        apply (simp only: if_False wp_then)
        apply (rule call_wp, rule write_file_request.enc_frame)
        using sent loop
        by (auto simp: s1_def req wp_return split: sum.split)
    qed
  qed
  show ?thesis
    unfolding Q_def [symmetric] E_def [symmetric] write_file_def next_id_def wp_then wp_step Let_def [of _ "\<lambda>i. (i, s\<lparr>current_id := i\<rparr>)"]
      prod.case s1_def [symmetric]
    by (rule open_local_wp) (use unsent sending in \<open>auto simp: wp_return s1_def\<close>)
qed

section \<open>How many requests a transfer takes\<close>

lemma read_chunks_requests:
  "wp (read_chunks env rid resp tmp out i) (\<lambda>_ t. length (requests t) \<le> length (requests s) + (unat (rfr_chunk_count resp) - unat i))
     (\<lambda>_ t. length (requests t) \<le> length (requests s) + (unat (rfr_chunk_count resp) - unat i)) s"
proof (induction "unat (rfr_chunk_count resp) - unat i" arbitrary: i s rule: less_induct)
  case less
  let ?n = "\<lambda>s i. length (requests s) + (unat (rfr_chunk_count resp) - unat i)"
  have local: "wp (give_up env tmp e) (\<lambda>_ t. length (requests t) \<le> k) E t" if "length (requests t) \<le> k" for e k t and E :: "exn \<Rightarrow> 'a Client \<Rightarrow> bool"
    using that by (simp add: give_up_def remove_local_def wp_rules)
  show ?case
  proof (cases "i \<ge> rfr_chunk_count resp")
    case True
    then show ?thesis by (subst read_chunks.simps) (simp add: wp_rules)
  next
    case False
    then have i: "unat i < unat (rfr_chunk_count resp)" "unat (i + 1) = Suc (unat i)"
      by (simp_all add: not_le counts_towards counts_up)
    have rest: "wp (write_output env out bytes) (\<lambda>ok. wp (if \<not> ok then give_up env tmp ErrReadError else read_chunks env rid resp tmp out (i + 1))
        (\<lambda>_ t. length (requests t) \<le> ?n s i) (\<lambda>_ t. length (requests t) \<le> ?n s i)) (\<lambda>_ t. length (requests t) \<le> ?n s i) (s\<lparr>cl_net := n\<rparr>)"
      if n: "length (net_sent n) = Suc (length (requests s))" for n bytes
    proof -
      have loop: "wp (read_chunks env rid resp tmp out (i + 1)) (\<lambda>_ t. length (requests t) \<le> ?n s i)
          (\<lambda>_ t. length (requests t) \<le> ?n s i) t" if "requests t = net_sent n" for t
        using less [of "i + 1" t] i that n by (simp add: Suc_diff_Suc)
      obtain ok d where app: "append_out (ce_faults env) (cl_disk s) out bytes = (ok, d)" by fastforce
      have net: "requests (s\<lparr>cl_net := n, cl_disk := d\<rparr>) = net_sent n" "cl_disk (s\<lparr>cl_net := n\<rparr>) = cl_disk s" by simp_all
      have "length (requests (s\<lparr>cl_net := n, cl_disk := d\<rparr>)) \<le> ?n s i" unfolding net using n i by simp
      from loop [OF net(1)] local [OF this] show ?thesis
        unfolding write_output_def wp_step net app prod.case by (cases ok) (simp_all only: simp_thms if_True if_False)
    qed
    show ?thesis
      apply (subst read_chunks.simps)
      using False
      apply (simp only: if_False wp_then)
      apply (rule call_wp, rule read_chunk_request.enc_frame)
      using i rest by (auto simp: wp_then split: sum.split intro!: local)
  qed
qed

lemma read_file_requests:
  "wp (read_file env from to) (\<lambda>_ t. length (requests t) \<le> length (requests s) + 2 ^ 32)
     (\<lambda>_ t. length (requests t) \<le> length (requests s) + 2 ^ 32) s"
proof -
  define B where "B = (\<lambda>t :: 'a Client. length (requests t) \<le> length (requests s) + 2 ^ 32)"
  have loop: "wp (read_chunks env rid resp tmp out 0) (\<lambda>r. wp (case r of Inl e \<Rightarrow> act_return (Inl e) | Inr _ \<Rightarrow> finish_read env tmp dest)
      (\<lambda>_. B) (\<lambda>_. B)) (\<lambda>_. B) t" if "length (requests t) = Suc (length (requests s))" for t rid resp tmp out dest
  proof -
    have n: "unat (rfr_chunk_count resp) < 2 ^ 32" using unsigned_less [of "rfr_chunk_count resp"] by simp
    have quit: "B u \<Longrightarrow> wp (give_up env tmp e) (\<lambda>_. B) (\<lambda>_. B) u" for e u
      by (simp add: give_up_def remove_local_def wp_rules B_def)
    have finish: "B u \<Longrightarrow> wp (finish_read env tmp dest) (\<lambda>_. B) (\<lambda>_. B) u" for u
      using quit by (auto simp: finish_read_def Let_def wp_rules B_def split: prod.split)
    show ?thesis
    proof (rule wp_mono [OF read_chunks_requests])
      fix r :: "ClientError + unit" and u :: "'a Client"
      assume "length (requests u) \<le> length (requests t) + (unat (rfr_chunk_count resp) - unat (0 :: u32))"
      then have "B u" using that n by (simp add: B_def)
      with finish show "wp (case r of Inl e \<Rightarrow> act_return (Inl e) | Inr _ \<Rightarrow> finish_read env tmp dest) (\<lambda>_. B) (\<lambda>_. B) u"
        by (cases r) (simp_all add: wp_return)
    qed (use that n in \<open>auto simp: B_def\<close>)
  qed
  have opened: "wp (open_output env tmp) (\<lambda>r. wp (case r of None \<Rightarrow> act_return (Inl e) | Some output \<Rightarrow>
      act_then (read_chunks env rid resp tmp output 0) (\<lambda>result. case result of Inl e \<Rightarrow> act_return (Inl e) | Inr _ \<Rightarrow> finish_read env tmp dest))
      (\<lambda>_. B) (\<lambda>_. B)) (\<lambda>_. B) t" if "length (requests t) = Suc (length (requests s))" for t rid resp tmp dest e
    using that loop by (auto simp: open_output_def wp_then wp_step wp_return B_def split: prod.split sum.split)
  show ?thesis
    unfolding B_def [symmetric] read_file_def next_id_def Let_def wp_then wp_step prod.case
    by (rule call_wp, rule read_file_request.enc_frame)
      (use opened in \<open>auto simp: wp_then wp_return B_def split: sum.split\<close>)
qed

lemma write_chunks_requests:
  "wp (write_chunks env rid n local content i) (\<lambda>_ t. length (requests t) \<le> length (requests s) + (unat n - unat i))
     (\<lambda>_ t. length (requests t) \<le> length (requests s) + (unat n - unat i)) s"
proof (induction "unat n - unat i" arbitrary: i s content rule: less_induct)
  case less
  let ?n = "\<lambda>s i. length (requests s) + (unat n - unat i)"
  show ?case
  proof (cases "i \<ge> n \<or> fails (ce_faults env) Sys_read local \<or> content = []")
    case True
    then show ?thesis by (subst write_chunks.simps) (auto simp: wp_rules)
  next
    case False
    then have "i < n" by (simp add: not_le)
    then have i: "unat i < unat n" "unat (i + 1) = Suc (unat i)"
      by (simp_all add: counts_towards counts_up)
    let ?bytes = "take (unat CHUNK_SIZE) content"
    have rest: "wp (write_chunks env rid n local xs (i + 1)) (\<lambda>_ t. length (requests t) \<le> ?n s i)
        (\<lambda>_ t. length (requests t) \<le> ?n s i) t" if "length (requests t) = Suc (length (requests s))" for t xs
      using less [of "i + 1" xs t] i that by (simp add: Suc_diff_Suc)
    have parts: "\<not> i \<ge> n" "\<not> fails (ce_faults env) Sys_read local" "?bytes \<noteq> []"
      using False by (simp_all add: CHUNK_SIZE_nat)
    show ?thesis
      apply (subst write_chunks.simps)
      apply (simp only: parts if_False Let_def wp_then)
      apply (rule call_wp, rule write_chunk_request.enc_frame)
      using i rest by (auto simp: wp_return split: sum.split)
  qed
qed

lemma write_file_requests:
  "wp (write_file env src to) (\<lambda>_ t. length (requests t) \<le> length (requests s) + 2 ^ 32)
     (\<lambda>_ t. length (requests t) \<le> length (requests s) + 2 ^ 32) s"
proof -
  define B where "B = (\<lambda>t :: 'a Client. length (requests t) \<le> length (requests s) + 2 ^ 32)"
  have loop: "wp (write_chunks env rid n p xs 0) (\<lambda>_. B) (\<lambda>_. B) t"
    if "length (requests t) = Suc (length (requests s))" for t rid n p xs
  proof -
    have n: "unat n < 2 ^ 32" using unsigned_less [of n] by simp
    show ?thesis by (rule wp_mono [OF write_chunks_requests]) (use that n in \<open>auto simp: B_def\<close>)
  qed
  have request: "wp (call env rid WRITE_FILE match_any_body encode_write_file_request q decode_write_file_response) (\<lambda>r. wp (case r of
       Inl e \<Rightarrow> act_return (Inl e)
     | Inr response \<Rightarrow>
         if wfr_status response \<noteq> Success then act_return (Inl (status_to_error (wfr_status response)))
         else write_chunks env rid n p xs 0) (\<lambda>_. B) (\<lambda>_. B)) (\<lambda>_. B) t" if "requests t = requests s" for rid q n p xs t
    by (rule call_wp, rule write_file_request.enc_frame)
      (use that loop in \<open>auto simp: wp_return B_def split: sum.split\<close>)
  show ?thesis
    unfolding B_def [symmetric] write_file_def next_id_def Let_def wp_then wp_step prod.case
    by (rule open_local_wp) (use request in \<open>auto simp: wp_return wp_then B_def\<close>)
qed

section \<open>Operations with one exchange\<close>

lemma simple_call_run:
  fixes encoder :: "u64 \<Rightarrow> 'q \<Rightarrow> exn + Frame" and s :: "'e Client"
  assumes "encoder (current_id s + 1) q = Inr f" "simple_call env job encoder q dec status_of value_of s = (r, s')"
  shows "current_id s' = current_id s + 1 \<and> cl_disk s' = cl_disk s \<and> requests s' = requests s @ [(cl_metadata_node s, f)]
    \<and> (r = Inr (Inl ErrTimeout) \<or> (\<exists>m rpc.
        make_message_is client_rpc (current_id s + 1) job Response (cl_metadata_node s) match_any_body m
        \<and> read_message client_rpc m = Inr rpc
        \<and> r = and_then (dec rpc) (\<lambda>x. Inr (by_status (status_of x) (value_of x)))))"
proof -
  let ?rid = "current_id s + 1"
  define s1 where "s1 = s\<lparr>current_id := ?rid\<rparr>"
  let ?p = "make_message_is client_rpc ?rid job Response (cl_metadata_node s) match_any_body"
  obtain m n where await: "await_if (ce_outside env) ?p (post_frame (ce_outside env) (cl_metadata_node s) f (cl_net s)) = (m, n)"
    by fastforce
  from assms(2) have run: "(case call env ?rid job match_any_body encoder q dec s1 of (Inl e, t) \<Rightarrow> (Inl e, t)
      | (Inr result, t) \<Rightarrow> (case result of Inl e \<Rightarrow> act_return (Inl e)
          | Inr response \<Rightarrow> act_return (by_status (status_of response) (value_of response))) t) = (r, s')"
    by (simp add: simple_call_def next_id_def act_then_def act_step_def Let_def s1_def)
  have "await_if (ce_outside env) (make_message_is client_rpc ?rid job Response (cl_metadata_node s1) match_any_body)
      (post_frame (ce_outside env) (cl_metadata_node s1) f (cl_net s1)) = (m, n)"
    using await by (simp add: s1_def)
  note call = call_run [where encoder = encoder and rid = ?rid and q = q and f = f and s = s1, OF assms(1), of env job match_any_body dec,
      unfolded this prod.case]
  have sent: "net_sent n = requests s @ [(cl_metadata_node s, f)]" using await by (rule await_posted)
  show ?thesis
  proof (cases m)
    case None
    with run [unfolded call] sent show ?thesis by (auto simp: s1_def act_return_def)
  next
    case (Some x)
    with await have ok: "?p x" using await_if_matches by blast
    then obtain rm where rm: "read_message client_rpc x = Inr rm" by (auto elim: client_job.make_message_is_reads)
    with Some run [unfolded call] sent ok show ?thesis
      by (cases "dec rm") (auto simp: s1_def act_return_def)
  qed
qed

section \<open>A scripted network\<close>

text \<open>Each wait brings the next message of a script.\<close>

definition scripted :: "Message list Outside" where
  "scripted = \<lparr>deliver = (\<lambda>_ _ e. e), meanwhile = (\<lambda>q e. (q @ take 1 e, drop 1 e))\<rparr>"

definition sample_client_env :: "Message list ClientEnv" where
  "sample_client_env = \<lparr>ce_outside = scripted, ce_faults = no_faults, ce_located = (\<lambda>p. [''w'', p])\<rparr>"

definition from_server :: "exn + Frame \<Rightarrow> Message" where
  "from_server f = message_from \<lparr>peer_id = ''m'', peer_role = METADATA\<rparr> (projr f)"

definition sample_client_state :: "Message list \<Rightarrow> Message list Client" where
  "sample_client_state script = \<lparr>current_id = 0, cl_metadata_node = ''m'', cl_disk = [([''w''], Dir), ([''w'', ''f''], File [1, 2, 3])],
     cl_net = \<lparr>net_queue = [], net_sent = [], net_outside = script\<rparr>\<rparr>"

definition download_script :: "Message list" where
  "download_script = [
     from_server (encode_read_file_response 1 \<lparr>rfr_status = Success, rfr_file_size = 2, rfr_chunk_count = 1, rfr_context = empty_context\<rparr>),
     from_server (encode_read_chunk_response 1 \<lparr>rcr_chunk_index = 0, rcr_status = Success, rcr_data = [7, 8], rcr_context = empty_context\<rparr>)]"

definition upload_script :: "Message list" where
  "upload_script = [
     from_server (encode_write_file_response 1 \<lparr>wfr_status = Success, wfr_context = empty_context\<rparr>),
     from_server (encode_write_chunk_response 1 \<lparr>wcr_chunk_index = 0, wcr_status = Success, wcr_context = empty_context\<rparr>)]"

lemma sample_client_disk: "disk_wf (cl_disk (sample_client_state script))"
  by (simp add: sample_client_state_def disk_wf_def node_at_def slash_def)

definition empty_file_script :: "Message list" where
  "empty_file_script = [from_server (encode_read_file_response 1
     \<lparr>rfr_status = Success, rfr_file_size = 0, rfr_chunk_count = 0, rfr_context = empty_context\<rparr>)]"

lemma sample_download:
  "read_file sample_client_env ''x'' ''o'' (sample_client_state empty_file_script) =
    (Inr (Inr ()), snd (read_file sample_client_env ''x'' ''o'' (sample_client_state empty_file_script)))"
proof -
  have "fst (read_file sample_client_env ''x'' ''o'' (sample_client_state empty_file_script)) = Inr (Inr ())" by code_simp
  then show ?thesis by (metis prod.collapse)
qed

definition before_upload :: "Message list Client" where
  "before_upload = (sample_client_state upload_script)\<lparr>current_id := 1\<rparr>"

definition between_uploads :: "Message list Client" where
  "between_uploads = snd (call sample_client_env 1 WRITE_FILE match_any_body encode_write_file_request
     \<lparr>wfq_file_size = 3, wfq_chunk_count = 1, wfq_path = ''g'', wfq_context = empty_context\<rparr> decode_write_file_response before_upload)"

lemma sample_upload_steps:
  "next_id (sample_client_state upload_script) = (Inr 1, before_upload)"
  "open_local sample_client_env (ce_located sample_client_env ''f'') before_upload = (Inr (Inr [1, 2, 3]), before_upload)"
  "map_sum id (map_sum id wfr_status) (fst (call sample_client_env 1 WRITE_FILE match_any_body encode_write_file_request
     \<lparr>wfq_file_size = 3, wfq_chunk_count = 1, wfq_path = ''g'', wfq_context = empty_context\<rparr> decode_write_file_response before_upload))
   = Inr (Inr Success)"
  "map_sum id (map_sum id (\<lambda>r. (wcr_chunk_index r, wcr_status r))) (fst (call sample_client_env 1 WRITE_CHUNK (chunk_index_is 0)
     encode_write_chunk_request \<lparr>wcq_chunk_index = 0, wcq_data = [1, 2, 3], wcq_context = empty_context\<rparr>
     decode_write_chunk_response between_uploads)) = Inr (Inr (0, Success))"
  "chunks_expected 3 = 1"
  "(ucast (- 1 :: u32) :: u64) \<noteq> 0"
  subgoal by (simp add: next_id_def act_step_def sample_client_state_def before_upload_def)
  subgoal by (simp add: open_local_def open_in_def sample_client_env_def sample_client_state_def before_upload_def no_faults_def node_at_def)
  subgoal by code_simp
  subgoal by code_simp
  subgoal by code_simp
  subgoal by code_simp
  done

lemma sample_upload:
  "write_file sample_client_env ''f'' ''g'' (sample_client_state upload_script) =
    (Inr (Inr ()), snd (write_file sample_client_env ''f'' ''g'' (sample_client_state upload_script)))"
proof -
  let ?first = "call sample_client_env 1 WRITE_FILE match_any_body encode_write_file_request
     \<lparr>wfq_file_size = 3, wfq_chunk_count = 1, wfq_path = ''g'', wfq_context = empty_context\<rparr> decode_write_file_response before_upload"
  let ?second = "call sample_client_env 1 WRITE_CHUNK (chunk_index_is 0) encode_write_chunk_request
     \<lparr>wcq_chunk_index = 0, wcq_data = [1, 2, 3], wcq_context = empty_context\<rparr> decode_write_chunk_response between_uploads"
  obtain r1 where r1: "?first = (Inr (Inr r1), between_uploads)" "wfr_status r1 = Success"
    using sample_upload_steps(3) by (cases ?first) (auto simp: between_uploads_def map_sum_def split: sum.splits)
  obtain r2 s2 where r2: "?second = (Inr (Inr r2), s2)" "wcr_chunk_index r2 = 0" "wcr_status r2 = Success"
    using sample_upload_steps(4) by (cases ?second) (auto simp: map_sum_def split: sum.splits)
  have ready: "\<not> fails (ce_faults sample_client_env) Sys_read p" for p by (simp add: sample_client_env_def no_faults_def)
  have last: "write_chunks sample_client_env 1 1 p xs 1 s2 = (Inr (Inr ()), s2)" for p xs
    by (subst write_chunks.simps) (simp add: act_return_def)
  have "write_chunks sample_client_env 1 1 (ce_located sample_client_env ''f'') [1, 2, 3] 0 between_uploads = (Inr (Inr ()), s2)"
    using r2 last ready by (subst write_chunks.simps) (simp add: act_then_def CHUNK_SIZE_nat Let_def)
  then have "write_file sample_client_env ''f'' ''g'' (sample_client_state upload_script) = (Inr (Inr ()), s2)"
    using r1 by (simp add: write_file_def act_then_def sample_upload_steps(1,2,5,6) Let_def)
  then show ?thesis by simp
qed

section \<open>Properties of the client\<close>

text \<open>C36. Whatever the network does, an operation with one exchange sends exactly one request, under a
  fresh id, to the metadata node, and its result is a timeout or what the status of a response
  with that id, kind and sender says; it never gives up on a response that passed its filter.\<close>

theorem operation_outcome:
  assumes "encoder (current_id s + 1) q = Inr f" "simple_call env job encoder q dec status_of value_of s = (r, s')"
  shows "current_id s' = current_id s + 1 \<and> cl_disk s' = cl_disk s
    \<and> net_sent (cl_net s') = net_sent (cl_net s) @ [(cl_metadata_node s, f)]
    \<and> (r = Inr (Inl ErrTimeout) \<or> (\<exists>m rpc.
        make_message_is client_rpc (current_id s + 1) job Response (cl_metadata_node s) match_any_body m
        \<and> read_message client_rpc m = Inr rpc
        \<and> r = and_then (dec rpc) (\<lambda>x. Inr (by_status (status_of x) (value_of x)))))"
  using simple_call_run [where encoder = encoder and q = q and f = f, OF assms] .

theorem operation_outcome_witness:
  "net_sent (cl_net (snd (client_mkdir sample_client_env ''d'' (sample_client_state [])))) =
     [] @ [(''m'', rpc_frame client_rpc 1 MKDIR Request (bytes_of_string ''d'' @ [0]))]"
  using operation_outcome [where encoder = encode_mkdir_request and q = "\<lparr>mdq_path = ''d'', mdq_context = empty_context\<rparr>"
      and s = "sample_client_state []" and env = sample_client_env and job = MKDIR and dec = decode_mkdir_response
      and status_of = mdr_status and value_of = "\<lambda>_. ()", OF mkdir_request.enc_frame prod.collapse [symmetric]]
  by (simp add: client_mkdir_def sample_client_state_def)

text \<open>C37. A download replaces its destination as a whole or leaves it alone, whatever the server answers
  and whichever system calls fail: no file but the temporary one and the destination changes,
  and on success the destination has the announced size, all of whose chunks were requested.\<close>

theorem download_is_atomic:
  assumes "read_file env from to s = (r, s')" "disk_wf (cl_disk s)"
    "tmp = ce_located env (to @ ''.dfs-read-'' @ decimal (unat (current_id s + 1)) @ ''.tmp'')" "dest = ce_located env to"
    "plain_path tmp" "plain_path dest" "tmp \<noteq> dest"
  shows "(\<forall>l. l \<noteq> dest \<and> l \<noteq> tmp \<longrightarrow> node_at (cl_disk s') l = node_at (cl_disk s) l)
    \<and> (if r = Inr (Inr ()) then \<exists>c. node_at (cl_disk s') dest = Some (File c)
          \<and> net_sent (cl_net s') = net_sent (cl_net s) @ read_request (cl_metadata_node s) (current_id s + 1) from
              # map (chunk_request (cl_metadata_node s) (current_id s + 1)) [0..<count_chunks (length c)]
       else node_at (cl_disk s') dest = node_at (cl_disk s) dest)"
proof -
  from assms(3) have tmp: "tmp = ce_located env (temporary_name (current_id s + 1) to)" by (simp add: temporary_name_def)
  show ?thesis
    using wpD [OF read_file_wp [OF assms(2) tmp assms(4-7)] assms(1)] assms(7)
    by (cases r) (auto split: if_splits)
qed

theorem download_is_atomic_witness:
  "\<exists>c. node_at (cl_disk (snd (read_file sample_client_env ''x'' ''o'' (sample_client_state empty_file_script)))) [''w'', ''o''] = Some (File c)"
proof -
  have tmp: "[''w'', ''o.dfs-read-1.tmp''] = ce_located sample_client_env (''o'' @ ''.dfs-read-''
      @ decimal (unat (current_id (sample_client_state empty_file_script) + 1)) @ ''.tmp'')" by code_simp
  have dest: "[''w'', ''o''] = ce_located sample_client_env ''o''" by (simp add: sample_client_env_def)
  have "plain_path [''w'', ''o.dfs-read-1.tmp'']" "plain_path [''w'', ''o'']" by (simp_all add: slash_def)
  from download_is_atomic [OF sample_download sample_client_disk tmp dest this] show ?thesis by auto
qed

text \<open>C38. An upload that succeeds has sent the write request with the size and chunk count of the local
  file and then its chunks, one after the other, which together are the file; an upload that
  fails has sent a beginning of that, and the local disk never changes.\<close>

theorem upload_sends_file:
  assumes "write_file env src to s = (r, s')"
    "\<And>c. open_in (ce_faults env) (cl_disk s) (ce_located env src) = Inr c \<Longrightarrow> length c < 2 ^ 64"
  shows "cl_disk s' = cl_disk s \<and> (r \<noteq> Inr (Inr ()) \<and> net_sent (cl_net s') = net_sent (cl_net s) \<or>
    (\<exists>c m. open_in (ce_faults env) (cl_disk s) (ce_located env src) = Inr c \<and> m \<le> count_chunks (length c)
      \<and> net_sent (cl_net s') = net_sent (cl_net s) @ write_request (cl_metadata_node s) (current_id s + 1) to (length c)
          # map (chunk_upload (cl_metadata_node s) (current_id s + 1) c) [0..<m]
      \<and> (r = Inr (Inr ()) \<longrightarrow> concat (map (\<lambda>i. chunk i c) [0..<m]) = c)))"
proof -
  note run = wpD [OF write_file_wp [where env = env and s = s and src = src and to = to, OF assms(2)] assms(1)]
  show ?thesis
  proof (cases r)
    case (Inl e)
    with run show ?thesis by (auto simp: sent_upload_def)
  next
    case (Inr x)
    with run show ?thesis using all_chunks by (auto simp: sent_upload_def)
  qed
qed

theorem upload_sends_file_witness:
  "\<exists>c m. open_in no_faults (cl_disk (sample_client_state upload_script)) [''w'', ''f''] = Inr c
    \<and> net_sent (cl_net (snd (write_file sample_client_env ''f'' ''g'' (sample_client_state upload_script)))) =
        [] @ write_request ''m'' 1 ''g'' (length c) # map (chunk_upload ''m'' 1 c) [0..<m]
    \<and> concat (map (\<lambda>i. chunk i c) [0..<m]) = c"
proof -
  have "length c < 2 ^ 64" if "open_in (ce_faults sample_client_env) (cl_disk (sample_client_state upload_script))
      (ce_located sample_client_env ''f'') = Inr c" for c
    using that by (auto simp add: sample_client_env_def sample_client_state_def open_in_def no_faults_def node_at_def)
  from upload_sends_file [OF sample_upload this] show ?thesis
    by (auto simp: sample_client_env_def sample_client_state_def)
qed

text \<open>C39. Both transfers end, whatever the server answers: one sends at most as many requests as a 32-bit
  chunk count allows, and one more.\<close>

theorem transfers_end:
  "length (net_sent (cl_net (snd (read_file env from to s)))) \<le> length (net_sent (cl_net s)) + 2 ^ 32
   \<and> length (net_sent (cl_net (snd (write_file env src to s)))) \<le> length (net_sent (cl_net s)) + 2 ^ 32"
proof
  show "length (net_sent (cl_net (snd (read_file env from to s)))) \<le> length (net_sent (cl_net s)) + 2 ^ 32"
    using wpD [OF read_file_requests prod.collapse [symmetric]] by (auto split: sum.splits)
  show "length (net_sent (cl_net (snd (write_file env src to s)))) \<le> length (net_sent (cl_net s)) + 2 ^ 32"
    using wpD [OF write_file_requests prod.collapse [symmetric]] by (auto split: sum.splits)
qed

end
