(* ===== verification/RemoteStore.thy ===== *)
theory RemoteStore
  imports StoreInvariant MetadataNode Client
begin

text \<open>
  Client and metadata node together. The node is the interface \<open>service\<close> of the client: its
  producer takes the request, its worker thread handles it, and the response reaches the
  client. So the client's operations on the name space are those of the metadata store.
\<close>

section \<open>The node as a service\<close>

abbreviation node_sent :: "'x MetadataNode \<Rightarrow> (NodeId \<times> Frame) list" where
  "node_sent s \<equiv> net_sent (mw_net (mn_worker s))"

text \<open>What of the frames \<open>posted\<close> reaches the client, as messages.\<close>

definition to_client :: "NodeIdentity \<Rightarrow> NodeIdentity \<Rightarrow> (NodeId \<times> Frame) list \<Rightarrow> Message list" where
  "to_client client server posted =
     map (\<lambda>(_, f). message_from server f) (filter (\<lambda>(n, _). n = peer_id client) posted)"

text \<open>
  The world outside a client whose only peer is the node \<open>server\<close>: while the client waits, the
  node's two threads each take a turn, and what the node sent to the client arrives. An
  exception ends the node, and nothing comes from it any more.
\<close>

definition node_outside :: "'x Env \<Rightarrow> steady_time \<Rightarrow> NodeIdentity \<Rightarrow> NodeIdentity \<Rightarrow> 'x MetadataNode Outside" where
  "node_outside env now client server = \<lparr>
     deliver = (\<lambda>n f s. if n = peer_id server then receive (message_from client f) s else s),
     meanwhile = (\<lambda>q s.
       if mn_stopping s then (q, s)
       else (case act_then produce (\<lambda>_. work env now now) s of
           (Inl _, s1) \<Rightarrow> (q, stop s1)
         | (Inr _, s1) \<Rightarrow> (q @ to_client client server (drop (length (node_sent s)) (node_sent s1)), s1)))\<rparr>"

definition idle :: "'x MetadataNode \<Rightarrow> bool" where
  "idle s \<longleftrightarrow> queue_of s = [] \<and> mn_jobs s = [] \<and> \<not> mn_stopping s"

text \<open>The node in state \<open>s\<close> answers frame \<open>f\<close> of the client with \<open>g\<close> and is then in state \<open>s'\<close>.\<close>

definition served ::
  "'x Env \<Rightarrow> steady_time \<Rightarrow> NodeIdentity \<Rightarrow> Frame \<Rightarrow> 'x MetadataNode \<Rightarrow> Frame \<Rightarrow> 'x MetadataNode \<Rightarrow> bool" where
  "served env now client f s g s' \<longleftrightarrow> idle s \<and> (\<exists>rid ev w posted.
     sendable ev \<and> encode_event rid ev = Inr f
     \<and> handle env (with_context \<lparr>ctx_request_id = rid, ctx_sender = client\<rparr> ev) (mn_worker s) = (Inr (), w)
     \<and> net_sent (mw_net w) = node_sent s @ posted @ [(peer_id client, g)]
     \<and> list_all (\<lambda>(n, _). n \<noteq> peer_id client) posted
     \<and> s' = s\<lparr>mn_worker := w\<lparr>mw_nodes := check_heartbeat_timeouts now (mw_nodes w)\<rparr>\<rparr>)"

text \<open>One exchange with an idle node is one run of the handler of the request.\<close>

lemma exchange_run:
  assumes "idle s" "sendable ev" "encode_event rid ev = Inr f"
  shows "meanwhile (node_outside env now client server) q (deliver (node_outside env now client server) (peer_id server) f s) =
    (case handle env (with_context \<lparr>ctx_request_id = rid, ctx_sender = client\<rparr> ev) (mn_worker s) of
       (Inl _, w) \<Rightarrow> (q, stop (s\<lparr>mn_worker := w\<rparr>))
     | (Inr _, w) \<Rightarrow> (q @ to_client client server (drop (length (node_sent s)) (net_sent (mw_net w))),
         s\<lparr>mn_worker := w\<lparr>mw_nodes := check_heartbeat_timeouts now (mw_nodes w)\<rparr>\<rparr>))"
proof -
  let ?m = "message_from client f" and ?ev = "with_context \<lparr>ctx_request_id = rid, ctx_sender = client\<rparr> ev"
  have idle: "queue_of s = []" "mn_jobs s = []" "\<not> mn_stopping s" using assms(1) by (simp_all add: idle_def)
  from request_dispatched [OF assms(2), of rid client "[]"] assms(3)
  have wants: "producer_wants ?m" and job: "push_worker_job ?m [] = Inr [ClientJobEvent ?ev]" by auto
  have same: "(mn_worker s)\<lparr>mw_net := (mw_net (mn_worker s))\<lparr>net_queue := []\<rparr>\<rparr> = mn_worker s" using idle(1) by simp
  have p: "produce (receive ?m s) = (Inr (), s\<lparr>mn_jobs := [ClientJobEvent ?ev]\<rparr>)"
    using idle wants job same by (simp add: produce_def receive_def push_def pop_if_def Let_def)
  have drop: "s\<lparr>mn_jobs := [], mn_worker := w\<rparr> = s\<lparr>mn_worker := w\<rparr>" for w using idle(2) by (cases s) simp
  have w: "work env now now (s\<lparr>mn_jobs := [ClientJobEvent ?ev]\<rparr>) =
    (case handle env ?ev (mn_worker s) of (Inl e, w) \<Rightarrow> (Inl e, s\<lparr>mn_worker := w\<rparr>)
     | (Inr _, w) \<Rightarrow> (Inr (), s\<lparr>mn_worker := w\<lparr>mw_nodes := check_heartbeat_timeouts now (mw_nodes w)\<rparr>\<rparr>))"
    by (simp add: work_def act_then_def act_step_def pop_with_timeout_def on_worker_def on_nodes_def act_modify_def drop
        split: prod.split sum.split)
  have r: "mn_stopping (receive ?m s) = mn_stopping s" "node_sent (receive ?m s) = node_sent s" by (simp_all add: receive_def)
  show ?thesis
    using idle(3) by (simp add: node_outside_def act_then_def p w r split: prod.split sum.split)
qed

lemma served_exchange:
  assumes "served env now client f s g s'"
  shows "meanwhile (node_outside env now client server) q (deliver (node_outside env now client server) (peer_id server) f s)
    = (q @ [message_from server g], s')"
proof -
  from assms obtain rid ev w posted where ev: "idle s" "sendable ev" "encode_event rid ev = Inr f"
    and run: "handle env (with_context \<lparr>ctx_request_id = rid, ctx_sender = client\<rparr> ev) (mn_worker s) = (Inr (), w)"
    and w: "net_sent (mw_net w) = node_sent s @ posted @ [(peer_id client, g)]" "list_all (\<lambda>(n, _). n \<noteq> peer_id client) posted"
    and s': "s' = s\<lparr>mn_worker := w\<lparr>mw_nodes := check_heartbeat_timeouts now (mw_nodes w)\<rparr>\<rparr>"
    by (auto simp: served_def)
  have none: "filter (\<lambda>(n, _). n = peer_id client) posted = []" using w(2) by (auto simp: list_all_iff filter_empty_conv)
  show ?thesis unfolding exchange_run [OF ev] using run w(1) none s' by (simp add: to_client_def)
qed

interpretation node: service "node_outside env now client server" server "served env now client"
  by unfold_locales (rule served_exchange)

section \<open>Operations on the name space\<close>

text \<open>An operation of the client, the request it sends, and the call of the store it stands for.\<close>

datatype remote_op = Create path | Mkdir path | Move path path

fun perform :: "'e ClientEnv \<Rightarrow> remote_op \<Rightarrow> ('e, unit) client_act" where
  "perform env (Create p) = create_file env p"
| "perform env (Mkdir p) = client_mkdir env p"
| "perform env (Move p q) = client_rename env p q"

fun op_event :: "remote_op \<Rightarrow> ClientEvent" where
  "op_event (Create p) = CreateFileEvent \<lparr>cfq_path = lexically_normal p, cfq_context = empty_context\<rparr>"
| "op_event (Mkdir p) = MakeDirEvent \<lparr>mdq_path = p, mdq_context = empty_context\<rparr>"
| "op_event (Move p q) = RenameEvent \<lparr>rnq_old_path = p, rnq_new_path = q, rnq_context = empty_context\<rparr>"

fun op_call :: "string \<Rightarrow> remote_op \<Rightarrow> store_call" where
  "op_call oid (Create p) = Add (lexically_normal p) (file_entry (lexically_normal p) 0 oid [] [])"
| "op_call oid (Mkdir p) = Make_directory p"
| "op_call oid (Move p q) = Rename p q"

fun op_draws :: "remote_op \<Rightarrow> nat" where
  "op_draws (Create p) = 1"
| "op_draws _ = 0"

definition drawn_id :: "'x Env \<Rightarrow> nat \<Rightarrow> string" where
  "drawn_id env i = (case env_draw env i of (high, low) \<Rightarrow> generate high low)"

definition status_frame :: "u64 \<Rightarrow> ClientJob \<Rightarrow> MetadataStoreError + unit \<Rightarrow> Frame" where
  "status_frame rid job r = rpc_frame client_rpc rid job Response [client_status_to_u8 (client_status_of r)]"

lemma handle_op:
  assumes "call_store (env_host env) (op_call (drawn_id env (mw_draws w)) op) (mw_store w) = (r, st)"
  shows "handle env (with_context ctx (op_event op)) w = (Inr (), w\<lparr>mw_store := st, mw_draws := mw_draws w + op_draws op,
    mw_net := post_frame (env_outside env) (peer_id (ctx_sender ctx))
      (status_frame (ctx_request_id ctx) (event_job (op_event op)) r) (mw_net w)\<rparr>)"
proof (cases op)
  case (Create p)
  with assms show ?thesis
    by (simp add: handle_create_file_def new_object_id_def on_store_def act_then_def act_step_def drawn_id_def
        status_frame_def respond_run [where enc = encode_create_file_response, OF create_file_response.enc_frame] split: prod.splits)
next
  case (Mkdir p)
  with assms show ?thesis
    by (simp add: handle_make_dir_def on_store_def act_then_def act_step_def
        status_frame_def respond_run [where enc = encode_mdkir_response, OF mkdir_response.enc_frame])
next
  case (Move p q)
  with assms show ?thesis
    by (simp add: handle_rename_def on_store_def act_then_def act_step_def
        status_frame_def respond_run [where enc = encode_rename_response, OF rename_response.enc_frame])
qed

text \<open>A client with nothing in its queue, connected to an idle node.\<close>

definition connected :: "'x Env \<Rightarrow> steady_time \<Rightarrow> NodeIdentity \<Rightarrow> NodeIdentity \<Rightarrow> 'x MetadataNode ClientEnv \<Rightarrow> 'x MetadataNode Client \<Rightarrow> bool" where
  "connected env now client server cenv c \<longleftrightarrow> ce_outside cenv = node_outside env now client server
     \<and> cl_metadata_node c = peer_id server \<and> net_queue (cl_net c) = [] \<and> idle (net_outside (cl_net c))"

abbreviation worker_of :: "'x MetadataNode Client \<Rightarrow> 'x MetadataWorker" where
  "worker_of c \<equiv> mn_worker (net_outside (cl_net c))"

lemma simple_call_served:
  fixes enc :: "u64 \<Rightarrow> 'q \<Rightarrow> exn + Frame" and dec :: "ClientRpcMessage \<Rightarrow> exn + 'r"
  assumes conn: "connected env now client server cenv c"
    and ev: "sendable ev" "encode_event (current_id c + 1) ev = Inr f" "enc (current_id c + 1) q = Inr f"
    and run: "handle env (with_context \<lparr>ctx_request_id = current_id c + 1, ctx_sender = client\<rparr> ev) (worker_of c) = (Inr (), w)"
      "net_sent (mw_net w) = net_sent (mw_net (worker_of c)) @ [(peer_id client, rpc_frame client_rpc (current_id c + 1) job Response body)]"
      "net_queue (mw_net w) = []"
    and resp: "client_job_ok job" "body_fits body"
      "\<exists>m. read_message client_rpc (message_from server (rpc_frame client_rpc (current_id c + 1) job Response body)) = Inr m \<and> dec m = Inr r"
  shows "\<exists>c'. simple_call cenv job enc q dec status_of value_of c = (Inr (by_status (status_of r) (value_of r)), c')
    \<and> connected env now client server cenv c'
    \<and> worker_of c' = w\<lparr>mw_nodes := check_heartbeat_timeouts now (mw_nodes w)\<rparr>"
proof -
  let ?rid = "current_id c + 1" and ?s = "net_outside (cl_net c)"
  define s' where "s' = ?s\<lparr>mn_worker := w\<lparr>mw_nodes := check_heartbeat_timeouts now (mw_nodes w)\<rparr>\<rparr>"
  define c1 where "c1 = c\<lparr>current_id := ?rid\<rparr>"
  have idle: "idle ?s" "idle s'" using conn run(3) by (auto simp: connected_def idle_def s'_def)
  have "served env now client f ?s (rpc_frame client_rpc ?rid job Response body) s'"
    using idle(1) ev(1,2) run(1,2) by (auto simp: served_def s'_def intro!: exI [of _ ?rid] exI [of _ ev] exI [of _ "[]"])
  then have "call cenv ?rid job match_any_body enc q dec c1 =
    (Inr (Inr r), c1\<lparr>cl_net := \<lparr>net_queue = net_queue (cl_net c1), net_sent = net_sent (cl_net c1) @ [(peer_id server, f)], net_outside = s'\<rparr>\<rparr>)"
    by (intro node.call_returns) (use conn ev resp in \<open>simp_all add: connected_def c1_def match_any_body_def get_return_def\<close>)
  with idle conn show ?thesis
    by (simp add: simple_call_def act_then_def next_id_def act_step_def Let_def c1_def act_return_def connected_def s'_def)
qed

lemma perform_op:
  assumes conn: "connected env now client server cenv c" and ok: "sendable (op_event op)"
    and call: "call_store (env_host env) (op_call (drawn_id env (mw_draws (worker_of c))) op) (mw_store (worker_of c)) = (r, st)"
  shows "\<exists>c' w g. perform cenv op c = (Inr (by_status (client_status_of r) ()), c') \<and> connected env now client server cenv c'
    \<and> handle env (with_context \<lparr>ctx_request_id = current_id c + 1, ctx_sender = client\<rparr> (op_event op)) (worker_of c) = (Inr (), w)
    \<and> worker_of c' = w\<lparr>mw_nodes := check_heartbeat_timeouts now (mw_nodes w)\<rparr>
    \<and> mw_store w = st \<and> mw_draws w = mw_draws (worker_of c) + op_draws op
    \<and> mw_net w = post_frame (env_outside env) (peer_id client) g (mw_net (worker_of c))"
proof -
  let ?rid = "current_id c + 1"
  define w where "w = (worker_of c)\<lparr>mw_store := st, mw_draws := mw_draws (worker_of c) + op_draws op,
    mw_net := post_frame (env_outside env) (peer_id client) (status_frame ?rid (event_job (op_event op)) r) (mw_net (worker_of c))\<rparr>"
  have run: "handle env (with_context \<lparr>ctx_request_id = ?rid, ctx_sender = client\<rparr> (op_event op)) (worker_of c) = (Inr (), w)"
    using handle_op [OF call, of "\<lparr>ctx_request_id = ?rid, ctx_sender = client\<rparr>"] by (simp add: w_def)
  have net: "net_sent (mw_net w) = net_sent (mw_net (worker_of c)) @ [(peer_id client,
      rpc_frame client_rpc ?rid (event_job (op_event op)) Response [client_status_to_u8 (client_status_of r)])]"
    "net_queue (mw_net w) = []"
    using conn by (simp_all add: w_def status_frame_def connected_def idle_def)
  define g where "g = status_frame ?rid (event_job (op_event op)) r"
  have after: "mw_store w = st" "mw_draws w = mw_draws (worker_of c) + op_draws op"
    "mw_net w = post_frame (env_outside env) (peer_id client) g (mw_net (worker_of c))"
    by (simp_all add: w_def g_def)
  have fits: "body_fits [client_status_to_u8 (client_status_of r)]" by (simp add: body_fits_def)
  have good: "client_status_ok (client_status_of r)" by (cases r rule: client_status_of.cases) simp_all
  show ?thesis
  proof (cases op)
    case (Create p)
    have "\<exists>c'. create_file cenv p c = (Inr (by_status (cfr_status \<lparr>cfr_status = client_status_of r,
        cfr_context = \<lparr>ctx_request_id = ?rid, ctx_sender = server\<rparr>\<rparr>) ()), c')
      \<and> connected env now client server cenv c' \<and> worker_of c' = w\<lparr>mw_nodes := check_heartbeat_timeouts now (mw_nodes w)\<rparr>"
      unfolding create_file_def
      by (rule simple_call_served [where enc = encode_create_file_request and q = "\<lparr>cfq_path = lexically_normal p, cfq_context = empty_context\<rparr>" and dec = decode_create_file_response and status_of = cfr_status
        and value_of = "\<lambda>_. ()" and r = "\<lparr>cfr_status = client_status_of r, cfr_context = \<lparr>ctx_request_id = ?rid, ctx_sender = server\<rparr>\<rparr>", OF conn ok _ create_file_request.enc_frame run
        net(1) [unfolded Create op_event.simps event_job.simps] net(2) _ fits])
        (use create_file_response.received [of "\<lparr>cfr_status = client_status_of r, cfr_context = empty_context\<rparr>" server ?rid] good fits Create
          in \<open>auto simp: create_file_request.enc_frame\<close>)
    with after run Create show ?thesis by simp blast
  next
    case (Mkdir p)
    have "\<exists>c'. client_mkdir cenv p c = (Inr (by_status (mdr_status \<lparr>mdr_status = client_status_of r,
        mdr_context = \<lparr>ctx_request_id = ?rid, ctx_sender = server\<rparr>\<rparr>) ()), c')
      \<and> connected env now client server cenv c' \<and> worker_of c' = w\<lparr>mw_nodes := check_heartbeat_timeouts now (mw_nodes w)\<rparr>"
      unfolding client_mkdir_def
      by (rule simple_call_served [where enc = encode_mkdir_request and q = "\<lparr>mdq_path = p, mdq_context = empty_context\<rparr>" and dec = decode_mkdir_response and status_of = mdr_status
        and value_of = "\<lambda>_. ()" and r = "\<lparr>mdr_status = client_status_of r, mdr_context = \<lparr>ctx_request_id = ?rid, ctx_sender = server\<rparr>\<rparr>", OF conn ok _ mkdir_request.enc_frame run
        net(1) [unfolded Mkdir op_event.simps event_job.simps] net(2) _ fits])
        (use mkdir_response.received [of "\<lparr>mdr_status = client_status_of r, mdr_context = empty_context\<rparr>" server ?rid] good fits Mkdir
          in \<open>auto simp: mkdir_request.enc_frame\<close>)
    with after run Mkdir show ?thesis by simp blast
  next
    case (Move p q)
    have "\<exists>c'. client_rename cenv p q c = (Inr (by_status (rnr_status \<lparr>rnr_status = client_status_of r,
        rnr_context = \<lparr>ctx_request_id = ?rid, ctx_sender = server\<rparr>\<rparr>) ()), c')
      \<and> connected env now client server cenv c' \<and> worker_of c' = w\<lparr>mw_nodes := check_heartbeat_timeouts now (mw_nodes w)\<rparr>"
      unfolding client_rename_def
      by (rule simple_call_served [where enc = encode_rename_request and q = "\<lparr>rnq_old_path = p, rnq_new_path = q, rnq_context = empty_context\<rparr>" and dec = decode_rename_response and status_of = rnr_status
        and value_of = "\<lambda>_. ()" and r = "\<lparr>rnr_status = client_status_of r, rnr_context = \<lparr>ctx_request_id = ?rid, ctx_sender = server\<rparr>\<rparr>", OF conn ok _ rename_request.enc_frame run
        net(1) [unfolded Move op_event.simps event_job.simps] net(2) _ fits])
        (use rename_response.received [of "\<lparr>rnr_status = client_status_of r, rnr_context = empty_context\<rparr>" server ?rid] good fits Move
          in \<open>auto simp: rename_request.enc_frame\<close>)
    with after run Move show ?thesis by simp blast
  qed
qed

lemma drawn_nul_free: "nul_free (drawn_id env i)"
  by (simp add: drawn_id_def generate_nul_free split: prod.split)

lemma op_call_ok: "call_ok (op_call (drawn_id env i) op)"
  by (cases op) (simp_all add: md_strings_ok_def file_entry_def drawn_nul_free, simp add: nul_free_def)

lemma status_of_result: "by_status (client_status_of r) () = Inr () \<longleftrightarrow> r = Inr ()"
  by (cases r rule: client_status_of.cases) (simp_all add: by_status_def)

section \<open>A sample connection\<close>

definition sample_server :: NodeIdentity where
  "sample_server = \<lparr>peer_id = ''m'', peer_role = METADATA\<rparr>"

definition sample_user :: NodeIdentity where
  "sample_user = \<lparr>peer_id = ''c'', peer_role = CLIENT\<rparr>"

definition sample_remote_env :: "unit MetadataNode ClientEnv" where
  "sample_remote_env = \<lparr>ce_outside = node_outside silent_env 0 sample_user sample_server, ce_faults = no_faults, ce_located = elems\<rparr>"

definition sample_remote :: "unit MetadataNode Client" where
  "sample_remote = \<lparr>current_id = 0, cl_metadata_node = ''m'', cl_disk = [],
     cl_net = \<lparr>net_queue = [], net_sent = [],
       net_outside = sample_node\<lparr>mn_worker := (mn_worker sample_node)\<lparr>mw_store := sample_store\<rparr>\<rparr>\<rparr>\<rparr>"

lemma sample_connected: "connected silent_env 0 sample_user sample_server sample_remote_env sample_remote"
  by (simp add: connected_def sample_remote_env_def sample_remote_def sample_server_def idle_def sample_node_def sample_net_def)

end
