(* ===== verification/Configuration.thy ===== *)
theory Configuration
  imports Messages
begin

text \<open>
  \<^verbatim>\<open>common/Yaml.cpp\<close>: the configuration files of the nodes. Of yaml-cpp only what the code calls
  is there, as a parameter: a file is loaded to a node, a field of a node is selected, a scalar
  is converted, the items of a sequence are visited; each of these may throw. What a document
  says is read field by field into a record, and an exception of the library ends the reading
  with the fields read so far.
\<close>

section \<open>The library\<close>

text \<open>
  An exception derived from \<^verbatim>\<open>YAML::Exception\<close>, or another one. A subscript of a mutable node
  and one of a constant node are different operators of the library.
\<close>

datatype thrown = YamlException | Thrown exn

record 'y Yaml =
  load_file :: "string \<Rightarrow> thrown + 'y"
  subscript :: "'y \<Rightarrow> string \<Rightarrow> thrown + 'y"
  subscript_const :: "'y \<Rightarrow> string \<Rightarrow> thrown + 'y"
  as_string :: "'y \<Rightarrow> thrown + string"
  as_u16 :: "'y \<Rightarrow> thrown + u16"
  sequence_items :: "'y \<Rightarrow> thrown + 'y list"

section \<open>Reading a configuration\<close>

text \<open>The statements of a \<^verbatim>\<open>try\<close> block that fill a record, up to the first that throws.\<close>

fun assigns :: "('r \<Rightarrow> thrown + 'r) list \<Rightarrow> 'r \<Rightarrow> thrown option \<times> 'r" where
  "assigns [] r = (None, r)"
| "assigns (a # rest) r = (case a r of Inl e \<Rightarrow> (Some e, r) | Inr r1 \<Rightarrow> assigns rest r1)"

text \<open>The handler: exceptions of the library are printed, any other leaves the function.\<close>

fun caught :: "thrown option \<times> 'r \<Rightarrow> exn + 'r" where
  "caught (None, r) = Inr r"
| "caught (Some YamlException, r) = Inr r"
| "caught (Some (Thrown e), r) = Inl e"

definition role_from_string :: "string \<Rightarrow> thrown + NodeRole" where
  "role_from_string str =
     (if str = ''Client'' then Inr CLIENT
      else if str = ''Metadata'' then Inr METADATA
      else if str = ''Storage'' then Inr STORAGE
      else Inl (Thrown InvalidArgument))"

definition new_endpoint :: Endpoint where
  "new_endpoint = \<lparr>ep_node_id = [], ep_role = CLIENT, ep_host = [], ep_port = 0\<rparr>"

definition new_config :: NodeConfig where
  "new_config = \<lparr>cfg_node_id = [], cfg_role = CLIENT, cfg_host = [], cfg_port = 0, cfg_data_directory = []\<rparr>"

text \<open>The scalar \<^verbatim>\<open>yaml["node"][field]\<close>, and the conversions of it.\<close>

definition node_field :: "'y Yaml \<Rightarrow> 'y \<Rightarrow> string \<Rightarrow> thrown + 'y" where
  "node_field lib yaml field = and_then (subscript lib yaml ''node'') (\<lambda>node. subscript lib node field)"

definition node_string :: "'y Yaml \<Rightarrow> 'y \<Rightarrow> string \<Rightarrow> thrown + string" where
  "node_string lib yaml field = and_then (node_field lib yaml field) (as_string lib)"

definition node_u16 :: "'y Yaml \<Rightarrow> 'y \<Rightarrow> string \<Rightarrow> thrown + u16" where
  "node_u16 lib yaml field = and_then (node_field lib yaml field) (as_u16 lib)"

definition get_node_info :: "'y Yaml \<Rightarrow> string \<Rightarrow> exn + Endpoint" where
  "get_node_info lib filename =
     caught (case load_file lib filename of
        Inl e \<Rightarrow> (Some e, new_endpoint)
      | Inr yaml \<Rightarrow> assigns
          [\<lambda>info. and_then (node_string lib yaml ''node_id'') (\<lambda>x. Inr (info\<lparr>ep_node_id := x\<rparr>)),
           \<lambda>info. and_then (and_then (node_string lib yaml ''role'') role_from_string) (\<lambda>x. Inr (info\<lparr>ep_role := x\<rparr>)),
           \<lambda>info. and_then (node_string lib yaml ''host'') (\<lambda>x. Inr (info\<lparr>ep_host := x\<rparr>)),
           \<lambda>info. and_then (node_u16 lib yaml ''port'') (\<lambda>x. Inr (info\<lparr>ep_port := x\<rparr>))]
          new_endpoint)"

definition get_node_config :: "'y Yaml \<Rightarrow> string \<Rightarrow> exn + NodeConfig" where
  "get_node_config lib filename =
     caught (case load_file lib filename of
        Inl e \<Rightarrow> (Some e, new_config)
      | Inr yaml \<Rightarrow> assigns
          [\<lambda>config. and_then (node_string lib yaml ''node_id'') (\<lambda>x. Inr (config\<lparr>cfg_node_id := x\<rparr>)),
           \<lambda>config. and_then (and_then (node_string lib yaml ''role'') role_from_string) (\<lambda>x. Inr (config\<lparr>cfg_role := x\<rparr>)),
           \<lambda>config. and_then (node_string lib yaml ''host'') (\<lambda>x. Inr (config\<lparr>cfg_host := x\<rparr>)),
           \<lambda>config. and_then (node_u16 lib yaml ''port'') (\<lambda>x. Inr (config\<lparr>cfg_port := x\<rparr>)),
           \<lambda>config. and_then (node_string lib yaml ''data_dir'') (\<lambda>x. Inr (config\<lparr>cfg_data_directory := x\<rparr>))]
          new_config)"

text \<open>One item of \<^verbatim>\<open>seed_nodes\<close>; only a complete one is appended.\<close>

definition seed_node :: "'y Yaml \<Rightarrow> 'y \<Rightarrow> thrown + Endpoint" where
  "seed_node lib item =
     and_then (and_then (subscript_const lib item ''node_id'') (as_string lib)) (\<lambda>node_id.
     and_then (and_then (and_then (subscript_const lib item ''role'') (as_string lib)) role_from_string) (\<lambda>role.
     and_then (and_then (subscript_const lib item ''host'') (as_string lib)) (\<lambda>host.
     and_then (and_then (subscript_const lib item ''port'') (as_u16 lib)) (\<lambda>port.
     Inr \<lparr>ep_node_id = node_id, ep_role = role, ep_host = host, ep_port = port\<rparr>))))"

definition get_seed_nodes :: "'y Yaml \<Rightarrow> string \<Rightarrow> exn + Endpoint list" where
  "get_seed_nodes lib filename =
     caught (case and_then (load_file lib filename)
                 (\<lambda>yaml. and_then (subscript lib yaml ''seed_nodes'') (sequence_items lib)) of
        Inl e \<Rightarrow> (Some e, [])
      | Inr items \<Rightarrow> assigns
          (map (\<lambda>item nodes. and_then (seed_node lib item) (\<lambda>node. Inr (nodes @ [node]))) items) [])"

section \<open>What a file comes to\<close>

definition endpoint_of :: "NodeConfig \<Rightarrow> Endpoint" where
  "endpoint_of c = \<lparr>ep_node_id = cfg_node_id c, ep_role = cfg_role c, ep_host = cfg_host c, ep_port = cfg_port c\<rparr>"

text \<open>
  A client reads its file with \<open>get_node_info\<close>, the other nodes theirs with \<open>get_node_config\<close>.
  The library throws only exceptions of its own.
\<close>

definition throws_own :: "(thrown + 'a) \<Rightarrow> bool" where
  "throws_own r \<longleftrightarrow> (\<forall>e. r \<noteq> Inl (Thrown e))"

text \<open>Reading into a record and looking at a part of it is reading into the part.\<close>

lemma assigns_part:
  "list_all2 (\<lambda>a b. \<forall>r. and_then (a r) (\<lambda>r. Inr (h r)) = b (h r)) as bs \<Longrightarrow>
   assigns bs (h r) = map_prod id h (assigns as r)"
proof (induction "as" bs arbitrary: r rule: list_all2_induct)
  case (Cons a as' b bs')
  from Cons(1) have "b (h r) = and_then (a r) (\<lambda>r. Inr (h r))" by simp
  with Cons(3) show ?case by (cases "a r") simp_all
qed simp

lemma assigns_append:
  "assigns (as @ bs) r = (case assigns as r of (Some e, r1) \<Rightarrow> (Some e, r1) | (None, r1) \<Rightarrow> assigns bs r1)"
  by (induction "as" arbitrary: r) (simp_all split: sum.split)

lemma caught_part: "caught (map_prod id h x) = and_then (caught x) (\<lambda>r. Inr (h r))"
  by (cases x rule: caught.cases) simp_all

text \<open>An unknown role is no exception of the library: it leaves the function.\<close>

lemma unknown_role_thrown:
  assumes "load_file lib filename = Inr yaml" "node_string lib yaml ''node_id'' = Inr i"
    "node_string lib yaml ''role'' = Inr r" "r \<notin> {''Client'', ''Metadata'', ''Storage''}"
  shows "get_node_info lib filename = Inl InvalidArgument"
  using assms by (simp add: get_node_info_def role_from_string_def)

text \<open>
  A sequence with a broken item gives the items before it; the caller cannot tell.
\<close>

lemma assigns_items:
  assumes "map f good = map Inr xs"
  shows "assigns (map (\<lambda>item nodes. and_then (f item) (\<lambda>node. Inr (nodes @ [node]))) good) nodes = (None, nodes @ xs)"
  using assms
proof (induction good arbitrary: nodes xs)
  case (Cons item good)
  then show ?case by (cases xs) simp_all
qed simp

lemma seeds_before_broken_item:
  assumes "load_file lib filename = Inr yaml" "subscript lib yaml ''seed_nodes'' = Inr y"
    "sequence_items lib y = Inr (good @ bad # rest)" "map (seed_node lib) good = map Inr nodes"
    "seed_node lib bad = Inl YamlException"
  shows "get_seed_nodes lib filename = Inr nodes"
  using assms by (simp add: get_seed_nodes_def assigns_append assigns_items)

section \<open>The files of the repository\<close>

text \<open>
  Documents of the shape the library's loader gives, for files like those under \<^verbatim>\<open>config/\<close>:
  enough of it to run the code. A missing field is an undefined node, whose conversion throws.
\<close>

datatype document = Undefined | Scalar string | Fields "(string \<times> document) list" | Items "document list"

fun select :: "document \<Rightarrow> string \<Rightarrow> thrown + document" where
  "select (Scalar _) _ = Inl YamlException"
| "select (Fields fs) k = Inr (case map_of fs k of None \<Rightarrow> Undefined | Some y \<Rightarrow> y)"
| "select _ _ = Inr Undefined"

fun text_of :: "document \<Rightarrow> thrown + string" where
  "text_of (Scalar t) = Inr t"
| "text_of _ = Inl YamlException"

definition digits :: "string \<Rightarrow> nat" where
  "digits t = foldl (\<lambda>n c. 10 * n + (of_char c - 48)) 0 t"

fun number_of :: "document \<Rightarrow> thrown + u16" where
  "number_of (Scalar t) = Inr (of_nat (digits t))"
| "number_of _ = Inl YamlException"

fun items_of :: "document \<Rightarrow> thrown + document list" where
  "items_of (Items ys) = Inr ys"
| "items_of _ = Inr []"

definition document_lib :: "(string \<Rightarrow> document option) \<Rightarrow> document Yaml" where
  "document_lib files = \<lparr>load_file = (\<lambda>f. case files f of None \<Rightarrow> Inl YamlException | Some y \<Rightarrow> Inr y),
     subscript = select, subscript_const = select, as_string = text_of, as_u16 = number_of, sequence_items = items_of\<rparr>"

definition st1_yaml :: document where
  "st1_yaml = Fields
     [(''node'', Fields [(''node_id'', Scalar ''st1''), (''role'', Scalar ''Storage''), (''host'', Scalar ''127.0.0.1''),
        (''port'', Scalar ''8001''), (''data_dir'', Scalar ''tmp/st1'')]),
      (''seed_nodes'', Items [Fields [(''node_id'', Scalar ''md1''), (''role'', Scalar ''Metadata''),
        (''host'', Scalar ''127.0.0.1''), (''port'', Scalar ''8000'')]])]"

lemma st1_config:
  "get_node_config (document_lib [''config/st1.yaml'' \<mapsto> st1_yaml]) ''config/st1.yaml'' =
     Inr \<lparr>cfg_node_id = ''st1'', cfg_role = STORAGE, cfg_host = ''127.0.0.1'', cfg_port = 8001, cfg_data_directory = ''tmp/st1''\<rparr>"
  "get_seed_nodes (document_lib [''config/st1.yaml'' \<mapsto> st1_yaml]) ''config/st1.yaml'' =
     Inr [\<lparr>ep_node_id = ''md1'', ep_role = METADATA, ep_host = ''127.0.0.1'', ep_port = 8000\<rparr>]"
  by code_simp+

text \<open>A file that cannot be loaded gives a node without a name, with the role of a client.\<close>

lemma missing_file_config: "load_file lib f = Inl YamlException \<Longrightarrow> get_node_config lib f = Inr new_config"
  by (simp add: get_node_config_def)

section \<open>The two readings agree\<close>

lemma document_lib_throws_own:
  "throws_own (subscript (document_lib files) y k)" "throws_own (as_string (document_lib files) y)"
  by (cases y; simp add: document_lib_def throws_own_def)+

text \<open>C27. A node and a client make of one file the same endpoint, also of a file that is broken at any
  place: \<open>get_node_config\<close> and \<open>get_node_info\<close> throw the same exceptions and fill the same fields.\<close>

theorem config_gives_endpoint:
  assumes "\<And>y k. throws_own (subscript lib y k)" "\<And>y. throws_own (as_string lib y)"
  shows "get_node_info lib filename = and_then (get_node_config lib filename) (\<lambda>c. Inr (endpoint_of c))"
proof (cases "load_file lib filename")
  case (Inl e)
  then show ?thesis
    by (cases e) (simp_all add: get_node_info_def get_node_config_def new_endpoint_def new_config_def endpoint_of_def)
next
  case (Inr yaml)
  define shared :: "(NodeConfig \<Rightarrow> thrown + NodeConfig) list" where "shared =
    [\<lambda>config. and_then (node_string lib yaml ''node_id'') (\<lambda>x. Inr (config\<lparr>cfg_node_id := x\<rparr>)),
     \<lambda>config. and_then (and_then (node_string lib yaml ''role'') role_from_string) (\<lambda>x. Inr (config\<lparr>cfg_role := x\<rparr>)),
     \<lambda>config. and_then (node_string lib yaml ''host'') (\<lambda>x. Inr (config\<lparr>cfg_host := x\<rparr>)),
     \<lambda>config. and_then (node_u16 lib yaml ''port'') (\<lambda>x. Inr (config\<lparr>cfg_port := x\<rparr>))]"
  define final where "final = (\<lambda>config. and_then (node_string lib yaml ''data_dir'')
     (\<lambda>x. Inr (config\<lparr>cfg_data_directory := x\<rparr>) :: thrown + NodeConfig))"
  have "throws_own (node_string lib yaml ''data_dir'')"
    using assms by (auto simp: throws_own_def node_string_def node_field_def and_then_eq_Inl)
  then have "and_then (caught (assigns [final] c)) (\<lambda>c. Inr (endpoint_of c)) = Inr (endpoint_of c)" for c
  proof -
    assume own: "throws_own (node_string lib yaml ''data_dir'')"
    show ?thesis
    proof (cases "node_string lib yaml ''data_dir''")
      case (Inl e)
      with own have "e = YamlException" by (cases e) (simp_all add: throws_own_def)
      with Inl show ?thesis by (simp add: final_def)
    qed (simp add: final_def endpoint_of_def)
  qed
  then have "and_then (caught (assigns (shared @ [final]) new_config)) (\<lambda>c. Inr (endpoint_of c)) =
      and_then (caught (assigns shared new_config)) (\<lambda>c. Inr (endpoint_of c))"
    by (simp add: assigns_append del: assigns.simps split: prod.split option.split)
  also have "\<dots> = caught (assigns
      [\<lambda>info. and_then (node_string lib yaml ''node_id'') (\<lambda>x. Inr (info\<lparr>ep_node_id := x\<rparr>)),
       \<lambda>info. and_then (and_then (node_string lib yaml ''role'') role_from_string) (\<lambda>x. Inr (info\<lparr>ep_role := x\<rparr>)),
       \<lambda>info. and_then (node_string lib yaml ''host'') (\<lambda>x. Inr (info\<lparr>ep_host := x\<rparr>)),
       \<lambda>info. and_then (node_u16 lib yaml ''port'') (\<lambda>x. Inr (info\<lparr>ep_port := x\<rparr>))] (endpoint_of new_config))"
    by (subst assigns_part [of endpoint_of shared])
      (simp_all add: shared_def caught_part and_then_assoc endpoint_of_def del: assigns.simps)
  finally show ?thesis
    by (simp add: get_node_info_def get_node_config_def Inr shared_def final_def new_endpoint_def new_config_def
        endpoint_of_def del: assigns.simps)
qed

theorem config_gives_endpoint_witness:
  "get_node_info (document_lib [''config/st1.yaml'' \<mapsto> st1_yaml]) ''config/st1.yaml'' =
     Inr \<lparr>ep_node_id = ''st1'', ep_role = STORAGE, ep_host = ''127.0.0.1'', ep_port = 8001\<rparr>"
  using config_gives_endpoint [of "document_lib [''config/st1.yaml'' \<mapsto> st1_yaml]" "''config/st1.yaml''", OF document_lib_throws_own]
  by (simp add: st1_config endpoint_of_def)

end
