(* ===== verification/Programs.thy ===== *)
theory Programs
  imports Configuration MetadataNode StorageNode Client
begin

text \<open>
  The three programs, \<^verbatim>\<open>metadata/main.cpp\<close>, \<^verbatim>\<open>storage/main.cpp\<close> and \<^verbatim>\<open>client/main.cpp\<close>: how a
  process comes from its command line and its configuration file, and the sequence of operations
  the client program demonstrates.
\<close>

section \<open>The servers\<close>

text \<open>A program exits with a code, is terminated by an exception, or serves until it is killed.\<close>

datatype 'n program = Exits int | Terminates exn | Serves 'n

text \<open>
  What both server programs do. \<open>start self seeds\<close> constructs the node and starts its threads,
  with the disk the process works on.
\<close>

definition server_main ::
  "'y Yaml \<Rightarrow> (NodeConfig \<Rightarrow> Endpoint list \<Rightarrow> disk \<Rightarrow> (exn + 'n) \<times> disk) \<Rightarrow> string list \<Rightarrow> disk \<Rightarrow> 'n program \<times> disk" where
  "server_main lib start argv d =
     (if length argv \<noteq> 2 then (Exits 1, d)
      else let config_file = argv ! 1 in
        case and_then (get_node_config lib config_file) (\<lambda>self.
               and_then (get_seed_nodes lib config_file) (\<lambda>seed_nodes. Inr (self, seed_nodes))) of
          Inl e \<Rightarrow> (Terminates e, d)
        | Inr (self, seed_nodes) \<Rightarrow>
            (case start self seed_nodes d of (Inl e, d1) \<Rightarrow> (Terminates e, d1) | (Inr node, d1) \<Rightarrow> (Serves node, d1)))"

text \<open>\<open>connected\<close> is the network of the node once it dials its seeds.\<close>

definition metadata_main ::
  "'y Yaml \<Rightarrow> Host \<Rightarrow> (path \<Rightarrow> location) \<Rightarrow> (NodeConfig \<Rightarrow> Endpoint list \<Rightarrow> 'e Net) \<Rightarrow> string list \<Rightarrow> disk
   \<Rightarrow> 'e MetadataNode program \<times> disk" where
  "metadata_main lib h located connected =
     server_main lib (\<lambda>self seed_nodes. new_metadata_node h located self (connected self seed_nodes))"

definition storage_main ::
  "'y Yaml \<Rightarrow> StorageHost \<Rightarrow> (path \<Rightarrow> location) \<Rightarrow> string list \<Rightarrow> disk \<Rightarrow> StorageNode program \<times> disk" where
  "storage_main lib h located = server_main lib (new_storage_node h located)"

text \<open>
  A server that serves was started with one argument, and both readings of its file came to a
  result.
\<close>

lemma server_main_serves:
  assumes "server_main lib start argv d = (Serves node, d1)"
  shows "\<exists>program config_file self seed_nodes. argv = [program, config_file] \<and> get_node_config lib config_file = Inr self
    \<and> get_seed_nodes lib config_file = Inr seed_nodes \<and> start self seed_nodes d = (Inr node, d1)"
proof -
  from assms have "length argv = 2" by (simp add: server_main_def split: if_splits)
  then obtain program config_file where "argv = [program, config_file]" by (auto simp: length_Suc_conv numeral_2_eq_2)
  with assms show ?thesis
    by (auto simp: server_main_def and_then_def split: sum.splits prod.splits)
qed

text \<open>
  The storage program needs a metadata node among its seeds and a data directory: a file that
  cannot be read, which gives neither, ends it at once with an exception.
\<close>

lemma storage_main_needs_file:
  assumes "load_file lib config_file = Inl YamlException"
  shows "storage_main lib h located [program, config_file] d = (Terminates InvalidArgument, d)"
  using assms
  by (simp add: storage_main_def server_main_def missing_file_config get_seed_nodes_def new_storage_node_def
      new_storage_worker_def new_config_def)

section \<open>The client\<close>

text \<open>\<^verbatim>\<open>Client(config_file)\<close>.\<close>

definition client_of_config ::
  "'y Yaml \<Rightarrow> (Endpoint \<Rightarrow> Endpoint list \<Rightarrow> 'e Net) \<Rightarrow> disk \<Rightarrow> string \<Rightarrow> exn + 'e Client" where
  "client_of_config lib connected d config_file =
     and_then (get_node_info lib config_file) (\<lambda>self.
     and_then (get_seed_nodes lib config_file) (\<lambda>seed_nodes.
       Inr (new_client seed_nodes d (connected self seed_nodes))))"

text \<open>
  The lines of output. Reading the error of a result that has none is undefined: \<open>None\<close>.
\<close>

datatype output_line = ErrorCode nat "ClientError option" | Reading

definition report :: "nat \<Rightarrow> ClientError + 'a \<Rightarrow> output_line list" where
  "report k result = (case result of Inl e \<Rightarrow> [ErrorCode k (Some e)] | Inr _ \<Rightarrow> [])"

text \<open>The last report tests the result of \<^verbatim>\<open>read_file\<close> and prints the error of \<^verbatim>\<open>write_file\<close>.\<close>

definition report_of_other :: "nat \<Rightarrow> ClientError + 'a \<Rightarrow> ClientError + 'b \<Rightarrow> output_line list" where
  "report_of_other k result other =
     (case result of Inl _ \<Rightarrow> [ErrorCode k (case other of Inl e \<Rightarrow> Some e | Inr _ \<Rightarrow> None)] | Inr _ \<Rightarrow> [])"

definition on_client :: "('e Client, 'a) act \<Rightarrow> ('e Client \<times> output_line list, 'a) act" where
  "on_client m s = (case m (fst s) of (r, c) \<Rightarrow> (r, (c, snd s)))"

definition print_lines :: "output_line list \<Rightarrow> ('e Client \<times> output_line list, unit) act" where
  "print_lines ls = act_modify (\<lambda>(c, out). (c, out @ ls))"

definition client_main :: "'e ClientEnv \<Rightarrow> ('e Client \<times> output_line list, unit) act" where
  "client_main env =
     act_then (on_client (client_mkdir env ''folder132'')) (\<lambda>res1.
     act_then (print_lines (report 1 res1)) (\<lambda>_.
     act_then (on_client (create_file env ''folder1/coracao.txt'')) (\<lambda>res2.
     act_then (print_lines (report 2 res2)) (\<lambda>_.
     act_then (on_client (write_file env ''secret.txt'' ''folder1/teiuet.txt'')) (\<lambda>res3.
     act_then (print_lines (report 3 res3)) (\<lambda>_.
     act_then (print_lines [Reading]) (\<lambda>_.
     act_then (on_client (read_file env ''folder1/teiuet.txt'' ''cabron.txt'')) (\<lambda>r.
     print_lines (report_of_other 4 r res3)))))))))"

text \<open>
  When the upload succeeds and the download fails, the program reads the error of the upload,
  which does not exist.
\<close>

lemma client_main_reads_missing_error:
  assumes "client_mkdir env ''folder132'' c = (Inr res1, c1)" "create_file env ''folder1/coracao.txt'' c1 = (Inr res2, c2)"
    "write_file env ''secret.txt'' ''folder1/teiuet.txt'' c2 = (Inr (Inr ()), c3)"
    "read_file env ''folder1/teiuet.txt'' ''cabron.txt'' c3 = (Inr (Inl e), c4)"
  shows "client_main env (c, out) = (Inr (), (c4, out @ report 1 res1 @ report 2 res2 @ [Reading, ErrorCode 4 None]))"
  using assms
  by (simp add: client_main_def act_then_def on_client_def print_lines_def act_modify_def report_def report_of_other_def)

end
