(* ===== verification/Cluster.thy ===== *)
theory Cluster
  imports StorageNode WorkerInvariant Chunks
begin

text \<open>
  The storage nodes as the metadata worker meets them: it posts requests to some of them and,
  while it waits, they answer. Storage is an interface, \<open>storage_service\<close>; a set of modelled
  storage nodes provides it. From it follow the outcomes of the worker's storage requests.
\<close>

section \<open>A set of storage nodes\<close>

type_synonym nodes = "(NodeId \<times> StorageNode) list"

definition storage_identity :: "NodeId \<Rightarrow> NodeIdentity" where
  "storage_identity n = \<lparr>peer_id = n, peer_role = STORAGE\<rparr>"

definition call_frame :: "storage_call \<Rightarrow> Frame" where
  "call_frame c = projr (encode_call (call_id c) (call_request c))"

text \<open>A node that catches up with its messages, and what it sends to \<open>self\<close> meanwhile.\<close>

definition settle :: "StorageHost \<Rightarrow> StorageNode \<Rightarrow> StorageNode" where
  "settle h s = snd (act_each take_turn (settling (length (sn_inbox s) + length (sn_jobs s)) h) s)"

definition arriving :: "NodeIdentity \<Rightarrow> NodeId \<Rightarrow> StorageNode \<Rightarrow> StorageNode \<Rightarrow> Message list" where
  "arriving self n s s' = map (\<lambda>(_, f). message_from (storage_identity n) f)
     (filter (\<lambda>(to, _). to = peer_id self) (drop (length (sn_sent s)) (sn_sent s')))"

text \<open>
  The network between the metadata node \<open>self\<close> and the nodes: a frame to a node that runs
  reaches its inbox, any other is lost. \<open>hosts n s\<close> is how the host of node \<open>n\<close> behaves in
  state \<open>s\<close>: which of its system calls fail and how much space it has.
\<close>

definition nodes_outside :: "(NodeId \<Rightarrow> StorageNode \<Rightarrow> StorageHost) \<Rightarrow> NodeIdentity \<Rightarrow> nodes Outside" where
  "nodes_outside hosts self = \<lparr>
     deliver = (\<lambda>n f nodes. map (\<lambda>(k, s). (k, if k = n then snd (take_turn (Arrives (message_from self f)) s) else s)) nodes),
     meanwhile = (\<lambda>q nodes.
       (q @ concat (map (\<lambda>(n, s). arriving self n s (settle (hosts n s) s)) nodes),
        map (\<lambda>(n, s). (n, settle (hosts n s) s)) nodes))\<rparr>"

lemma outside_deliver: "deliver (nodes_outside hosts self) n f nodes =
    map (\<lambda>(k, s). (k, if k = n then snd (take_turn (Arrives (message_from self f)) s) else s)) nodes"
  by (simp add: nodes_outside_def)

lemma outside_meanwhile: "meanwhile (nodes_outside hosts self) q nodes =
    (q @ concat (map (\<lambda>(n, s). arriving self n s (settle (hosts n s) s)) nodes), map (\<lambda>(n, s). (n, settle (hosts n s) s)) nodes)"
  by (simp add: nodes_outside_def)

definition resting :: "StorageNode \<Rightarrow> bool" where
  "resting s \<longleftrightarrow> sn_inbox s = [] \<and> sn_jobs s = [] \<and> \<not> sn_stopping s"

definition all_resting :: "nodes \<Rightarrow> bool" where
  "all_resting nodes \<longleftrightarrow> distinct (keys nodes) \<and> (\<forall>(n, s) \<in> set nodes. resting s)"

definition worker_at :: "NodeId \<Rightarrow> nodes \<Rightarrow> StorageWorker option" where
  "worker_at n nodes = map_option sn_worker (map_of nodes n)"

lemma settle_resting: "resting s \<Longrightarrow> settle h s = s"
  by (simp add: resting_def settle_def settling_def act_return_def)

lemma settle_call:
  assumes "resting s" "call_ok c" "answer h c (sn_worker s) = (out, w)"
  shows "settle h (s\<lparr>sn_inbox := [call_message c]\<rparr>) = s\<lparr>sn_worker := w, sn_sent := sn_sent s @ [out]\<rparr>"
proof -
  have "s\<lparr>sn_inbox := [], sn_jobs := []\<rparr> = s" using assms(1) by (simp add: resting_def)
  with assms push_call [OF assms(2), of "[]"] show ?thesis
    by (cases s) (simp add: resting_def settle_def settling_def act_then_def act_return_def produce_job_def work_job_def
        pop_def Let_def handle_job)
qed

section \<open>The interface\<close>

text \<open>
  Calls to different nodes: by the time the worker has waited, every node that runs has
  answered its call once, in some order, and nothing else has happened. \<open>worker_of n e\<close> is the
  state of node \<open>n\<close>'s worker, and \<open>admits n h\<close> holds of the ways its host may behave.
\<close>

definition reply_to :: "StorageHost \<Rightarrow> storage_call \<Rightarrow> StorageWorker \<Rightarrow> NodeId \<Rightarrow> Message" where
  "reply_to h c w n = message_from (storage_identity n) (snd (fst (answer h c w)))"

definition replies_of ::
  "(NodeId \<Rightarrow> StorageHost) \<Rightarrow> (NodeId \<Rightarrow> StorageWorker option) \<Rightarrow> (NodeId \<times> storage_call) list \<Rightarrow> Message list" where
  "replies_of H W calls =
     concat (map (\<lambda>(n, c). case W n of None \<Rightarrow> [] | Some w \<Rightarrow> [reply_to (H n) c w n]) calls)"

definition after_calls ::
  "(NodeId \<Rightarrow> StorageHost) \<Rightarrow> (NodeId \<times> storage_call) list \<Rightarrow> (NodeId \<Rightarrow> StorageWorker option) \<Rightarrow> NodeId \<Rightarrow> StorageWorker option" where
  "after_calls H calls W n = map_option (\<lambda>w. case map_of calls n of None \<Rightarrow> w | Some c \<Rightarrow> snd (answer (H n) c w)) (W n)"

locale storage_service =
  fixes out :: "'e Outside" and self :: NodeIdentity and ready :: "'e \<Rightarrow> bool"
    and workers :: "'e \<Rightarrow> NodeId \<Rightarrow> StorageWorker option" and admits :: "NodeId \<Rightarrow> StorageHost \<Rightarrow> bool"
  assumes exchange: "ready e \<Longrightarrow> distinct (map fst calls) \<Longrightarrow> \<forall>(n, c) \<in> set calls. call_ok c \<and> call_sender c = self \<Longrightarrow>
    \<exists>H ms e'. meanwhile out q (fold (\<lambda>(n, c). deliver out n (call_frame c)) calls e) = (q @ ms, e')
      \<and> mset ms = mset (replies_of H (workers e) calls) \<and> (\<forall>n. admits n (H n))
      \<and> ready e' \<and> workers e' = after_calls H calls (workers e)"
    and elsewhere: "ready e \<Longrightarrow> workers e n = None \<Longrightarrow> ready (deliver out n f e) \<and> workers (deliver out n f e) = workers e"

section \<open>The nodes provide it\<close>

definition with_call :: "(NodeId \<times> storage_call) list \<Rightarrow> NodeId \<Rightarrow> StorageNode \<Rightarrow> StorageNode" where
  "with_call calls n s = (case map_of calls n of None \<Rightarrow> s | Some c \<Rightarrow> s\<lparr>sn_inbox := [call_message c]\<rparr>)"

lemma deliver_calls:
  assumes "\<forall>(n, s) \<in> set nodes. resting s" "distinct (map fst calls)" "\<forall>(n, c) \<in> set calls. call_sender c = self"
  shows "fold (\<lambda>(n, c). deliver (nodes_outside hosts self) n (call_frame c)) calls nodes =
    map (\<lambda>(n, s). (n, with_call calls n s)) nodes"
  using assms(2,3)
proof (induction calls rule: rev_induct)
  case Nil
  then show ?case by (simp add: with_call_def cong: map_cong)
next
  case (snoc nc calls)
  obtain n c where nc: "nc = (n, c)" by fastforce
  with snoc have IH: "fold (\<lambda>(n, c). deliver (nodes_outside hosts self) n (call_frame c)) calls nodes =
    map (\<lambda>(n, s). (n, with_call calls n s)) nodes" and n: "n \<notin> fst ` set calls" "call_sender c = self" by auto
  from n(1) have none: "map_of calls n = None" by (simp add: map_of_eq_None_iff)
  have msg: "message_from self (call_frame c) = call_message c" using n(2) by (simp add: call_message_def call_frame_def)
  have step: "(if k = n then snd (take_turn (Arrives (call_message c)) (with_call calls k s)) else with_call calls k s) = with_call (calls @ [(n, c)]) k s"
    if "(k, s) \<in> set nodes" for k s
    using none that assms(1) by (auto simp: with_call_def push_def resting_def map_add_def split: option.split)
  have "fold (\<lambda>(n, c). deliver (nodes_outside hosts self) n (call_frame c)) (calls @ [nc]) nodes =
    deliver (nodes_outside hosts self) n (call_frame c) (map (\<lambda>(n, s). (n, with_call calls n s)) nodes)"
    by (simp add: nc IH)
  also have "\<dots> = map (\<lambda>(k, s). (k, if k = n then snd (take_turn (Arrives (call_message c)) s) else s)) (map (\<lambda>(n, s). (n, with_call calls n s)) nodes)"
    unfolding outside_deliver msg by (rule refl)
  also have "\<dots> = map (\<lambda>(k, s). (k, with_call (calls @ [nc]) k s)) nodes"
    unfolding list.map_comp
  proof (rule map_cong)
    fix p
    assume "p \<in> set nodes"
    moreover obtain k s where "p = (k, s)" by fastforce
    ultimately show "((\<lambda>(k, s). (k, if k = n then snd (take_turn (Arrives (call_message c)) s) else s)) \<circ>
        (\<lambda>(n, s). (n, with_call calls n s))) p = (\<lambda>(k, s). (k, with_call (calls @ [nc]) k s)) p"
      using step [of k s] by (simp only: comp_apply prod.case nc)
  qed simp
  finally show ?case .
qed

lemma settle_with_call:
  assumes "resting s" "\<forall>(n, c) \<in> set calls. call_ok c \<and> call_sender c = self" "map_of calls n = Some c"
  shows "settle h (with_call calls n s) =
      s\<lparr>sn_worker := snd (answer h c (sn_worker s)), sn_sent := sn_sent s @ [fst (answer h c (sn_worker s))]\<rparr>"
    "arriving self n (with_call calls n s) (settle h (with_call calls n s)) = [reply_to h c (sn_worker s) n]"
proof -
  from assms(2,3) have c: "call_ok c" "call_sender c = self" by (auto dest: map_of_SomeD)
  show *: "settle h (with_call calls n s) =
      s\<lparr>sn_worker := snd (answer h c (sn_worker s)), sn_sent := sn_sent s @ [fst (answer h c (sn_worker s))]\<rparr>"
    using settle_call [OF assms(1) c(1) prod.collapse [symmetric], of h] assms(3) by (simp add: with_call_def)
  have "fst (fst (answer h c (sn_worker s))) = peer_id self" using c(2) by (simp add: answer_def split: prod.split)
  then show "arriving self n (with_call calls n s) (settle h (with_call calls n s)) = [reply_to h c (sn_worker s) n]"
    unfolding * using assms(3) by (cases "fst (answer h c (sn_worker s))") (simp add: arriving_def with_call_def reply_to_def)
qed

text \<open>Two tables joined by their keys, read along the first or along the second.\<close>

lemma mset_concat_table:
  "distinct (keys xs) \<Longrightarrow> mset (concat (map (\<lambda>(n, x). g n x) xs)) = (\<Sum>n \<in> set (keys xs). mset (g n (the (map_of xs n))))"
proof (induction xs)
  case (Cons nx xs)
  obtain n x where nx: "nx = (n, x)" by fastforce
  have "(\<Sum>k \<in> set (keys xs). mset (g k (the (map_of (nx # xs) k)))) = (\<Sum>k \<in> set (keys xs). mset (g k (the (map_of xs k))))"
    using Cons.prems nx by (intro sum.cong) auto
  with Cons nx show ?case by simp
qed simp

lemma mset_joined:
  assumes "distinct (keys xs)" "distinct (keys ys)"
  shows "mset (concat (map (\<lambda>(n, x). case map_of ys n of None \<Rightarrow> [] | Some y \<Rightarrow> [f n x y]) xs)) =
    mset (concat (map (\<lambda>(n, y). case map_of xs n of None \<Rightarrow> [] | Some x \<Rightarrow> [f n x y]) ys))"
proof -
  let ?F = "\<lambda>n. mset (case map_of ys n of None \<Rightarrow> [] | Some y \<Rightarrow> [f n (the (map_of xs n)) y])"
  let ?G = "\<lambda>n. mset (case map_of xs n of None \<Rightarrow> [] | Some x \<Rightarrow> [f n x (the (map_of ys n))])"
  let ?I = "set (keys xs) \<inter> set (keys ys)"
  have "(\<Sum>n \<in> set (keys xs). ?F n) = (\<Sum>n \<in> ?I. ?F n)"
    by (rule sum.mono_neutral_right) (auto simp: map_of_eq_None_iff split: option.split)
  also have "\<dots> = (\<Sum>n \<in> ?I. ?G n)"
  proof (rule sum.cong)
    fix n
    assume "n \<in> ?I"
    then obtain x y where "map_of xs n = Some x" "map_of ys n = Some y"
      by (metis IntE map_of_eq_None_iff image_set not_Some_eq)
    then show "?F n = ?G n" by simp
  qed simp
  also have "\<dots> = (\<Sum>n \<in> set (keys ys). ?G n)"
    by (rule sum.mono_neutral_left) (auto simp: map_of_eq_None_iff split: option.split)
  finally show ?thesis unfolding mset_concat_table [OF assms(1)] mset_concat_table [OF assms(2)] .
qed

definition host_of :: "(NodeId \<Rightarrow> StorageNode \<Rightarrow> StorageHost) \<Rightarrow> NodeId \<Rightarrow> StorageHost \<Rightarrow> bool" where
  "host_of hosts n h \<longleftrightarrow> (\<exists>s. h = hosts n s)"

lemma map_of_mapped: "map_of (map (\<lambda>(n, s). (n, f n s)) xs) n = map_option (f n) (map_of xs n)"
  by (induction xs) auto

interpretation nodes: storage_service "nodes_outside hosts self" self all_resting "\<lambda>e n. worker_at n e" "host_of hosts"
proof
  fix e :: nodes and calls :: "(NodeId \<times> storage_call) list" and q
  assume rest: "all_resting e" and d: "distinct (keys calls)" and ok: "\<forall>(n, c) \<in> set calls. call_ok c \<and> call_sender c = self"
  let ?e1 = "map (\<lambda>(n, s). (n, with_call calls n s)) e"
  define H where "H = (\<lambda>n. hosts n (with_call calls n (the (map_of e n))))"
  define ms where "ms = concat (map (\<lambda>(n, s). arriving self n s (settle (hosts n s) s)) ?e1)"
  define e' where "e' = map (\<lambda>(n, s). (n, settle (hosts n s) s)) ?e1"
  have r: "\<And>n s. (n, s) \<in> set e \<Longrightarrow> resting s" and de: "distinct (keys e)" using rest by (auto simp: all_resting_def)
  have e1: "fold (\<lambda>(n, c). deliver (nodes_outside hosts self) n (call_frame c)) calls e = ?e1"
    by (rule deliver_calls) (use r d ok in auto)
  have H: "hosts n (with_call calls n s) = H n" if "(n, s) \<in> set e" for n s
    using map_of_is_SomeI [OF de that] by (simp add: H_def)
  have one: "arriving self n (with_call calls n s) (settle (H n) (with_call calls n s)) =
        (case map_of calls n of None \<Rightarrow> [] | Some c \<Rightarrow> [reply_to (H n) c (sn_worker s) n])"
      "resting (settle (H n) (with_call calls n s))"
      "sn_worker (settle (H n) (with_call calls n s)) =
        (case map_of calls n of None \<Rightarrow> sn_worker s | Some c \<Rightarrow> snd (answer (H n) c (sn_worker s)))"
    if "(n, s) \<in> set e" for n s
    using settle_with_call [OF r [OF that] ok] r [OF that] settle_resting [OF r [OF that]]
    by (auto simp: with_call_def arriving_def resting_def split: option.split)
  have "ms = concat (map (\<lambda>(n, s). case map_of calls n of None \<Rightarrow> [] | Some c \<Rightarrow> [reply_to (H n) c (sn_worker s) n]) e)"
    unfolding ms_def by (rule arg_cong [of _ _ concat]) (use H one(1) in \<open>auto\<close>)
  also have "mset \<dots> = mset (concat (map (\<lambda>(n, c). case map_of e n of None \<Rightarrow> [] | Some s \<Rightarrow> [reply_to (H n) c (sn_worker s) n]) calls))"
    by (rule mset_joined [OF de d])
  also have "\<dots> = mset (replies_of H (\<lambda>n. worker_at n e) calls)"
    unfolding replies_of_def worker_at_def
    by (rule arg_cong [of _ _ "\<lambda>x. mset (concat x)"]) (auto split: option.split)
  finally have ms: "mset ms = mset (replies_of H (\<lambda>n. worker_at n e) calls)" .
  have e': "e' = map (\<lambda>(n, s). (n, settle (H n) (with_call calls n s))) e" unfolding e'_def using H by auto
  have "all_resting e'" using one(2) de by (auto simp: e' all_resting_def comp_def case_prod_unfold)
  moreover have "worker_at n e' = after_calls H calls (\<lambda>n. worker_at n e) n" for n
  proof (cases "map_of e n")
    case (Some s)
    with one(3) [OF map_of_SomeD [OF Some]] show ?thesis
      by (auto simp: e' worker_at_def after_calls_def map_of_mapped split: option.split)
  qed (simp add: e' worker_at_def after_calls_def map_of_mapped)
  ultimately have "all_resting e'" "(\<lambda>n. worker_at n e') = after_calls H calls (\<lambda>n. worker_at n e)" by auto
  then show "\<exists>H ms e'. meanwhile (nodes_outside hosts self) q
        (fold (\<lambda>(n, c). deliver (nodes_outside hosts self) n (call_frame c)) calls e) = (q @ ms, e')
      \<and> mset ms = mset (replies_of H (\<lambda>n. worker_at n e) calls) \<and> (\<forall>n. host_of hosts n (H n))
      \<and> all_resting e' \<and> (\<lambda>n. worker_at n e') = after_calls H calls (\<lambda>n. worker_at n e)"
    unfolding e1 outside_meanwhile ms_def [symmetric] e'_def [symmetric]
    using ms by (intro exI [of _ H] exI [of _ ms] exI [of _ e']) (auto simp: host_of_def H_def)
next
  fix e :: nodes and n f
  assume rest: "all_resting e" and none: "worker_at n e = None"
  then have "n \<notin> fst ` set e" by (simp add: worker_at_def map_of_eq_None_iff)
  then have "deliver (nodes_outside hosts self) n f e = e"
    unfolding outside_deliver by (intro map_idI) (force split: prod.split)
  with rest show "all_resting (deliver (nodes_outside hosts self) n f e)
      \<and> (\<lambda>k. worker_at k (deliver (nodes_outside hosts self) n f e)) = (\<lambda>k. worker_at k e)" by simp
qed

section \<open>The replies a worker reads\<close>

lemma pop_only:
  assumes "x \<in> set q" "P x" "\<forall>y \<in> set q. P y \<longrightarrow> y = x"
  shows "\<exists>q'. pop_if P q = (Some x, q') \<and> mset q = add_mset x (mset q')"
proof -
  obtain r q' where r: "pop_if P q = (r, q')" by fastforce
  with assms(1,2) obtain y where y: "r = Some y" by (cases r) (auto dest: pop_if_None)
  with r assms(3) have "y = x" by (auto dest: mq.take_matches)
  with r y show ?thesis by (auto dest: mq.take_mset)
qed

lemma pop_no: "\<forall>y \<in> set q. \<not> P y \<Longrightarrow> pop_if P q = (None, q)"
  by (auto simp: pop_if_def list_ex_iff)

definition put_call :: "NodeIdentity \<Rightarrow> u64 \<Rightarrow> PutRequest \<Rightarrow> storage_call" where
  "put_call self rid p = \<lparr>call_sender = self, call_id = rid, call_request = Put p\<rparr>"

definition get_call :: "NodeIdentity \<Rightarrow> u64 \<Rightarrow> GetRequest \<Rightarrow> storage_call" where
  "get_call self rid g = \<lparr>call_sender = self, call_id = rid, call_request = Get g\<rparr>"

lemma chunk_index_leads: "\<exists>r. chunk_index_is i (reader_at pre (be_bytes 4 j @ xs)) = Inr (j = i, r)"
  by (simp add: chunk_index_is_def codec get_return_def)

lemma chunk_index_leads': "(\<exists>r. chunk_index_is i (reader_at pre (be_bytes 4 j @ xs)) = Inr (True, r)) \<longleftrightarrow> j = i"
  using chunk_index_leads [of i pre j xs] by auto

lemma write_chunk_status: "storage_status_ok (fst (write_chunk h p w))"
  by (auto simp: write_chunk_def Let_def split: option.splits sum.splits prod.splits)

lemma read_object_status: "storage_status_ok (fst (read_object h g w))"
  by (auto simp: read_object_def Let_def split: sum.splits)

lemma put_reply_matches:
  "make_message_is storage_rpc rid PUT Response r (chunk_index_is (ptq_chunk_index p)) (reply_to h (put_call self rid p) w n) \<longleftrightarrow> n = r"
  by (auto simp: reply_to_def answer_def put_call_def put_response.enc_frame storage_identity_def
      storage_job.make_message_is_back body_fits_def chunk_index_leads' split: prod.split)

lemma put_reply_reads:
  "\<exists>space. and_then (read_message storage_rpc (reply_to h (put_call self rid p) w n)) decode_put_response =
     Inr \<lparr>ptr_chunk_index = ptq_chunk_index p, ptr_size_available = space, ptr_status = fst (write_chunk h p w)\<rparr>"
proof -
  obtain st w' where w: "write_chunk h p w = (st, w')" by fastforce
  let ?r = "\<lparr>ptr_chunk_index = ptq_chunk_index p, ptr_size_available = available_bytes h w', ptr_status = st\<rparr>"
  have "storage_status_ok st" using write_chunk_status [of h p w] w by simp
  with put_response.received [of ?r "storage_identity n" rid] w show ?thesis
    by (auto simp: reply_to_def answer_def put_call_def put_response.enc_frame body_fits_def)
qed

lemma get_reply_matches:
  assumes "body_fits (snd (read_object h g w) @ replicate 5 0)"
  shows "make_message_is storage_rpc rid GET Response r (chunk_index_is (gtq_chunk_index g)) (reply_to h (get_call self rid g) w n) \<longleftrightarrow> n = r"
  using assms
  by (cases "read_object h g w")
    (auto simp: reply_to_def answer_def get_call_def get_response.enc_frame storage_identity_def
      storage_job.make_message_is_back body_fits_def chunk_index_leads' split: prod.split)

lemma get_reply_reads:
  assumes "body_fits (snd (read_object h g w) @ replicate 5 0)"
  shows "and_then (read_message storage_rpc (reply_to h (get_call self rid g) w n)) decode_get_response =
     Inr \<lparr>gtr_chunk_index = gtq_chunk_index g, gtr_status = fst (read_object h g w), gtr_data = snd (read_object h g w)\<rparr>"
proof -
  obtain st bs where w: "read_object h g w = (st, bs)" by fastforce
  let ?r = "\<lparr>gtr_chunk_index = gtq_chunk_index g, gtr_status = st, gtr_data = bs\<rparr>"
  have "storage_status_ok st" using read_object_status [of h g w] w by simp
  with get_response.received [of ?r "storage_identity n" rid] w assms show ?thesis
    by (auto simp: reply_to_def answer_def get_call_def get_response.enc_frame body_fits_def)
qed

end
