(* ===== verification/Acceptance.thy ===== *)
theory Acceptance
  imports StorageWorker
begin

text \<open>
  When a storage node takes a chunk: on a host whose calls succeed and that has room for one
  more chunk, the expected chunk of an object is always accepted, and the node then accepts the
  next one.
\<close>

definition willing :: "StorageHost \<Rightarrow> bool" where
  "willing h \<longleftrightarrow> sh_faults h = no_faults \<and> (\<forall>d. \<exists>n. sh_space h d = Some n \<and> 524288 \<le> unat n)"

text \<open>No directory lies where the files of objects go.\<close>

definition tidy :: "StorageWorker \<Rightarrow> bool" where
  "tidy v \<longleftrightarrow> (\<forall>n. node_at (sw_disk v) (objects_directory v @ [n]) \<noteq> Some Dir)"

definition takes :: "StorageWorker \<Rightarrow> string \<Rightarrow> u32 \<Rightarrow> bool" where
  "takes v oid i \<longleftrightarrow> worker_inv v \<and> tidy v \<and> (i = 0 \<or> expected_chunk v oid = Some i)"

lemma open_no_faults:
  assumes "disk_wf d" "plain_path p" "p \<noteq> []" "node_at d (butlast p) = Some Dir" "node_at d p \<noteq> Some Dir"
  shows "open_out no_faults d p appending = (Inr p, AList.update p (File (if appending then file_bytes d p else [])) d)"
proof -
  have "resolve d [] p = Inr p" using resolve_plain_dirs [OF assms(1-3), of "[]"] assms(4) by simp
  with assms(5) show ?thesis
    by (auto simp: open_out_def no_faults_def file_bytes_def split: option.split node.split)
qed

lemma append_no_faults: "append_out no_faults d l bytes = (True, AList.update l (File (file_bytes d l @ bytes)) d)"
  by (simp add: append_out_def no_faults_def)

lemma rename_no_faults:
  assumes "disk_wf d" "plain_path p" "plain_path q" "q \<noteq> []" "p \<noteq> q" "node_at d p = Some (File c)"
    "node_at d (butlast q) = Some Dir" "node_at d q \<noteq> Some Dir"
  shows "fs_rename no_faults d p q = (None, AList.update q (File c) (AList.delete p d))"
proof -
  have r: "resolve d [] p = Inr p" "resolve d [] q = Inr q"
    using resolve_node [OF assms(1,2,6)] resolve_plain_dirs [OF assms(1,3,4), of "[]"] assms(7) by simp_all
  with assms(5,6,8) show ?thesis by (auto simp: fs_rename_def no_faults_def split: option.split node.split)
qed

lemma chunk_taken:
  assumes h: "willing h" and v: "takes v (ptq_object_id req) (ptq_chunk_index req)" and proper: "proper_id (ptq_object_id req)"
    and len: "length (ptq_data req) \<le> 524288"
  shows "\<exists>v'. write_chunk h req v = (StSuccess, v') \<and> tidy v'"
proof -
  let ?oid = "ptq_object_id req" and ?i = "ptq_chunk_index req"
  let ?final = "objects_directory v @ [?oid]" and ?tmp = "objects_directory v @ [?oid @ ''.tmp'']"
  have inv: "worker_inv v" and tidy: "tidy v" and i: "?i = 0 \<or> expected_chunk v ?oid = Some ?i" using v by (simp_all add: takes_def)
  note pl = proper_plain [OF inv proper]
  have tf: "temporary ?final = ?tmp" using pl(3,4) by simp
  have wf: "disk_wf (sw_disk v)" "node_at (sw_disk v) (objects_directory v) = Some Dir" using inv by (simp_all add: worker_inv_def)
  define s0 where "s0 = (if ?i = 0 then v\<lparr>next_chunks := AList.update ?oid 0 (next_chunks v)\<rparr> else v)"
  have s0: "sw_disk s0 = sw_disk v" "objects_directory s0 = objects_directory v" "object_path s0 ?oid = ?final"
    "map_of (next_chunks s0) ?oid = Some ?i"
    using pl(3) i by (auto simp: s0_def object_path_def expected_chunk_def)
  from h obtain n where n: "sh_space h (sw_disk v) = Some n" "\<not> unat n < length (ptq_data req)"
    using len by (fastforce simp: willing_def)
  let ?c0 = "if ?i \<noteq> 0 then file_bytes (sw_disk v) ?tmp else []"
  let ?d1 = "AList.update ?tmp (File ?c0) (sw_disk v)"
  let ?d2 = "AList.update ?tmp (File (?c0 @ ptq_data req)) ?d1"
  have opened: "open_out no_faults (sw_disk v) ?tmp (?i \<noteq> 0) = (Inr ?tmp, ?d1)"
    using open_no_faults [OF wf(1) pl(2), of "?i \<noteq> 0"] wf(2) tidy by (simp add: tidy_def)
  have appended: "append_out no_faults ?d1 ?tmp (ptq_data req) = (True, ?d2)"
    unfolding append_no_faults by (simp add: file_bytes_def)
  have wf2: "disk_wf ?d2" using wf pl(2) tidy by (intro disk_wf_update) (simp_all add: tidy_def)
  have renamed: "fs_rename no_faults ?d2 ?tmp ?final = (None, AList.update ?final (File (?c0 @ ptq_data req)) (AList.delete ?tmp ?d2))"
    using wf(2) tidy by (intro rename_no_faults wf2 pl) (auto simp: tidy_def)
  have never: "fails (sh_faults h) x l = False" for x l using h by (simp add: willing_def no_faults_def)
  have f: "sh_faults h = no_faults" using h by (simp add: willing_def)
  have valid: "valid_object_id ?oid" using proper by (simp add: proper_id_def)
  show ?thesis
    using valid s0 n opened appended renamed never tidy
    by (auto simp: write_chunk_def Let_def pl(3) tf s0_def [symmetric] f tidy_def)
qed

lemma takes_next:
  assumes "willing h" "takes v (ptq_object_id req) (ptq_chunk_index req)" "proper_id (ptq_object_id req)"
    "length (ptq_data req) \<le> 524288" "write_chunk h req v = (st, v')"
  shows "st = StSuccess \<and> (\<not> ptq_final_chunk req \<longrightarrow> takes v' (ptq_object_id req) (ptq_chunk_index req + 1))"
proof -
  from chunk_taken [OF assms(1-4)] assms(5) have st: "st = StSuccess" "tidy v'" by auto
  have inv: "worker_inv v" using assms(2) by (simp add: takes_def)
  from write_chunk_outcome [OF assms(5) inv assms(3)] st show ?thesis by (auto simp: takes_def only_object_def)
qed

end
