(* ===== verification/Replication.thy ===== *)
theory Replication
  imports Cluster Acceptance
begin

text \<open>
  What the metadata worker's requests to its storage nodes achieve: a chunk that both replicas
  acknowledged was written by both, and a chunk fetched is the one an available replica holds.
  The lemmas hold for every provider of \<open>storage_service\<close>.
\<close>

lemma put_frame: "encode_put_request rid p = Inr (call_frame (put_call self rid p))"
  by (simp add: call_frame_def put_call_def put_request.enc_frame)

lemma get_frame: "encode_get_request rid g = Inr (call_frame (get_call self rid g))"
  by (simp add: call_frame_def get_call_def get_request.enc_frame)

text \<open>One acknowledgement, from the queue after the wait.\<close>

lemma put_answered:
  assumes "meanwhile (env_outside env) (net_queue (mw_net s)) (net_outside (mw_net s)) = (q, e)"
    "pop_if (make_message_is storage_rpc rid PUT Response r (chunk_index_is (ptq_chunk_index p))) q =
       (Some (reply_to h (put_call self rid p) w r), q')"
  shows "\<exists>space. put_acknowledged env rid (ptq_chunk_index p) r s =
    (Inr (fst (write_chunk h p w) = StSuccess),
     s\<lparr>mw_net := (mw_net s)\<lparr>net_queue := q', net_outside := e\<rparr>, mw_nodes := set_bytes_left r space (mw_nodes s)\<rparr>)"
proof -
  from put_reply_reads [of h self rid p w r] obtain space where
    "and_then (read_message storage_rpc (reply_to h (put_call self rid p) w r)) decode_put_response =
      Inr \<lparr>ptr_chunk_index = ptq_chunk_index p, ptr_size_available = space, ptr_status = fst (write_chunk h p w)\<rparr>" ..
  with assms show ?thesis
    by (intro exI [of _ space]) (simp add: put_acknowledged_def receive_if_def act_then_def act_step_def act_lift_def
        act_modify_def act_return_def await_if_def)
qed

lemma put_unanswered:
  assumes "meanwhile (env_outside env) (net_queue (mw_net s)) (net_outside (mw_net s)) = (q, e)"
    "pop_if (make_message_is storage_rpc rid PUT Response r (chunk_index_is i)) q = (None, q')"
  shows "put_acknowledged env rid i r s = (Inr False, s\<lparr>mw_net := (mw_net s)\<lparr>net_queue := q', net_outside := e\<rparr>\<rparr>)"
  using assms by (simp add: put_acknowledged_def receive_if_def act_then_def act_step_def act_return_def await_if_def)

text \<open>Any acknowledgement at all: it does not throw, and touches the network and the node table only.\<close>

definition only_net :: "'e MetadataWorker \<Rightarrow> 'e MetadataWorker \<Rightarrow> bool" where
  "only_net s s' \<longleftrightarrow> s' = s\<lparr>mw_net := mw_net s', mw_nodes := mw_nodes s'\<rparr>"

lemma only_net_trans: "only_net s t \<Longrightarrow> only_net t u \<Longrightarrow> only_net s u"
  by (cases s; cases t; cases u) (simp add: only_net_def)

lemma only_netD:
  "only_net s s' \<Longrightarrow> mw_store s' = mw_store s" "only_net s s' \<Longrightarrow> pending_writes s' = pending_writes s"
  "only_net s s' \<Longrightarrow> pending_reads s' = pending_reads s" "only_net s s' \<Longrightarrow> mw_draws s' = mw_draws s"
  by (cases s; cases s'; simp add: only_net_def)+

text \<open>The requests of one chunk to both replicas, and the wait for both.\<close>

definition put_both :: "'e Env \<Rightarrow> u64 \<Rightarrow> PutRequest \<Rightarrow> NodeId list \<Rightarrow> ('e, bool) worker_act" where
  "put_both env rid p replicas =
     act_then (act_each (\<lambda>replica. act_then (act_lift (encode_put_request rid p)) (send env replica)) replicas)
       (\<lambda>_. puts_acknowledged env rid (ptq_chunk_index p) replicas)"

definition write_chunk_frame :: "u64 \<Rightarrow> u32 \<Rightarrow> ClientStatus \<Rightarrow> Frame" where
  "write_chunk_frame rid i st = rpc_frame client_rpc rid WRITE_CHUNK Response (be_bytes 4 i @ [client_status_to_u8 st])"

lemma write_chunk_replies:
  "write_chunk_reply env req st w = (Inr (), w\<lparr>mw_net := post_frame (env_outside env) (peer_id (ctx_sender (wcq_context req)))
     (write_chunk_frame (ctx_request_id (wcq_context req)) (wcq_chunk_index req) st) (mw_net w)\<rparr>)"
  by (simp add: write_chunk_reply_def write_chunk_frame_def
      respond_run [where enc = encode_write_chunk_response, OF write_chunk_response.enc_frame])

text \<open>The put request that \<open>write_chunk_to\<close> makes, and the handler over \<open>put_both\<close>.\<close>

definition put_of :: "WriteChunkRequest \<Rightarrow> Pending \<Rightarrow> PutRequest" where
  "put_of req w = \<lparr>ptq_object_id = pd_object_id w, ptq_chunk_index = wcq_chunk_index req,
     ptq_final_chunk = (wcq_chunk_index req + 1 = pd_chunk_count w), ptq_data = wcq_data req, ptq_context = empty_context\<rparr>"

definition finish_write :: "'e Env \<Rightarrow> WriteChunkRequest \<Rightarrow> Pending \<Rightarrow> bool \<Rightarrow> ('e, unit) worker_act" where
  "finish_write env req w ok =
     (let ctx = wcq_context req; reply = write_chunk_reply env req in
      if \<not> ok then act_then (discard_write ctx) (\<lambda>_. reply ServerError)
      else act_then (act_modify (\<lambda>s. s\<lparr>pending_writes :=
            advance_pending (peer_id (ctx_sender ctx)) (ctx_request_id ctx) (pending_writes s)\<rparr>)) (\<lambda>_.
        if wcq_chunk_index req + 1 \<noteq> pd_chunk_count w then reply Success
        else act_then (on_store (update_metadata (env_host env) (pd_path w)
            (file_entry (pd_path w) (pd_file_size w) (pd_object_id w) (pd_replica_0 w) (pd_replica_1 w)))) (\<lambda>metadata_result.
        act_then (discard_write ctx) (\<lambda>_. reply (client_status_of metadata_result)))))"

lemma write_chunk_to_both:
  assumes "wcq_chunk_index req = pd_next_chunk w" "pd_next_chunk w < pd_chunk_count w"
    "length (wcq_data req) = unat (chunk_length (pd_file_size w) (pd_next_chunk w))"
  shows "write_chunk_to env req w = act_then (put_both env (ctx_request_id (wcq_context req)) (put_of req w) [pd_replica_0 w, pd_replica_1 w])
    (finish_write env req w)"
proof -
  have "\<not> (wcq_chunk_index req \<noteq> pd_next_chunk w \<or> wcq_chunk_index req \<ge> pd_chunk_count w)"
    "\<not> length (wcq_data req) \<noteq> unat (chunk_length (pd_file_size w) (wcq_chunk_index req))"
    using assms by (simp_all add: not_le)
  moreover have "ptq_chunk_index (put_of req w) = wcq_chunk_index req" by (simp add: put_of_def)
  ultimately show ?thesis
    unfolding write_chunk_to_def put_both_def Let_def then_assoc put_of_def [symmetric] finish_write_def
    by (simp only: if_not_P if_False)
qed

context storage_service
begin

lemma no_calls: "after_calls H [] W = W"
  by (rule ext) (simp add: after_calls_def option.map_ident)

lemma calm: "ready e \<Longrightarrow> \<exists>e'. meanwhile out q e = (q, e') \<and> ready e' \<and> workers e' = workers e"
  using exchange [of e "[]" q] by (auto simp: replies_of_def no_calls)

text \<open>
  The replies of several nodes to the same call, and a step that waits and takes the one of node
  \<open>r\<close>: it tells whether the call had the result \<open>good\<close> there.
\<close>

abbreviation replies_to :: "(NodeId \<Rightarrow> StorageHost) \<Rightarrow> (NodeId \<Rightarrow> StorageWorker option) \<Rightarrow> storage_call \<Rightarrow> NodeId list \<Rightarrow> Message list" where
  "replies_to H W c ns \<equiv> replies_of H W (map (\<lambda>n. (n, c)) ns)"

lemma reply_taken:
  assumes q: "mset q = mset (replies_to H W c (r # ns))" and d: "r \<notin> set ns" and P: "\<And>h w n. P (reply_to h c w n) \<longleftrightarrow> n = r"
  shows "\<exists>q'. pop_if P q = (map_option (\<lambda>w. reply_to (H r) c w r) (W r), q') \<and> mset q' = mset (replies_to H W c ns)"
proof -
  have other: "\<forall>m \<in> set (replies_to H W c ns). \<not> P m"
    using d by (auto simp: replies_of_def P split: option.splits)
  have set_q: "set q = set (replies_to H W c (r # ns))" using q by (metis set_mset_mset)
  show ?thesis
  proof (cases "W r")
    case None
    then have same: "replies_to H W c (r # ns) = replies_to H W c ns" by (simp add: replies_of_def)
    have "\<forall>m \<in> set q. \<not> P m" using other unfolding set_q same .
    with pop_no [of q P] None q [unfolded same] show ?thesis by simp
  next
    case (Some w)
    let ?m = "reply_to (H r) c w r"
    from Some have split: "replies_to H W c (r # ns) = ?m # replies_to H W c ns" by (simp add: replies_of_def)
    have "?m \<in> set q" "P ?m" "\<forall>y \<in> set q. P y \<longrightarrow> y = ?m" unfolding set_q split using other P by auto
    from pop_only [where P = P, OF this] obtain q' where "pop_if P q = (Some ?m, q')" "mset q = add_mset ?m (mset q')" by blast
    with Some q split show ?thesis by simp
  qed
qed

definition takes_replies :: "storage_call \<Rightarrow> (StorageHost \<Rightarrow> StorageWorker \<Rightarrow> bool) \<Rightarrow> (NodeId \<Rightarrow> ('e, bool) worker_act) \<Rightarrow> bool" where
  "takes_replies c good step \<longleftrightarrow> (\<forall>H W s q e r ns. meanwhile out (net_queue (mw_net s)) (net_outside (mw_net s)) = (q, e) \<longrightarrow>
     mset q = mset (replies_to H W c (r # ns)) \<longrightarrow> r \<notin> set ns \<longrightarrow>
     (\<exists>s'. step r s = (Inr (\<exists>w. W r = Some w \<and> good (H r) w), s') \<and> only_net s s' \<and> sent s' = sent s
        \<and> net_outside (mw_net s') = e \<and> mset (net_queue (mw_net s')) = mset (replies_to H W c ns)))"

lemma takes_repliesD:
  assumes "takes_replies c good step" "meanwhile out (net_queue (mw_net s)) (net_outside (mw_net s)) = (q, e)"
    "mset q = mset (replies_to H W c (r # ns))" "r \<notin> set ns"
  shows "\<exists>s'. step r s = (Inr (\<exists>w. W r = Some w \<and> good (H r) w), s') \<and> only_net s s' \<and> sent s' = sent s
    \<and> net_outside (mw_net s') = e \<and> mset (net_queue (mw_net s')) = mset (replies_to H W c ns)"
  using assms unfolding takes_replies_def by blast

lemma put_takes_replies:
  assumes env: "env_outside env = out"
  shows "takes_replies (put_call self rid p) (\<lambda>h w. fst (write_chunk h p w) = StSuccess) (put_acknowledged env rid (ptq_chunk_index p))"
  unfolding takes_replies_def
proof (intro allI impI)
  fix H W q e r ns and s :: "'e MetadataWorker"
  assume wait: "meanwhile out (net_queue (mw_net s)) (net_outside (mw_net s)) = (q, e)"
    and q: "mset q = mset (replies_to H W (put_call self rid p) (r # ns))" and d: "r \<notin> set ns"
  note wait' = wait [folded env]
  from reply_taken [OF q d put_reply_matches] obtain q' where q':
    "pop_if (make_message_is storage_rpc rid PUT Response r (chunk_index_is (ptq_chunk_index p))) q =
      (map_option (\<lambda>w. reply_to (H r) (put_call self rid p) w r) (W r), q')"
    "mset q' = mset (replies_to H W (put_call self rid p) ns)" by blast
  show "\<exists>s'. put_acknowledged env rid (ptq_chunk_index p) r s = (Inr (\<exists>w. W r = Some w \<and> fst (write_chunk (H r) p w) = StSuccess), s')
      \<and> only_net s s' \<and> sent s' = sent s \<and> net_outside (mw_net s') = e
      \<and> mset (net_queue (mw_net s')) = mset (replies_to H W (put_call self rid p) ns)"
  proof (cases "W r")
    case None
    with put_unanswered [OF wait'] q' show ?thesis by (simp add: only_net_def)
  next
    case (Some w)
    with q'(1) have "pop_if (make_message_is storage_rpc rid PUT Response r (chunk_index_is (ptq_chunk_index p))) q =
      (Some (reply_to (H r) (put_call self rid p) w r), q')" by simp
    from put_answered [OF wait' this] Some q'(2) show ?thesis by (auto simp: only_net_def)
  qed
qed

text \<open>One such step after the other, and the same call to both replicas.\<close>

lemma steps_outcome:
  fixes steps :: "NodeId list \<Rightarrow> ('e, bool) worker_act"
  assumes nil: "steps [] = act_return True"
    and cons: "\<And>r rs. steps (r # rs) = act_then (step r) (\<lambda>ok. act_then (steps rs) (\<lambda>oks. act_return (ok \<and> oks)))"
    and one: "takes_replies c good step"
  shows "distinct rs \<Longrightarrow>
   (rs = [] \<Longrightarrow> net_queue (mw_net s) = [] \<and> ready (net_outside (mw_net s)) \<and> workers (net_outside (mw_net s)) = W') \<Longrightarrow>
   (rs \<noteq> [] \<Longrightarrow> \<exists>q e. meanwhile out (net_queue (mw_net s)) (net_outside (mw_net s)) = (q, e) \<and> ready e \<and> workers e = W'
      \<and> mset q = mset (replies_to H W c rs)) \<Longrightarrow>
   \<exists>s'. steps rs s = (Inr (\<forall>r \<in> set rs. \<exists>w. W r = Some w \<and> good (H r) w), s') \<and> only_net s s'
     \<and> sent s' = sent s \<and> net_queue (mw_net s') = [] \<and> ready (net_outside (mw_net s')) \<and> workers (net_outside (mw_net s')) = W'"
proof (induction rs arbitrary: s)
  case Nil
  then show ?case by (simp add: nil act_return_def only_net_def)
next
  case (Cons r rs)
  from Cons.prems obtain q e where w: "meanwhile out (net_queue (mw_net s)) (net_outside (mw_net s)) = (q, e)"
    "ready e" "workers e = W'" "mset q = mset (replies_to H W c (r # rs))" by auto
  from takes_repliesD [OF one w(1,4)] Cons.prems(1) obtain s1 where s1:
    "step r s = (Inr (\<exists>w. W r = Some w \<and> good (H r) w), s1)" "only_net s s1" "sent s1 = sent s"
    "net_outside (mw_net s1) = e" "mset (net_queue (mw_net s1)) = mset (replies_to H W c rs)"
    by auto
  from calm [OF w(2), of "net_queue (mw_net s1)"] obtain e' where e': "meanwhile out (net_queue (mw_net s1)) e = (net_queue (mw_net s1), e')"
    "ready e'" "workers e' = W'" using w(3) by auto
  have "\<exists>s'. steps rs s1 = (Inr (\<forall>r \<in> set rs. \<exists>w. W r = Some w \<and> good (H r) w), s') \<and> only_net s1 s'
     \<and> sent s' = sent s1 \<and> net_queue (mw_net s') = [] \<and> ready (net_outside (mw_net s')) \<and> workers (net_outside (mw_net s')) = W'"
  proof (rule Cons.IH)
    show "distinct rs" using Cons.prems(1) by simp
    show "net_queue (mw_net s1) = [] \<and> ready (net_outside (mw_net s1)) \<and> workers (net_outside (mw_net s1)) = W'" if "rs = []"
      using that s1(4,5) w(2,3) by (simp add: replies_of_def)
    show "\<exists>q e. meanwhile out (net_queue (mw_net s1)) (net_outside (mw_net s1)) = (q, e) \<and> ready e \<and> workers e = W'
      \<and> mset q = mset (replies_to H W c rs)"
      using e' s1(4,5) by auto
  qed
  with s1(1-3) show ?case
    by (auto simp: cons act_then_def act_return_def intro: only_net_trans)
qed

definition call_each :: "'e Env \<Rightarrow> storage_call \<Rightarrow> NodeId list \<Rightarrow> ('e, unit) worker_act" where
  "call_each env c ns = act_each (\<lambda>n. act_then (act_lift (Inr (call_frame c))) (send env n)) ns"

lemma both_called:
  fixes steps :: "NodeId list \<Rightarrow> ('e, bool) worker_act" and s :: "'e MetadataWorker"
  defines "W \<equiv> workers (net_outside (mw_net s))"
  assumes env: "env_outside env = out" and start: "net_queue (mw_net s) = []" "ready (net_outside (mw_net s))"
    and ne: "r0 \<noteq> r1" and c: "call_ok c" "call_sender c = self"
    and nil: "steps [] = act_return True"
    and cons: "\<And>r rs. steps (r # rs) = act_then (step r) (\<lambda>ok. act_then (steps rs) (\<lambda>oks. act_return (ok \<and> oks)))"
    and one: "takes_replies c good step"
  shows "\<exists>H s'. act_then (call_each env c [r0, r1]) (\<lambda>_. steps [r0, r1]) s =
      (Inr (\<forall>r \<in> {r0, r1}. \<exists>w. W r = Some w \<and> good (H r) w), s') \<and> only_net s s'
    \<and> sent s' = sent s @ [(r0, call_frame c), (r1, call_frame c)]
    \<and> net_queue (mw_net s') = [] \<and> ready (net_outside (mw_net s')) \<and> (\<forall>n. admits n (H n))
    \<and> workers (net_outside (mw_net s')) = after_calls H [(r0, c), (r1, c)] W"
proof -
  let ?e = "net_outside (mw_net s)" and ?calls = "[(r0, c), (r1, c)]"
  define sends where "sends = [(r0, call_frame c), (r1, call_frame c)]"
  define e1 where "e1 = fold (\<lambda>(n, c). deliver out n (call_frame c)) ?calls ?e"
  define s1 where "s1 = s\<lparr>mw_net := (mw_net s)\<lparr>net_sent := sent s @ sends, net_outside := e1\<rparr>\<rparr>"
  have run: "act_then (call_each env c [r0, r1]) (\<lambda>_. steps [r0, r1]) s = steps [r0, r1] s1"
    using env by (simp add: call_each_def act_then_def act_lift_def send_def act_modify_def
        act_return_def post_frame_def s1_def e1_def sends_def)
  from exchange [OF start(2), of ?calls "[]"] ne c obtain H ms e2 where x: "meanwhile out [] e1 = (ms, e2)"
    "mset ms = mset (replies_of H W ?calls)" "ready e2" "workers e2 = after_calls H ?calls W" "\<And>n. admits n (H n)"
    by (auto simp: e1_def W_def)
  from steps_outcome [OF nil cons one, of "[r0, r1]" s1 "after_calls H ?calls W" H W] x start(1) ne
  obtain s' where s': "steps [r0, r1] s1 = (Inr (\<forall>r \<in> set [r0, r1]. \<exists>w. W r = Some w \<and> good (H r) w), s')" "only_net s1 s'"
    "sent s' = sent s1" "net_queue (mw_net s') = []" "ready (net_outside (mw_net s'))"
    "workers (net_outside (mw_net s')) = after_calls H ?calls W"
    by (auto simp: s1_def)
  have "only_net s s'" using s'(2) by (cases s; cases s') (simp add: only_net_def s1_def)
  with s' x(5) show ?thesis
    unfolding run by (intro exI [of _ H] exI [of _ s']) (simp add: s1_def sends_def)
qed

lemma after_both:
  assumes "W r0 = Some w0" "W r1 = Some w1" "r0 \<noteq> r1"
  shows "after_calls H [(r0, c), (r1, c)] W = W(r0 \<mapsto> snd (answer (H r0) c w0), r1 \<mapsto> snd (answer (H r1) c w1))"
  using assms by (auto simp: after_calls_def fun_eq_iff option.map_ident [unfolded id_def])

lemma put_both_outcome:
  assumes env: "env_outside env = out" and start: "net_queue (mw_net s) = []" "ready (net_outside (mw_net s))"
    and ne: "r0 \<noteq> r1" and ok: "call_ok (put_call self rid p)"
  shows "\<exists>b s'. put_both env rid p [r0, r1] s = (Inr b, s') \<and> only_net s s'
    \<and> sent s' = sent s @ [(r0, call_frame (put_call self rid p)), (r1, call_frame (put_call self rid p))]
    \<and> net_queue (mw_net s') = [] \<and> ready (net_outside (mw_net s'))
    \<and> ((\<forall>r \<in> {r0, r1}. \<exists>w. workers (net_outside (mw_net s)) r = Some w
          \<and> (\<forall>h. admits r h \<longrightarrow> fst (write_chunk h p w) = StSuccess)) \<longrightarrow> b)
    \<and> (b \<longrightarrow> (\<exists>h0 h1 w0 w1 v0 v1. admits r0 h0 \<and> admits r1 h1
          \<and> workers (net_outside (mw_net s)) r0 = Some w0 \<and> workers (net_outside (mw_net s)) r1 = Some w1
          \<and> write_chunk h0 p w0 = (StSuccess, v0) \<and> write_chunk h1 p w1 = (StSuccess, v1)
          \<and> workers (net_outside (mw_net s')) = (workers (net_outside (mw_net s)))(r0 \<mapsto> v0, r1 \<mapsto> v1)))"
proof -
  let ?c = "put_call self rid p" and ?W = "workers (net_outside (mw_net s))"
  have both: "put_both env rid p [r0, r1] = act_then (call_each env ?c [r0, r1]) (\<lambda>_. puts_acknowledged env rid (ptq_chunk_index p) [r0, r1])"
    unfolding put_both_def call_each_def put_frame [of rid p self] by (rule refl)
  have "call_sender ?c = self" by (simp add: put_call_def)
  from both_called [OF env start ne ok this puts_acknowledged.simps put_takes_replies [OF env]]
  obtain H s' where s': "put_both env rid p [r0, r1] s =
      (Inr (\<forall>r \<in> {r0, r1}. \<exists>w. ?W r = Some w \<and> fst (write_chunk (H r) p w) = StSuccess), s')"
    "only_net s s'" "sent s' = sent s @ [(r0, call_frame ?c), (r1, call_frame ?c)]"
    "net_queue (mw_net s') = []" "ready (net_outside (mw_net s'))" "\<forall>n. admits n (H n)"
    "workers (net_outside (mw_net s')) = after_calls H [(r0, ?c), (r1, ?c)] ?W"
    unfolding both by blast
  have "\<exists>h0 h1 w0 w1 v0 v1. admits r0 h0 \<and> admits r1 h1 \<and> ?W r0 = Some w0 \<and> ?W r1 = Some w1
      \<and> write_chunk h0 p w0 = (StSuccess, v0) \<and> write_chunk h1 p w1 = (StSuccess, v1)
      \<and> workers (net_outside (mw_net s')) = ?W(r0 \<mapsto> v0, r1 \<mapsto> v1)"
    if "\<forall>r \<in> {r0, r1}. \<exists>w. ?W r = Some w \<and> fst (write_chunk (H r) p w) = StSuccess"
  proof -
    from that obtain w0 w1 where w: "?W r0 = Some w0" "?W r1 = Some w1"
      "fst (write_chunk (H r0) p w0) = StSuccess" "fst (write_chunk (H r1) p w1) = StSuccess" by auto
    have "snd (answer h ?c w) = snd (write_chunk h p w)" for h w by (simp add: answer_def put_call_def split: prod.split)
    with s'(7) after_both [where W = ?W, OF w(1,2) ne] have
      "workers (net_outside (mw_net s')) = ?W(r0 \<mapsto> snd (write_chunk (H r0) p w0), r1 \<mapsto> snd (write_chunk (H r1) p w1))" by simp
    with w s'(6) show ?thesis by (metis prod.collapse)
  qed
  moreover have "(\<forall>r \<in> {r0, r1}. \<exists>w. ?W r = Some w \<and> (\<forall>h. admits r h \<longrightarrow> fst (write_chunk h p w) = StSuccess)) \<longrightarrow>
      (\<forall>r \<in> {r0, r1}. \<exists>w. ?W r = Some w \<and> fst (write_chunk (H r) p w) = StSuccess)" using s'(6) by blast
  ultimately show ?thesis using s'(1-5) by blast
qed

text \<open>One chunk of an upload of \<open>content\<close> under way as \<open>w\<close>: its first \<open>k\<close> chunks are staged.\<close>

definition staged_at :: "'e \<Rightarrow> byte list \<Rightarrow> Pending \<Rightarrow> nat \<Rightarrow> bool" where
  "staged_at e content w k \<longleftrightarrow> (0 < k \<longrightarrow> (\<forall>r \<in> {pd_replica_0 w, pd_replica_1 w}. \<exists>v. workers e r = Some v
     \<and> staged v (pd_object_id w) = Some (take (k * 524288) content)))"

definition committed_at :: "'e \<Rightarrow> byte list \<Rightarrow> Pending \<Rightarrow> bool" where
  "committed_at e content w \<longleftrightarrow> (\<forall>r \<in> {pd_replica_0 w, pd_replica_1 w}. \<exists>v. workers e r = Some v
     \<and> committed v (pd_object_id w) = Some content)"

definition sound :: "'e \<Rightarrow> bool" where
  "sound e \<longleftrightarrow> ready e \<and> (\<forall>n v. workers e n = Some v \<longrightarrow> worker_inv v)"

text \<open>The upload \<open>w\<close> of \<open>content\<close>, with \<open>k\<close> chunks acknowledged.\<close>

definition upload_of :: "byte list \<Rightarrow> Pending \<Rightarrow> nat \<Rightarrow> bool" where
  "upload_of content w k \<longleftrightarrow> length content < 2 ^ 64 \<and> pd_file_size w = word_of_nat (length content)
     \<and> unat (pd_chunk_count w) = count_chunks (length content) \<and> k < count_chunks (length content)
     \<and> pd_next_chunk w = word_of_nat k \<and> pd_replica_0 w \<noteq> [] \<and> pd_replica_1 w \<noteq> [] \<and> pd_replica_0 w \<noteq> pd_replica_1 w
     \<and> proper_id (pd_object_id w) \<and> nul_free (pd_object_id w) \<and> length (pd_object_id w) < 2 ^ 30"

lemma chunk_written_at:
  assumes "write_chunk h (put_of req w) v = (StSuccess, v')" "worker_inv v" "upload_of content w k"
    "wcq_chunk_index req = word_of_nat k" "wcq_data req = chunk k content"
    "0 < k \<Longrightarrow> staged v (pd_object_id w) = Some (take (k * 524288) content)"
  shows "worker_inv v'
    \<and> (if Suc k = count_chunks (length content) then committed v' (pd_object_id w) = Some content
       else staged v' (pd_object_id w) = Some (take (Suc k * 524288) content))"
proof -
  let ?oid = "pd_object_id w"
  have up: "unat (pd_chunk_count w) = count_chunks (length content)" "k < count_chunks (length content)" "proper_id ?oid"
    using assms(3) by (simp_all add: upload_of_def)
  from index_below [of k "pd_chunk_count w"] up have i: "(word_of_nat k :: u32) < pd_chunk_count w" "unat (word_of_nat k :: u32) = k"
    by simp_all
  have zero: "(word_of_nat k :: u32) = 0 \<longleftrightarrow> k = 0" using i(2) by (metis unat_0 unat_eq_0)
  have written: "chunk_written (put_of req w) v = take (Suc k * 524288) content"
    using assms(4-6) zero take_chunk [of k content] by (auto simp: chunk_written_def put_of_def)
  have final: "ptq_final_chunk (put_of req w) \<longleftrightarrow> Suc k = count_chunks (length content)"
    using counts_up [OF i(1)] i(2) up(1) assms(4) word_unat_eq_iff [of "word_of_nat k + 1" "pd_chunk_count w"]
    by (simp add: put_of_def)
  have all: "take (Suc k * 524288) content = content" if "Suc k = count_chunks (length content)"
    using count_chunks_bound [of "length content"] that by simp
  have oid: "ptq_object_id (put_of req w) = ?oid" by (simp add: put_of_def)
  from write_chunk_outcome [OF assms(1,2)] up(3) final written all show ?thesis
    by (auto simp: only_object_def oid split: if_splits)
qed

lemma chunk_accepted:
  assumes "willing h" "takes v (pd_object_id w) (word_of_nat k)" "upload_of content w k"
    and req: "wcq_chunk_index req = word_of_nat k" "wcq_data req = chunk k content"
    and run: "write_chunk h (put_of req w) v = (st, v')"
  shows "st = StSuccess \<and> (Suc k < count_chunks (length content) \<longrightarrow> takes v' (pd_object_id w) (word_of_nat (Suc k)))"
proof -
  have oid: "ptq_object_id (put_of req w) = pd_object_id w" "ptq_chunk_index (put_of req w) = word_of_nat k"
    "ptq_data (put_of req w) = chunk k content" using req by (simp_all add: put_of_def)
  have up: "proper_id (pd_object_id w)" "unat (pd_chunk_count w) = count_chunks (length content)" "k < count_chunks (length content)"
    using assms(3) by (simp_all add: upload_of_def)
  from index_below [of k "pd_chunk_count w"] up(2,3)
  have i: "(word_of_nat k :: u32) < pd_chunk_count w" "unat (word_of_nat k :: u32) = k" by simp_all
  have "\<not> ptq_final_chunk (put_of req w)" if "Suc k < count_chunks (length content)"
    using counts_up [OF i(1)] i(2) up(2) that req(1) word_unat_eq_iff [of "word_of_nat k + 1" "pd_chunk_count w"]
    by (simp add: put_of_def)
  moreover have "length (ptq_data (put_of req w)) \<le> 524288" by (simp add: oid length_chunk)
  ultimately show ?thesis
    using takes_next [OF assms(1) _ _ _ run, unfolded oid, OF assms(2) up(1)] by (simp add: oid add.commute)
qed

text \<open>Both replicas run on hosts that work and expect the next chunk.\<close>

definition accepting :: "'e \<Rightarrow> Pending \<Rightarrow> nat \<Rightarrow> bool" where
  "accepting e w k \<longleftrightarrow> (\<forall>r \<in> {pd_replica_0 w, pd_replica_1 w}. (\<forall>h. admits r h \<longrightarrow> willing h)
     \<and> (\<exists>v. workers e r = Some v \<and> takes v (pd_object_id w) (word_of_nat k)))"

lemma put_both_step:
  assumes env: "env_outside env = out" and start: "net_queue (mw_net s) = []" "sound (net_outside (mw_net s))"
    and up: "upload_of content w k" "staged_at (net_outside (mw_net s)) content w k"
    and req: "wcq_chunk_index req = word_of_nat k" "wcq_data req = chunk k content"
  shows "\<exists>b s' posted. put_both env rid (put_of req w) [pd_replica_0 w, pd_replica_1 w] s = (Inr b, s') \<and> only_net s s'
    \<and> sent s' = sent s @ posted \<and> net_queue (mw_net s') = []
    \<and> (b \<longrightarrow> sound (net_outside (mw_net s'))
       \<and> (\<forall>n. workers (net_outside (mw_net s)) n = None \<longrightarrow> workers (net_outside (mw_net s')) n = None)
       \<and> (if Suc k = count_chunks (length content) then committed_at (net_outside (mw_net s')) content w
          else staged_at (net_outside (mw_net s')) content w (Suc k)))
    \<and> (accepting (net_outside (mw_net s)) w k \<longrightarrow>
       b \<and> (Suc k < count_chunks (length content) \<longrightarrow> accepting (net_outside (mw_net s')) w (Suc k)))"
proof -
  let ?p = "put_of req w" and ?r0 = "pd_replica_0 w" and ?r1 = "pd_replica_1 w" and ?W = "workers (net_outside (mw_net s))"
  have "length (chunk k content) \<le> 524288" by (simp add: length_chunk)
  then have "length (pd_object_id w) + length (chunk k content) < 2 ^ 31" using up(1) by (simp add: upload_of_def)
  then have ok: "call_ok (put_call self rid ?p)" using up(1) req(2) by (simp add: call_ok_def put_call_def put_of_def upload_of_def)
  have ne: "?r0 \<noteq> ?r1" using up(1) by (simp add: upload_of_def)
  have ready: "ready (net_outside (mw_net s))" and inv: "\<And>n v. ?W n = Some v \<Longrightarrow> worker_inv v"
    using start(2) by (simp_all add: sound_def)
  from put_both_outcome [OF env start(1) ready ne ok] obtain b s' where run:
    "put_both env rid ?p [?r0, ?r1] s = (Inr b, s')" "only_net s s'"
    "sent s' = sent s @ [(?r0, call_frame (put_call self rid ?p)), (?r1, call_frame (put_call self rid ?p))]"
    "net_queue (mw_net s') = []" "ready (net_outside (mw_net s'))"
    "(\<forall>r \<in> {?r0, ?r1}. \<exists>v. ?W r = Some v \<and> (\<forall>h. admits r h \<longrightarrow> fst (write_chunk h ?p v) = StSuccess)) \<longrightarrow> b"
    "b \<longrightarrow> (\<exists>h0 h1 w0 w1 v0 v1. admits ?r0 h0 \<and> admits ?r1 h1 \<and> ?W ?r0 = Some w0 \<and> ?W ?r1 = Some w1
       \<and> write_chunk h0 ?p w0 = (StSuccess, v0) \<and> write_chunk h1 ?p w1 = (StSuccess, v1)
       \<and> workers (net_outside (mw_net s')) = ?W(?r0 \<mapsto> v0, ?r1 \<mapsto> v1))"
    by blast
  have "sound (net_outside (mw_net s')) \<and> (\<forall>n. ?W n = None \<longrightarrow> workers (net_outside (mw_net s')) n = None)
       \<and> (if Suc k = count_chunks (length content) then committed_at (net_outside (mw_net s')) content w
          else staged_at (net_outside (mw_net s')) content w (Suc k))" if "b"
  proof -
    from that run(7) obtain h0 h1 w0 w1 v0 v1 where w: "?W ?r0 = Some w0" "?W ?r1 = Some w1"
      "write_chunk h0 ?p w0 = (StSuccess, v0)" "write_chunk h1 ?p w1 = (StSuccess, v1)"
      "workers (net_outside (mw_net s')) = ?W(?r0 \<mapsto> v0, ?r1 \<mapsto> v1)" by blast
    have st: "0 < k \<Longrightarrow> staged w0 (pd_object_id w) = Some (take (k * 524288) content)"
      "0 < k \<Longrightarrow> staged w1 (pd_object_id w) = Some (take (k * 524288) content)"
      using up(2) w(1,2) by (auto simp: staged_at_def)
    note both = chunk_written_at [OF w(3) inv [OF w(1)] up(1) req st(1)] chunk_written_at [OF w(4) inv [OF w(2)] up(1) req st(2)]
    have "worker_inv v" if "workers (net_outside (mw_net s')) n = Some v" for n v
      using that both inv by (auto simp: w(5) split: if_splits)
    with both ne run(5) w(1,2) show ?thesis
      by (auto simp: sound_def committed_at_def staged_at_def w(5))
  qed
  moreover have "b \<and> (Suc k < count_chunks (length content) \<longrightarrow> accepting (net_outside (mw_net s')) w (Suc k))"
    if acc: "accepting (net_outside (mw_net s)) w k"
  proof -
    have next_ok: "st = StSuccess \<and> (Suc k < count_chunks (length content) \<longrightarrow> takes v' (pd_object_id w) (word_of_nat (Suc k)))"
      if "r \<in> {?r0, ?r1}" "admits r h" "?W r = Some v" "write_chunk h ?p v = (st, v')" for r h v st v'
      using chunk_accepted [OF _ _ up(1) req that(4)] acc that(1-3) by (auto simp: accepting_def)
    have "fst (write_chunk h ?p v) = StSuccess" if "r \<in> {?r0, ?r1}" "admits r h" "?W r = Some v" for r h v
      using next_ok [OF that prod.collapse [symmetric]] by simp
    moreover have "\<exists>v. ?W r = Some v" if "r \<in> {?r0, ?r1}" for r using acc that by (auto simp: accepting_def)
    ultimately have "\<forall>r \<in> {?r0, ?r1}. \<exists>v. ?W r = Some v \<and> (\<forall>h. admits r h \<longrightarrow> fst (write_chunk h ?p v) = StSuccess)" by blast
    with run(6) have b: b by blast
    with run(7) obtain h0 h1 w0 w1 v0 v1 where w: "admits ?r0 h0" "admits ?r1 h1" "?W ?r0 = Some w0" "?W ?r1 = Some w1"
      "write_chunk h0 ?p w0 = (StSuccess, v0)" "write_chunk h1 ?p w1 = (StSuccess, v1)"
      "workers (net_outside (mw_net s')) = ?W(?r0 \<mapsto> v0, ?r1 \<mapsto> v1)" by blast
    have "accepting (net_outside (mw_net s')) w (Suc k)" if "Suc k < count_chunks (length content)"
      using that next_ok [OF _ w(1,3,5)] next_ok [OF _ w(2,4,6)] ne acc by (simp add: accepting_def w(7))
    with b show ?thesis by blast
  qed
  ultimately show ?thesis using run(1-4) by blast
qed

text \<open>The whole handler, on the next chunk of an upload.\<close>

lemma sound_elsewhere:
  "sound e \<Longrightarrow> workers e n = None \<Longrightarrow> sound (deliver out n f e) \<and> workers (deliver out n f e) = workers e"
  using elsewhere by (simp add: sound_def)

text \<open>What the handler leaves after the next chunk, with the status it answers.\<close>

definition chunk_outcome ::
  "Host \<Rightarrow> byte list \<Rightarrow> Pending \<Rightarrow> nat \<Rightarrow> NodeId \<Rightarrow> u64 \<Rightarrow> 'e MetadataWorker \<Rightarrow> ClientStatus \<Rightarrow> 'e MetadataWorker \<Rightarrow> bool" where
  "chunk_outcome h content w k c rid s st s' \<longleftrightarrow>
    (let updated = (\<lambda>st. update_metadata h (pd_path w)
           (file_entry (pd_path w) (pd_file_size w) (pd_object_id w) (pd_replica_0 w) (pd_replica_1 w)) (mw_store s) = (Inr (), st));
         e = net_outside (mw_net s); e' = net_outside (mw_net s'); last_chunk = (Suc k = count_chunks (length content)) in
     (st = Success \<longrightarrow> net_queue (mw_net s') = [] \<and> sound e' \<and> workers e' c = None \<and> pending_reads s' = pending_reads s
      \<and> (if last_chunk
         then committed_at e' content w \<and> updated (mw_store s')
           \<and> pending_writes s' = discard_pending c rid (advance_pending c rid (pending_writes s))
         else staged_at e' content w (Suc k) \<and> mw_store s' = mw_store s
           \<and> pending_writes s' = advance_pending c rid (pending_writes s)))
     \<and> (accepting e w k \<and> (last_chunk \<longrightarrow> (\<exists>st. updated st)) \<longrightarrow> st = Success \<and> (\<not> last_chunk \<longrightarrow> accepting e' w (Suc k))))"

lemma chunk_outcome_nodes [simp]:
  "chunk_outcome h content w k c rid s st (s'\<lparr>mw_nodes := nodes\<rparr>) = chunk_outcome h content w k c rid s st s'"
  by (simp add: chunk_outcome_def)

lemma write_chunk_handled:
  fixes s :: "'e MetadataWorker" and req :: WriteChunkRequest
  defines "c \<equiv> peer_id (ctx_sender (wcq_context req))" and "rid \<equiv> ctx_request_id (wcq_context req)"
  assumes env: "env_outside env = out" and start: "net_queue (mw_net s) = []" "sound (net_outside (mw_net s))"
    "workers (net_outside (mw_net s)) c = None"
    and w: "find_pending c rid (pending_writes s) = Some w"
    and up: "upload_of content w k" "staged_at (net_outside (mw_net s)) content w k"
    and req: "wcq_chunk_index req = word_of_nat k" "wcq_data req = chunk k content"
  shows "\<exists>s' posted st. handle_write_chunk env req s = (Inr (), s')
    \<and> sent s' = sent s @ posted @ [(c, write_chunk_frame rid (word_of_nat k) st)] \<and> client_status_ok st
    \<and> chunk_outcome (env_host env) content w k c rid s st s'"
proof -
  have up': "k < count_chunks (length content)" "unat (pd_chunk_count w) = count_chunks (length content)"
    "pd_next_chunk w = word_of_nat k" "pd_file_size w = word_of_nat (length content)" "length content < 2 ^ 64"
    using up(1) by (simp_all add: upload_of_def)
  from index_below [of k "pd_chunk_count w"] up'(1,2) have i: "(word_of_nat k :: u32) < pd_chunk_count w" "unat (word_of_nat k :: u32) = k"
    by simp_all
  have fsize: "unat (pd_file_size w) = length content" using up'(4,5) by (simp add: unat_of_nat)
  have "k * 524288 < length content" using up'(1) by (simp add: count_chunks_less)
  then have len: "length (wcq_data req) = unat (chunk_length (pd_file_size w) (pd_next_chunk w))"
    using chunk_length_nat [of "word_of_nat k" "pd_file_size w"] i(2) fsize up'(3) req(2) by (simp add: chunk_length_def length_chunk)
  have run: "handle_write_chunk env req s = act_then (put_both env rid (put_of req w) [pd_replica_0 w, pd_replica_1 w]) (finish_write env req w) s"
    using write_chunk_to_both [of req w env] len i(1) up'(3) req(1) w
    by (simp add: handle_write_chunk_def act_then_def act_get_def c_def rid_def)
  from put_both_step [OF env start(1,2) up req, of rid] obtain b s1 posted where s1:
    "put_both env rid (put_of req w) [pd_replica_0 w, pd_replica_1 w] s = (Inr b, s1)" "only_net s s1"
    "sent s1 = sent s @ posted" "net_queue (mw_net s1) = []"
    "b \<longrightarrow> sound (net_outside (mw_net s1)) \<and> (\<forall>n. workers (net_outside (mw_net s)) n = None \<longrightarrow> workers (net_outside (mw_net s1)) n = None)
       \<and> (if Suc k = count_chunks (length content) then committed_at (net_outside (mw_net s1)) content w
          else staged_at (net_outside (mw_net s1)) content w (Suc k))"
    "accepting (net_outside (mw_net s)) w k \<longrightarrow>
       b \<and> (Suc k < count_chunks (length content) \<longrightarrow> accepting (net_outside (mw_net s1)) w (Suc k))" by blast
  have final: "word_of_nat k + 1 = pd_chunk_count w \<longleftrightarrow> Suc k = count_chunks (length content)"
    using counts_up [OF i(1)] i(2) up'(2) word_unat_eq_iff [of "word_of_nat k + 1" "pd_chunk_count w"] by simp
  note quiet = only_netD [OF s1(2)]
  note runs = chunk_outcome_def run act_then_def s1(1) finish_write_def Let_def act_modify_def discard_write_def write_chunk_replies
    final req(1) c_def [symmetric] rid_def [symmetric]
  show ?thesis
  proof (cases "b \<and> (Suc k = count_chunks (length content) \<longrightarrow> (\<exists>st. update_metadata (env_host env) (pd_path w)
      (file_entry (pd_path w) (pd_file_size w) (pd_object_id w) (pd_replica_0 w) (pd_replica_1 w)) (mw_store s) = (Inr (), st)))")
    case True
    then have b: "b" by simp
    with s1(5) start(3) have e1: "sound (net_outside (mw_net s1))" "workers (net_outside (mw_net s1)) c = None" by simp_all
    note post = sound_elsewhere [OF e1]
    have keep: "committed_at (deliver out c f (net_outside (mw_net s1))) content w = committed_at (net_outside (mw_net s1)) content w"
      "staged_at (deliver out c f (net_outside (mw_net s1))) content w (Suc k) = staged_at (net_outside (mw_net s1)) content w (Suc k)"
      "accepting (deliver out c f (net_outside (mw_net s1))) w (Suc k) = accepting (net_outside (mw_net s1)) w (Suc k)" for f
      using post by (simp_all add: committed_at_def staged_at_def accepting_def)
    show ?thesis
    proof (cases "Suc k = count_chunks (length content)")
      case False
      then have "Suc k < count_chunks (length content)" using up'(1) by simp
      with b s1(3-6) quiet post keep e1(2) env False show ?thesis
        by (intro exI [of _ "s1\<lparr>pending_writes := advance_pending c rid (pending_writes s1),
            mw_net := post_frame (env_outside env) c (write_chunk_frame rid (word_of_nat k) Success) (mw_net s1)\<rparr>"] exI [of _ posted] exI [of _ Success])
          (simp add: runs, simp add: post_frame_def)
    next
      case last: True
      with True quiet obtain st where st: "update_metadata (env_host env) (pd_path w)
        (file_entry (pd_path w) (pd_file_size w) (pd_object_id w) (pd_replica_0 w) (pd_replica_1 w)) (mw_store s1) = (Inr (), st)" by auto
      with last b s1(3-6) quiet post keep e1(2) env show ?thesis
        by (intro exI [of _ "s1\<lparr>pending_writes := discard_pending c rid (advance_pending c rid (pending_writes s1)), mw_store := st,
            mw_net := post_frame (env_outside env) c (write_chunk_frame rid (word_of_nat k) Success) (mw_net s1)\<rparr>"] exI [of _ posted] exI [of _ Success])
          (simp add: runs on_store_def act_step_def, simp add: post_frame_def)
    qed
  next
    case bad: False
    show ?thesis
    proof (cases b)
      case False
      with s1(3,6) show ?thesis
        by (intro exI [of _ "s1\<lparr>pending_writes := discard_pending c rid (pending_writes s1),
            mw_net := post_frame (env_outside env) c (write_chunk_frame rid (word_of_nat k) ServerError) (mw_net s1)\<rparr>"] exI [of _ posted] exI [of _ ServerError])
          (simp add: runs)
    next
      case True
      obtain r st where r: "update_metadata (env_host env) (pd_path w)
        (file_entry (pd_path w) (pd_file_size w) (pd_object_id w) (pd_replica_0 w) (pd_replica_1 w)) (mw_store s1) = (r, st)" by fastforce
      with True bad quiet obtain e where e: "r = Inl e" and last: "Suc k = count_chunks (length content)" by (cases r) auto
      have status: "client_status_of r \<noteq> Success" "client_status_ok (client_status_of r)" unfolding e by (cases e; simp)+
      have "update_metadata (env_host env) (pd_path w)
        (file_entry (pd_path w) (pd_file_size w) (pd_object_id w) (pd_replica_0 w) (pd_replica_1 w)) (mw_store s) \<noteq> (Inr (), t)" for t
        using r e quiet by simp
      with True last r s1(3) status show ?thesis
        by (intro exI [of _ "s1\<lparr>pending_writes := discard_pending c rid (advance_pending c rid (pending_writes s1)), mw_store := st,
            mw_net := post_frame (env_outside env) c (write_chunk_frame rid (word_of_nat k) (client_status_of r)) (mw_net s1)\<rparr>"] exI [of _ posted] exI [of _ "client_status_of r"])
          (simp add: runs on_store_def act_step_def)
    qed
  qed
qed

end

end
