(* ===== verification/Sessions.thy ===== *)
theory Sessions
  imports Replication
begin

text \<open>
  The transfers of clients on the metadata worker: how the tables of pending transfers change,
  what a write request that is accepted starts, and what a read request gives.
\<close>

section \<open>The pending tables as maps\<close>

lemma find_emplace:
  "find_pending c r t = None \<Longrightarrow>
   find_pending c' r' (snd (emplace_pending c r p t)) = (if c' = c \<and> r' = r then Some p else find_pending c' r' t)
   \<and> fst (emplace_pending c r p t)"
  by (auto simp: find_pending_def emplace_pending_def Let_def try_emplace_def split: option.splits)

lemma emplace_taken: "find_pending c r t = Some q \<Longrightarrow> \<not> fst (emplace_pending c r p t)"
  by (auto simp: find_pending_def emplace_pending_def Let_def try_emplace_def split: option.splits)

lemma find_discard:
  "find_pending c' r' (discard_pending c r t) = (if c' = c \<and> r' = r then None else find_pending c' r' t)"
proof (cases "map_of t c")
  case (Some es)
  have "map_of es k = None" if "AList.delete r es = []" "k \<noteq> r" for k
    using map_of_delete [of r es] that by (metis fun_upd_other map_of.simps(1))
  with Some show ?thesis by (auto simp: find_pending_def discard_pending_def Let_def split: option.split)
qed (auto simp: find_pending_def discard_pending_def split: option.split)

lemma find_advance:
  "find_pending c' r' (advance_pending c r t) =
   (if c' = c \<and> r' = r then map_option (\<lambda>p. p\<lparr>pd_next_chunk := pd_next_chunk p + 1\<rparr>) (find_pending c r t) else find_pending c' r' t)"
  by (auto simp: find_pending_def advance_pending_def split: option.split)

lemma being_written_iff:
  assumes "table_ok t"
  shows "being_written p t \<longleftrightarrow> (\<exists>c r w. find_pending c r t = Some w \<and> pd_path w = p)"
proof
  assume "being_written p t"
  then obtain c es r w where "(c, es) \<in> set t" "(r, w) \<in> set es" "pd_path w = p"
    by (auto simp: being_written_def list_ex_iff)
  with assms have "map_of t c = Some es" "map_of es r = Some w"
    by (auto simp: table_ok_def intro!: map_of_is_SomeI)
  with \<open>pd_path w = p\<close> show "\<exists>c r w. find_pending c r t = Some w \<and> pd_path w = p"
    by (intro exI [of _ c] exI [of _ r] exI [of _ w]) (simp add: find_pending_def)
next
  assume "\<exists>c r w. find_pending c r t = Some w \<and> pd_path w = p"
  then show "being_written p t"
    by (force simp: being_written_def list_ex_iff find_pending_def split: option.splits dest: map_of_SomeD)
qed

section \<open>What an update of the metadata leaves\<close>

lemma write_keeps_data: "write_metadata_file h p m s = (r, s') \<Longrightarrow> ms_data s' = ms_data s"
  by (auto simp: write_metadata_file_def Let_def split: if_splits sum.splits prod.splits option.splits)

lemma update_gives:
  assumes "update_metadata h p m s = (Inr (), s')"
  shows "\<exists>m'. get_metadata p s' = Inr m' \<and> md_size m' = md_size m \<and> md_obj_id m' = md_obj_id m
    \<and> md_replica_0 m' = md_replica_0 m \<and> md_replica_1 m' = md_replica_1 m"
proof -
  have v: "valid_filename p" using assms by (auto simp: update_metadata_def split: if_splits)
  show ?thesis
  proof (cases "map_of (ms_data s) (elems p)")
    case None
    then have "add_metadata h p m s = (Inr (), s')" using assms v by (simp add: update_metadata_def)
    with v None show ?thesis
      by (auto simp: add_metadata_def get_metadata_def Let_def try_emplace_def split: sum.splits prod.splits bool.splits
          dest!: write_keeps_data)
  next
    case (Some existing)
    with assms v show ?thesis
      by (auto simp: update_metadata_def get_metadata_def Let_def split: sum.splits prod.splits)
  qed
qed

section \<open>The start of an upload\<close>

definition good_id :: "string \<Rightarrow> bool" where
  "good_id oid \<longleftrightarrow> proper_id oid \<and> nul_free oid \<and> length oid < 2 ^ 30"

lemma generated_good: "good_id (generate a b)"
  by (simp add: good_id_def generated_proper generate_nul_free length_generate)

definition write_file_frame :: "u64 \<Rightarrow> ClientStatus \<Rightarrow> Frame" where
  "write_file_frame rid st = rpc_frame client_rpc rid WRITE_FILE Response [client_status_to_u8 st]"

lemma write_file_replies:
  "write_file_reply env req st w = (Inr (), w\<lparr>mw_net := post_frame (env_outside env) (peer_id (ctx_sender (wfq_context req)))
     (write_file_frame (ctx_request_id (wfq_context req)) st) (mw_net w)\<rparr>)"
  by (simp add: write_file_reply_def write_file_frame_def
      respond_run [where enc = encode_write_file_response, OF write_file_response.enc_frame])

context storage_service
begin

text \<open>A worker with nothing in its queue whose storage nodes are in order; \<open>c\<close> is a client.\<close>

definition at_rest :: "NodeId \<Rightarrow> 'e MetadataWorker \<Rightarrow> bool" where
  "at_rest c s \<longleftrightarrow> net_queue (mw_net s) = [] \<and> sound (net_outside (mw_net s)) \<and> workers (net_outside (mw_net s)) c = None"

definition write_started :: "path \<Rightarrow> NodeId \<Rightarrow> u64 \<Rightarrow> byte list \<Rightarrow> 'e MetadataWorker \<Rightarrow> 'e MetadataWorker \<Rightarrow> bool" where
  "write_started p c rid content s s' \<longleftrightarrow>
     (if content = [] then pending_writes s' = pending_writes s
        \<and> (\<exists>m. get_metadata p (mw_store s') = Inr m \<and> md_size m = 0 \<and> md_obj_id m \<noteq> [])
      else find_pending c rid (pending_writes s) = None
        \<and> (\<exists>w. pd_path w = p \<and> upload_of content w 0 \<and> pending_writes s' = snd (emplace_pending c rid w (pending_writes s))))"

definition write_answered :: "path \<Rightarrow> NodeId \<Rightarrow> u64 \<Rightarrow> byte list \<Rightarrow> 'e MetadataWorker \<Rightarrow> 'e MetadataWorker \<Rightarrow> bool" where
  "write_answered p c rid content s s' \<longleftrightarrow> (\<exists>st. sent s' = sent s @ [(c, write_file_frame rid st)] \<and> client_status_ok st
     \<and> (st = Success \<longrightarrow> at_rest c s' \<and> workers (net_outside (mw_net s')) = workers (net_outside (mw_net s))
        \<and> pending_reads s' = pending_reads s \<and> write_started p c rid content s s'))"

lemma write_refused:
  assumes "sent t = sent s" "st \<noteq> Success" "client_status_ok st"
  shows "wp (write_file_reply env req st)
    (\<lambda>_. write_answered p (peer_id (ctx_sender (wfq_context req))) (ctx_request_id (wfq_context req)) content s) E t"
  using assms by (auto simp: wp_def write_file_replies write_answered_def)

lemma write_accepted:
  fixes t s :: "'e MetadataWorker"
  assumes "env_outside env = out" "at_rest (peer_id (ctx_sender (wfq_context req))) s" "mw_net t = mw_net s" "pending_reads t = pending_reads s"
    "write_started p (peer_id (ctx_sender (wfq_context req))) (ctx_request_id (wfq_context req)) content s t"
  shows "wp (write_file_reply env req Success)
    (\<lambda>_. write_answered p (peer_id (ctx_sender (wfq_context req))) (ctx_request_id (wfq_context req)) content s) E t"
proof -
  let ?c = "peer_id (ctx_sender (wfq_context req))"
  have "sound (net_outside (mw_net s))" "workers (net_outside (mw_net s)) ?c = None" using assms(2) by (simp_all add: at_rest_def)
  note post = sound_elsewhere [OF this]
  let ?t = "t\<lparr>mw_net := post_frame (env_outside env) ?c (write_file_frame (ctx_request_id (wfq_context req)) Success) (mw_net t)\<rparr>"
  have "write_answered p ?c (ctx_request_id (wfq_context req)) content s ?t"
    unfolding write_answered_def using assms post
    by (intro exI [of _ Success]) (simp add: at_rest_def write_started_def, simp add: post_frame_def)
  then show ?thesis by (simp add: wp_def write_file_replies)
qed

lemma start_write_answered:
  fixes t s :: "'e MetadataWorker" and req :: WriteFileRequest
  defines "c \<equiv> peer_id (ctx_sender (wfq_context req))" and "rid \<equiv> ctx_request_id (wfq_context req)"
  assumes env: "env_outside env = out" and rest: "at_rest c s"
    and t: "mw_net t = mw_net s" "pending_reads t = pending_reads s" "pending_writes t = pending_writes s"
    and content: "content \<noteq> []" "length content < 2 ^ 64" "wfq_file_size req = word_of_nat (length content)"
      "unat (wfq_chunk_count req) = count_chunks (length content)"
    and r: "r0 \<noteq> []" "r1 \<noteq> []" "r0 \<noteq> r1" and m: "good_id (md_obj_id m)"
  shows "wp (start_write env req m r0 r1) (\<lambda>_. write_answered (wfq_path req) c rid content s) E t"
proof -
  let ?w = "\<lparr>pd_path = wfq_path req, pd_object_id = md_obj_id m, pd_file_size = wfq_file_size req,
          pd_chunk_count = wfq_chunk_count req, pd_next_chunk = 0, pd_replica_0 = r0, pd_replica_1 = r1\<rparr>"
  obtain b tw where em: "emplace_pending c rid ?w (pending_writes t) = (b, tw)" by fastforce
  have 0: "0 < count_chunks (length content)" using content(1) count_chunks_0 [of "length content"] by (simp del: count_chunks_0)
  have up: "upload_of content ?w 0" using content r m 0 by (simp add: upload_of_def good_id_def)
  have "wp (write_file_reply env req (if b then Success else ServerError)) (\<lambda>_. write_answered (wfq_path req) c rid content s) E (t\<lparr>pending_writes := tw\<rparr>)"
  proof (cases b)
    case True
    with em emplace_taken [of c rid "pending_writes t" _ ?w] have "find_pending c rid (pending_writes s) = None"
      by (cases "find_pending c rid (pending_writes t)") (auto simp: t(3))
    with up em t(3) content(1) have "write_started (wfq_path req) c rid content s (t\<lparr>pending_writes := tw\<rparr>)"
      by (simp add: write_started_def) (metis Pending.select_convs(1) snd_conv)
    then show ?thesis
      using True write_accepted [OF env, of req s "t\<lparr>pending_writes := tw\<rparr>" "wfq_path req" content E] rest t(1,2)
      by (simp add: c_def rid_def)
  next
    case False
    with write_refused [of "t\<lparr>pending_writes := tw\<rparr>" s ServerError env req "wfq_path req" content E] t(1) show ?thesis
      by (simp add: c_def rid_def)
  qed
  then show ?thesis
    by (simp add: start_write_def wp_then wp_step em [unfolded c_def rid_def])
qed

lemma write_file_with_answered:
  fixes t s :: "'e MetadataWorker" and req :: WriteFileRequest
  defines "c \<equiv> peer_id (ctx_sender (wfq_context req))" and "rid \<equiv> ctx_request_id (wfq_context req)"
  assumes env: "env_outside env = out" and rest: "at_rest c s"
    and t: "mw_net t = mw_net s" "pending_reads t = pending_reads s" "pending_writes t = pending_writes s" "nodes_ok (mw_nodes t)"
    and content: "length content < 2 ^ 64" "wfq_file_size req = word_of_nat (length content)"
      "unat (wfq_chunk_count req) = count_chunks (length content)"
    and m: "good_id (md_obj_id m)"
  shows "wp (write_file_with env req m) (\<lambda>_. write_answered (wfq_path req) c rid content s) (\<lambda>_ _. False) t"
proof -
  let ?Q = "\<lambda>_. write_answered (wfq_path req) c rid content s" and ?E = "\<lambda>_ _. False"
  let ?r0 = "md_replica_0 m" and ?r1 = "md_replica_1 m"
  have no: "wp (write_file_reply env req ServerError) ?Q ?E u" if "sent u = sent s" for u
    using write_refused [OF that, of ServerError env req "wfq_path req" content ?E] by (simp add: c_def rid_def)
  have start: "wp (start_write env req m' r0 r1) ?Q ?E u"
    if "mw_net u = mw_net s" "pending_reads u = pending_reads s" "pending_writes u = pending_writes s" "wfq_chunk_count req \<noteq> 0"
      "r0 \<noteq> []" "r1 \<noteq> []" "r0 \<noteq> r1" "md_obj_id m' = md_obj_id m" for u m' r0 r1
  proof -
    have "content \<noteq> []" using that(4) content(3) by (auto simp: unat_eq_zero count_chunks_def)
    with start_write_answered [OF env, of req s u content r0 r1 m' ?E] rest that content m show ?thesis
      by (simp add: c_def rid_def)
  qed
  have empty: "wp (act_then (on_store (update_metadata (env_host env) (wfq_path req) (m\<lparr>md_size := 0\<rparr>))) (\<lambda>update_result.
      case update_result of Inl _ \<Rightarrow> write_file_reply env req ServerError | Inr _ \<Rightarrow> write_file_reply env req Success)) ?Q ?E t"
    if "wfq_chunk_count req = 0" "md_obj_id m \<noteq> []"
  proof -
    obtain r st where r: "update_metadata (env_host env) (wfq_path req) (m\<lparr>md_size := 0\<rparr>) (mw_store t) = (r, st)" by fastforce
    show ?thesis
    proof (cases r)
      case (Inl e)
      with no [of "t\<lparr>mw_store := st\<rparr>"] r t(1) show ?thesis by (simp add: wp_then on_store_def wp_step)
    next
      case (Inr x)
      have "content = []" using that(1) content(3) by simp
      with update_gives r Inr that(2) t have "write_started (wfq_path req) c rid content s (t\<lparr>mw_store := st\<rparr>)"
        by (fastforce simp: write_started_def)
      with write_accepted [OF env, of req s "t\<lparr>mw_store := st\<rparr>" "wfq_path req" content ?E] rest t r Inr
      show ?thesis by (simp add: wp_then on_store_def wp_step c_def rid_def)
    qed
  qed
  have bind: "wp (act_then (on_store f) (\<lambda>bind_result. case bind_result of Inl _ \<Rightarrow> write_file_reply env req ServerError
      | Inr (_ :: unit) \<Rightarrow> start_write env req m' (placement (mw_nodes t) ! 0) (placement (mw_nodes t) ! 1))) ?Q ?E t"
    if "wfq_chunk_count req \<noteq> 0" "\<not> length (placement (mw_nodes t)) < 2" "md_obj_id m' = md_obj_id m" for f m'
  proof -
    have l: "2 \<le> length (placement (mw_nodes t))" using that(2) by simp
    obtain r st where r: "f (mw_store t) = (r, st)" by fastforce
    show ?thesis
    proof (cases r)
      case (Inl e)
      with no [of "t\<lparr>mw_store := st\<rparr>"] r t(1) show ?thesis by (simp add: wp_then on_store_def wp_step)
    next
      case (Inr x)
      with start [of "t\<lparr>mw_store := st\<rparr>" "placement (mw_nodes t) ! 0" "placement (mw_nodes t) ! 1" m'] placement_replicas [OF t(4) l] r t that
      show ?thesis by (simp add: wp_then on_store_def wp_step)
    qed
  qed
  have read: "wp (act_then (act_get f) g) ?Q ?E t = wp (g (f t)) ?Q ?E t" for f g by (simp add: wp_then wp_get)
  have either: "(b \<Longrightarrow> wp m' ?Q ?E t) \<Longrightarrow> (\<not> b \<Longrightarrow> wp n ?Q ?E t) \<Longrightarrow> wp (if b then m' else n) ?Q ?E t" for b m' n by simp
  have now: "sent t = sent s" using t(1) by simp
  show ?thesis
    unfolding write_file_with_def Let_def
    apply (rule either, rule no, rule now)
    apply (rule either, rule no, rule now)
    apply (rule either, rule no, rule now)
    apply (rule either, rule empty, assumption+)
    apply (unfold read)
    apply (rule either)
     apply (rule either, rule no, rule now)
     apply (rule start; use t in simp)
    apply (rule either, rule no, rule now)
    apply (rule bind; simp)
    done
qed

lemma write_file_handled:
  fixes s :: "'e MetadataWorker" and req :: WriteFileRequest
  defines "c \<equiv> peer_id (ctx_sender (wfq_context req))" and "rid \<equiv> ctx_request_id (wfq_context req)"
  assumes env: "env_outside env = out" and rest: "at_rest c s" and nodes: "nodes_ok (mw_nodes s)"
    and content: "length content < 2 ^ 64" "wfq_file_size req = word_of_nat (length content)"
    and ids: "\<And>m. get_metadata (wfq_path req) (mw_store s) = Inr m \<Longrightarrow> good_id (md_obj_id m)"
  shows "\<exists>s'. handle_write_file env req s = (Inr (), s') \<and> write_answered (wfq_path req) c rid content s s'"
proof -
  let ?Q = "\<lambda>_. write_answered (wfq_path req) c rid content s" and ?E = "\<lambda>_ _. False"
  have no: "wp (write_file_reply env req ServerError) ?Q ?E s"
    using write_refused [of s s ServerError env req "wfq_path req" content ?E] by (simp add: c_def rid_def)
  have "wp (handle_write_file env req) ?Q ?E s"
  proof (cases "chunks_for (wfq_file_size req) = ucast (wfq_chunk_count req)")
    case True
    have "unat (wfq_file_size req) = length content" using content by (simp add: unat_of_nat)
    then have count: "unat (wfq_chunk_count req) = count_chunks (length content)"
      using arg_cong [OF True, of unat] chunk_count_nat [of "wfq_file_size req"] by (simp add: chunks_for_def unat_ucast_32_64)
    have with_m: "wp (write_file_with env req m) ?Q ?E t"
      if "mw_net t = mw_net s" "pending_reads t = pending_reads s" "pending_writes t = pending_writes s" "mw_nodes t = mw_nodes s" "good_id (md_obj_id m)" for t m
      using write_file_with_answered [OF env, of req s t content m] rest that nodes content count by (simp add: c_def rid_def)
    have fresh: "wp (act_then (new_object_id env) (\<lambda>oid. write_file_with env req (file_entry (wfq_path req) 0 oid [] []))) ?Q ?E s"
    proof -
      obtain high low where d: "env_draw env (mw_draws s) = (high, low)" by fastforce
      have "good_id (md_obj_id (file_entry (wfq_path req) 0 (generate high low) [] []))" by (simp add: file_entry_def generated_good)
      with with_m [of "s\<lparr>mw_draws := mw_draws s + 1\<rparr>"] d show ?thesis by (simp add: wp_then new_object_id_def wp_step)
    qed
    show ?thesis
    proof (cases "get_metadata (wfq_path req) (mw_store s)")
      case (Inl e)
      with no fresh True show ?thesis by (simp add: handle_write_file_def wp_then wp_get)
    next
      case (Inr m)
      with with_m [of s m] ids True show ?thesis by (simp add: handle_write_file_def wp_then wp_get)
    qed
  qed (use no in \<open>simp add: handle_write_file_def\<close>)
  then show ?thesis by (auto simp: wp_def split: prod.splits sum.splits)
qed

end

end
