(* ===== verification/Reading.thy ===== *)
theory Reading
  imports Sessions
begin

text \<open>
  Reading a file back on the metadata worker: a chunk is fetched from the first replica that
  gives it, so one replica that runs and can be read is enough, and whatever a replica that
  holds the object gives is the right chunk.
\<close>

section \<open>One read of an object\<close>

lemma open_in_unfailed: "open_in f d p = Inr c \<Longrightarrow> open_in no_faults d p = Inr c"
  by (auto simp: open_in_def no_faults_def split: if_splits sum.splits option.splits node.splits)

lemma read_success_unfailed:
  assumes "read_object h g w = (StSuccess, bs)"
  shows "read_object (h\<lparr>sh_faults := no_faults\<rparr>) g w = (StSuccess, bs)"
proof -
  let ?p = "object_path w (gtq_object_id g)"
  have never: "fails no_faults x l = False" for x l by (simp add: no_faults_def)
  show ?thesis
  proof (cases "open_in (sh_faults h) (sw_disk w) ?p")
    case (Inr c)
    note * = Inr open_in_unfailed [OF Inr]
    have sel: "sh_faults (h\<lparr>sh_faults := no_faults\<rparr>) = no_faults" by simp
    show ?thesis using assms unfolding read_object_def Let_def sel *
      by (simp only: sum.case never split: if_splits) auto
  next
    case (Inl e)
    with assms show ?thesis by (simp add: read_object_def Let_def split: if_splits)
  qed
qed

lemma read_object_length: "length (snd (read_object h g w)) \<le> 524288"
proof (cases "gtq_byte_count g > CHUNK_SIZE")
  case False
  then have bound: "unat (gtq_byte_count g) \<le> 524288" by (simp add: not_less word_le_nat_alt CHUNK_SIZE_nat)
  have "unat (min (ucast (gtq_byte_count g)) n) \<le> 524288" for n :: u64
    using bound by (simp add: min_def word_le_nat_alt unat_ucast_32_64)
  then have "length (take (unat (min (ucast (gtq_byte_count g)) n)) xs) \<le> 524288" for n :: u64 and xs :: "byte list"
    by (simp add: min.coboundedI2)
  then show ?thesis by (simp add: read_object_def Let_def del: length_take split: sum.split)
qed (simp add: read_object_def)

definition get_of :: "string \<Rightarrow> nat \<Rightarrow> nat \<Rightarrow> GetRequest" where
  "get_of oid k n = \<lparr>gtq_object_id = oid, gtq_chunk_index = word_of_nat k, gtq_byte_count = word_of_nat n, gtq_context = empty_context\<rparr>"

definition readable :: "StorageHost \<Rightarrow> bool" where
  "readable h \<longleftrightarrow> (\<forall>p. \<not> fails (sh_faults h) Sys_open p \<and> \<not> fails (sh_faults h) Sys_read p)"

lemma read_chunk_back:
  assumes w: "worker_inv w" "proper_id oid" "committed w oid = Some content"
    and k: "length content < 2 ^ 64" "k < count_chunks (length content)" "k < 2 ^ 32"
    and n: "n = min 524288 (length content - k * 524288)"
  shows "readable h \<Longrightarrow> read_object h (get_of oid k n) w = (StSuccess, chunk k content)"
    and "fst (read_object h (get_of oid k n) w) = StSuccess \<Longrightarrow> snd (read_object h (get_of oid k n) w) = chunk k content"
proof -
  have i: "unat (word_of_nat k :: u32) = k" "unat (word_of_nat n :: u32) = n" using k(3) n by (simp_all add: unat_of_nat)
  have off: "k * 524288 < length content" using k(2) by (simp add: count_chunks_less)
  have slice: "read_object h (get_of oid k n) w = (StSuccess, chunk k content)" if "readable h" for h
  proof -
    have "read_object h (get_of oid k n) w = (StSuccess, take n (drop (k * 524288) content))"
      using read_object_slice [of h w oid content "get_of oid k n"] that w k(1) off i n
      by (simp add: readable_def get_of_def CHUNK_SIZE_nat word_le_nat_alt)
    also have "take n (drop (k * 524288) content) = chunk k content"
      using n by (simp add: chunk_def min_def)
    finally show ?thesis .
  qed
  then show "readable h \<Longrightarrow> read_object h (get_of oid k n) w = (StSuccess, chunk k content)" .
  assume ok: "fst (read_object h (get_of oid k n) w) = StSuccess"
  then have "read_object (h\<lparr>sh_faults := no_faults\<rparr>) (get_of oid k n) w = (StSuccess, snd (read_object h (get_of oid k n) w))"
    by (intro read_success_unfailed) (metis prod.collapse)
  moreover have "readable (h\<lparr>sh_faults := no_faults\<rparr>)" by (simp add: readable_def no_faults_def)
  ultimately show "snd (read_object h (get_of oid k n) w) = chunk k content" using slice by simp
qed

section \<open>Fetching a chunk\<close>

text \<open>What fetching leaves alone: all but the network and the counter of its requests.\<close>

definition only_fetch :: "'e MetadataWorker \<Rightarrow> 'e MetadataWorker \<Rightarrow> bool" where
  "only_fetch s s' \<longleftrightarrow> s' = s\<lparr>mw_net := mw_net s', current_storage_request_id := current_storage_request_id s'\<rparr>"

lemma only_fetch_trans: "only_fetch s t \<Longrightarrow> only_fetch t u \<Longrightarrow> only_fetch s u"
  by (cases s; cases t; cases u) (simp add: only_fetch_def)

lemma only_fetchD:
  "only_fetch s s' \<Longrightarrow> mw_store s' = mw_store s" "only_fetch s s' \<Longrightarrow> pending_writes s' = pending_writes s"
  "only_fetch s s' \<Longrightarrow> pending_reads s' = pending_reads s" "only_fetch s s' \<Longrightarrow> mw_nodes s' = mw_nodes s"
  by (cases s; cases s'; simp add: only_fetch_def)+

text \<open>One round of \<open>fetch_chunk\<close>: the request to one replica and what came of it.\<close>

definition ask :: "'e Env \<Rightarrow> string \<Rightarrow> u32 \<Rightarrow> u32 \<Rightarrow> NodeId \<Rightarrow> ('e, byte list option) worker_act" where
  "ask env oid index n replica =
     act_then next_storage_request_id (\<lambda>rid.
     act_then (act_lift (encode_get_request rid \<lparr>gtq_object_id = oid, gtq_chunk_index = index,
         gtq_byte_count = n, gtq_context = empty_context\<rparr>)) (\<lambda>frame.
     act_then (send env replica frame) (\<lambda>_.
     act_then (receive_if env (make_message_is storage_rpc rid GET Response replica (chunk_index_is index))) (\<lambda>message.
     act_return (case message of
       None \<Rightarrow> None
     | Some m \<Rightarrow>
         (case and_then (read_message storage_rpc m) decode_get_response of
            Inl _ \<Rightarrow> None
          | Inr response \<Rightarrow>
              if gtr_status response \<noteq> StSuccess \<or> gtr_chunk_index response \<noteq> index
                 \<or> length (gtr_data response) \<noteq> unat n
              then None else Some (gtr_data response)))))))"

lemma fetch_chunk_asks:
  "fetch_chunk env oid index n (replica # replicas) =
     act_then (act_get (\<lambda>s. node_available (mw_nodes s) replica)) (\<lambda>usable.
     if \<not> usable then fetch_chunk env oid index n replicas
     else act_then (ask env oid index n replica) (\<lambda>result.
       case result of None \<Rightarrow> fetch_chunk env oid index n replicas | Some data \<Rightarrow> act_return (Some data)))"
  unfolding fetch_chunk.simps ask_def then_assoc
  by (intro arg_cong2 [where f = act_then] ext refl if_cong)
    (auto simp: act_then_def act_return_def fun_eq_iff split: option.split sum.split)

section \<open>The responses to a reader\<close>

definition read_file_frame :: "u64 \<Rightarrow> ClientStatus \<Rightarrow> u64 \<Rightarrow> u32 \<Rightarrow> Frame" where
  "read_file_frame rid st n k =
     rpc_frame client_rpc rid READ_FILE Response ([client_status_to_u8 st] @ be_bytes 8 n @ be_bytes 4 k)"

lemma read_file_replies:
  "read_file_reply env req st n k w = (Inr (), w\<lparr>mw_net := post_frame (env_outside env) (peer_id (ctx_sender (rfq_context req)))
     (read_file_frame (ctx_request_id (rfq_context req)) st n k) (mw_net w)\<rparr>)"
  by (simp add: read_file_reply_def read_file_frame_def
      respond_run [where enc = encode_read_file_response, OF read_file_response.enc_frame])

definition read_chunk_frame :: "u64 \<Rightarrow> u32 \<Rightarrow> ClientStatus \<Rightarrow> byte list \<Rightarrow> Frame" where
  "read_chunk_frame rid i st bytes =
     rpc_frame client_rpc rid READ_CHUNK Response (be_bytes 4 i @ [client_status_to_u8 st] @ bytes)"

text \<open>The entry of a file, as far as reading needs it, and the transfer that a read starts.\<close>

definition describes :: "FileMetadata \<Rightarrow> byte list \<Rightarrow> bool" where
  "describes m content \<longleftrightarrow> md_obj_id m \<noteq> [] \<and> md_size m = word_of_nat (length content) \<and> length content < 2 ^ 64
     \<and> count_chunks (length content) < 2 ^ 32
     \<and> (content \<noteq> [] \<longrightarrow> good_id (md_obj_id m) \<and> md_replica_0 m \<noteq> [] \<and> md_replica_1 m \<noteq> [] \<and> md_replica_0 m \<noteq> md_replica_1 m)"

definition read_entry :: "path \<Rightarrow> FileMetadata \<Rightarrow> nat \<Rightarrow> Pending" where
  "read_entry p m k = \<lparr>pd_path = p, pd_object_id = md_obj_id m, pd_file_size = md_size m,
     pd_chunk_count = ucast (chunks_for (md_size m)), pd_next_chunk = word_of_nat k,
     pd_replica_0 = md_replica_0 m, pd_replica_1 = md_replica_1 m\<rparr>"

lemma describes_count:
  assumes "describes m content"
  shows "unat (md_size m) = length content" "unat (chunks_for (md_size m)) = count_chunks (length content)"
    "unat (ucast (chunks_for (md_size m)) :: u32) = count_chunks (length content)" "\<not> chunks_for (md_size m) > ucast (- 1 :: u32)"
    "md_size m = 0 \<longleftrightarrow> content = []" "chunks_for (md_size m) = 0 \<longleftrightarrow> content = []"
proof -
  show n: "unat (md_size m) = length content" using assms by (simp add: describes_def unat_of_nat)
  show k: "unat (chunks_for (md_size m)) = count_chunks (length content)"
    unfolding chunks_for_def n [symmetric] by (rule chunk_count_nat)
  have small: "count_chunks (length content) < 2 ^ 32" using assms by (simp add: describes_def)
  with k show "unat (ucast (chunks_for (md_size m)) :: u32) = count_chunks (length content)"
    by (simp add: unsigned_ucast_eq unsigned_take_bit_eq take_bit_nat_eq_self)
  show "\<not> chunks_for (md_size m) > ucast (- 1 :: u32)"
    using k small by (simp add: not_less word_le_nat_alt unat_ucast_32_64 unsigned_minus_1_eq_mask mask_eq_exp_minus_1)
  show "md_size m = 0 \<longleftrightarrow> content = []" using n by (metis length_0_conv unat_eq_zero)
  show "chunks_for (md_size m) = 0 \<longleftrightarrow> content = []" using k by (metis count_chunks_0 length_0_conv unat_eq_zero)
qed

context storage_service
begin

definition holds :: "'e \<Rightarrow> string \<Rightarrow> byte list \<Rightarrow> NodeId \<Rightarrow> bool" where
  "holds e oid content r \<longleftrightarrow> (\<forall>v. workers e r = Some v \<longrightarrow> committed v oid = Some content)"

definition gives :: "'e \<Rightarrow> NodeId \<Rightarrow> bool" where
  "gives e r \<longleftrightarrow> workers e r \<noteq> None \<and> (\<forall>h. admits r h \<longrightarrow> readable h)"

lemma ask_outcome:
  assumes env: "env_outside env = out" and start: "net_queue (mw_net s) = []" "sound (net_outside (mw_net s))"
    and holds: "holds (net_outside (mw_net s)) oid content r" and oid: "good_id oid"
    and k: "length content < 2 ^ 64" "k < count_chunks (length content)" "k < 2 ^ 32"
    and n: "n = min 524288 (length content - k * 524288)"
  shows "\<exists>res s' posted. ask env oid (word_of_nat k) (word_of_nat n) r s = (Inr res, s') \<and> only_fetch s s'
    \<and> sent s' = sent s @ posted \<and> net_queue (mw_net s') = [] \<and> sound (net_outside (mw_net s'))
    \<and> workers (net_outside (mw_net s')) = workers (net_outside (mw_net s))
    \<and> (res = None \<or> res = Some (chunk k content))
    \<and> (gives (net_outside (mw_net s)) r \<longrightarrow> res = Some (chunk k content))"
proof -
  let ?rid = "current_storage_request_id s + 1" and ?e = "net_outside (mw_net s)" and ?g = "get_of oid k n"
  let ?c = "get_call self ?rid ?g" and ?W = "workers (net_outside (mw_net s))"
  have "call_ok ?c" using oid by (simp add: call_ok_def get_call_def get_of_def good_id_def)
  moreover have "call_sender ?c = self" by (simp add: get_call_def)
  ultimately obtain H ms e' where x: "meanwhile out [] (deliver out r (call_frame ?c) ?e) = (ms, e')"
    "mset ms = mset (replies_of H ?W [(r, ?c)])" "\<forall>n. admits n (H n)" "ready e'" "workers e' = after_calls H [(r, ?c)] ?W"
    using exchange [of ?e "[(r, ?c)]" "[]"] start(2) by (auto simp: sound_def)
  have "snd (answer h ?c w) = w" for h w
    by (cases "read_object h ?g w") (simp add: answer_def get_call_def)
  then have same: "workers e' = ?W"
    unfolding x(5) by (intro ext) (simp add: after_calls_def option.map_ident split: option.split)
  let ?P = "make_message_is storage_rpc ?rid GET Response r (chunk_index_is (word_of_nat k))"
  define sent' where "sent' = sent s @ [(r, call_frame ?c)]"
  have frame: "encode_get_request ?rid \<lparr>gtq_object_id = oid, gtq_chunk_index = word_of_nat k,
      gtq_byte_count = word_of_nat n, gtq_context = empty_context\<rparr> = Inr (call_frame ?c)"
    using get_frame [of ?rid ?g self] by (simp add: get_of_def)
  define result where "result = (\<lambda>message. case message of
       None \<Rightarrow> None
     | Some m \<Rightarrow>
         (case and_then (read_message storage_rpc m) decode_get_response of
            Inl _ \<Rightarrow> None
          | Inr response \<Rightarrow>
              if gtr_status response \<noteq> StSuccess \<or> gtr_chunk_index response \<noteq> word_of_nat k
                 \<or> length (gtr_data response) \<noteq> unat (word_of_nat n :: u32)
              then None else Some (gtr_data response)))"
  have run: "ask env oid (word_of_nat k) (word_of_nat n) r s =
    (case pop_if ?P ms of (m, q) \<Rightarrow> (Inr (result m),
       s\<lparr>current_storage_request_id := ?rid, mw_net := \<lparr>net_queue = q, net_sent = sent', net_outside = e'\<rparr>\<rparr>))"
    using x(1) env start(1)
    by (simp add: ask_def act_then_def next_storage_request_id_def act_step_def Let_def act_lift_def frame send_def act_modify_def
        receive_if_def await_if_def post_frame_def act_return_def result_def [symmetric] sent'_def split: prod.split)
  have e': "sound e'" using start(2) x(4) same by (simp add: sound_def)
  show ?thesis
  proof (cases "?W r")
    case None
    then have "ms = []" using x(2) by (simp add: replies_of_def)
    with run None e' same show ?thesis
      by (simp add: pop_if_def result_def only_fetch_def sent'_def gives_def)
  next
    case (Some w)
    let ?m = "reply_to (H r) ?c w r" and ?st = "fst (read_object (H r) ?g w)" and ?bs = "snd (read_object (H r) ?g w)"
    have ms: "ms = [?m]" using x(2) Some by (simp add: replies_of_def)
    have fits: "body_fits (?bs @ replicate 5 0)" using read_object_length [of "H r" ?g w] by (simp add: body_fits_def)
    have "?P ?m" using get_reply_matches [OF fits, of ?rid r self r] by (simp add: get_of_def)
    then have pop: "pop_if ?P ms = (Some ?m, [])" by (simp add: ms pop_if_def)
    have inv: "worker_inv w" "proper_id oid" "committed w oid = Some content"
      using start(2) Some holds oid by (simp_all add: sound_def holds_def good_id_def)
    note given = read_chunk_back [OF inv k n]
    have len: "length (chunk k content) = unat (word_of_nat n :: u32)"
      using n by (simp add: length_chunk unat_of_nat)
    have res: "result (Some ?m) = (if ?st = StSuccess then Some (chunk k content) else None)"
      using get_reply_reads [OF fits, of self ?rid r] given(2) [of "H r"] len by (simp add: result_def get_of_def)
    have "?st = StSuccess" if "gives ?e r"
      using that x(3) given(1) [of "H r"] by (simp add: gives_def)
    with run pop res e' same show ?thesis by (auto simp: only_fetch_def sent'_def)
  qed
qed

lemma fetch_outcome:
  assumes env: "env_outside env = out" and oid: "good_id oid"
    and k: "length content < 2 ^ 64" "k < count_chunks (length content)" "k < 2 ^ 32"
    and n: "n = min 524288 (length content - k * 524288)"
  shows "net_queue (mw_net s) = [] \<Longrightarrow> sound (net_outside (mw_net s)) \<Longrightarrow>
    \<forall>r \<in> set rs. holds (net_outside (mw_net s)) oid content r \<Longrightarrow>
    \<exists>res s' posted. fetch_chunk env oid (word_of_nat k) (word_of_nat n) rs s = (Inr res, s') \<and> only_fetch s s'
    \<and> sent s' = sent s @ posted \<and> net_queue (mw_net s') = [] \<and> sound (net_outside (mw_net s'))
    \<and> workers (net_outside (mw_net s')) = workers (net_outside (mw_net s))
    \<and> (res = None \<or> res = Some (chunk k content))
    \<and> ((\<exists>r \<in> set rs. node_available (mw_nodes s) r \<and> gives (net_outside (mw_net s)) r) \<longrightarrow> res = Some (chunk k content))"
proof (induction rs arbitrary: s)
  case Nil
  then show ?case by (simp add: act_return_def only_fetch_def)
next
  case (Cons r rs)
  show ?case
  proof (cases "node_available (mw_nodes s) r")
    case False
    with Cons.IH [of s] Cons.prems show ?thesis by (auto simp: fetch_chunk_asks act_then_def act_get_def simp del: fetch_chunk.simps)
  next
    case True
    from ask_outcome [OF env Cons.prems(1,2) _ oid k n, of r] Cons.prems(3) obtain res s1 posted where s1:
      "ask env oid (word_of_nat k) (word_of_nat n) r s = (Inr res, s1)" "only_fetch s s1" "sent s1 = sent s @ posted"
      "net_queue (mw_net s1) = []" "sound (net_outside (mw_net s1))"
      "workers (net_outside (mw_net s1)) = workers (net_outside (mw_net s))" "res = None \<or> res = Some (chunk k content)"
      "gives (net_outside (mw_net s)) r \<longrightarrow> res = Some (chunk k content)" by auto
    have step: "fetch_chunk env oid (word_of_nat k) (word_of_nat n) (r # rs) s =
      (case res of None \<Rightarrow> fetch_chunk env oid (word_of_nat k) (word_of_nat n) rs s1 | Some data \<Rightarrow> (Inr (Some data), s1))"
      using True s1(1) by (simp add: fetch_chunk_asks act_then_def act_get_def act_return_def del: fetch_chunk.simps split: option.split)
    show ?thesis
    proof (cases res)
      case None
      have "\<forall>r \<in> set rs. holds (net_outside (mw_net s1)) oid content r" using Cons.prems(3) s1(6) by (simp add: holds_def)
      from Cons.IH [OF s1(4,5) this] obtain res' s2 posted' where s2:
        "fetch_chunk env oid (word_of_nat k) (word_of_nat n) rs s1 = (Inr res', s2)" "only_fetch s1 s2" "sent s2 = sent s1 @ posted'"
        "net_queue (mw_net s2) = []" "sound (net_outside (mw_net s2))"
        "workers (net_outside (mw_net s2)) = workers (net_outside (mw_net s1))" "res' = None \<or> res' = Some (chunk k content)"
        "(\<exists>r \<in> set rs. node_available (mw_nodes s1) r \<and> gives (net_outside (mw_net s1)) r) \<longrightarrow> res' = Some (chunk k content)" by blast
      have "gives (net_outside (mw_net s1)) x = gives (net_outside (mw_net s)) x" for x using s1(6) by (simp add: gives_def)
      with s2 s1(3,6,8) only_fetchD(4) [OF s1(2)] None only_fetch_trans [OF s1(2) s2(2)] step show ?thesis
        by (intro exI [of _ res'] exI [of _ s2] exI [of _ "posted @ posted'"]) auto
    next
      case (Some data)
      with s1 step show ?thesis by auto
    qed
  qed
qed

definition both_hold :: "'e \<Rightarrow> FileMetadata \<Rightarrow> byte list \<Rightarrow> bool" where
  "both_hold e m content \<longleftrightarrow> (\<forall>r \<in> {md_replica_0 m, md_replica_1 m}. holds e (md_obj_id m) content r)"

definition one_gives :: "'e MetadataWorker \<Rightarrow> FileMetadata \<Rightarrow> bool" where
  "one_gives s m \<longleftrightarrow> (\<exists>r \<in> {md_replica_0 m, md_replica_1 m}. node_available (mw_nodes s) r \<and> gives (net_outside (mw_net s)) r)"

lemma read_file_handled:
  fixes s :: "'e MetadataWorker" and req :: ReadFileRequest
  defines "c \<equiv> peer_id (ctx_sender (rfq_context req))" and "rid \<equiv> ctx_request_id (rfq_context req)"
  assumes m: "get_metadata (rfq_path req) (mw_store s) = Inr m" "describes m content"
    and free: "\<not> being_written (rfq_path req) (pending_writes s)" "find_pending c rid (pending_reads s) = None"
    and one: "content \<noteq> [] \<Longrightarrow> one_gives s m"
  shows "handle_read_file env req s = (Inr (), s\<lparr>
    pending_reads := (if content = [] then pending_reads s else snd (emplace_pending c rid (read_entry (rfq_path req) m 0) (pending_reads s))),
    mw_net := post_frame (env_outside env) c (read_file_frame rid Success (md_size m) (ucast (chunks_for (md_size m)))) (mw_net s)\<rparr>)"
proof -
  note count = describes_count [OF m(2)]
  have usable: "list_ex (node_available (mw_nodes s)) [md_replica_0 m, md_replica_1 m]" if "content \<noteq> []"
    using one [OF that] by (auto simp: one_gives_def)
  have parts: "md_obj_id m \<noteq> []" "content \<noteq> [] \<Longrightarrow> md_replica_0 m \<noteq> [] \<and> md_replica_1 m \<noteq> [] \<and> md_replica_0 m \<noteq> md_replica_1 m"
    using m(2) by (auto simp: describes_def)
  let ?p = "\<lparr>pd_path = rfq_path req, pd_object_id = md_obj_id m, pd_file_size = md_size m,
          pd_chunk_count = ucast (chunks_for (md_size m)), pd_next_chunk = 0,
          pd_replica_0 = md_replica_0 m, pd_replica_1 = md_replica_1 m\<rparr>"
  have entry: "?p = read_entry (rfq_path req) m 0" by (simp add: read_entry_def)
  obtain t where em: "emplace_pending c rid ?p (pending_reads s) = (True, t)"
    using find_emplace [OF free(2), of c rid ?p] by (cases "emplace_pending c rid ?p (pending_reads s)") auto
  have start: "handle_read_file env req s = start_read env req m (chunks_for (md_size m)) s"
    using m(1) free(1) parts usable count(4-6)
    by (auto simp: handle_read_file_def act_then_def act_get_def Let_def)
  show ?thesis
  proof (cases "content = []")
    case True
    with count(6) show ?thesis unfolding start by (simp add: start_read_def read_file_replies c_def rid_def)
  next
    case False
    with count(6) em show ?thesis
      unfolding start start_read_def Let_def entry [symmetric]
      by (simp add: act_then_def act_step_def read_file_replies c_def rid_def)
  qed
qed

lemma both_hold_same: "workers e' = workers e \<Longrightarrow> both_hold e' m content = both_hold e m content"
  by (simp add: both_hold_def holds_def)

lemma next_chunk_fetched:
  fixes s :: "'e MetadataWorker" and req :: ReadChunkRequest
  assumes env: "env_outside env = out" and start: "net_queue (mw_net s) = []" "sound (net_outside (mw_net s))"
    and m: "describes m content" "k < count_chunks (length content)" "both_hold (net_outside (mw_net s)) m content" "one_gives s m"
  shows "\<exists>s' posted. fetch_chunk env (md_obj_id m) (word_of_nat k) (ucast (chunk_length (md_size m) (word_of_nat k)))
      [md_replica_0 m, md_replica_1 m] s = (Inr (Some (chunk k content)), s')
    \<and> only_fetch s s' \<and> sent s' = sent s @ posted \<and> net_queue (mw_net s') = [] \<and> sound (net_outside (mw_net s'))
    \<and> workers (net_outside (mw_net s')) = workers (net_outside (mw_net s))"
proof -
  note count = describes_count [OF m(1)]
  have small: "length content < 2 ^ 64" "count_chunks (length content) < 2 ^ 32" using m(1) by (simp_all add: describes_def)
  with m(2) have k: "k < 2 ^ 32" by simp
  then have i: "unat (word_of_nat k :: u32) = k" by (simp add: unat_of_nat)
  have off: "k * 524288 < length content" using m(2) by (simp add: count_chunks_less)
  let ?n = "min 524288 (length content - k * 524288)"
  have "unat (chunk_length (md_size m) (word_of_nat k)) = ?n"
    using chunk_length_nat [of "word_of_nat k" "md_size m"] i off count(1) by (simp add: chunk_length_def)
  then have n: "ucast (chunk_length (md_size m) (word_of_nat k)) = (word_of_nat ?n :: u32)"
    by (metis of_nat_unat)
  have "content \<noteq> []" using off by auto
  then have oid: "good_id (md_obj_id m)" using m(1) by (simp add: describes_def)
  have "\<exists>r \<in> set [md_replica_0 m, md_replica_1 m]. node_available (mw_nodes s) r \<and> gives (net_outside (mw_net s)) r"
    using m(4) by (auto simp: one_gives_def)
  moreover have "\<forall>r \<in> set [md_replica_0 m, md_replica_1 m]. holds (net_outside (mw_net s)) (md_obj_id m) content r"
    using m(3) by (auto simp: both_hold_def)
  ultimately show ?thesis
    using fetch_outcome [OF env oid small(1) m(2) k refl start] unfolding n by blast
qed

lemma read_chunk_handled:
  fixes s :: "'e MetadataWorker" and req :: ReadChunkRequest
  defines "c \<equiv> peer_id (ctx_sender (rcq_context req))" and "rid \<equiv> ctx_request_id (rcq_context req)"
  assumes env: "env_outside env = out" and rest: "at_rest c s"
    and entry: "find_pending c rid (pending_reads s) = Some (read_entry p m k)" and req: "rcq_chunk_index req = word_of_nat k"
    and m: "describes m content" "k < count_chunks (length content)" "both_hold (net_outside (mw_net s)) m content" "one_gives s m"
  shows "\<exists>s' posted. handle_read_chunk env req s = (Inr (), s')
    \<and> sent s' = sent s @ posted @ [(c, read_chunk_frame rid (word_of_nat k) Success (chunk k content))]
    \<and> at_rest c s' \<and> workers (net_outside (mw_net s')) = workers (net_outside (mw_net s))
    \<and> mw_store s' = mw_store s \<and> pending_writes s' = pending_writes s \<and> mw_nodes s' = mw_nodes s
    \<and> pending_reads s' = (if Suc k = count_chunks (length content) then discard_pending c rid (advance_pending c rid (pending_reads s))
        else advance_pending c rid (pending_reads s))"
proof -
  note count = describes_count [OF m(1)]
  from rest have start: "net_queue (mw_net s) = []" "sound (net_outside (mw_net s))" "workers (net_outside (mw_net s)) c = None"
    by (simp_all add: at_rest_def)
  from next_chunk_fetched [OF env start(1,2) m] obtain s1 posted where s1:
    "fetch_chunk env (md_obj_id m) (word_of_nat k) (ucast (chunk_length (md_size m) (word_of_nat k)))
      [md_replica_0 m, md_replica_1 m] s = (Inr (Some (chunk k content)), s1)"
    "only_fetch s s1" "sent s1 = sent s @ posted" "net_queue (mw_net s1) = []" "sound (net_outside (mw_net s1))"
    "workers (net_outside (mw_net s1)) = workers (net_outside (mw_net s))" by blast
  from index_below [of k "ucast (chunks_for (md_size m))"] m(2) count(3)
  have i: "(word_of_nat k :: u32) < ucast (chunks_for (md_size m))" "unat (word_of_nat k :: u32) = k" by simp_all
  have final: "word_of_nat k + 1 = (ucast (chunks_for (md_size m)) :: u32) \<longleftrightarrow> Suc k = count_chunks (length content)"
    using counts_up [OF i(1)] i(2) count(3) word_unat_eq_iff [of "word_of_nat k + 1" "ucast (chunks_for (md_size m)) :: u32"] by simp
  let ?t = "if Suc k = count_chunks (length content) then discard_pending c rid (advance_pending c rid (pending_reads s))
        else advance_pending c rid (pending_reads s)"
  let ?s = "s1\<lparr>pending_reads := ?t,
    mw_net := post_frame out c (read_chunk_frame rid (word_of_nat k) Success (chunk k content)) (mw_net s1)\<rparr>"
  note parts = only_fetchD [OF s1(2)]
  have run: "handle_read_chunk env req s = (Inr (), ?s)"
    using entry i(1) env parts(3)
    by (simp add: handle_read_chunk_def act_then_def act_get_def c_def rid_def read_chunk_of_def read_entry_def req s1(1) Let_def
        act_modify_def act_lift_def read_chunk_response.enc_frame read_chunk_frame_def discard_read_def act_return_def send_def final linorder_not_le [THEN iffD2, OF i(1)] del: fetch_chunk.simps)
  have "workers (net_outside (mw_net s1)) c = None" using start(3) s1(6) by simp
  note post = sound_elsewhere [OF s1(5) this]
  show ?thesis
    unfolding run using s1(3-6) start(3) post parts
    by (intro exI [of _ ?s] exI [of _ posted]) (simp add: at_rest_def, simp add: post_frame_def)
qed

end

end
