(* ===== verification/Saving.thy ===== *)
theory Saving
  imports StoreInvariant Acceptance
begin

text \<open>
  When the metadata store can save an entry: on a host whose calls succeed, nothing lies in the
  way of its file, and after it was saved it can be saved again.
\<close>

lemma make_directories_works:
  assumes "\<And>pre c. prefix pre names \<Longrightarrow> node_at d (made @ pre) \<noteq> Some (File c)"
  shows "\<exists>d'. make_directories no_faults d made names = (None, d')
    \<and> (\<forall>l. (\<forall>pre. prefix pre names \<longrightarrow> l \<noteq> made @ pre) \<longrightarrow> node_at d' l = node_at d l)"
  using assms
proof (induction names arbitrary: d made)
  case (Cons n ns)
  let ?here = "made @ [n]"
  have free: "node_at d (?here @ pre) \<noteq> Some (File c)" if "prefix pre ns" for pre c
    using Cons.prems [of "n # pre" c] that by simp
  show ?case
  proof (cases "node_at d ?here")
    case None
    let ?e = "AList.update ?here Dir d"
    have "node_at ?e (?here @ pre) \<noteq> Some (File c)" if "prefix pre ns" for pre c
      using free [OF that, of c] by (cases "pre = []") simp_all
    from Cons.IH [of ?e ?here, OF this] obtain d' where d': "make_directories no_faults ?e ?here ns = (None, d')"
      "\<forall>l. (\<forall>pre. prefix pre ns \<longrightarrow> l \<noteq> ?here @ pre) \<longrightarrow> node_at d' l = node_at ?e l" by blast
    have "node_at d' l = node_at d l" if "\<forall>pre. prefix pre (n # ns) \<longrightarrow> l \<noteq> made @ pre" for l
    proof -
      have "l \<noteq> ?here @ pre" if "prefix pre ns" for pre
        using that \<open>\<forall>pre. prefix pre (n # ns) \<longrightarrow> l \<noteq> made @ pre\<close> [rule_format, of "n # pre"] by simp
      moreover from this [of "[]"] have "l \<noteq> ?here" by simp
      ultimately show ?thesis using d'(2) by simp
    qed
    with d'(1) None show ?thesis by (simp add: no_faults_def)
  next
    case (Some x)
    with free [of "[]"] have x: "x = Dir" by (cases x) auto
    from Cons.IH [of d ?here, OF free] obtain d' where d': "make_directories no_faults d ?here ns = (None, d')"
      "\<forall>l. (\<forall>pre. prefix pre ns \<longrightarrow> l \<noteq> ?here @ pre) \<longrightarrow> node_at d' l = node_at d l" by blast
    have "l \<noteq> ?here @ pre" if "prefix pre ns" "\<forall>pre. prefix pre (n # ns) \<longrightarrow> l \<noteq> made @ pre" for l pre
      using that(1) that(2) [rule_format, of "n # pre"] by simp
    with d' Some x show ?thesis by auto
  qed
qed simp

text \<open>Nothing on disk is in the way of the entry at \<open>p\<close>.\<close>

definition saveable :: "Store \<Rightarrow> path \<Rightarrow> bool" where
  "saveable s p \<longleftrightarrow> valid_filename p
     \<and> (let l = ms_directory s @ elems p in
        node_at (ms_disk s) l \<noteq> Some Dir \<and> node_at (ms_disk s) (temporary l) \<noteq> Some Dir
        \<and> (\<forall>q c. strict_prefix q l \<longrightarrow> node_at (ms_disk s) q \<noteq> Some (File c)))"

lemma strict_prefix_short: "strict_prefix q l \<Longrightarrow> length q < length l"
  by (simp add: prefix_length_less)

lemma prefix_butlast_strict: "l \<noteq> [] \<Longrightarrow> prefix q (butlast l) \<Longrightarrow> strict_prefix q l"
  by (metis append_butlast_last_id not_Cons_self2 prefixI prefix_order.dual_order.strict_trans2 prefix_order.le_neq_trans self_append_conv prefixeq_butlast prefix_order.less_le)

lemma strict_prefix_butlast: "strict_prefix q l \<Longrightarrow> prefix q (butlast l)"
  by (auto simp: strict_prefix_def prefix_def butlast_append)

lemma write_saved:
  assumes h: "host_faults h = no_faults" and inv: "store_inv s" and save: "saveable s p"
  shows "\<exists>d. write_metadata_file h p m s = (Inr (), s\<lparr>ms_disk := d\<rparr>) \<and> saveable (s\<lparr>ms_disk := d\<rparr>) p"
proof -
  define final where "final = ms_directory s @ elems p"
  define temp where "temp = temporary final"
  have valid: "valid_filename p" and free: "node_at (ms_disk s) final \<noteq> Some Dir" "node_at (ms_disk s) temp \<noteq> Some Dir"
    "\<And>q c. strict_prefix q final \<Longrightarrow> node_at (ms_disk s) q \<noteq> Some (File c)"
    using save by (auto simp: saveable_def Let_def final_def temp_def)
  note good = valid_good [OF valid]
  have ne: "final \<noteq> []" using good by (simp add: final_def good_key_def)
  have plain: "plain_path final" "plain_path temp" "plain_path (butlast final)"
    using store_invD(2) [OF inv] temporary_good(1) [OF good, of "ms_directory s"] temporary_good(3) [OF good]
      good plain_path_butlast [of final]
    by (auto simp: final_def temp_def good_key_def)
  have temp: "butlast temp = butlast final" "temp \<noteq> []" "length temp = length final" "temp \<noteq> final"
    using ne by (auto simp: temp_def temporary_def) (metis append_butlast_last_id last_snoc self_append_conv list.distinct(1))
  have "node_at (ms_disk s) ([] @ pre) \<noteq> Some (File c)" if "prefix pre (butlast final)" for pre c
    using free(3) [OF prefix_butlast_strict [OF ne that]] by simp
  from make_directories_works [of "butlast final" "ms_disk s" "[]", OF this] obtain d1 where
    d1: "fs_create_directories no_faults (ms_disk s) (butlast final) = (None, d1)"
      "\<forall>l. \<not> prefix l (butlast final) \<longrightarrow> node_at d1 l = node_at (ms_disk s) l"
    by (auto simp: fs_create_directories_def no_faults_def)
  from create_directories_grown [OF d1(1) store_invD(1) [OF inv] plain(3)]
  have wf1: "disk_wf d1" "node_at d1 (butlast final) = Some Dir" by simp_all
  have long: "\<not> prefix l (butlast final)" if "length l = length final" for l
    using that ne prefix_length_le [of l "butlast final"] by (cases final) auto
  have kept: "node_at d1 final \<noteq> Some Dir" "node_at d1 temp \<noteq> Some Dir"
    using d1(2) long temp(3) free(1,2) by auto
  let ?d2 = "AList.update temp (File []) d1" and ?b = "metadata_bytes m"
  have opened: "open_out no_faults d1 temp False = (Inr temp, ?d2)"
    using open_no_faults [OF wf1(1) plain(2) temp(2), of False] wf1(2) kept(2) temp(1) by simp
  let ?d3 = "AList.update temp (File ?b) ?d2"
  have appended: "append_out no_faults ?d2 temp ?b = (True, ?d3)"
    unfolding append_no_faults using temp(2) by (simp add: file_bytes_def)
  have wf2: "disk_wf ?d2" using wf1 kept(2) plain(2) temp(1,2) by (intro disk_wf_update) simp_all
  have up: "butlast final \<noteq> temp" using temp(3) ne by (metis append_butlast_last_id length_append_singleton n_not_Suc_n)
  have n2: "node_at ?d2 temp = Some (File [])" "node_at ?d2 (butlast temp) = Some Dir"
    using temp wf1(2) up by auto
  have wf3: "disk_wf ?d3" by (rule disk_wf_update [OF wf2]) (use n2 plain(2) temp(2) in simp_all)
  let ?d4 = "AList.update final (File ?b) (AList.delete temp ?d3)"
  have n3: "node_at ?d3 temp = Some (File ?b)" "node_at ?d3 (butlast final) = Some Dir" "node_at ?d3 final \<noteq> Some Dir"
    using temp wf1(2) kept(1) up by auto
  have renamed: "fs_rename no_faults ?d3 temp final = (None, ?d4)"
    using rename_no_faults [OF wf3 plain(2,1) ne temp(4) n3] .
  have never: "fails no_faults x l = False" for x l by (simp add: no_faults_def)
  have run: "write_metadata_file h p m s = (Inr (), s\<lparr>ms_disk := ?d4\<rparr>)"
    using d1(1) opened appended renamed
    by (simp add: write_metadata_file_def written_metadata h physical_def final_def [symmetric] temp_def [symmetric] Let_def never)
  have "node_at ?d4 q \<noteq> Some (File c)" if q: "strict_prefix q final" for q c
  proof -
    have "q \<noteq> final" "q \<noteq> temp" using strict_prefix_short [OF q] temp(3) by auto
    then have "node_at ?d4 q = node_at d1 q" using ne temp(2) by (simp add: node_at_def)
    moreover obtain r where "butlast final = q @ r" using strict_prefix_butlast [OF q] by (auto simp: prefix_def)
    then have "node_at d1 q = Some Dir" using disk_wf_prefix [OF wf1(1), of q r] wf1(2) by (cases "r = []") simp_all
    ultimately show ?thesis by simp
  qed
  moreover have "node_at ?d4 final = Some (File ?b)" "node_at ?d4 temp = None" using ne temp by simp_all
  ultimately have "saveable (s\<lparr>ms_disk := ?d4\<rparr>) p"
    using valid by (simp add: saveable_def Let_def final_def [symmetric] temp_def [symmetric])
  with run show ?thesis by blast
qed

lemma saveable_data [simp]: "saveable (s\<lparr>ms_data := data\<rparr>) p = saveable s p"
  by (simp add: saveable_def)

lemma update_saved:
  assumes h: "host_faults h = no_faults" and inv: "store_inv s" and save: "saveable s p"
  shows "\<exists>s'. update_metadata h p m s = (Inr (), s') \<and> saveable s' p"
proof (cases "map_of (ms_data s) (elems p)")
  case (Some old)
  let ?m = "m\<lparr>md_path := p, md_created_at := md_created_at old, md_modified_at := host_now h\<rparr>"
  from write_saved [OF assms, of ?m] Some save show ?thesis
    by (fastforce simp: update_metadata_def saveable_def Let_def)
next
  case None
  let ?m = "m\<lparr>md_path := p, md_created_at := host_now h, md_modified_at := host_now h\<rparr>"
  have valid: "valid_filename p" using save by (simp add: saveable_def)
  note good = valid_good [OF valid]
  have "stored_file s (elems p) = None" using store_invD(6) [OF inv good] None by simp
  then have gone: "node_at (ms_disk s) (physical s (elems p)) = None"
    using save by (auto simp: saveable_def stored_file_def physical_def Let_def split: option.splits node.splits)
  have "fs_exists no_faults (ms_disk s) (physical s (elems p)) = Inr False"
  proof -
    obtain b where b: "fs_exists no_faults (ms_disk s) (physical s (elems p)) = Inr b"
      by (cases "resolve (ms_disk s) [] (physical s (elems p))") (auto simp: fs_exists_def fs_status_def no_faults_def)
    with fs_exists_plain [OF b store_invD(1) [OF inv] physical_plain [OF inv good]] gone show ?thesis by simp
  qed
  with write_saved [OF assms, of ?m] None valid h show ?thesis
    by (fastforce simp: update_metadata_def add_metadata_def saveable_def Let_def)
qed

end
