(* ===== verification/Starting.thy ===== *)
theory Starting
  imports Sessions Saving
begin

text \<open>
  When a write request is accepted: the metadata can be saved, and the file has two available
  replicas or two available nodes can be found for it.
\<close>

definition placeable :: "(NodeId \<times> StorageNodeInfo) list \<Rightarrow> FileMetadata \<Rightarrow> bool" where
  "placeable nodes m \<longleftrightarrow> (if md_replica_0 m = [] then md_replica_1 m = [] \<and> 2 \<le> length (placement nodes)
     else md_replica_1 m \<noteq> [] \<and> md_replica_0 m \<noteq> md_replica_1 m \<and> list_all (node_available nodes) [md_replica_0 m, md_replica_1 m])"

definition startable :: "Host \<Rightarrow> path \<Rightarrow> NodeId \<Rightarrow> u64 \<Rightarrow> 'e MetadataWorker \<Rightarrow> bool" where
  "startable h p c rid s \<longleftrightarrow> host_faults h = no_faults \<and> store_inv (mw_store s) \<and> saveable (mw_store s) p
     \<and> distinct (keys (mw_nodes s)) \<and> find_pending c rid (pending_writes s) = None
     \<and> (case get_metadata p (mw_store s) of Inl e \<Rightarrow> 2 \<le> length (placement (mw_nodes s))
        | Inr m \<Rightarrow> md_obj_id m \<noteq> [] \<and> placeable (mw_nodes s) m)"

text \<open>What was started: a transfer to two nodes that were available.\<close>

definition begun :: "path \<Rightarrow> NodeId \<Rightarrow> u64 \<Rightarrow> bool \<Rightarrow> 'e MetadataWorker \<Rightarrow> 'e MetadataWorker \<Rightarrow> bool" where
  "begun p c rid nonempty s s' \<longleftrightarrow> sent s' = sent s @ [(c, write_file_frame rid Success)] \<and> saveable (mw_store s') p
     \<and> (nonempty \<longrightarrow> (\<exists>w. find_pending c rid (pending_writes s') = Some w
          \<and> list_all (node_available (mw_nodes s)) [pd_replica_0 w, pd_replica_1 w]))"

lemma placement_available:
  assumes "distinct (keys nodes)" "n \<in> set (placement nodes)"
  shows "node_available nodes n"
  using assms map_of_is_SomeI [OF assms(1)] by (auto simp: placement_set node_available_def)

lemma start_write_run:
  fixes t :: "'e MetadataWorker"
  assumes "find_pending (peer_id (ctx_sender (wfq_context req))) (ctx_request_id (wfq_context req)) (pending_writes t) = None"
    "list_all (node_available (mw_nodes s)) [r0, r1]" "saveable (mw_store t) p" "mw_net t = mw_net s"
  shows "\<exists>s'. start_write env req m r0 r1 t = (Inr (), s')
    \<and> begun p (peer_id (ctx_sender (wfq_context req))) (ctx_request_id (wfq_context req)) True s s'"
proof -
  let ?c = "peer_id (ctx_sender (wfq_context req))" and ?r = "ctx_request_id (wfq_context req)"
  let ?w = "\<lparr>pd_path = wfq_path req, pd_object_id = md_obj_id m, pd_file_size = wfq_file_size req,
          pd_chunk_count = wfq_chunk_count req, pd_next_chunk = 0, pd_replica_0 = r0, pd_replica_1 = r1\<rparr>"
  obtain b tw where em: "emplace_pending ?c ?r ?w (pending_writes t) = (b, tw)" by fastforce
  with find_emplace [OF assms(1), of ?c ?r ?w] have "b" "find_pending ?c ?r tw = Some ?w" by simp_all
  with em assms(2-4) show ?thesis
    by (simp add: start_write_def act_then_def act_step_def write_file_replies begun_def)
qed

lemma write_file_with_run:
  fixes t :: "'e MetadataWorker" and req :: WriteFileRequest
  defines "c \<equiv> peer_id (ctx_sender (wfq_context req))" and "rid \<equiv> ctx_request_id (wfq_context req)"
  assumes h: "host_faults (env_host env) = no_faults"
    and t: "store_inv (mw_store t)" "saveable (mw_store t) (wfq_path req)" "distinct (keys (mw_nodes t))"
      "find_pending c rid (pending_writes t) = None" "mw_net t = mw_net s" "mw_nodes t = mw_nodes s"
    and m: "md_obj_id m \<noteq> []" "placeable (mw_nodes t) m"
  shows "\<exists>s'. write_file_with env req m t = (Inr (), s') \<and> begun (wfq_path req) c rid (wfq_chunk_count req \<noteq> 0) s s'"
proof -
  let ?p = "wfq_path req"
  have upd: "\<exists>st. update_metadata (env_host env) ?p m' (mw_store t) = (Inr (), st) \<and> saveable st ?p" for m'
    by (rule update_saved [OF h t(1,2)])
  note runs = write_file_with_def Let_def act_then_def act_get_def on_store_def act_step_def m(1)
  show ?thesis
  proof (cases "wfq_chunk_count req = 0")
    case True
    from upd [of "m\<lparr>md_size := 0\<rparr>"] obtain st where st: "update_metadata (env_host env) ?p (m\<lparr>md_size := 0\<rparr>) (mw_store t) = (Inr (), st)"
      "saveable st ?p" by blast
    have bound: "(md_replica_0 m = []) = (md_replica_1 m = [])" "md_replica_0 m \<noteq> [] \<Longrightarrow> md_replica_0 m \<noteq> md_replica_1 m"
      using m(2) by (auto simp: placeable_def split: if_splits)
    then have "write_file_with env req m t = write_file_reply env req Success (t\<lparr>mw_store := st\<rparr>)"
      using True m(1) st(1) by (cases "md_replica_0 m = []") (simp_all add: runs)
    with True st(2) t(5) show ?thesis by (simp add: write_file_replies begun_def c_def rid_def)
  next
    case more: False
    show ?thesis
    proof (cases "md_replica_0 m = []")
      case False
      with m(2) have r: "md_replica_1 m \<noteq> []" "md_replica_0 m \<noteq> md_replica_1 m"
        "list_all (node_available (mw_nodes t)) [md_replica_0 m, md_replica_1 m]" by (simp_all add: placeable_def)
      from start_write_run [of req t s "md_replica_0 m" "md_replica_1 m" ?p env m] r t False more show ?thesis
        by (auto simp: runs c_def rid_def)
    next
      case True
      with m(2) have r: "md_replica_1 m = []" "2 \<le> length (placement (mw_nodes t))" by (simp_all add: placeable_def)
      let ?c0 = "placement (mw_nodes t) ! 0" and ?c1 = "placement (mw_nodes t) ! 1"
      let ?m = "m\<lparr>md_replica_0 := ?c0, md_replica_1 := ?c1\<rparr>"
      from upd [of ?m] obtain st where st: "update_metadata (env_host env) ?p ?m (mw_store t) = (Inr (), st)" "saveable st ?p" by blast
      have "?c0 \<in> set (placement (mw_nodes t))" "?c1 \<in> set (placement (mw_nodes t))" using r(2) by (auto intro: nth_mem)
      then have "list_all (node_available (mw_nodes s)) [?c0, ?c1]" using placement_available [OF t(3)] t(6) by simp
      with start_write_run [of req "t\<lparr>mw_store := st\<rparr>" s ?c0 ?c1 ?p env ?m] t st obtain s' where
        "start_write env req ?m ?c0 ?c1 (t\<lparr>mw_store := st\<rparr>) = (Inr (), s')" "begun ?p c rid True s s'"
        by (auto simp: c_def rid_def)
      with True r more st show ?thesis by (simp add: runs)
    qed
  qed
qed

lemma write_file_begun:
  fixes s :: "'e MetadataWorker" and req :: WriteFileRequest
  defines "c \<equiv> peer_id (ctx_sender (wfq_context req))" and "rid \<equiv> ctx_request_id (wfq_context req)"
  assumes ok: "startable (env_host env) (wfq_path req) c rid s" and count: "chunks_for (wfq_file_size req) = ucast (wfq_chunk_count req)"
  shows "\<exists>s'. handle_write_file env req s = (Inr (), s') \<and> begun (wfq_path req) c rid (wfq_chunk_count req \<noteq> 0) s s'"
proof -
  from ok have s: "host_faults (env_host env) = no_faults" "store_inv (mw_store s)" "saveable (mw_store s) (wfq_path req)"
    "distinct (keys (mw_nodes s))" "find_pending c rid (pending_writes s) = None" by (simp_all add: startable_def)
  show ?thesis
  proof (cases "get_metadata (wfq_path req) (mw_store s)")
    case (Inr m)
    with ok have "md_obj_id m \<noteq> []" "placeable (mw_nodes s) m" by (simp_all add: startable_def)
    with write_file_with_run [of env s req s m] s count Inr show ?thesis
      by (simp add: handle_write_file_def act_then_def act_get_def c_def rid_def)
  next
    case (Inl e)
    with s(3) have e: "e = NOT_FOUND" by (auto simp: get_metadata_def saveable_def split: option.splits)
    obtain high low where d: "env_draw env (mw_draws s) = (high, low)" by fastforce
    let ?t = "s\<lparr>mw_draws := mw_draws s + 1\<rparr>" and ?m = "file_entry (wfq_path req) 0 (generate high low) [] []"
    have "generate high low \<noteq> []" using length_generate [of high low] by auto
    then have "md_obj_id ?m \<noteq> []" "placeable (mw_nodes ?t) ?m" using ok Inl by (simp_all add: startable_def placeable_def file_entry_def)
    with write_file_with_run [of env ?t req s ?m] s count Inl e d show ?thesis
      by (simp add: handle_write_file_def act_then_def act_get_def new_object_id_def act_step_def c_def rid_def)
  qed
qed

text \<open>The response tells the status.\<close>

lemma write_file_frame_status:
  "write_file_frame rid st = write_file_frame rid Success \<Longrightarrow> client_status_ok st \<Longrightarrow> st = Success"
proof -
  assume "write_file_frame rid st = write_file_frame rid Success" "client_status_ok st"
  then have "client_status_to_u8 st = client_status_to_u8 Success" by (simp add: write_file_frame_def rpc_frame_def)
  then have "client_status_of_u8 (client_status_to_u8 st) = client_status_of_u8 (client_status_to_u8 Success)" by (rule arg_cong)
  with \<open>client_status_ok st\<close> show "st = Success" by (simp add: client_status_ok_def client_status_of_u8_def)
qed

end
