(* ===== verification/Exchanges.thy ===== *)
theory Exchanges
  imports Reading RemoteStore ClientSafety Durability Starting
begin

text \<open>
  One exchange of a client with the metadata node, whose handler may wait for storage nodes in
  the middle of it: the four exchanges of uploads and downloads, each with the state of the
  whole system before and after.
\<close>

section \<open>A request of the client and its handler\<close>

text \<open>
  What the metadata node sends to storage nodes can end up in the client's queue, when a node
  of that name is no storage node; the client's filters leave it there.
\<close>

definition quiet_queue :: "Message queue \<Rightarrow> bool" where
  "quiet_queue q \<longleftrightarrow> list_all (\<lambda>m. hdr_type (msg_header m) \<noteq> CLIENT_RPC) q"

definition linked :: "'x Env \<Rightarrow> steady_time \<Rightarrow> NodeIdentity \<Rightarrow> NodeIdentity \<Rightarrow> 'x MetadataNode ClientEnv \<Rightarrow> 'x MetadataNode Client \<Rightarrow> bool" where
  "linked env now client server cenv c \<longleftrightarrow> ce_outside cenv = node_outside env now client server
     \<and> cl_metadata_node c = peer_id server \<and> quiet_queue (net_queue (cl_net c))"

lemma quiet_unmatched: "quiet_queue q \<Longrightarrow> list_all (\<lambda>m. \<not> make_message_is client_rpc rid job kind sender bp m) q"
  by (auto simp: quiet_queue_def make_message_is_def header_matches_def list_all_iff)

lemma posted_quiet: "to_storage posted \<Longrightarrow> quiet_queue (to_client client server posted)"
  by (auto simp: to_storage_def quiet_queue_def to_client_def list_all_iff)

lemma event_job_ok: "client_job_ok (event_job ev)"
  by (cases ev) simp_all

lemma handle_posts:
  assumes "handle env (with_context \<lparr>ctx_request_id = rid, ctx_sender = client\<rparr> ev) s = (Inr (), w)"
    "sent w = sent s @ posted @ [(n, f)]"
  shows "to_storage posted"
proof -
  have "unanswered (sent s) s" by (simp add: unanswered_def to_storage_def)
  from passesD [OF handle_answers this assms(1)] assms(2) show ?thesis by (auto simp: answered_def)
qed

lemma call_node:
  fixes enc :: "u64 \<Rightarrow> 'q \<Rightarrow> exn + Frame" and dec :: "ClientRpcMessage \<Rightarrow> exn + 'r" and c :: "'x MetadataNode Client"
  assumes link: "linked env now client server cenv c" and idle: "idle (net_outside (cl_net c))"
    and ev: "sendable ev" "encode_event rid ev = Inr f" "enc rid q = Inr f"
    and run: "handle env (with_context \<lparr>ctx_request_id = rid, ctx_sender = client\<rparr> ev) (worker_of c) = (Inr (), w)"
      "sent w = sent (worker_of c) @ posted @ [(peer_id client, rpc_frame client_rpc rid (event_job ev) Response body)]"
    and resp: "body_fits body" "\<exists>r. bp (reader_at (be_bytes 8 rid @ [client_job_to_u8 (event_job ev), 0]) body) = Inr (True, r)"
      "\<exists>m. read_message client_rpc (message_from server (rpc_frame client_rpc rid (event_job ev) Response body)) = Inr m \<and> dec m = Inr r"
  shows "\<exists>c'. call cenv rid (event_job ev) bp enc q dec c = (Inr (Inr r), c') \<and> linked env now client server cenv c'
    \<and> cl_disk c' = cl_disk c \<and> current_id c' = current_id c
    \<and> net_outside (cl_net c') = (net_outside (cl_net c))\<lparr>mn_worker := w\<lparr>mw_nodes := check_heartbeat_timeouts now (mw_nodes w)\<rparr>\<rparr>"
proof -
  let ?f = "rpc_frame client_rpc rid (event_job ev) Response body" and ?s = "net_outside (cl_net c)"
  let ?s' = "?s\<lparr>mn_worker := w\<lparr>mw_nodes := check_heartbeat_timeouts now (mw_nodes w)\<rparr>\<rparr>"
  let ?p = "make_message_is client_rpc rid (event_job ev) Response (peer_id server) bp"
  define q' where "q' = net_queue (cl_net c) @ to_client client server posted"
  have "to_storage posted" using handle_posts [OF run] .
  then have q': "quiet_queue q'" using link posted_quiet by (fastforce simp: q'_def linked_def quiet_queue_def)
  have hit: "?p (message_from server ?f)"
    using resp(1,2) event_job_ok by (simp add: client_job.make_message_is_back client_rpc_bytes)
  have "to_client client server (posted @ [(peer_id client, ?f)]) = to_client client server posted @ [message_from server ?f]"
    by (simp add: to_client_def)
  then have "meanwhile (node_outside env now client server) (net_queue (cl_net c))
      (deliver (node_outside env now client server) (peer_id server) f ?s) = (q' @ [message_from server ?f], ?s')"
    unfolding exchange_run [OF idle ev(1,2)] by (simp add: run q'_def)
  with pop_if_last [where P = ?p, OF quiet_unmatched [OF q'] hit] link
  have await: "await_if (ce_outside cenv) ?p (post_frame (ce_outside cenv) (cl_metadata_node c) f (cl_net c)) =
      (Some (message_from server ?f), \<lparr>net_queue = q', net_sent = net_sent (cl_net c) @ [(peer_id server, f)], net_outside = ?s'\<rparr>)"
    by (simp add: linked_def await_if_def post_frame_def)
  have node: "cl_metadata_node c = peer_id server" using link by (simp add: linked_def)
  show ?thesis
    using resp(3) link q' unfolding call_run [where encoder = enc and rid = rid and q = q, OF ev(3)] await [unfolded node] node
    by (auto simp: linked_def)
qed

text \<open>The worker handled the request, answered it with the frame \<open>f\<close>, and then looked for silent nodes.\<close>

definition handled :: "'x Env \<Rightarrow> steady_time \<Rightarrow> ClientEvent \<Rightarrow> Frame \<Rightarrow> 'x MetadataWorker \<Rightarrow> 'x MetadataWorker \<Rightarrow> bool" where
  "handled env now ev f s s' \<longleftrightarrow> (\<exists>u. handle env ev s = (Inr (), u) \<and> last (sent u) = (peer_id (ctx_sender (event_context ev)), f)
     \<and> s' = u\<lparr>mw_nodes := check_heartbeat_timeouts now (mw_nodes u)\<rparr>)"

section \<open>The exchanges of the transfers\<close>

context storage_service
begin

text \<open>Client, metadata node and storage nodes between two requests of the client.\<close>

definition system_ok ::
  "'e Env \<Rightarrow> steady_time \<Rightarrow> NodeIdentity \<Rightarrow> NodeIdentity \<Rightarrow> 'e MetadataNode ClientEnv \<Rightarrow> 'e MetadataNode Client \<Rightarrow> bool" where
  "system_ok env now client server cenv c \<longleftrightarrow> env_outside env = out \<and> linked env now client server cenv c
     \<and> idle (net_outside (cl_net c)) \<and> at_rest (peer_id client) (worker_of c) \<and> worker_ok (worker_of c)
     \<and> durable (ms_directory (mw_store (worker_of c))) (worker_of c) \<and> time_fits (host_now (env_host env))"

lemma system_step:
  assumes "system_ok env now client server cenv c" "handle env ev (worker_of c) = (Inr (), w)" "at_rest (peer_id client) w"
    "linked env now client server cenv c'"
    "net_outside (cl_net c') = (net_outside (cl_net c))\<lparr>mn_worker := w\<lparr>mw_nodes := check_heartbeat_timeouts now (mw_nodes w)\<rparr>\<rparr>"
  shows "system_ok env now client server cenv c'"
proof -
  have "worker_ok w" using passesD [OF handle_ok _ assms(2)] assms(1) by (simp add: system_ok_def)
  moreover have "durable (ms_directory (mw_store w)) w"
    using passesD [OF handle_durable _ assms(2), of "ms_directory (mw_store (worker_of c))"] assms(1)
    by (simp add: system_ok_def durable_def)
  ultimately show ?thesis using assms by (auto simp: system_ok_def idle_def at_rest_def worker_ok_def durable_def)
qed

lemma write_file_call:
  fixes c :: "'e MetadataNode Client"
  defines "w \<equiv> worker_of c"
  assumes sys: "system_ok env now client server cenv c" and p: "nul_free p" "length p < 2 ^ 31"
    and content: "length content < 2 ^ 64"
    and ids: "\<And>m. get_metadata p (mw_store w) = Inr m \<Longrightarrow> good_id (md_obj_id m)"
  shows "\<exists>st ctx c'. call cenv rid WRITE_FILE match_any_body encode_write_file_request
      \<lparr>wfq_file_size = word_of_nat (length content), wfq_chunk_count = n, wfq_path = p, wfq_context = empty_context\<rparr>
      decode_write_file_response c = (Inr (Inr \<lparr>wfr_status = st, wfr_context = ctx\<rparr>), c')
    \<and> cl_disk c' = cl_disk c \<and> current_id c' = current_id c
    \<and> handled env now (with_context \<lparr>ctx_request_id = rid, ctx_sender = client\<rparr> (WriteFileEvent
        \<lparr>wfq_file_size = word_of_nat (length content), wfq_chunk_count = n, wfq_path = p, wfq_context = empty_context\<rparr>))
        (write_file_frame rid st) w (worker_of c')
    \<and> (st = Success \<longrightarrow> system_ok env now client server cenv c' \<and> pending_reads (worker_of c') = pending_reads w
        \<and> workers (net_outside (mw_net (worker_of c'))) = workers (net_outside (mw_net w))
        \<and> write_started p (peer_id client) rid content w (worker_of c'))
    \<and> (startable (env_host env) p (peer_id client) rid w \<and> chunks_for (word_of_nat (length content)) = ucast n \<longrightarrow>
        st = Success \<and> saveable (mw_store (worker_of c')) p
        \<and> (n \<noteq> 0 \<longrightarrow> (\<exists>u. find_pending (peer_id client) rid (pending_writes (worker_of c')) = Some u
             \<and> list_all (node_available (mw_nodes w)) [pd_replica_0 u, pd_replica_1 u])))"
proof -
  let ?req = "\<lparr>wfq_file_size = word_of_nat (length content), wfq_chunk_count = n, wfq_path = p, wfq_context = empty_context\<rparr>"
  let ?ev = "WriteFileEvent ?req" and ?ctx = "\<lparr>ctx_request_id = rid, ctx_sender = client\<rparr>"
  from sys have parts: "env_outside env = out" "linked env now client server cenv c" "idle (net_outside (cl_net c))"
    "at_rest (peer_id client) w" "nodes_ok (mw_nodes w)" by (simp_all add: system_ok_def worker_ok_def w_def)
  from write_file_handled [OF parts(1), of "?req\<lparr>wfq_context := ?ctx\<rparr>" w content] parts(4,5) content ids
  obtain w' where run: "handle env (with_context ?ctx ?ev) w = (Inr (), w')"
    and ans: "write_answered p (peer_id client) rid content w w'" by auto
  then obtain st where st: "sent w' = sent w @ [] @ [(peer_id client, write_file_frame rid st)]" "client_status_ok st"
    "st = Success \<Longrightarrow> at_rest (peer_id client) w' \<and> pending_reads w' = pending_reads w
        \<and> workers (net_outside (mw_net w')) = workers (net_outside (mw_net w)) \<and> write_started p (peer_id client) rid content w w'"
    by (auto simp: write_answered_def)
  have started: "st = Success \<and> saveable (mw_store w') p
      \<and> (n \<noteq> 0 \<longrightarrow> (\<exists>u. find_pending (peer_id client) rid (pending_writes w') = Some u
           \<and> list_all (node_available (mw_nodes w)) [pd_replica_0 u, pd_replica_1 u]))"
    if "startable (env_host env) p (peer_id client) rid w" "chunks_for (word_of_nat (length content)) = ucast n"
  proof -
    from write_file_begun [of env "?req\<lparr>wfq_context := ?ctx\<rparr>" w] that run have "begun p (peer_id client) rid (n \<noteq> 0) w w'" by auto
    with st(1,2) write_file_frame_status show ?thesis by (auto simp: begun_def)
  qed
  have fits: "body_fits [client_status_to_u8 st]" by (simp add: body_fits_def)
  have "sendable ?ev" using p by (simp add: sendable_def)
  moreover have "encode_event rid ?ev = Inr (rpc_frame client_rpc rid WRITE_FILE Request
      (be_bytes 8 (wfq_file_size ?req) @ be_bytes 4 n @ bytes_of_string p @ [0]))"
    by (simp add: write_file_request.enc_frame)
  ultimately have "\<exists>c'. call cenv rid (event_job ?ev) match_any_body encode_write_file_request ?req decode_write_file_response c =
      (Inr (Inr \<lparr>wfr_status = st, wfr_context = \<lparr>ctx_request_id = rid, ctx_sender = server\<rparr>\<rparr>), c') \<and> linked env now client server cenv c'
    \<and> cl_disk c' = cl_disk c \<and> current_id c' = current_id c
    \<and> net_outside (cl_net c') = (net_outside (cl_net c))\<lparr>mn_worker := w'\<lparr>mw_nodes := check_heartbeat_timeouts now (mw_nodes w')\<rparr>\<rparr>"
    using run st(1) fits write_file_response.received [of "\<lparr>wfr_status = st, wfr_context = empty_context\<rparr>" server rid] st(2)
    by (intro call_node [OF parts(2,3), where posted = "[]"])
      (auto simp: w_def write_file_request.enc_frame write_file_frame_def match_any_body_def get_return_def)
  then obtain c' where c': "call cenv rid WRITE_FILE match_any_body encode_write_file_request ?req decode_write_file_response c =
      (Inr (Inr \<lparr>wfr_status = st, wfr_context = \<lparr>ctx_request_id = rid, ctx_sender = server\<rparr>\<rparr>), c')" "linked env now client server cenv c'"
    "cl_disk c' = cl_disk c" "current_id c' = current_id c"
    "net_outside (cl_net c') = (net_outside (cl_net c))\<lparr>mn_worker := w'\<lparr>mw_nodes := check_heartbeat_timeouts now (mw_nodes w')\<rparr>\<rparr>"
    by auto
  have "system_ok env now client server cenv c'" if "at_rest (peer_id client) w'"
    by (rule system_step [OF sys run [unfolded w_def] that c'(2,5)])
  moreover have "handled env now (with_context ?ctx ?ev) (write_file_frame rid st) w (worker_of c')"
    using run st(1) c'(5) by (auto simp: handled_def)
  ultimately show ?thesis using c' st(3) started
    by (intro exI [of _ st] exI [of _ "\<lparr>ctx_request_id = rid, ctx_sender = server\<rparr>"] exI [of _ c']) (simp add: write_started_def)
qed

lemma chunk_fits: "length bytes \<le> 524288 \<Longrightarrow> body_fits (be_bytes 4 (i :: u32) @ [x] @ bytes)"
  by (simp add: body_fits_def)

lemma write_chunk_call:
  fixes c :: "'e MetadataNode Client"
  defines "s \<equiv> worker_of c"
  assumes sys: "system_ok env now client server cenv c"
    and w: "find_pending (peer_id client) rid (pending_writes s) = Some w"
    and up: "upload_of content w k" "staged_at (net_outside (mw_net s)) content w k"
  shows "\<exists>st ctx c'. call cenv rid WRITE_CHUNK (chunk_index_is (word_of_nat k)) encode_write_chunk_request
      \<lparr>wcq_chunk_index = word_of_nat k, wcq_data = chunk k content, wcq_context = empty_context\<rparr> decode_write_chunk_response c =
      (Inr (Inr \<lparr>wcr_chunk_index = word_of_nat k, wcr_status = st, wcr_context = ctx\<rparr>), c')
    \<and> cl_disk c' = cl_disk c \<and> current_id c' = current_id c
    \<and> handled env now (with_context \<lparr>ctx_request_id = rid, ctx_sender = client\<rparr> (WriteChunkEvent
        \<lparr>wcq_chunk_index = word_of_nat k, wcq_data = chunk k content, wcq_context = empty_context\<rparr>))
        (write_chunk_frame rid (word_of_nat k) st) s (worker_of c')
    \<and> chunk_outcome (env_host env) content w k (peer_id client) rid s st (worker_of c')
    \<and> (st = Success \<longrightarrow> system_ok env now client server cenv c')"
proof -
  let ?req = "\<lparr>wcq_chunk_index = word_of_nat k, wcq_data = chunk k content, wcq_context = empty_context\<rparr>"
  let ?ev = "WriteChunkEvent ?req" and ?ctx = "\<lparr>ctx_request_id = rid, ctx_sender = client\<rparr>"
  from sys have parts: "env_outside env = out" "linked env now client server cenv c" "idle (net_outside (cl_net c))"
    "net_queue (mw_net s) = []" "sound (net_outside (mw_net s))" "workers (net_outside (mw_net s)) (peer_id client) = None"
    by (simp_all add: system_ok_def at_rest_def s_def)
  from write_chunk_handled [OF parts(1,4,5), of "?req\<lparr>wcq_context := ?ctx\<rparr>" w content k] parts(6) w up
  obtain s' posted st where run: "handle env (with_context ?ctx ?ev) s = (Inr (), s')"
    and sent: "sent s' = sent s @ posted @ [(peer_id client, write_chunk_frame rid (word_of_nat k) st)]" and st: "client_status_ok st"
    and ok: "chunk_outcome (env_host env) content w k (peer_id client) rid s st s'"
    by auto
  then have rest: "st = Success \<Longrightarrow> at_rest (peer_id client) s'" by (simp add: chunk_outcome_def at_rest_def Let_def)
  have fits: "body_fits (be_bytes 4 (word_of_nat k :: u32) @ [client_status_to_u8 st])" by (simp add: body_fits_def)
  have len: "length (chunk k content) \<le> 524288" by (simp add: length_chunk)
  then have "sendable ?ev" by (simp add: sendable_def)
  moreover have "encode_event rid ?ev = Inr (rpc_frame client_rpc rid WRITE_CHUNK Request (be_bytes 4 (word_of_nat k :: u32) @ chunk k content))"
    by (simp add: write_chunk_request.enc_frame)
  ultimately have "\<exists>c'. call cenv rid (event_job ?ev) (chunk_index_is (word_of_nat k)) encode_write_chunk_request ?req decode_write_chunk_response c =
      (Inr (Inr \<lparr>wcr_chunk_index = word_of_nat k, wcr_status = st, wcr_context = \<lparr>ctx_request_id = rid, ctx_sender = server\<rparr>\<rparr>), c') \<and> linked env now client server cenv c'
    \<and> cl_disk c' = cl_disk c \<and> current_id c' = current_id c
    \<and> net_outside (cl_net c') = (net_outside (cl_net c))\<lparr>mn_worker := s'\<lparr>mw_nodes := check_heartbeat_timeouts now (mw_nodes s')\<rparr>\<rparr>"
    using run sent fits write_chunk_response.received [of "\<lparr>wcr_chunk_index = word_of_nat k, wcr_status = st, wcr_context = empty_context\<rparr>" server rid] st
    by (intro call_node [OF parts(2,3), where posted = posted])
      (auto simp: s_def write_chunk_request.enc_frame write_chunk_frame_def chunk_index_leads')
  then obtain c' where c': "call cenv rid WRITE_CHUNK (chunk_index_is (word_of_nat k)) encode_write_chunk_request ?req decode_write_chunk_response c =
      (Inr (Inr \<lparr>wcr_chunk_index = word_of_nat k, wcr_status = st, wcr_context = \<lparr>ctx_request_id = rid, ctx_sender = server\<rparr>\<rparr>), c')" "linked env now client server cenv c'"
    "cl_disk c' = cl_disk c" "current_id c' = current_id c"
    "net_outside (cl_net c') = (net_outside (cl_net c))\<lparr>mn_worker := s'\<lparr>mw_nodes := check_heartbeat_timeouts now (mw_nodes s')\<rparr>\<rparr>"
    by auto
  have "system_ok env now client server cenv c'" if "at_rest (peer_id client) s'"
    by (rule system_step [OF sys run [unfolded s_def] that c'(2,5)])
  moreover have "handled env now (with_context ?ctx ?ev) (write_chunk_frame rid (word_of_nat k) st) s (worker_of c')"
    using run sent c'(5) by (auto simp: handled_def)
  ultimately show ?thesis using c' ok rest
    by (intro exI [of _ st] exI [of _ "\<lparr>ctx_request_id = rid, ctx_sender = server\<rparr>"] exI [of _ c']) simp
qed

lemma read_file_call:
  fixes c :: "'e MetadataNode Client"
  defines "s \<equiv> worker_of c"
  assumes sys: "system_ok env now client server cenv c" and p: "nul_free p" "length p < 2 ^ 31"
    and m: "get_metadata p (mw_store s) = Inr m" "describes m content"
    and free: "\<not> being_written p (pending_writes s)" "find_pending (peer_id client) rid (pending_reads s) = None"
    and one: "content \<noteq> [] \<Longrightarrow> one_gives s m"
  shows "\<exists>ctx c'. call cenv rid READ_FILE match_any_body encode_read_file_request \<lparr>rfq_path = p, rfq_context = empty_context\<rparr>
      decode_read_file_response c = (Inr (Inr \<lparr>rfr_status = Success, rfr_file_size = md_size m,
        rfr_chunk_count = ucast (chunks_for (md_size m)), rfr_context = ctx\<rparr>), c')
    \<and> cl_disk c' = cl_disk c \<and> current_id c' = current_id c \<and> system_ok env now client server cenv c'
    \<and> workers (net_outside (mw_net (worker_of c'))) = workers (net_outside (mw_net s))
    \<and> mw_nodes (worker_of c') = check_heartbeat_timeouts now (mw_nodes s)
    \<and> handled env now (with_context \<lparr>ctx_request_id = rid, ctx_sender = client\<rparr> (ReadFileEvent \<lparr>rfq_path = p, rfq_context = empty_context\<rparr>))
        (read_file_frame rid Success (md_size m) (ucast (chunks_for (md_size m)))) s (worker_of c')
    \<and> (content \<noteq> [] \<longrightarrow> find_pending (peer_id client) rid (pending_reads (worker_of c')) = Some (read_entry p m 0))"
proof -
  let ?req = "\<lparr>rfq_path = p, rfq_context = empty_context\<rparr>"
  let ?ev = "ReadFileEvent ?req" and ?ctx = "\<lparr>ctx_request_id = rid, ctx_sender = client\<rparr>"
  from sys have parts: "env_outside env = out" "linked env now client server cenv c" "idle (net_outside (cl_net c))"
    "net_queue (mw_net s) = []" "sound (net_outside (mw_net s))" "workers (net_outside (mw_net s)) (peer_id client) = None"
    by (simp_all add: system_ok_def at_rest_def s_def)
  let ?f = "read_file_frame rid Success (md_size m) (ucast (chunks_for (md_size m)))"
  define s' where "s' = s\<lparr>
    pending_reads := (if content = [] then pending_reads s else snd (emplace_pending (peer_id client) rid (read_entry p m 0) (pending_reads s))),
    mw_net := post_frame out (peer_id client) ?f (mw_net s)\<rparr>"
  from read_file_handled [of "?req\<lparr>rfq_context := ?ctx\<rparr>" s m content env] m free one parts(1)
  have run: "handle env (with_context ?ctx ?ev) s = (Inr (), s')" by (simp add: s'_def)
  note post = sound_elsewhere [OF parts(5,6)]
  have rest: "at_rest (peer_id client) s'" using parts(4,6) post by (simp add: at_rest_def s'_def) (simp add: post_frame_def)
  have fits: "body_fits ([client_status_to_u8 Success] @ be_bytes 8 (n :: u64) @ be_bytes 4 (k :: u32))" for n k by (simp add: body_fits_def)
  have sent: "sent s' = sent s @ [] @ [(peer_id client, ?f)]" by (simp add: s'_def)
  have "sendable ?ev" using p by (simp add: sendable_def)
  moreover have "encode_event rid ?ev = Inr (rpc_frame client_rpc rid READ_FILE Request (bytes_of_string p @ [0]))"
    by (simp add: read_file_request.enc_frame)
  ultimately have "\<exists>c'. call cenv rid (event_job ?ev) match_any_body encode_read_file_request ?req decode_read_file_response c =
      (Inr (Inr \<lparr>rfr_status = Success, rfr_file_size = md_size m, rfr_chunk_count = ucast (chunks_for (md_size m)),
         rfr_context = \<lparr>ctx_request_id = rid, ctx_sender = server\<rparr>\<rparr>), c') \<and> linked env now client server cenv c'
    \<and> cl_disk c' = cl_disk c \<and> current_id c' = current_id c
    \<and> net_outside (cl_net c') = (net_outside (cl_net c))\<lparr>mn_worker := s'\<lparr>mw_nodes := check_heartbeat_timeouts now (mw_nodes s')\<rparr>\<rparr>"
    using run sent fits read_file_response.received [of "\<lparr>rfr_status = Success, rfr_file_size = md_size m,
        rfr_chunk_count = ucast (chunks_for (md_size m)), rfr_context = empty_context\<rparr>" server rid]
    by (intro call_node [OF parts(2,3), where posted = "[]"])
      (auto simp: s_def read_file_request.enc_frame read_file_frame_def match_any_body_def get_return_def)
  then obtain c' where c': "call cenv rid READ_FILE match_any_body encode_read_file_request ?req decode_read_file_response c =
      (Inr (Inr \<lparr>rfr_status = Success, rfr_file_size = md_size m, rfr_chunk_count = ucast (chunks_for (md_size m)),
         rfr_context = \<lparr>ctx_request_id = rid, ctx_sender = server\<rparr>\<rparr>), c')" "linked env now client server cenv c'"
    "cl_disk c' = cl_disk c" "current_id c' = current_id c"
    "net_outside (cl_net c') = (net_outside (cl_net c))\<lparr>mn_worker := s'\<lparr>mw_nodes := check_heartbeat_timeouts now (mw_nodes s')\<rparr>\<rparr>"
    by auto
  have "system_ok env now client server cenv c'" by (rule system_step [OF sys run [unfolded s_def] rest c'(2,5)])
  moreover have "content \<noteq> [] \<Longrightarrow> find_pending (peer_id client) rid (pending_reads s') = Some (read_entry p m 0)"
    using find_emplace [OF free(2)] by (simp add: s'_def)
  moreover have "workers (net_outside (mw_net s')) = workers (net_outside (mw_net s))" "mw_nodes s' = mw_nodes s"
    using post by (simp_all add: s'_def post_frame_def)
  moreover have "handled env now (with_context ?ctx ?ev) ?f s (worker_of c')" using run sent c'(5) by (auto simp: handled_def)
  ultimately show ?thesis
    using c' by (intro exI [of _ "\<lparr>ctx_request_id = rid, ctx_sender = server\<rparr>"] exI [of _ c']) simp
qed

lemma read_chunk_call:
  fixes c :: "'e MetadataNode Client"
  defines "s \<equiv> worker_of c"
  assumes sys: "system_ok env now client server cenv c"
    and entry: "find_pending (peer_id client) rid (pending_reads s) = Some (read_entry p m k)"
    and m: "describes m content" "k < count_chunks (length content)" "both_hold (net_outside (mw_net s)) m content" "one_gives s m"
  shows "\<exists>ctx c'. call cenv rid READ_CHUNK (chunk_index_is (word_of_nat k)) encode_read_chunk_request
      \<lparr>rcq_chunk_index = word_of_nat k, rcq_context = empty_context\<rparr> decode_read_chunk_response c =
      (Inr (Inr \<lparr>rcr_chunk_index = word_of_nat k, rcr_status = Success, rcr_data = chunk k content, rcr_context = ctx\<rparr>), c')
    \<and> cl_disk c' = cl_disk c \<and> current_id c' = current_id c \<and> system_ok env now client server cenv c'
    \<and> workers (net_outside (mw_net (worker_of c'))) = workers (net_outside (mw_net s))
    \<and> mw_nodes (worker_of c') = check_heartbeat_timeouts now (mw_nodes s)
    \<and> handled env now (with_context \<lparr>ctx_request_id = rid, ctx_sender = client\<rparr> (ReadChunkEvent
        \<lparr>rcq_chunk_index = word_of_nat k, rcq_context = empty_context\<rparr>))
        (read_chunk_frame rid (word_of_nat k) Success (chunk k content)) s (worker_of c')
    \<and> (Suc k < count_chunks (length content) \<longrightarrow>
        find_pending (peer_id client) rid (pending_reads (worker_of c')) = Some (read_entry p m (Suc k)))"
proof -
  let ?req = "\<lparr>rcq_chunk_index = word_of_nat k, rcq_context = empty_context\<rparr>"
  let ?ev = "ReadChunkEvent ?req" and ?ctx = "\<lparr>ctx_request_id = rid, ctx_sender = client\<rparr>"
  from sys have parts: "env_outside env = out" "linked env now client server cenv c" "idle (net_outside (cl_net c))"
    "at_rest (peer_id client) s" by (simp_all add: system_ok_def s_def)
  from read_chunk_handled [OF parts(1), of "?req\<lparr>rcq_context := ?ctx\<rparr>" s p m k content] parts(4) entry m
  obtain s' posted where run: "handle env (with_context ?ctx ?ev) s = (Inr (), s')"
    and sent: "sent s' = sent s @ posted @ [(peer_id client, read_chunk_frame rid (word_of_nat k) Success (chunk k content))]"
    and rest: "at_rest (peer_id client) s'"
    and same: "workers (net_outside (mw_net s')) = workers (net_outside (mw_net s))" "mw_nodes s' = mw_nodes s"
    and reads: "pending_reads s' = (if Suc k = count_chunks (length content) then discard_pending (peer_id client) rid (advance_pending (peer_id client) rid (pending_reads s))
        else advance_pending (peer_id client) rid (pending_reads s))"
    by auto
  have len: "length (chunk k content) \<le> 524288" by (simp add: length_chunk)
  have fits: "body_fits (be_bytes 4 (word_of_nat k :: u32) @ [client_status_to_u8 Success] @ chunk k content)" by (rule chunk_fits [OF len])
  have "sendable ?ev" by (simp add: sendable_def)
  moreover have "encode_event rid ?ev = Inr (rpc_frame client_rpc rid READ_CHUNK Request (be_bytes 4 (word_of_nat k :: u32)))"
    by (simp add: read_chunk_request.enc_frame)
  ultimately have "\<exists>c'. call cenv rid (event_job ?ev) (chunk_index_is (word_of_nat k)) encode_read_chunk_request ?req decode_read_chunk_response c =
      (Inr (Inr \<lparr>rcr_chunk_index = word_of_nat k, rcr_status = Success, rcr_data = chunk k content,
         rcr_context = \<lparr>ctx_request_id = rid, ctx_sender = server\<rparr>\<rparr>), c') \<and> linked env now client server cenv c'
    \<and> cl_disk c' = cl_disk c \<and> current_id c' = current_id c
    \<and> net_outside (cl_net c') = (net_outside (cl_net c))\<lparr>mn_worker := s'\<lparr>mw_nodes := check_heartbeat_timeouts now (mw_nodes s')\<rparr>\<rparr>"
    using run sent fits read_chunk_response.received [of "\<lparr>rcr_chunk_index = word_of_nat k, rcr_status = Success, rcr_data = chunk k content,
        rcr_context = empty_context\<rparr>" server rid]
    by (intro call_node [OF parts(2,3), where posted = posted])
      (auto simp: s_def read_chunk_request.enc_frame read_chunk_frame_def chunk_index_leads')
  then obtain c' where c': "call cenv rid READ_CHUNK (chunk_index_is (word_of_nat k)) encode_read_chunk_request ?req decode_read_chunk_response c =
      (Inr (Inr \<lparr>rcr_chunk_index = word_of_nat k, rcr_status = Success, rcr_data = chunk k content,
         rcr_context = \<lparr>ctx_request_id = rid, ctx_sender = server\<rparr>\<rparr>), c')" "linked env now client server cenv c'"
    "cl_disk c' = cl_disk c" "current_id c' = current_id c"
    "net_outside (cl_net c') = (net_outside (cl_net c))\<lparr>mn_worker := s'\<lparr>mw_nodes := check_heartbeat_timeouts now (mw_nodes s')\<rparr>\<rparr>"
    by auto
  have "system_ok env now client server cenv c'" by (rule system_step [OF sys run [unfolded s_def] rest c'(2,5)])
  moreover have "find_pending (peer_id client) rid (pending_reads s') = Some (read_entry p m (Suc k))" if "Suc k < count_chunks (length content)"
    using that entry reads by (simp add: find_advance) (simp add: read_entry_def add.commute)
  moreover have "handled env now (with_context ?ctx ?ev) (read_chunk_frame rid (word_of_nat k) Success (chunk k content)) s (worker_of c')"
    using run sent c'(5) by (auto simp: handled_def)
  ultimately show ?thesis
    using c' same by (intro exI [of _ "\<lparr>ctx_request_id = rid, ctx_sender = server\<rparr>"] exI [of _ c']) simp
qed

end

end
