(* ===== verification/EndToEnd.thy ===== *)
theory EndToEnd
  imports Exchanges
begin

text \<open>
  Clients, the metadata node and the storage nodes together: an upload that the client saw
  succeed is on both replicas, and a download of a file that is on its replicas succeeds, with
  the same bytes, as long as one of the two runs and can be read.
\<close>

section \<open>Uploads\<close>

context storage_service
begin

text \<open>The file at \<open>p\<close> has the given content and both replicas have it; nobody is writing it.\<close>

definition stored_at :: "path \<Rightarrow> byte list \<Rightarrow> 'e MetadataWorker \<Rightarrow> bool" where
  "stored_at p content s \<longleftrightarrow> \<not> being_written p (pending_writes s)
     \<and> (\<exists>m. get_metadata p (mw_store s) = Inr m \<and> describes m content
        \<and> (content \<noteq> [] \<longrightarrow> (\<forall>r \<in> {md_replica_0 m, md_replica_1 m}. \<exists>v.
             workers (net_outside (mw_net s)) r = Some v \<and> committed v (md_obj_id m) = Some content)))"

text \<open>The upload \<open>w\<close> of \<open>content\<close> to \<open>p\<close> is under way, the only one to \<open>p\<close>, with \<open>k\<close> chunks done.\<close>

definition uploading :: "path \<Rightarrow> NodeId \<Rightarrow> u64 \<Rightarrow> byte list \<Rightarrow> nat \<Rightarrow> Pending \<Rightarrow> 'e MetadataWorker \<Rightarrow> bool" where
  "uploading p n rid content k w s \<longleftrightarrow> find_pending n rid (pending_writes s) = Some w \<and> pd_path w = p
     \<and> upload_of content w k \<and> staged_at (net_outside (mw_net s)) content w k
     \<and> (\<forall>n' r' w'. find_pending n' r' (pending_writes s) = Some w' \<longrightarrow> pd_path w' = p \<longrightarrow> n' = n \<and> r' = rid)"

lemma upload_continues:
  assumes "uploading p n rid content k w s" "Suc k < count_chunks (length content)"
    "staged_at (net_outside (mw_net s')) content w (Suc k)" "pending_writes s' = advance_pending n rid (pending_writes s)"
  shows "uploading p n rid content (Suc k) (w\<lparr>pd_next_chunk := pd_next_chunk w + 1\<rparr>) s'"
  using assms unfolding uploading_def
  by (auto simp: find_advance upload_of_def staged_at_def add.commute split: if_splits)

lemma upload_ends:
  assumes up: "uploading p n rid content k w s" and "worker_ok s'"
    and "committed_at (net_outside (mw_net s')) content w"
    and writes: "pending_writes s' = discard_pending n rid (advance_pending n rid (pending_writes s))"
    and upd: "update_metadata h p (file_entry p (pd_file_size w) (pd_object_id w) (pd_replica_0 w) (pd_replica_1 w)) st = (Inr (), mw_store s')"
  shows "stored_at p content s'"
proof -
  from up have w: "upload_of content w k" by (simp add: uploading_def)
  from update_gives [OF upd] obtain m where m: "get_metadata p (mw_store s') = Inr m" "md_size m = pd_file_size w"
    "md_obj_id m = pd_object_id w" "md_replica_0 m = pd_replica_0 w" "md_replica_1 m = pd_replica_1 w"
    by (auto simp: file_entry_def)
  have "unat (pd_chunk_count w) < 2 ^ 32" using unsigned_less [of "pd_chunk_count w"] by simp
  then have "describes m content" using w m by (auto simp: describes_def upload_of_def good_id_def proper_id_def valid_object_id_iff)
  moreover have "\<not> being_written p (pending_writes s')"
    using up assms(2) by (auto simp: being_written_iff worker_ok_def writes find_discard find_advance uploading_def split: if_splits)
  ultimately show ?thesis using m assms(3) by (auto simp: stored_at_def committed_at_def)
qed

lemma upload_loop:
  fixes c :: "'e MetadataNode Client"
  assumes "system_ok env now client server cenv c" "uploading p (peer_id client) rid content k w (worker_of c)"
    "k < count_chunks (length content)" "unat n = count_chunks (length content)"
    "write_chunks cenv rid n local (drop (k * 524288) content) (word_of_nat k) c = (Inr (Inr ()), c')"
  shows "system_ok env now client server cenv c' \<and> stored_at p content (worker_of c') \<and> cl_disk c' = cl_disk c
    \<and> current_id c' = current_id c \<and> pending_reads (worker_of c') = pending_reads (worker_of c)"
  using assms(1-3,5)
proof (induction "count_chunks (length content) - k" arbitrary: k w c)
  case (Suc d)
  from index_below [of k n] Suc.prems(3) assms(4)
  have i: "(word_of_nat k :: u32) < n" "unat (word_of_nat k :: u32) = k" by simp_all
  have next_i: "word_of_nat k + 1 = (word_of_nat (Suc k) :: u32)" by (simp add: add.commute)
  have up: "find_pending (peer_id client) rid (pending_writes (worker_of c)) = Some w" "pd_path w = p" "upload_of content w k"
    "staged_at (net_outside (mw_net (worker_of c))) content w k"
    using Suc.prems(2) by (simp_all add: uploading_def)
  from write_chunk_call [OF Suc.prems(1) up(1,3,4)] obtain st ctx c1 where c1:
    "call cenv rid WRITE_CHUNK (chunk_index_is (word_of_nat k)) encode_write_chunk_request
      \<lparr>wcq_chunk_index = word_of_nat k, wcq_data = chunk k content, wcq_context = empty_context\<rparr> decode_write_chunk_response c =
      (Inr (Inr \<lparr>wcr_chunk_index = word_of_nat k, wcr_status = st, wcr_context = ctx\<rparr>), c1)"
    "cl_disk c1 = cl_disk c" "current_id c1 = current_id c"
    and out: "chunk_outcome (env_host env) content w k (peer_id client) rid (worker_of c) st (worker_of c1)"
    and sys1: "st = Success \<longrightarrow> system_ok env now client server cenv c1" by blast
  have bytes: "take (unat CHUNK_SIZE) (drop (k * 524288) content) = chunk k content" by (simp add: chunk_def CHUNK_SIZE_nat)
  note ne = chunk_not_Nil [OF Suc.prems(3)]
  have run: "\<not> fails (ce_faults cenv) Sys_read local" "st = Success"
    "write_chunks cenv rid n local (drop (Suc k * 524288) content) (word_of_nat (Suc k)) c1 = (Inr (Inr ()), c')"
    using Suc.prems(4) i(1) drop_chunk [of k content]
    by (subst (asm) write_chunks.simps,
        auto simp: Let_def bytes ne act_then_def c1(1) act_return_def next_i chunk_def [symmetric] split: if_splits)+
  from sys1 run(2) have sys1: "system_ok env now client server cenv c1" by simp
  from out run(2) have reads: "pending_reads (worker_of c1) = pending_reads (worker_of c)" by (simp add: chunk_outcome_def Let_def)
  show ?case
  proof (cases "Suc k = count_chunks (length content)")
    case True
    then have "n \<le> word_of_nat (Suc k)" using index_end [of n] assms(4) by simp
    then have "c' = c1" using run(3) by (subst (asm) write_chunks.simps) (simp add: act_return_def)
    moreover have "stored_at p content (worker_of c1)"
      using upload_ends [OF Suc.prems(2)] out run(2) True up(2) sys1 by (auto simp: chunk_outcome_def Let_def system_ok_def)
    ultimately show ?thesis using sys1 reads c1(2,3) by simp
  next
    case False
    with Suc.prems(3) have k: "Suc k < count_chunks (length content)" by simp
    from out run(2) False have c1': "staged_at (net_outside (mw_net (worker_of c1))) content w (Suc k)"
      "pending_writes (worker_of c1) = advance_pending (peer_id client) rid (pending_writes (worker_of c))"
      by (simp_all add: chunk_outcome_def Let_def)
    from Suc.hyps(1) [OF _ sys1 upload_continues [OF Suc.prems(2) k c1'] k run(3)] Suc.hyps(2) c1(2,3) reads
    show ?thesis by simp
  qed
qed simp

lemma upload_starts:
  assumes "write_started p n rid content s s'" "worker_ok s" "\<not> being_written p (pending_writes s)" "content \<noteq> []"
  shows "\<exists>w. uploading p n rid content 0 w s'"
proof -
  from assms(1,4) obtain w where w: "find_pending n rid (pending_writes s) = None" "pd_path w = p" "upload_of content w 0"
    "pending_writes s' = snd (emplace_pending n rid w (pending_writes s))" by (auto simp: write_started_def)
  have "pd_path w' \<noteq> p" if "find_pending n' r' (pending_writes s) = Some w'" for n' r' w'
    using assms(2,3) that by (auto simp: worker_ok_def being_written_iff)
  with w show ?thesis
    by (intro exI [of _ w]) (auto simp: uploading_def staged_at_def find_emplace split: if_splits)
qed

lemma empty_upload:
  assumes "write_started p n rid [] s s'" "\<not> being_written p (pending_writes s)"
  shows "stored_at p [] s'"
  using assms by (auto simp: write_started_def stored_at_def describes_def count_chunks_def)

text \<open>The client counts the chunks exactly, unless there are too many.\<close>

lemma counted_exactly:
  fixes content :: "byte list"
  assumes "length content < 2 ^ 64" "\<not> chunks_expected (word_of_nat (length content)) > ucast (- 1 :: u32)"
  shows "unat (ucast (chunks_expected (word_of_nat (length content))) :: u32) = count_chunks (length content)"
proof -
  let ?size = "word_of_nat (length content) :: u64"
  have "unat (chunks_expected ?size) = count_chunks (length content)"
    unfolding chunks_expected_def chunk_count_nat using assms(1) by (simp add: unat_of_nat)
  moreover have "unat (chunks_expected ?size) < 2 ^ 32"
    using assms(2) by (simp add: not_less word_le_nat_alt unat_ucast_32_64 unsigned_minus_1_eq_mask mask_eq_exp_minus_1)
  ultimately show ?thesis
    by (simp add: unsigned_ucast_eq unsigned_take_bit_eq take_bit_nat_eq_self)
qed

lemma upload_stored:
  fixes c :: "'e MetadataNode Client"
  assumes sys: "system_ok env now client server cenv c" and p: "nul_free p" "length p < 2 ^ 31"
    and content: "open_in (ce_faults cenv) (cl_disk c) (ce_located cenv src) = Inr content" "length content < 2 ^ 64"
    and ids: "\<And>m. get_metadata p (mw_store (worker_of c)) = Inr m \<Longrightarrow> good_id (md_obj_id m)"
    and free: "\<not> being_written p (pending_writes (worker_of c))"
    and run: "write_file cenv src p c = (Inr (Inr ()), c')"
  shows "system_ok env now client server cenv c' \<and> stored_at p content (worker_of c') \<and> cl_disk c' = cl_disk c
    \<and> current_id c' = current_id c + 1 \<and> pending_reads (worker_of c') = pending_reads (worker_of c)"
proof -
  let ?rid = "current_id c + 1" and ?size = "word_of_nat (length content) :: u64"
  define c0 where "c0 = c\<lparr>current_id := ?rid\<rparr>"
  let ?n = "ucast (chunks_expected ?size) :: u32"
  have sys0: "system_ok env now client server cenv c0" using sys by (simp add: c0_def system_ok_def linked_def)
  have same: "worker_of c0 = worker_of c" "cl_disk c0 = cl_disk c" "current_id c0 = ?rid" by (simp_all add: c0_def)
  from write_file_call [OF sys0 p content(2), of ?rid ?n] ids obtain st ctx c1 where c1:
    "call cenv ?rid WRITE_FILE match_any_body encode_write_file_request
      \<lparr>wfq_file_size = ?size, wfq_chunk_count = ?n, wfq_path = p, wfq_context = empty_context\<rparr>
      decode_write_file_response c0 = (Inr (Inr \<lparr>wfr_status = st, wfr_context = ctx\<rparr>), c1)"
    "cl_disk c1 = cl_disk c0" "current_id c1 = current_id c0"
    and ok: "st = Success \<longrightarrow> system_ok env now client server cenv c1 \<and> pending_reads (worker_of c1) = pending_reads (worker_of c)
        \<and> write_started p (peer_id client) ?rid content (worker_of c) (worker_of c1)" by (auto simp: same(1))
  have opened: "open_local cenv (ce_located cenv src) c0 = (Inr (Inr content), c0) \<or> open_local cenv (ce_located cenv src) c0 = (Inl SystemError, c0)"
    using content(1) by (simp add: open_local_def c0_def)
  have step: "st = Success \<and> \<not> chunks_expected ?size > ucast (- 1 :: u32)
    \<and> write_chunks cenv ?rid ?n (ce_located cenv src) content 0 c1 = (Inr (Inr ()), c')"
    using run opened c1(1) unfolding write_file_def Let_def
    by (auto simp: act_then_def next_id_def act_step_def Let_def c0_def [symmetric] act_return_def split: if_splits)
  then have ok': "system_ok env now client server cenv c1" "pending_reads (worker_of c1) = pending_reads (worker_of c)"
    "write_started p (peer_id client) ?rid content (worker_of c) (worker_of c1)" using ok by simp_all
  have count: "unat ?n = count_chunks (length content)" using counted_exactly [OF content(2)] step by simp
  show ?thesis
  proof (cases "content = []")
    case True
    with count have "unat ?n = 0" by (simp add: count_chunks_def)
    then have "?n = 0" by (simp only: unat_eq_zero)
    with step have "c' = c1" by (auto simp: write_chunks.simps [of _ _ 0] act_return_def)
    with True ok' c1(2,3) same empty_upload free show ?thesis by simp
  next
    case False
    have "worker_ok (worker_of c)" using sys by (simp add: system_ok_def)
    from upload_starts [OF ok'(3) this free False] obtain w where "uploading p (peer_id client) ?rid content 0 w (worker_of c1)" ..
    moreover have "0 < count_chunks (length content)" using False by (cases "count_chunks (length content)") (simp_all only: count_chunks_0 length_0_conv)
    ultimately show ?thesis
      using upload_loop [OF ok'(1), of p ?rid content 0 w ?n "ce_located cenv src" c'] count step ok'(2) c1(2,3) same by simp
  qed
qed

end

section \<open>Downloads\<close>

text \<open>A replica counts as available as long as its last heartbeat is recent enough.\<close>

definition seen_recently :: "steady_time \<Rightarrow> (NodeId \<times> StorageNodeInfo) list \<Rightarrow> NodeId \<Rightarrow> bool" where
  "seen_recently now nodes r \<longleftrightarrow> node_available (check_heartbeat_timeouts now nodes) r"

lemma timeouts_twice: "check_heartbeat_timeouts now (check_heartbeat_timeouts now nodes) = check_heartbeat_timeouts now nodes"
  by (induction nodes) (auto simp: check_heartbeat_timeouts_def timed_out_def)

lemma seen_available: "seen_recently now nodes r \<Longrightarrow> node_available nodes r"
  by (auto simp: seen_recently_def node_available_def map_of_timeouts timed_out_def split: option.splits if_splits)

lemma seen_still: "seen_recently now (check_heartbeat_timeouts now nodes) r = seen_recently now nodes r"
  by (simp add: seen_recently_def timeouts_twice)

text \<open>The client's disk works and has room for a file \<open>to\<close> and for the temporary one.\<close>

definition can_save :: "'x ClientEnv \<Rightarrow> 'x Client \<Rightarrow> path \<Rightarrow> bool" where
  "can_save cenv c to \<longleftrightarrow>
     (let dest = ce_located cenv to; tmp = ce_located cenv (temporary_name (current_id c + 1) to) in
      ce_faults cenv = no_faults \<and> to \<noteq> [] \<and> disk_wf (cl_disk c) \<and> tmp \<noteq> dest
      \<and> (\<forall>l \<in> {tmp, dest}. plain_path l \<and> node_at (cl_disk c) (butlast l) = Some Dir \<and> node_at (cl_disk c) l \<noteq> Some Dir))"

context storage_service
begin

definition one_survives :: "steady_time \<Rightarrow> 'e MetadataWorker \<Rightarrow> FileMetadata \<Rightarrow> bool" where
  "one_survives now s m \<longleftrightarrow>
     (\<exists>r \<in> {md_replica_0 m, md_replica_1 m}. seen_recently now (mw_nodes s) r \<and> gives (net_outside (mw_net s)) r)"

lemma survives_gives: "one_survives now s m \<Longrightarrow> one_gives s m"
  using seen_available by (auto simp: one_survives_def one_gives_def)

lemma survives_same:
  "workers (net_outside (mw_net s')) = workers (net_outside (mw_net s)) \<Longrightarrow> mw_nodes s' = check_heartbeat_timeouts now (mw_nodes s) \<Longrightarrow>
   one_survives now s' m = one_survives now s m"
  by (simp add: one_survives_def seen_still gives_def)

lemma download_loop:
  fixes c :: "'e MetadataNode Client"
  assumes host: "ce_faults cenv = no_faults" and m: "describes m content"
    and resp: "rfr_file_size resp = md_size m" "rfr_chunk_count resp = ucast (chunks_for (md_size m))"
    and start: "k \<le> count_chunks (length content)" "system_ok env now client server cenv c"
      "k < count_chunks (length content) \<longrightarrow> find_pending (peer_id client) rid (pending_reads (worker_of c)) = Some (read_entry p m k)"
      "content \<noteq> [] \<longrightarrow> both_hold (net_outside (mw_net (worker_of c))) m content" "content \<noteq> [] \<longrightarrow> one_survives now (worker_of c) m"
    and disk: "disk_wf (cl_disk c)" "node_at (cl_disk c) tmp = Some (File (take (k * 524288) content))"
  shows "\<exists>c'. read_chunks cenv rid resp name tmp (word_of_nat k) c = (Inr (Inr ()), c') \<and> system_ok env now client server cenv c'
    \<and> disk_wf (cl_disk c') \<and> node_at (cl_disk c') tmp = Some (File content)
    \<and> (\<forall>l. l \<noteq> tmp \<longrightarrow> node_at (cl_disk c') l = node_at (cl_disk c) l)"
  using start disk
proof (induction "count_chunks (length content) - k" arbitrary: k c)
  case 0
  then have k: "k = count_chunks (length content)" by simp
  note count = describes_count [OF m]
  have "rfr_chunk_count resp \<le> word_of_nat k" using index_end [of "rfr_chunk_count resp"] k count(3) resp(2) by simp
  moreover have "take (k * 524288) content = content" unfolding k using count_chunks_bound [of "length content"] by simp
  ultimately show ?case using 0 by (subst read_chunks.simps) (simp add: act_return_def)
next
  case (Suc d)
  note count = describes_count [OF m]
  have k: "k < count_chunks (length content)" using Suc.hyps(2) by simp
  from index_below [of k "rfr_chunk_count resp"] k count(3) resp(2)
  have i: "(word_of_nat k :: u32) < rfr_chunk_count resp" "unat (word_of_nat k :: u32) = k" by simp_all
  have next_i: "word_of_nat k + 1 = (word_of_nat (Suc k) :: u32)" by (simp add: add.commute)
  have off: "k * 524288 < length content" using k by (simp add: count_chunks_less)
  then have ne: "content \<noteq> []" by auto
  have size: "length (chunk k content) = unat (size_expected (rfr_file_size resp) (word_of_nat k))"
    using chunk_length_nat [of "word_of_nat k" "md_size m"] i(2) off count(1) resp(1) by (simp add: size_expected_def Let_def length_chunk)
  from read_chunk_call [OF Suc.prems(2) _ m k _ survives_gives] Suc.prems(3-5) k ne obtain ctx c1 where c1:
    "call cenv rid READ_CHUNK (chunk_index_is (word_of_nat k)) encode_read_chunk_request
      \<lparr>rcq_chunk_index = word_of_nat k, rcq_context = empty_context\<rparr> decode_read_chunk_response c =
      (Inr (Inr \<lparr>rcr_chunk_index = word_of_nat k, rcr_status = Success, rcr_data = chunk k content, rcr_context = ctx\<rparr>), c1)"
    "cl_disk c1 = cl_disk c" "system_ok env now client server cenv c1"
    "workers (net_outside (mw_net (worker_of c1))) = workers (net_outside (mw_net (worker_of c)))"
    "mw_nodes (worker_of c1) = check_heartbeat_timeouts now (mw_nodes (worker_of c))"
    "Suc k < count_chunks (length content) \<longrightarrow>
        find_pending (peer_id client) rid (pending_reads (worker_of c1)) = Some (read_entry p m (Suc k))" by blast
  obtain d1 where d1: "append_out no_faults (cl_disk c) tmp (chunk k content) = (True, d1)"
    by (simp add: append_out_def no_faults_def)
  from append_out_ok [OF d1 Suc.prems(6,7)] have disk1: "disk_wf d1" "\<forall>l. l \<noteq> tmp \<longrightarrow> node_at d1 l = node_at (cl_disk c) l"
    "node_at d1 tmp = Some (File (take (Suc k * 524288) content))" unfolding take_chunk by auto
  let ?c = "c1\<lparr>cl_disk := d1\<rparr>"
  have sys: "system_ok env now client server cenv ?c" using c1(3) by (simp add: system_ok_def linked_def)
  have "read_chunks cenv rid resp name tmp (word_of_nat k) c = read_chunks cenv rid resp name tmp (word_of_nat (Suc k)) ?c"
    unfolding next_i [symmetric] using c1(1,2) linorder_not_le [THEN iffD2, OF i(1)] size d1 host
    by (subst read_chunks.simps) (simp add: act_then_def write_output_def act_step_def)
  moreover have "\<exists>c'. read_chunks cenv rid resp name tmp (word_of_nat (Suc k)) ?c = (Inr (Inr ()), c') \<and> system_ok env now client server cenv c'
    \<and> disk_wf (cl_disk c') \<and> node_at (cl_disk c') tmp = Some (File content)
    \<and> (\<forall>l. l \<noteq> tmp \<longrightarrow> node_at (cl_disk c') l = node_at (cl_disk ?c) l)"
    using Suc.hyps(2) k c1(4-6) sys disk1(1,3) Suc.prems(4,5) survives_same [OF c1(4,5), of m] both_hold_same [OF c1(4), of m content]
    by (intro Suc.hyps(1)) simp_all
  ultimately show ?case using disk1(2) by auto
qed

lemma stored_downloads:
  fixes c :: "'e MetadataNode Client"
  defines "s \<equiv> worker_of c"
  assumes sys: "system_ok env now client server cenv c" and p: "nul_free p" "length p < 2 ^ 31"
    and m: "get_metadata p (mw_store s) = Inr m" "describes m content"
    and free: "\<not> being_written p (pending_writes s)" "find_pending (peer_id client) (current_id c + 1) (pending_reads s) = None"
    and replicas: "content \<noteq> [] \<longrightarrow> both_hold (net_outside (mw_net s)) m content" "content \<noteq> [] \<longrightarrow> one_survives now s m"
    and save: "can_save cenv c to"
  shows "\<exists>c'. read_file cenv p to c = (Inr (Inr ()), c') \<and> node_at (cl_disk c') (ce_located cenv to) = Some (File content)
    \<and> system_ok env now client server cenv c'"
proof -
  let ?rid = "current_id c + 1" and ?dest = "ce_located cenv to"
  let ?tmp = "ce_located cenv (to @ ''.dfs-read-'' @ decimal (unat ?rid) @ ''.tmp'')"
  note count = describes_count [OF m(2)]
  define c0 where "c0 = c\<lparr>current_id := ?rid\<rparr>"
  have sys0: "system_ok env now client server cenv c0" using sys by (simp add: c0_def system_ok_def linked_def)
  have same: "worker_of c0 = s" "cl_disk c0 = cl_disk c" by (simp_all add: c0_def s_def)
  have "content \<noteq> [] \<Longrightarrow> one_gives s m" using replicas(2) survives_gives by blast
  note this [folded same(1)]
  from read_file_call [OF sys0 p m [folded same(1)] free [folded same(1)] this] same obtain ctx c1 where c1:
    "call cenv ?rid READ_FILE match_any_body encode_read_file_request \<lparr>rfq_path = p, rfq_context = empty_context\<rparr>
      decode_read_file_response c0 = (Inr (Inr \<lparr>rfr_status = Success, rfr_file_size = md_size m,
        rfr_chunk_count = ucast (chunks_for (md_size m)), rfr_context = ctx\<rparr>), c1)"
    "cl_disk c1 = cl_disk c" "system_ok env now client server cenv c1"
    "workers (net_outside (mw_net (worker_of c1))) = workers (net_outside (mw_net s))"
    "mw_nodes (worker_of c1) = check_heartbeat_timeouts now (mw_nodes s)"
    "content \<noteq> [] \<longrightarrow> find_pending (peer_id client) ?rid (pending_reads (worker_of c1)) = Some (read_entry p m 0)" by metis
  let ?resp = "\<lparr>rfr_status = Success, rfr_file_size = md_size m, rfr_chunk_count = ucast (chunks_for (md_size m)), rfr_context = ctx\<rparr>"
  have chunks: "chunks_expected (md_size m) = ucast (ucast (chunks_for (md_size m)) :: u32)"
    using count(2,3) by (intro word_unat_eq_iff [THEN iffD2]) (simp add: chunks_expected_def chunks_for_def unat_ucast_32_64)
  from save have local: "ce_faults cenv = no_faults" "to \<noteq> []" "disk_wf (cl_disk c)" "?tmp \<noteq> ?dest"
    "plain_path ?tmp" "node_at (cl_disk c) (butlast ?tmp) = Some Dir" "node_at (cl_disk c) ?tmp \<noteq> Some Dir"
    "plain_path ?dest" "node_at (cl_disk c) (butlast ?dest) = Some Dir" "node_at (cl_disk c) ?dest \<noteq> Some Dir"
    by (simp_all add: can_save_def Let_def temporary_name_def)
  have ne: "?tmp \<noteq> []" "?dest \<noteq> []" using local(7,10) by auto
  note opened = open_no_faults [OF local(3,5) ne(1) local(6,7), of False, simplified]
  have wf1: "disk_wf (AList.update ?tmp (File []) (cl_disk c))" using local ne by (intro disk_wf_update) simp_all
  define c2 where "c2 = c1\<lparr>cl_disk := AList.update ?tmp (File []) (cl_disk c)\<rparr>"
  have c2: "system_ok env now client server cenv c2" "worker_of c2 = worker_of c1" using c1(3) by (simp_all add: c2_def system_ok_def linked_def)
  have d2: "disk_wf (cl_disk c2)" "node_at (cl_disk c2) ?tmp = Some (File [])" using wf1 ne(1) by (simp_all add: c2_def)
  have "content \<noteq> []" if "0 < count_chunks (length content)" using that count_chunks_less [of 0 "length content"] by simp
  with c1(6) have "\<exists>c'. read_chunks cenv ?rid ?resp ?tmp ?tmp (word_of_nat 0) c2 = (Inr (Inr ()), c') \<and> system_ok env now client server cenv c'
    \<and> disk_wf (cl_disk c') \<and> node_at (cl_disk c') ?tmp = Some (File content)
    \<and> (\<forall>l. l \<noteq> ?tmp \<longrightarrow> node_at (cl_disk c') l = node_at (cl_disk c2) l)"
    using c2 d2 replicas survives_same [OF c1(4,5), of m] both_hold_same [OF c1(4), of m content]
    by (intro download_loop [where p = p, OF local(1) m(2)]) simp_all
  then obtain c3 where c3: "read_chunks cenv ?rid ?resp ?tmp ?tmp 0 c2 = (Inr (Inr ()), c3)" "system_ok env now client server cenv c3"
    "disk_wf (cl_disk c3)" "node_at (cl_disk c3) ?tmp = Some (File content)"
    "\<forall>l. l \<noteq> ?tmp \<longrightarrow> node_at (cl_disk c3) l = node_at (cl_disk c2) l" by auto
  have "node_at (cl_disk c3) ?dest = node_at (cl_disk c) ?dest" using c3(5) local(4) ne by (simp add: c2_def)
  moreover have "node_at (cl_disk c3) (butlast ?dest) = Some Dir"
    using c3(5) local(7,9) ne by (cases "butlast ?dest = ?tmp") (simp_all add: c2_def)
  ultimately obtain d' where d': "fs_rename no_faults (cl_disk c3) ?tmp ?dest = (None, d')" "node_at d' ?dest = Some (File content)"
    using rename_no_faults [OF c3(3) local(5,8) ne(2) local(4) c3(4)] local(10) ne(2) by auto
  have never: "fails no_faults x l = False" for x l by (simp add: no_faults_def)
  have "read_file cenv p to c = (Inr (Inr ()), c3\<lparr>cl_disk := d'\<rparr>)"
    using c1(1,2) chunks local(1,2) opened c3(1) [unfolded c2_def] d'(1)
    by (simp add: read_file_def act_then_def next_id_def act_step_def Let_def c0_def [symmetric] open_output_def
        finish_read_def act_return_def never)
  with c3(2) d'(2) show ?thesis by (simp add: system_ok_def linked_def)
qed

end

section \<open>The whole system\<close>

abbreviation storage_nodes :: "nodes MetadataNode Client \<Rightarrow> nodes" where
  "storage_nodes c \<equiv> net_outside (mw_net (worker_of c))"

text \<open>
  A client, its metadata node and the storage nodes of that node, all at rest: nothing is in
  their queues but what the client ignores, the table of the metadata node is what its disk has,
  the storage nodes have well-formed disks, and the client is none of them.
\<close>

definition cluster_ok ::
  "(NodeId \<Rightarrow> StorageNode \<Rightarrow> StorageHost) \<Rightarrow> nodes Env \<Rightarrow> steady_time \<Rightarrow> NodeIdentity \<Rightarrow> NodeIdentity
   \<Rightarrow> nodes MetadataNode ClientEnv \<Rightarrow> nodes MetadataNode Client \<Rightarrow> bool" where
  "cluster_ok hosts env now client server cenv c \<longleftrightarrow>
     env_outside env = nodes_outside hosts server \<and> ce_outside cenv = node_outside env now client server
     \<and> cl_metadata_node c = peer_id server \<and> quiet_queue (net_queue (cl_net c))
     \<and> idle (net_outside (cl_net c)) \<and> worker_ok (worker_of c)
     \<and> durable (ms_directory (mw_store (worker_of c))) (worker_of c) \<and> time_fits (host_now (env_host env))
     \<and> all_resting (storage_nodes c) \<and> (\<forall>(n, s) \<in> set (storage_nodes c). worker_inv (sn_worker s))
     \<and> peer_id client \<notin> set (keys (storage_nodes c))"

lemma worker_at_all:
  "distinct (keys nodes) \<Longrightarrow> (\<forall>n v. worker_at n nodes = Some v \<longrightarrow> P v) \<longleftrightarrow> (\<forall>(n, s) \<in> set nodes. P (sn_worker s))"
  by (fastforce simp: worker_at_def)

lemma worker_at_None: "worker_at n nodes = None \<longleftrightarrow> n \<notin> set (keys nodes)"
  by (simp add: worker_at_def map_of_eq_None_iff)

lemma cluster_system: "cluster_ok hosts env now client server cenv c = nodes.system_ok hosts server env now client server cenv c"
proof (cases "all_resting (storage_nodes c)")
  case True
  then have "nodes.sound (storage_nodes c) = (\<forall>(n, s) \<in> set (storage_nodes c). worker_inv (sn_worker s))"
    by (simp add: nodes.sound_def all_resting_def worker_at_all)
  then show ?thesis
    by (auto simp: cluster_ok_def nodes.system_ok_def linked_def nodes.at_rest_def idle_def worker_at_None True)
qed (simp add: cluster_ok_def nodes.system_ok_def nodes.at_rest_def nodes.sound_def)

text \<open>File \<open>p\<close> is on the cluster with the given content.\<close>

definition file_on_replicas :: "path \<Rightarrow> byte list \<Rightarrow> nodes MetadataNode Client \<Rightarrow> bool" where
  "file_on_replicas p content c \<longleftrightarrow> \<not> being_written p (pending_writes (worker_of c))
     \<and> (\<exists>m. get_metadata p (mw_store (worker_of c)) = Inr m \<and> describes m content
        \<and> (content \<noteq> [] \<longrightarrow> (\<forall>r \<in> {md_replica_0 m, md_replica_1 m}. \<exists>v.
             worker_at r (storage_nodes c) = Some v \<and> committed v (md_obj_id m) = Some content)))"

lemma file_on_replicas_stored: "file_on_replicas p content c = nodes.stored_at p content (worker_of c)"
  by (simp add: file_on_replicas_def nodes.stored_at_def)

text \<open>A storage node that was killed and started again on its disk, or was left alone.\<close>

definition reopened :: "StorageNode \<Rightarrow> StorageNode \<Rightarrow> bool" where
  "reopened u v \<longleftrightarrow> sn_worker v = sn_worker u \<or> (\<exists>h located config seeds d v0.
     located (cfg_data_directory config) @ [''objects''] = objects_directory (sn_worker u)
     \<and> new_storage_node h located config seeds (sw_disk (sn_worker u)) = (Inr v0, d) \<and> sn_worker v = sn_worker v0)"

lemma reopened_keeps:
  assumes "reopened u v" "worker_inv (sn_worker u)"
  shows "committed (sn_worker v) oid = committed (sn_worker u) oid"
proof -
  have "committed (sn_worker v0) oid = committed (sn_worker u) oid"
    if new: "new_storage_node h located config seeds (sw_disk (sn_worker u)) = (Inr v0, d)"
      and dir: "located (cfg_data_directory config) @ [''objects''] = objects_directory (sn_worker u)" for h located config seeds v0 d
  proof -
    obtain ec d1 where c: "fs_create_directories (sh_faults h) (sw_disk (sn_worker u)) (objects_directory (sn_worker u)) = (ec, d1)"
      by fastforce
    with new dir have v0: "sn_worker v0 = \<lparr>sw_disk = d1, objects_directory = objects_directory (sn_worker u), next_chunks = []\<rparr>"
      by (auto simp: new_storage_node_def new_storage_worker_def Let_def and_then_eq_Inr split: prod.splits sum.splits if_splits)
    from create_directories_grown [OF c] assms(2) have "grown (sw_disk (sn_worker u)) d1" by (simp add: worker_inv_def)
    then have "file_in d1 l = Some x \<longleftrightarrow> file_in (sw_disk (sn_worker u)) l = Some x" for l x
      using grown_file [of "sw_disk (sn_worker u)" d1 l x] by (auto simp: file_in_def split: option.splits node.splits)
    then show ?thesis by (metis committed_def not_Some_eq v0 StorageWorker.select_convs(1,2))
  qed
  with assms(1) show ?thesis by (auto simp: reopened_def committed_def)
qed

text \<open>
  An outage between \<open>c\<close> and \<open>c'\<close>: the metadata node ran on or was killed and started again
  on its disk; of the storage nodes some are gone, some were killed and started again, some
  ran on. The tables of available nodes may be any.
\<close>

definition metadata_reopened :: "'x MetadataWorker \<Rightarrow> 'y MetadataWorker \<Rightarrow> bool" where
  "metadata_reopened s s' \<longleftrightarrow> (\<exists>h located config net d v. host_ok h \<and> located (cfg_data_directory config) = ms_directory (mw_store s)
     \<and> new_metadata_node h located config net (ms_disk (mw_store s)) = (Inr (v :: 'y MetadataNode), d)
     \<and> mw_store s' = mw_store (mn_worker v) \<and> pending_writes s' = [])"

definition outage :: "nodes MetadataNode Client \<Rightarrow> nodes MetadataNode Client \<Rightarrow> bool" where
  "outage c c' \<longleftrightarrow>
     (mw_store (worker_of c') = mw_store (worker_of c) \<and> pending_writes (worker_of c') = pending_writes (worker_of c)
      \<or> metadata_reopened (worker_of c) (worker_of c'))
     \<and> (\<forall>n v. map_of (storage_nodes c') n = Some v \<longrightarrow> (\<exists>u. map_of (storage_nodes c) n = Some u \<and> reopened u v))"

text \<open>What a download needs of an entry: everything but its times and the spelling of its path.\<close>

lemma recovered_entry:
  assumes "name_space st' = (\<lambda>k. map_option in_ms (name_space st k))" "get_metadata p st = Inr m"
  shows "\<exists>m'. get_metadata p st' = Inr m' \<and> md_size m' = md_size m \<and> md_obj_id m' = md_obj_id m
    \<and> md_replica_0 m' = md_replica_0 m \<and> md_replica_1 m' = md_replica_1 m"
proof -
  from assms(2) have m: "valid_filename p" "map_of (ms_data st) (elems p) = Some m"
    by (auto simp: get_metadata_def split: if_splits option.splits)
  with fun_cong [OF assms(1), of "elems p"] obtain m' where "map_of (ms_data st') (elems p) = Some m'" "anon m' = in_ms (anon m)"
    by (auto simp: name_space_def)
  note same = arg_cong [OF this(2), of md_size] arg_cong [OF this(2), of md_obj_id]
    arg_cong [OF this(2), of md_replica_0] arg_cong [OF this(2), of md_replica_1]
  from m(1) \<open>map_of (ms_data st') (elems p) = Some m'\<close> same show ?thesis
    by (intro exI [of _ m']) (simp add: get_metadata_def anon_def in_ms_def)
qed

lemma reopened_entry:
  fixes s :: "'x MetadataWorker" and s' :: "'y MetadataWorker"
  assumes "metadata_reopened s s'" "durable (ms_directory (mw_store s)) s" "get_metadata p (mw_store s) = Inr m"
  shows "\<exists>m'. get_metadata p (mw_store s') = Inr m' \<and> md_size m' = md_size m \<and> md_obj_id m' = md_obj_id m
    \<and> md_replica_0 m' = md_replica_0 m \<and> md_replica_1 m' = md_replica_1 m"
proof -
  from assms(1) obtain h located config net d and v :: "'y MetadataNode" where v: "host_ok h" "located (cfg_data_directory config) = ms_directory (mw_store s)"
    "new_metadata_node h located config net (ms_disk (mw_store s)) = (Inr v, d)" "mw_store s' = mw_store (mn_worker v)"
    by (auto simp: metadata_reopened_def)
  let ?n = "\<lparr>mn_worker = s, mn_jobs = [], mn_stopping = False\<rparr>"
  from next_start [of ?n located config h net "Inr v :: exn + 'y MetadataNode" d] v assms(2)
  have "name_space (mw_store s') = (\<lambda>k. map_option in_ms (name_space (mw_store s) k))" by (auto simp: durable_def)
  from recovered_entry [OF this assms(3)] show ?thesis .
qed

text \<open>One replica of \<open>p\<close> runs, was heard of recently and has a disk that can be read.\<close>

definition replica_left :: "(NodeId \<Rightarrow> StorageNode \<Rightarrow> StorageHost) \<Rightarrow> steady_time \<Rightarrow> path \<Rightarrow> nodes MetadataNode Client \<Rightarrow> bool" where
  "replica_left hosts now p c \<longleftrightarrow> (\<exists>m. get_metadata p (mw_store (worker_of c)) = Inr m
     \<and> (\<exists>r \<in> {md_replica_0 m, md_replica_1 m}. seen_recently now (mw_nodes (worker_of c)) r
         \<and> worker_at r (storage_nodes c) \<noteq> None \<and> (\<forall>s. readable (hosts r s))))"

text \<open>What the three sides of an upload are to be like for it to be understood.\<close>

definition upload_ready :: "nodes MetadataNode ClientEnv \<Rightarrow> nodes MetadataNode Client \<Rightarrow> path \<Rightarrow> path \<Rightarrow> byte list \<Rightarrow> bool" where
  "upload_ready cenv c src p content \<longleftrightarrow> nul_free p \<and> length p < 2 ^ 19
     \<and> open_in (ce_faults cenv) (cl_disk c) (ce_located cenv src) = Inr content \<and> length content < 2 ^ 64
     \<and> \<not> being_written p (pending_writes (worker_of c))
     \<and> (case get_metadata p (mw_store (worker_of c)) of Inl _ \<Rightarrow> True | Inr m \<Rightarrow> good_id (md_obj_id m))"

lemma uploaded_on_replicas:
  assumes "cluster_ok hosts env now client server cenv c" "upload_ready cenv c src p content"
    "write_file cenv src p c = (Inr (Inr ()), c1)"
  shows "cluster_ok hosts env now client server cenv c1 \<and> file_on_replicas p content c1 \<and> cl_disk c1 = cl_disk c
    \<and> current_id c1 = current_id c + 1 \<and> pending_reads (worker_of c1) = pending_reads (worker_of c)"
  using nodes.upload_stored [of hosts server env now client server cenv c p src content c1] assms
  by (auto simp: cluster_system file_on_replicas_stored upload_ready_def split: sum.splits)

lemma downloaded_from_replica:
  assumes c1: "file_on_replicas p content c1" "cluster_ok hosts1 env1 now1 client1 server1 cenv1 c1" and out: "outage c1 c2"
    and c2: "cluster_ok hosts env now client server cenv c2" "find_pending (peer_id client) (current_id c2 + 1) (pending_reads (worker_of c2)) = None"
    and p: "nul_free p" "length p < 2 ^ 31" and left: "content \<noteq> [] \<longrightarrow> replica_left hosts now p c2" and save: "can_save cenv c2 to"
  shows "\<exists>c3. read_file cenv p to c2 = (Inr (Inr ()), c3) \<and> node_at (cl_disk c3) (ce_located cenv to) = Some (File content)"
proof -
  from c1(1) obtain m1 where m1: "get_metadata p (mw_store (worker_of c1)) = Inr m1" "describes m1 content"
    and on: "content \<noteq> [] \<longrightarrow> (\<forall>r \<in> {md_replica_0 m1, md_replica_1 m1}. \<exists>v.
             worker_at r (storage_nodes c1) = Some v \<and> committed v (md_obj_id m1) = Some content)"
    and free: "\<not> being_written p (pending_writes (worker_of c1))" by (auto simp: file_on_replicas_def)
  have dur: "durable (ms_directory (mw_store (worker_of c1))) (worker_of c1)" using c1(2) by (simp add: cluster_ok_def)
  from out have "(mw_store (worker_of c2) = mw_store (worker_of c1) \<and> pending_writes (worker_of c2) = pending_writes (worker_of c1))
      \<or> metadata_reopened (worker_of c1) (worker_of c2)" by (simp add: outage_def)
  then obtain m where m: "get_metadata p (mw_store (worker_of c2)) = Inr m" "md_size m = md_size m1" "md_obj_id m = md_obj_id m1"
    "md_replica_0 m = md_replica_0 m1" "md_replica_1 m = md_replica_1 m1" using m1(1) reopened_entry [OF _ dur m1(1)] by metis
  have free2: "\<not> being_written p (pending_writes (worker_of c2))"
    using out free by (auto simp: outage_def metadata_reopened_def being_written_def)
  have desc: "describes m content" using m1(2) m(2-5) by (simp add: describes_def)
  have "nodes.one_survives hosts now (worker_of c2) m" if "content \<noteq> []"
    using left that m(1) by (auto simp: replica_left_def nodes.one_survives_def nodes.gives_def host_of_def)
  moreover have "nodes.both_hold (storage_nodes c2) m content" if ne: "content \<noteq> []"
  proof -
    have "committed v (md_obj_id m) = Some content"
      if r: "r \<in> {md_replica_0 m, md_replica_1 m}" and v: "worker_at r (storage_nodes c2) = Some v" for r v
    proof -
      from v obtain x where x0: "v = sn_worker x" "map_of (storage_nodes c2) r = Some x" by (auto simp: worker_at_def)
      with out obtain u where x: "map_of (storage_nodes c1) r = Some u" "reopened u x" by (auto simp: outage_def)
      then have "worker_inv (sn_worker u)" using c1(2) by (auto simp: cluster_ok_def dest: map_of_SomeD)
      from reopened_keeps [OF x(2) this] x x0 r on ne m(3-5) show ?thesis by (auto simp: worker_at_def)
    qed
    then show ?thesis by (auto simp: nodes.both_hold_def nodes.holds_def)
  qed
  ultimately show ?thesis
    using nodes.stored_downloads [of hosts server env now client server cenv c2 p m content to] c2 p m(1) desc free2 save
    by (auto simp: cluster_system)
qed

end
