(* ===== verification/Progress.thy ===== *)
theory Progress
  imports EndToEnd
begin

text \<open>
  Uploads succeed: when no call fails on any host involved, nothing is in the way of the file,
  and two storage nodes with room are available, the client is told that its file is stored.
\<close>

context storage_service
begin

text \<open>Every node that counts as available runs, works and has room.\<close>

definition fit_nodes :: "'e MetadataWorker \<Rightarrow> bool" where
  "fit_nodes s \<longleftrightarrow> (\<forall>n. node_available (mw_nodes s) n \<longrightarrow> (\<forall>h. admits n h \<longrightarrow> willing h)
     \<and> (\<exists>v. workers (net_outside (mw_net s)) n = Some v \<and> tidy v))"

lemma fit_accepting:
  assumes "fit_nodes s" "sound (net_outside (mw_net s))" "workers (net_outside (mw_net s')) = workers (net_outside (mw_net s))"
    "list_all (node_available (mw_nodes s)) [pd_replica_0 w, pd_replica_1 w]"
  shows "accepting (net_outside (mw_net s')) w 0"
  using assms by (fastforce simp: accepting_def fit_nodes_def takes_def sound_def)

lemma chunks_succeed:
  fixes c :: "'e MetadataNode Client"
  assumes host: "host_faults (env_host env) = no_faults" "ce_faults cenv = no_faults"
    and n: "unat n = count_chunks (length content)"
    and start: "system_ok env now client server cenv c" "uploading p (peer_id client) rid content k w (worker_of c)"
      "k < count_chunks (length content)" "accepting (net_outside (mw_net (worker_of c))) w k" "saveable (mw_store (worker_of c)) p"
  shows "\<exists>c' m. write_chunks cenv rid n local (drop (k * 524288) content) (word_of_nat k) c = (Inr (Inr ()), c')
    \<and> get_metadata p (mw_store (worker_of c')) = Inr m \<and> md_replica_0 m = pd_replica_0 w \<and> md_replica_1 m = pd_replica_1 w"
  using start
proof (induction "count_chunks (length content) - k" arbitrary: k w c)
  case (Suc d)
  from index_below [of k n] Suc.prems(3) n have i: "(word_of_nat k :: u32) < n" by simp
  have next_i: "word_of_nat k + 1 = (word_of_nat (Suc k) :: u32)" by (simp add: add.commute)
  have up: "find_pending (peer_id client) rid (pending_writes (worker_of c)) = Some w" "pd_path w = p" "upload_of content w k"
    "staged_at (net_outside (mw_net (worker_of c))) content w k"
    using Suc.prems(2) by (simp_all add: uploading_def)
  from Suc.prems(1) have inv: "store_inv (mw_store (worker_of c))" by (simp add: system_ok_def durable_def)
  have upd: "\<exists>st. update_metadata (env_host env) (pd_path w) m (mw_store (worker_of c)) = (Inr (), st)" for m
    using update_saved [OF host(1) inv Suc.prems(5)] up(2) by blast
  from write_chunk_call [OF Suc.prems(1) up(1,3,4)] obtain st ctx c1 where c1:
    "call cenv rid WRITE_CHUNK (chunk_index_is (word_of_nat k)) encode_write_chunk_request
      \<lparr>wcq_chunk_index = word_of_nat k, wcq_data = chunk k content, wcq_context = empty_context\<rparr> decode_write_chunk_response c =
      (Inr (Inr \<lparr>wcr_chunk_index = word_of_nat k, wcr_status = st, wcr_context = ctx\<rparr>), c1)"
    and out: "chunk_outcome (env_host env) content w k (peer_id client) rid (worker_of c) st (worker_of c1)"
    and sys1: "st = Success \<longrightarrow> system_ok env now client server cenv c1" by blast
  from out Suc.prems(4) upd have st: "st = Success"
    and acc: "Suc k \<noteq> count_chunks (length content) \<Longrightarrow> accepting (net_outside (mw_net (worker_of c1))) w (Suc k)"
    by (auto simp: chunk_outcome_def Let_def)
  have bytes: "take (unat CHUNK_SIZE) (drop (k * 524288) content) = chunk k content" by (simp add: chunk_def CHUNK_SIZE_nat)
  note ne = chunk_not_Nil [OF Suc.prems(3)]
  have never: "fails (ce_faults cenv) x l = False" for x l using host(2) by (simp add: no_faults_def)
  have left: "drop (length (chunk k content)) (drop (k * 524288) content) = drop (Suc k * 524288) content"
    unfolding chunk_def by (rule drop_chunk)
  have step: "write_chunks cenv rid n local (drop (k * 524288) content) (word_of_nat k) c =
      write_chunks cenv rid n local (drop (Suc k * 524288) content) (word_of_nat (Suc k)) c1"
    using linorder_not_le [THEN iffD2, OF i] st c1
    by (subst write_chunks.simps) (simp add: Let_def bytes ne never act_then_def next_i left del: drop_drop mult_Suc of_nat_Suc)
  show ?case
  proof (cases "Suc k = count_chunks (length content)")
    case True
    then have "n \<le> word_of_nat (Suc k)" using index_end [of n] n by simp
    then have "write_chunks cenv rid n local (drop (Suc k * 524288) content) (word_of_nat (Suc k)) c1 = (Inr (Inr ()), c1)"
      by (subst write_chunks.simps) (simp add: act_return_def)
    moreover from out st True have "update_metadata (env_host env) (pd_path w)
        (file_entry (pd_path w) (pd_file_size w) (pd_object_id w) (pd_replica_0 w) (pd_replica_1 w)) (mw_store (worker_of c)) = (Inr (), mw_store (worker_of c1))"
      by (simp add: chunk_outcome_def Let_def)
    from update_gives [OF this] up(2) have "\<exists>m. get_metadata p (mw_store (worker_of c1)) = Inr m
        \<and> md_replica_0 m = pd_replica_0 w \<and> md_replica_1 m = pd_replica_1 w" by (auto simp: file_entry_def)
    ultimately show ?thesis unfolding step by blast
  next
    case False
    with Suc.prems(3) have k: "Suc k < count_chunks (length content)" by simp
    from out st False have s1: "staged_at (net_outside (mw_net (worker_of c1))) content w (Suc k)"
      "pending_writes (worker_of c1) = advance_pending (peer_id client) rid (pending_writes (worker_of c))"
      "mw_store (worker_of c1) = mw_store (worker_of c)"
      by (simp_all add: chunk_outcome_def Let_def)
    have "accepting (net_outside (mw_net (worker_of c1))) (w\<lparr>pd_next_chunk := pd_next_chunk w + 1\<rparr>) (Suc k)"
      using acc [OF False] by (simp add: accepting_def)
    with Suc.hyps(1) [OF _ _ upload_continues [OF Suc.prems(2) k s1(1,2)] k] Suc.hyps(2) sys1 st s1(3) Suc.prems(5)
    show ?thesis unfolding step by simp
  qed
qed simp

lemma upload_succeeds:
  fixes c :: "'e MetadataNode Client"
  assumes sys: "system_ok env now client server cenv c" and p: "nul_free p" "length p < 2 ^ 31"
    and host: "ce_faults cenv = no_faults"
    and content: "open_in no_faults (cl_disk c) (ce_located cenv src) = Inr content" "length content < 2 ^ 64" "count_chunks (length content) < 2 ^ 32"
    and ids: "\<And>m. get_metadata p (mw_store (worker_of c)) = Inr m \<Longrightarrow> good_id (md_obj_id m)"
    and free: "\<not> being_written p (pending_writes (worker_of c))"
    and start: "startable (env_host env) p (peer_id client) (current_id c + 1) (worker_of c)" and nodes: "fit_nodes (worker_of c)"
  shows "\<exists>c'. write_file cenv src p c = (Inr (Inr ()), c') \<and> (content \<noteq> [] \<longrightarrow>
    (\<exists>m. get_metadata p (mw_store (worker_of c')) = Inr m
       \<and> list_all (node_available (mw_nodes (worker_of c))) [md_replica_0 m, md_replica_1 m]))"
proof -
  let ?rid = "current_id c + 1" and ?size = "word_of_nat (length content) :: u64"
  define c0 where "c0 = c\<lparr>current_id := ?rid\<rparr>"
  let ?n = "ucast (chunks_expected ?size) :: u32"
  have sys0: "system_ok env now client server cenv c0" using sys by (simp add: c0_def system_ok_def linked_def)
  have same: "worker_of c0 = worker_of c" by (simp add: c0_def)
  have k: "unat (chunks_expected ?size) = count_chunks (length content)"
    unfolding chunks_expected_def chunk_count_nat using content(2) by (simp add: unat_of_nat)
  with content(3) have count: "unat ?n = count_chunks (length content)"
    by (simp add: unsigned_ucast_eq unsigned_take_bit_eq take_bit_nat_eq_self)
  have exact: "chunks_for ?size = ucast ?n"
    using k count by (simp add: word_unat_eq_iff unat_ucast_32_64 chunks_for_def chunks_expected_def)
  have small: "\<not> chunks_expected ?size > ucast (- 1 :: u32)"
    using k content(3) by (simp add: not_less word_le_nat_alt unat_ucast_32_64 unsigned_minus_1_eq_mask mask_eq_exp_minus_1)
  from write_file_call [OF sys0 p content(2), of ?rid ?n] ids start exact obtain ctx c1 where c1:
    "call cenv ?rid WRITE_FILE match_any_body encode_write_file_request
      \<lparr>wfq_file_size = ?size, wfq_chunk_count = ?n, wfq_path = p, wfq_context = empty_context\<rparr>
      decode_write_file_response c0 = (Inr (Inr \<lparr>wfr_status = Success, wfr_context = ctx\<rparr>), c1)"
    "system_ok env now client server cenv c1" "saveable (mw_store (worker_of c1)) p"
    "workers (net_outside (mw_net (worker_of c1))) = workers (net_outside (mw_net (worker_of c)))"
    "write_started p (peer_id client) ?rid content (worker_of c) (worker_of c1)"
    and u: "?n \<noteq> 0 \<longrightarrow> (\<exists>u. find_pending (peer_id client) ?rid (pending_writes (worker_of c1)) = Some u
             \<and> list_all (node_available (mw_nodes (worker_of c))) [pd_replica_0 u, pd_replica_1 u])" by (auto simp: same)
  have "\<exists>c'. write_chunks cenv ?rid ?n (ce_located cenv src) content 0 c1 = (Inr (Inr ()), c') \<and> (content \<noteq> [] \<longrightarrow>
      (\<exists>m. get_metadata p (mw_store (worker_of c')) = Inr m
         \<and> list_all (node_available (mw_nodes (worker_of c))) [md_replica_0 m, md_replica_1 m]))"
  proof (cases "content = []")
    case True
    with count have "unat ?n = 0" by (simp add: count_chunks_def)
    then have "?n = 0" by (simp only: unat_eq_zero)
    with True show ?thesis by (simp add: write_chunks.simps [of _ _ 0] act_return_def)
  next
    case False
    have pos: "0 < count_chunks (length content)" using False by (cases "count_chunks (length content)") (simp_all only: count_chunks_0 length_0_conv)
    then have "unat ?n \<noteq> 0" unfolding count by (simp only: neq0_conv)
    then have "?n \<noteq> 0" by (metis unat_0)
    with u obtain u where u: "find_pending (peer_id client) ?rid (pending_writes (worker_of c1)) = Some u"
      "list_all (node_available (mw_nodes (worker_of c))) [pd_replica_0 u, pd_replica_1 u]" by blast
    from sys have "worker_ok (worker_of c)" "host_faults (env_host env) = no_faults" "sound (net_outside (mw_net (worker_of c)))"
      using start by (simp_all add: system_ok_def startable_def at_rest_def)
    note ok = this
    from upload_starts [OF c1(5) ok(1) free False] obtain w where w: "uploading p (peer_id client) ?rid content 0 w (worker_of c1)" ..
    with u(1) have "w = u" by (simp add: uploading_def)
    with fit_accepting [OF nodes ok(3) c1(4) u(2)] chunks_succeed [OF ok(2) host count c1(2) w pos _ c1(3), of "ce_located cenv src"]
    obtain c' m where "write_chunks cenv ?rid ?n (ce_located cenv src) content 0 c1 = (Inr (Inr ()), c')"
      "get_metadata p (mw_store (worker_of c')) = Inr m" "md_replica_0 m = pd_replica_0 u" "md_replica_1 m = pd_replica_1 u" by auto
    with u(2) show ?thesis by (intro exI [of _ c']) simp
  qed
  moreover have "next_id c = (Inr ?rid, c0)" by (simp add: next_id_def act_step_def Let_def c0_def)
  moreover have "open_local cenv (ce_located cenv src) c0 = (Inr (Inr content), c0)"
    using content(1) host by (simp add: open_local_def c0_def no_faults_def)
  ultimately show ?thesis
    using c1(1) small by (auto simp: write_file_def Let_def act_then_def)
qed

end

section \<open>Nodes that stay available\<close>

text \<open>Whoever was heard of recently still is after any exchange, unless the node has stopped.\<close>

definition still_seen :: "steady_time \<Rightarrow> NodeId \<Rightarrow> 'x MetadataNode \<Rightarrow> bool" where
  "still_seen now r s \<longleftrightarrow> mn_stopping s \<or> seen_recently now (mw_nodes (mn_worker s)) r"

lemma seen_set_bytes: "seen_recently now nodes r \<Longrightarrow> seen_recently now (set_bytes_left q k nodes) r"
  by (auto simp: seen_recently_def node_available_def map_of_timeouts timed_out_def set_bytes_left_def split: option.splits if_splits)

lemma seen_heartbeat: "seen_recently now nodes r \<Longrightarrow> seen_recently now (handle_heartbeat now h nodes) r"
  by (auto simp: seen_recently_def node_available_def map_of_timeouts timed_out_def map_of_heartbeat heartbeat_timeout_def
      split: option.splits if_splits)

lemma handle_seen: "keeps (\<lambda>s. seen_recently now (mw_nodes s) r) (handle env ev)"
  by (rule handle_net [of env "\<lambda>_ nodes. seen_recently now nodes r"]) (simp add: net_closed_def seen_set_bytes)

lemma produce_seen: "produce s = (Inr (), s') \<Longrightarrow> mn_stopping s' = mn_stopping s \<and> mw_nodes (mn_worker s') = mw_nodes (mn_worker s)"
  by (auto simp: produce_def Let_def split: prod.splits option.splits sum.splits)

lemma work_seen:
  fixes env :: "'x Env"
  assumes "work env now now s = (Inr (), s')" "seen_recently now (mw_nodes (mn_worker s)) r"
  shows "seen_recently now (mw_nodes (mn_worker s')) r"
proof -
  let ?P = "\<lambda>s :: 'x MetadataNode. seen_recently now (mw_nodes (mn_worker s)) r"
  have lift: "keeps ?P (on_worker m)" if "keeps (\<lambda>s. seen_recently now (mw_nodes s) r) m" for m :: "('x MetadataWorker, unit) act"
    using that by (auto simp: passes_def wp_def on_worker_def split: prod.splits sum.splits)
  have nodes: "keeps ?P (on_nodes f)" if "\<And>nodes. seen_recently now nodes r \<Longrightarrow> seen_recently now (f nodes) r" for f
    unfolding on_nodes_def by (rule lift) (use that in \<open>auto simp: passes_def wp_rules\<close>)
  have "keeps ?P (work env now now)"
    unfolding work_def
  proof (intro passes_then passes_option nodes)
    show "keeps ?P (act_step (\<lambda>s. case pop_with_timeout (mn_jobs s) of (e, jobs) \<Rightarrow> (e, s\<lparr>mn_jobs := jobs\<rparr>)))"
      by (auto simp: passes_def wp_rules split: prod.splits)
    show "keeps ?P (act_return ())" by (rule passes_return)
    show "keeps ?P (case e of ClientJobEvent request \<Rightarrow> on_worker (handle env request)
        | HeartbeatEvent heartbeat \<Rightarrow> on_nodes (handle_heartbeat now heartbeat))" for e
      by (cases e) (auto intro: lift handle_seen nodes seen_heartbeat)
  qed (simp add: seen_still)
  from passesD [OF this assms(2,1)] show ?thesis .
qed

lemma node_keeps_seen:
  assumes "still_seen now r s"
  shows "still_seen now r (deliver (node_outside env now client server) n f s)"
    "still_seen now r (snd (meanwhile (node_outside env now client server) q s))"
proof -
  show "still_seen now r (deliver (node_outside env now client server) n f s)"
    using assms by (simp add: node_outside_def still_seen_def receive_def)
  obtain res s1 where run: "act_then produce (\<lambda>_. work env now now) s = (res, s1)" by fastforce
  have "seen_recently now (mw_nodes (mn_worker s1)) r" if "\<not> mn_stopping s" "res = Inr ()"
  proof -
    from run that(2) obtain s0 where "produce s = (Inr (), s0)" "work env now now s0 = (Inr (), s1)"
      by (auto simp: act_then_def split: prod.splits sum.splits)
    with produce_seen work_seen assms that(1) show ?thesis by (metis still_seen_def)
  qed
  with run assms show "still_seen now r (snd (meanwhile (node_outside env now client server) q s))"
    by (auto simp: node_outside_def still_seen_def stop_def split: sum.splits)
qed

abbreviation node_of :: "'x Client \<Rightarrow> 'x" where
  "node_of c \<equiv> net_outside (cl_net c)"

text \<open>The client changes what is outside only by sending and waiting.\<close>

lemma call_keeps:
  assumes "\<And>s n f. P s \<Longrightarrow> P (deliver (ce_outside cenv) n f s)" "\<And>s q. P s \<Longrightarrow> P (snd (meanwhile (ce_outside cenv) q s))"
  shows "keeps (\<lambda>c. P (node_of c)) (call cenv rid job bp enc q dec)"
proof -
  have "keeps (\<lambda>c. P (node_of c)) (client_send cenv f)" for f
    using assms(1) by (auto simp: client_send_def passes_def wp_rules post_frame_def)
  moreover have "keeps (\<lambda>c. P (node_of c)) (client_receive_if cenv rid job bp)"
    using assms(2) by (auto simp: client_receive_if_def passes_def wp_rules await_if_def split: prod.splits) (metis snd_conv)
  ultimately show ?thesis unfolding call_def by (intro passes_intros)
qed

lemma chunks_keep:
  assumes "\<And>s n f. P s \<Longrightarrow> P (deliver (ce_outside cenv) n f s)" "\<And>s q. P s \<Longrightarrow> P (snd (meanwhile (ce_outside cenv) q s))"
  shows "keeps (\<lambda>c. P (node_of c)) (write_chunks cenv rid n l content i)"
  using assms
proof (induction cenv rid n l content i rule: write_chunks.induct)
  case (1 env rid n l content i)
  show ?case
    by (subst write_chunks.simps, unfold Let_def)
      (intro passes_if passes_return passes_then call_keeps passes_sum 1; assumption?; rule refl)
qed

lemma write_keeps:
  assumes "\<And>s n f. P s \<Longrightarrow> P (deliver (ce_outside cenv) n f s)" "\<And>s q. P s \<Longrightarrow> P (snd (meanwhile (ce_outside cenv) q s))"
  shows "keeps (\<lambda>c. P (node_of c)) (write_file cenv src p)"
  unfolding write_file_def Let_def
  by (intro passes_intros call_keeps chunks_keep assms)
    (auto simp: next_id_def open_local_def passes_def wp_def act_step_def Let_def split: sum.splits)

section \<open>The whole system\<close>

text \<open>
  No call fails on the client's and the metadata node's host, nothing on the disk is in the way
  of the file, there is a place for it, and every storage node that counts as available has
  been heard of in time, runs, works and has room.
\<close>

definition healthy ::
  "(NodeId \<Rightarrow> StorageNode \<Rightarrow> StorageHost) \<Rightarrow> nodes Env \<Rightarrow> steady_time \<Rightarrow> NodeIdentity
   \<Rightarrow> nodes MetadataNode ClientEnv \<Rightarrow> nodes MetadataNode Client \<Rightarrow> path \<Rightarrow> bool" where
  "healthy hosts env now client cenv c p \<longleftrightarrow> ce_faults cenv = no_faults \<and> host_faults (env_host env) = no_faults
     \<and> saveable (mw_store (worker_of c)) p \<and> find_pending (peer_id client) (current_id c + 1) (pending_writes (worker_of c)) = None
     \<and> (case get_metadata p (mw_store (worker_of c)) of Inl e \<Rightarrow> 2 \<le> length (placement (mw_nodes (worker_of c)))
        | Inr m \<Rightarrow> placeable (mw_nodes (worker_of c)) m)
     \<and> (\<forall>n. node_available (mw_nodes (worker_of c)) n \<longrightarrow> seen_recently now (mw_nodes (worker_of c)) n
          \<and> (\<forall>s. willing (hosts n s)) \<and> (\<exists>v. worker_at n (storage_nodes c) = Some v \<and> tidy v))"

lemma healthy_startable:
  assumes "cluster_ok hosts env now client server cenv c" "upload_ready cenv c src p content" "healthy hosts env now client cenv c p"
  shows "startable (env_host env) p (peer_id client) (current_id c + 1) (worker_of c)"
    and "nodes.fit_nodes hosts (worker_of c)"
proof -
  have worker: "worker_ok (worker_of c)" "store_inv (mw_store (worker_of c))" using assms(1) by (simp_all add: cluster_ok_def durable_def)
  have "md_obj_id m \<noteq> []" if "get_metadata p (mw_store (worker_of c)) = Inr m" for m
    using assms(2) that by (auto simp: upload_ready_def good_id_def proper_id_def valid_object_id_iff)
  with assms(3) worker show "startable (env_host env) p (peer_id client) (current_id c + 1) (worker_of c)"
    by (auto simp: startable_def healthy_def worker_ok_def nodes_ok_def split: sum.splits)
  show "nodes.fit_nodes hosts (worker_of c)"
    using assms(3) by (auto simp: nodes.fit_nodes_def healthy_def host_of_def)
qed

lemma healthy_upload:
  assumes ok: "cluster_ok hosts env now client server cenv c" and ready: "upload_ready cenv c src p content"
    and well: "healthy hosts env now client cenv c p" and small: "count_chunks (length content) < 2 ^ 32"
  shows "\<exists>c1. write_file cenv src p c = (Inr (Inr ()), c1) \<and> cluster_ok hosts env now client server cenv c1
    \<and> file_on_replicas p content c1 \<and> (content \<noteq> [] \<longrightarrow> replica_left hosts now p c1
        \<and> (\<exists>m. get_metadata p (mw_store (worker_of c1)) = Inr m
            \<and> list_all (node_available (mw_nodes (worker_of c))) [md_replica_0 m, md_replica_1 m]))
    \<and> (\<forall>r. seen_recently now (mw_nodes (worker_of c)) r \<longrightarrow> seen_recently now (mw_nodes (worker_of c1)) r)
    \<and> cl_disk c1 = cl_disk c \<and> current_id c1 = current_id c + 1 \<and> pending_reads (worker_of c1) = pending_reads (worker_of c)"
proof -
  have ids: "good_id (md_obj_id m)" if "get_metadata p (mw_store (worker_of c)) = Inr m" for m
    using ready that by (auto simp: upload_ready_def)
  have host: "ce_faults cenv = no_faults" using well by (simp add: healthy_def)
  have up: "nul_free p" "length p < 2 ^ 31" "open_in no_faults (cl_disk c) (ce_located cenv src) = Inr content" "length content < 2 ^ 64"
    "\<not> being_written p (pending_writes (worker_of c))" using ready host by (simp_all add: upload_ready_def)
  from nodes.upload_succeeds [OF ok [unfolded cluster_system] up(1,2) host up(3,4) small ids up(5) healthy_startable [OF ok ready well]]
  obtain c1 where c1: "write_file cenv src p c = (Inr (Inr ()), c1)"
    and on: "content \<noteq> [] \<longrightarrow> (\<exists>m. get_metadata p (mw_store (worker_of c1)) = Inr m
       \<and> list_all (node_available (mw_nodes (worker_of c))) [md_replica_0 m, md_replica_1 m])" by blast
  note done1 = uploaded_on_replicas [OF ok ready c1]
  have seen: "seen_recently now (mw_nodes (worker_of c1)) r" if "seen_recently now (mw_nodes (worker_of c)) r" for r
  proof -
    have out: "ce_outside cenv = node_outside env now client server" using ok by (simp add: cluster_ok_def)
    have "keeps (\<lambda>c. still_seen now r (net_outside (cl_net c))) (write_file cenv src p)"
      by (rule write_keeps) (simp_all add: out node_keeps_seen)
    from passesD [OF this _ c1] that have "still_seen now r (net_outside (cl_net c1))" by (simp add: still_seen_def)
    moreover have "\<not> mn_stopping (net_outside (cl_net c1))" using done1 by (simp add: cluster_ok_def idle_def)
    ultimately show ?thesis by (simp add: still_seen_def)
  qed
  have "replica_left hosts now p c1" if "content \<noteq> []"
  proof -
    from on that obtain m where m: "get_metadata p (mw_store (worker_of c1)) = Inr m"
      "node_available (mw_nodes (worker_of c)) (md_replica_0 m)" by auto
    with well have r: "seen_recently now (mw_nodes (worker_of c)) (md_replica_0 m)" "\<forall>s. willing (hosts (md_replica_0 m) s)"
      by (simp_all add: healthy_def)
    from done1 m(1) that have "worker_at (md_replica_0 m) (storage_nodes c1) \<noteq> None" by (auto simp: file_on_replicas_def)
    with m(1) seen [OF r(1)] r(2) show ?thesis by (auto simp: replica_left_def readable_def willing_def no_faults_def)
  qed
  with c1 done1 on seen show ?thesis by blast
qed

end
