(* ===== verification/Removal.thy ===== *)
theory Removal
  imports EndToEnd
begin

text \<open>
  Removing a file: the metadata node has both replicas delete the object before it drops the
  entry, so a removal that the client saw succeed leaves neither, and a removal never touches
  another entry or another object, whatever it answers.
\<close>

section \<open>The requests to the replicas\<close>

definition delete_call :: "NodeIdentity \<Rightarrow> u64 \<Rightarrow> string \<Rightarrow> storage_call" where
  "delete_call self rid oid =
     \<lparr>call_sender = self, call_id = rid, call_request = Delete \<lparr>dlq_object_id = oid, dlq_context = empty_context\<rparr>\<rparr>"

lemma delete_frame:
  "encode_delete_request rid \<lparr>dlq_object_id = oid, dlq_context = empty_context\<rparr> = Inr (call_frame (delete_call self rid oid))"
  by (simp add: call_frame_def delete_call_def delete_request.enc_frame)

lemma delete_object_status: "storage_status_ok (fst (delete_object h oid w))"
  by (auto simp: delete_object_def Let_def split: sum.splits prod.splits)

lemma delete_reply_matches:
  "make_message_is storage_rpc rid DELETE Response r match_any_body (reply_to h (delete_call self rid oid) w n) \<longleftrightarrow> n = r"
  by (auto simp: reply_to_def answer_def delete_call_def delete_response.enc_frame storage_identity_def
      storage_job.make_message_is_back body_fits_def match_any_body_def get_return_def split: prod.split)

lemma delete_reply_reads:
  "and_then (read_message storage_rpc (reply_to h (delete_call self rid oid) w n)) decode_delete_response =
     Inr \<lparr>dlr_status = fst (delete_object h oid w)\<rparr>"
proof -
  obtain st w' where w: "delete_object h oid w = (st, w')" by fastforce
  have "storage_status_ok st" using delete_object_status [of h oid w] w by simp
  with delete_response.received [of "\<lparr>dlr_status = st\<rparr>" "storage_identity n" rid] w show ?thesis
    by (auto simp: reply_to_def answer_def delete_call_def delete_response.enc_frame body_fits_def)
qed

text \<open>One round of the loop that waits for the replicas.\<close>

definition delete_acknowledged :: "'e Env \<Rightarrow> u64 \<Rightarrow> NodeId \<Rightarrow> ('e, bool) worker_act" where
  "delete_acknowledged env rid replica =
     act_then (receive_if env (make_message_is storage_rpc rid DELETE Response replica match_any_body)) (\<lambda>message.
       act_return (case message of
         None \<Rightarrow> False
       | Some m \<Rightarrow> (case and_then (read_message storage_rpc m) decode_delete_response of
             Inl _ \<Rightarrow> False
           | Inr response \<Rightarrow> dlr_status response = StSuccess)))"

lemma deletes_acknowledged_rounds:
  "deletes_acknowledged env rid (r # rs) =
     act_then (delete_acknowledged env rid r) (\<lambda>ok. act_then (deletes_acknowledged env rid rs) (\<lambda>oks. act_return (ok \<and> oks)))"
  unfolding deletes_acknowledged.simps delete_acknowledged_def then_assoc Let_def
  by (intro arg_cong2 [where f = act_then] ext refl) (simp add: act_then_def act_return_def)

text \<open>Without faults and with no directory in the way, an object is deleted.\<close>

lemma remove_no_faults:
  assumes "disk_wf d" "plain_path p" "p \<noteq> []" "node_at d (butlast p) = Some Dir" "node_at d p \<noteq> Some Dir"
  shows "\<exists>b. fs_remove no_faults d p = (Inr b, if node_at d p = None then d else AList.delete p d) \<and> (b \<longleftrightarrow> node_at d p \<noteq> None)"
proof -
  have "resolve d [] p = Inr p" using resolve_plain_dirs [OF assms(1-3), of "[]"] assms(4) by simp
  with assms(5) show ?thesis
    by (auto simp: fs_remove_def no_faults_def split: option.split node.split)
qed

lemma object_deleted:
  assumes h: "sh_faults h = no_faults" and inv: "worker_inv v" "tidy v" and oid: "proper_id oid"
  shows "fst (delete_object h oid v) = StSuccess"
proof -
  let ?final = "objects_directory v @ [oid]" and ?tmp = "objects_directory v @ [oid @ ''.tmp'']"
  note pl = proper_plain [OF inv(1) oid]
  have tmp: "temporary ?final = ?tmp" using pl(3,4) by simp
  have wf: "disk_wf (sw_disk v)" "node_at (sw_disk v) (objects_directory v) = Some Dir" using inv(1) by (simp_all add: worker_inv_def)
  obtain b d1 where d1: "fs_remove no_faults (sw_disk v) ?final = (Inr b, d1)"
    "d1 = (if node_at (sw_disk v) ?final = None then sw_disk v else AList.delete ?final (sw_disk v))"
    using remove_no_faults [OF wf(1) pl(1)] wf(2) inv(2) by (auto simp: tidy_def)
  have same: "node_at d1 l = node_at (sw_disk v) l" if "l \<noteq> ?final" for l using that by (simp add: d1(2) node_at_def)
  have wf1: "disk_wf d1" using remove_ok [OF d1(1) wf(1) pl(1)] by blast
  obtain b' d2 where "fs_remove no_faults d1 ?tmp = (Inr b', d2)"
    using remove_no_faults [OF wf1 pl(2)] wf(2) inv(2) same by (auto simp: tidy_def)
  with d1(1) oid show ?thesis by (simp add: delete_object_def proper_id_def Let_def pl(3) tmp h)
qed

section \<open>Both replicas\<close>

context storage_service
begin

lemma delete_takes_replies:
  assumes env: "env_outside env = out"
  shows "takes_replies (delete_call self rid oid) (\<lambda>h w. fst (delete_object h oid w) = StSuccess) (delete_acknowledged env rid)"
  unfolding takes_replies_def
proof (intro allI impI)
  fix H W q e r ns and s :: "'e MetadataWorker"
  assume wait: "meanwhile out (net_queue (mw_net s)) (net_outside (mw_net s)) = (q, e)"
    and q: "mset q = mset (replies_to H W (delete_call self rid oid) (r # ns))" and d: "r \<notin> set ns"
  from reply_taken [OF q d delete_reply_matches] obtain q' where q':
    "pop_if (make_message_is storage_rpc rid DELETE Response r match_any_body) q =
      (map_option (\<lambda>w. reply_to (H r) (delete_call self rid oid) w r) (W r), q')"
    "mset q' = mset (replies_to H W (delete_call self rid oid) ns)" by blast
  have run: "delete_acknowledged env rid r s = (Inr (\<exists>w. W r = Some w \<and> fst (delete_object (H r) oid w) = StSuccess),
      s\<lparr>mw_net := (mw_net s)\<lparr>net_queue := q', net_outside := e\<rparr>\<rparr>)"
    using q'(1) wait env delete_reply_reads
    by (cases "W r") (simp_all add: delete_acknowledged_def receive_if_def act_then_def act_step_def act_return_def await_if_def)
  show "\<exists>s'. delete_acknowledged env rid r s = (Inr (\<exists>w. W r = Some w \<and> fst (delete_object (H r) oid w) = StSuccess), s')
      \<and> only_net s s' \<and> sent s' = sent s \<and> net_outside (mw_net s') = e
      \<and> mset (net_queue (mw_net s')) = mset (replies_to H W (delete_call self rid oid) ns)"
    unfolding run using q'(2) by (simp add: only_net_def)
qed

text \<open>Node \<open>r\<close> runs without the object, and it can delete it if it has it.\<close>

definition gone_at :: "'e \<Rightarrow> string \<Rightarrow> NodeId \<Rightarrow> bool" where
  "gone_at e oid r \<longleftrightarrow> (\<exists>v. workers e r = Some v \<and> committed v oid = None \<and> staged v oid = None)"

definition deleting :: "'e \<Rightarrow> NodeId \<Rightarrow> bool" where
  "deleting e r \<longleftrightarrow> (\<forall>h. admits r h \<longrightarrow> sh_faults h = no_faults) \<and> (\<exists>v. workers e r = Some v \<and> tidy v)"

lemma deletes_outcome:
  assumes env: "env_outside env = out" and start: "net_queue (mw_net s) = []" "sound (net_outside (mw_net s))"
    and ne: "r0 \<noteq> r1" and oid: "good_id oid"
  shows "\<exists>b s' posted. act_then (call_each env (delete_call self rid oid) [r0, r1]) (\<lambda>_. deletes_acknowledged env rid [r0, r1]) s = (Inr b, s')
    \<and> only_net s s' \<and> sent s' = sent s @ posted \<and> net_queue (mw_net s') = [] \<and> sound (net_outside (mw_net s'))
    \<and> (\<forall>n. rel_option (only_object oid) (workers (net_outside (mw_net s)) n) (workers (net_outside (mw_net s')) n))
    \<and> (b \<longrightarrow> (\<forall>r \<in> {r0, r1}. gone_at (net_outside (mw_net s')) oid r))
    \<and> ((\<forall>r \<in> {r0, r1}. deleting (net_outside (mw_net s)) r) \<longrightarrow> b)"
proof -
  let ?c = "delete_call self rid oid" and ?W = "workers (net_outside (mw_net s))"
  have proper: "proper_id oid" using oid by (simp add: good_id_def)
  have c: "StorageNode.call_ok ?c" "call_sender ?c = self" using oid by (simp_all add: StorageNode.call_ok_def delete_call_def good_id_def)
  have ready: "ready (net_outside (mw_net s))" and inv: "\<And>n v. ?W n = Some v \<Longrightarrow> worker_inv v" using start(2) by (simp_all add: sound_def)
  define b where "b = (\<lambda>H. \<forall>r \<in> {r0, r1}. \<exists>w. ?W r = Some w \<and> fst (delete_object (H r) oid w) = StSuccess)"
  from both_called [OF env start(1) ready ne c deletes_acknowledged.simps(1) deletes_acknowledged_rounds delete_takes_replies [OF env]]
  obtain H s' where s': "act_then (call_each env ?c [r0, r1]) (\<lambda>_. deletes_acknowledged env rid [r0, r1]) s = (Inr (b H), s')"
    "only_net s s'" "sent s' = sent s @ [(r0, call_frame ?c), (r1, call_frame ?c)]"
    "net_queue (mw_net s') = []" "ready (net_outside (mw_net s'))" "\<forall>n. admits n (H n)"
    "workers (net_outside (mw_net s')) = after_calls H [(r0, ?c), (r1, ?c)] ?W"
    unfolding b_def by blast
  let ?W' = "workers (net_outside (mw_net s'))"
  have ans: "snd (answer h ?c w) = snd (delete_object h oid w)" for h w by (simp add: answer_def delete_call_def split: prod.split)
  have at: "?W' n = map_option (\<lambda>w. if n \<in> {r0, r1} then snd (delete_object (H n) oid w) else w) (?W n)" for n
    using ne by (auto simp: s'(7) after_calls_def ans option.map_ident [unfolded id_def])
  have one: "only_object oid w (if n \<in> {r0, r1} then snd (delete_object (H n) oid w) else w)" if "?W n = Some w" for n w
    using delete_outcome [OF prod.collapse [symmetric] inv [OF that] proper, of "H n"] inv [OF that] by (auto simp: only_object_def)
  have rel: "rel_option (only_object oid) (?W n) (?W' n)" for n
    using one [of n] by (cases "?W n") (simp_all add: at)
  have "worker_inv v" if "?W' n = Some v" for n v
    using rel [of n] that by (auto simp: option_rel_Some2 only_object_def)
  then have "sound (net_outside (mw_net s'))" using s'(5) by (simp add: sound_def)
  moreover have "gone_at (net_outside (mw_net s')) oid r" if "b H" "r \<in> {r0, r1}" for r
  proof -
    from that obtain w where w: "?W r = Some w" "fst (delete_object (H r) oid w) = StSuccess" by (auto simp: b_def)
    with delete_outcome [OF prod.collapse [symmetric] inv [OF w(1)] proper, of "H r"] at [of r] that(2) show ?thesis
      by (auto simp: gone_at_def)
  qed
  moreover have "b H" if "\<forall>r \<in> {r0, r1}. deleting (net_outside (mw_net s)) r"
    unfolding b_def
  proof
    fix r
    assume "r \<in> {r0, r1}"
    with that s'(6) obtain w where "?W r = Some w" "tidy w" "sh_faults (H r) = no_faults" by (auto simp: deleting_def)
    with object_deleted [OF _ inv _ proper] show "\<exists>w. ?W r = Some w \<and> fst (delete_object (H r) oid w) = StSuccess" by blast
  qed
  ultimately show ?thesis using s'(1-4) rel by (intro exI [of _ "b H"] exI [of _ s']) blast
qed

end

section \<open>The handler\<close>

definition remove_frame :: "u64 \<Rightarrow> ClientStatus \<Rightarrow> Frame" where
  "remove_frame rid st = rpc_frame client_rpc rid REMOVE Response [client_status_to_u8 st]"

lemma remove_replies:
  "remove_reply env req st w = (Inr (), w\<lparr>mw_net := post_frame (env_outside env) (peer_id (ctx_sender (rmq_context req)))
     (remove_frame (ctx_request_id (rmq_context req)) st) (mw_net w)\<rparr>)"
  by (simp add: remove_reply_def remove_frame_def respond_run [where enc = encode_remove_response, OF remove_response.enc_frame])

text \<open>A storage node keeps every object but that of the file at \<open>p\<close>.\<close>

definition kept_but :: "path \<Rightarrow> Store \<Rightarrow> StorageWorker \<Rightarrow> StorageWorker \<Rightarrow> bool" where
  "kept_but p st v v' \<longleftrightarrow> (\<forall>oid. proper_id oid \<and> (\<forall>m. get_metadata p st = Inr m \<longrightarrow> oid \<noteq> md_obj_id m)
     \<longrightarrow> committed v' oid = committed v oid)"

lemma entry_removed:
  assumes h: "host_faults h = no_faults" and inv: "store_inv s" and m: "get_metadata p s = Inr m"
  shows "fst (remove_metadata h p s) = Inr ()"
proof -
  have valid: "valid_filename p" and at: "map_of (ms_data s) (elems p) = Some m"
    using m by (auto simp: get_metadata_def split: if_splits option.splits)
  note good = valid_good [OF valid]
  have "stored_file s (elems p) = Some (metadata_bytes m)" using store_invD(6) [OF inv good] at by simp
  then obtain b where b: "node_at (ms_disk s) (physical s (elems p)) = Some (File b)"
    by (auto simp: stored_file_def physical_def split: option.splits node.splits)
  then have "resolve (ms_disk s) [] (physical s (elems p)) = Inr (physical s (elems p))"
    using resolve_node [OF store_invD(1) [OF inv] physical_plain [OF inv good]] by blast
  with b valid h show ?thesis by (simp add: remove_metadata_def fs_remove_def no_faults_def)
qed

context storage_service
begin

text \<open>The state a removal that was answered with \<open>st\<close> leaves, and when it has to succeed.\<close>

definition settled :: "path \<Rightarrow> NodeId \<Rightarrow> 'e MetadataWorker \<Rightarrow> ClientStatus \<Rightarrow> 'e MetadataWorker \<Rightarrow> bool" where
  "settled p c s st t \<longleftrightarrow> client_status_ok st \<and> at_rest c t
     \<and> name_space (mw_store t) = (if st = Success then (name_space (mw_store s))(elems p := None) else name_space (mw_store s))
     \<and> (\<forall>n. rel_option (kept_but p (mw_store s)) (workers (net_outside (mw_net s)) n) (workers (net_outside (mw_net t)) n))
     \<and> (st = Success \<longrightarrow> valid_filename p \<and> (\<forall>m. get_metadata p (mw_store s) = Inr m \<longrightarrow> md_replica_0 m \<noteq> [] \<longrightarrow>
          (\<forall>r \<in> {md_replica_0 m, md_replica_1 m}. gone_at (net_outside (mw_net t)) (md_obj_id m) r)))"

definition removable :: "Host \<Rightarrow> path \<Rightarrow> 'e MetadataWorker \<Rightarrow> bool" where
  "removable h p s \<longleftrightarrow> host_faults h = no_faults \<and> \<not> being_written p (pending_writes s)
     \<and> (\<exists>m. get_metadata p (mw_store s) = Inr m \<and> md_obj_id m \<noteq> []
        \<and> (if md_replica_0 m = [] then md_replica_1 m = []
           else md_replica_1 m \<noteq> [] \<and> md_replica_0 m \<noteq> md_replica_1 m
             \<and> (\<forall>r \<in> {md_replica_0 m, md_replica_1 m}. node_available (mw_nodes s) r \<and> deleting (net_outside (mw_net s)) r)))"

definition removal_answered :: "Host \<Rightarrow> path \<Rightarrow> NodeId \<Rightarrow> u64 \<Rightarrow> 'e MetadataWorker \<Rightarrow> 'e MetadataWorker \<Rightarrow> bool" where
  "removal_answered h p c rid s s' \<longleftrightarrow> (\<exists>st posted. sent s' = sent s @ posted @ [(c, remove_frame rid st)]
     \<and> settled p c s st s' \<and> (removable h p s \<longrightarrow> st = Success))"

lemma removal_replied:
  fixes t s :: "'e MetadataWorker" and req :: RemoveRequest
  defines "c \<equiv> peer_id (ctx_sender (rmq_context req))" and "rid \<equiv> ctx_request_id (rmq_context req)"
  assumes env: "env_outside env = out" and t: "settled p c s st t" "sent t = sent s @ posted" "removable h p s \<longrightarrow> st = Success"
  shows "\<exists>s'. remove_reply env req st t = (Inr (), s') \<and> removal_answered h p c rid s s'"
proof -
  let ?s = "t\<lparr>mw_net := post_frame out c (remove_frame rid st) (mw_net t)\<rparr>"
  have "sound (net_outside (mw_net t))" "workers (net_outside (mw_net t)) c = None" using t(1) by (simp_all add: settled_def at_rest_def)
  note post = sound_elsewhere [OF this]
  have "settled p c s st ?s" using t(1) post by (simp add: settled_def at_rest_def gone_at_def post_frame_def)
  moreover have "sent ?s = sent s @ posted @ [(c, remove_frame rid st)]" using t(2) by (simp add: post_frame_def)
  ultimately show ?thesis using t(3) env by (auto simp: remove_replies c_def rid_def removal_answered_def)
qed

lemma entry_dropped:
  fixes t s :: "'e MetadataWorker" and req :: RemoveRequest
  defines "c \<equiv> peer_id (ctx_sender (rmq_context req))" and "rid \<equiv> ctx_request_id (rmq_context req)"
  assumes env: "env_outside env = out" and t: "mw_store t = mw_store s" "at_rest c t" "sent t = sent s @ posted"
    and rel: "\<And>n. rel_option (kept_but p (mw_store s)) (workers (net_outside (mw_net s)) n) (workers (net_outside (mw_net t)) n)"
    and m: "get_metadata p (mw_store s) = Inr m" "store_inv (mw_store s)"
    and gone: "md_replica_0 m \<noteq> [] \<Longrightarrow> \<forall>r \<in> {md_replica_0 m, md_replica_1 m}. gone_at (net_outside (mw_net t)) (md_obj_id m) r"
  shows "\<exists>s'. act_then (on_store (remove_metadata (env_host env) p)) (\<lambda>r. remove_reply env req (client_status_of r)) t = (Inr (), s')
    \<and> removal_answered (env_host env) p c rid s s'"
proof -
  obtain r st' where rm: "remove_metadata (env_host env) p (mw_store s) = (r, st')" by fastforce
  from remove_outcome [OF rm m(2)] have name: "r = Inr () \<Longrightarrow> valid_filename p \<and> name_space st' = (name_space (mw_store s))(elems p := None)"
    "r \<noteq> Inr () \<Longrightarrow> st' = mw_store s" by auto
  have status: "client_status_of r = Success \<longleftrightarrow> r = Inr ()" "client_status_ok (client_status_of r)"
    by (cases r rule: client_status_of.cases; simp)+
  have "settled p c s (client_status_of r) (t\<lparr>mw_store := st'\<rparr>)"
    using t(2) rel gone name m(1) status by (cases "r = Inr ()") (simp_all add: settled_def at_rest_def)
  moreover have "removable (env_host env) p s \<longrightarrow> client_status_of r = Success"
    using entry_removed [OF _ m(2,1), of "env_host env"] rm status by (auto simp: removable_def)
  ultimately have "\<exists>s'. remove_reply env req (client_status_of r) (t\<lparr>mw_store := st'\<rparr>) = (Inr (), s') \<and> removal_answered (env_host env) p c rid s s'"
    unfolding c_def rid_def using t(3) by (intro removal_replied [OF env]) simp_all
  then show ?thesis using rm t(1) by (simp add: act_then_def on_store_def act_step_def)
qed

lemma file_removed:
  fixes s :: "'e MetadataWorker" and req :: RemoveRequest
  defines "c \<equiv> peer_id (ctx_sender (rmq_context req))" and "rid \<equiv> ctx_request_id (rmq_context req)" and "p \<equiv> rmq_path req"
  assumes env: "env_outside env = out" and rest: "at_rest c s"
    and m: "get_metadata p (mw_store s) = Inr m" "store_inv (mw_store s)"
    and oid: "md_replica_0 m \<noteq> [] \<Longrightarrow> good_id (md_obj_id m)"
  shows "\<exists>s'. remove_file env req m s = (Inr (), s') \<and> removal_answered (env_host env) p c rid s s'"
proof -
  let ?r0 = "md_replica_0 m" and ?r1 = "md_replica_1 m" and ?e = "net_outside (mw_net s)"
  have same: "rel_option (kept_but p (mw_store s)) x x" for x
    by (simp add: kept_but_def option.rel_refl)
  have refused: "\<exists>s'. remove_reply env req ServerError t = (Inr (), s') \<and> removal_answered (env_host env) p c rid s s'"
    if "mw_store t = mw_store s" "at_rest c t" "sent t = sent s @ posted" "\<not> removable (env_host env) p s"
      "\<And>n. rel_option (kept_but p (mw_store s)) (workers ?e n) (workers (net_outside (mw_net t)) n)" for t posted
    unfolding c_def rid_def using that by (intro removal_replied [OF env]) (simp_all add: settled_def c_def)
  note refused0 = refused [of s "[]", OF refl rest _ _ same]
  consider "(?r0 \<noteq> []) \<noteq> (?r1 \<noteq> []) \<or> (?r0 \<noteq> [] \<and> ?r0 = ?r1) \<or> md_obj_id m = []"
    | "?r0 = []" "?r1 = []" "md_obj_id m \<noteq> []"
    | "?r0 \<noteq> []" "?r1 \<noteq> []" "?r0 \<noteq> ?r1" "md_obj_id m \<noteq> []" "\<not> list_all (node_available (mw_nodes s)) [?r0, ?r1]"
    | "?r0 \<noteq> []" "?r1 \<noteq> []" "?r0 \<noteq> ?r1" "md_obj_id m \<noteq> []" "list_all (node_available (mw_nodes s)) [?r0, ?r1]" by auto
  then show ?thesis
  proof cases
    case 1
    then have "\<not> removable (env_host env) p s" by (auto simp: removable_def m(1) split: if_splits)
    from refused0 [OF _ this] show ?thesis unfolding remove_file_def Let_def if_P [OF 1] by simp
  next
    case 2
    from entry_dropped [where req = req and posted = "[]", OF env refl rest [unfolded c_def] _ same m] 2 show ?thesis
      by (simp add: remove_file_def Let_def c_def rid_def p_def)
  next
    case 3
    then have "\<not> removable (env_host env) p s" by (auto simp: removable_def m(1))
    from refused0 [OF _ this] 3 show ?thesis by (simp add: remove_file_def Let_def act_then_def act_get_def)
  next
    case 4
    define i where "i = current_storage_request_id s + 1"
    define s1 where "s1 = s\<lparr>current_storage_request_id := i\<rparr>"
    have s1: "mw_net s1 = mw_net s" "mw_store s1 = mw_store s" by (simp_all add: s1_def)
    have good: "good_id (md_obj_id m)" using oid 4 by simp
    have start: "net_queue (mw_net s1) = []" "sound (net_outside (mw_net s1))" using rest by (simp_all add: at_rest_def s1)
    from deletes_outcome [OF env start 4(3) good, of i] obtain b s2 posted where s2:
      "act_then (call_each env (delete_call self i (md_obj_id m)) [?r0, ?r1]) (\<lambda>_. deletes_acknowledged env i [?r0, ?r1]) s1 = (Inr b, s2)"
      "only_net s1 s2" "sent s2 = sent s @ posted" "net_queue (mw_net s2) = []" "sound (net_outside (mw_net s2))"
      "\<And>n. rel_option (only_object (md_obj_id m)) (workers ?e n) (workers (net_outside (mw_net s2)) n)"
      "b \<Longrightarrow> \<forall>r \<in> {?r0, ?r1}. gone_at (net_outside (mw_net s2)) (md_obj_id m) r"
      "(\<forall>r \<in> {?r0, ?r1}. deleting ?e r) \<Longrightarrow> b" unfolding s1 by blast
    have "kept_but p (mw_store s) v v'" if "only_object (md_obj_id m) v v'" for v v'
      using that by (auto simp: only_object_def kept_but_def m(1))
    then have rel: "rel_option (kept_but p (mw_store s)) (workers ?e n) (workers (net_outside (mw_net s2)) n)" for n
      using option.rel_mono_strong [OF s2(6)] by blast
    have store: "mw_store s2 = mw_store s" using only_netD(1) [OF s2(2)] s1 by simp
    have "workers (net_outside (mw_net s2)) c = None" using s2(6) [of c] rest by (simp add: at_rest_def)
    then have rest2: "at_rest c s2" using s2(4,5) by (simp add: at_rest_def)
    have numbered: "act_then (act_get mw_nodes) f s = f (mw_nodes s) s" "act_then next_storage_request_id g s = g i s1"
      for f :: "(NodeId \<times> StorageNodeInfo) list \<Rightarrow> ('e, unit) worker_act" and g :: "u64 \<Rightarrow> ('e, unit) worker_act"
      by (simp_all add: act_then_def act_get_def next_storage_request_id_def act_step_def Let_def i_def s1_def)
    let ?finish = "\<lambda>b. if \<not> b then remove_reply env req ServerError
      else act_then (on_store (remove_metadata (env_host env) p)) (\<lambda>r. remove_reply env req (client_status_of r))"
    have "remove_file env req m s = act_then (act_then (call_each env (delete_call self i (md_obj_id m)) [?r0, ?r1])
        (\<lambda>_. deletes_acknowledged env i [?r0, ?r1])) ?finish s1"
      unfolding then_assoc p_def using 4
      by (simp add: remove_file_def Let_def numbered call_each_def delete_frame [of i "md_obj_id m" self]
          del: deletes_acknowledged.simps)
    also have "\<dots> = ?finish b s2" by (simp add: act_then_def [of "act_then x y" for x y] s2(1) del: deletes_acknowledged.simps)
    finally have run: "remove_file env req m s = ?finish b s2" .
    show ?thesis
    proof (cases b)
      case True
      from entry_dropped [where req = req, OF env store rest2 [unfolded c_def] s2(3) rel m s2(7) [OF True]] True show ?thesis
        unfolding run c_def rid_def by simp
    next
      case False
      have "\<not> removable (env_host env) p s"
      proof
        assume "removable (env_host env) p s"
        with 4 s2(8) False show False by (auto simp: removable_def m(1))
      qed
      from refused [OF store rest2 s2(3) this rel] False show ?thesis unfolding run by simp
    qed
  qed
qed

lemma remove_handled:
  fixes s :: "'e MetadataWorker" and req :: RemoveRequest
  defines "c \<equiv> peer_id (ctx_sender (rmq_context req))" and "rid \<equiv> ctx_request_id (rmq_context req)" and "p \<equiv> rmq_path req"
  assumes env: "env_outside env = out" and rest: "at_rest c s" and inv: "store_inv (mw_store s)"
    and oid: "\<And>m. get_metadata p (mw_store s) = Inr m \<Longrightarrow> md_replica_0 m \<noteq> [] \<Longrightarrow> good_id (md_obj_id m)"
  shows "\<exists>s'. handle_remove env req s = (Inr (), s') \<and> removal_answered (env_host env) p c rid s s'"
proof -
  have same: "rel_option (kept_but p (mw_store s)) x x" for x
    by (simp add: kept_but_def option.rel_refl)
  have no_entry: "\<exists>s'. remove_reply env req st (s\<lparr>mw_store := st'\<rparr>) = (Inr (), s') \<and> removal_answered (env_host env) p c rid s s'"
    if "client_status_ok st" "name_space st' = name_space (mw_store s)" "\<not> removable (env_host env) p s"
      "st = Success \<Longrightarrow> valid_filename p \<and> get_metadata p (mw_store s) = Inl NOT_FOUND" for st st'
  proof -
    have "(name_space (mw_store s))(elems p := None) = name_space (mw_store s)" if "st = Success"
      using that(1) \<open>st = Success \<Longrightarrow> _\<close> by (auto simp: get_metadata_def name_space_def fun_eq_iff split: option.splits)
    with that rest same have "settled p c s st (s\<lparr>mw_store := st'\<rparr>)" by (auto simp: settled_def at_rest_def)
    then show ?thesis unfolding c_def rid_def using that(3) by (intro removal_replied [OF env, where posted = "[]"]) simp_all
  qed
  consider "being_written p (pending_writes s)" | e where "\<not> being_written p (pending_writes s)" "get_metadata p (mw_store s) = Inl e"
    | m where "\<not> being_written p (pending_writes s)" "get_metadata p (mw_store s) = Inr m"
    by (cases "get_metadata p (mw_store s)") auto
  then show ?thesis
  proof cases
    case 1
    with no_entry [of ServerError "mw_store s"] show ?thesis
      by (simp add: handle_remove_def act_then_def act_get_def removable_def p_def)
  next
    case 2
    then have not: "\<not> removable (env_host env) p s" by (simp add: removable_def)
    show ?thesis
    proof (cases "e = NOT_FOUND")
      case False
      let ?st = "client_status_of (Inl e :: MetadataStoreError + FileMetadata)"
      have "?st \<noteq> Success \<and> client_status_ok ?st"
        by (cases e) simp_all
      with no_entry [of ?st "mw_store s"] not 2 False show ?thesis
        by (simp add: handle_remove_def act_then_def act_get_def p_def)
    next
      case True
      obtain r st' where rm: "remove_directory (env_host env) p (mw_store s) = (r, st')" by fastforce
      have "client_status_ok (client_status_of r)" by (cases r rule: client_status_of.cases) simp_all
      moreover have "name_space st' = name_space (mw_store s)"
        using remove_directory_outcome [OF rm inv] by (simp add: name_space_def fun_eq_iff)
      moreover have "valid_filename p" using 2 True by (auto simp: get_metadata_def split: if_splits)
      ultimately have "\<exists>s'. remove_reply env req (client_status_of r) (s\<lparr>mw_store := st'\<rparr>) = (Inr (), s') \<and> removal_answered (env_host env) p c rid s s'"
        using not 2 True by (intro no_entry) simp_all
      with rm 2 True show ?thesis by (simp add: handle_remove_def act_then_def act_get_def on_store_def act_step_def p_def)
    qed
  next
    case 3
    from file_removed [OF env rest [unfolded c_def] 3(2) [unfolded p_def] inv] oid 3 show ?thesis
      by (simp add: handle_remove_def act_then_def act_get_def c_def rid_def p_def)
  qed
qed

section \<open>The operation of the client\<close>

text \<open>A removal draws no object id.\<close>

lemma same_draws:
  "(\<And>s. mw_draws (f s) = mw_draws s) \<Longrightarrow> keeps (\<lambda>s. mw_draws s = d) (act_modify f)"
  "(\<And>s. mw_draws (snd (g s)) = mw_draws s) \<Longrightarrow> keeps (\<lambda>s. mw_draws s = d) (act_step g)"
  by (simp_all add: passes_def wp_rules case_prod_unfold)

lemma remove_draws: "keeps (\<lambda>s. mw_draws s = d) (handle_remove env req)"
proof -
  let ?K = "\<lambda>m. keeps (\<lambda>s. mw_draws s = d) m"
  have quiet: "?K (send env n f)" "?K (receive_if env p)" "?K (on_store g)" "?K next_storage_request_id" for n f p g
    unfolding send_def receive_if_def on_store_def next_storage_request_id_def
    by (auto intro!: same_draws simp: Let_def case_prod_unfold)
  have reply: "?K (remove_reply env req st)" for st
    unfolding remove_reply_def respond_def by (intro passes_intros quiet)
  have waits: "?K (deletes_acknowledged env rid rs)" for rid rs
    by (induction rs) (auto intro!: passes_intros quiet simp: Let_def)
  have "?K (remove_file env req m)" for m
    unfolding remove_file_def Let_def by (intro passes_intros quiet reply waits)
  then show ?thesis
    unfolding handle_remove_def by (intro passes_intros quiet reply)
qed

lemma remove_served:
  fixes c :: "'e MetadataNode Client"
  defines "s \<equiv> worker_of c"
  assumes sys: "system_ok env now client server cenv c" and p: "nul_free p" "length p < 2 ^ 31"
    and oid: "\<And>m. get_metadata p (mw_store s) = Inr m \<Longrightarrow> md_replica_0 m \<noteq> [] \<Longrightarrow> good_id (md_obj_id m)"
  shows "\<exists>st c'. client_remove cenv p c = (Inr (by_status st ()), c') \<and> system_ok env now client server cenv c'
    \<and> cl_disk c' = cl_disk c \<and> mw_draws (worker_of c') = mw_draws s \<and> settled p (peer_id client) s st (worker_of c') \<and> (removable (env_host env) p s \<longrightarrow> st = Success)"
proof -
  let ?rid = "current_id c + 1" and ?req = "\<lparr>rmq_path = p, rmq_context = empty_context\<rparr>"
  let ?ev = "RemoveEvent ?req" and ?ctx = "\<lparr>ctx_request_id = ?rid, ctx_sender = client\<rparr>"
  define c0 where "c0 = c\<lparr>current_id := ?rid\<rparr>"
  have c0: "worker_of c0 = s" "net_outside (cl_net c0) = net_outside (cl_net c)" by (simp_all add: c0_def s_def)
  have sys0: "system_ok env now client server cenv c0" using sys by (simp add: system_ok_def linked_def c0_def)
  from sys0 have parts: "env_outside env = out" "linked env now client server cenv c0" "idle (net_outside (cl_net c0))"
    "at_rest (peer_id client) s" "store_inv (mw_store s)" by (simp_all add: system_ok_def durable_def c0 s_def)
  from remove_handled [OF parts(1), of "?req\<lparr>rmq_context := ?ctx\<rparr>" s] parts(4,5) oid
  obtain s' where run: "handle env (with_context ?ctx ?ev) s = (Inr (), s')"
    and ans: "removal_answered (env_host env) p (peer_id client) ?rid s s'" by auto
  then obtain st posted where st: "sent s' = sent s @ posted @ [(peer_id client, remove_frame ?rid st)]"
    "settled p (peer_id client) s st s'" "removable (env_host env) p s \<longrightarrow> st = Success" by (auto simp: removal_answered_def)
  have good: "client_status_ok st" "at_rest (peer_id client) s'" using st(2) by (simp_all add: settled_def)
  have fits: "body_fits [client_status_to_u8 st]" by (simp add: body_fits_def)
  have "sendable ?ev" using p by (simp add: sendable_def)
  moreover have "encode_event ?rid ?ev = Inr (rpc_frame client_rpc ?rid REMOVE Request (bytes_of_string p @ [0]))"
    by (simp add: remove_request.enc_frame)
  ultimately have "\<exists>c'. call cenv ?rid (event_job ?ev) match_any_body encode_remove_request ?req decode_remove_response c0 =
      (Inr (Inr \<lparr>rmr_status = st\<rparr>), c') \<and> linked env now client server cenv c'
    \<and> cl_disk c' = cl_disk c0 \<and> current_id c' = current_id c0
    \<and> net_outside (cl_net c') = (net_outside (cl_net c0))\<lparr>mn_worker := s'\<lparr>mw_nodes := check_heartbeat_timeouts now (mw_nodes s')\<rparr>\<rparr>"
    using run st(1) fits good(1) remove_response.received [of "\<lparr>rmr_status = st\<rparr>" server ?rid]
    by (intro call_node [OF parts(2,3), where posted = posted])
      (auto simp: c0(1) remove_request.enc_frame remove_frame_def match_any_body_def get_return_def)
  then obtain c' where c': "call cenv ?rid REMOVE match_any_body encode_remove_request ?req decode_remove_response c0 =
      (Inr (Inr \<lparr>rmr_status = st\<rparr>), c')" "linked env now client server cenv c'" "cl_disk c' = cl_disk c0"
    "net_outside (cl_net c') = (net_outside (cl_net c0))\<lparr>mn_worker := s'\<lparr>mw_nodes := check_heartbeat_timeouts now (mw_nodes s')\<rparr>\<rparr>"
    by auto
  have "system_ok env now client server cenv c'" by (rule system_step [OF sys0 run [folded c0(1)] good(2) c'(2,4)])
  moreover have "client_remove cenv p c = (Inr (by_status st ()), c')"
    using c'(1) by (simp add: client_remove_def simple_call_def act_then_def next_id_def act_step_def Let_def c0_def act_return_def)
  moreover have "settled p (peer_id client) s st (worker_of c')"
    using st(2) c'(4) by (simp add: settled_def at_rest_def)
  moreover have "mw_draws (worker_of c') = mw_draws s"
    using passesD [OF remove_draws refl, of env "?req\<lparr>rmq_context := ?ctx\<rparr>" s] run c'(4) by simp
  ultimately show ?thesis using st(3) c'(3) by (auto simp: c0_def)
qed

end

section \<open>Removing on the cluster\<close>

text \<open>The file at \<open>p\<close> can be deleted: both replicas are available, and nothing fails there or on the metadata node.\<close>

definition deletable :: "(NodeId \<Rightarrow> StorageNode \<Rightarrow> StorageHost) \<Rightarrow> nodes Env \<Rightarrow> nodes MetadataNode Client \<Rightarrow> path \<Rightarrow> bool" where
  "deletable hosts env c p \<longleftrightarrow> host_faults (env_host env) = no_faults \<and> \<not> being_written p (pending_writes (worker_of c))
     \<and> (\<exists>m. get_metadata p (mw_store (worker_of c)) = Inr m \<and> md_replica_0 m \<noteq> [] \<and> md_replica_1 m \<noteq> [] \<and> md_replica_0 m \<noteq> md_replica_1 m
        \<and> (\<forall>r \<in> {md_replica_0 m, md_replica_1 m}. node_available (mw_nodes (worker_of c)) r
             \<and> (\<forall>s. sh_faults (hosts r s) = no_faults) \<and> (\<exists>v. worker_at r (storage_nodes c) = Some v \<and> tidy v)))"

definition bound_ids_good :: "path \<Rightarrow> Store \<Rightarrow> bool" where
  "bound_ids_good p st \<longleftrightarrow> (case get_metadata p st of Inl _ \<Rightarrow> True | Inr m \<Rightarrow> md_replica_0 m = [] \<or> good_id (md_obj_id m))"

lemma removal_outcome:
  assumes sys: "cluster_ok hosts env now client server cenv c" and p: "nul_free p" "length p < 2 ^ 31"
    and oid: "bound_ids_good p (mw_store (worker_of c))"
  shows "\<exists>st c'. client_remove cenv p c = (Inr (by_status st ()), c') \<and> cluster_ok hosts env now client server cenv c'
    \<and> cl_disk c' = cl_disk c \<and> mw_draws (worker_of c') = mw_draws (worker_of c) \<and> nodes.settled p (peer_id client) (worker_of c) st (worker_of c')
    \<and> (deletable hosts env c p \<longrightarrow> st = Success)"
proof -
  have "nodes.removable hosts (env_host env) p (worker_of c)" if d: "deletable hosts env c p"
  proof -
    from d obtain m where m: "get_metadata p (mw_store (worker_of c)) = Inr m" "md_replica_0 m \<noteq> []" "md_replica_1 m \<noteq> []"
      "md_replica_0 m \<noteq> md_replica_1 m"
      "\<And>r. r \<in> {md_replica_0 m, md_replica_1 m} \<Longrightarrow> node_available (mw_nodes (worker_of c)) r
        \<and> (\<forall>s. sh_faults (hosts r s) = no_faults) \<and> (\<exists>v. worker_at r (storage_nodes c) = Some v \<and> tidy v)"
      unfolding deletable_def by blast
    have "md_obj_id m \<noteq> []" using oid m(1,2) by (auto simp: bound_ids_good_def good_id_def proper_id_def valid_object_id_iff)
    moreover have "nodes.deleting hosts (storage_nodes c) r" if "r \<in> {md_replica_0 m, md_replica_1 m}" for r
      using m(5) [OF that] by (auto simp: nodes.deleting_def host_of_def)
    moreover have "host_faults (env_host env) = no_faults" "\<not> being_written p (pending_writes (worker_of c))"
      using d by (simp_all add: deletable_def)
    ultimately show ?thesis using m(1-4) m(5) unfolding nodes.removable_def by (intro conjI exI [of _ m]) simp_all
  qed
  moreover have "good_id (md_obj_id m)" if "get_metadata p (mw_store (worker_of c)) = Inr m" "md_replica_0 m \<noteq> []" for m
    using oid that by (simp add: bound_ids_good_def)
  ultimately show ?thesis
    using nodes.remove_served [OF sys [unfolded cluster_system] p] by (auto simp: cluster_system)
qed

end
