(* ===== verification/Availability.thy ===== *)
theory Availability
  imports Progress Removal
begin

text \<open>
  The promise of the file system to a client: what it was told is stored can be read back after
  storage nodes are lost, as long as one replica is left.
\<close>

text \<open>An outage: storage node \<open>n\<close> is gone, and the metadata node has read its store again.\<close>

definition after_outage :: "NodeId \<Rightarrow> Store \<Rightarrow> nodes MetadataNode Client \<Rightarrow> nodes MetadataNode Client" where
  "after_outage n st c = c\<lparr>cl_net := (cl_net c)\<lparr>net_outside := (net_outside (cl_net c))\<lparr>mn_worker := (worker_of c)\<lparr>
     mw_store := st, pending_writes := [], mw_net := (mw_net (worker_of c))\<lparr>net_outside := AList.delete n (storage_nodes c)\<rparr>\<rparr>\<rparr>\<rparr>\<rparr>"

lemma after_outage_cluster:
  assumes "cluster_ok hosts env now client server cenv c" "store_inv st"
  shows "cluster_ok hosts env now client server cenv (after_outage n st c)"
proof -
  have sub: "set (AList.delete n xs) \<subseteq> set xs" for xs :: nodes by (auto simp: AList.delete_eq)
  have "all_resting (AList.delete n (storage_nodes c))"
    using assms(1) sub by (fastforce simp: cluster_ok_def all_resting_def distinct_keys_delete)
  moreover have "peer_id client \<notin> set (keys (AList.delete n (storage_nodes c)))"
    using assms(1) sub by (fastforce simp: cluster_ok_def)
  moreover have "\<forall>(n, s) \<in> set (AList.delete n (storage_nodes c)). worker_inv (sn_worker s)"
    using assms(1) sub by (fastforce simp: cluster_ok_def)
  ultimately show ?thesis
    using assms by (simp add: cluster_ok_def after_outage_def idle_def worker_ok_def table_ok_def durable_def writes_named_def)
qed

lemma after_outage_reopened:
  assumes "host_ok h" "located (cfg_data_directory config) = ms_directory (mw_store (worker_of c))"
    "new_metadata_node h located config net (ms_disk (mw_store (worker_of c))) = (Inr (v :: nodes MetadataNode), d)"
  shows "metadata_reopened (worker_of c) (worker_of (after_outage n (mw_store (mn_worker v)) c))"
    and "outage c (after_outage n (mw_store (mn_worker v)) c)"
proof -
  show reopened: "metadata_reopened (worker_of c) (worker_of (after_outage n (mw_store (mn_worker v)) c))"
    unfolding metadata_reopened_def using assms by (intro exI conjI) (auto simp: after_outage_def)
  show "outage c (after_outage n (mw_store (mn_worker v)) c)"
    unfolding outage_def using reopened by (auto simp: after_outage_def map_of_delete reopened_def split: if_splits)
qed

section \<open>A small cluster\<close>

definition spare_node :: StorageNode where
  "spare_node = \<lparr>sn_worker = \<lparr>sw_disk = [([''o''], Dir)], objects_directory = [''o''], next_chunks = []\<rparr>,
     sn_inbox = [], sn_jobs = [], sn_sent = [], metadata_node = ''m'', sn_stopping = False\<rparr>"

definition roomy_hosts :: "NodeId \<Rightarrow> StorageNode \<Rightarrow> StorageHost" where
  "roomy_hosts n s = \<lparr>sh_faults = no_faults, sh_space = (\<lambda>_. Some 1000000)\<rparr>"

definition sample_cluster_env :: "nodes Env" where
  "sample_cluster_env = \<lparr>env_outside = nodes_outside roomy_hosts sample_server, env_host = sample_host, env_draw = (\<lambda>_. (1, 2))\<rparr>"

definition sample_system_env :: "nodes MetadataNode ClientEnv" where
  "sample_system_env = \<lparr>ce_outside = node_outside sample_cluster_env 5 sample_user sample_server, ce_faults = no_faults,
     ce_located = (\<lambda>p. [''w'', p])\<rparr>"

text \<open>A file of three bytes on the client, an empty one of the same name in the file system.\<close>

definition empty_entry :: FileMetadata where
  "empty_entry = \<lparr>md_path = ''g'', md_size = 0, md_obj_id = ''a'', md_replica_0 = ''s1'', md_replica_1 = ''s2'',
     md_created_at = 0, md_modified_at = 0\<rparr>"

definition sample_cluster :: "pending_table \<Rightarrow> (NodeId \<times> Frame) list \<Rightarrow> nodes MetadataNode" where
  "sample_cluster uploads frames = \<lparr>mn_worker = \<lparr>
       mw_store = \<lparr>ms_disk = [([''d''], Dir), ([''d'', ''g''], File (metadata_bytes empty_entry))], ms_directory = [''d''], ms_data = [([''g''], empty_entry)]\<rparr>,
       mw_nodes = [(''s1'', \<lparr>last_seen = 0, bytes_left = 7, available = True\<rparr>), (''s2'', \<lparr>last_seen = 0, bytes_left = 9, available = True\<rparr>)],
       current_storage_request_id = 0, mw_draws = 0, pending_reads = [], pending_writes = uploads,
       mw_net = \<lparr>net_queue = [], net_sent = frames, net_outside = [(''s1'', spare_node), (''s2'', spare_node)]\<rparr>\<rparr>,
     mn_jobs = [], mn_stopping = False\<rparr>"

definition sample_system :: "u64 \<Rightarrow> (NodeId \<times> Frame) list \<Rightarrow> nodes MetadataNode \<Rightarrow> nodes MetadataNode Client" where
  "sample_system i frames node = \<lparr>current_id = i, cl_metadata_node = ''m'', cl_disk = [([''w''], Dir), ([''w'', ''f''], File [1, 2, 3])],
     cl_net = \<lparr>net_queue = [], net_sent = frames, net_outside = node\<rparr>\<rparr>"

abbreviation system_0 :: "nodes MetadataNode Client" where
  "system_0 \<equiv> sample_system 0 [] (sample_cluster [] [])"

lemma empty_entry_store: "store_inv \<lparr>ms_disk = [([''d''], Dir), ([''d'', ''g''], File (metadata_bytes empty_entry))],
    ms_directory = [''d''], ms_data = [([''g''], empty_entry)]\<rparr>"
proof -
  have "elems ''g'' = [''g'']" by (simp add: elems_plain slash_def)
  moreover have "good_key [''g'']" by (simp add: good_key_def slash_def extension_of_def)
  moreover have "\<not> good_key []" by (simp add: good_key_def)
  ultimately show ?thesis
    unfolding store_inv_def stored_file_def
    by (auto simp: disk_wf_def node_at_def slash_def md_ok_def empty_entry_def nul_free_def time_fits_def signed_divide_int_def)
qed

lemma sample_cluster_ok: "cluster_ok roomy_hosts sample_cluster_env 5 sample_user sample_server sample_system_env system_0"
  using empty_entry_store
  by (simp add: cluster_ok_def durable_def writes_named_def nul_free_def time_fits_def sample_host_def sample_cluster_env_def sample_system_env_def sample_system_def sample_server_def sample_user_def
      quiet_queue_def idle_def sample_cluster_def worker_ok_def table_ok_def nodes_ok_def all_resting_def resting_def spare_node_def
      worker_inv_def disk_wf_def node_at_def slash_def)

lemma sample_upload_ready: "upload_ready sample_system_env system_0 ''f'' ''g'' [1, 2, 3]"
proof -
  have "good_id ''a''" using sample_ids(1) by (simp add: good_id_def nul_free_def)
  then show ?thesis
    by (simp add: upload_ready_def open_in_def sample_system_env_def sample_system_def no_faults_def node_at_def nul_free_def
        sample_cluster_def being_written_def get_metadata_def elems_plain slash_def empty_entry_def)
qed

lemma sample_nodes: "node_available (mw_nodes (worker_of system_0)) n \<longleftrightarrow> n = ''s1'' \<or> n = ''s2''"
  by (auto simp: node_available_def sample_system_def sample_cluster_def split: if_splits)

lemma sample_healthy: "healthy roomy_hosts sample_cluster_env 5 sample_user sample_system_env system_0 ''g''"
proof -
  have g: "elems ''g'' = [''g'']" by (simp add: elems_plain slash_def)
  have "saveable (mw_store (worker_of system_0)) ''g''"
    by (auto simp: saveable_def g valid_filename_iff good_key_def is_absolute_def slash_def extension_of_def temporary_def
        sample_system_def sample_cluster_def node_at_def strict_prefix_def prefix_def append_eq_Cons_conv)
  moreover have "get_metadata ''g'' (mw_store (worker_of system_0)) = Inr empty_entry"
    by (simp add: get_metadata_def g valid_filename_iff good_key_def is_absolute_def slash_def extension_of_def
        sample_system_def sample_cluster_def)
  moreover have "placeable (mw_nodes (worker_of system_0)) empty_entry"
    using sample_nodes by (simp add: placeable_def empty_entry_def)
  moreover have "willing (roomy_hosts n s)" for n s by (simp add: willing_def roomy_hosts_def)
  moreover have node: "(\<exists>v. worker_at n (storage_nodes system_0) = Some v \<and> tidy v) \<and> seen_recently 5 (mw_nodes (worker_of system_0)) n"
    if "node_available (mw_nodes (worker_of system_0)) n" for n
    using that unfolding sample_nodes
    by (auto simp: worker_at_def sample_system_def sample_cluster_def spare_node_def tidy_def node_at_def seen_recently_def
        node_available_def map_of_timeouts timed_out_def heartbeat_timeout_def)
  moreover have "find_pending (peer_id sample_user) (current_id system_0 + 1) (pending_writes (worker_of system_0)) = None"
    by (simp add: sample_system_def sample_cluster_def find_pending_def)
  moreover have "ce_faults sample_system_env = no_faults" "host_faults (env_host sample_cluster_env) = no_faults"
    by (simp_all add: sample_system_env_def sample_cluster_env_def sample_host_def)
  ultimately show ?thesis unfolding healthy_def by simp
qed

lemma sample_upload_run:
  obtains c m where "write_file sample_system_env ''f'' ''g'' system_0 = (Inr (Inr ()), c)"
    "get_metadata ''g'' (mw_store (worker_of c)) = Inr m" "''s2'' \<in> {md_replica_0 m, md_replica_1 m}"
    "seen_recently 5 (mw_nodes (worker_of c)) ''s2''"
proof -
  have "count_chunks (length [1, 2, 3 :: byte]) < 2 ^ 32" by (simp add: count_chunks_def)
  from healthy_upload [OF sample_cluster_ok sample_upload_ready sample_healthy this] obtain c m where
    c: "write_file sample_system_env ''f'' ''g'' system_0 = (Inr (Inr ()), c)" "file_on_replicas ''g'' [1, 2, 3] c"
    and m: "get_metadata ''g'' (mw_store (worker_of c)) = Inr m"
      "list_all (node_available (mw_nodes (worker_of system_0))) [md_replica_0 m, md_replica_1 m]"
    and seen: "\<forall>r. seen_recently 5 (mw_nodes (worker_of system_0)) r \<longrightarrow> seen_recently 5 (mw_nodes (worker_of c)) r" by auto
  have "seen_recently 5 (mw_nodes (worker_of system_0)) ''s2''" using sample_healthy sample_nodes by (simp add: healthy_def)
  moreover have "md_replica_0 m \<noteq> md_replica_1 m" using c(2) m(1) by (auto simp: file_on_replicas_def describes_def)
  ultimately show ?thesis using that c(1) m seen unfolding sample_nodes by (auto simp: sample_nodes)
qed

text \<open>The same cluster when both storage nodes have the object of the file.\<close>

definition holding_node :: StorageNode where
  "holding_node = spare_node\<lparr>sn_worker := (sn_worker spare_node)\<lparr>sw_disk := [([''o''], Dir), ([''o'', ''a''], File [4, 5])]\<rparr>\<rparr>"

definition holding_cluster :: "nodes MetadataNode" where
  "holding_cluster = (sample_cluster [] [])\<lparr>mn_worker := (mn_worker (sample_cluster [] []))\<lparr>
     mw_net := \<lparr>net_queue = [], net_sent = [], net_outside = [(''s1'', holding_node), (''s2'', holding_node)]\<rparr>\<rparr>\<rparr>"

abbreviation system_1 :: "nodes MetadataNode Client" where
  "system_1 \<equiv> sample_system 0 [] holding_cluster"

lemma holding_cluster_ok: "cluster_ok roomy_hosts sample_cluster_env 5 sample_user sample_server sample_system_env system_1"
  using sample_cluster_ok
  by (simp add: cluster_ok_def sample_system_def holding_cluster_def holding_node_def idle_def all_resting_def resting_def
      spare_node_def worker_inv_def disk_wf_def node_at_def worker_ok_def durable_def slash_def sample_user_def)

lemma holding_entry: "get_metadata ''g'' (mw_store (worker_of system_1)) = Inr empty_entry"
  by (simp add: get_metadata_def elems_plain valid_filename_iff good_key_def is_absolute_def slash_def extension_of_def
      sample_system_def holding_cluster_def sample_cluster_def)

lemma holding_deletable: "deletable roomy_hosts sample_cluster_env system_1 ''g''"
proof -
  have "host_faults (env_host sample_cluster_env) = no_faults" by (simp add: sample_cluster_env_def sample_host_def)
  moreover have "\<not> being_written ''g'' (pending_writes (worker_of system_1))"
    by (simp add: sample_system_def holding_cluster_def sample_cluster_def being_written_def)
  moreover have "node_available (mw_nodes (worker_of system_1)) r \<and> (\<exists>v. worker_at r (storage_nodes system_1) = Some v \<and> tidy v)"
    if "r \<in> {md_replica_0 empty_entry, md_replica_1 empty_entry}" for r
    using that by (auto simp: empty_entry_def node_available_def sample_system_def holding_cluster_def sample_cluster_def worker_at_def
        holding_node_def spare_node_def tidy_def node_at_def)
  moreover have "\<forall>s. sh_faults (roomy_hosts r s) = no_faults" for r by (simp add: roomy_hosts_def)
  ultimately show ?thesis
    unfolding deletable_def by (intro conjI exI [of _ empty_entry]) (simp_all add: holding_entry, simp_all add: empty_entry_def)
qed

definition fresh_net :: "nodes Net" where
  "fresh_net = \<lparr>net_queue = [], net_sent = [], net_outside = []\<rparr>"

section \<open>Properties of the whole system\<close>

text \<open>C2. An upload that the client saw succeed is on both replicas: the metadata node has the file
  under its name with its size, nobody is writing it any more, and each of the two replicas,
  different nodes that run, holds exactly the bytes of the client's file, whichever calls fail on
  any of the hosts.\<close>

theorem acknowledged_upload_replicated:
  assumes "cluster_ok hosts env now client server cenv c" "upload_ready cenv c src p content"
    "write_file cenv src p c = (Inr (Inr ()), c')"
  shows "cluster_ok hosts env now client server cenv c' \<and> \<not> being_written p (pending_writes (worker_of c'))
    \<and> (\<exists>m. get_metadata p (mw_store (worker_of c')) = Inr m \<and> md_size m = word_of_nat (length content)
        \<and> (content \<noteq> [] \<longrightarrow> md_replica_0 m \<noteq> md_replica_1 m \<and> (\<forall>r \<in> {md_replica_0 m, md_replica_1 m}. \<exists>v.
             worker_at r (storage_nodes c') = Some v \<and> committed v (md_obj_id m) = Some content)))"
  using uploaded_on_replicas [OF assms] by (auto simp: file_on_replicas_def describes_def)

theorem acknowledged_upload_replicated_witness:
  "\<exists>c' m. write_file sample_system_env ''f'' ''g'' system_0 = (Inr (Inr ()), c')
    \<and> get_metadata ''g'' (mw_store (worker_of c')) = Inr m \<and> md_size m = 3
    \<and> (\<exists>v. worker_at (md_replica_0 m) (storage_nodes c') = Some v \<and> committed v (md_obj_id m) = Some [1, 2, 3])"
proof -
  obtain c' m where c': "write_file sample_system_env ''f'' ''g'' system_0 = (Inr (Inr ()), c')" by (rule sample_upload_run)
  from acknowledged_upload_replicated [OF sample_cluster_ok sample_upload_ready c'] c' show ?thesis by auto
qed

text \<open>C1. What was acknowledged survives: after an upload that the client saw succeed, the metadata
  node may be killed and started again on its disk, and any storage nodes may disappear or be
  killed and started again, whatever fails on any host meanwhile; as long as one of the two
  replicas runs, can be read and has been heard of in time, a download by any client succeeds
  and leaves exactly the uploaded bytes on that client's disk.\<close>

theorem upload_survives_outage:
  assumes "cluster_ok hosts env now client server cenv c" "upload_ready cenv c src p content"
    "write_file cenv src p c = (Inr (Inr ()), c1)"
    "outage c1 c2" "cluster_ok hosts' env' now' reader server' cenv' c2"
    "find_pending (peer_id reader) (current_id c2 + 1) (pending_reads (worker_of c2)) = None"
    "content \<noteq> [] \<longrightarrow> replica_left hosts' now' p c2" "can_save cenv' c2 to"
  shows "\<exists>c3. read_file cenv' p to c2 = (Inr (Inr ()), c3) \<and> node_at (cl_disk c3) (ce_located cenv' to) = Some (File content)"
proof -
  from uploaded_on_replicas [OF assms(1-3)] have c1: "file_on_replicas p content c1" "cluster_ok hosts env now client server cenv c1"
    by simp_all
  from assms(2) have p: "nul_free p" "length p < 2 ^ 31" by (simp_all add: upload_ready_def)
  show ?thesis by (rule downloaded_from_replica [OF c1 assms(4-6) p assms(7,8)])
qed

theorem upload_survives_outage_witness:
  "\<exists>c1 v d c2 c3. write_file sample_system_env ''f'' ''g'' system_0 = (Inr (Inr ()), c1)
    \<and> new_metadata_node sample_host (\<lambda>_. ms_directory (mw_store (worker_of c1))) sample_config fresh_net
        (ms_disk (mw_store (worker_of c1))) = (Inr v, d)
    \<and> mw_store (worker_of c2) = mw_store (mn_worker v) \<and> worker_at ''s1'' (storage_nodes c2) = None
    \<and> read_file sample_system_env ''g'' ''r'' c2 = (Inr (Inr ()), c3)
    \<and> node_at (cl_disk c3) [''w'', ''r''] = Some (File [1, 2, 3])"
proof -
  obtain c1 m where c1: "write_file sample_system_env ''f'' ''g'' system_0 = (Inr (Inr ()), c1)"
    and m: "get_metadata ''g'' (mw_store (worker_of c1)) = Inr m" "''s2'' \<in> {md_replica_0 m, md_replica_1 m}"
    and seen: "seen_recently 5 (mw_nodes (worker_of c1)) ''s2''" by (rule sample_upload_run)
  from uploaded_on_replicas [OF sample_cluster_ok sample_upload_ready c1]
  have ok: "cluster_ok roomy_hosts sample_cluster_env 5 sample_user sample_server sample_system_env c1"
    and on: "file_on_replicas ''g'' [1, 2, 3] c1" and disk: "cl_disk c1 = cl_disk system_0" "current_id c1 = 1"
    and reads: "pending_reads (worker_of c1) = []"
    by (simp_all add: sample_system_def sample_cluster_def)
  from ok have dur: "durable (ms_directory (mw_store (worker_of c1))) (worker_of c1)" by (simp add: cluster_ok_def)
  have host: "host_ok sample_host" by (simp add: host_ok_def sample_host_def no_faults_def)
  obtain r d where new: "new_metadata_node sample_host (\<lambda>_. ms_directory (mw_store (worker_of c1))) sample_config fresh_net
      (ms_disk (mw_store (worker_of c1))) = (r, d)" by fastforce
  from next_start [OF _ _ host new] dur obtain v :: "nodes MetadataNode" where v: "r = Inr v" "store_inv (mw_store (mn_worker v))"
    by (auto simp: durable_def)
  define c2 where "c2 = after_outage ''s1'' (mw_store (mn_worker v)) c1"
  have ok2: "cluster_ok roomy_hosts sample_cluster_env 5 sample_user sample_server sample_system_env c2"
    unfolding c2_def by (rule after_outage_cluster [OF ok v(2)])
  have out: "outage c1 c2" unfolding c2_def by (rule after_outage_reopened(2) [OF host _ new [unfolded v(1)]]) simp
  have "metadata_reopened (worker_of c1) (worker_of c2)"
    unfolding c2_def by (rule after_outage_reopened(1) [OF host _ new [unfolded v(1)]]) simp
  from reopened_entry [OF this dur m(1)] m(2) obtain m' where m': "get_metadata ''g'' (mw_store (worker_of c2)) = Inr m'"
    "''s2'' \<in> {md_replica_0 m', md_replica_1 m'}" by auto
  from m on have "worker_at ''s2'' (storage_nodes c1) \<noteq> None" by (auto simp: file_on_replicas_def)
  then have "replica_left roomy_hosts 5 ''g'' c2"
    using m' seen by (auto simp: replica_left_def c2_def after_outage_def worker_at_def map_of_delete readable_def roomy_hosts_def no_faults_def)
  moreover have "temporary_name (current_id c2 + 1) ''r'' = ''r.dfs-read-2.tmp''"
    using disk(2) by (simp add: temporary_name_def c2_def after_outage_def) code_simp
  then have "can_save sample_system_env c2 ''r''"
    by (simp add: can_save_def sample_system_env_def c2_def after_outage_def disk sample_system_def disk_wf_def node_at_def plain_path_def slash_def)
  moreover have "find_pending (peer_id sample_user) (current_id c2 + 1) (pending_reads (worker_of c2)) = None"
    using reads by (simp add: find_pending_def c2_def after_outage_def)
  ultimately obtain c3 where c3: "read_file sample_system_env ''g'' ''r'' c2 = (Inr (Inr ()), c3)"
    "node_at (cl_disk c3) (ce_located sample_system_env ''r'') = Some (File [1, 2, 3])"
    using upload_survives_outage [OF sample_cluster_ok sample_upload_ready c1 out ok2] by blast
  have "worker_at ''s1'' (storage_nodes c2) = None" "mw_store (worker_of c2) = mw_store (mn_worker v)"
    by (simp_all add: c2_def after_outage_def worker_at_def map_of_delete)
  with c1 new v(1) c3 show ?thesis by (auto simp: sample_system_env_def)
qed

text \<open>C3. An upload succeeds and can be downloaded again when nothing is wrong: if no call fails on
  the hosts of the client, of the metadata node and of the storage nodes it counts as available,
  which run, have been heard of in time, have room and no transfer under way, and the path is
  not being written, its name can be stored and two replicas are available for it, then the
  upload of a file of fewer than 2^32 chunks succeeds and a download that follows it returns the
  same bytes.\<close>

theorem upload_then_download:
  assumes "cluster_ok hosts env now client server cenv c" "upload_ready cenv c src p content"
    "healthy hosts env now client cenv c p" "count_chunks (length content) < 2 ^ 32"
    "find_pending (peer_id client) (current_id c + 2) (pending_reads (worker_of c)) = None"
    "can_save cenv (c\<lparr>current_id := current_id c + 1\<rparr>) to"
  shows "\<exists>c1 c2. write_file cenv src p c = (Inr (Inr ()), c1) \<and> read_file cenv p to c1 = (Inr (Inr ()), c2)
    \<and> node_at (cl_disk c2) (ce_located cenv to) = Some (File content)"
proof -
  from healthy_upload [OF assms(1-4)] obtain c1 where c1: "write_file cenv src p c = (Inr (Inr ()), c1)"
    "cluster_ok hosts env now client server cenv c1" "file_on_replicas p content c1" "content \<noteq> [] \<longrightarrow> replica_left hosts now p c1"
    and same: "cl_disk c1 = cl_disk c" "current_id c1 = current_id c + 1" "pending_reads (worker_of c1) = pending_reads (worker_of c)"
    by auto
  have out: "outage c1 c1" by (auto simp: outage_def reopened_def)
  have id: "current_id c1 + 1 = current_id c + 2" using same(2) by simp
  have free: "find_pending (peer_id client) (current_id c1 + 1) (pending_reads (worker_of c1)) = None"
    unfolding id same(3) by (rule assms(5))
  have save: "can_save cenv c1 to" using assms(6) same by (simp add: can_save_def)
  from assms(2) have p: "nul_free p" "length p < 2 ^ 31" by (simp_all add: upload_ready_def)
  from downloaded_from_replica [OF c1(3,2) out c1(2) free p c1(4) save] c1(1) show ?thesis by blast
qed

theorem upload_then_download_witness:
  "\<exists>c1 c2. write_file sample_system_env ''f'' ''g'' system_0 = (Inr (Inr ()), c1)
    \<and> read_file sample_system_env ''g'' ''r'' c1 = (Inr (Inr ()), c2)
    \<and> node_at (cl_disk c2) [''w'', ''r''] = Some (File [1, 2, 3])"
proof -
  have small: "count_chunks (length [1, 2, 3 :: byte]) < 2 ^ 32" by (simp add: count_chunks_def)
  have free: "find_pending (peer_id sample_user) (current_id system_0 + 2) (pending_reads (worker_of system_0)) = None"
    by (simp add: find_pending_def sample_system_def sample_cluster_def)
  have "temporary_name 2 ''r'' = ''r.dfs-read-2.tmp''" by (simp add: temporary_name_def) code_simp
  then have "can_save sample_system_env (system_0\<lparr>current_id := current_id system_0 + 1\<rparr>) ''r''"
    by (simp add: can_save_def sample_system_env_def sample_system_def disk_wf_def node_at_def plain_path_def slash_def)
  from upload_then_download [OF sample_cluster_ok sample_upload_ready sample_healthy small free this]
  show ?thesis by (simp add: sample_system_env_def)
qed

text \<open>C4. A removal takes a file off every node or refuses. When the client sees it succeed, the
  path has no entry and both replicas, which run, have dropped the object; when it sees an error,
  the name space is as it was. Either way no other entry changes and no storage node changes
  another object, whichever calls fail on any host; and nothing but a failing call, a node that
  is not available or an upload of the same path makes it refuse.\<close>

theorem removed_everywhere:
  assumes "cluster_ok hosts env now client server cenv c" "nul_free p" "length p < 2 ^ 19"
    "bound_ids_good p (mw_store (worker_of c))" "client_remove cenv p c = (result, c')"
  shows "cluster_ok hosts env now client server cenv c'
    \<and> (if result = Inr (Inr ())
       then get_metadata p (mw_store (worker_of c')) = Inl NOT_FOUND
         \<and> name_space (mw_store (worker_of c')) = (name_space (mw_store (worker_of c)))(elems p := None)
         \<and> (\<forall>m. get_metadata p (mw_store (worker_of c)) = Inr m \<and> md_replica_0 m \<noteq> [] \<longrightarrow>
             (\<forall>r \<in> {md_replica_0 m, md_replica_1 m}. \<exists>v. worker_at r (storage_nodes c') = Some v \<and> committed v (md_obj_id m) = None))
       else (\<exists>e. result = Inr (Inl e)) \<and> name_space (mw_store (worker_of c')) = name_space (mw_store (worker_of c))
         \<and> \<not> deletable hosts env c p)
    \<and> (\<forall>n v oid. worker_at n (storage_nodes c) = Some v \<and> proper_id oid
         \<and> (\<forall>m. get_metadata p (mw_store (worker_of c)) = Inr m \<longrightarrow> oid \<noteq> md_obj_id m) \<longrightarrow>
         (\<exists>v'. worker_at n (storage_nodes c') = Some v' \<and> committed v' oid = committed v oid))"
proof -
  have "length p < 2 ^ 31" using assms(3) by simp
  from removal_outcome [OF assms(1,2) this assms(4)] assms(5) obtain st where st: "result = Inr (by_status st ())"
    "cluster_ok hosts env now client server cenv c'" "nodes.settled p (peer_id client) (worker_of c) st (worker_of c')"
    "deletable hosts env c p \<longrightarrow> st = Success" by auto
  have status: "result = Inr (Inr ()) \<longleftrightarrow> st = Success" "st \<noteq> Success \<Longrightarrow> \<exists>e. result = Inr (Inl e)"
    using st(1) by (auto simp: by_status_def)
  have gone: "get_metadata p (mw_store (worker_of c')) = Inl NOT_FOUND" if "st = Success"
  proof -
    from st(3) that have "valid_filename p" "name_space (mw_store (worker_of c')) (elems p) = None"
      by (simp_all add: nodes.settled_def)
    then show ?thesis by (simp add: get_metadata_def name_space_def)
  qed
  have kept: "rel_option (kept_but p (mw_store (worker_of c))) (worker_at n (storage_nodes c)) (worker_at n (storage_nodes c'))" for n
    using st(3) by (simp add: nodes.settled_def)
  have "\<exists>v'. worker_at n (storage_nodes c') = Some v' \<and> committed v' oid = committed v oid"
    if "worker_at n (storage_nodes c) = Some v" "proper_id oid"
      "\<forall>m. get_metadata p (mw_store (worker_of c)) = Inr m \<longrightarrow> oid \<noteq> md_obj_id m" for n v oid
    using kept [of n] that by (auto simp: option_rel_Some1 kept_but_def)
  moreover have "\<forall>r \<in> {md_replica_0 m, md_replica_1 m}. \<exists>v. worker_at r (storage_nodes c') = Some v \<and> committed v (md_obj_id m) = None"
    if "st = Success" "get_metadata p (mw_store (worker_of c)) = Inr m" "md_replica_0 m \<noteq> []" for m
    using st(3) that unfolding nodes.settled_def nodes.gone_at_def by blast
  moreover have "name_space (mw_store (worker_of c')) = (if st = Success then (name_space (mw_store (worker_of c)))(elems p := None)
      else name_space (mw_store (worker_of c)))" using st(3) by (simp add: nodes.settled_def)
  ultimately show ?thesis using st(2,4) status gone by (cases "st = Success") simp_all
qed

theorem removed_everywhere_witness:
  "\<exists>c' v. client_remove sample_system_env ''g'' system_1 = (Inr (Inr ()), c')
    \<and> get_metadata ''g'' (mw_store (worker_of c')) = Inl NOT_FOUND
    \<and> map_option (\<lambda>v. committed v ''a'') (worker_at ''s1'' (storage_nodes system_1)) = Some (Some [4, 5])
    \<and> worker_at ''s1'' (storage_nodes c') = Some v \<and> committed v ''a'' = None"
proof -
  have "good_id ''a''" using sample_ids(1) by (simp add: good_id_def nul_free_def)
  then have ids: "bound_ids_good ''g'' (mw_store (worker_of system_1))"
    unfolding bound_ids_good_def holding_entry by (simp add: empty_entry_def)
  have p: "nul_free ''g''" "length ''g'' < 2 ^ 19" by (simp_all add: nul_free_def)
  obtain result c' where run: "client_remove sample_system_env ''g'' system_1 = (result, c')" by fastforce
  note out = removed_everywhere [OF holding_cluster_ok p ids run]
  with holding_deletable have ok: "result = Inr (Inr ())" by presburger
  with out have "get_metadata ''g'' (mw_store (worker_of c')) = Inl NOT_FOUND"
    "\<forall>r \<in> {''s1'', ''s2''}. \<exists>v. worker_at r (storage_nodes c') = Some v \<and> committed v ''a'' = None"
    unfolding holding_entry by (simp_all add: empty_entry_def)
  moreover have "map_option (\<lambda>v. committed v ''a'') (worker_at ''s1'' (storage_nodes system_1)) = Some (Some [4, 5])"
    by (simp add: worker_at_def sample_system_def holding_cluster_def holding_node_def spare_node_def committed_def file_in_def node_at_def)
  ultimately show ?thesis using run ok by blast
qed

end
