(* ===== verification/Isolation.thy ===== *)
theory Isolation
  imports Reading
begin

text \<open>
  Transfers of different clients, or under different request ids, do not touch each other's
  entries on the metadata worker; so only the requests of its own client end an upload.
\<close>

section \<open>Every handler leaves the entries of other transfers alone\<close>

text \<open>The entries under \<open>c\<close> and \<open>r\<close> in the two tables.\<close>

definition entries_at :: "NodeId \<Rightarrow> u64 \<Rightarrow> Pending option \<Rightarrow> Pending option \<Rightarrow> 'e MetadataWorker \<Rightarrow> bool" where
  "entries_at c r w d s \<longleftrightarrow> find_pending c r (pending_writes s) = w \<and> find_pending c r (pending_reads s) = d"

definition from_other :: "NodeId \<Rightarrow> u64 \<Rightarrow> RequestContext \<Rightarrow> bool" where
  "from_other c r ctx \<longleftrightarrow> peer_id (ctx_sender ctx) \<noteq> c \<or> ctx_request_id ctx \<noteq> r"

lemma find_emplace_other:
  "c' \<noteq> c \<or> r' \<noteq> r \<Longrightarrow> find_pending c' r' (snd (emplace_pending c r p t)) = find_pending c' r' t"
  by (auto simp: find_pending_def emplace_pending_def Let_def try_emplace_def split: option.splits)

lemma entries_modify:
  "(\<And>s. find_pending c r (pending_writes (f s)) = find_pending c r (pending_writes s)
     \<and> find_pending c r (pending_reads (f s)) = find_pending c r (pending_reads s)) \<Longrightarrow> keeps (entries_at c r w d) (act_modify f)"
  by (simp add: passes_def wp_rules entries_at_def)

lemma entries_step:
  "(\<And>s. find_pending c r (pending_writes (snd (f s))) = find_pending c r (pending_writes s)
     \<and> find_pending c r (pending_reads (snd (f s))) = find_pending c r (pending_reads s)) \<Longrightarrow> keeps (entries_at c r w d) (act_step f)"
  by (simp add: passes_def wp_rules entries_at_def split: prod.split) (metis snd_conv)

lemma entries_quiet:
  "keeps (entries_at c r w d) (send env node f)"
  "keeps (entries_at c r w d) (receive_if env p)"
  "keeps (entries_at c r w d) (on_store g)"
  "keeps (entries_at c r w d) (new_object_id env)"
  "keeps (entries_at c r w d) next_storage_request_id"
  unfolding send_def receive_if_def on_store_def new_object_id_def next_storage_request_id_def
  by (auto intro!: entries_modify entries_step simp: Let_def split: prod.splits)

lemma entries_respond: "keeps (entries_at c r w d) (respond env ctx enc x)"
  unfolding respond_def by (intro passes_intros entries_quiet)

lemma entries_replies:
  "keeps (entries_at c r w d) (write_file_reply env wq st)"
  "keeps (entries_at c r w d) (write_chunk_reply env wc st)"
  "keeps (entries_at c r w d) (read_file_reply env rf st n k)"
  "keeps (entries_at c r w d) (read_chunk_reply env rc st bs)"
  "keeps (entries_at c r w d) (remove_reply env rm st)"
  unfolding write_file_reply_def write_chunk_reply_def read_file_reply_def read_chunk_reply_def remove_reply_def
  by (rule entries_respond)+

lemma entries_ended:
  assumes "from_other c r ctx"
  shows "keeps (entries_at c r w d) (discard_write ctx)" "keeps (entries_at c r w d) (discard_read ctx)"
  using assms unfolding discard_write_def discard_read_def
  by (auto intro!: entries_modify simp: from_other_def find_discard)

lemmas entries_keep = entries_quiet entries_respond entries_replies entries_ended

lemma entries_puts: "keeps (entries_at c r w d) (puts_acknowledged env rid i rs)"
proof (induction rs)
  case (Cons x rs)
  have "keeps (entries_at c r w d) (put_acknowledged env rid i x)"
    unfolding put_acknowledged_def by (intro passes_intros entries_quiet entries_modify) simp
  with Cons show ?case by (auto intro!: passes_intros)
qed (auto intro: passes_intros)

lemma entries_fetch: "keeps (entries_at c r w d) (fetch_chunk env oid i n rs)"
proof (induction rs)
  case (Cons x rs)
  then show ?case unfolding fetch_chunk.simps by (intro passes_intros entries_quiet)
qed (auto intro: passes_intros)

lemma entries_deletes: "keeps (entries_at c r w d) (deletes_acknowledged env rid rs)"
  by (induction rs) (auto intro!: passes_intros entries_quiet simp: Let_def)

lemma entries_started:
  "from_other c r (wfq_context wq) \<Longrightarrow> keeps (entries_at c r w d) (start_write env wq m r0 r1)"
  "from_other c r (rfq_context rq) \<Longrightarrow> keeps (entries_at c r w d) (start_read env rq m k)"
  unfolding start_write_def start_read_def Let_def
  by (intro passes_intros entries_replies entries_step; force simp: from_other_def find_emplace_other split: prod.split dest: arg_cong [of _ _ snd])+

lemma entries_write_chunk: "from_other c r (wcq_context q) \<Longrightarrow> keeps (entries_at c r w d) (write_chunk_to env q p)"
  unfolding write_chunk_to_def Let_def
  by (intro passes_intros entries_keep entries_puts entries_modify) (auto simp: from_other_def find_advance)

lemma entries_read_chunk: "from_other c r (rcq_context q) \<Longrightarrow> keeps (entries_at c r w d) (read_chunk_of env q p)"
  unfolding read_chunk_of_def Let_def
  by (intro passes_intros entries_keep entries_fetch entries_modify) (auto simp: from_other_def find_advance)

lemma handle_entries:
  assumes "from_other c r (event_context ev)"
  shows "keeps (entries_at c r w d) (handle env ev)"
proof (cases ev)
  case (WriteFileEvent q)
  with assms show ?thesis
    by (auto simp: handle_write_file_def write_file_with_def Let_def intro!: passes_intros entries_keep entries_started)
next
  case (WriteChunkEvent q)
  with assms show ?thesis by (auto simp: handle_write_chunk_def intro!: passes_intros entries_keep entries_write_chunk)
next
  case (ReadFileEvent q)
  with assms show ?thesis by (auto simp: handle_read_file_def Let_def intro!: passes_intros entries_keep entries_started)
next
  case (ReadChunkEvent q)
  with assms show ?thesis by (auto simp: handle_read_chunk_def intro!: passes_intros entries_keep entries_read_chunk)
next
  case (RemoveEvent q)
  show ?thesis
    unfolding RemoveEvent handle.simps handle_remove_def remove_file_def Let_def
    by (intro passes_intros entries_quiet entries_replies entries_deletes)
qed (auto simp: handle_create_file_def handle_list_def handle_make_dir_def handle_rename_def handle_stat_def
    intro!: passes_intros entries_quiet entries_respond)

section \<open>Runs of the worker\<close>

text \<open>The worker handles a sequence of requests; an exception ends it.\<close>

fun handle_all :: "'e Env \<Rightarrow> ClientEvent list \<Rightarrow> 'e MetadataWorker \<Rightarrow> 'e MetadataWorker option" where
  "handle_all env [] s = Some s"
| "handle_all env (ev # evs) s = (case handle env ev s of (Inl _, _) \<Rightarrow> None | (Inr _, s1) \<Rightarrow> handle_all env evs s1)"

lemma handle_all_keeps:
  assumes "\<And>ev. ev \<in> set evs \<Longrightarrow> keeps P (handle env ev)"
  shows "P s \<Longrightarrow> handle_all env evs s = Some s' \<Longrightarrow> P s'"
  using assms
proof (induction evs arbitrary: s)
  case (Cons ev evs)
  then obtain s1 where "handle env ev s = (Inr (), s1)" "handle_all env evs s1 = Some s'"
    by (auto split: prod.splits sum.splits)
  with Cons passesD [of P "handle env ev" P s "()" s1] show ?case by simp
qed simp

definition abandoned_upload :: "unit MetadataWorker" where
  "abandoned_upload = sample_metadata_worker\<lparr>pending_writes := [(''c2'', [(1, \<lparr>pd_path = ''f'', pd_object_id = ''o'',
     pd_file_size = 3, pd_chunk_count = 1, pd_next_chunk = 0, pd_replica_0 = ''s1'', pd_replica_1 = ''s2''\<rparr>)])]\<rparr>"

definition later_requests :: "ClientEvent list" where
  "later_requests = [sample_read, StatEvent \<lparr>stq_path = ''f'', stq_context = sample_client\<rparr>]"

text \<open>
  Two clients may upload to one path at the same time, and both uploads then go to the same
  object: \<open>handle_write_file\<close> does not ask whether the path is being written.
\<close>

definition two_uploads :: "ClientEvent list" where
  "two_uploads = [
     WriteFileEvent \<lparr>wfq_file_size = 3, wfq_chunk_count = 1, wfq_path = ''f'', wfq_context = sample_client\<rparr>,
     WriteFileEvent \<lparr>wfq_file_size = 2, wfq_chunk_count = 1, wfq_path = ''f'',
       wfq_context = \<lparr>ctx_request_id = 1, ctx_sender = \<lparr>peer_id = ''c2'', peer_role = CLIENT\<rparr>\<rparr>\<rparr>]"

lemma concurrent_uploads_accepted:
  "map_option (\<lambda>s. (map_option pd_object_id (find_pending ''c1'' 5 (pending_writes s)),
      map_option pd_object_id (find_pending ''c2'' 1 (pending_writes s)))) (handle_all silent_env two_uploads sample_metadata_worker)
   = Some (Some ''o'', Some ''o'')"
  by code_simp

section \<open>Where the separation of transfers ends\<close>

text \<open>
  PUT requests carry the id of the client's request, not one of the node's own: acknowledgements
  that come late, for a chunk of another client with the same request id, count for this one,
  although no storage node got it.
\<close>

definition one_upload :: "Message list \<Rightarrow> unit MetadataWorker" where
  "one_upload late = sample_metadata_worker\<lparr>
     pending_writes := [(''c1'', [(5, \<lparr>pd_path = ''f'', pd_object_id = ''o'', pd_file_size = 1, pd_chunk_count = 1,
       pd_next_chunk = 0, pd_replica_0 = ''s1'', pd_replica_1 = ''s2''\<rparr>)])],
     mw_net := \<lparr>net_queue = late, net_sent = [], net_outside = ()\<rparr>\<rparr>"

definition only_chunk :: ClientEvent where
  "only_chunk = WriteChunkEvent \<lparr>wcq_chunk_index = 0, wcq_data = [9], wcq_context = sample_client\<rparr>"

definition put_response_from :: "NodeId \<Rightarrow> byte list \<Rightarrow> Message" where
  "put_response_from n body = message_from \<lparr>peer_id = n, peer_role = STORAGE\<rparr> (rpc_frame storage_rpc 5 PUT Response body)"

lemma late_acknowledgements_count:
  "let late = [put_response_from ''s1'' (replicate 13 0), put_response_from ''s2'' (replicate 13 0)]
   in map_prod (map_sum id id) (\<lambda>s. last (sent s)) (handle silent_env only_chunk (one_upload late))
      = (Inr (), ''c1'', write_chunk_frame 5 0 Success)"
  by code_simp

text \<open>A PUT response that is cut off behind its index ends the worker thread; those to GET and DELETE do not.\<close>

lemma short_put_response_throws:
  "\<exists>e. fst (handle silent_env only_chunk (one_upload [put_response_from ''s1'' (replicate 4 0)])) = Inl e"
proof -
  have "map_sum (\<lambda>_. ()) id (fst (handle silent_env only_chunk (one_upload [put_response_from ''s1'' (replicate 4 0)]))) = Inl ()"
    by code_simp
  then show ?thesis by (cases "fst (handle silent_env only_chunk (one_upload [put_response_from ''s1'' (replicate 4 0)]))") auto
qed

text \<open>Whether a path is being written is asked of its text, but the store looks its elements up.\<close>

lemma same_file_other_text:
  "let p = \<lparr>pd_path = ''d/f'', pd_object_id = ''o'', pd_file_size = 1, pd_chunk_count = 1,
       pd_next_chunk = 0, pd_replica_0 = ''s1'', pd_replica_1 = ''s2''\<rparr>;
     s = \<lparr>ms_disk = [], ms_directory = [''d''], ms_data = [([''d'', ''f''], sample_file)]\<rparr>
   in being_written ''d/f'' [(''c1'', [(5, p)])] \<and> \<not> being_written ''d//f'' [(''c1'', [(5, p)])]
      \<and> get_metadata ''d//f'' s = Inr sample_file \<and> get_metadata ''d/f'' s = Inr sample_file"
  by code_simp

section \<open>Properties of transfers side by side\<close>

text \<open>C22. Transfers are isolated, and nothing but its own client ends an upload: whatever other requests
  the metadata worker handles, under other request ids or from other clients, the entries of a
  client's transfer stay as they are, and as long as it is uploading, a request to read its path
  is refused. A client that dies during an upload thus leaves the path unreadable for as long as
  the metadata node runs.\<close>

theorem only_own_requests_end_upload:
  assumes "worker_ok s" "find_pending c r (pending_writes s) = Some w"
    "\<forall>ev \<in> set evs. peer_id (ctx_sender (event_context ev)) \<noteq> c \<or> ctx_request_id (event_context ev) \<noteq> r"
    "handle_all env evs s = Some s'"
  shows "find_pending c r (pending_writes s') = Some w \<and> find_pending c r (pending_reads s') = find_pending c r (pending_reads s)
    \<and> handle env (ReadFileEvent \<lparr>rfq_path = pd_path w, rfq_context = ctx\<rparr>) s' =
        (Inr (), s'\<lparr>mw_net := post_frame (env_outside env) (peer_id (ctx_sender ctx))
           (read_file_frame (ctx_request_id ctx) ServerError 0 0) (mw_net s')\<rparr>)"
proof -
  have "keeps (entries_at c r (Some w) (find_pending c r (pending_reads s))) (handle env ev)" if "ev \<in> set evs" for ev
    using that assms(3) by (intro handle_entries) (simp add: from_other_def)
  from handle_all_keeps [OF this _ assms(4)] assms(2)
  have same: "find_pending c r (pending_writes s') = Some w" "find_pending c r (pending_reads s') = find_pending c r (pending_reads s)"
    by (auto simp: entries_at_def)
  have "worker_ok s'" by (rule handle_all_keeps [OF handle_ok assms(1,4)])
  with same(1) have "being_written (pd_path w) (pending_writes s')" by (auto simp: worker_ok_def being_written_iff)
  with same show ?thesis by (simp add: handle_read_file_def act_then_def act_get_def Let_def read_file_replies)
qed

theorem only_own_requests_end_upload_witness:
  "\<exists>s'. handle_all silent_env later_requests abandoned_upload = Some s'
    \<and> fst (handle silent_env sample_read s') = Inr ()
    \<and> net_sent (mw_net (snd (handle silent_env sample_read s'))) = net_sent (mw_net s') @ [(''c1'', read_file_frame 5 ServerError 0 0)]"
proof -
  have "handle_all silent_env later_requests abandoned_upload \<noteq> None" by code_simp
  then obtain s' where s': "handle_all silent_env later_requests abandoned_upload = Some s'" by blast
  have "worker_ok abandoned_upload"
    by (simp add: worker_ok_def abandoned_upload_def sample_metadata_worker_def table_ok_def nodes_ok_def pending_ok_def) code_simp
  moreover have "find_pending ''c2'' 1 (pending_writes abandoned_upload) = Some \<lparr>pd_path = ''f'', pd_object_id = ''o'',
     pd_file_size = 3, pd_chunk_count = 1, pd_next_chunk = 0, pd_replica_0 = ''s1'', pd_replica_1 = ''s2''\<rparr>"
    by (simp add: find_pending_def abandoned_upload_def)
  moreover have "\<forall>ev \<in> set later_requests. peer_id (ctx_sender (event_context ev)) \<noteq> ''c2'' \<or> ctx_request_id (event_context ev) \<noteq> 1"
    by (simp add: later_requests_def sample_read_def sample_client_def)
  ultimately show ?thesis
    using only_own_requests_end_upload [OF _ _ _ s', of "''c2''" 1 _ sample_client] s'
    by (simp add: sample_read_def sample_client_def silent_env_def)
qed

end
