(* ===== verification/Interference.thy ===== *)
theory Interference
  imports Availability Isolation
begin

text \<open>
  What the requests of other clients do to an upload or to a stored file: as long as they do not
  name its path, they leave its entry, its object on every storage node and its transfer as they
  are. So the guarantees of an upload hold although the metadata node serves others between its
  chunks.
\<close>

section \<open>Objects on the storage nodes\<close>

context storage_service
begin

text \<open>What the storage nodes have of object \<open>oid\<close>.\<close>

definition view_at :: "string \<Rightarrow> 'e \<Rightarrow> NodeId \<Rightarrow> (byte list option \<times> byte list option \<times> u32 option) option" where
  "view_at oid e n = map_option (\<lambda>v. (committed v oid, staged v oid, expected_chunk v oid)) (workers e n)"

lemma calls_elsewhere:
  assumes e: "sound e" "ready e'" "workers e' = after_calls H calls (workers e)"
    and calls: "\<forall>(n, c) \<in> set calls. proper_id (target (call_request c)) \<and> target (call_request c) \<noteq> oid" and oid: "proper_id oid"
  shows "sound e' \<and> view_at oid e' = view_at oid e"
proof -
  have one: "worker_inv w' \<and> committed w' oid = committed w oid \<and> staged w' oid = staged w oid \<and> expected_chunk w' oid = expected_chunk w oid"
    if "workers e n = Some w" "w' = (case map_of calls n of None \<Rightarrow> w | Some c \<Rightarrow> snd (answer (H n) c w))" for n w w'
  proof (cases "map_of calls n")
    case None
    with that e(1) show ?thesis by (simp add: sound_def)
  next
    case (Some c)
    with calls have c: "proper_id (target (call_request c))" "target (call_request c) \<noteq> oid" by (auto dest: map_of_SomeD)
    obtain st bytes w1 where s: "serve (H n) (call_request c) w = (st, bytes, w1)" by (metis prod_cases3)
    then have "w' = w1" using that(2) Some by (simp add: answer_def)
    moreover have "worker_inv w" using e(1) that(1) by (simp add: sound_def)
    ultimately show ?thesis using serve_keeps [OF s _ c(1) oid] c(2) by simp
  qed
  have "worker_inv w'" if "workers e' n = Some w'" for n w'
    using that one [of n] unfolding e(3) after_calls_def by (cases "workers e n") auto
  moreover have "view_at oid e' n = view_at oid e n" for n
    unfolding view_at_def e(3) after_calls_def using one [of n] by (cases "workers e n") simp_all
  ultimately show ?thesis using e(2) by (auto simp: sound_def)
qed

lemma view_None: "workers e n = None \<longleftrightarrow> view_at oid e n = None"
  by (simp add: view_at_def)

text \<open>The network of a metadata worker at rest, and the parts of its state that waiting leaves alone.\<close>

definition calm_net :: "string \<Rightarrow> (NodeId \<Rightarrow> (byte list option \<times> byte list option \<times> u32 option) option) \<Rightarrow> 'e MetadataWorker \<Rightarrow> bool" where
  "calm_net oid view s \<longleftrightarrow> net_queue (mw_net s) = [] \<and> sound (net_outside (mw_net s)) \<and> view_at oid (net_outside (mw_net s)) = view"

definition same_tables :: "'e MetadataWorker \<Rightarrow> 'e MetadataWorker \<Rightarrow> bool" where
  "same_tables s s' \<longleftrightarrow> mw_store s' = mw_store s \<and> pending_writes s' = pending_writes s \<and> pending_reads s' = pending_reads s"

lemma puts_elsewhere:
  assumes env: "env_outside env = out" and s: "calm_net oid view s" and ne: "r0 \<noteq> r1" and oid: "proper_id oid"
    and put: "good_id (ptq_object_id q)" "ptq_object_id q \<noteq> oid" "length (ptq_data q) \<le> 524288"
  shows "\<exists>b s'. put_both env rid q [r0, r1] s = (Inr b, s') \<and> calm_net oid view s' \<and> same_tables s s'"
proof -
  let ?c = "put_call self rid q"
  from s have start: "net_queue (mw_net s) = []" "sound (net_outside (mw_net s))" "ready (net_outside (mw_net s))"
    by (simp_all add: calm_net_def sound_def)
  have c: "StorageNode.call_ok ?c" "call_sender ?c = self"
    using put by (simp_all add: StorageNode.call_ok_def put_call_def good_id_def)
  have both: "put_both env rid q [r0, r1] = act_then (call_each env ?c [r0, r1]) (\<lambda>_. puts_acknowledged env rid (ptq_chunk_index q) [r0, r1])"
    unfolding put_both_def call_each_def put_frame [of rid q self] by (rule refl)
  from both_called [OF env start(1,3) ne c puts_acknowledged.simps put_takes_replies [OF env]]
  obtain H b s' where s': "put_both env rid q [r0, r1] s = (Inr b, s')" "only_net s s'" "net_queue (mw_net s') = []"
    "ready (net_outside (mw_net s'))"
    "workers (net_outside (mw_net s')) = after_calls H [(r0, ?c), (r1, ?c)] (workers (net_outside (mw_net s)))"
    unfolding both by blast
  have "proper_id (target (call_request ?c)) \<and> target (call_request ?c) \<noteq> oid" using put by (simp add: put_call_def good_id_def)
  with calls_elsewhere [OF start(2) s'(4,5) _ oid] s s'(1,3) only_netD [OF s'(2)] show ?thesis
    by (auto simp: calm_net_def same_tables_def)
qed

lemma deletes_elsewhere:
  assumes env: "env_outside env = out" and s: "calm_net oid view s" and ne: "r0 \<noteq> r1" and oid: "proper_id oid"
    and other: "good_id oid'" "oid' \<noteq> oid"
  shows "\<exists>b s'. act_then (call_each env (delete_call self rid oid') [r0, r1]) (\<lambda>_. deletes_acknowledged env rid [r0, r1]) s = (Inr b, s')
    \<and> calm_net oid view s' \<and> same_tables s s'"
proof -
  let ?c = "delete_call self rid oid'"
  from s have start: "net_queue (mw_net s) = []" "sound (net_outside (mw_net s))" "ready (net_outside (mw_net s))"
    by (simp_all add: calm_net_def sound_def)
  have c: "StorageNode.call_ok ?c" "call_sender ?c = self"
    using other by (simp_all add: StorageNode.call_ok_def delete_call_def good_id_def)
  from both_called [OF env start(1,3) ne c deletes_acknowledged.simps(1) deletes_acknowledged_rounds delete_takes_replies [OF env]]
  obtain H b s' where s': "act_then (call_each env ?c [r0, r1]) (\<lambda>_. deletes_acknowledged env rid [r0, r1]) s = (Inr b, s')"
    "only_net s s'" "net_queue (mw_net s') = []" "ready (net_outside (mw_net s'))"
    "workers (net_outside (mw_net s')) = after_calls H [(r0, ?c), (r1, ?c)] (workers (net_outside (mw_net s)))"
    by blast
  have "proper_id (target (call_request ?c)) \<and> target (call_request ?c) \<noteq> oid" using other by (simp add: delete_call_def good_id_def)
  with calls_elsewhere [OF start(2) s'(4,5) _ oid] s s'(1,3) only_netD [OF s'(2)] show ?thesis
    by (auto simp: calm_net_def same_tables_def)
qed

text \<open>Reading leaves the storage nodes as they are, whatever it asks for.\<close>

lemma ask_elsewhere:
  assumes env: "env_outside env = out" and s: "calm_net oid view s" and other: "good_id oid'"
  shows "\<exists>res s'. ask env oid' i n r s = (Inr res, s') \<and> calm_net oid view s' \<and> same_tables s s'"
proof -
  define rid where "rid = current_storage_request_id s + 1"
  let ?g = "\<lparr>gtq_object_id = oid', gtq_chunk_index = i, gtq_byte_count = n, gtq_context = empty_context\<rparr>"
  let ?c = "get_call self rid ?g" and ?W = "workers (net_outside (mw_net s))"
  from s have start: "net_queue (mw_net s) = []" "sound (net_outside (mw_net s))" "ready (net_outside (mw_net s))"
    by (simp_all add: calm_net_def sound_def)
  have c: "StorageNode.call_ok ?c" "call_sender ?c = self"
    using other by (simp_all add: StorageNode.call_ok_def get_call_def good_id_def)
  with exchange [OF start(3), of "[(r, ?c)]" "[]"] obtain H ms e' where x:
    "meanwhile out [] (deliver out r (call_frame ?c) (net_outside (mw_net s))) = (ms, e')"
    "mset ms = mset (replies_of H ?W [(r, ?c)])" "ready e'" "workers e' = after_calls H [(r, ?c)] ?W" by auto
  have "snd (answer h ?c w) = w" for h w by (simp add: answer_def get_call_def split: prod.split)
  then have same: "workers e' = ?W"
    unfolding x(4) by (intro ext) (simp add: after_calls_def option.map_ident split: option.split)
  let ?P = "make_message_is storage_rpc rid GET Response r (chunk_index_is i)"
  have pop: "\<exists>m. pop_if ?P ms = (m, [])"
  proof (cases "?W r")
    case None
    then have "ms = []" using x(2) by (simp add: replies_of_def)
    then show ?thesis by (simp add: pop_if_def)
  next
    case (Some w)
    have fits: "body_fits (snd (read_object (H r) ?g w) @ replicate 5 0)" using read_object_length [of "H r" ?g w] by (simp add: body_fits_def)
    have "ms = [reply_to (H r) ?c w r]" using x(2) Some by (simp add: replies_of_def)
    with get_reply_matches [OF fits, of rid r self r] show ?thesis by (simp add: pop_if_def)
  qed
  then obtain m where m: "pop_if ?P ms = (m, [])" ..
  have frame: "encode_get_request rid ?g = Inr (call_frame ?c)" by (rule get_frame)
  let ?s = "s\<lparr>current_storage_request_id := rid, mw_net := \<lparr>net_queue = [], net_sent = sent s @ [(r, call_frame ?c)], net_outside = e'\<rparr>\<rparr>"
  have "\<exists>res. ask env oid' i n r s = (Inr res, ?s)"
    using x(1) env start(1) m
    by (simp add: ask_def act_then_def next_storage_request_id_def act_step_def Let_def rid_def [symmetric] act_lift_def frame send_def act_modify_def
        receive_if_def await_if_def post_frame_def act_return_def)
  moreover have "calm_net oid view ?s" using s start(2) x(3) same by (simp add: calm_net_def sound_def view_at_def fun_eq_iff)
  ultimately show ?thesis by (auto simp: same_tables_def)
qed

end

section \<open>Requests that do not name the path\<close>

text \<open>A file operation goes elsewhere; a rename moves neither the path nor a directory above it, nor anything onto them.\<close>

fun away :: "path \<Rightarrow> ClientEvent \<Rightarrow> bool" where
  "away p (CreateFileEvent q) = (elems (cfq_path q) \<noteq> elems p)"
| "away p (WriteFileEvent q) = (elems (wfq_path q) \<noteq> elems p)"
| "away p (RemoveEvent q) = (elems (rmq_path q) \<noteq> elems p)"
| "away p (RenameEvent q) = (\<not> prefix (elems (rnq_old_path q)) (elems p) \<and> \<not> prefix (elems (rnq_new_path q)) (elems p))"
| "away p _ = True"

fun away_call :: "path \<Rightarrow> string \<Rightarrow> store_call \<Rightarrow> bool" where
  "away_call p oid (Add q m) = (elems q \<noteq> elems p \<and> good_id (md_obj_id m) \<and> md_obj_id m \<noteq> oid)"
| "away_call p oid (Update q m) = (elems q \<noteq> elems p \<and> good_id (md_obj_id m) \<and> md_obj_id m \<noteq> oid)"
| "away_call p oid (Remove q) = (elems q \<noteq> elems p)"
| "away_call p oid (Rename q r) = (\<not> prefix (elems q) (elems p) \<and> \<not> prefix (elems r) (elems p))"
| "away_call p oid _ = True"

text \<open>No other entry and no other transfer has the object \<open>oid\<close>, and no other upload goes to \<open>p\<close>.\<close>

definition entries_apart :: "path \<Rightarrow> string \<Rightarrow> (string list \<Rightarrow> FileMetadata option) \<Rightarrow> bool" where
  "entries_apart p oid ns \<longleftrightarrow> (\<forall>k m. ns k = Some m \<longrightarrow> good_id (md_obj_id m) \<and> (k \<noteq> elems p \<longrightarrow> md_obj_id m \<noteq> oid))"

definition upload_apart :: "path \<Rightarrow> string \<Rightarrow> Pending \<Rightarrow> bool" where
  "upload_apart p oid w \<longleftrightarrow> good_id (pd_object_id w) \<and> pd_object_id w \<noteq> oid \<and> elems (pd_path w) \<noteq> elems p"

definition uploads_apart :: "path \<Rightarrow> string \<Rightarrow> NodeId \<Rightarrow> u64 \<Rightarrow> pending_table \<Rightarrow> bool" where
  "uploads_apart p oid c rid t \<longleftrightarrow>
     (\<forall>c' r w. find_pending c' r t = Some w \<and> (c' \<noteq> c \<or> r \<noteq> rid) \<longrightarrow> upload_apart p oid w)"

definition reads_good :: "pending_table \<Rightarrow> bool" where
  "reads_good t \<longleftrightarrow> (\<forall>c r w. find_pending c r t = Some w \<longrightarrow> good_id (pd_object_id w))"

lemma away_spec:
  assumes "away_call p oid sc" "entries_apart p oid ns"
  shows "spec_call now sc ns (elems p) = ns (elems p) \<and> entries_apart p oid (spec_call now sc ns)"
proof (cases sc)
  case (Rename q r)
  have "moved_from (elems q) (elems r) (elems p) = Some (elems p)" using assms(1) Rename by (simp add: moved_from_def)
  moreover have "l = elems p \<longleftrightarrow> k = elems p" if "moved_from (elems q) (elems r) k = Some l" for k l
    using that assms(1) Rename by (auto simp: moved_from_def split: if_splits) (metis prefixI)
  ultimately show ?thesis using assms(2) Rename
    by (auto simp: entries_apart_def split: option.splits)
qed (use assms in \<open>auto simp: entries_apart_def stamped_def anon_def\<close>)

lemma uploads_discard: "uploads_apart p oid c rid t \<Longrightarrow> uploads_apart p oid c rid (discard_pending c' r t)"
  by (auto simp: uploads_apart_def find_discard)

lemma upload_apart_next [simp]: "upload_apart p oid (w\<lparr>pd_next_chunk := i\<rparr>) = upload_apart p oid w"
  by (simp add: upload_apart_def)

lemma uploads_advance: "uploads_apart p oid c rid t \<Longrightarrow> uploads_apart p oid c rid (advance_pending c' r t)"
  by (auto simp: uploads_apart_def find_advance split: if_splits) blast+

lemma find_emplaced:
  "find_pending c' r' (snd (emplace_pending c r w t)) =
   (if c' = c \<and> r' = r then (case find_pending c r t of None \<Rightarrow> Some w | Some v \<Rightarrow> Some v) else find_pending c' r' t)"
  by (auto simp: find_pending_def emplace_pending_def Let_def try_emplace_def split: option.splits)

lemma uploads_emplace:
  "emplace_pending c' r w t = (b, t') \<Longrightarrow> uploads_apart p oid c rid t \<Longrightarrow> upload_apart p oid w \<Longrightarrow> uploads_apart p oid c rid t'"
  using find_emplaced [of _ _ c' r w t] by (auto simp: uploads_apart_def find_emplaced split: if_splits option.splits)

lemma reads_discard: "reads_good t \<Longrightarrow> reads_good (discard_pending c r t)"
  by (auto simp: reads_good_def find_discard)

lemma reads_advance: "reads_good t \<Longrightarrow> reads_good (advance_pending c r t)"
  by (auto simp: reads_good_def find_advance split: if_splits)

lemma reads_emplace: "emplace_pending c r w t = (b, t') \<Longrightarrow> reads_good t \<Longrightarrow> good_id (pd_object_id w) \<Longrightarrow> reads_good t'"
  using find_emplaced [of _ _ c r w t] by (auto simp: reads_good_def find_emplaced split: if_splits option.splits)

context storage_service
begin

text \<open>
  The metadata worker at rest: the entry of \<open>p\<close> is \<open>m\<close>, its object is only its own, and the
  storage nodes have \<open>view\<close> of the object. The upload under \<open>c\<close> and \<open>rid\<close> is the one to \<open>p\<close>.
\<close>

definition guarded ::
  "location \<Rightarrow> path \<Rightarrow> string \<Rightarrow> NodeId \<Rightarrow> u64 \<Rightarrow> FileMetadata option
   \<Rightarrow> (NodeId \<Rightarrow> (byte list option \<times> byte list option \<times> u32 option) option) \<Rightarrow> 'e MetadataWorker \<Rightarrow> bool" where
  "guarded dir p oid c rid m view s \<longleftrightarrow> durable dir s
     \<and> name_space (mw_store s) (elems p) = m \<and> entries_apart p oid (name_space (mw_store s))
     \<and> uploads_apart p oid c rid (pending_writes s) \<and> reads_good (pending_reads s) \<and> calm_net oid view s"

lemma guarded_modify:
  assumes "keeps (durable dir) (act_modify f)"
    "\<And>s. mw_store (f s) = mw_store s \<and> mw_net (f s) = mw_net s
      \<and> (uploads_apart p oid c rid (pending_writes s) \<longrightarrow> uploads_apart p oid c rid (pending_writes (f s)))
      \<and> (reads_good (pending_reads s) \<longrightarrow> reads_good (pending_reads (f s)))"
  shows "keeps (guarded dir p oid c rid m view) (act_modify f)"
  using assms by (simp add: passes_def wp_rules guarded_def calm_net_def)

lemma guarded_step:
  assumes "keeps (durable dir) (act_step f)"
    "\<And>s x s'. f s = (x, s') \<Longrightarrow> mw_store s' = mw_store s \<and> mw_net s' = mw_net s
      \<and> (uploads_apart p oid c rid (pending_writes s) \<longrightarrow> uploads_apart p oid c rid (pending_writes s'))
      \<and> (reads_good (pending_reads s) \<longrightarrow> reads_good (pending_reads s'))"
  shows "keeps (guarded dir p oid c rid m view) (act_step f)"
  using assms by (auto simp: passes_def wp_rules guarded_def calm_net_def split: prod.splits)

lemma guarded_unit:
  assumes "keeps (durable dir) a" "\<And>s. calm_net oid view s \<Longrightarrow> \<exists>x s'. a s = (Inr x, s') \<and> calm_net oid view s' \<and> same_tables s s'"
  shows "keeps (guarded dir p oid c rid m view) a"
proof (rule passesI)
  fix s
  assume s: "guarded dir p oid c rid m view s"
  from assms(2) [of s] s obtain x s' where s': "a s = (Inr x, s')" "calm_net oid view s'" "same_tables s s'" by (auto simp: guarded_def)
  with passesD [OF assms(1) _ s'(1)] s show "wp a (\<lambda>_. guarded dir p oid c rid m view) (\<lambda>_ _. True) s"
    by (simp add: wp_def guarded_def same_tables_def)
qed

lemma guarded_send:
  assumes env: "env_outside env = out" and n: "view n = None"
  shows "keeps (guarded dir p oid c rid m view) (send env n f)"
proof (rule guarded_unit [OF durable_quiet(1)])
  fix s
  assume s: "calm_net oid view s"
  then have "sound (net_outside (mw_net s))" "workers (net_outside (mw_net s)) n = None"
    using n by (auto simp: calm_net_def view_None [of _ _ oid])
  from sound_elsewhere [OF this, of f] s env
  show "\<exists>x s'. send env n f s = (Inr x, s') \<and> calm_net oid view s' \<and> same_tables s s'"
    by (simp add: send_def act_modify_def post_frame_def calm_net_def same_tables_def view_at_def fun_eq_iff)
qed

lemma guarded_respond:
  assumes "env_outside env = out" "view (peer_id (ctx_sender ctx)) = None"
  shows "keeps (guarded dir p oid c rid m view) (respond env ctx enc r)"
  unfolding respond_def by (intro passes_intros guarded_send assms)

lemma guarded_call:
  assumes call: "away_call p oid sc" "StoreInvariant.call_ok sc" and time: "time_fits (host_now h)"
  shows "keeps (guarded dir p oid c rid m view) (on_store (call_store h sc))"
proof (rule passesI)
  fix s
  assume s: "guarded dir p oid c rid m view s"
  obtain r st where run: "call_store h sc (mw_store s) = (r, st)" by fastforce
  from s have inv: "store_inv (mw_store s)" by (simp add: guarded_def durable_def)
  note out = call_outcome [OF run inv call(2) time]
  have "name_space st (elems p) = m \<and> entries_apart p oid (name_space st)"
    using out s away_spec [OF call(1), of "name_space (mw_store s)" "host_now h"] by (auto simp: guarded_def)
  moreover have "durable dir (s\<lparr>mw_store := st\<rparr>)"
    using passesD [OF durable_call [OF call(2) time], of dir s r "s\<lparr>mw_store := st\<rparr>"] s run
    by (simp add: guarded_def on_store_def act_step_def)
  ultimately show "wp (on_store (call_store h sc)) (\<lambda>_. guarded dir p oid c rid m view) (\<lambda>_ _. True) s"
    using s run by (simp add: on_store_def wp_rules guarded_def calm_net_def)
qed

lemma guarded_calls:
  assumes "time_fits (host_now h)"
  shows "away_call p oid (Add q x) \<Longrightarrow> md_strings_ok x \<Longrightarrow> keeps (guarded dir p oid c rid m view) (on_store (add_metadata h q x))"
    "away_call p oid (Update q x) \<Longrightarrow> md_strings_ok x \<Longrightarrow> keeps (guarded dir p oid c rid m view) (on_store (update_metadata h q x))"
    "away_call p oid (Remove q) \<Longrightarrow> keeps (guarded dir p oid c rid m view) (on_store (remove_metadata h q))"
    "keeps (guarded dir p oid c rid m view) (on_store (make_directory h q))"
    "keeps (guarded dir p oid c rid m view) (on_store (remove_directory h q))"
    "away_call p oid (Rename q r) \<Longrightarrow> keeps (guarded dir p oid c rid m view) (on_store (rename_metadata h q r))"
  using guarded_call [OF _ _ assms, of p oid "Add q x"] guarded_call [OF _ _ assms, of p oid "Update q x"]
    guarded_call [OF _ _ assms, of p oid "Remove q"] guarded_call [OF _ _ assms, of p oid "Make_directory q"]
    guarded_call [OF _ _ assms, of p oid "Remove_directory q"] guarded_call [OF _ _ assms, of p oid "Rename q r"]
  unfolding call_store_eqs by simp_all

lemma guarded_puts:
  assumes "env_outside env = out" "proper_id oid" "r0 \<noteq> r1"
    "good_id (ptq_object_id q)" "ptq_object_id q \<noteq> oid" "length (ptq_data q) \<le> 524288"
  shows "keeps (guarded dir p oid c rid m view) (put_both env i q [r0, r1])"
proof (rule guarded_unit)
  show "keeps (durable dir) (put_both env i q [r0, r1])"
    unfolding put_both_def by (intro passes_intros durable_quiet durable_waits)
qed (rule puts_elsewhere [OF assms(1) _ assms(3,2,4-6)])

lemma guarded_deletes:
  assumes "env_outside env = out" "proper_id oid" "r0 \<noteq> r1" "good_id oid'" "oid' \<noteq> oid"
  shows "keeps (guarded dir p oid c rid m view)
    (act_then (call_each env (delete_call self i oid') [r0, r1]) (\<lambda>_. deletes_acknowledged env i [r0, r1]))"
proof (rule guarded_unit)
  show "keeps (durable dir) (act_then (call_each env (delete_call self i oid') [r0, r1]) (\<lambda>_. deletes_acknowledged env i [r0, r1]))"
    unfolding call_each_def by (intro passes_intros durable_quiet durable_waits)
qed (rule deletes_elsewhere [OF assms(1) _ assms(3,2,4-5)])

lemma guarded_fetch:
  assumes "env_outside env = out" "good_id oid'"
  shows "keeps (guarded dir p oid c rid m view) (fetch_chunk env oid' i n rs)"
proof (induction rs)
  case (Cons r rs)
  have "keeps (durable dir) (ask env oid' i n r)" unfolding ask_def by (intro passes_intros durable_quiet)
  then have "keeps (guarded dir p oid c rid m view) (ask env oid' i n r)"
    by (rule guarded_unit) (rule ask_elsewhere [OF assms(1) _ assms(2)])
  with Cons show ?case unfolding fetch_chunk_asks by (intro passes_intros)
qed (auto intro: passes_intros)

lemma guarded_replies:
  assumes "env_outside env = out"
  shows "view (peer_id (ctx_sender (wfq_context wq))) = None \<Longrightarrow> keeps (guarded dir p oid c rid m view) (write_file_reply env wq st)"
    "view (peer_id (ctx_sender (wcq_context wc))) = None \<Longrightarrow> keeps (guarded dir p oid c rid m view) (write_chunk_reply env wc st)"
    "view (peer_id (ctx_sender (rfq_context rf))) = None \<Longrightarrow> keeps (guarded dir p oid c rid m view) (read_file_reply env rf st k j)"
    "view (peer_id (ctx_sender (rcq_context rc))) = None \<Longrightarrow> keeps (guarded dir p oid c rid m view) (read_chunk_reply env rc st bs)"
    "view (peer_id (ctx_sender (rmq_context rm))) = None \<Longrightarrow> keeps (guarded dir p oid c rid m view) (remove_reply env rm st)"
  unfolding write_file_reply_def write_chunk_reply_def read_file_reply_def read_chunk_reply_def remove_reply_def
  by (rule guarded_respond [OF assms]; assumption)+

lemma guarded_ends:
  "keeps (guarded dir p oid c rid m view) (discard_write ctx)"
  "keeps (guarded dir p oid c rid m view) (discard_read ctx)"
  using durable_quiet(5,6) [of dir ctx] unfolding discard_write_def discard_read_def
  by (auto intro!: guarded_modify simp: uploads_discard reads_discard)

text \<open>What the guard says of the entry or the transfer that a handler reads first.\<close>

lemma guarded_entry:
  assumes "guarded dir p oid c rid m view s" "get_metadata q (mw_store s) = Inr x"
  shows "md_strings_ok x" "good_id (md_obj_id x)" "elems q \<noteq> elems p \<Longrightarrow> md_obj_id x \<noteq> oid"
proof -
  from assms(2) have at: "map_of (ms_data (mw_store s)) (elems q) = Some x"
    by (auto simp: get_metadata_def split: if_splits option.splits)
  show "md_strings_ok x" by (rule get_metadata_strings [of dir, OF _ assms(2)]) (use assms(1) in \<open>simp add: guarded_def\<close>)
  have "name_space (mw_store s) (elems q) = Some (anon x)" using at by (simp add: name_space_def)
  with assms(1) show "good_id (md_obj_id x)" "elems q \<noteq> elems p \<Longrightarrow> md_obj_id x \<noteq> oid"
    unfolding guarded_def entries_apart_def anon_def by fastforce+
qed

lemma guarded_upload:
  assumes "guarded dir p oid c rid m view s" "find_pending c' r (pending_writes s) = Some w" "c' \<noteq> c \<or> r \<noteq> rid"
  shows "upload_apart p oid w" "pending_named w"
proof -
  show "upload_apart p oid w" using assms unfolding guarded_def uploads_apart_def by blast
  show "pending_named w" using assms(1,2) by (auto simp: guarded_def durable_def intro: find_pending_named)
qed

lemma start_write_guarded:
  assumes env: "env_outside env = out" and q: "elems (wfq_path q) \<noteq> elems p" "view (peer_id (ctx_sender (wfq_context q))) = None"
    and x: "md_strings_ok x" "good_id (md_obj_id x)" "md_obj_id x \<noteq> oid" "nul_free r0" "nul_free r1"
  shows "keeps (guarded dir p oid c rid m view) (start_write env q x r0 r1)"
  unfolding start_write_def
proof (intro passes_then guarded_step guarded_replies env q durable_step)
qed (use q x in \<open>auto simp: md_strings_ok_def pending_named_def upload_apart_def split: prod.splits
      intro: emplace_named uploads_emplace\<close>)

lemma start_read_guarded:
  assumes env: "env_outside env = out" and q: "view (peer_id (ctx_sender (rfq_context q))) = None" and x: "good_id (md_obj_id x)"
  shows "keeps (guarded dir p oid c rid m view) (start_read env q x k)"
  unfolding start_read_def Let_def
  by (intro passes_if passes_then guarded_step guarded_replies env q durable_step)
    (use x in \<open>auto split: prod.splits intro: reads_emplace\<close>)

section \<open>The handlers\<close>

lemma chunk_length_le: "unat (chunk_length n i) \<le> 524288"
proof -
  have "chunk_length n i \<le> ucast CHUNK_SIZE" by (simp add: chunk_length_def)
  then show ?thesis by (simp add: word_le_nat_alt unat_ucast_32_64 CHUNK_SIZE_nat)
qed

lemma write_file_guarded:
  assumes env: "env_outside env = out" and time: "time_fits (host_now (env_host env))"
    and q: "elems (wfq_path q) \<noteq> elems p" "view (peer_id (ctx_sender (wfq_context q))) = None"
    and x: "md_strings_ok x" "good_id (md_obj_id x)" "md_obj_id x \<noteq> oid"
  shows "keeps (guarded dir p oid c rid m view) (write_file_with env q x)"
proof -
  let ?G = "guarded dir p oid c rid m view"
  have upd: "md_strings_ok x' \<Longrightarrow> md_obj_id x' = md_obj_id x \<Longrightarrow> keeps ?G (on_store (update_metadata (env_host env) (wfq_path q) x'))" for x'
    using q x by (intro guarded_calls(2) [OF time]) simp_all
  have bound: "passes (\<lambda>s. ?G s \<and> mw_nodes s = nodes) a ?G"
    if "list_all nul_free (keys nodes) \<Longrightarrow> keeps ?G a" for nodes and a :: "('e, unit) worker_act"
    by (rule passes_known [where b = "list_all nul_free (keys nodes)"])
      (use that in \<open>auto simp: guarded_def durable_def intro: passes_weaken\<close>)
  show ?thesis
    unfolding write_file_with_def Let_def
    using x
    by (intro passes_if passes_read bound passes_then [OF upd] passes_sum guarded_replies env q start_write_guarded candidates_named)
      (auto simp: md_strings_ok_def candidates_named [simplified])
qed

lemma write_chunk_guarded:
  assumes env: "env_outside env = out" and time: "time_fits (host_now (env_host env))" and oid: "proper_id oid"
    and q: "view (peer_id (ctx_sender (wcq_context q))) = None"
    and w: "upload_apart p oid w" "pending_named w" "pending_ok w"
  shows "keeps (guarded dir p oid c rid m view) (write_chunk_to env q w)"
proof (cases "wcq_chunk_index q = pd_next_chunk w \<and> pd_next_chunk w < pd_chunk_count w
    \<and> length (wcq_data q) = unat (chunk_length (pd_file_size w) (pd_next_chunk w))")
  case True
  have "away_call p oid (Update (pd_path w) (file_entry (pd_path w) (pd_file_size w) (pd_object_id w) (pd_replica_0 w) (pd_replica_1 w)))"
    "md_strings_ok (file_entry (pd_path w) (pd_file_size w) (pd_object_id w) (pd_replica_0 w) (pd_replica_1 w))"
    using w by (simp_all add: upload_apart_def file_entry_def md_strings_ok_def pending_named_def)
  note upd = guarded_calls(2) [OF time this]
  have "length (wcq_data q) \<le> 524288" using True by (simp add: chunk_length_le)
  then have put: "keeps (guarded dir p oid c rid m view) (put_both env i (put_of q w) [pd_replica_0 w, pd_replica_1 w])" for i
    using w by (intro guarded_puts env oid) (simp_all add: put_of_def upload_apart_def pending_ok_def)
  have advanced: "keeps (guarded dir p oid c rid m view) (act_modify (\<lambda>s. s\<lparr>pending_writes := advance_pending c' r (pending_writes s)\<rparr>))" for c' r
    by (intro guarded_modify durable_modify) (auto simp: advance_named uploads_advance)
  from True have "write_chunk_to env q w = act_then (put_both env (ctx_request_id (wcq_context q)) (put_of q w) [pd_replica_0 w, pd_replica_1 w])
      (finish_write env q w)" by (intro write_chunk_to_both) simp_all
  then show ?thesis
    unfolding finish_write_def Let_def by (auto intro!: passes_then [OF put] passes_intros advanced guarded_ends guarded_replies env q upd)
next
  case False
  then have "wcq_chunk_index q \<noteq> pd_next_chunk w \<or> wcq_chunk_index q \<ge> pd_chunk_count w
      \<or> length (wcq_data q) \<noteq> unat (chunk_length (pd_file_size w) (wcq_chunk_index q))" by (auto simp: not_le)
  then have "write_chunk_to env q w = act_then (discard_write (wcq_context q)) (\<lambda>_. write_chunk_reply env q InputError)"
    by (auto simp: write_chunk_to_def Let_def)
  then show ?thesis by (auto intro!: passes_intros guarded_ends guarded_replies env q)
qed

lemma read_chunk_guarded:
  assumes env: "env_outside env = out" and q: "view (peer_id (ctx_sender (rcq_context q))) = None" and w: "good_id (pd_object_id w)"
  shows "keeps (guarded dir p oid c rid m view) (read_chunk_of env q w)"
proof -
  have advanced: "keeps (guarded dir p oid c rid m view) (act_modify (\<lambda>s. s\<lparr>pending_reads := advance_pending c' r (pending_reads s)\<rparr>))" for c' r
    by (intro guarded_modify durable_modify) (auto simp: reads_advance)
  show ?thesis
    unfolding read_chunk_of_def Let_def
    by (intro passes_intros advanced guarded_ends guarded_replies guarded_send guarded_fetch env q w)
qed

lemma guarded_number: "keeps (guarded dir p oid c rid m view) next_storage_request_id"
  using durable_quiet(3) unfolding next_storage_request_id_def by (intro guarded_step) (auto simp: Let_def)

lemma remove_file_guarded:
  assumes env: "env_outside env = out" and time: "time_fits (host_now (env_host env))" and oid: "proper_id oid"
    and q: "elems (rmq_path q) \<noteq> elems p" "view (peer_id (ctx_sender (rmq_context q))) = None"
    and x: "good_id (md_obj_id x)" "md_obj_id x \<noteq> oid"
  shows "keeps (guarded dir p oid c rid m view) (remove_file env q x)"
proof -
  let ?G = "guarded dir p oid c rid m view" and ?r0 = "md_replica_0 x" and ?r1 = "md_replica_1 x"
  have grouped: "keeps ?G (act_then (act_each (\<lambda>replica. act_then (act_lift (encode_delete_request i
            \<lparr>dlq_object_id = md_obj_id x, dlq_context = empty_context\<rparr>)) (send env replica)) [?r0, ?r1])
          (\<lambda>_. act_then (deletes_acknowledged env i [?r0, ?r1]) f))"
    if "?r0 \<noteq> ?r1" "\<And>b. keeps ?G (f b)" for i and f :: "bool \<Rightarrow> ('e, unit) worker_act"
    unfolding delete_frame [of i _ self] call_each_def [symmetric] then_assoc [symmetric]
    by (rule passes_then [OF guarded_deletes [OF env oid that(1) x]]) (rule that(2))
  have drop_entry: "keeps ?G (on_store (remove_metadata (env_host env) (rmq_path q)))"
    using q by (intro guarded_calls(3) [OF time]) simp
  show ?thesis
    unfolding remove_file_def Let_def
    by (intro passes_if passes_then [OF passes_get] passes_then [OF guarded_number] passes_then [OF drop_entry] grouped guarded_replies env q) auto
qed

lemma create_file_guarded:
  assumes env: "env_outside env = out" and time: "time_fits (host_now (env_host env))" and fresh: "\<And>i. d \<le> i \<Longrightarrow> drawn_id env i \<noteq> oid"
    and f: "\<And>o'. nul_free o' \<Longrightarrow> good_id o' \<Longrightarrow> o' \<noteq> oid \<Longrightarrow> keeps (guarded dir p oid c rid m view) (f o')"
  shows "passes (\<lambda>s. guarded dir p oid c rid m view s \<and> d \<le> mw_draws s) (act_then (new_object_id env) f) (guarded dir p oid c rid m view)"
proof (rule passesI)
  fix s
  assume s: "guarded dir p oid c rid m view s \<and> d \<le> mw_draws s"
  obtain high low where draw: "env_draw env (mw_draws s) = (high, low)" by fastforce
  have "guarded dir p oid c rid m view (s\<lparr>mw_draws := mw_draws s + 1\<rparr>)"
    using s by (simp add: guarded_def durable_def calm_net_def)
  moreover have "generate high low \<noteq> oid" using fresh [of "mw_draws s"] s draw by (simp add: drawn_id_def)
  ultimately show "wp (act_then (new_object_id env) f) (\<lambda>_. guarded dir p oid c rid m view) (\<lambda>_ _. True) s"
    using f [OF generate_nul_free generated_good, of high low] by (simp add: wp_rules new_object_id_def draw passes_def)
qed

lemma handle_guarded:
  assumes env: "env_outside env = out" and time: "time_fits (host_now (env_host env))" and oid: "proper_id oid"
    and fresh: "\<And>i. d \<le> i \<Longrightarrow> drawn_id env i \<noteq> oid"
    and ev: "away p ev" "\<And>q. ev = WriteChunkEvent q \<Longrightarrow> from_other c rid (wcq_context q)"
      "view (peer_id (ctx_sender (event_context ev))) = None"
  shows "passes (\<lambda>s. guarded dir p oid c rid m view s \<and> worker_ok s \<and> d \<le> mw_draws s) (handle env ev) (guarded dir p oid c rid m view)"
proof -
  let ?G = "guarded dir p oid c rid m view"
  have only: "passes (\<lambda>s. ?G s \<and> worker_ok s \<and> d \<le> mw_draws s) a ?G" if "keeps ?G a" for a :: "('e, unit) worker_act"
    using that by (auto intro: passes_weaken)
  show ?thesis
  proof (cases ev)
    case (CreateFileEvent q)
    have "passes (\<lambda>s. ?G s \<and> d \<le> mw_draws s) (handle_create_file env q) ?G"
      unfolding handle_create_file_def
      by (intro create_file_guarded env time fresh passes_then guarded_calls(1) [OF time] guarded_respond)
        (use ev CreateFileEvent in \<open>auto simp: file_entry_def md_strings_ok_def nul_free_def\<close>)
    then show ?thesis unfolding CreateFileEvent handle.simps by (rule passes_weaken) auto
  next
    case (ReadFileEvent q)
    have v: "view (peer_id (ctx_sender (rfq_context q))) = None" using ev(3) ReadFileEvent by simp
    have "keeps ?G (handle_read_file env q)"
    proof (rule passesI)
      fix s
      assume s: "?G s"
      show "wp (handle_read_file env q) (\<lambda>_. ?G) (\<lambda>_ _. True) s"
      proof (cases "get_metadata (rfq_path q) (mw_store s)")
        case (Inr x)
        from start_read_guarded [where view = view, OF env v guarded_entry(2) [OF s Inr]] guarded_replies(3) [where view = view, OF env v] s Inr show ?thesis
          by (auto simp: handle_read_file_def Let_def wp_rules passes_def split: if_splits)
      qed (use guarded_replies(3) [where view = view, OF env v] s in \<open>auto simp: handle_read_file_def Let_def wp_rules passes_def\<close>)
    qed
    with only show ?thesis by (simp add: ReadFileEvent)
  next
    case (ReadChunkEvent q)
    have v: "view (peer_id (ctx_sender (rcq_context q))) = None" using ev(3) ReadChunkEvent by simp
    have "keeps ?G (handle_read_chunk env q)"
    proof (rule passesI)
      fix s
      assume s: "?G s"
      show "wp (handle_read_chunk env q) (\<lambda>_. ?G) (\<lambda>_ _. True) s"
      proof (cases "find_pending (peer_id (ctx_sender (rcq_context q))) (ctx_request_id (rcq_context q)) (pending_reads s)")
        case (Some w)
        with s have "good_id (pd_object_id w)" by (auto simp: guarded_def reads_good_def)
        from read_chunk_guarded [where view = view, OF env v this] s Some show ?thesis by (simp add: handle_read_chunk_def wp_rules passes_def)
      qed (use guarded_replies(4) [where view = view, OF env v] s in \<open>simp add: handle_read_chunk_def wp_rules passes_def\<close>)
    qed
    with only show ?thesis by (simp add: ReadChunkEvent)
  next
    case (WriteFileEvent q)
    have v: "elems (wfq_path q) \<noteq> elems p" "view (peer_id (ctx_sender (wfq_context q))) = None" using ev(1,3) WriteFileEvent by simp_all
    have new: "passes (\<lambda>s. ?G s \<and> d \<le> mw_draws s)
        (act_then (new_object_id env) (\<lambda>o'. write_file_with env q (file_entry (wfq_path q) 0 o' [] []))) ?G"
      by (intro create_file_guarded env time fresh write_file_guarded v) (auto simp: file_entry_def md_strings_ok_def nul_free_def)
    have "passes (\<lambda>s. ?G s \<and> d \<le> mw_draws s) (handle_write_file env q) ?G"
    proof (rule passesI)
      fix s
      assume s: "?G s \<and> d \<le> mw_draws s"
      show "wp (handle_write_file env q) (\<lambda>_. ?G) (\<lambda>_ _. True) s"
      proof (cases "get_metadata (wfq_path q) (mw_store s)")
        case (Inr x)
        note e = guarded_entry [OF s [THEN conjunct1] Inr]
        from write_file_guarded [where view = view, OF env time v e(1,2) e(3) [OF v(1)]] guarded_replies(1) [where view = view, OF env v(2)] s Inr show ?thesis
          by (auto simp: handle_write_file_def wp_rules passes_def)
      qed (use new guarded_replies(1) [where view = view, OF env v(2)] s in \<open>auto simp: handle_write_file_def wp_rules passes_def\<close>)
    qed
    then show ?thesis unfolding WriteFileEvent handle.simps by (rule passes_weaken) auto
  next
    case (WriteChunkEvent q)
    have v: "view (peer_id (ctx_sender (wcq_context q))) = None" using ev(3) WriteChunkEvent by simp
    show ?thesis
    proof (rule passesI)
      fix s
      assume s: "?G s \<and> worker_ok s \<and> d \<le> mw_draws s"
      show "wp (handle env ev) (\<lambda>_. ?G) (\<lambda>_ _. True) s"
      proof (cases "find_pending (peer_id (ctx_sender (wcq_context q))) (ctx_request_id (wcq_context q)) (pending_writes s)")
        case (Some w)
        from ev(2) [OF WriteChunkEvent] have "peer_id (ctx_sender (wcq_context q)) \<noteq> c \<or> ctx_request_id (wcq_context q) \<noteq> rid"
          by (simp add: from_other_def)
        note w = guarded_upload [OF s [THEN conjunct1] Some this]
        have "pending_ok w" using s Some by (auto simp: worker_ok_def intro: find_pending_ok)
        from write_chunk_guarded [where view = view, OF env time oid v w this] s Some show ?thesis
          by (simp add: WriteChunkEvent handle_write_chunk_def wp_rules passes_def)
      qed (use guarded_replies(2) [where view = view, OF env v] s in \<open>simp add: WriteChunkEvent handle_write_chunk_def wp_rules passes_def\<close>)
    qed
  next
    case (RemoveEvent q)
    have v: "elems (rmq_path q) \<noteq> elems p" "view (peer_id (ctx_sender (rmq_context q))) = None" using ev(1,3) RemoveEvent by simp_all
    have dir: "keeps ?G (act_then (on_store (remove_directory (env_host env) (rmq_path q))) (\<lambda>r. remove_reply env q (client_status_of r)))"
      by (intro passes_then guarded_calls(5) [OF time] guarded_replies env v)
    have "keeps ?G (handle_remove env q)"
    proof (rule passesI)
      fix s
      assume s: "?G s"
      show "wp (handle_remove env q) (\<lambda>_. ?G) (\<lambda>_ _. True) s"
      proof (cases "get_metadata (rmq_path q) (mw_store s)")
        case (Inr x)
        note e = guarded_entry [OF s Inr]
        from remove_file_guarded [where view = view, OF env time oid v e(2) e(3) [OF v(1)]] guarded_replies(5) [where view = view, OF env v(2)] s Inr show ?thesis
          by (auto simp: handle_remove_def wp_rules passes_def)
      qed (use dir guarded_replies(5) [where view = view, OF env v(2)] s in \<open>auto simp: handle_remove_def wp_rules passes_def\<close>)
    qed
    with only show ?thesis by (simp add: RemoveEvent)
  next
    case (RenameEvent q)
    have "keeps ?G (handle_rename env q)"
      unfolding handle_rename_def by (intro passes_then guarded_calls(6) [OF time] guarded_respond env) (use ev RenameEvent in simp_all)
    with only show ?thesis by (simp add: RenameEvent)
  next
    case (MakeDirEvent q)
    have "keeps ?G (handle_make_dir env q)"
      unfolding handle_make_dir_def by (intro passes_then guarded_calls(4) [OF time] guarded_respond env) (use ev MakeDirEvent in simp_all)
    with only show ?thesis by (simp add: MakeDirEvent)
  next
    case (ListEvent q)
    have "keeps ?G (handle_list env q)"
      unfolding handle_list_def by (intro passes_then passes_get guarded_respond env) (use ev ListEvent in simp_all)
    with only show ?thesis by (simp add: ListEvent)
  next
    case (StatEvent q)
    have "keeps ?G (handle_stat env q)"
      unfolding handle_stat_def by (intro passes_then passes_get passes_prod guarded_respond env) (use ev StatEvent in simp_all)
    with only show ?thesis by (simp add: StatEvent)
  qed
qed

end

section \<open>The draws of a worker\<close>

text \<open>No handler goes back in the sequence of random numbers.\<close>

definition drawn :: "nat \<Rightarrow> 'e MetadataWorker \<Rightarrow> bool" where
  "drawn d s \<longleftrightarrow> d \<le> mw_draws s"

lemma drawn_modify: "(\<And>s. mw_draws (f s) = mw_draws s) \<Longrightarrow> keeps (drawn d) (act_modify f)"
  by (simp add: passes_def wp_rules drawn_def)

lemma drawn_step: "(\<And>s. mw_draws s \<le> mw_draws (snd (f s))) \<Longrightarrow> keeps (drawn d) (act_step f)"
  by (auto simp: passes_def wp_rules drawn_def split: prod.split dest: le_trans) (metis le_trans snd_conv)

lemma drawn_quiet:
  "keeps (drawn d) (send env node f)" "keeps (drawn d) (receive_if env p)" "keeps (drawn d) (on_store g)"
  "keeps (drawn d) (new_object_id env)" "keeps (drawn d) next_storage_request_id"
  "keeps (drawn d) (discard_write ctx)" "keeps (drawn d) (discard_read ctx)"
  unfolding send_def receive_if_def on_store_def new_object_id_def next_storage_request_id_def discard_write_def discard_read_def
  by (auto intro!: drawn_modify drawn_step simp: Let_def split: prod.splits)

lemma drawn_respond: "keeps (drawn d) (respond env ctx enc x)"
  unfolding respond_def by (intro passes_intros drawn_quiet)

lemma drawn_replies:
  "keeps (drawn d) (write_file_reply env wq st)" "keeps (drawn d) (write_chunk_reply env wc st)"
  "keeps (drawn d) (read_file_reply env rf st n k)" "keeps (drawn d) (read_chunk_reply env rc st bs)"
  "keeps (drawn d) (remove_reply env rm st)"
  unfolding write_file_reply_def write_chunk_reply_def read_file_reply_def read_chunk_reply_def remove_reply_def
  by (rule drawn_respond)+

lemma drawn_put: "keeps (drawn d) (put_acknowledged env rid i x)"
  unfolding put_acknowledged_def by (intro passes_intros drawn_quiet drawn_modify) simp

lemma drawn_waits:
  "keeps (drawn d) (puts_acknowledged env rid i rs)" "keeps (drawn d) (deletes_acknowledged env rid rs)"
  "keeps (drawn d) (fetch_chunk env oid j n rs)"
proof -
  show "keeps (drawn d) (puts_acknowledged env rid i rs)"
    by (induction rs) (auto intro!: passes_intros drawn_put)
  show "keeps (drawn d) (deletes_acknowledged env rid rs)"
    by (induction rs) (auto intro!: passes_intros drawn_quiet simp: Let_def)
  show "keeps (drawn d) (fetch_chunk env oid j n rs)"
  proof (induction rs)
    case (Cons x rs)
    then show ?case unfolding fetch_chunk.simps by (intro passes_intros drawn_quiet)
  qed (auto intro: passes_intros)
qed

lemma drawn_starts:
  "keeps (drawn d) (start_write env wq m r0 r1)" "keeps (drawn d) (start_read env rq m k)"
  unfolding start_write_def start_read_def Let_def
  by (intro passes_intros drawn_replies drawn_step; force split: prod.split)+

lemmas drawn_keep = drawn_quiet drawn_put drawn_respond drawn_replies drawn_waits drawn_starts

lemma handle_drawn: "keeps (drawn d) (handle env ev)"
  by (cases ev)
    (auto simp: handle_create_file_def handle_list_def handle_make_dir_def handle_rename_def handle_stat_def handle_write_file_def
      write_file_with_def handle_write_chunk_def write_chunk_to_def handle_read_file_def handle_read_chunk_def read_chunk_of_def
      handle_remove_def remove_file_def Let_def intro!: passes_intros drawn_keep drawn_modify)

section \<open>The chunks of the upload itself\<close>

context storage_service
begin

lemma view_Some:
  "view_at oid e n = Some (a, b, x) \<longleftrightarrow> (\<exists>v. workers e n = Some v \<and> committed v oid = a \<and> staged v oid = b \<and> expected_chunk v oid = x)"
  by (auto simp: view_at_def)

lemma staged_iff:
  "staged_at e content w k \<longleftrightarrow> (0 < k \<longrightarrow> (\<forall>r \<in> {pd_replica_0 w, pd_replica_1 w}. \<exists>a x.
     view_at (pd_object_id w) e r = Some (a, Some (take (k * 524288) content), x)))"
  by (simp add: staged_at_def view_Some)

lemma committed_iff:
  "committed_at e content w \<longleftrightarrow> (\<forall>r \<in> {pd_replica_0 w, pd_replica_1 w}. \<exists>b x. view_at (pd_object_id w) e r = Some (Some content, b, x))"
  by (simp add: committed_at_def view_Some)

text \<open>The guard with what else a handler needs, and the two table entries of \<open>c\<close> and \<open>rid\<close>.\<close>

definition kept ::
  "location \<Rightarrow> path \<Rightarrow> string \<Rightarrow> NodeId \<Rightarrow> u64 \<Rightarrow> FileMetadata option
   \<Rightarrow> (NodeId \<Rightarrow> (byte list option \<times> byte list option \<times> u32 option) option) \<Rightarrow> nat \<Rightarrow> 'e MetadataWorker \<Rightarrow> bool" where
  "kept dir p oid c rid m view d s \<longleftrightarrow> guarded dir p oid c rid m view s \<and> worker_ok s \<and> drawn d s"

lemma event_kept:
  assumes env: "env_outside env = out" "time_fits (host_now (env_host env))"
    and oid: "proper_id oid" "\<And>i. d \<le> i \<Longrightarrow> drawn_id env i \<noteq> oid"
    and s: "kept dir p oid c rid m view d s"
    and ev: "away p ev" "\<And>q. ev = WriteChunkEvent q \<Longrightarrow> from_other c rid (wcq_context q)"
      "workers (net_outside (mw_net s)) (peer_id (ctx_sender (event_context ev))) = None"
    and run: "handle env ev s = (Inr (), s')"
  shows "kept dir p oid c rid m view d s'"
proof -
  from s have g: "guarded dir p oid c rid m view s" "worker_ok s" "drawn d s" by (simp_all add: kept_def)
  then have "view_at oid (net_outside (mw_net s)) = view" by (simp add: guarded_def calm_net_def)
  then have "view (peer_id (ctx_sender (event_context ev))) = None" using ev(3) by (auto simp: view_at_def)
  from passesD [OF handle_guarded [where view = view and d = d, OF env oid ev(1,2) this] _ run] g
  show ?thesis using passesD [OF handle_ok g(2) run] passesD [OF handle_drawn g(3) run] by (simp add: kept_def drawn_def)
qed

lemma nodes_kept:
  assumes "kept dir p oid c rid m view d s" "nodes_ok tab" "list_all nul_free (keys tab)"
  shows "kept dir p oid c rid m view d (s\<lparr>mw_nodes := tab\<rparr>)"
  using assms by (auto simp: kept_def guarded_def calm_net_def worker_ok_def durable_def drawn_def)

text \<open>
  The upload with its first \<open>n\<close> chunks acknowledged: \<open>w\<close> is its entry until the last one, and
  then \<open>p\<close> has the entry that the last one wrote.
\<close>

definition undisturbed ::
  "location \<Rightarrow> path \<Rightarrow> NodeId \<Rightarrow> u64 \<Rightarrow> byte list \<Rightarrow> Pending \<Rightarrow> nat \<Rightarrow> 'e MetadataWorker \<Rightarrow> bool" where
  "undisturbed dir p c rid content w n s \<longleftrightarrow> worker_ok s
     \<and> (\<exists>m view. guarded dir p (pd_object_id w) c rid m view s \<and> view c = None)
     \<and> (if n < count_chunks (length content)
        then (\<exists>u. u = w\<lparr>pd_next_chunk := word_of_nat n\<rparr> \<and> find_pending c rid (pending_writes s) = Some u
          \<and> upload_of content u n \<and> staged_at (net_outside (mw_net s)) content u n)
        else find_pending c rid (pending_writes s) = None \<and> committed_at (net_outside (mw_net s)) content w
          \<and> (\<exists>m. get_metadata p (mw_store s) = Inr m \<and> md_size m = pd_file_size w \<and> md_obj_id m = pd_object_id w
              \<and> md_replica_0 m = pd_replica_0 w \<and> md_replica_1 m = pd_replica_1 w))"

text \<open>Requests of others leave it so.\<close>

lemma same_entry:
  assumes "name_space st' (elems p) = name_space st (elems p)" "get_metadata p st = Inr m"
  shows "\<exists>m'. get_metadata p st' = Inr m' \<and> md_size m' = md_size m \<and> md_obj_id m' = md_obj_id m
    \<and> md_replica_0 m' = md_replica_0 m \<and> md_replica_1 m' = md_replica_1 m"
proof -
  from assms have "valid_filename p" "name_space st' (elems p) = Some (anon m)"
    by (auto simp: get_metadata_def name_space_def split: if_splits option.splits)
  moreover from this(2) obtain m' where "map_of (ms_data st') (elems p) = Some m'" "anon m' = anon m" by (auto simp: name_space_def)
  moreover from this(2) have "md_size m' = md_size m \<and> md_obj_id m' = md_obj_id m \<and> md_replica_0 m' = md_replica_0 m \<and> md_replica_1 m' = md_replica_1 m"
    by (cases m, cases m') (simp add: anon_def)
  ultimately show ?thesis by (auto simp: get_metadata_def)
qed

lemma undisturbed_kept:
  assumes s: "undisturbed dir p c rid content w n s" "guarded dir p (pd_object_id w) c rid m view s"
    and t: "guarded dir p (pd_object_id w) c rid m view t" "view c = None" "worker_ok t"
    and same: "find_pending c rid (pending_writes t) = find_pending c rid (pending_writes s)"
  shows "undisturbed dir p c rid content w n t"
proof -
  let ?oid = "pd_object_id w" and ?e = "net_outside (mw_net s)" and ?e' = "net_outside (mw_net t)"
  from s(2) t(1) have view: "view_at ?oid ?e' = view_at ?oid ?e" and m: "name_space (mw_store t) (elems p) = name_space (mw_store s) (elems p)"
    by (simp_all add: guarded_def calm_net_def)
  have "\<exists>m view. guarded dir p ?oid c rid m view t \<and> view c = None" using t(1,2) by blast
  moreover have "staged_at ?e content (w\<lparr>pd_next_chunk := i\<rparr>) n \<Longrightarrow> staged_at ?e' content (w\<lparr>pd_next_chunk := i\<rparr>) n" for i
    unfolding staged_iff by (simp add: view)
  moreover have "committed_at ?e content w \<Longrightarrow> committed_at ?e' content w" unfolding committed_iff view .
  moreover note same_entry [OF m]
  ultimately show ?thesis using s(1) t(3) unfolding undisturbed_def same by (auto split: if_splits)
qed

text \<open>An acknowledged chunk of its own takes it one step on.\<close>

lemma update_own:
  assumes "update_metadata h p x st = (r, st')" "time_fits (host_now h)" "store_inv st" "entries_apart p oid (name_space st)"
    and "good_id oid" "md_obj_id x = oid" "md_strings_ok x"
  shows "entries_apart p oid (name_space st')"
proof -
  have "call_store h (Update p x) st = (r, st')" using assms(1) by simp
  from call_outcome [OF this assms(3) _ assms(2)] assms(7)
  have "name_space st' = (if r = Inr () then spec_call (host_now h) (Update p x) (name_space st) else name_space st)" by simp
  then show ?thesis using assms(4-6) by (auto simp: entries_apart_def stamped_def anon_def)
qed

lemma chunk_acknowledged:
  assumes env: "env_outside env = out" and rest: "at_rest c s"
    and u: "find_pending c rid (pending_writes s) = Some u" "upload_of content u n" "staged_at (net_outside (mw_net s)) content u n"
    and req: "wcq_chunk_index req = word_of_nat n" "wcq_data req = chunk n content"
      "peer_id (ctx_sender (wcq_context req)) = c" "ctx_request_id (wcq_context req) = rid"
    and run: "handle env (WriteChunkEvent req) s = (Inr (), s')"
    and sent: "last (sent s') = (c, write_chunk_frame rid (word_of_nat n) Success)"
  shows "chunk_outcome (env_host env) content u n c rid s Success s'"
proof -
  from rest have "net_queue (mw_net s) = []" "sound (net_outside (mw_net s))" "workers (net_outside (mw_net s)) c = None"
    by (simp_all add: at_rest_def)
  from write_chunk_handled [OF env this(1,2), of req u content n] this(3) u req run obtain posted st where
    o: "sent s' = sent s @ posted @ [(c, write_chunk_frame rid (word_of_nat n) st)]" "client_status_ok st"
    "chunk_outcome (env_host env) content u n c rid s st s'"
    by auto
  from sent o(1,2) have "st = Success"
    by (cases st) (auto simp: write_chunk_frame_def rpc_frame_def client_status_ok_def client_status_of_u8_def split: if_splits)
  with o(3) show ?thesis by simp
qed

lemma chunk_undisturbed:
  assumes env: "env_outside env = out" "time_fits (host_now (env_host env))"
    and path: "pd_path w = p" "pending_named w"
    and s: "undisturbed dir p c rid content w n s" "n < count_chunks (length content)"
    and req: "wcq_chunk_index req = word_of_nat n" "wcq_data req = chunk n content"
      "peer_id (ctx_sender (wcq_context req)) = c" "ctx_request_id (wcq_context req) = rid"
    and run: "handle env (WriteChunkEvent req) s = (Inr (), s')"
    and sent: "last (sent s') = (c, write_chunk_frame rid (word_of_nat n) Success)"
  shows "undisturbed dir p c rid content w (Suc n) s'"
proof -
  let ?oid = "pd_object_id w" and ?e = "net_outside (mw_net s)" and ?e' = "net_outside (mw_net s')"
  define u where "u = w\<lparr>pd_next_chunk := word_of_nat n\<rparr>"
  from s obtain m view where g: "guarded dir p ?oid c rid m view s" "view c = None" and ok: "worker_ok s"
    and u: "find_pending c rid (pending_writes s) = Some u" "upload_of content u n" "staged_at ?e content u n"
    by (auto simp: undisturbed_def u_def)
  from g have rest: "net_queue (mw_net s) = []" "sound ?e" "workers ?e c = None" "view_at ?oid ?e = view" "durable dir s"
    and apart: "entries_apart p ?oid (name_space (mw_store s))" "uploads_apart p ?oid c rid (pending_writes s)" "reads_good (pending_reads s)"
    by (auto simp: guarded_def calm_net_def view_at_def)
  have "at_rest c s" using rest(1-3) by (simp add: at_rest_def)
  note o = chunk_acknowledged [OF env(1) this u req run sent, unfolded chunk_outcome_def Let_def]
  from o have net: "net_queue (mw_net s') = []" "sound ?e'" "workers ?e' c = None" and reads: "pending_reads s' = pending_reads s" by simp_all
  have ok': "worker_ok s'" using passesD [OF handle_ok ok run] .
  have dur: "durable dir s'" using passesD [OF handle_durable [OF env(2)] rest(5) run] .
  have tables: "uploads_apart p ?oid c rid (pending_writes s')"
    using o apart(2) by (auto simp: uploads_advance uploads_discard split: if_splits)
  have good: "good_id ?oid" using u(2) by (simp add: upload_of_def u_def good_id_def)
  have "entries_apart p ?oid (name_space (mw_store s'))"
  proof (cases "Suc n = count_chunks (length content)")
    case True
    with o have "update_metadata (env_host env) p (file_entry p (pd_file_size w) ?oid (pd_replica_0 w) (pd_replica_1 w)) (mw_store s) = (Inr (), mw_store s')"
      by (simp add: u_def path(1))
    from update_own [OF this env(2) _ apart(1) good] rest(5) path show ?thesis
      by (simp add: durable_def md_strings_ok_def file_entry_def pending_named_def)
  qed (use o apart(1) in simp)
  then have "guarded dir p ?oid c rid (name_space (mw_store s') (elems p)) (view_at ?oid ?e') s'"
    using dur tables reads apart(3) net by (simp add: guarded_def calm_net_def)
  moreover have "view_at ?oid ?e' c = None" using net(3) by (simp add: view_at_def)
  ultimately have g': "\<exists>m view. guarded dir p ?oid c rid m view s' \<and> view c = None" by blast
  show ?thesis
  proof (cases "Suc n = count_chunks (length content)")
    case True
    with o have l: "committed_at ?e' content u" "pending_writes s' = discard_pending c rid (advance_pending c rid (pending_writes s))"
      "update_metadata (env_host env) p (file_entry p (pd_file_size w) ?oid (pd_replica_0 w) (pd_replica_1 w)) (mw_store s) = (Inr (), mw_store s')"
      by (simp_all add: u_def path(1))
    have "find_pending c rid (pending_writes s') = None" using l(2) ok by (simp add: find_discard worker_ok_def)
    moreover have "committed_at ?e' content w" using l(1) by (simp add: committed_at_def u_def)
    ultimately show ?thesis using True g' ok' update_gives [OF l(3)] by (auto simp: undisturbed_def file_entry_def)
  next
    case False
    with o have l: "staged_at ?e' content u (Suc n)" "pending_writes s' = advance_pending c rid (pending_writes s)" by simp_all
    have "u\<lparr>pd_next_chunk := pd_next_chunk u + 1\<rparr> = w\<lparr>pd_next_chunk := word_of_nat (Suc n)\<rparr>" by (simp add: u_def add.commute)
    moreover have "find_pending c rid (pending_writes s') = Some (u\<lparr>pd_next_chunk := pd_next_chunk u + 1\<rparr>)"
      using l(2) u(1) by (simp add: find_advance)
    ultimately show ?thesis using False s(2) g' ok' l(1) u(2)
      by (auto simp: undisturbed_def u_def upload_of_def staged_at_def)
  qed
qed

end

section \<open>An upload among the requests of others\<close>

text \<open>
  What the worker may do for others meanwhile: it handles requests that stay away from \<open>p\<close>, of
  any client and of \<open>c\<close> under other ids than \<open>rid\<close>, heartbeats come in and nodes time out; the
  clock of the host is read anew for each.
\<close>

inductive meantime :: "nodes Env \<Rightarrow> path \<Rightarrow> NodeId \<Rightarrow> u64 \<Rightarrow> nodes MetadataWorker \<Rightarrow> nodes MetadataWorker \<Rightarrow> bool"
  for env p c rid s where
  nothing_else: "meantime env p c rid s s"
| other: "meantime env p c rid s t \<Longrightarrow> away p ev \<Longrightarrow> from_other c rid (event_context ev)
    \<Longrightarrow> worker_at (peer_id (ctx_sender (event_context ev))) (net_outside (mw_net t)) = None
    \<Longrightarrow> time_fits (host_now h) \<Longrightarrow> handle (env\<lparr>env_host := h\<rparr>) ev t = (Inr (), u)
    \<Longrightarrow> meantime env p c rid s u"
| heartbeat: "meantime env p c rid s t \<Longrightarrow> proper_name (peer_id (hb_sender hb))
    \<Longrightarrow> meantime env p c rid s (t\<lparr>mw_nodes := handle_heartbeat now hb (mw_nodes t)\<rparr>)"
| timeouts: "meantime env p c rid s t
    \<Longrightarrow> meantime env p c rid s (t\<lparr>mw_nodes := check_heartbeat_timeouts now (mw_nodes t)\<rparr>)"

text \<open>
  The worker serves the upload of \<open>content\<close> to \<open>p\<close>, which client \<open>c\<close> made under \<open>rid\<close>, and others
  between its chunks, of which \<open>n\<close> are acknowledged.
\<close>

inductive interleaved ::
  "nodes Env \<Rightarrow> path \<Rightarrow> NodeId \<Rightarrow> u64 \<Rightarrow> byte list \<Rightarrow> nodes MetadataWorker \<Rightarrow> nat \<Rightarrow> nodes MetadataWorker \<Rightarrow> bool"
  for env p c rid content s where
  start: "interleaved env p c rid content s 0 s"
| others: "interleaved env p c rid content s n t \<Longrightarrow> meantime env p c rid t u \<Longrightarrow> interleaved env p c rid content s n u"
| chunk: "interleaved env p c rid content s n t \<Longrightarrow> n < count_chunks (length content)
    \<Longrightarrow> wcq_chunk_index req = word_of_nat n \<Longrightarrow> wcq_data req = chunk n content
    \<Longrightarrow> peer_id (ctx_sender (wcq_context req)) = c \<Longrightarrow> ctx_request_id (wcq_context req) = rid
    \<Longrightarrow> time_fits (host_now h) \<Longrightarrow> handle (env\<lparr>env_host := h\<rparr>) (WriteChunkEvent req) t = (Inr (), u)
    \<Longrightarrow> last (sent u) = (c, write_chunk_frame rid (word_of_nat n) Success)
    \<Longrightarrow> interleaved env p c rid content s (Suc n) u"

text \<open>
  The worker has accepted the upload as \<open>w\<close>: it is the only one to its path and to its object,
  which no later draw of an object id repeats.
\<close>

definition accepted ::
  "(NodeId \<Rightarrow> StorageNode \<Rightarrow> StorageHost) \<Rightarrow> NodeIdentity \<Rightarrow> nodes Env \<Rightarrow> path \<Rightarrow> NodeId \<Rightarrow> u64 \<Rightarrow> byte list \<Rightarrow> Pending
   \<Rightarrow> nodes MetadataWorker \<Rightarrow> bool" where
  "accepted hosts self env p c rid content w s \<longleftrightarrow> env_outside env = nodes_outside hosts self
     \<and> nodes.at_rest c s \<and> worker_ok s \<and> durable (ms_directory (mw_store s)) s
     \<and> find_pending c rid (pending_writes s) = Some w \<and> pd_path w = p \<and> nodes.upload_of content w 0
     \<and> (\<forall>i \<ge> mw_draws s. drawn_id env i \<noteq> pd_object_id w)
     \<and> entries_apart p (pd_object_id w) (name_space (mw_store s))
     \<and> uploads_apart p (pd_object_id w) c rid (pending_writes s) \<and> reads_good (pending_reads s)"

lemma find_named: "writes_named t \<Longrightarrow> find_pending c rid t = Some w \<Longrightarrow> pending_named w"
  unfolding writes_named_def find_pending_def by (auto split: option.splits dest!: map_of_SomeD)

lemma heartbeat_nodes:
  assumes "nodes.kept dir p oid c rid m view d t"
  shows "nodes_ok (check_heartbeat_timeouts now (mw_nodes t))" "list_all nul_free (keys (check_heartbeat_timeouts now (mw_nodes t)))"
    and "proper_name (peer_id (hb_sender hb)) \<Longrightarrow> nodes_ok (handle_heartbeat now hb (mw_nodes t))"
    and "proper_name (peer_id (hb_sender hb)) \<Longrightarrow> list_all nul_free (keys (handle_heartbeat now hb (mw_nodes t)))"
proof -
  from assms have t: "nodes_ok (mw_nodes t)" "list_all nul_free (keys (mw_nodes t))"
    by (simp_all add: nodes.kept_def nodes.guarded_def worker_ok_def durable_def)
  then show "nodes_ok (check_heartbeat_timeouts now (mw_nodes t))" "list_all nul_free (keys (check_heartbeat_timeouts now (mw_nodes t)))"
    by simp_all
  assume "proper_name (peer_id (hb_sender hb))"
  then have h: "peer_id (hb_sender hb) \<noteq> []" "nul_free (peer_id (hb_sender hb))" by (simp_all add: proper_name_def)
  show "nodes_ok (handle_heartbeat now hb (mw_nodes t))" by (rule nodes_ok_heartbeat [OF t(1) h(1)])
  show "list_all nul_free (keys (handle_heartbeat now hb (mw_nodes t)))"
    using t(2) h(2) unfolding list_all_iff keys_heartbeat by blast
qed

lemma meantime_kept:
  assumes env: "env_outside env = nodes_outside hosts self"
    and oid: "proper_id oid" "\<And>i. d \<le> i \<Longrightarrow> drawn_id env i \<noteq> oid"
    and run: "meantime env p c rid s t" and s: "nodes.kept dir p oid c rid m view d s" "entries_at c rid x y s"
  shows "nodes.kept dir p oid c rid m view d t \<and> entries_at c rid x y t"
  using run
proof (induction rule: meantime.induct)
  case (other t ev h u)
  let ?env = "env\<lparr>env_host := h\<rparr>"
  have env: "env_outside ?env = nodes_outside hosts self" "time_fits (host_now (env_host ?env))" using env other.hyps(5) by simp_all
  have fresh: "\<And>i. d \<le> i \<Longrightarrow> drawn_id ?env i \<noteq> oid" using oid(2) by (simp add: drawn_id_def)
  from other.IH have t: "nodes.kept dir p oid c rid m view d t" "entries_at c rid x y t" by simp_all
  have "from_other c rid (wcq_context q)" if "ev = WriteChunkEvent q" for q using other.hyps(3) that by simp
  from nodes.event_kept [where d = d, OF env oid(1) fresh t(1) other.hyps(2) this other.hyps(4,6)]
    passesD [OF handle_entries [OF other.hyps(3)] t(2) other.hyps(6)]
  show ?case by simp
next
  case (heartbeat t hb now)
  then have t: "nodes.kept dir p oid c rid m view d t" by simp
  from nodes.nodes_kept [OF t heartbeat_nodes(3,4) [OF t heartbeat.hyps(2)]] heartbeat.IH show ?case by (simp add: entries_at_def)
next
  case (timeouts t now)
  then have t: "nodes.kept dir p oid c rid m view d t" by simp
  from nodes.nodes_kept [OF t heartbeat_nodes(1,2) [OF t]] timeouts.IH show ?case by (simp add: entries_at_def)
qed (use s in simp)

lemma meantime_undisturbed:
  assumes env: "env_outside env = nodes_outside hosts self"
    and w: "proper_id (pd_object_id w)" "\<And>i. d \<le> i \<Longrightarrow> drawn_id env i \<noteq> pd_object_id w"
    and run: "meantime env p c rid s t" and s: "nodes.undisturbed dir p c rid content w n s" "drawn d s"
  shows "nodes.undisturbed dir p c rid content w n t \<and> drawn d t"
proof -
  from s(1) obtain m view where g: "nodes.guarded dir p (pd_object_id w) c rid m view s" "view c = None" "worker_ok s"
    by (auto simp: nodes.undisturbed_def)
  with s(2) have "nodes.kept dir p (pd_object_id w) c rid m view d s" by (simp add: nodes.kept_def)
  from meantime_kept [OF env w run this, of "find_pending c rid (pending_writes s)" "find_pending c rid (pending_reads s)"]
  have t: "nodes.guarded dir p (pd_object_id w) c rid m view t" "worker_ok t" "drawn d t"
    "find_pending c rid (pending_writes t) = find_pending c rid (pending_writes s)"
    by (simp_all add: entries_at_def nodes.kept_def)
  from nodes.undisturbed_kept [OF s(1) g(1) t(1) g(2) t(2,4)] t(3) show ?thesis by simp
qed

lemma interleaved_undisturbed:
  assumes acc: "accepted hosts self env p c rid content w s" and run: "interleaved env p c rid content s n t"
  shows "nodes.undisturbed (ms_directory (mw_store s)) p c rid content w n t \<and> drawn (mw_draws s) t"
  using run
proof (induction rule: interleaved.induct)
  case start
  from acc have w: "find_pending c rid (pending_writes s) = Some w" "nodes.upload_of content w 0" by (simp_all add: accepted_def)
  then have "w\<lparr>pd_next_chunk := 0\<rparr> = w" "0 < count_chunks (length content)" by (simp_all add: nodes.upload_of_def)
  moreover have "nodes.guarded (ms_directory (mw_store s)) p (pd_object_id w) c rid (name_space (mw_store s) (elems p))
      (nodes.view_at (pd_object_id w) (net_outside (mw_net s))) s"
    using acc by (simp add: accepted_def nodes.guarded_def nodes.calm_net_def nodes.at_rest_def)
  moreover have "nodes.view_at (pd_object_id w) (net_outside (mw_net s)) c = None"
    using acc by (simp add: accepted_def nodes.at_rest_def nodes.view_at_def)
  moreover have "worker_ok s" using acc by (simp add: accepted_def)
  ultimately show ?case using w by (auto simp: nodes.undisturbed_def nodes.staged_at_def drawn_def)
next
  case (others n t u)
  from acc have "env_outside env = nodes_outside hosts self" "proper_id (pd_object_id w)" "\<And>i. mw_draws s \<le> i \<Longrightarrow> drawn_id env i \<noteq> pd_object_id w"
    by (simp_all add: accepted_def nodes.upload_of_def)
  from meantime_undisturbed [OF this others.hyps(2) others.IH [THEN conjunct1] others.IH [THEN conjunct2]] show ?case .
next
  case (chunk n t req h u)
  let ?env = "env\<lparr>env_host := h\<rparr>"
  have env: "env_outside ?env = nodes_outside hosts self" "time_fits (host_now (env_host ?env))" using acc chunk by (simp_all add: accepted_def)
  have w: "pd_path w = p" "pending_named w" using acc by (auto simp: accepted_def durable_def intro: find_named)
  show ?case
    using nodes.chunk_undisturbed [OF env w _ chunk.hyps(2-6) chunk.hyps(8,9)] chunk.IH passesD [OF handle_drawn _ chunk.hyps(8)] by simp
qed

section \<open>A small run\<close>

definition early_upload :: Pending where
  "early_upload = \<lparr>pd_path = ''g'', pd_object_id = ''a'', pd_file_size = 3, pd_chunk_count = 1, pd_next_chunk = 0,
     pd_replica_0 = ''s1'', pd_replica_1 = ''s2''\<rparr>"

definition upload_worker :: "nodes MetadataWorker" where
  "upload_worker = mn_worker (sample_cluster [(peer_id sample_user, [(1, early_upload)])] [])"

lemma sample_object: "good_id ''a''" "drawn_id sample_cluster_env i \<noteq> ''a''"
proof -
  show "good_id ''a''" using sample_ids(1) by (simp add: good_id_def nul_free_def)
  show "drawn_id sample_cluster_env i \<noteq> ''a''"
    by (simp add: drawn_id_def sample_cluster_env_def generate_def) code_simp
qed

lemma early_upload_accepted:
  "accepted roomy_hosts sample_server sample_cluster_env ''g'' (peer_id sample_user) 1 [1, 2, 3] early_upload upload_worker"
proof -
  have three: "chunks_for 3 = 1" by code_simp
  have find: "find_pending c r (pending_writes upload_worker) = (if c = peer_id sample_user \<and> r = 1 then Some early_upload else None)" for c r
    by (simp add: find_pending_def upload_worker_def sample_cluster_def)
  note sample_object(2)
  moreover have "uploads_apart ''g'' ''a'' (peer_id sample_user) 1 (pending_writes upload_worker)"
    by (simp add: uploads_apart_def find)
  moreover have "entries_apart ''g'' ''a'' (name_space (mw_store upload_worker))"
    using sample_object(1) by (auto simp: entries_apart_def name_space_def upload_worker_def sample_cluster_def anon_def empty_entry_def elems_plain slash_def)
  moreover have "nodes.upload_of [1, 2, 3] early_upload 0"
    using sample_object(1) by (simp add: nodes.upload_of_def early_upload_def count_chunks_def good_id_def)
  moreover have "nodes.at_rest (peer_id sample_user) upload_worker"
    using sample_cluster_ok unfolding cluster_system nodes.system_ok_def
    by (simp add: nodes.at_rest_def upload_worker_def sample_system_def sample_cluster_def)
  moreover have "worker_ok upload_worker"
    using three by (simp add: worker_ok_def upload_worker_def sample_cluster_def table_ok_def nodes_ok_def pending_ok_def early_upload_def)
  moreover have "durable [''d''] upload_worker"
    using empty_entry_store
    by (simp add: durable_def upload_worker_def sample_cluster_def writes_named_def pending_named_def early_upload_def nul_free_def)
  ultimately show ?thesis
    by (simp add: accepted_def find) (simp add: early_upload_def sample_cluster_env_def reads_good_def find_pending_def upload_worker_def sample_cluster_def)
qed

text \<open>Another client asks for a listing, the upload is finished, and its client makes a directory.\<close>

definition second_client :: RequestContext where
  "second_client = \<lparr>ctx_request_id = 4, ctx_sender = \<lparr>peer_id = ''c2'', peer_role = CLIENT\<rparr>\<rparr>"

definition next_request :: RequestContext where
  "next_request = \<lparr>ctx_request_id = 4, ctx_sender = sample_user\<rparr>"

definition last_chunk :: WriteChunkRequest where
  "last_chunk = \<lparr>wcq_chunk_index = 0, wcq_data = [1, 2, 3], wcq_context = \<lparr>ctx_request_id = 1, ctx_sender = sample_user\<rparr>\<rparr>"

lemma upload_worker_accepting: "nodes.accepting roomy_hosts (net_outside (mw_net upload_worker)) early_upload 0"
  unfolding nodes.accepting_def
  by (auto simp: early_upload_def upload_worker_def sample_cluster_def worker_at_def spare_node_def takes_def tidy_def worker_inv_def disk_wf_def
      willing_def roomy_hosts_def host_of_def node_at_def slash_def)

lemma sample_env: "sample_cluster_env\<lparr>env_host := sample_host\<rparr> = sample_cluster_env" "time_fits (host_now sample_host)"
  "env_outside sample_cluster_env = nodes_outside roomy_hosts sample_server" "env_host sample_cluster_env = sample_host"
  by (simp_all add: sample_cluster_env_def sample_host_def time_fits_def)

lemma last_chunk_request:
  "wcq_chunk_index last_chunk = word_of_nat 0" "wcq_data last_chunk = chunk 0 [1, 2, 3]"
  "peer_id (ctx_sender (wcq_context last_chunk)) = peer_id sample_user" "ctx_request_id (wcq_context last_chunk) = 1"
  by (simp_all add: last_chunk_def chunk_def)

lemma upload_worker_rest: "nodes.at_rest (peer_id sample_user) upload_worker"
  "find_pending (peer_id sample_user) 1 (pending_writes upload_worker) = Some early_upload" "nodes.upload_of [1, 2, 3] early_upload 0"
  using early_upload_accepted by (simp_all add: accepted_def)

text \<open>Answering a client that is not a storage node changes nothing else.\<close>

lemma upload_worker_answers:
  fixes f :: Frame
  assumes "n \<noteq> ''s1''" "n \<noteq> ''s2''"
  defines "e \<equiv> deliver (nodes_outside roomy_hosts sample_server) n f (net_outside (mw_net upload_worker))"
  shows "nodes.sound e \<and> (\<forall>r. worker_at r e = worker_at r (net_outside (mw_net upload_worker)))"
proof -
  have "worker_at n (net_outside (mw_net upload_worker)) = None"
    using assms(1,2) by (simp add: upload_worker_def sample_cluster_def worker_at_def)
  with nodes.sound_elsewhere [of "net_outside (mw_net upload_worker)" n roomy_hosts sample_server f] upload_worker_rest(1) show ?thesis
    by (simp add: nodes.at_rest_def e_def fun_eq_iff)
qed

lemma last_chunk_runs:
  assumes "net_queue (mw_net t) = []" "nodes.sound (net_outside (mw_net t))" "pending_writes t = pending_writes upload_worker"
    "\<And>r. worker_at r (net_outside (mw_net t)) = worker_at r (net_outside (mw_net upload_worker))"
    "fst (update_metadata sample_host ''g'' (file_entry ''g'' 3 ''a'' ''s1'' ''s2'') (mw_store t)) = Inr ()"
  obtains v where "handle sample_cluster_env (WriteChunkEvent last_chunk) t = (Inr (), v)"
    "last (sent v) = (peer_id sample_user, write_chunk_frame 1 (word_of_nat 0) Success)"
    "worker_at (peer_id sample_user) (net_outside (mw_net v)) = None" "pending_reads v = pending_reads t"
proof -
  let ?c = "peer_id sample_user"
  have "nodes.accepting roomy_hosts (net_outside (mw_net t)) early_upload 0"
    using upload_worker_accepting by (simp add: nodes.accepting_def assms(4))
  moreover have "\<exists>st. update_metadata sample_host ''g'' (file_entry ''g'' 3 ''a'' ''s1'' ''s2'') (mw_store t) = (Inr (), st)"
    using assms(5) by (metis prod.collapse)
  moreover have "early_upload\<lparr>pd_next_chunk := 0\<rparr> = early_upload" "pd_path early_upload = ''g''" "pd_file_size early_upload = 3"
    "pd_object_id early_upload = ''a''" "pd_replica_0 early_upload = ''s1''" "pd_replica_1 early_upload = ''s2''" by (simp_all add: early_upload_def)
  moreover have "nodes.staged_at e [1, 2, 3] early_upload 0" for e by (simp add: nodes.staged_at_def)
  moreover note nodes.write_chunk_handled [OF sample_env(3) assms(1,2) _ _ upload_worker_rest(3) this last_chunk_request(1,2)]
  ultimately obtain v posted where v: "handle_write_chunk sample_cluster_env last_chunk t = (Inr (), v)"
    "sent v = sent t @ posted @ [(?c, write_chunk_frame 1 (word_of_nat 0) Success)]"
    "nodes.chunk_outcome roomy_hosts sample_host [1, 2, 3] early_upload 0 ?c 1 t Success v"
    using upload_worker_rest(1,2) by (auto simp: last_chunk_request assms(3,4) nodes.at_rest_def sample_env nodes.chunk_outcome_def Let_def)
  then show ?thesis using that [of v] by (simp add: nodes.chunk_outcome_def Let_def)
qed

lemma small_run:
  obtains t u where "interleaved sample_cluster_env ''g'' (peer_id sample_user) 1 [1, 2, 3] upload_worker 1 t"
    "handle sample_cluster_env (with_context next_request (op_event (Mkdir ''d''))) t = (Inr (), u)"
    "interleaved sample_cluster_env ''g'' (peer_id sample_user) 1 [1, 2, 3] upload_worker 1 u"
proof -
  let ?env = sample_cluster_env and ?run = "interleaved sample_cluster_env ''g'' (peer_id sample_user) 1 [1, 2, 3] upload_worker"
  obtain f where f: "handle ?env (ListEvent \<lparr>lsq_path = ''g'', lsq_context = second_client\<rparr>) upload_worker =
      (Inr (), upload_worker\<lparr>mw_net := post_frame (env_outside ?env) ''c2'' f (mw_net upload_worker)\<rparr>)"
    by (simp add: handle_list_def act_then_def act_get_def second_client_def
        respond_run [where enc = encode_list_response, OF list_response.enc_frame])
  define t where "t = upload_worker\<lparr>mw_net := post_frame (env_outside ?env) ''c2'' f (mw_net upload_worker)\<rparr>"
  have t: "?run 0 t"
  proof (rule interleaved.others [OF interleaved.start meantime.other [OF meantime.nothing_else]])
    show "handle (?env\<lparr>env_host := sample_host\<rparr>) (ListEvent \<lparr>lsq_path = ''g'', lsq_context = second_client\<rparr>) upload_worker = (Inr (), t)"
      using f by (simp only: sample_env(1) t_def)
  qed (simp_all add: from_other_def second_client_def sample_user_def sample_env(2) upload_worker_def sample_cluster_def worker_at_def)
  have saved: "fst (update_metadata sample_host ''g'' (file_entry ''g'' 3 ''a'' ''s1'' ''s2'') (mw_store upload_worker)) = Inr ()" by code_simp
  obtain v where v: "handle ?env (WriteChunkEvent last_chunk) t = (Inr (), v)"
    "last (sent v) = (peer_id sample_user, write_chunk_frame 1 (word_of_nat 0) Success)"
    "worker_at (peer_id sample_user) (net_outside (mw_net v)) = None"
    by (rule last_chunk_runs [of t])
      (use upload_worker_answers [of "''c2''" f] upload_worker_rest(1) saved in \<open>auto simp: t_def post_frame_def sample_env(3) nodes.at_rest_def\<close>)
  have v1: "?run (Suc 0) v"
  proof (rule interleaved.chunk [OF t _ last_chunk_request])
    show "handle (?env\<lparr>env_host := sample_host\<rparr>) (WriteChunkEvent last_chunk) t = (Inr (), v)" using v(1) by (simp only: sample_env(1))
  qed (use v(2) in \<open>simp_all add: count_chunks_def sample_env(2)\<close>)
  let ?mkdir = "with_context next_request (op_event (Mkdir ''d''))"
  obtain r st' where "call_store (env_host ?env) (op_call (drawn_id ?env (mw_draws v)) (Mkdir ''d'')) (mw_store v) = (r, st')" by fastforce
  from handle_op [OF this, of next_request] obtain u where u: "handle ?env ?mkdir v = (Inr (), u)" by blast
  have "?run (Suc 0) u"
  proof (rule interleaved.others [OF v1 meantime.other [OF meantime.nothing_else]])
    show "handle (?env\<lparr>env_host := sample_host\<rparr>) ?mkdir v = (Inr (), u)" using u by (simp only: sample_env(1))
  qed (use v(3) in \<open>simp_all add: from_other_def next_request_def sample_env(2)\<close>)
  with that v1 u show ?thesis by simp
qed

text \<open>When all chunks are acknowledged the file is stored.\<close>

lemma interleaved_stored:
  assumes "accepted hosts self env p c rid content w s" "interleaved env p c rid content s n t" "\<not> n < count_chunks (length content)"
  shows "nodes.stored_at p content t"
proof -
  from interleaved_undisturbed [OF assms(1,2)] assms(3) obtain m view where
    g: "nodes.guarded (ms_directory (mw_store s)) p (pd_object_id w) c rid m view t" "worker_ok t" "find_pending c rid (pending_writes t) = None"
    and final: "nodes.committed_at (net_outside (mw_net t)) content w" "\<exists>m. get_metadata p (mw_store t) = Inr m \<and> md_size m = pd_file_size w
        \<and> md_obj_id m = pd_object_id w \<and> md_replica_0 m = pd_replica_0 w \<and> md_replica_1 m = pd_replica_1 w"
    by (auto simp: nodes.undisturbed_def)
  have "elems (pd_path u) \<noteq> elems p" if "find_pending c' r (pending_writes t) = Some u" for c' r u
    using g(1,3) that by (cases "c' = c \<and> r = rid") (auto simp: nodes.guarded_def uploads_apart_def upload_apart_def)
  then have "\<not> being_written p (pending_writes t)" using g(2) by (auto simp: being_written_iff worker_ok_def)
  moreover have "nodes.upload_of content w 0" using assms(1) by (simp add: accepted_def)
  moreover have "unat (pd_chunk_count w) < 2 ^ 32" using unsigned_less [of "pd_chunk_count w"] by simp
  ultimately show ?thesis using final
    by (auto simp: nodes.stored_at_def nodes.committed_at_def describes_def nodes.upload_of_def good_id_def proper_id_def valid_object_id_iff)
qed

section \<open>Properties of concurrent clients\<close>

text \<open>C6. Other requests do not disturb an upload. Once the metadata node has accepted it, it may
  handle any requests between its chunks, of any client, that do not create, upload or
  remove its path, nor rename it, a directory above it or anything onto them, count heartbeats and time nodes out: as long as
  chunks are missing, the entry counts the acknowledged ones and both replicas have staged exactly
  these; and from the last acknowledged chunk on the path has an entry of the right size, nobody
  is writing it and both replicas have exactly the content.\<close>

theorem upload_not_disturbed:
  assumes "accepted hosts self env p c rid content w s" "interleaved env p c rid content s n t"
  shows "if n < count_chunks (length content)
    then (\<exists>u. find_pending c rid (pending_writes t) = Some u \<and> pd_next_chunk u = word_of_nat n \<and> pd_object_id u = pd_object_id w
      \<and> (0 < n \<longrightarrow> (\<forall>r \<in> {pd_replica_0 w, pd_replica_1 w}. \<exists>v. worker_at r (net_outside (mw_net t)) = Some v
          \<and> staged v (pd_object_id w) = Some (take (n * 524288) content))))
    else \<not> being_written p (pending_writes t)
      \<and> (\<exists>m. get_metadata p (mw_store t) = Inr m \<and> md_size m = word_of_nat (length content)
          \<and> (\<forall>r \<in> {md_replica_0 m, md_replica_1 m}. \<exists>v. worker_at r (net_outside (mw_net t)) = Some v
              \<and> committed v (md_obj_id m) = Some content))"
proof (cases "n < count_chunks (length content)")
  case True
  with interleaved_undisturbed [OF assms] show ?thesis by (auto simp: nodes.undisturbed_def nodes.staged_at_def)
next
  case False
  have "content \<noteq> []" using assms(1) by (auto simp: accepted_def nodes.upload_of_def count_chunks_def)
  with interleaved_stored [OF assms False] False show ?thesis by (auto simp: nodes.stored_at_def describes_def)
qed

theorem upload_not_disturbed_witness:
  "\<exists>t u m. interleaved sample_cluster_env ''g'' (peer_id sample_user) 1 [1, 2, 3] upload_worker 1 t
    \<and> handle sample_cluster_env (with_context next_request (op_event (Mkdir ''d''))) t = (Inr (), u)
    \<and> get_metadata ''g'' (mw_store u) = Inr m \<and> md_size m = 3
    \<and> (\<exists>v. worker_at (md_replica_1 m) (net_outside (mw_net u)) = Some v \<and> committed v (md_obj_id m) = Some [1, 2, 3])"
proof -
  obtain t u where r: "interleaved sample_cluster_env ''g'' (peer_id sample_user) 1 [1, 2, 3] upload_worker 1 t"
    "handle sample_cluster_env (with_context next_request (op_event (Mkdir ''d''))) t = (Inr (), u)"
    "interleaved sample_cluster_env ''g'' (peer_id sample_user) 1 [1, 2, 3] upload_worker 1 u" by (rule small_run)
  from upload_not_disturbed [OF early_upload_accepted r(3)] r(1,2) show ?thesis by (auto simp: count_chunks_def)
qed

text \<open>The status of a rename can be read off the answer.\<close>

lemma status_success: "status_frame rid job r = status_frame rid job (Inr ()) \<longleftrightarrow> r = Inr ()"
proof (cases r)
  case (Inl e)
  then show ?thesis by (cases e) (simp_all add: status_frame_def rpc_frame_def)
qed simp

text \<open>C24. A rename during an upload leaves two names for one object. When a file is uploaded again,
  \<open>MetadataWorker::handle(RenameRequest)\<close> moves its entry without asking whether the path is being
  written; the last chunk then creates the old path anew with the object that the new path has as
  well, whatever other requests came before. So removing either of the two, which deletes the
  object on both replicas, destroys the other file.\<close>

theorem rename_during_upload_shares_object:
  assumes "accepted hosts self env p c rid content w s" "interleaved env p c rid content s n t" "Suc n = count_chunks (length content)"
    and "get_metadata p (mw_store t) = Inr m" "md_obj_id m = pd_object_id w" "elems p \<noteq> elems q"
    and "handle env (with_context ctx (op_event (Move p q))) t = (Inr (), t1)"
      "last (sent t1) = (peer_id (ctx_sender ctx), status_frame (ctx_request_id ctx) RENAME (Inr ()))"
      "worker_at (peer_id (ctx_sender ctx)) (net_outside (mw_net t)) = None"
    and "wcq_chunk_index req = word_of_nat n" "wcq_data req = chunk n content"
      "peer_id (ctx_sender (wcq_context req)) = c" "ctx_request_id (wcq_context req) = rid"
    and "handle env (WriteChunkEvent req) t1 = (Inr (), t2)"
      "last (sent t2) = (c, write_chunk_frame rid (word_of_nat n) Success)" and time: "time_fits (host_now (env_host env))"
  shows "\<exists>m1 m2. get_metadata p (mw_store t2) = Inr m1 \<and> get_metadata q (mw_store t2) = Inr m2 \<and> md_obj_id m1 = md_obj_id m2"
proof -
  let ?h = "env_host env" and ?oid = "pd_object_id w"
  have env: "env_outside env = nodes_outside hosts self" and path: "pd_path w = p" using assms(1) by (simp_all add: accepted_def)
  have "n < count_chunks (length content)" using assms(3) by simp
  with interleaved_undisturbed [OF assms(1,2)] obtain m' view u where
    g: "nodes.guarded (ms_directory (mw_store s)) p ?oid c rid m' view t" "view c = None"
    and u: "u = w\<lparr>pd_next_chunk := word_of_nat n\<rparr>" "find_pending c rid (pending_writes t) = Some u"
      "nodes.upload_of content u n" "nodes.staged_at (net_outside (mw_net t)) content u n"
    by (auto simp: nodes.undisturbed_def)
  from g have inv: "store_inv (mw_store t)" and named: "pending_named u" and calm: "net_queue (mw_net t) = []" "nodes.sound (net_outside (mw_net t))"
    and c: "worker_at c (net_outside (mw_net t)) = None"
    using u(2) by (auto simp: nodes.guarded_def durable_def nodes.calm_net_def nodes.view_at_def intro: find_named)
  obtain r st where move: "rename_metadata ?h p q (mw_store t) = (r, st)" by fastforce
  from handle_op [of env t "Move p q" r st ctx] move assms(7) have t1: "t1 = t\<lparr>mw_store := st,
      mw_net := post_frame (env_outside env) (peer_id (ctx_sender ctx)) (status_frame (ctx_request_id ctx) RENAME r) (mw_net t)\<rparr>"
    by simp
  with assms(8) have "r = Inr ()" by (simp add: post_frame_def status_success)
  with rename_outcome [OF move inv] assms(6) have st: "store_inv st" "valid_filename q"
    "name_space st = (\<lambda>k. case moved_from (elems p) (elems q) k of None \<Rightarrow> None | Some l \<Rightarrow> name_space (mw_store t) l)" by simp_all
  have "moved_from (elems p) (elems q) (elems q) = Some (elems p)" by (simp add: moved_from_def)
  with st(3) assms(4) have q: "name_space st (elems q) = Some (anon m)"
    by (auto simp: get_metadata_def name_space_def split: if_splits option.splits)
  note post = nodes.sound_elsewhere [where hosts = hosts and self = self, OF calm(2) assms(9)]
  have rest: "nodes.at_rest c t1" using post calm(1) c by (simp add: nodes.at_rest_def t1 post_frame_def env fun_eq_iff)
  have "find_pending c rid (pending_writes t1) = Some u" "nodes.staged_at (net_outside (mw_net t1)) content u n"
    using u(2,4) post by (simp_all add: t1 nodes.staged_at_def post_frame_def env fun_eq_iff)
  from nodes.chunk_acknowledged [OF env rest this(1) u(3) this(2) assms(10-13,14,15)] assms(3)
  have upd: "update_metadata ?h p (file_entry p (pd_file_size w) ?oid (pd_replica_0 w) (pd_replica_1 w)) st = (Inr (), mw_store t2)"
    by (simp add: nodes.chunk_outcome_def Let_def u(1) path t1)
  let ?x = "file_entry p (pd_file_size w) ?oid (pd_replica_0 w) (pd_replica_1 w)"
  have "md_strings_ok ?x" using named by (simp add: md_strings_ok_def file_entry_def pending_named_def u(1))
  with call_outcome [of ?h "Update p ?x" st "Inr ()" "mw_store t2"] upd st(1) time
  have "name_space (mw_store t2) = spec_call (host_now ?h) (Update p ?x) (name_space st)" by simp
  with q assms(6) have "name_space (mw_store t2) (elems q) = Some (anon m)" by simp
  then obtain m2 where "get_metadata q (mw_store t2) = Inr m2" "md_obj_id m2 = md_obj_id m"
    using st(2) by (auto simp: get_metadata_def name_space_def anon_def) (metis FileMetadata.select_convs(3) FileMetadata.surjective FileMetadata.update_convs(1))
  moreover from update_gives [OF upd] obtain m1 where "get_metadata p (mw_store t2) = Inr m1" "md_obj_id m1 = ?oid"
    by (auto simp: file_entry_def)
  ultimately show ?thesis using assms(5) by auto
qed

theorem rename_during_upload_shares_object_witness:
  "\<exists>t1 t2 m1 m2. handle sample_cluster_env (with_context second_client (op_event (Move ''g'' ''h''))) upload_worker = (Inr (), t1)
    \<and> handle sample_cluster_env (WriteChunkEvent last_chunk) t1 = (Inr (), t2)
    \<and> get_metadata ''g'' (mw_store t2) = Inr m1 \<and> get_metadata ''h'' (mw_store t2) = Inr m2 \<and> md_obj_id m1 = md_obj_id m2"
proof -
  let ?env = sample_cluster_env
  obtain st where st: "rename_metadata sample_host ''g'' ''h'' (mw_store upload_worker) = (Inr (), st)"
    "fst (update_metadata sample_host ''g'' (file_entry ''g'' 3 ''a'' ''s1'' ''s2'') st) = Inr ()"
  proof
    show "rename_metadata sample_host ''g'' ''h'' (mw_store upload_worker) =
        (Inr (), snd (rename_metadata sample_host ''g'' ''h'' (mw_store upload_worker)))"
      by (rule prod_eqI) (code_simp, simp)
  qed code_simp
  define t1 where "t1 = upload_worker\<lparr>mw_store := st, mw_net := post_frame (env_outside ?env) ''c2''
      (status_frame 4 RENAME (Inr ())) (mw_net upload_worker)\<rparr>"
  have t1: "handle ?env (with_context second_client (op_event (Move ''g'' ''h''))) upload_worker = (Inr (), t1)"
    using handle_op [of ?env upload_worker "Move ''g'' ''h''" "Inr ()" st second_client] st(1)
    by (simp add: sample_env(4) second_client_def t1_def)
  have answered: "last (sent t1) = (peer_id (ctx_sender second_client), status_frame (ctx_request_id second_client) RENAME (Inr ()))"
    by (simp add: t1_def post_frame_def second_client_def)
  have away: "worker_at (peer_id (ctx_sender second_client)) (net_outside (mw_net upload_worker)) = None"
    by (simp add: second_client_def upload_worker_def sample_cluster_def worker_at_def)
  obtain t2 where t2: "handle ?env (WriteChunkEvent last_chunk) t1 = (Inr (), t2)"
    "last (sent t2) = (peer_id sample_user, write_chunk_frame 1 (word_of_nat 0) Success)"
    by (rule last_chunk_runs [of t1])
      (use upload_worker_answers [of "''c2''" "status_frame 4 RENAME (Inr ())"] upload_worker_rest(1) st(2)
        in \<open>auto simp: t1_def post_frame_def sample_env(3) nodes.at_rest_def\<close>)
  have g: "get_metadata ''g'' (mw_store upload_worker) = Inr empty_entry"
    by (simp add: get_metadata_def elems_plain valid_filename_iff good_key_def is_absolute_def slash_def extension_of_def
        upload_worker_def sample_cluster_def)
  have names: "elems ''g'' \<noteq> elems ''h''" by (simp add: elems_plain slash_def)
  have "md_obj_id empty_entry = pd_object_id early_upload" "Suc 0 = count_chunks (length [1, 2, 3 :: byte])" "time_fits (host_now (env_host ?env))"
    by (simp_all add: empty_entry_def early_upload_def count_chunks_def sample_env)
  from rename_during_upload_shares_object [OF early_upload_accepted interleaved.start this(2) g this(1) names t1 answered away
      last_chunk_request t2 this(3)] t1 t2(1)
  show ?thesis by blast
qed

text \<open>C25. An upload during a download tears it. \<open>MetadataWorker::handle(WriteFileRequest)\<close> does not ask
  whether the file is being read. A reader that has fetched the first chunks of a file before an
  upload of the same path is acknowledged, to the same replicas and with the same size, gets the
  next chunk out of the new content, with success: what it ends up with is a mixture of the two.\<close>

theorem upload_during_download_tears:
  assumes "accepted hosts self env p c rid content w s" "interleaved env p c rid content s (count_chunks (length content)) t"
    and "find_pending reader r (pending_reads t) = Some (read_entry p m k)" "k < count_chunks (length content)"
      "md_obj_id m = pd_object_id w" "md_size m = pd_file_size w" "md_replica_0 m = pd_replica_0 w" "md_replica_1 m = pd_replica_1 w"
    and "worker_at reader (net_outside (mw_net t)) = None"
      "\<exists>n \<in> {md_replica_0 m, md_replica_1 m}. node_available (mw_nodes t) n \<and> (\<forall>q. readable (hosts n q))"
    and "rcq_chunk_index req = word_of_nat k" "peer_id (ctx_sender (rcq_context req)) = reader" "ctx_request_id (rcq_context req) = r"
  shows "\<exists>u. handle env (ReadChunkEvent req) t = (Inr (), u)
    \<and> last (sent u) = (reader, read_chunk_frame r (word_of_nat k) Success (chunk k content))"
proof -
  from interleaved_stored [OF assms(1,2)] have stored: "nodes.stored_at p content t" by simp
  from interleaved_undisturbed [OF assms(1,2)] have final: "nodes.committed_at (net_outside (mw_net t)) content w"
    "\<exists>m view. nodes.guarded (ms_directory (mw_store s)) p (pd_object_id w) c rid m view t" by (auto simp: nodes.undisturbed_def)
  from assms(1) have env: "env_outside env = nodes_outside hosts self" and up: "nodes.upload_of content w 0" by (simp_all add: accepted_def)
  have "unat (pd_chunk_count w) < 2 ^ 32" using unsigned_less [of "pd_chunk_count w"] by simp
  with up assms(5-8) have m: "describes m content"
    by (auto simp: describes_def nodes.upload_of_def good_id_def proper_id_def valid_object_id_iff)
  have both: "nodes.both_hold (net_outside (mw_net t)) m content"
    using final(1) assms(5,7,8) by (auto simp: nodes.both_hold_def nodes.holds_def nodes.committed_at_def)
  have rest: "nodes.at_rest reader t" using final(2) assms(9) by (auto simp: nodes.at_rest_def nodes.guarded_def nodes.calm_net_def)
  have one: "nodes.one_gives hosts t m"
    using assms(10,7,8) final(1) by (auto simp: nodes.one_gives_def nodes.gives_def nodes.committed_at_def host_of_def)
  from nodes.read_chunk_handled [OF env, of req t p m k content] rest assms(3,4,11-13) m both one show ?thesis by auto
qed

text \<open>A download has begun of the file that is uploaded again.\<close>

definition old_entry :: FileMetadata where
  "old_entry = empty_entry\<lparr>md_size := 3\<rparr>"

definition read_worker :: "nodes MetadataWorker" where
  "read_worker = upload_worker\<lparr>pending_reads := [(peer_id sample_user, [(4, read_entry ''g'' old_entry 0)])]\<rparr>"

lemma read_worker_accepted:
  "accepted roomy_hosts sample_server sample_cluster_env ''g'' (peer_id sample_user) 1 [1, 2, 3] early_upload read_worker"
proof -
  have "chunks_for 3 = 1" by code_simp
  then have "worker_ok read_worker"
    using early_upload_accepted by (simp add: accepted_def worker_ok_def read_worker_def table_ok_def pending_ok_def read_entry_def old_entry_def empty_entry_def)
  moreover have "find_pending c r (pending_reads read_worker) = (if c = peer_id sample_user \<and> r = 4 then Some (read_entry ''g'' old_entry 0) else None)" for c r
    by (simp add: find_pending_def read_worker_def)
  then have "reads_good (pending_reads read_worker)" using sample_object(1) by (auto simp: reads_good_def read_entry_def old_entry_def empty_entry_def)
  ultimately show ?thesis
    using early_upload_accepted by (simp add: accepted_def nodes.at_rest_def durable_def) (simp add: read_worker_def)
qed

theorem upload_during_download_tears_witness:
  "\<exists>t u. interleaved sample_cluster_env ''g'' (peer_id sample_user) 1 [1, 2, 3] read_worker 1 t
    \<and> handle sample_cluster_env (ReadChunkEvent \<lparr>rcq_chunk_index = 0, rcq_context = next_request\<rparr>) t = (Inr (), u)
    \<and> last (sent u) = (peer_id sample_user, read_chunk_frame 4 0 Success [1, 2, 3])"
proof -
  let ?run = "interleaved sample_cluster_env ''g'' (peer_id sample_user) 1 [1, 2, 3] read_worker"
  have saved: "fst (update_metadata sample_host ''g'' (file_entry ''g'' 3 ''a'' ''s1'' ''s2'') (mw_store upload_worker)) = Inr ()" by code_simp
  obtain t where t: "handle sample_cluster_env (WriteChunkEvent last_chunk) read_worker = (Inr (), t)"
    "last (sent t) = (peer_id sample_user, write_chunk_frame 1 (word_of_nat 0) Success)" "pending_reads t = pending_reads read_worker"
    and reader: "worker_at (peer_id sample_user) (net_outside (mw_net t)) = None"
    by (rule last_chunk_runs [of read_worker]) (use upload_worker_rest(1) saved in \<open>auto simp: read_worker_def nodes.at_rest_def\<close>)
  have "?run (Suc 0) t"
  proof (rule interleaved.chunk [OF interleaved.start _ last_chunk_request])
    show "handle (sample_cluster_env\<lparr>env_host := sample_host\<rparr>) (WriteChunkEvent last_chunk) read_worker = (Inr (), t)"
      using t(1) by (simp only: sample_env(1))
  qed (use t(2) in \<open>simp_all add: count_chunks_def sample_env(2)\<close>)
  then have run: "?run (count_chunks (length [1, 2, 3 :: byte])) t" by (simp add: count_chunks_def)
  have "seen_recently 5 (mw_nodes read_worker) ''s1''"
    by (simp add: seen_recently_def node_available_def map_of_timeouts timed_out_def heartbeat_timeout_def read_worker_def upload_worker_def sample_cluster_def)
  from seen_available [OF passesD [OF handle_seen this t(1)]] have "node_available (mw_nodes t) ''s1''" .
  moreover have "readable (roomy_hosts n q)" for n q by (simp add: readable_def roomy_hosts_def no_faults_def)
  ultimately have one: "\<exists>n \<in> {md_replica_0 old_entry, md_replica_1 old_entry}. node_available (mw_nodes t) n \<and> (\<forall>q. readable (roomy_hosts n q))"
    by (auto simp: old_entry_def empty_entry_def)
  have entry: "find_pending (peer_id sample_user) 4 (pending_reads t) = Some (read_entry ''g'' old_entry 0)"
    unfolding t(3) by (simp add: find_pending_def read_worker_def)
  from upload_during_download_tears [OF read_worker_accepted run entry _ _ _ _ _ reader one, of "\<lparr>rcq_chunk_index = 0, rcq_context = next_request\<rparr>"]
  have "\<exists>u. handle sample_cluster_env (ReadChunkEvent \<lparr>rcq_chunk_index = 0, rcq_context = next_request\<rparr>) t = (Inr (), u)
      \<and> last (sent u) = (peer_id sample_user, read_chunk_frame 4 0 Success [1, 2, 3])"
    by (simp add: count_chunks_def old_entry_def empty_entry_def early_upload_def next_request_def chunk_def)
  moreover have "?run 1 t" using run by (simp add: count_chunks_def)
  ultimately show ?thesis by blast
qed

end
