(* ===== verification/Concurrency.thy ===== *)
theory Concurrency
  imports Interference
begin

text \<open>
  A client that uploads or downloads while the metadata node serves others: between any two of its
  requests the node handles requests, of any number of other clients, that stay away from the path.
  An upload that this client sees succeed is on both replicas all the same, and a download of a file
  with a replica left succeeds.
\<close>

section \<open>The upload is accepted\<close>

context storage_service
begin

text \<open>The worker at rest with the upload under \<open>c\<close> and \<open>rid\<close>, if there is one, to the object \<open>oid\<close>.\<close>

definition owned ::
  "location \<Rightarrow> path \<Rightarrow> string \<Rightarrow> NodeId \<Rightarrow> u64 \<Rightarrow> (NodeId \<Rightarrow> (byte list option \<times> byte list option \<times> u32 option) option)
   \<Rightarrow> nat \<Rightarrow> 'e MetadataWorker \<Rightarrow> bool" where
  "owned dir p oid c rid view d s \<longleftrightarrow> (\<exists>m. guarded dir p oid c rid m view s) \<and> drawn d s
     \<and> (\<forall>w. find_pending c rid (pending_writes s) = Some w \<longrightarrow> pd_object_id w = oid)"

lemma owned_unit:
  assumes "\<And>m. keeps (guarded dir p oid c rid m view) a" "keeps (drawn d) a" "\<And>x y. keeps (entries_at c rid x y) a"
  shows "keeps (owned dir p oid c rid view d) a"
proof (rule passesI)
  fix s
  assume s: "owned dir p oid c rid view d s"
  then obtain m where m: "guarded dir p oid c rid m view s" by (auto simp: owned_def)
  have "owned dir p oid c rid view d s'" if "a s = (Inr x, s')" for x s'
    using passesD [OF assms(1) m that] passesD [OF assms(2) _ that] passesD [OF assms(3) _ that] s
    by (auto simp: owned_def entries_at_def)
  then show "wp a (\<lambda>_. owned dir p oid c rid view d) (\<lambda>_ _. True) s" by (simp add: wp_def split: prod.split sum.split)
qed

lemma owned_reply:
  assumes "env_outside env = out" "view (peer_id (ctx_sender (wfq_context q))) = None"
  shows "keeps (owned dir p oid c rid view d) (write_file_reply env q st)"
  by (rule owned_unit [OF guarded_replies(1) [where view = view, OF assms] drawn_replies(1) entries_replies(1)])

lemma owned_update:
  assumes time: "time_fits (host_now h)" and x: "md_strings_ok x" "md_obj_id x = oid" "good_id oid"
  shows "keeps (owned dir p oid c rid view d) (on_store (update_metadata h p x))"
proof (rule passesI)
  fix s
  assume s: "owned dir p oid c rid view d s"
  then obtain m where g: "guarded dir p oid c rid m view s" by (auto simp: owned_def)
  obtain r st where run: "update_metadata h p x (mw_store s) = (r, st)" by fastforce
  have "entries_apart p oid (name_space st)"
    by (rule update_own [OF run time _ _ x(3,2,1)]) (use g in \<open>simp_all add: guarded_def durable_def\<close>)
  moreover have "on_store (update_metadata h p x) s = (Inr r, s\<lparr>mw_store := st\<rparr>)" using run by (simp add: on_store_def act_step_def)
  from passesD [OF durable_calls(2) [OF time x(1)] _ this] g have "durable dir (s\<lparr>mw_store := st\<rparr>)" by (auto simp: guarded_def)
  ultimately have "guarded dir p oid c rid (name_space st (elems p)) view (s\<lparr>mw_store := st\<rparr>)"
    using g by (simp add: guarded_def calm_net_def)
  with s run show "wp (on_store (update_metadata h p x)) (\<lambda>_. owned dir p oid c rid view d) (\<lambda>_ _. True) s"
    by (auto simp: on_store_def wp_rules owned_def drawn_def)
qed

lemma uploads_emplace_own:
  "emplace_pending c rid w t = (b, t') \<Longrightarrow> uploads_apart p oid c rid t \<Longrightarrow> uploads_apart p oid c rid t'"
  using find_emplaced [of _ _ c rid w t] by (auto simp: uploads_apart_def find_emplaced split: if_splits)

lemma owned_start:
  assumes env: "env_outside env = out" and q: "view (peer_id (ctx_sender (wfq_context q))) = None"
    "peer_id (ctx_sender (wfq_context q)) = c" "ctx_request_id (wfq_context q) = rid" "nul_free (wfq_path q)"
    and x: "md_obj_id x = oid" "md_strings_ok x" "nul_free r0" "nul_free r1"
  shows "keeps (owned dir p oid c rid view d) (start_write env q x r0 r1)"
  unfolding start_write_def
proof (rule passes_then)
  let ?w = "\<lparr>pd_path = wfq_path q, pd_object_id = md_obj_id x, pd_file_size = wfq_file_size q,
    pd_chunk_count = wfq_chunk_count q, pd_next_chunk = 0, pd_replica_0 = r0, pd_replica_1 = r1\<rparr>"
  have named: "pending_named ?w" using x q(4) by (simp add: pending_named_def md_strings_ok_def)
  show "keeps (owned dir p oid c rid view d) (act_step (\<lambda>s. case emplace_pending (peer_id (ctx_sender (wfq_context q)))
      (ctx_request_id (wfq_context q)) ?w (pending_writes s) of (inserted, t) \<Rightarrow> (inserted, s\<lparr>pending_writes := t\<rparr>)))"
  proof (rule passesI)
    fix s
    assume s: "owned dir p oid c rid view d s"
    then obtain m where g: "guarded dir p oid c rid m view s" by (auto simp: owned_def)
    obtain b t where e: "emplace_pending c rid ?w (pending_writes s) = (b, t)" by fastforce
    have "writes_named t" using g named e by (auto simp: guarded_def durable_def intro: emplace_named)
    moreover have "uploads_apart p oid c rid t" using uploads_emplace_own [OF e] g by (simp add: guarded_def)
    ultimately have "guarded dir p oid c rid m view (s\<lparr>pending_writes := t\<rparr>)" using g by (simp add: guarded_def durable_def calm_net_def)
    moreover have "find_pending c rid t = Some w \<Longrightarrow> pd_object_id w = oid" for w
      using find_emplaced [of c rid c rid ?w "pending_writes s"] e s x(1) by (auto simp: owned_def split: option.splits)
    moreover have "drawn d (s\<lparr>pending_writes := t\<rparr>)" using s by (simp add: owned_def drawn_def)
    ultimately show "wp (act_step (\<lambda>s. case emplace_pending (peer_id (ctx_sender (wfq_context q)))
        (ctx_request_id (wfq_context q)) ?w (pending_writes s) of (inserted, t) \<Rightarrow> (inserted, s\<lparr>pending_writes := t\<rparr>)))
        (\<lambda>_. owned dir p oid c rid view d) (\<lambda>_ _. True) s"
      using e q(2,3) by (auto simp: wp_rules owned_def)
  qed
qed (rule owned_reply [where view = view, OF env q(1)])

lemma owned_write:
  assumes env: "env_outside env = out" and time: "time_fits (host_now (env_host env))"
    and q: "view (peer_id (ctx_sender (wfq_context q))) = None"
    "peer_id (ctx_sender (wfq_context q)) = c" "ctx_request_id (wfq_context q) = rid" "nul_free (wfq_path q)"
    and x: "md_obj_id x = oid" "md_strings_ok x" "good_id oid"
  shows "keeps (owned dir (wfq_path q) oid c rid view d) (write_file_with env q x)"
proof -
  let ?O = "owned dir (wfq_path q) oid c rid view d"
  have upd: "md_strings_ok x' \<Longrightarrow> md_obj_id x' = md_obj_id x \<Longrightarrow> keeps ?O (on_store (update_metadata (env_host env) (wfq_path q) x'))" for x'
    using x by (intro owned_update [OF time]) simp_all
  have bound: "passes (\<lambda>s. ?O s \<and> mw_nodes s = nodes) a ?O"
    if "list_all nul_free (keys nodes) \<Longrightarrow> keeps ?O a" for nodes and a :: "('e, unit) worker_act"
    by (rule passes_known [where b = "list_all nul_free (keys nodes)"])
      (use that in \<open>auto simp: owned_def guarded_def durable_def intro: passes_weaken\<close>)
  show ?thesis
    unfolding write_file_with_def Let_def
    using x
    by (intro passes_if passes_read bound passes_then [OF upd] passes_sum owned_reply [where view = view, OF env q(1)]
        owned_start [where view = view, OF env q] candidates_named)
      (auto simp: md_strings_ok_def candidates_named [simplified])
qed

end

text \<open>The object that an upload to \<open>p\<close> will get, and the first draw that comes after it.\<close>

definition own_object :: "'e Env \<Rightarrow> path \<Rightarrow> 'e MetadataWorker \<Rightarrow> string \<times> nat" where
  "own_object env p s = (case get_metadata p (mw_store s) of
     Inr m \<Rightarrow> (md_obj_id m, mw_draws s)
   | Inl e \<Rightarrow> (drawn_id env (mw_draws s), mw_draws s + (if e = NOT_FOUND then 1 else 0)))"

context storage_service
begin

lemma own_write_file:
  fixes s :: "'e MetadataWorker"
  assumes env: "env_outside env = out" and time: "time_fits (host_now (env_host env))"
    and q: "view (peer_id (ctx_sender (wfq_context q))) = None"
    "peer_id (ctx_sender (wfq_context q)) = c" "ctx_request_id (wfq_context q) = rid" "nul_free (wfq_path q)"
    and oid: "own_object env (wfq_path q) s = (oid, d)"
    and s: "guarded dir (wfq_path q) oid c rid m view s" "find_pending c rid (pending_writes s) = None"
    and run: "handle_write_file env q s = (Inr (), s')"
    and sent: "last (sent s') = (c, write_file_frame rid Success)"
  shows "owned dir (wfq_path q) oid c rid view d s' \<and> good_id oid"
proof (cases "get_metadata (wfq_path q) (mw_store s)")
  case (Inr x)
  with oid have x: "md_obj_id x = oid" "d = mw_draws s" by (simp_all add: own_object_def)
  have "owned dir (wfq_path q) oid c rid view d s" using s x(2) by (auto simp: owned_def drawn_def)
  moreover note e = guarded_entry(1,2) [OF s(1) Inr]
  moreover have "keeps (owned dir (wfq_path q) oid c rid view d) (write_file_with env q x)"
    by (rule owned_write [where view = view, OF env time q x(1)]) (use e x(1) in simp_all)
  moreover have "keeps (owned dir (wfq_path q) oid c rid view d) (write_file_reply env q ServerError)"
    by (rule owned_reply [where view = view, OF env q(1)])
  ultimately show ?thesis
    using run Inr x(1) by (auto simp: handle_write_file_def act_then_def act_get_def split: if_splits dest: passesD)
next
  case (Inl e)
  obtain high low where draw: "env_draw env (mw_draws s) = (high, low)" by fastforce
  let ?x = "file_entry (wfq_path q) 0 oid [] []" and ?s = "s\<lparr>mw_draws := mw_draws s + 1\<rparr>"
  from Inl oid have o: "oid = generate high low" by (simp add: own_object_def drawn_id_def draw)
  have reply: "write_file_reply env q ServerError s \<noteq> (Inr (), s')"
  proof
    assume "write_file_reply env q ServerError s = (Inr (), s')"
    then have "last (sent s') = (c, write_file_frame rid ServerError)" by (auto simp: write_file_replies q)
    with sent show False by (simp add: write_file_frame_def rpc_frame_def)
  qed
  with Inl run draw have e: "e = NOT_FOUND" and run: "write_file_with env q ?x ?s = (Inr (), s')"
    by (auto simp: handle_write_file_def act_then_def act_get_def new_object_id_def act_step_def o split: if_splits)
  from Inl oid e have "d = Suc (mw_draws s)" by (simp add: own_object_def)
  with s have "owned dir (wfq_path q) oid c rid view d ?s" by (auto simp: owned_def guarded_def durable_def calm_net_def drawn_def)
  moreover have "md_strings_ok ?x" using q(4) o by (simp add: md_strings_ok_def file_entry_def nul_free_def [of "[]"] generate_nul_free)
  moreover have "good_id oid" unfolding o by (rule generated_good)
  ultimately show ?thesis
    using passesD [OF owned_write [where view = view, OF env time q, of ?x oid] _ run] by (simp add: file_entry_def)
qed

end

section \<open>A busy metadata node\<close>

text \<open>
  The world outside a client whose server is busy: after each wait of the client the server does
  other work, \<open>others i\<close> after the \<open>i\<close>-th.
\<close>

definition busy_outside :: "(nat \<Rightarrow> 'x \<Rightarrow> 'x) \<Rightarrow> 'x Outside \<Rightarrow> (nat \<times> 'x) Outside" where
  "busy_outside others out = \<lparr>
     deliver = (\<lambda>n f (i, s). (i, deliver out n f s)),
     meanwhile = (\<lambda>q (i, s). case meanwhile out q s of (q', s') \<Rightarrow> (q', (Suc i, others i s')))\<rparr>"

definition busy_env :: "(nat \<Rightarrow> 'x \<Rightarrow> 'x) \<Rightarrow> 'x ClientEnv \<Rightarrow> (nat \<times> 'x) ClientEnv" where
  "busy_env others env = \<lparr>ce_outside = busy_outside others (ce_outside env), ce_faults = ce_faults env, ce_located = ce_located env\<rparr>"

text \<open>The same client with another world outside.\<close>

definition seen_by :: "'y \<Rightarrow> 'x Client \<Rightarrow> 'y Client" where
  "seen_by e c = \<lparr>current_id = current_id c, cl_metadata_node = cl_metadata_node c, cl_disk = cl_disk c,
     cl_net = \<lparr>net_queue = net_queue (cl_net c), net_sent = net_sent (cl_net c), net_outside = e\<rparr>\<rparr>"

lemma seen_by_sel [simp]:
  "current_id (seen_by e c) = current_id c" "cl_metadata_node (seen_by e c) = cl_metadata_node c" "cl_disk (seen_by e c) = cl_disk c"
  "net_queue (cl_net (seen_by e c)) = net_queue (cl_net c)" "net_outside (cl_net (seen_by e c)) = e"
  by (simp_all add: seen_by_def)

abbreviation server_of :: "(nat \<times> 'x) Client \<Rightarrow> 'x" where
  "server_of c \<equiv> snd (net_outside (cl_net c))"

text \<open>An exchange with a busy server is one with the server, followed by its other work.\<close>

lemma busy_call:
  fixes enc :: "u64 \<Rightarrow> 'q \<Rightarrow> exn + Frame" and dec :: "ClientRpcMessage \<Rightarrow> exn + 'r" and c :: "(nat \<times> 'x) Client"
  assumes f: "enc rid q = Inr f" and run: "call env rid job bp enc q dec (seen_by (server_of c) c) = (r, c')"
  shows "\<exists>i. call (busy_env others env) rid job bp enc q dec c = (r, seen_by (Suc i, others i (net_outside (cl_net c'))) c')"
proof -
  obtain i s where o: "net_outside (cl_net c) = (i, s)" by fastforce
  have c: "c = seen_by (i, s) c" using o by (cases c) (simp add: seen_by_def)
  obtain q' s' where m: "meanwhile (ce_outside env) (net_queue (cl_net c)) (deliver (ce_outside env) (cl_metadata_node c) f s) = (q', s')"
    by fastforce
  let ?p = "make_message_is client_rpc rid job Response (cl_metadata_node c) bp"
  obtain msg q'' where pop: "pop_if ?p q' = (msg, q'')" by fastforce
  note runs = call_run [where encoder = enc and rid = rid and q = q, OF f] await_if_def post_frame_def
  from run have "(r, c') = (case msg of None \<Rightarrow> (Inr (Inl ErrTimeout), seen_by s' (c\<lparr>cl_net := (cl_net c)\<lparr>net_queue := q'', net_sent := net_sent (cl_net c) @ [(cl_metadata_node c, f)]\<rparr>\<rparr>))
      | Some m \<Rightarrow> (and_then (read_message client_rpc m) (\<lambda>rpc. and_then (dec rpc) (\<lambda>r. Inr (Inr r))),
          seen_by s' (c\<lparr>cl_net := (cl_net c)\<lparr>net_queue := q'', net_sent := net_sent (cl_net c) @ [(cl_metadata_node c, f)]\<rparr>\<rparr>)))"
    using m pop o by (auto simp: runs seen_by_def split: option.splits)
  moreover have "call (busy_env others env) rid job bp enc q dec c =
      (case msg of None \<Rightarrow> (Inr (Inl ErrTimeout), seen_by (Suc i, others i s') (c\<lparr>cl_net := (cl_net c)\<lparr>net_queue := q'', net_sent := net_sent (cl_net c) @ [(cl_metadata_node c, f)]\<rparr>\<rparr>))
      | Some m \<Rightarrow> (and_then (read_message client_rpc m) (\<lambda>rpc. and_then (dec rpc) (\<lambda>r. Inr (Inr r))),
          seen_by (Suc i, others i s') (c\<lparr>cl_net := (cl_net c)\<lparr>net_queue := q'', net_sent := net_sent (cl_net c) @ [(cl_metadata_node c, f)]\<rparr>\<rparr>)))"
    using m pop o by (cases c) (auto simp: runs seen_by_def busy_env_def busy_outside_def split: option.splits)
  ultimately show ?thesis by (intro exI [of _ i]) (auto simp: seen_by_def split: option.splits)
qed

section \<open>The chunks of the upload\<close>

text \<open>What the node does for others stays away from the path, and leaves no job undone.\<close>

definition works_for_others ::
  "nodes Env \<Rightarrow> path \<Rightarrow> NodeId \<Rightarrow> u64 \<Rightarrow> (nat \<Rightarrow> nodes MetadataNode \<Rightarrow> nodes MetadataNode) \<Rightarrow> bool" where
  "works_for_others env p c rid others \<longleftrightarrow> (\<forall>i s. idle s \<longrightarrow> meantime env p c rid (mn_worker s) (mn_worker (others i s))
     \<and> mn_jobs (others i s) = mn_jobs s \<and> mn_stopping (others i s) = mn_stopping s)"

lemma system_kept:
  assumes "nodes.system_ok hosts server env now client server cenv c"
    "nodes.guarded dir p oid (peer_id client) rid m view (mn_worker s)" "view (peer_id client) = None" "worker_ok (mn_worker s)"
    "mn_jobs s = []" "\<not> mn_stopping s"
  shows "nodes.system_ok hosts server env now client server cenv (seen_by s c)"
proof -
  have "nodes.at_rest (peer_id client) (mn_worker s)" "durable (ms_directory (mw_store (mn_worker s))) (mn_worker s)"
    using assms(2,3) by (auto simp: nodes.guarded_def nodes.calm_net_def nodes.at_rest_def nodes.view_at_def durable_def)
  then show ?thesis using assms(1,4-6) by (simp add: nodes.system_ok_def linked_def idle_def nodes.at_rest_def)
qed

lemma system_meantime:
  assumes "nodes.system_ok hosts server env now client server cenv c"
    "nodes.undisturbed dir p (peer_id client) rid content w k (mn_worker s)" "mn_jobs s = []" "\<not> mn_stopping s"
  shows "nodes.system_ok hosts server env now client server cenv (seen_by s c)"
  using assms(2) system_kept [OF assms(1) _ _ _ assms(3,4)] by (auto simp: nodes.undisturbed_def)

lemma chunk_interleaved:
  assumes t: "interleaved env p (peer_id client) rid content s k t" "k < count_chunks (length content)" "time_fits (host_now (env_host env))"
    and run: "handled env now (with_context \<lparr>ctx_request_id = rid, ctx_sender = client\<rparr> (WriteChunkEvent
        \<lparr>wcq_chunk_index = word_of_nat k, wcq_data = chunk k content, wcq_context = empty_context\<rparr>))
        (write_chunk_frame rid (word_of_nat k) Success) t t'"
  shows "interleaved env p (peer_id client) rid content s (Suc k) t'"
proof -
  let ?req = "\<lparr>wcq_chunk_index = word_of_nat k, wcq_data = chunk k content, wcq_context = \<lparr>ctx_request_id = rid, ctx_sender = client\<rparr>\<rparr>"
  from run obtain u where u: "handle (env\<lparr>env_host := env_host env\<rparr>) (WriteChunkEvent ?req) t = (Inr (), u)"
    "last (sent u) = (peer_id client, write_chunk_frame rid (word_of_nat k) Success)"
    and t': "t' = u\<lparr>mw_nodes := check_heartbeat_timeouts now (mw_nodes u)\<rparr>" by (auto simp: handled_def)
  show ?thesis unfolding t'
    by (rule interleaved.others [OF interleaved.chunk [OF t(1,2) _ _ _ _ t(3) u] meantime.timeouts [OF meantime.nothing_else]]) simp_all
qed

lemma busy_loop:
  fixes c :: "(nat \<times> nodes MetadataNode) Client"
  assumes acc: "accepted hosts server env p (peer_id client) rid content w s" and others: "works_for_others env p (peer_id client) rid others"
    and n: "unat n = count_chunks (length content)"
  shows "nodes.system_ok hosts server env now client server cenv (seen_by (server_of c) c) \<Longrightarrow>
    interleaved env p (peer_id client) rid content s k (mn_worker (server_of c)) \<Longrightarrow> k \<le> count_chunks (length content) \<Longrightarrow>
    write_chunks (busy_env others cenv) rid n local (drop (k * 524288) content) (word_of_nat k) c = (Inr (Inr ()), c') \<Longrightarrow>
    interleaved env p (peer_id client) rid content s (count_chunks (length content)) (mn_worker (server_of c'))
    \<and> nodes.system_ok hosts server env now client server cenv (seen_by (server_of c') c') \<and> cl_disk c' = cl_disk c"
proof (induction "count_chunks (length content) - k" arbitrary: k c)
  case 0
  then have "k = count_chunks (length content)" by simp
  moreover from this have "n \<le> word_of_nat k" using index_end [of n] n by simp
  then have "c' = c" using 0(5) by (subst (asm) write_chunks.simps) (simp add: act_return_def)
  ultimately show ?case using 0 by simp
next
  case (Suc d)
  let ?c0 = "seen_by (server_of c) c"
  from Suc.hyps(2) have k: "k < count_chunks (length content)" by simp
  from index_below [of k n] k n have i: "(word_of_nat k :: u32) < n" "unat (word_of_nat k :: u32) = k" by simp_all
  have next_i: "word_of_nat k + 1 = (word_of_nat (Suc k) :: u32)" by (simp add: add.commute)
  have bytes: "take (unat CHUNK_SIZE) (drop (k * 524288) content) = chunk k content" by (simp add: chunk_def CHUNK_SIZE_nat)
  note ne = chunk_not_Nil [OF k]
  from interleaved_undisturbed [OF acc Suc.prems(2)] k obtain u where
    u: "find_pending (peer_id client) rid (pending_writes (worker_of ?c0)) = Some u" "nodes.upload_of content u k"
    "nodes.staged_at (net_outside (mw_net (worker_of ?c0))) content u k" by (auto simp: nodes.undisturbed_def)
  let ?q = "\<lparr>wcq_chunk_index = word_of_nat k, wcq_data = chunk k content, wcq_context = empty_context\<rparr>"
  from nodes.write_chunk_call [OF Suc.prems(1) u] obtain st ctx c1 where c1:
    "call cenv rid WRITE_CHUNK (chunk_index_is (word_of_nat k)) encode_write_chunk_request ?q decode_write_chunk_response ?c0 =
      (Inr (Inr \<lparr>wcr_chunk_index = word_of_nat k, wcr_status = st, wcr_context = ctx\<rparr>), c1)"
    "cl_disk c1 = cl_disk c"
    and run: "handled env now (with_context \<lparr>ctx_request_id = rid, ctx_sender = client\<rparr> (WriteChunkEvent ?q))
        (write_chunk_frame rid (word_of_nat k) st) (mn_worker (server_of c)) (worker_of c1)"
    and sys1: "st = Success \<longrightarrow> nodes.system_ok hosts server env now client server cenv c1" by auto
  have "\<exists>f. encode_write_chunk_request rid ?q = Inr f" by (simp add: write_chunk_request.enc_frame)
  then obtain j where busy: "call (busy_env others cenv) rid WRITE_CHUNK (chunk_index_is (word_of_nat k)) encode_write_chunk_request ?q
      decode_write_chunk_response c = (Inr (Inr \<lparr>wcr_chunk_index = word_of_nat k, wcr_status = st, wcr_context = ctx\<rparr>),
        seen_by (Suc j, others j (net_outside (cl_net c1))) c1)"
    using busy_call [OF _ c1(1)] by blast
  let ?c2 = "seen_by (Suc j, others j (net_outside (cl_net c1))) c1"
  have rest: "st = Success" "write_chunks (busy_env others cenv) rid n local (drop (Suc k * 524288) content) (word_of_nat (Suc k)) ?c2 = (Inr (Inr ()), c')"
    using Suc.prems(4) i(1) drop_chunk [of k content]
    by (subst (asm) write_chunks.simps,
        auto simp: Let_def bytes ne act_then_def busy act_return_def next_i chunk_def [symmetric] split: if_splits)+
  have time: "time_fits (host_now (env_host env))" using Suc.prems(1) by (simp add: nodes.system_ok_def)
  have s1: "nodes.system_ok hosts server env now client server cenv c1" using sys1 rest(1) by simp
  then have idle: "idle (net_outside (cl_net c1))" by (simp add: nodes.system_ok_def)
  have "interleaved env p (peer_id client) rid content s (Suc k) (worker_of c1)"
    by (rule chunk_interleaved [OF Suc.prems(2) k time]) (use run rest(1) in simp)
  then have inter: "interleaved env p (peer_id client) rid content s (Suc k) (mn_worker (server_of ?c2))"
    using others idle by (auto simp: works_for_others_def intro: interleaved.others)
  have "nodes.system_ok hosts server env now client server cenv (seen_by (server_of ?c2) c1)"
    by (rule system_meantime [OF s1 interleaved_undisturbed [OF acc inter, THEN conjunct1]])
      (use others idle in \<open>auto simp: works_for_others_def idle_def\<close>)
  moreover have "seen_by (server_of ?c2) ?c2 = seen_by (server_of ?c2) c1" by (simp add: seen_by_def)
  ultimately have "nodes.system_ok hosts server env now client server cenv (seen_by (server_of ?c2) ?c2)" by simp
  from Suc.hyps(1) [OF _ this inter _ rest(2)] Suc.hyps(2) k c1(2) show ?case by simp
qed

section \<open>The whole upload\<close>

text \<open>
  The object that the upload will get is the file's own: no other entry and no other transfer
  has it, and it is not drawn again. No other upload goes to the path.
\<close>

definition unshared :: "'e Env \<Rightarrow> path \<Rightarrow> NodeId \<Rightarrow> u64 \<Rightarrow> 'e MetadataWorker \<Rightarrow> bool" where
  "unshared env p c rid s \<longleftrightarrow> find_pending c rid (pending_writes s) = None \<and> reads_good (pending_reads s)
     \<and> (case own_object env p s of (oid, d) \<Rightarrow> entries_apart p oid (name_space (mw_store s))
          \<and> uploads_apart p oid c rid (pending_writes s) \<and> (\<forall>i \<ge> d. drawn_id env i \<noteq> oid))"

lemma write_file_accepted:
  fixes t :: "nodes MetadataWorker" and amount :: u64 and n :: u32 and p :: path
  defines "q \<equiv> \<lparr>wfq_file_size = amount, wfq_chunk_count = n, wfq_path = p, wfq_context = empty_context\<rparr>"
  assumes env: "env_outside env = nodes_outside hosts server" "time_fits (host_now (env_host env))" and p: "nul_free p"
    and s: "nodes.at_rest (peer_id client) s" "durable (ms_directory (mw_store s)) s" "unshared env p (peer_id client) rid s"
    and run: "handled env now (with_context \<lparr>ctx_request_id = rid, ctx_sender = client\<rparr> (WriteFileEvent q)) (write_file_frame rid Success) s t"
    and t: "nodes.at_rest (peer_id client) t" "worker_ok t" "durable (ms_directory (mw_store t)) t"
    and w: "find_pending (peer_id client) rid (pending_writes t) = Some w" "pd_path w = p" "nodes.upload_of content w 0"
  shows "accepted hosts server env p (peer_id client) rid content w t"
proof -
  let ?q = "q\<lparr>wfq_context := \<lparr>ctx_request_id = rid, ctx_sender = client\<rparr>\<rparr>" and ?dir = "ms_directory (mw_store s)"
  obtain oid d where own: "own_object env (wfq_path ?q) s = (oid, d)" by fastforce
  then have own': "own_object env p s = (oid, d)" by (simp add: q_def)
  let ?view = "nodes.view_at oid (net_outside (mw_net s))"
  have g: "nodes.guarded ?dir (wfq_path ?q) oid (peer_id client) rid (name_space (mw_store s) (elems p)) ?view s"
    using s own' by (simp add: nodes.guarded_def nodes.calm_net_def nodes.at_rest_def unshared_def q_def)
  have view: "?view (peer_id (ctx_sender (wfq_context ?q))) = None" using s(1) by (simp add: nodes.at_rest_def nodes.view_at_def)
  from run obtain u where u: "handle_write_file env ?q s = (Inr (), u)" "last (sent u) = (peer_id client, write_file_frame rid Success)"
    and t': "t = u\<lparr>mw_nodes := check_heartbeat_timeouts now (mw_nodes u)\<rparr>" by (auto simp: handled_def)
  have "nodes.owned ?dir (wfq_path ?q) oid (peer_id client) rid ?view d u \<and> good_id oid"
    by (rule nodes.own_write_file [OF env view _ _ _ own g _ u]) (use p s(3) in \<open>simp_all add: q_def unshared_def\<close>)
  then obtain m where gu: "nodes.guarded ?dir p oid (peer_id client) rid m ?view u" "drawn d u"
    and o: "\<And>v. find_pending (peer_id client) rid (pending_writes u) = Some v \<Longrightarrow> pd_object_id v = oid"
    by (auto simp: nodes.owned_def q_def)
  have "pd_object_id w = oid" using o w(1) by (simp add: t')
  moreover have "\<forall>i \<ge> mw_draws t. drawn_id env i \<noteq> oid"
    using gu(2) s(3) own' by (auto simp: unshared_def t' drawn_def)
  ultimately show ?thesis
    using gu(1) env(1) t w by (simp add: accepted_def nodes.guarded_def t')
qed

text \<open>The system after the first request of the upload and what the node did for others then.\<close>

lemma upload_begun:
  fixes v v1 :: "nodes MetadataNode Client"
  defines "s \<equiv> worker_of v" and "t \<equiv> worker_of v1"
  assumes sys: "nodes.system_ok hosts server env now client server cenv v" "nodes.system_ok hosts server env now client server cenv v1"
    and p: "nul_free p" "\<not> being_written p (pending_writes s)" "content \<noteq> []"
    and own: "unshared env p (peer_id client) rid s" and others: "works_for_others env p (peer_id client) rid others"
    and run: "handled env now (with_context \<lparr>ctx_request_id = rid, ctx_sender = client\<rparr> (WriteFileEvent
        \<lparr>wfq_file_size = word_of_nat (length content), wfq_chunk_count = n, wfq_path = p, wfq_context = empty_context\<rparr>))
        (write_file_frame rid Success) s t"
    and started: "nodes.write_started p (peer_id client) rid content s t"
  shows "\<exists>w. accepted hosts server env p (peer_id client) rid content w t
    \<and> interleaved env p (peer_id client) rid content t 0 (mn_worker (others j (net_outside (cl_net v1))))
    \<and> nodes.system_ok hosts server env now client server cenv (seen_by (others j (net_outside (cl_net v1))) v1)"
proof -
  have "worker_ok s" using sys(1) by (simp add: nodes.system_ok_def s_def)
  from nodes.upload_starts [OF started this p(2,3)] obtain w where w: "find_pending (peer_id client) rid (pending_writes t) = Some w"
    "pd_path w = p" "nodes.upload_of content w 0" by (auto simp: nodes.uploading_def)
  have env: "env_outside env = nodes_outside hosts server" "time_fits (host_now (env_host env))" using sys(1) by (simp_all add: nodes.system_ok_def)
  have acc: "accepted hosts server env p (peer_id client) rid content w t"
    by (rule write_file_accepted [OF env p(1) _ _ own run _ _ _ w]) (use sys in \<open>simp_all add: nodes.system_ok_def s_def t_def\<close>)
  have idle: "idle (net_outside (cl_net v1))" using sys(2) by (simp add: nodes.system_ok_def)
  have inter: "interleaved env p (peer_id client) rid content t 0 (mn_worker (others j (net_outside (cl_net v1))))"
    using others idle unfolding t_def by (auto simp: works_for_others_def intro: interleaved.others [OF interleaved.start])
  have "nodes.system_ok hosts server env now client server cenv (seen_by (others j (net_outside (cl_net v1))) v1)"
    by (rule system_meantime [OF sys(2) interleaved_undisturbed [OF acc inter, THEN conjunct1]])
      (use others idle in \<open>auto simp: works_for_others_def idle_def\<close>)
  with acc inter show ?thesis by blast
qed

lemma busy_upload:
  fixes c :: "(nat \<times> nodes MetadataNode) Client"
  defines "v \<equiv> seen_by (server_of c) c" and "rid \<equiv> current_id c + 1"
  assumes sys: "cluster_ok hosts env now client server cenv v" and ready: "upload_ready cenv v src p content" and ne: "content \<noteq> []"
    and own: "unshared env p (peer_id client) rid (worker_of v)" and others: "works_for_others env p (peer_id client) rid others"
    and run: "write_file (busy_env others cenv) src p c = (Inr (Inr ()), c')"
  shows "\<exists>w s. accepted hosts server env p (peer_id client) rid content w s
    \<and> interleaved env p (peer_id client) rid content s (count_chunks (length content)) (mn_worker (server_of c'))
    \<and> cluster_ok hosts env now client server cenv (seen_by (server_of c') c')"
proof -
  let ?size = "word_of_nat (length content) :: u64"
  let ?n = "ucast (chunks_expected ?size) :: u32"
  let ?q = "\<lparr>wfq_file_size = ?size, wfq_chunk_count = ?n, wfq_path = p, wfq_context = empty_context\<rparr>"
  define c0 where "c0 = c\<lparr>current_id := rid\<rparr>"
  define v0 where "v0 = v\<lparr>current_id := rid\<rparr>"
  have v0: "v0 = seen_by (server_of c0) c0" by (simp add: v0_def v_def c0_def seen_by_def)
  have same: "worker_of v0 = worker_of v" "cl_disk v0 = cl_disk c" by (simp_all add: v0_def v_def)
  have sys0: "nodes.system_ok hosts server env now client server cenv v0"
    using sys unfolding cluster_system by (simp add: v0_def nodes.system_ok_def linked_def)
  from ready have p: "nul_free p" "length p < 2 ^ 31" and content: "open_in (ce_faults cenv) (cl_disk c) (ce_located cenv src) = Inr content"
    "length content < 2 ^ 64" and free: "\<not> being_written p (pending_writes (worker_of v))"
    by (simp_all add: upload_ready_def v_def)
  have ids: "good_id (md_obj_id m)" if "get_metadata p (mw_store (worker_of v0)) = Inr m" for m
    using ready that by (simp add: upload_ready_def same)
  from nodes.write_file_call [OF sys0 p content(2), of rid ?n] ids obtain st ctx v1 where v1:
    "call cenv rid WRITE_FILE match_any_body encode_write_file_request ?q decode_write_file_response v0
      = (Inr (Inr \<lparr>wfr_status = st, wfr_context = ctx\<rparr>), v1)"
    "cl_disk v1 = cl_disk v0" "current_id v1 = current_id v0"
    and hd: "handled env now (with_context \<lparr>ctx_request_id = rid, ctx_sender = client\<rparr> (WriteFileEvent ?q)) (write_file_frame rid st)
      (worker_of v0) (worker_of v1)"
    and ok: "st = Success \<longrightarrow> nodes.system_ok hosts server env now client server cenv v1
      \<and> nodes.write_started p (peer_id client) rid content (worker_of v) (worker_of v1)" by (auto simp: same(1))
  have "\<exists>f. encode_write_file_request rid ?q = Inr f" by (simp add: write_file_request.enc_frame)
  then obtain j where busy: "call (busy_env others cenv) rid WRITE_FILE match_any_body encode_write_file_request ?q decode_write_file_response c0
      = (Inr (Inr \<lparr>wfr_status = st, wfr_context = ctx\<rparr>), seen_by (Suc j, others j (net_outside (cl_net v1))) v1)"
    using busy_call [OF _ v1(1) [unfolded v0]] by blast
  let ?c1 = "seen_by (Suc j, others j (net_outside (cl_net v1))) v1"
  have opened: "open_local (busy_env others cenv) (ce_located cenv src) c0 = (Inr (Inr content), c0)
      \<or> open_local (busy_env others cenv) (ce_located cenv src) c0 = (Inl SystemError, c0)"
    using content(1) by (simp add: open_local_def c0_def busy_env_def)
  have located: "ce_located (busy_env others cenv) = ce_located cenv" by (simp add: busy_env_def)
  have step: "st = Success \<and> \<not> chunks_expected ?size > ucast (- 1 :: u32)
    \<and> write_chunks (busy_env others cenv) rid ?n (ce_located cenv src) content 0 ?c1 = (Inr (Inr ()), c')"
    using run opened busy unfolding write_file_def Let_def located
    by (auto simp: act_then_def next_id_def act_step_def Let_def rid_def [symmetric] c0_def [symmetric] act_return_def split: if_splits)
  then have ok': "nodes.system_ok hosts server env now client server cenv v1"
    "nodes.write_started p (peer_id client) rid content (worker_of v) (worker_of v1)" using ok by simp_all
  have count: "unat ?n = count_chunks (length content)" using nodes.counted_exactly [OF content(2)] step by simp
  from upload_begun [OF sys0 ok'(1) p(1) _ ne _ others, of ?n j] free own hd ok'(2) step obtain w where
    acc: "accepted hosts server env p (peer_id client) rid content w (worker_of v1)"
    and inter: "interleaved env p (peer_id client) rid content (worker_of v1) 0 (mn_worker (server_of ?c1))"
    and "nodes.system_ok hosts server env now client server cenv (seen_by (server_of ?c1) v1)" by (auto simp: same)
  moreover have "seen_by (server_of ?c1) ?c1 = seen_by (server_of ?c1) v1" by (simp add: seen_by_def)
  ultimately have "nodes.system_ok hosts server env now client server cenv (seen_by (server_of ?c1) ?c1)" by simp
  from busy_loop [OF acc others count this inter, of "ce_located cenv src" c'] step acc show ?thesis
    unfolding cluster_system by auto
qed

section \<open>Downloads\<close>

text \<open>Nodes that were heard of recently still are after the other work.\<close>

definition keeps_seen :: "steady_time \<Rightarrow> (nat \<Rightarrow> nodes MetadataNode \<Rightarrow> nodes MetadataNode) \<Rightarrow> bool" where
  "keeps_seen now others \<longleftrightarrow> (\<forall>i s r. idle s \<longrightarrow> seen_recently now (mw_nodes (mn_worker s)) r
     \<longrightarrow> seen_recently now (mw_nodes (mn_worker (others i s))) r)"

lemma both_hold_view:
  "nodes.both_hold e m content \<longleftrightarrow> (\<forall>r \<in> {md_replica_0 m, md_replica_1 m}. \<forall>a b x.
     nodes.view_at (md_obj_id m) e r = Some (a, b, x) \<longrightarrow> a = Some content)"
  by (auto simp: nodes.both_hold_def nodes.holds_def nodes.view_Some)

lemma handled_kept:
  assumes "env_outside env = nodes_outside hosts server" "time_fits (host_now (env_host env))"
    and "proper_id oid" "\<And>i. d \<le> i \<Longrightarrow> drawn_id env i \<noteq> oid" "nodes.kept dir p oid c rid m view d s"
    and "away p ev" "\<And>q. ev \<noteq> WriteChunkEvent q" "worker_at (peer_id (ctx_sender (event_context ev))) (net_outside (mw_net s)) = None"
    and "handled env now ev f s t"
  shows "nodes.kept dir p oid c rid m view d t"
proof -
  from assms(9) obtain u where u: "handle env ev s = (Inr (), u)" "t = u\<lparr>mw_nodes := check_heartbeat_timeouts now (mw_nodes u)\<rparr>"
    by (auto simp: handled_def)
  have "from_other c rid (wcq_context q)" if "ev = WriteChunkEvent q" for q using assms(7) [of q] that by simp
  note this = nodes.event_kept [OF assms(1-6) this assms(8) u(1)]
  from nodes.nodes_kept [OF this heartbeat_nodes(1,2) [OF this]] u(2) show ?thesis by simp
qed

text \<open>After one exchange of a download and the other work: all is as it was for the next one.\<close>

lemma next_exchange:
  fixes v1 :: "nodes MetadataNode Client" and others :: "nat \<Rightarrow> nodes MetadataNode \<Rightarrow> nodes MetadataNode" and j :: nat
  defines "t \<equiv> worker_of v1" and "N \<equiv> others j (net_outside (cl_net v1))"
  assumes sys: "nodes.system_ok hosts server env now client server cenv v1"
    and oid: "proper_id oid" "\<And>i. d \<le> i \<Longrightarrow> drawn_id env i \<noteq> oid"
    and k: "nodes.kept dir p oid (peer_id client) rid m view d t" "view (peer_id client) = None"
    and others: "works_for_others env p (peer_id client) rid others" "keeps_seen now others"
  shows "nodes.system_ok hosts server env now client server cenv (seen_by N v1)
    \<and> nodes.kept dir p oid (peer_id client) rid m view d (mn_worker N)
    \<and> find_pending (peer_id client) rid (pending_reads (mn_worker N)) = find_pending (peer_id client) rid (pending_reads t)
    \<and> (nodes.one_survives hosts now t x \<longrightarrow> nodes.one_survives hosts now (mn_worker N) x)"
proof -
  have idle: "idle (net_outside (cl_net v1))" using sys by (simp add: nodes.system_ok_def)
  with others(1) have N: "meantime env p (peer_id client) rid t (mn_worker N)" "mn_jobs N = []" "\<not> mn_stopping N"
    by (auto simp: works_for_others_def t_def N_def idle_def)
  have env: "env_outside env = nodes_outside hosts server" using sys by (simp add: nodes.system_ok_def)
  from meantime_kept [OF env oid N(1) k(1), of "find_pending (peer_id client) rid (pending_writes t)" "find_pending (peer_id client) rid (pending_reads t)"]
  have K: "nodes.kept dir p oid (peer_id client) rid m view d (mn_worker N)"
    "find_pending (peer_id client) rid (pending_reads (mn_worker N)) = find_pending (peer_id client) rid (pending_reads t)"
    by (simp_all add: entries_at_def)
  have "nodes.system_ok hosts server env now client server cenv (seen_by N v1)"
    using K(1) by (intro system_kept [where view = view, OF sys _ k(2) _ N(2,3)]) (auto simp: nodes.kept_def)
  moreover have "nodes.view_at oid (net_outside (mw_net (mn_worker N))) = nodes.view_at oid (net_outside (mw_net t))"
    using K(1) k(1) by (simp add: nodes.kept_def nodes.guarded_def nodes.calm_net_def)
  then have "worker_at r (net_outside (mw_net (mn_worker N))) = None \<longleftrightarrow> worker_at r (net_outside (mw_net t)) = None" for r
    by (simp add: nodes.view_None [of r _ oid])
  then have "nodes.gives hosts (net_outside (mw_net (mn_worker N))) r = nodes.gives hosts (net_outside (mw_net t)) r" for r
    by (simp add: nodes.gives_def)
  moreover have "seen_recently now (mw_nodes t) r \<Longrightarrow> seen_recently now (mw_nodes (mn_worker N)) r" for r
    using others(2) idle by (simp add: keeps_seen_def t_def N_def)
  ultimately show ?thesis using K by (auto simp: nodes.one_survives_def)
qed

text \<open>The download between two requests: \<open>k\<close> chunks are written to the temporary file.\<close>

definition downloading ::
  "(NodeId \<Rightarrow> StorageNode \<Rightarrow> StorageHost) \<Rightarrow> nodes Env \<Rightarrow> steady_time \<Rightarrow> NodeIdentity \<Rightarrow> NodeIdentity \<Rightarrow> nodes MetadataNode ClientEnv
   \<Rightarrow> path \<Rightarrow> u64 \<Rightarrow> FileMetadata \<Rightarrow> byte list \<Rightarrow> nat \<Rightarrow> nat \<Rightarrow> nodes MetadataNode Client \<Rightarrow> bool" where
  "downloading hosts env now client server cenv p rid m content d k v \<longleftrightarrow>
     nodes.system_ok hosts server env now client server cenv v
     \<and> (\<exists>entry view. nodes.kept (ms_directory (mw_store (worker_of v))) p (md_obj_id m) (peer_id client) rid entry view d (worker_of v)
          \<and> view (peer_id client) = None)
     \<and> nodes.both_hold (net_outside (mw_net (worker_of v))) m content \<and> nodes.one_survives hosts now (worker_of v) m
     \<and> (k < count_chunks (length content) \<longrightarrow> find_pending (peer_id client) rid (pending_reads (worker_of v)) = Some (read_entry p m k))"

lemma kept_directory: "nodes.kept dir p oid c rid m view d s \<Longrightarrow> ms_directory (mw_store s) = dir"
  by (simp add: nodes.kept_def nodes.guarded_def durable_def)

text \<open>One exchange of the download at an idle node, and the other work after it.\<close>

lemma download_step:
  fixes v v1 :: "nodes MetadataNode Client" and j :: nat
  assumes v: "nodes.system_ok hosts server env now client server cenv v"
      "nodes.kept dir p (md_obj_id m) (peer_id client) rid entry view d (worker_of v)" "view (peer_id client) = None"
      "nodes.both_hold (net_outside (mw_net (worker_of v))) m content" "nodes.one_survives hosts now (worker_of v) m"
    and v1: "nodes.system_ok hosts server env now client server cenv v1"
      "(\<lambda>n. worker_at n (net_outside (mw_net (worker_of v1)))) = (\<lambda>n. worker_at n (net_outside (mw_net (worker_of v))))"
      "mw_nodes (worker_of v1) = check_heartbeat_timeouts now (mw_nodes (worker_of v))"
    and run: "handled env now ev f (worker_of v) (worker_of v1)" "away p ev" "\<And>q. ev \<noteq> WriteChunkEvent q" "ctx_sender (event_context ev) = client"
    and entry: "k < count_chunks (length content) \<longrightarrow> find_pending (peer_id client) rid (pending_reads (worker_of v1)) = Some (read_entry p m k)"
    and oid: "proper_id (md_obj_id m)" "\<And>i. d \<le> i \<Longrightarrow> drawn_id env i \<noteq> md_obj_id m"
    and others: "works_for_others env p (peer_id client) rid others" "keeps_seen now others"
  shows "downloading hosts env now client server cenv p rid m content d k (seen_by (others j (net_outside (cl_net v1))) v1)"
proof -
  let ?N = "others j (net_outside (cl_net v1))" and ?oid = "md_obj_id m"
  have env: "env_outside env = nodes_outside hosts server" "time_fits (host_now (env_host env))" and rest: "nodes.at_rest (peer_id client) (worker_of v)"
    using v(1) by (simp_all add: nodes.system_ok_def)
  have "worker_at (peer_id (ctx_sender (event_context ev))) (net_outside (mw_net (worker_of v))) = None"
    using rest run(4) by (simp add: nodes.at_rest_def)
  note k1 = handled_kept [OF env oid v(2) run(2,3) this run(1)]
  note n = next_exchange [where view = view, OF v1(1) oid k1 v(3) others, of j m]
  have view: "nodes.view_at ?oid (net_outside (mw_net (mn_worker ?N))) = view" "nodes.view_at ?oid (net_outside (mw_net (worker_of v))) = view"
    using n v(2) by (simp_all add: nodes.kept_def nodes.guarded_def nodes.calm_net_def)
  have "nodes.both_hold (net_outside (mw_net (mn_worker ?N))) m content"
    using v(4) by (simp add: both_hold_view view)
  moreover have "nodes.one_survives hosts now (mn_worker ?N) m"
    using n v(5) nodes.survives_same [of "worker_of v1" "worker_of v" now hosts m] v1(2,3) by simp
  moreover have "ms_directory (mw_store (mn_worker ?N)) = dir" using n kept_directory by blast
  ultimately show ?thesis using n entry v(3) by (auto simp: downloading_def)
qed

lemma busy_download_loop:
  fixes c :: "(nat \<times> nodes MetadataNode) Client"
  assumes host: "ce_faults cenv = no_faults" and m: "describes m content" "content \<noteq> []"
    and resp: "rfr_file_size resp = md_size m" "rfr_chunk_count resp = ucast (chunks_for (md_size m))"
    and oid: "\<And>i. d \<le> i \<Longrightarrow> drawn_id env i \<noteq> md_obj_id m"
    and others: "works_for_others env p (peer_id client) rid others" "keeps_seen now others"
    and start: "k \<le> count_chunks (length content)" "downloading hosts env now client server cenv p rid m content d k (seen_by (server_of c) c)"
    and disk: "disk_wf (cl_disk c)" "node_at (cl_disk c) tmp = Some (File (take (k * 524288) content))"
  shows "\<exists>c'. read_chunks (busy_env others cenv) rid resp name tmp (word_of_nat k) c = (Inr (Inr ()), c')
    \<and> disk_wf (cl_disk c') \<and> node_at (cl_disk c') tmp = Some (File content)
    \<and> (\<forall>l. l \<noteq> tmp \<longrightarrow> node_at (cl_disk c') l = node_at (cl_disk c) l)"
  using start disk
proof (induction "count_chunks (length content) - k" arbitrary: k c)
  case 0
  then have k: "k = count_chunks (length content)" by simp
  note count = describes_count [OF m(1)]
  have "rfr_chunk_count resp \<le> word_of_nat k" using index_end [of "rfr_chunk_count resp"] k count(3) resp(2) by simp
  moreover have "take (k * 524288) content = content" unfolding k using count_chunks_bound [of "length content"] by simp
  ultimately show ?case using 0 by (subst read_chunks.simps) (simp add: act_return_def)
next
  case (Suc n)
  let ?v = "seen_by (server_of c) c"
  note count = describes_count [OF m(1)]
  have id: "proper_id (md_obj_id m)" using m by (simp add: describes_def good_id_def)
  have k: "k < count_chunks (length content)" using Suc.hyps(2) by simp
  from index_below [of k "rfr_chunk_count resp"] k count(3) resp(2)
  have i: "(word_of_nat k :: u32) < rfr_chunk_count resp" "unat (word_of_nat k :: u32) = k" by simp_all
  have next_i: "word_of_nat k + 1 = (word_of_nat (Suc k) :: u32)" by (simp add: add.commute)
  have off: "k * 524288 < length content" using k by (simp add: count_chunks_less)
  have size: "length (chunk k content) = unat (size_expected (rfr_file_size resp) (word_of_nat k))"
    using chunk_length_nat [of "word_of_nat k" "md_size m"] i(2) off count(1) resp(1) by (simp add: size_expected_def Let_def length_chunk)
  from Suc.prems(2) k obtain dir entry view where v: "nodes.system_ok hosts server env now client server cenv ?v"
    "nodes.kept dir p (md_obj_id m) (peer_id client) rid entry view d (worker_of ?v)" "view (peer_id client) = None"
    "nodes.both_hold (net_outside (mw_net (worker_of ?v))) m content" "nodes.one_survives hosts now (worker_of ?v) m"
    "find_pending (peer_id client) rid (pending_reads (worker_of ?v)) = Some (read_entry p m k)"
    by (auto simp: downloading_def)
  let ?q = "\<lparr>rcq_chunk_index = word_of_nat k, rcq_context = empty_context\<rparr>"
  from nodes.read_chunk_call [OF v(1,6) m(1) k v(4) nodes.survives_gives [OF v(5)]] obtain ctx v1 where v1:
    "call cenv rid READ_CHUNK (chunk_index_is (word_of_nat k)) encode_read_chunk_request ?q decode_read_chunk_response ?v =
      (Inr (Inr \<lparr>rcr_chunk_index = word_of_nat k, rcr_status = Success, rcr_data = chunk k content, rcr_context = ctx\<rparr>), v1)"
    "cl_disk v1 = cl_disk c" "nodes.system_ok hosts server env now client server cenv v1"
    "(\<lambda>n. worker_at n (net_outside (mw_net (worker_of v1)))) = (\<lambda>n. worker_at n (net_outside (mw_net (worker_of ?v))))"
    "mw_nodes (worker_of v1) = check_heartbeat_timeouts now (mw_nodes (worker_of ?v))"
    and hd: "handled env now (with_context \<lparr>ctx_request_id = rid, ctx_sender = client\<rparr> (ReadChunkEvent ?q))
        (read_chunk_frame rid (word_of_nat k) Success (chunk k content)) (worker_of ?v) (worker_of v1)"
    and entry: "Suc k < count_chunks (length content) \<longrightarrow> find_pending (peer_id client) rid (pending_reads (worker_of v1)) = Some (read_entry p m (Suc k))"
    by auto
  have "\<exists>f. encode_read_chunk_request rid ?q = Inr f" by (simp add: read_chunk_request.enc_frame)
  then obtain j where busy: "call (busy_env others cenv) rid READ_CHUNK (chunk_index_is (word_of_nat k)) encode_read_chunk_request ?q decode_read_chunk_response c =
      (Inr (Inr \<lparr>rcr_chunk_index = word_of_nat k, rcr_status = Success, rcr_data = chunk k content, rcr_context = ctx\<rparr>),
        seen_by (Suc j, others j (net_outside (cl_net v1))) v1)"
    using busy_call [OF _ v1(1)] by blast
  have down: "downloading hosts env now client server cenv p rid m content d (Suc k) (seen_by (others j (net_outside (cl_net v1))) v1)"
    by (rule download_step [OF v(1-5) v1(3-5) hd _ _ _ entry id oid others]) simp_all
  obtain d1 where d1: "append_out no_faults (cl_disk c) tmp (chunk k content) = (True, d1)"
    by (simp add: append_out_def no_faults_def)
  from append_out_ok [OF d1 Suc.prems(3,4)] have disk1: "disk_wf d1" "\<forall>l. l \<noteq> tmp \<longrightarrow> node_at d1 l = node_at (cl_disk c) l"
    "node_at d1 tmp = Some (File (take (Suc k * 524288) content))" unfolding take_chunk by auto
  let ?c = "(seen_by (Suc j, others j (net_outside (cl_net v1))) v1)\<lparr>cl_disk := d1\<rparr>"
  have "downloading hosts env now client server cenv p rid m content d (Suc k) (seen_by (server_of ?c) ?c)"
    using down by (simp add: downloading_def nodes.system_ok_def linked_def)
  then have "\<exists>c'. read_chunks (busy_env others cenv) rid resp name tmp (word_of_nat (Suc k)) ?c = (Inr (Inr ()), c')
    \<and> disk_wf (cl_disk c') \<and> node_at (cl_disk c') tmp = Some (File content)
    \<and> (\<forall>l. l \<noteq> tmp \<longrightarrow> node_at (cl_disk c') l = node_at (cl_disk ?c) l)"
    using Suc.hyps(2) k disk1(1,3) by (intro Suc.hyps(1)) simp_all
  moreover have "read_chunks (busy_env others cenv) rid resp name tmp (word_of_nat k) c = read_chunks (busy_env others cenv) rid resp name tmp (word_of_nat (Suc k)) ?c"
    unfolding next_i [symmetric] using busy v1(2) linorder_not_le [THEN iffD2, OF i(1)] size d1 host
    by (subst read_chunks.simps) (simp add: act_then_def write_output_def act_step_def, simp add: busy_env_def)
  ultimately show ?case using disk1(2) by auto
qed

lemma busy_download:
  fixes c :: "(nat \<times> nodes MetadataNode) Client"
  defines "v \<equiv> seen_by (server_of c) c" and "rid \<equiv> current_id c + 1"
  assumes ok: "cluster_ok hosts env now client server cenv v" and p: "nul_free p" "length p < 2 ^ 31"
    and stored: "file_on_replicas p content v" "content \<noteq> []" and left: "replica_left hosts now p v"
    and own: "unshared env p (peer_id client) rid (worker_of v)" "find_pending (peer_id client) rid (pending_reads (worker_of v)) = None"
    and others: "works_for_others env p (peer_id client) rid others" "keeps_seen now others"
    and save: "can_save cenv v to"
  shows "\<exists>c'. read_file (busy_env others cenv) p to c = (Inr (Inr ()), c') \<and> node_at (cl_disk c') (ce_located cenv to) = Some (File content)"
proof -
  let ?dest = "ce_located cenv to" and ?s = "worker_of v"
  let ?tmp = "ce_located cenv (to @ ''.dfs-read-'' @ decimal (unat rid) @ ''.tmp'')"
  have sys: "nodes.system_ok hosts server env now client server cenv v" using ok unfolding cluster_system .
  from stored obtain m where m: "get_metadata p (mw_store ?s) = Inr m" "describes m content" and free: "\<not> being_written p (pending_writes ?s)"
    and both: "nodes.both_hold (net_outside (mw_net ?s)) m content"
    by (auto simp: file_on_replicas_def nodes.both_hold_def nodes.holds_def)
  have one: "nodes.one_survives hosts now ?s m"
    using left m(1) by (auto simp: replica_left_def nodes.one_survives_def nodes.gives_def host_of_def)
  note count = describes_count [OF m(2)]
  define c0 where "c0 = c\<lparr>current_id := rid\<rparr>"
  define v0 where "v0 = v\<lparr>current_id := rid\<rparr>"
  have v0: "v0 = seen_by (server_of c0) c0" by (simp add: v0_def v_def c0_def seen_by_def)
  have sys0: "nodes.system_ok hosts server env now client server cenv v0" using sys by (simp add: v0_def nodes.system_ok_def linked_def)
  have same: "worker_of v0 = ?s" "cl_disk v0 = cl_disk c" by (simp_all add: v0_def v_def)
  have id: "proper_id (md_obj_id m)" using m(2) stored(2) by (simp add: describes_def good_id_def)
  have obj: "own_object env p ?s = (md_obj_id m, mw_draws ?s)" using m(1) by (simp add: own_object_def)
  define d where "d = mw_draws ?s"
  have fresh: "drawn_id env i \<noteq> md_obj_id m" if "d \<le> i" for i using own(1) that by (simp add: unshared_def obj d_def)
  let ?view = "nodes.view_at (md_obj_id m) (net_outside (mw_net ?s))" and ?dir = "ms_directory (mw_store ?s)"
  let ?entry = "name_space (mw_store ?s) (elems p)"
  have kept: "nodes.kept ?dir p (md_obj_id m) (peer_id client) rid ?entry ?view d (worker_of v0)"
    using sys own(1) by (simp add: same nodes.kept_def nodes.guarded_def nodes.calm_net_def nodes.system_ok_def nodes.at_rest_def unshared_def obj
        drawn_def d_def)
  have view: "?view (peer_id client) = None" using sys by (simp add: nodes.system_ok_def nodes.at_rest_def nodes.view_at_def)
  let ?q = "\<lparr>rfq_path = p, rfq_context = empty_context\<rparr>"
  from nodes.read_file_call [OF sys0 p _ m(2), of rid] m(1) free own(2) nodes.survives_gives [OF one] obtain ctx v1 where v1:
    "call cenv rid READ_FILE match_any_body encode_read_file_request ?q decode_read_file_response v0 = (Inr (Inr \<lparr>rfr_status = Success,
        rfr_file_size = md_size m, rfr_chunk_count = ucast (chunks_for (md_size m)), rfr_context = ctx\<rparr>), v1)"
    "cl_disk v1 = cl_disk c" "nodes.system_ok hosts server env now client server cenv v1"
    "(\<lambda>n. worker_at n (net_outside (mw_net (worker_of v1)))) = (\<lambda>n. worker_at n (net_outside (mw_net (worker_of v0))))"
    "mw_nodes (worker_of v1) = check_heartbeat_timeouts now (mw_nodes (worker_of v0))"
    "find_pending (peer_id client) rid (pending_reads (worker_of v1)) = Some (read_entry p m 0)"
    and hd: "handled env now (with_context \<lparr>ctx_request_id = rid, ctx_sender = client\<rparr> (ReadFileEvent ?q))
        (read_file_frame rid Success (md_size m) (ucast (chunks_for (md_size m)))) (worker_of v0) (worker_of v1)"
    using stored(2) by (auto simp: same)
  let ?resp = "\<lparr>rfr_status = Success, rfr_file_size = md_size m, rfr_chunk_count = ucast (chunks_for (md_size m)), rfr_context = ctx\<rparr>"
  have "\<exists>f. encode_read_file_request rid ?q = Inr f" by (simp add: read_file_request.enc_frame)
  then obtain j where busy: "call (busy_env others cenv) rid READ_FILE match_any_body encode_read_file_request ?q decode_read_file_response c0
      = (Inr (Inr ?resp), seen_by (Suc j, others j (net_outside (cl_net v1))) v1)"
    using busy_call [OF _ v1(1) [unfolded v0]] by blast
  let ?c1 = "seen_by (Suc j, others j (net_outside (cl_net v1))) v1"
  have down: "downloading hosts env now client server cenv p rid m content d 0 (seen_by (others j (net_outside (cl_net v1))) v1)"
    by (rule download_step [OF sys0 kept view _ _ v1(3-5) hd _ _ _ _ id fresh others]) (use both one v1(6) in \<open>simp_all add: same\<close>)
  have chunks: "chunks_expected (md_size m) = ucast (ucast (chunks_for (md_size m)) :: u32)"
    using count(2,3) by (intro word_unat_eq_iff [THEN iffD2]) (simp add: chunks_expected_def chunks_for_def unat_ucast_32_64)
  from save have local: "ce_faults cenv = no_faults" "to \<noteq> []" "disk_wf (cl_disk c)" "?tmp \<noteq> ?dest"
    "plain_path ?tmp" "node_at (cl_disk c) (butlast ?tmp) = Some Dir" "node_at (cl_disk c) ?tmp \<noteq> Some Dir"
    "plain_path ?dest" "node_at (cl_disk c) (butlast ?dest) = Some Dir" "node_at (cl_disk c) ?dest \<noteq> Some Dir"
    by (simp_all add: can_save_def Let_def temporary_name_def v_def rid_def)
  have ne: "?tmp \<noteq> []" "?dest \<noteq> []" using local(7,10) by auto
  note opened = open_no_faults [OF local(3,5) ne(1) local(6,7), of False, simplified]
  have wf1: "disk_wf (AList.update ?tmp (File []) (cl_disk c))" using local ne by (intro disk_wf_update) simp_all
  define c2 where "c2 = ?c1\<lparr>cl_disk := AList.update ?tmp (File []) (cl_disk c)\<rparr>"
  have d2: "disk_wf (cl_disk c2)" "node_at (cl_disk c2) ?tmp = Some (File [])" using wf1 ne(1) by (simp_all add: c2_def)
  have "downloading hosts env now client server cenv p rid m content d 0 (seen_by (server_of c2) c2)"
    using down by (simp add: downloading_def nodes.system_ok_def linked_def c2_def)
  from busy_download_loop [OF local(1) m(2) stored(2) _ _ fresh others _ this d2(1), of ?resp ?tmp ?tmp] d2(2)
  obtain c3 where c3: "read_chunks (busy_env others cenv) rid ?resp ?tmp ?tmp 0 c2 = (Inr (Inr ()), c3)"
    "disk_wf (cl_disk c3)" "node_at (cl_disk c3) ?tmp = Some (File content)"
    "\<forall>l. l \<noteq> ?tmp \<longrightarrow> node_at (cl_disk c3) l = node_at (cl_disk c2) l" by auto
  have "node_at (cl_disk c3) ?dest = node_at (cl_disk c) ?dest" using c3(4) local(4) ne by (simp add: c2_def)
  moreover have "node_at (cl_disk c3) (butlast ?dest) = Some Dir"
    using c3(4) local(7,9) ne by (cases "butlast ?dest = ?tmp") (simp_all add: c2_def)
  ultimately obtain d' where d': "fs_rename no_faults (cl_disk c3) ?tmp ?dest = (None, d')" "node_at d' ?dest = Some (File content)"
    using rename_no_faults [OF c3(2) local(5,8) ne(2) local(4) c3(3)] local(10) ne(2) by auto
  have never: "fails no_faults x l = False" for x l by (simp add: no_faults_def)
  have cenv: "ce_located (busy_env others cenv) = ce_located cenv" "ce_faults (busy_env others cenv) = no_faults"
    using local(1) by (simp_all add: busy_env_def)
  have "read_file (busy_env others cenv) p to c = (Inr (Inr ()), c3\<lparr>cl_disk := d'\<rparr>)"
    using busy v1(2) chunks local(2) opened c3(1) [unfolded c2_def] d'(1)
    by (simp add: read_file_def act_then_def next_id_def act_step_def Let_def rid_def [symmetric] c0_def [symmetric] open_output_def
        finish_read_def act_return_def never cenv)
  with d'(2) show ?thesis by simp
qed

section \<open>A busy cluster\<close>

text \<open>A metadata node that handles the request \<open>ev\<close> whenever it has time, unless a storage node sent it.\<close>

definition serve_also :: "nodes Env \<Rightarrow> ClientEvent \<Rightarrow> nodes MetadataNode \<Rightarrow> nodes MetadataNode" where
  "serve_also env ev s =
     (if worker_at (peer_id (ctx_sender (event_context ev))) (net_outside (mw_net (mn_worker s))) \<noteq> None then s
      else case handle env ev (mn_worker s) of (Inl _, _) \<Rightarrow> s | (Inr _, w) \<Rightarrow> s\<lparr>mn_worker := w\<rparr>)"

lemma serve_also_works:
  assumes "away p ev" "from_other c rid (event_context ev)" "time_fits (host_now (env_host env))"
  shows "works_for_others env p c rid (\<lambda>_. serve_also env ev)"
  unfolding works_for_others_def
proof (intro allI impI)
  fix s :: "nodes MetadataNode"
  have "handle (env\<lparr>env_host := env_host env\<rparr>) ev t = handle env ev t" for t by simp
  then show "meantime env p c rid (mn_worker s) (mn_worker (serve_also env ev s)) \<and> mn_jobs (serve_also env ev s) = mn_jobs s
    \<and> mn_stopping (serve_also env ev s) = mn_stopping s"
    using meantime.other [OF meantime.nothing_else assms(1,2) _ assms(3)]
    by (auto simp: serve_also_def intro: meantime.nothing_else split: prod.splits sum.splits)
qed

text \<open>The small cluster, where another client asks for a listing again and again.\<close>

definition listing :: ClientEvent where
  "listing = ListEvent \<lparr>lsq_path = ''g'', lsq_context = second_client\<rparr>"

definition busy_client :: "(nat \<times> nodes MetadataNode) Client" where
  "busy_client = seen_by (0, net_outside (cl_net system_0)) system_0"

abbreviation busy_sample :: "(nat \<times> nodes MetadataNode) ClientEnv" where
  "busy_sample \<equiv> busy_env (\<lambda>_. serve_also sample_cluster_env listing) sample_system_env"

lemma busy_client_seen: "seen_by (server_of busy_client) busy_client = system_0"
  by (simp add: busy_client_def seen_by_def)

lemma sample_unshared: "unshared sample_cluster_env ''g'' (peer_id sample_user) (current_id busy_client + 1) (worker_of system_0)"
proof -
  have "get_metadata ''g'' (mw_store (worker_of system_0)) = Inr empty_entry"
    by (simp add: get_metadata_def elems_plain valid_filename_iff good_key_def is_absolute_def slash_def extension_of_def
        sample_system_def sample_cluster_def)
  then have "own_object sample_cluster_env ''g'' (worker_of system_0) = (''a'', 0)"
    by (simp add: own_object_def) (simp add: empty_entry_def sample_system_def sample_cluster_def)
  moreover note sample_object(2)
  moreover have "entries_apart ''g'' ''a'' (name_space (mw_store (worker_of system_0)))"
    using sample_object(1) by (auto simp: entries_apart_def name_space_def sample_system_def sample_cluster_def anon_def empty_entry_def elems_plain slash_def)
  ultimately show ?thesis
    by (simp add: unshared_def uploads_apart_def reads_good_def) (simp add: sample_system_def sample_cluster_def find_pending_def)
qed

lemma listing_away: "works_for_others sample_cluster_env ''g'' (peer_id sample_user) rid (\<lambda>_. serve_also sample_cluster_env listing)"
  by (rule serve_also_works) (simp_all add: listing_def from_other_def second_client_def sample_user_def sample_env)

text \<open>Answering the listing changes neither the store, nor the transfers, nor the storage nodes.\<close>

lemma serve_listing:
  assumes "nodes.sound (net_outside (mw_net (mn_worker s)))" "env_outside env = nodes_outside hosts server"
  shows "mw_store (mn_worker (serve_also env listing s)) = mw_store (mn_worker s)
    \<and> pending_writes (mn_worker (serve_also env listing s)) = pending_writes (mn_worker s)
    \<and> (\<forall>r. worker_at r (net_outside (mw_net (mn_worker (serve_also env listing s)))) = worker_at r (net_outside (mw_net (mn_worker s))))"
proof (cases "worker_at ''c2'' (net_outside (mw_net (mn_worker s)))")
  case None
  obtain f where "handle env listing (mn_worker s) =
      (Inr (), (mn_worker s)\<lparr>mw_net := post_frame (env_outside env) ''c2'' f (mw_net (mn_worker s))\<rparr>)"
    by (simp add: listing_def handle_list_def act_then_def act_get_def second_client_def
        respond_run [where enc = encode_list_response, OF list_response.enc_frame])
  moreover have "serve_also env listing s = (case handle env listing (mn_worker s) of (Inl _, _) \<Rightarrow> s | (Inr _, w) \<Rightarrow> s\<lparr>mn_worker := w\<rparr>)"
    using None by (simp add: serve_also_def) (simp add: listing_def second_client_def None)
  moreover note nodes.sound_elsewhere [where hosts = hosts and self = server, OF assms(1) None, of f]
  ultimately show ?thesis by (simp add: post_frame_def assms(2) fun_eq_iff)
qed (simp add: serve_also_def listing_def second_client_def)

lemma busy_run: "\<exists>c'. write_file busy_sample ''f'' ''g'' busy_client = (Inr (Inr ()), c')"
proof -
  let ?env = sample_cluster_env and ?cenv = sample_system_env and ?others = "\<lambda>_ :: nat. serve_also sample_cluster_env listing"
  let ?size = "word_of_nat (length [1, 2, 3 :: byte]) :: u64"
  let ?q = "\<lparr>wfq_file_size = ?size, wfq_chunk_count = 1, wfq_path = ''g'', wfq_context = empty_context\<rparr>"
  let ?ok = "nodes.system_ok roomy_hosts sample_server ?env 5 sample_user sample_server ?cenv"
  define c0 where "c0 = busy_client\<lparr>current_id := 1\<rparr>"
  define v0 where "v0 = system_0\<lparr>current_id := 1\<rparr>"
  have v0: "v0 = seen_by (server_of c0) c0" by (simp add: v0_def c0_def busy_client_def seen_by_def)
  have same: "worker_of v0 = worker_of system_0" "current_id busy_client = 0" "cl_disk busy_client = cl_disk system_0"
    by (simp_all add: v0_def busy_client_def sample_system_def)
  have sys0: "?ok v0"
    using sample_cluster_ok unfolding cluster_system by (simp add: v0_def nodes.system_ok_def linked_def)
  have counts: "chunks_for 3 = 1" "chunks_expected 3 = 1" by code_simp+
  have start: "startable sample_host ''g'' (peer_id sample_user) 1 (worker_of v0)"
    using healthy_startable [OF sample_cluster_ok sample_upload_ready sample_healthy] unfolding same(1)
    by (simp add: sample_env) (simp add: sample_system_def)
  have ids: "good_id (md_obj_id m)" if "get_metadata ''g'' (mw_store (worker_of v0)) = Inr m" for m
    using sample_upload_ready that by (simp add: upload_ready_def same)
  from nodes.write_file_call [where content = "[1, 2, 3]" and p = "''g''" and rid = 1 and n = 1, OF sys0 _ _ _ ids] start obtain ctx v1 u where v1:
    "call ?cenv 1 WRITE_FILE match_any_body encode_write_file_request ?q decode_write_file_response v0
      = (Inr (Inr \<lparr>wfr_status = Success, wfr_context = ctx\<rparr>), v1)"
    and hd: "handled ?env 5 (with_context \<lparr>ctx_request_id = 1, ctx_sender = sample_user\<rparr> (WriteFileEvent ?q)) (write_file_frame 1 Success)
      (worker_of v0) (worker_of v1)"
    and ok: "?ok v1" "nodes.write_started ''g'' (peer_id sample_user) 1 [1, 2, 3] (worker_of v0) (worker_of v1)"
    and placed: "saveable (mw_store (worker_of v1)) ''g''"
      "(\<lambda>n. worker_at n (net_outside (mw_net (worker_of v1)))) = (\<lambda>n. worker_at n (net_outside (mw_net (worker_of v0))))"
    and u: "find_pending (peer_id sample_user) 1 (pending_writes (worker_of v1)) = Some u"
      "list_all (node_available (mw_nodes (worker_of v0))) [pd_replica_0 u, pd_replica_1 u]"
    by (auto simp: nul_free_def counts sample_env)
  let ?N = "serve_also ?env listing (net_outside (cl_net v1))"
  let ?c1 = "seen_by (Suc 0, ?N) v1"
  have env: "env_outside ?env = nodes_outside roomy_hosts sample_server" by (rule sample_env)
  have "\<exists>f. encode_write_file_request 1 ?q = Inr f" by (simp add: write_file_request.enc_frame)
  then obtain j where busy: "call busy_sample 1 WRITE_FILE match_any_body encode_write_file_request ?q decode_write_file_response c0
      = (Inr (Inr \<lparr>wfr_status = Success, wfr_context = ctx\<rparr>), seen_by (Suc j, ?N) v1)"
    using busy_call [OF _ v1 [unfolded v0]] by blast
  let ?c1 = "seen_by (Suc j, ?N) v1"
  have sound1: "nodes.sound (net_outside (mw_net (worker_of v1)))" using ok(1) by (simp add: nodes.system_ok_def nodes.at_rest_def)
  note kept = serve_listing [OF sound1 env]
  have free: "\<not> being_written ''g'' (pending_writes (worker_of v0))"
    using sample_upload_ready by (simp add: upload_ready_def same)
  have own: "unshared ?env ''g'' (peer_id sample_user) 1 (worker_of v0)"
    using sample_unshared unfolding same by simp
  from upload_begun [OF sys0 ok(1) _ free _ own listing_away hd ok(2)] obtain w where
    acc: "accepted roomy_hosts sample_server ?env ''g'' (peer_id sample_user) 1 [1, 2, 3] w (worker_of v1)"
    and inter: "interleaved ?env ''g'' (peer_id sample_user) 1 [1, 2, 3] (worker_of v1) 0 (mn_worker ?N)"
    and sysN: "?ok (seen_by ?N v1)" by (auto simp: nul_free_def)
  from acc u(1) have up: "pd_path u = ''g''" "nodes.upload_of [1, 2, 3] u 0" by (auto simp: accepted_def)
  have "nodes.fit_nodes roomy_hosts (worker_of v0)"
    using healthy_startable(2) [OF sample_cluster_ok sample_upload_ready sample_healthy] by (simp add: same)
  moreover have "nodes.sound (net_outside (mw_net (worker_of v0)))" using sys0 by (simp add: nodes.system_ok_def nodes.at_rest_def)
  ultimately have acc1: "nodes.accepting roomy_hosts (net_outside (mw_net (worker_of v1))) u 0"
    by (rule nodes.fit_accepting [OF _ _ placed(2) u(2)])
  then have accN: "nodes.accepting roomy_hosts (net_outside (mw_net (mn_worker ?N))) u 0" using kept by (simp add: nodes.accepting_def)
  have inv: "store_inv (mw_store (worker_of v1))" using ok(1) by (simp add: nodes.system_ok_def durable_def)
  have host: "host_faults (env_host ?env) = no_faults" using sample_healthy by (simp add: healthy_def)
  from update_saved [OF host inv placed(1)] kept
  have upd: "\<exists>st. update_metadata (env_host ?env) ''g'' x (mw_store (mn_worker ?N)) = (Inr (), st)" for x by auto
  let ?r = "\<lparr>wcq_chunk_index = word_of_nat 0, wcq_data = chunk 0 [1, 2, 3], wcq_context = empty_context\<rparr>"
  have staged: "nodes.staged_at e [1, 2, 3] u 0" for e by (simp add: nodes.staged_at_def)
  from nodes.write_chunk_call [where w = u and rid = 1, OF sysN _ up(2)] kept u(1) staged obtain st ctx' v2 where
    v2: "call ?cenv 1 WRITE_CHUNK (chunk_index_is (word_of_nat 0)) encode_write_chunk_request ?r decode_write_chunk_response (seen_by ?N v1)
      = (Inr (Inr \<lparr>wcr_chunk_index = word_of_nat 0, wcr_status = st, wcr_context = ctx'\<rparr>), v2)"
    and out: "nodes.chunk_outcome roomy_hosts (env_host ?env) [1, 2, 3] u 0 (peer_id sample_user) 1 (mn_worker ?N) st (worker_of v2)"
    by auto
  have st: "st = Success" using out accN upd up(1) by (auto simp: nodes.chunk_outcome_def Let_def)
  have "seen_by (server_of ?c1) ?c1 = seen_by ?N v1" by (simp add: seen_by_def)
  moreover have "\<exists>f. encode_write_chunk_request 1 ?r = Inr f" by (simp add: write_chunk_request.enc_frame)
  ultimately obtain c2 where c2: "call busy_sample 1 WRITE_CHUNK (chunk_index_is (word_of_nat 0)) encode_write_chunk_request ?r decode_write_chunk_response ?c1
      = (Inr (Inr \<lparr>wcr_chunk_index = word_of_nat 0, wcr_status = Success, wcr_context = ctx'\<rparr>), c2)"
    using busy_call [of encode_write_chunk_request 1 ?r _ ?cenv WRITE_CHUNK "chunk_index_is (word_of_nat 0)" decode_write_chunk_response ?c1] v2 st
    by metis
  have faults: "fails (ce_faults busy_sample) x l = False" for x l by (simp add: busy_env_def sample_system_env_def no_faults_def)
  have bytes: "take (unat CHUNK_SIZE) [1, 2, 3 :: byte] = chunk 0 [1, 2, 3]" "chunk 0 [1, 2, 3 :: byte] = [1, 2, 3]"
    by (simp_all add: chunk_def CHUNK_SIZE_nat)
  have "write_chunks busy_sample 1 1 (ce_located busy_sample ''f'') [1, 2, 3] 0 ?c1 = (Inr (Inr ()), c2)"
    using c2 bytes by (subst write_chunks.simps) (simp add: Let_def faults act_then_def write_chunks.simps [of _ _ 1 _ _ 1] act_return_def)
  moreover have "next_id busy_client = (Inr 1, c0)" by (simp add: next_id_def act_step_def Let_def c0_def same)
  moreover have "open_local busy_sample (ce_located busy_sample ''f'') c0 = (Inr (Inr [1, 2, 3]), c0)"
    using sample_upload_ready by (simp add: upload_ready_def open_local_def c0_def busy_env_def same sample_system_env_def no_faults_def)
  moreover have "\<not> (1 :: u64) > ucast (- 1 :: u32)" by code_simp
  ultimately show ?thesis
    using busy by (intro exI [of _ c2]) (simp add: write_file_def Let_def act_then_def counts)
qed

text \<open>The same cluster with a file of three bytes on both storage nodes.\<close>

definition full_entry :: FileMetadata where
  "full_entry = empty_entry\<lparr>md_size := 3\<rparr>"

definition full_node :: StorageNode where
  "full_node = spare_node\<lparr>sn_worker := (sn_worker spare_node)\<lparr>sw_disk := [([''o''], Dir), ([''o'', ''a''], File [1, 2, 3])]\<rparr>\<rparr>"

definition full_cluster :: "nodes MetadataNode" where
  "full_cluster = (sample_cluster [] [])\<lparr>mn_worker := (mn_worker (sample_cluster [] []))\<lparr>
     mw_store := \<lparr>ms_disk = [([''d''], Dir), ([''d'', ''g''], File (metadata_bytes full_entry))], ms_directory = [''d''], ms_data = [([''g''], full_entry)]\<rparr>,
     mw_net := \<lparr>net_queue = [], net_sent = [], net_outside = [(''s1'', full_node), (''s2'', full_node)]\<rparr>\<rparr>\<rparr>"

abbreviation system_2 :: "nodes MetadataNode Client" where
  "system_2 \<equiv> sample_system 0 [] full_cluster"

definition busy_reader :: "(nat \<times> nodes MetadataNode) Client" where
  "busy_reader = seen_by (0, net_outside (cl_net system_2)) system_2"

lemma busy_reader_seen: "seen_by (server_of busy_reader) busy_reader = system_2"
  by (simp add: busy_reader_def seen_by_def)

lemma full_entry_store: "store_inv \<lparr>ms_disk = [([''d''], Dir), ([''d'', ''g''], File (metadata_bytes full_entry))],
    ms_directory = [''d''], ms_data = [([''g''], full_entry)]\<rparr>"
proof -
  have "elems ''g'' = [''g'']" by (simp add: elems_plain slash_def)
  moreover have "good_key [''g'']" by (simp add: good_key_def slash_def extension_of_def)
  moreover have "\<not> good_key []" by (simp add: good_key_def)
  ultimately show ?thesis
    unfolding store_inv_def stored_file_def
    by (auto simp: disk_wf_def node_at_def slash_def md_ok_def full_entry_def empty_entry_def nul_free_def time_fits_def signed_divide_int_def)
qed

lemma full_cluster_ok: "cluster_ok roomy_hosts sample_cluster_env 5 sample_user sample_server sample_system_env system_2"
  using sample_cluster_ok full_entry_store
  by (simp add: cluster_ok_def sample_system_def full_cluster_def full_node_def idle_def all_resting_def resting_def
      spare_node_def worker_inv_def disk_wf_def node_at_def worker_ok_def durable_def slash_def sample_user_def)

lemma full_entry_found: "get_metadata ''g'' (mw_store (worker_of system_2)) = Inr full_entry"
  by (simp add: get_metadata_def elems_plain valid_filename_iff good_key_def is_absolute_def slash_def extension_of_def
      sample_system_def full_cluster_def)

lemma full_stored: "file_on_replicas ''g'' [1, 2, 3] system_2"
proof -
  have "describes full_entry [1, 2, 3]" using sample_object(1) by (simp add: describes_def full_entry_def empty_entry_def count_chunks_def)
  moreover have "\<not> being_written ''g'' (pending_writes (worker_of system_2))"
    by (simp add: sample_system_def full_cluster_def sample_cluster_def being_written_def)
  moreover have "\<exists>v. worker_at r (storage_nodes system_2) = Some v \<and> committed v (md_obj_id full_entry) = Some [1, 2, 3]"
    if "r \<in> {md_replica_0 full_entry, md_replica_1 full_entry}" for r
    using that by (auto simp: full_entry_def empty_entry_def sample_system_def full_cluster_def worker_at_def full_node_def spare_node_def
        committed_def object_path_def file_in_def node_at_def)
  ultimately show ?thesis by (auto simp: file_on_replicas_def full_entry_found)
qed

lemma full_unshared: "unshared sample_cluster_env ''g'' (peer_id sample_user) 1 (worker_of system_2)"
proof -
  have "own_object sample_cluster_env ''g'' (worker_of system_2) = (''a'', 0)"
    by (simp add: own_object_def full_entry_found) (simp add: full_entry_def empty_entry_def sample_system_def full_cluster_def sample_cluster_def)
  moreover note sample_object(2)
  moreover have "entries_apart ''g'' ''a'' (name_space (mw_store (worker_of system_2)))"
    using sample_object(1) by (auto simp: entries_apart_def name_space_def sample_system_def full_cluster_def anon_def full_entry_def empty_entry_def elems_plain slash_def)
  ultimately show ?thesis
    by (simp add: unshared_def uploads_apart_def reads_good_def) (simp add: sample_system_def full_cluster_def sample_cluster_def find_pending_def)
qed

lemma full_left: "replica_left roomy_hosts 5 ''g'' system_2"
proof -
  have "seen_recently 5 (mw_nodes (worker_of system_2)) ''s1''"
    by (simp add: seen_recently_def node_available_def map_of_timeouts timed_out_def heartbeat_timeout_def sample_system_def full_cluster_def sample_cluster_def)
  moreover have "worker_at ''s1'' (storage_nodes system_2) \<noteq> None" by (simp add: sample_system_def full_cluster_def worker_at_def)
  moreover have "readable (roomy_hosts n s)" for n s by (simp add: readable_def roomy_hosts_def no_faults_def)
  ultimately show ?thesis by (auto simp: replica_left_def full_entry_found full_entry_def empty_entry_def)
qed

lemma serve_also_seen: "keeps_seen now (\<lambda>_. serve_also env ev)"
  by (auto simp: keeps_seen_def serve_also_def split: prod.splits sum.splits dest: passesD [OF handle_seen])

section \<open>The property\<close>

text \<open>C5. Clients do not disturb each other's uploads. A client uploads a file while the metadata node
  handles, between any two of its requests, any requests of other clients that do not create,
  upload or remove the path, nor rename it, a directory above it or anything onto them, counts heartbeats and times nodes
  out. If this client sees its upload succeed, then the path has an entry of the right size,
  nobody is writing it, and both replicas, two different nodes that run, have exactly the bytes
  of the client's file, whichever calls fail on any host; provided that the object of the upload
  is no other file's and that object ids drawn later differ from it.\<close>

theorem concurrent_upload_replicated:
  fixes c :: "(nat \<times> nodes MetadataNode) Client"
  assumes "cluster_ok hosts env now client server cenv (seen_by (server_of c) c)"
    and "upload_ready cenv (seen_by (server_of c) c) src p content" "content \<noteq> []"
    and "unshared env p (peer_id client) (current_id c + 1) (mn_worker (server_of c))"
    and "works_for_others env p (peer_id client) (current_id c + 1) others"
    and "write_file (busy_env others cenv) src p c = (Inr (Inr ()), c')"
  shows "\<not> being_written p (pending_writes (mn_worker (server_of c')))
    \<and> (\<exists>m. get_metadata p (mw_store (mn_worker (server_of c'))) = Inr m \<and> md_size m = word_of_nat (length content)
        \<and> md_replica_0 m \<noteq> md_replica_1 m
        \<and> (\<forall>r \<in> {md_replica_0 m, md_replica_1 m}. \<exists>v. worker_at r (net_outside (mw_net (mn_worker (server_of c')))) = Some v
            \<and> committed v (md_obj_id m) = Some content))"
proof -
  have own: "unshared env p (peer_id client) (current_id c + 1) (worker_of (seen_by (server_of c) c))" using assms(4) by simp
  from busy_upload [OF assms(1-3) own assms(5,6)] obtain w s where
    "accepted hosts server env p (peer_id client) (current_id c + 1) content w s"
    "interleaved env p (peer_id client) (current_id c + 1) content s (count_chunks (length content)) (mn_worker (server_of c'))" by blast
  from interleaved_stored [OF this] assms(3) show ?thesis by (auto simp: nodes.stored_at_def describes_def)
qed

theorem concurrent_upload_replicated_witness:
  "\<exists>c' m. write_file busy_sample ''f'' ''g'' busy_client = (Inr (Inr ()), c')
    \<and> get_metadata ''g'' (mw_store (mn_worker (server_of c'))) = Inr m \<and> md_size m = 3
    \<and> (\<exists>v. worker_at (md_replica_1 m) (net_outside (mw_net (mn_worker (server_of c')))) = Some v
        \<and> committed v (md_obj_id m) = Some [1, 2, 3])"
proof -
  obtain c' where c': "write_file busy_sample ''f'' ''g'' busy_client = (Inr (Inr ()), c')" using busy_run by blast
  have "unshared sample_cluster_env ''g'' (peer_id sample_user) (current_id busy_client + 1) (mn_worker (server_of busy_client))"
    using sample_unshared by (simp add: busy_client_def)
  from concurrent_upload_replicated [OF sample_cluster_ok [folded busy_client_seen] sample_upload_ready [folded busy_client_seen] _ this
      listing_away c'] c'
  show ?thesis by auto
qed

text \<open>C7. Downloads succeed beside the work of others. A file is on its replicas, nobody is writing it
  and its object is no other file's. A client downloads it while the metadata node handles,
  between any two of its requests, any requests of other clients that do not create, upload or
  remove the path, nor rename it, a directory above it or anything onto them. If one replica runs,
  can be read and has been heard of in time, which the other work does not change, and the
  client's disk works, then the download succeeds and leaves exactly the file's bytes there.\<close>

theorem concurrent_download_succeeds:
  fixes c :: "(nat \<times> nodes MetadataNode) Client"
  assumes "cluster_ok hosts env now client server cenv (seen_by (server_of c) c)" "nul_free p" "length p < 2 ^ 31"
    and "file_on_replicas p content (seen_by (server_of c) c)" "content \<noteq> []"
    and "replica_left hosts now p (seen_by (server_of c) c)" "can_save cenv (seen_by (server_of c) c) to"
    and "unshared env p (peer_id client) (current_id c + 1) (mn_worker (server_of c))"
    and "find_pending (peer_id client) (current_id c + 1) (pending_reads (mn_worker (server_of c))) = None"
    and "works_for_others env p (peer_id client) (current_id c + 1) others" "keeps_seen now others"
  shows "\<exists>c'. read_file (busy_env others cenv) p to c = (Inr (Inr ()), c') \<and> node_at (cl_disk c') (ce_located cenv to) = Some (File content)"
  by (rule busy_download [OF assms(1-6) _ _ assms(10,11,7)]) (use assms(8,9) in simp_all)

theorem concurrent_download_succeeds_witness:
  "\<exists>c'. read_file busy_sample ''g'' ''r'' busy_reader = (Inr (Inr ()), c') \<and> node_at (cl_disk c') [''w'', ''r''] = Some (File [1, 2, 3])"
proof -
  have id: "current_id busy_reader + 1 = 1" "mn_worker (server_of busy_reader) = worker_of system_2"
    by (simp_all add: busy_reader_def sample_system_def)
  have "temporary_name 1 ''r'' = ''r.dfs-read-1.tmp''" by (simp add: temporary_name_def) code_simp
  then have save: "can_save sample_system_env system_2 ''r''"
    by (simp add: can_save_def sample_system_env_def sample_system_def disk_wf_def node_at_def plain_path_def slash_def)
  have reads: "find_pending (peer_id sample_user) 1 (pending_reads (worker_of system_2)) = None"
    by (simp add: find_pending_def sample_system_def full_cluster_def sample_cluster_def)
  have "\<exists>c'. read_file busy_sample ''g'' ''r'' busy_reader = (Inr (Inr ()), c')
      \<and> node_at (cl_disk c') (ce_located sample_system_env ''r'') = Some (File [1, 2, 3])"
    by (rule concurrent_download_succeeds [OF full_cluster_ok [folded busy_reader_seen] _ _ full_stored [folded busy_reader_seen] _
          full_left [folded busy_reader_seen] save [folded busy_reader_seen] _ _ listing_away serve_also_seen])
      (simp_all add: nul_free_def id full_unshared reads)
  then show ?thesis by (simp add: sample_system_env_def)
qed

end
