(* ===== verification/Timeouts.thy ===== *)
theory Timeouts
  imports Availability
begin

text \<open>
  Requests that time out. A client waits three seconds for a response; the metadata node may
  handle the request all the same, with the response arriving later, or never get it. What the
  client is told of its changes of the name space, and what became of them.
\<close>

section \<open>A slow network\<close>

text \<open>
  What becomes of a request: it is answered in time; or it is handled, before or after the client
  gives up, and the response arrives after that; or it is lost on the way. Requests of one
  client are handled in the order they are sent, so whether a late one is handled before or
  after the client gave up makes no difference to anyone, but for the queue in which the response
  is found.
\<close>

datatype fate = Prompt | Slow | Lost

text \<open>
  The world outside a client behind such a network: the number of requests sent, the messages
  under way to the client, and the server.
\<close>

record 'x line =
  line_sent :: nat
  line_late :: "Message queue"
  line_server :: 'x

definition slow_outside :: "(nat \<Rightarrow> fate) \<Rightarrow> 'x Outside \<Rightarrow> 'x line Outside" where
  "slow_outside fates out = \<lparr>
     deliver = (\<lambda>n f l. l\<lparr>line_sent := line_sent l + 1,
       line_server := (if fates (line_sent l) = Lost then line_server l else deliver out n f (line_server l))\<rparr>),
     meanwhile = (\<lambda>q l. case meanwhile out [] (line_server l) of (arrived, s) \<Rightarrow>
       if fates (line_sent l - 1) = Slow then (q @ line_late l, l\<lparr>line_late := arrived, line_server := s\<rparr>)
       else (q @ line_late l @ arrived, l\<lparr>line_late := [], line_server := s\<rparr>))\<rparr>"

definition slow_env :: "(nat \<Rightarrow> fate) \<Rightarrow> 'x ClientEnv \<Rightarrow> 'x line ClientEnv" where
  "slow_env fates env = \<lparr>ce_outside = slow_outside fates (ce_outside env), ce_faults = ce_faults env, ce_located = ce_located env\<rparr>"

text \<open>The client with its server and nothing between them, and what is between them.\<close>

definition caught_up :: "'x line Client \<Rightarrow> 'x Client" where
  "caught_up c = \<lparr>current_id = current_id c, cl_metadata_node = cl_metadata_node c, cl_disk = cl_disk c,
     cl_net = \<lparr>net_queue = [], net_sent = net_sent (cl_net c), net_outside = line_server (net_outside (cl_net c))\<rparr>\<rparr>"

definition backlog :: "'x line Client \<Rightarrow> Message list" where
  "backlog c = net_queue (cl_net c) @ line_late (net_outside (cl_net c))"

abbreviation next_fate :: "(nat \<Rightarrow> fate) \<Rightarrow> 'x line Client \<Rightarrow> fate" where
  "next_fate fates c \<equiv> fates (line_sent (net_outside (cl_net c)))"

lemma caught_up_sel [simp]:
  "current_id (caught_up c) = current_id c" "cl_metadata_node (caught_up c) = cl_metadata_node c" "cl_disk (caught_up c) = cl_disk c"
  "net_queue (cl_net (caught_up c)) = []" "net_outside (cl_net (caught_up c)) = line_server (net_outside (cl_net c))"
  by (simp_all add: caught_up_def)

lemma pop_if_behind:
  "list_all (\<lambda>m. \<not> P m) xs \<Longrightarrow> pop_if P (xs @ ys) = (case pop_if P ys of (m, zs) \<Rightarrow> (m, xs @ zs))"
  by (induction xs) (auto simp: pop_if_def Let_def)

section \<open>One exchange\<close>

text \<open>
  An exchange over the slow network is one with the server alone, whose result the client may
  not see; what stays behind is an answer to this request or was there before.
\<close>

lemma slow_call:
  fixes enc :: "u64 \<Rightarrow> 'q \<Rightarrow> exn + Frame" and dec :: "ClientRpcMessage \<Rightarrow> exn + 'r" and c :: "'x line Client"
    and rid :: u64 and job :: ClientJob and bp :: "bool get"
  defines "P \<equiv> make_message_is client_rpc rid job Response (cl_metadata_node c) bp"
  assumes f: "enc rid q = Inr f" and old: "list_all (\<lambda>m. \<not> P m) (backlog c)"
    and lost: "meanwhile (ce_outside env) [] (line_server (net_outside (cl_net c))) = ([], s0)"
    and run: "call env rid job bp enc q dec (caught_up c) = (Inr (Inr r), v)"
  shows "\<exists>c' m. call (slow_env fates env) rid job bp enc q dec c = (Inr (if next_fate fates c = Prompt then Inr r else Inl ErrTimeout), c')
    \<and> current_id c' = current_id c \<and> cl_metadata_node c' = cl_metadata_node c
    \<and> line_sent (net_outside (cl_net c')) = Suc (line_sent (net_outside (cl_net c)))
    \<and> line_server (net_outside (cl_net c')) = (if next_fate fates c = Lost then s0 else net_outside (cl_net v))
    \<and> set (backlog c') \<subseteq> set (backlog c) \<union> set (net_queue (cl_net v)) \<union> {m} \<and> P m"
proof -
  let ?l = "net_outside (cl_net c)" and ?i = "line_sent (net_outside (cl_net c))" and ?node = "cl_metadata_node c"
  note runs = call_run [where encoder = enc and rid = rid and q = q, OF f] await_if_def post_frame_def
  obtain arrived s where arrived: "meanwhile (ce_outside env) [] (deliver (ce_outside env) ?node f (line_server ?l)) = (arrived, s)"
    by fastforce
  obtain msg rest where pop: "pop_if P arrived = (msg, rest)" by fastforce
  from run arrived pop obtain m where m: "msg = Some m" and read: "and_then (read_message client_rpc m) (\<lambda>rpc. and_then (dec rpc) (\<lambda>r. Inr (Inr r))) = (Inr (Inr r) :: exn + ClientError + 'r)"
    and v: "net_queue (cl_net v) = rest" "net_outside (cl_net v) = s"
    by (auto simp: runs P_def split: option.splits)
  from pop_if_Some [OF pop [unfolded m]] have P: "P m" and sub: "set arrived \<subseteq> insert m (set rest)" by auto
  have late: "pop_if P (net_queue (cl_net c) @ line_late ?l) = (None, net_queue (cl_net c) @ line_late ?l)"
    using old by (simp add: backlog_def pop_if_def list_ex_iff list_all_iff)
  have now: "pop_if P (net_queue (cl_net c) @ line_late ?l @ arrived) = (Some m, net_queue (cl_net c) @ line_late ?l @ rest)"
    using pop_if_behind [OF old, of arrived] pop m by (simp add: backlog_def)
  define c' where "c' = (case fates ?i of
      Prompt \<Rightarrow> c\<lparr>cl_net := \<lparr>net_queue = net_queue (cl_net c) @ line_late ?l @ rest, net_sent = net_sent (cl_net c) @ [(?node, f)],
        net_outside = \<lparr>line_sent = Suc ?i, line_late = [], line_server = s\<rparr>\<rparr>\<rparr>
    | Slow \<Rightarrow> c\<lparr>cl_net := \<lparr>net_queue = net_queue (cl_net c) @ line_late ?l, net_sent = net_sent (cl_net c) @ [(?node, f)],
        net_outside = \<lparr>line_sent = Suc ?i, line_late = arrived, line_server = s\<rparr>\<rparr>\<rparr>
    | Lost \<Rightarrow> c\<lparr>cl_net := \<lparr>net_queue = net_queue (cl_net c) @ line_late ?l, net_sent = net_sent (cl_net c) @ [(?node, f)],
        net_outside = \<lparr>line_sent = Suc ?i, line_late = [], line_server = s0\<rparr>\<rparr>\<rparr>)"
  have call: "call (slow_env fates env) rid job bp enc q dec c = (Inr (if fates ?i = Prompt then Inr r else Inl ErrTimeout), c')"
  proof (cases "fates ?i")
    case Prompt
    with arrived now read show ?thesis
      by (cases c, cases "cl_net c", cases ?l) (simp add: runs slow_env_def slow_outside_def P_def c'_def)
  next
    case Slow
    with arrived late show ?thesis
      by (cases c, cases "cl_net c", cases ?l) (simp add: runs slow_env_def slow_outside_def P_def c'_def)
  next
    case Lost
    with lost late show ?thesis
      by (cases c, cases "cl_net c", cases ?l) (simp add: runs slow_env_def slow_outside_def P_def c'_def)
  qed
  show ?thesis
    by (intro exI [of _ c'] exI [of _ m] conjI call P)
      (use v sub in \<open>auto simp: c'_def backlog_def split: fate.splits\<close>)
qed

lemma call_error:
  assumes "call env rid job bp enc q dec c = (Inr (Inl e), v)"
  shows "e = ErrTimeout"
proof (cases "enc rid q")
  case (Inl x)
  with assms show ?thesis by (simp add: call_def act_then_def act_lift_def)
next
  case (Inr f)
  from assms show ?thesis
    unfolding call_run [where encoder = enc and rid = rid and q = q, OF Inr]
    by (auto simp: and_then_def split: prod.splits option.splits sum.splits)
qed

lemma slow_simple_call:
  fixes enc :: "u64 \<Rightarrow> 'q \<Rightarrow> exn + Frame" and dec :: "ClientRpcMessage \<Rightarrow> exn + 'r" and c :: "'x line Client"
  assumes run: "simple_call env job enc q dec status_of value_of (caught_up c) = (Inr x, v)" "x \<noteq> Inl ErrTimeout"
    and old: "list_all (\<lambda>m. \<not> make_message_is client_rpc (current_id c + 1) job Response (cl_metadata_node c) match_any_body m) (backlog c)"
    and lost: "meanwhile (ce_outside env) [] (line_server (net_outside (cl_net c))) = ([], s0)"
  shows "\<exists>c' m. simple_call (slow_env fates env) job enc q dec status_of value_of c =
      (Inr (if next_fate fates c = Prompt then x else Inl ErrTimeout), c')
    \<and> current_id c' = current_id c + 1 \<and> cl_metadata_node c' = cl_metadata_node c
    \<and> line_sent (net_outside (cl_net c')) = Suc (line_sent (net_outside (cl_net c)))
    \<and> line_server (net_outside (cl_net c')) = (if next_fate fates c = Lost then s0 else net_outside (cl_net v))
    \<and> set (backlog c') \<subseteq> set (backlog c) \<union> set (net_queue (cl_net v)) \<union> {m}
    \<and> make_message_is client_rpc (current_id c + 1) job Response (cl_metadata_node c) match_any_body m"
proof -
  let ?rid = "current_id c + 1"
  let ?c = "c\<lparr>current_id := ?rid\<rparr>"
  have up: "caught_up ?c = (caught_up c)\<lparr>current_id := ?rid\<rparr>" and log: "backlog ?c = backlog c"
    by (simp_all add: caught_up_def backlog_def)
  obtain res u where res: "call env ?rid job match_any_body enc q dec (caught_up ?c) = (res, u)" by fastforce
  from run(1) res obtain y where y: "res = Inr y"
    and x: "(case y of Inl e \<Rightarrow> Inl e | Inr response \<Rightarrow> by_status (status_of response) (value_of response)) = x" "u = v"
    by (auto simp: simple_call_def act_then_def next_id_def act_step_def Let_def act_return_def up split: sum.splits)
  with run(2) call_error res obtain r where r: "y = Inr r" by (cases y) auto
  from res y r x(2) have ok: "call env ?rid job match_any_body enc q dec (caught_up ?c) = (Inr (Inr r), v)" by simp
  then obtain f where f: "enc ?rid q = Inr f"
    by (cases "enc ?rid q") (simp_all add: call_def act_then_def act_lift_def)
  from slow_call [where c = ?c and rid = ?rid and job = job and bp = match_any_body and fates = fates, OF f _ _ ok, of s0] old lost
  obtain c' m where "call (slow_env fates env) ?rid job match_any_body enc q dec ?c = (Inr (if next_fate fates c = Prompt then Inr r else Inl ErrTimeout), c')"
    "current_id c' = ?rid" "cl_metadata_node c' = cl_metadata_node c"
    "line_sent (net_outside (cl_net c')) = Suc (line_sent (net_outside (cl_net c)))"
    "line_server (net_outside (cl_net c')) = (if next_fate fates c = Lost then s0 else net_outside (cl_net v))"
    "set (backlog c') \<subseteq> set (backlog c) \<union> set (net_queue (cl_net v)) \<union> {m}"
    "make_message_is client_rpc ?rid job Response (cl_metadata_node c) match_any_body m"
    by (auto simp: log)
  with r x(1) show ?thesis
    by (intro exI [of _ c'] exI [of _ m])
      (auto simp: simple_call_def act_then_def next_id_def act_step_def Let_def act_return_def)
qed

text \<open>A message answers one request only; the \<open>k\<close>-th after \<open>b\<close> and earlier ones are over.\<close>

definition overdue :: "NodeId \<Rightarrow> u64 \<Rightarrow> nat \<Rightarrow> Message \<Rightarrow> bool" where
  "overdue node b k m \<longleftrightarrow> (\<forall>n job. k < n \<longrightarrow> n < 2 ^ 64 \<longrightarrow>
     \<not> make_message_is client_rpc (b + word_of_nat n) job Response node match_any_body m)"

lemma answers_one:
  "make_message_is T rid job kind sender bp m \<Longrightarrow> make_message_is T rid' job' kind' sender' bp' m \<Longrightarrow> rid = rid'"
  by (auto simp: make_message_is_def decoded_def and_then_def get_then_def get_return_def split: if_splits sum.splits)

lemma overdue_later: "overdue node b k m \<Longrightarrow> overdue node b (Suc k) m"
  by (simp add: overdue_def)

lemma overdue_quiet: "quiet_queue q \<Longrightarrow> m \<in> set q \<Longrightarrow> overdue node b k m"
  using quiet_unmatched by (fastforce simp: overdue_def list_all_iff)

lemma overdue_answer:
  assumes "make_message_is client_rpc (b + word_of_nat k) job Response node match_any_body m" "k < 2 ^ 64"
  shows "overdue node b k m"
  unfolding overdue_def
proof (intro allI impI notI)
  fix n job'
  assume n: "k < n" "n < 2 ^ 64" and "make_message_is client_rpc (b + word_of_nat n) job' Response node match_any_body m"
  with answers_one [OF assms(1)] have "(word_of_nat k :: u64) = word_of_nat n" by (metis add_left_cancel)
  then have "unat (word_of_nat k :: u64) = unat (word_of_nat n :: u64)" by simp
  with assms(2) n show False by (simp add: unsigned_of_nat take_bit_nat_eq_self)
qed

section \<open>Operations that change the name space\<close>

datatype client_op = Change remote_op | Erase path

fun carry_out :: "'e ClientEnv \<Rightarrow> client_op \<Rightarrow> ('e, unit) client_act" where
  "carry_out env (Change op) = perform env op"
| "carry_out env (Erase p) = client_remove env p"

fun op_ok :: "client_op \<Rightarrow> bool" where
  "op_ok (Change op) \<longleftrightarrow> sendable (op_event op)"
| "op_ok (Erase p) \<longleftrightarrow> nul_free p \<and> length p < 2 ^ 31"

text \<open>What an operation does to the name space when it is done, and how many object ids it draws in any case.\<close>

fun effect :: "'x Env \<Rightarrow> nat \<Rightarrow> client_op \<Rightarrow> (string list \<Rightarrow> FileMetadata option) \<Rightarrow> string list \<Rightarrow> FileMetadata option" where
  "effect env i (Change op) ns = spec_call (host_now (env_host env)) (op_call (drawn_id env i) op) ns"
| "effect env i (Erase p) ns = ns(elems p := None)"

fun draws :: "client_op \<Rightarrow> nat" where
  "draws (Change op) = op_draws op"
| "draws (Erase p) = 0"

text \<open>Entries with replicas have ids that the storage nodes take for names of objects.\<close>

definition ids_good :: "(string list \<Rightarrow> FileMetadata option) \<Rightarrow> bool" where
  "ids_good ns \<longleftrightarrow> (\<forall>k m. ns k = Some m \<longrightarrow> md_replica_0 m = [] \<or> good_id (md_obj_id m))"

lemma effect_ids: "ids_good ns \<Longrightarrow> ids_good (effect env i op ns)"
proof (cases op)
  case (Change r)
  assume ok: "ids_good ns"
  show ?thesis
  proof (cases r)
    case (Create p)
    with Change ok show ?thesis by (simp add: ids_good_def stamped_def file_entry_def anon_def)
  next
    case (Move p q)
    with Change ok show ?thesis by (auto simp: ids_good_def split: option.split)
  qed (use Change ok in simp)
qed (simp add: ids_good_def)

lemma ids_good_bound: "ids_good (name_space st) \<Longrightarrow> bound_ids_good p st"
  by (fastforce simp: ids_good_def bound_ids_good_def name_space_def anon_def get_metadata_def split: sum.split option.splits if_splits)

lemma change_done:
  fixes c :: "nodes MetadataNode Client"
  assumes sys: "cluster_ok hosts env now client server cenv c" and q: "net_queue (cl_net c) = []" and ok: "sendable (op_event op)"
  shows "\<exists>x c'. perform cenv op c = (Inr x, c') \<and> x \<noteq> Inl ErrTimeout \<and> cluster_ok hosts env now client server cenv c'
    \<and> mw_draws (worker_of c') = mw_draws (worker_of c) + op_draws op
    \<and> name_space (mw_store (worker_of c')) = (if x = Inr ()
        then effect env (mw_draws (worker_of c)) (Change op) (name_space (mw_store (worker_of c))) else name_space (mw_store (worker_of c)))"
proof -
  let ?w = "worker_of c" and ?dir = "ms_directory (mw_store (worker_of c))"
  have conn: "connected env now client server cenv c" using sys q by (simp add: cluster_ok_def connected_def)
  have time: "time_fits (host_now (env_host env))" and inv: "store_inv (mw_store ?w)" "worker_ok ?w" "durable ?dir ?w"
    and rest: "nodes.at_rest (peer_id client) ?w" and out: "env_outside env = nodes_outside hosts server"
    using sys unfolding cluster_system by (simp_all add: nodes.system_ok_def durable_def)
  obtain r st where call: "call_store (env_host env) (op_call (drawn_id env (mw_draws ?w)) op) (mw_store ?w) = (r, st)" by fastforce
  from call_outcome [OF call inv(1) op_call_ok time] have st:
    "name_space st = (if r = Inr () then effect env (mw_draws ?w) (Change op) (name_space (mw_store ?w)) else name_space (mw_store ?w))"
    by simp
  from perform_op [OF conn ok call] obtain c' w g where run: "perform cenv op c = (Inr (by_status (client_status_of r) ()), c')"
    "connected env now client server cenv c'"
    and w: "handle env (with_context \<lparr>ctx_request_id = current_id c + 1, ctx_sender = client\<rparr> (op_event op)) ?w = (Inr (), w)"
    "worker_of c' = w\<lparr>mw_nodes := check_heartbeat_timeouts now (mw_nodes w)\<rparr>" "mw_store w = st"
    "mw_draws w = mw_draws ?w + op_draws op" "mw_net w = post_frame (env_outside env) (peer_id client) g (mw_net ?w)"
    by blast
  have "worker_ok w" using passesD [OF handle_ok inv(2) w(1)] .
  moreover have "durable ?dir w" using passesD [OF handle_durable [OF time] inv(3) w(1)] .
  moreover from this have "ms_directory (mw_store w) = ?dir" by (simp add: durable_def)
  moreover have "nodes.at_rest (peer_id client) w"
  proof -
    have "nodes.sound (storage_nodes c)" "worker_at (peer_id client) (storage_nodes c) = None"
      using rest by (simp_all add: nodes.at_rest_def)
    note post = nodes.sound_elsewhere [OF this, THEN conjunct1] nodes.sound_elsewhere [OF this, THEN conjunct2, THEN fun_cong]
    show ?thesis using rest post out by (simp add: nodes.at_rest_def w(5) post_frame_def)
  qed
  ultimately have "nodes.system_ok hosts server env now client server cenv c'"
    using run(2) out time w(2)
    by (simp add: nodes.system_ok_def linked_def connected_def quiet_queue_def worker_ok_def durable_def nodes.at_rest_def)
  moreover have "by_status (client_status_of r) () \<noteq> Inl ErrTimeout"
    by (cases r rule: client_status_of.cases) (simp_all add: by_status_def)
  ultimately show ?thesis
    using run(1) w(2-4) st by (intro exI [of _ "by_status (client_status_of r) ()"] exI [of _ c']) (simp add: cluster_system status_of_result)
qed

lemma op_done:
  fixes c :: "nodes MetadataNode Client"
  assumes sys: "cluster_ok hosts env now client server cenv c" and q: "net_queue (cl_net c) = []" and ok: "op_ok op"
    and ids: "ids_good (name_space (mw_store (worker_of c)))"
  shows "\<exists>x c'. carry_out cenv op c = (Inr x, c') \<and> x \<noteq> Inl ErrTimeout \<and> cluster_ok hosts env now client server cenv c'
    \<and> mw_draws (worker_of c') = mw_draws (worker_of c) + draws op
    \<and> name_space (mw_store (worker_of c')) = (if x = Inr ()
        then effect env (mw_draws (worker_of c)) op (name_space (mw_store (worker_of c))) else name_space (mw_store (worker_of c)))"
proof (cases op)
  case (Change r)
  with ok have "sendable (op_event r)" by simp
  from change_done [OF sys q this] show ?thesis unfolding Change carry_out.simps draws.simps .
next
  case (Erase p)
  with ok have p: "nul_free p" "length p < 2 ^ 31" by simp_all
  from removal_outcome [OF sys p ids_good_bound [OF ids]] obtain st c' where c': "client_remove cenv p c = (Inr (by_status st ()), c')"
    "cluster_ok hosts env now client server cenv c'" "mw_draws (worker_of c') = mw_draws (worker_of c)"
    "nodes.settled p (peer_id client) (worker_of c) st (worker_of c')" by blast
  have "by_status st () = Inr () \<longleftrightarrow> st = Success" "by_status st () \<noteq> Inl ErrTimeout" by (cases st; simp add: by_status_def)+
  with c' Erase show ?thesis
    by (intro exI [of _ "by_status st ()"] exI [of _ c']) (simp add: nodes.settled_def)
qed

section \<open>Sequences of operations\<close>

fun carry_out_all :: "'e ClientEnv \<Rightarrow> client_op list \<Rightarrow> 'e Client \<Rightarrow> (ClientError + unit) list \<times> 'e Client" where
  "carry_out_all env [] c = ([], c)"
| "carry_out_all env (op # ops) c =
     (case carry_out env op c of
        (Inl _, c1) \<Rightarrow> ([], c1)
      | (Inr r, c1) \<Rightarrow> (case carry_out_all env ops c1 of (rs, c2) \<Rightarrow> (r # rs, c2)))"

text \<open>
  The specification. The \<open>k\<close>-th request of the client meets its fate: one that is answered in time
  has its effect exactly if the client is told so; one that is answered too late may have had it
  or have been refused; one that was lost has none. The client takes the last two for timeouts.
\<close>

inductive follows :: "'x Env \<Rightarrow> (nat \<Rightarrow> fate) \<Rightarrow> nat \<Rightarrow> nat \<Rightarrow> (string list \<Rightarrow> FileMetadata option) \<Rightarrow> client_op list
    \<Rightarrow> (ClientError + unit) list \<Rightarrow> (string list \<Rightarrow> FileMetadata option) \<Rightarrow> bool"
  for env :: "'x Env" and fates :: "nat \<Rightarrow> fate" where
  finished: "follows env fates k i ns [] [] ns"
| performed: "fates k = Prompt \<Longrightarrow> follows env fates (Suc k) (i + draws op) (effect env i op ns) ops rs ns' \<Longrightarrow>
    follows env fates k i ns (op # ops) (Inr () # rs) ns'"
| refused: "fates k = Prompt \<Longrightarrow> e \<noteq> ErrTimeout \<Longrightarrow> follows env fates (Suc k) (i + draws op) ns ops rs ns' \<Longrightarrow>
    follows env fates k i ns (op # ops) (Inl e # rs) ns'"
| performed_late: "fates k = Slow \<Longrightarrow> follows env fates (Suc k) (i + draws op) (effect env i op ns) ops rs ns' \<Longrightarrow>
    follows env fates k i ns (op # ops) (Inl ErrTimeout # rs) ns'"
| refused_late: "fates k = Slow \<Longrightarrow> follows env fates (Suc k) (i + draws op) ns ops rs ns' \<Longrightarrow>
    follows env fates k i ns (op # ops) (Inl ErrTimeout # rs) ns'"
| lost: "fates k = Lost \<Longrightarrow> follows env fates (Suc k) i ns ops rs ns' \<Longrightarrow>
    follows env fates k i ns (op # ops) (Inl ErrTimeout # rs) ns'"

inductive_cases follows_stepE: "follows env fates k i ns (op # ops) (r # rs) ns'"

lemma follows_length: "follows env fates k i ns ops rs ns' \<Longrightarrow> length rs = length ops"
  by (induction rule: follows.induct) simp_all

text \<open>An idle node that the request does not reach only looks for silent storage nodes.\<close>

lemma idle_turn:
  assumes "idle s"
  shows "meanwhile (node_outside env now client server) q s =
    (q, s\<lparr>mn_worker := (mn_worker s)\<lparr>mw_nodes := check_heartbeat_timeouts now (mw_nodes (mn_worker s))\<rparr>\<rparr>)"
proof -
  have s: "s\<lparr>mn_jobs := []\<rparr> = s" using assms by (cases s) (simp add: idle_def)
  have "produce s = (Inr (), s)" using assms by (simp add: produce_def Let_def pop_if_def idle_def)
  then show ?thesis
    using assms s
    by (simp add: node_outside_def act_then_def work_def act_step_def pop_with_timeout_def idle_def act_return_def on_nodes_def on_worker_def
        act_modify_def to_client_def)
qed

text \<open>Client, network and cluster after \<open>k\<close> operations; ids are counted from \<open>b\<close>.\<close>

definition line_ok ::
  "(NodeId \<Rightarrow> StorageNode \<Rightarrow> StorageHost) \<Rightarrow> nodes Env \<Rightarrow> steady_time \<Rightarrow> NodeIdentity \<Rightarrow> NodeIdentity
   \<Rightarrow> nodes MetadataNode ClientEnv \<Rightarrow> u64 \<Rightarrow> nat \<Rightarrow> nodes MetadataNode line Client \<Rightarrow> bool" where
  "line_ok hosts env now client server cenv b k c \<longleftrightarrow> cluster_ok hosts env now client server cenv (caught_up c)
     \<and> ids_good (name_space (mw_store (worker_of (caught_up c)))) \<and> current_id c = b + word_of_nat k
     \<and> list_all (overdue (peer_id server) b k) (backlog c)"

lemma slow_carry:
  assumes run: "carry_out env op (caught_up c) = (Inr x, v)" "x \<noteq> Inl ErrTimeout"
    and old: "\<And>job. list_all (\<lambda>m. \<not> make_message_is client_rpc (current_id c + 1) job Response (cl_metadata_node c) match_any_body m) (backlog c)"
    and lost: "meanwhile (ce_outside env) [] (line_server (net_outside (cl_net c))) = ([], s0)"
  shows "\<exists>c' m job. carry_out (slow_env fates env) op c = (Inr (if next_fate fates c = Prompt then x else Inl ErrTimeout), c')
    \<and> current_id c' = current_id c + 1 \<and> cl_metadata_node c' = cl_metadata_node c
    \<and> line_sent (net_outside (cl_net c')) = Suc (line_sent (net_outside (cl_net c)))
    \<and> line_server (net_outside (cl_net c')) = (if next_fate fates c = Lost then s0 else net_outside (cl_net v))
    \<and> set (backlog c') \<subseteq> set (backlog c) \<union> set (net_queue (cl_net v)) \<union> {m}
    \<and> make_message_is client_rpc (current_id c + 1) job Response (cl_metadata_node c) match_any_body m"
proof (cases op)
  case (Erase p)
  show ?thesis
    using slow_simple_call [OF run [unfolded Erase carry_out.simps client_remove_def] old lost, of fates]
    unfolding Erase carry_out.simps client_remove_def by blast
next
  case (Change r)
  show ?thesis
  proof (cases r)
    case (Create p)
    show ?thesis
      using slow_simple_call [OF run [unfolded Change Create carry_out.simps perform.simps create_file_def] old lost, of fates]
      unfolding Change Create carry_out.simps perform.simps create_file_def by blast
  next
    case (Mkdir p)
    show ?thesis
      using slow_simple_call [OF run [unfolded Change Mkdir carry_out.simps perform.simps client_mkdir_def] old lost, of fates]
      unfolding Change Mkdir carry_out.simps perform.simps client_mkdir_def by blast
  next
    case (Move p q)
    show ?thesis
      using slow_simple_call [OF run [unfolded Change Move carry_out.simps perform.simps client_rename_def] old lost, of fates]
      unfolding Change Move carry_out.simps perform.simps client_rename_def by blast
  qed
qed

text \<open>The client is told \<open>x\<close> of one operation, which takes the worker from \<open>w\<close> to \<open>w'\<close>.\<close>

definition one_step :: "'x Env \<Rightarrow> fate \<Rightarrow> client_op \<Rightarrow> ClientError + unit \<Rightarrow> 'x MetadataWorker \<Rightarrow> 'x MetadataWorker \<Rightarrow> bool" where
  "one_step env fate op x w w' \<longleftrightarrow> (let ns = name_space (mw_store w); ns' = name_space (mw_store w'); after = effect env (mw_draws w) op ns in
     case fate of
       Prompt \<Rightarrow> x \<noteq> Inl ErrTimeout \<and> mw_draws w' = mw_draws w + draws op \<and> ns' = (if x = Inr () then after else ns)
     | Slow \<Rightarrow> x = Inl ErrTimeout \<and> mw_draws w' = mw_draws w + draws op \<and> (ns' = after \<or> ns' = ns)
     | Lost \<Rightarrow> x = Inl ErrTimeout \<and> mw_draws w' = mw_draws w \<and> ns' = ns)"

lemma slow_step:
  fixes c :: "nodes MetadataNode line Client" and hosts and now :: steady_time and fates :: "nat \<Rightarrow> fate"
  defines "w \<equiv> worker_of (caught_up c)"
  assumes ok: "line_ok hosts env now client server cenv b k c" and op: "op_ok op" and k: "Suc k < 2 ^ 64"
  shows "\<exists>x c'. carry_out (slow_env fates cenv) op c = (Inr x, c') \<and> line_ok hosts env now client server cenv b (Suc k) c'
    \<and> line_sent (net_outside (cl_net c')) = Suc (line_sent (net_outside (cl_net c)))
    \<and> one_step env (next_fate fates c) op x w (worker_of (caught_up c'))"
proof -
  let ?v = "caught_up c" and ?s = "line_server (net_outside (cl_net c))"
  define s0 where "s0 = ?s\<lparr>mn_worker := w\<lparr>mw_nodes := check_heartbeat_timeouts now (mw_nodes w)\<rparr>\<rparr>"
  from ok have sys: "cluster_ok hosts env now client server cenv ?v" and ids: "ids_good (name_space (mw_store w))"
    and id: "current_id c = b + word_of_nat k" and old: "list_all (overdue (peer_id server) b k) (backlog c)"
    by (simp_all add: line_ok_def w_def)
  have parts: "ce_outside cenv = node_outside env now client server" "cl_metadata_node c = peer_id server" "idle ?s"
    using sys by (simp_all add: cluster_ok_def)
  have rid: "current_id c + 1 = b + word_of_nat (Suc k)" using id by simp
  from op_done [OF sys _ op] ids obtain x v where run: "carry_out cenv op ?v = (Inr x, v)" "x \<noteq> Inl ErrTimeout"
    and sys': "cluster_ok hosts env now client server cenv v" and eff: "mw_draws (worker_of v) = mw_draws w + draws op"
      "name_space (mw_store (worker_of v)) = (if x = Inr () then effect env (mw_draws w) op (name_space (mw_store w)) else name_space (mw_store w))"
    by (auto simp: w_def)
  have none: "list_all (\<lambda>m. \<not> make_message_is client_rpc (current_id c + 1) job Response (cl_metadata_node c) match_any_body m) (backlog c)" for job
    unfolding rid parts(2) list_all_iff
  proof
    fix m assume "m \<in> set (backlog c)"
    with old have "overdue (peer_id server) b k m" by (simp add: list_all_iff)
    with k show "\<not> make_message_is client_rpc (b + word_of_nat (Suc k)) job Response (peer_id server) match_any_body m"
      unfolding overdue_def by blast
  qed
  have turn: "meanwhile (ce_outside cenv) [] ?s = ([], s0)"
    unfolding parts(1) using idle_turn [OF parts(3), of env now client server "[]"] by (simp add: s0_def w_def)
  from slow_carry [OF run none turn, of fates] obtain c' m job where
    c': "carry_out (slow_env fates cenv) op c = (Inr (if next_fate fates c = Prompt then x else Inl ErrTimeout), c')"
      "current_id c' = b + word_of_nat (Suc k)" "cl_metadata_node c' = peer_id server"
      "line_sent (net_outside (cl_net c')) = Suc (line_sent (net_outside (cl_net c)))"
      "line_server (net_outside (cl_net c')) = (if next_fate fates c = Lost then s0 else net_outside (cl_net v))"
    and log: "set (backlog c') \<subseteq> set (backlog c) \<union> set (net_queue (cl_net v)) \<union> {m}"
      "make_message_is client_rpc (b + word_of_nat (Suc k)) job Response (peer_id server) match_any_body m"
    unfolding rid parts(2) by blast
  have "list_all (overdue (peer_id server) b (Suc k)) (backlog c')"
    unfolding list_all_iff
  proof
    fix x assume "x \<in> set (backlog c')"
    with log(1) consider "x \<in> set (backlog c)" | "x \<in> set (net_queue (cl_net v))" | "x = m" by auto
    then show "overdue (peer_id server) b (Suc k) x"
    proof cases
      case 1
      with old overdue_later show ?thesis by (auto simp: list_all_iff)
    next
      case 2
      with sys' show ?thesis by (auto simp: cluster_ok_def intro: overdue_quiet)
    next
      case 3
      with overdue_answer [OF log(2) k] show ?thesis by simp
    qed
  qed
  moreover have "cluster_ok hosts env now client server cenv (caught_up c')"
  proof (cases "next_fate fates c = Lost")
    case True
    with sys c'(3,5) show ?thesis
      by (simp add: cluster_ok_def s0_def w_def idle_def worker_ok_def durable_def quiet_queue_def)
  next
    case False
    with sys' c'(3,5) show ?thesis by (simp add: cluster_ok_def quiet_queue_def)
  qed
  moreover have "ids_good (name_space (mw_store (worker_of (caught_up c'))))"
    using ids effect_ids [OF ids, of env "mw_draws w" op] eff(2) c'(5) by (simp add: s0_def)
  ultimately have "line_ok hosts env now client server cenv b (Suc k) c'" using c'(2) by (simp add: line_ok_def)
  with c'(1,4,5) run(2) eff show ?thesis
    by (intro exI [of _ "if next_fate fates c = Prompt then x else Inl ErrTimeout"] exI [of _ c'])
      (auto simp: one_step_def Let_def s0_def split: fate.split)
qed

lemma slow_run:
  fixes c :: "nodes MetadataNode line Client"
  shows "line_ok hosts env now client server cenv b k c \<Longrightarrow> list_all op_ok ops \<Longrightarrow> k + length ops < 2 ^ 64 \<Longrightarrow>
    carry_out_all (slow_env fates cenv) ops c = (rs, c') \<Longrightarrow>
    line_ok hosts env now client server cenv b (k + length ops) c'
    \<and> follows env fates (line_sent (net_outside (cl_net c))) (mw_draws (worker_of (caught_up c)))
        (name_space (mw_store (worker_of (caught_up c)))) ops rs (name_space (mw_store (worker_of (caught_up c'))))"
proof (induction ops arbitrary: c k rs)
  case Nil
  then show ?case by (simp add: follows.finished)
next
  case (Cons op ops)
  have k: "Suc k < 2 ^ 64" and op: "op_ok op" using Cons.prems(2,3) by simp_all
  from slow_step [OF Cons.prems(1) op k, of fates] obtain x c1 where c1: "carry_out (slow_env fates cenv) op c = (Inr x, c1)"
    "line_ok hosts env now client server cenv b (Suc k) c1"
    "line_sent (net_outside (cl_net c1)) = Suc (line_sent (net_outside (cl_net c)))"
    and step: "one_step env (next_fate fates c) op x (worker_of (caught_up c)) (worker_of (caught_up c1))"
    by blast
  from Cons.prems(4) c1(1) obtain rs1 where rest: "carry_out_all (slow_env fates cenv) ops c1 = (rs1, c')" and rs: "rs = x # rs1"
    by (auto split: prod.splits)
  from Cons.IH [OF c1(2) _ _ rest] Cons.prems(2,3) c1(3)
  have IH: "line_ok hosts env now client server cenv b (k + length (op # ops)) c'"
    "follows env fates (Suc (line_sent (net_outside (cl_net c)))) (mw_draws (worker_of (caught_up c1)))
        (name_space (mw_store (worker_of (caught_up c1)))) ops rs1 (name_space (mw_store (worker_of (caught_up c'))))" by simp_all
  have "follows env fates (line_sent (net_outside (cl_net c))) (mw_draws (worker_of (caught_up c)))
        (name_space (mw_store (worker_of (caught_up c)))) (op # ops) (x # rs1) (name_space (mw_store (worker_of (caught_up c'))))"
  proof (cases "next_fate fates c")
    case Prompt
    with step IH(2) show ?thesis
      by (cases x) (auto simp: one_step_def Let_def intro: follows.performed follows.refused)
  next
    case Slow
    with step IH(2) show ?thesis
      by (auto simp: one_step_def Let_def intro: follows.performed_late follows.refused_late)
  next
    case Lost
    with step IH(2) show ?thesis by (auto simp: one_step_def Let_def intro: follows.lost)
  qed
  with IH(1) rs show ?case by simp
qed

section \<open>A sample client\<close>

definition slow_client :: "nodes MetadataNode line Client" where
  "slow_client = \<lparr>current_id = 0, cl_metadata_node = ''m'', cl_disk = cl_disk system_0,
     cl_net = \<lparr>net_queue = [], net_sent = [], net_outside = \<lparr>line_sent = 0, line_late = [], line_server = sample_cluster [] []\<rparr>\<rparr>\<rparr>"

definition sample_fates :: "nat \<Rightarrow> fate" where
  "sample_fates k = (if k = 1 then Slow else if k = 2 then Lost else Prompt)"

definition sample_ops :: "client_op list" where
  "sample_ops = [Change (Mkdir ''b''), Change (Move ''g'' ''h''), Change (Create ''x''), Erase ''h'']"

lemma slow_client_seen: "caught_up slow_client = system_0"
  by (simp add: caught_up_def slow_client_def sample_system_def)

section \<open>The property\<close>

text \<open>C40. From the client's call to the files of the metadata node and back: a sequence of creations, new
  directories, renames and removals, over a network that may lose any request or have its
  response come too late. Each call returns. One that reports success has had its effect on the
  name space, one that reports another error than a timeout has had none; a timeout is reported
  exactly for the requests that were not answered in time, and then the call had its effect, as
  a whole, or none, and none if its request was lost. A response that comes late is not taken for that of a later
  request. The store agrees with its disk all the time, whichever system calls fail on
  the metadata node and on the storage nodes.\<close>

theorem client_operations_reach_name_space:
  fixes c :: "nodes MetadataNode line Client"
  assumes "cluster_ok hosts env now client server cenv (caught_up c)" "ids_good (name_space (mw_store (worker_of (caught_up c))))"
    and "backlog c = []" "list_all op_ok ops" "length ops < 2 ^ 64"
    and "carry_out_all (slow_env fates cenv) ops c = (rs, c')"
  shows "length rs = length ops \<and> store_inv (mw_store (worker_of (caught_up c')))
    \<and> follows env fates (line_sent (net_outside (cl_net c))) (mw_draws (worker_of (caught_up c)))
        (name_space (mw_store (worker_of (caught_up c)))) ops rs (name_space (mw_store (worker_of (caught_up c'))))"
proof -
  have "line_ok hosts env now client server cenv (current_id c) 0 c" using assms(1-3) by (simp add: line_ok_def)
  from slow_run [OF this assms(4) _ assms(6)] assms(5)
  have ok: "cluster_ok hosts env now client server cenv (caught_up c')"
    and run: "follows env fates (line_sent (net_outside (cl_net c))) (mw_draws (worker_of (caught_up c)))
        (name_space (mw_store (worker_of (caught_up c)))) ops rs (name_space (mw_store (worker_of (caught_up c'))))"
    by (simp_all add: line_ok_def)
  from ok have "store_inv (mw_store (worker_of (caught_up c')))" by (simp add: cluster_ok_def durable_def)
  with run follows_length [OF run] show ?thesis by blast
qed

theorem client_operations_reach_name_space_witness:
  "length (fst (carry_out_all (slow_env sample_fates sample_system_env) sample_ops slow_client)) = 4
   \<and> follows sample_cluster_env sample_fates 0 0 (name_space (mw_store (worker_of system_0))) sample_ops
       (fst (carry_out_all (slow_env sample_fates sample_system_env) sample_ops slow_client))
       (name_space (mw_store (worker_of (caught_up (snd (carry_out_all (slow_env sample_fates sample_system_env) sample_ops slow_client))))))"
proof -
  have "good_id ''a''" using sample_ids(1) by (simp add: good_id_def nul_free_def)
  then have ids: "ids_good (name_space (mw_store (worker_of system_0)))"
    by (auto simp: ids_good_def name_space_def anon_def sample_system_def sample_cluster_def empty_entry_def split: if_splits)
  have "lexically_normal ''x'' = ''x''" by code_simp
  then have ops: "list_all op_ok sample_ops" by (simp add: sample_ops_def sendable_def nul_free_def)
  have start: "line_sent (net_outside (cl_net slow_client)) = 0" "backlog slow_client = []" "mw_draws (worker_of system_0) = 0" "length sample_ops = 4"
    by (simp_all add: slow_client_def backlog_def sample_system_def sample_cluster_def sample_ops_def)
  from client_operations_reach_name_space [of roomy_hosts sample_cluster_env 5 sample_user sample_server sample_system_env slow_client sample_ops
      sample_fates, unfolded slow_client_seen, OF sample_cluster_ok ids start(2) ops _ prod.collapse [symmetric]] start
  show ?thesis by simp
qed

end
