(* ===== verification/Browsing.thy ===== *)
theory Browsing
  imports RemoteStore
begin

text \<open>
  What a client sees of the name space: the entries of a directory and the metadata of a file,
  from the table and the disk of the metadata node to the result of the client's operation.
\<close>

section \<open>The entries of a directory\<close>

lemma directory_listed:
  assumes h: "host_faults h = no_faults" and inv: "store_inv s" and plain: "plain_path (relative_elems p)"
    and dir: "node_at (ms_disk s) (physical s (relative_elems p)) = Some Dir"
  shows "\<exists>infos. list_directory h p s = Inr infos \<and> distinct (map fi_path infos)
    \<and> (\<forall>n b. \<lparr>fi_path = n, fi_is_directory = b\<rparr> \<in> set infos \<longleftrightarrow>
         (\<exists>x. node_at (ms_disk s) (physical s (relative_elems p) @ [n]) = Some x \<and> b = (x = Dir)))"
proof -
  let ?l = "physical s (relative_elems p)" and ?d = "ms_disk s"
  have wf: "disk_wf ?d" using store_invD(1) [OF inv] .
  have "plain_path ?l" using plain inv by (simp add: physical_def store_inv_def)
  then have at: "resolve ?d [] ?l = Inr ?l" using resolve_node [OF wf _ dir] by simp
  define es where "es = filter (\<lambda>(k, _). k \<noteq> [] \<and> butlast k = ?l) ?d"
  let ?infos = "map (\<lambda>(k, x). \<lparr>fi_path = last k, fi_is_directory = (x = Dir)\<rparr>) es"
  have run: "list_directory h p s = Inr ?infos"
    using at dir by (simp add: list_directory_def h Let_def fs_exists_def fs_is_directory_def fs_status_def fs_list_def
        opened_directory_def no_faults_def es_def comp_def case_prod_unfold)
  have entry: "(k, x) \<in> set es \<longleftrightarrow> k = ?l @ [last k] \<and> node_at ?d k = Some x" for k x
  proof -
    have "map_of ?d k = Some x \<longleftrightarrow> (k, x) \<in> set ?d" using wf by (simp add: disk_wf_def)
    moreover have "k \<noteq> [] \<and> butlast k = ?l \<longleftrightarrow> k = ?l @ [last k]"
      by (metis append_butlast_last_id butlast_snoc snoc_eq_iff_butlast)
    ultimately show ?thesis by (auto simp: es_def node_at_def)
  qed
  have keys: "k = ?l @ [last k]" if "k \<in> set (keys es)" for k using that entry by auto
  have "distinct (keys es)" using wf by (simp add: es_def disk_wf_def distinct_map_filter)
  moreover have "inj_on last (set (keys es))"
  proof (rule inj_onI)
    fix k k' assume "k \<in> set (keys es)" "k' \<in> set (keys es)" "last k = last k'"
    then show "k = k'" using keys [of k] keys [of k'] by argo
  qed
  ultimately have "distinct (map last (keys es))" by (simp only: distinct_map)
  then have "distinct (map fi_path ?infos)" by (simp add: comp_def case_prod_unfold)
  moreover have "\<lparr>fi_path = n, fi_is_directory = b\<rparr> \<in> set ?infos \<longleftrightarrow> (\<exists>x. node_at ?d (?l @ [n]) = Some x \<and> b = (x = Dir))" for n b
  proof
    assume "\<lparr>fi_path = n, fi_is_directory = b\<rparr> \<in> set ?infos"
    then obtain k x where "(k, x) \<in> set es" "n = last k" "b = (x = Dir)" by auto
    with entry [of k x] show "\<exists>x. node_at ?d (?l @ [n]) = Some x \<and> b = (x = Dir)" by metis
  next
    assume "\<exists>x. node_at ?d (?l @ [n]) = Some x \<and> b = (x = Dir)"
    then obtain x where "(?l @ [n], x) \<in> set es" "b = (x = Dir)" using entry by auto
    then show "\<lparr>fi_path = n, fi_is_directory = b\<rparr> \<in> set ?infos" by force
  qed
  ultimately show ?thesis using run by blast
qed

text \<open>A listing that fits into one frame.\<close>

definition listing_sendable :: "FileInfo list \<Rightarrow> bool" where
  "listing_sendable infos \<longleftrightarrow> list_all (\<lambda>i. nul_free (fi_path i)) infos
     \<and> 15 + sum_list (map (\<lambda>i. length (fi_path i) + 2) infos) \<le> unat MAX_MESSAGE_SIZE"

lemma listing_length: "length (concat (map info_bytes infos)) = sum_list (map (\<lambda>i. length (fi_path i) + 2) infos)"
  by (induction infos) (simp_all add: info_bytes_def)

lemma listing_short: "2 * length infos \<le> sum_list (map (\<lambda>i. length (fi_path i) + 2) infos)"
  by (induction infos) simp_all

section \<open>The operations of the client\<close>

lemma list_served:
  assumes conn: "connected env now client server cenv c" and p: "nul_free p" "length p < 2 ^ 31"
    and list: "list_directory (env_host env) p (mw_store (worker_of c)) = Inr infos" "listing_sendable infos"
  shows "\<exists>c'. client_list cenv p c = (Inr (Inr infos), c') \<and> connected env now client server cenv c'
    \<and> mw_store (worker_of c') = mw_store (worker_of c)"
proof -
  let ?rid = "current_id c + 1" and ?req = "\<lparr>lsq_path = p, lsq_context = empty_context\<rparr>"
  let ?ev = "ListEvent ?req" and ?ctx = "\<lparr>ctx_request_id = ?rid, ctx_sender = client\<rparr>"
  let ?resp = "\<lparr>lsr_status = Success, lsr_info_vec = infos, lsr_context = empty_context\<rparr>"
  let ?body = "[client_status_to_u8 Success] @ be_bytes 4 (word_of_nat (length infos) :: u32) @ concat (map info_bytes infos)"
  define w where "w = (worker_of c)\<lparr>mw_net := post_frame (env_outside env) (peer_id client) (rpc_frame client_rpc ?rid LIST Response ?body) (mw_net (worker_of c))\<rparr>"
  have run: "handle env (with_context ?ctx ?ev) (worker_of c) = (Inr (), w)"
    using list(1) by (simp add: handle_list_def act_then_def act_get_def w_def
        respond_run [where enc = encode_list_response, OF list_response.enc_frame])
  have net: "net_sent (mw_net w) = net_sent (mw_net (worker_of c)) @ [(peer_id client, rpc_frame client_rpc ?rid LIST Response ?body)]"
    "net_queue (mw_net w) = []" using conn by (simp_all add: w_def post_frame_def connected_def idle_def)
  have limit: "length (concat (map info_bytes infos)) + 15 \<le> 1048576"
    using list(2) by (simp add: listing_sendable_def listing_length MAX_MESSAGE_SIZE_def)
  then have fits: "body_fits ?body" by (simp add: body_fits_def)
  have "length infos < 2 ^ 31" using limit listing_short [of infos] by (simp add: listing_length)
  then have good: "listing_ok ?resp" using list(2) by (simp add: listing_ok_def listing_sendable_def list_all_iff)
  have "\<exists>c'. client_list cenv p c = (Inr (by_status (lsr_status (?resp\<lparr>lsr_context := \<lparr>ctx_request_id = ?rid, ctx_sender = server\<rparr>\<rparr>))
        (lsr_info_vec (?resp\<lparr>lsr_context := \<lparr>ctx_request_id = ?rid, ctx_sender = server\<rparr>\<rparr>))), c')
      \<and> connected env now client server cenv c' \<and> worker_of c' = w\<lparr>mw_nodes := check_heartbeat_timeouts now (mw_nodes w)\<rparr>"
    unfolding client_list_def
    by (rule simple_call_served [where enc = encode_list_request and q = ?req and dec = decode_list_response
          and r = "?resp\<lparr>lsr_context := \<lparr>ctx_request_id = ?rid, ctx_sender = server\<rparr>\<rparr>", OF conn _ _ list_request.enc_frame run net _ fits])
      (use list_response.received [of ?resp server ?rid] good fits p in \<open>auto simp: list_request.enc_frame sendable_def\<close>)
  then show ?thesis by (auto simp: by_status_def w_def)
qed

text \<open>What a stat of a file says.\<close>

definition entry_stat :: "FileMetadata \<Rightarrow> FileStat" where
  "entry_stat m = \<lparr>stat_path = md_path m, stat_is_directory = False, stat_node_0 = md_replica_0 m, stat_node_1 = md_replica_1 m,
     stat_object_id = md_obj_id m, stat_size = md_size m, stat_created_at = to_ms (md_created_at m), stat_modified_at = to_ms (md_modified_at m)\<rparr>"

definition entry_sendable :: "FileMetadata \<Rightarrow> bool" where
  "entry_sendable m \<longleftrightarrow> nul_free (md_path m)
     \<and> 40 + length (md_path m) + length (md_replica_0 m) + length (md_replica_1 m) + length (md_obj_id m) \<le> unat MAX_MESSAGE_SIZE"

lemma stat_served:
  assumes conn: "connected env now client server cenv c" and p: "nul_free p" "length p < 2 ^ 31"
    and m: "get_metadata p (mw_store (worker_of c)) = Inr m" "md_ok m" "entry_sendable m"
  shows "\<exists>c'. client_stat cenv p c = (Inr (Inr (entry_stat m)), c') \<and> connected env now client server cenv c'
    \<and> mw_store (worker_of c') = mw_store (worker_of c)"
proof -
  let ?rid = "current_id c + 1" and ?req = "\<lparr>stq_path = p, stq_context = empty_context\<rparr>"
  let ?ev = "StatEvent ?req" and ?ctx = "\<lparr>ctx_request_id = ?rid, ctx_sender = client\<rparr>"
  let ?stat = "\<lparr>stat_path = md_path m, stat_is_directory = False, stat_node_0 = md_replica_0 m,
          stat_node_1 = md_replica_1 m, stat_object_id = md_obj_id m, stat_size = md_size m,
          stat_created_at = md_created_at m, stat_modified_at = md_modified_at m\<rparr>"
  let ?resp = "\<lparr>str_status = Success, str_stat = ?stat, str_context = ?ctx\<rparr>"
  let ?seen = "?resp\<lparr>str_stat := stat_in_ms ?stat, str_context := \<lparr>ctx_request_id = ?rid, ctx_sender = server\<rparr>\<rparr>"
  let ?body = "concat (stat_fields ?resp)"
  define w where "w = (worker_of c)\<lparr>mw_net := post_frame (env_outside env) (peer_id client) (rpc_frame client_rpc ?rid STAT Response ?body) (mw_net (worker_of c))\<rparr>"
  have run: "handle env (with_context ?ctx ?ev) (worker_of c) = (Inr (), w)"
    using m(1) by (simp add: handle_stat_def act_then_def act_get_def w_def stat_result_def
        respond_run [where enc = encode_stat_response, OF stat_response.enc_frame])
  have net: "net_sent (mw_net w) = net_sent (mw_net (worker_of c)) @ [(peer_id client, rpc_frame client_rpc ?rid STAT Response ?body)]"
    "net_queue (mw_net w) = []" using conn by (simp_all add: w_def post_frame_def connected_def idle_def)
  have fits: "body_fits ?body" using m(3) by (simp add: body_fits_def stat_fields_def entry_sendable_def MAX_MESSAGE_SIZE_def)
  have good: "stat_ok ?resp" using m(2,3) by (simp add: stat_ok_def md_ok_def entry_sendable_def)
  have "\<exists>c'. client_stat cenv p c = (Inr (by_status (str_status ?seen) (str_stat ?seen)), c')
      \<and> connected env now client server cenv c' \<and> worker_of c' = w\<lparr>mw_nodes := check_heartbeat_timeouts now (mw_nodes w)\<rparr>"
    unfolding client_stat_def
    by (rule simple_call_served [where enc = encode_stat_request and q = ?req and dec = decode_stat_response and r = ?seen,
          OF conn _ _ stat_request.enc_frame run net _ fits])
      (use stat_response.received [of ?resp server ?rid] good fits p in \<open>auto simp: stat_request.enc_frame sendable_def\<close>)
  then show ?thesis by (auto simp: by_status_def w_def stat_in_ms_def entry_stat_def)
qed

section \<open>What clients see\<close>

text \<open>C28. A client sees the name space: listing a directory of the store succeeds and gives every
  name in it once; a name that can be a file is listed as one exactly when the name space has
  that file, and a stat of a file gives its size, its replicas, its object and its times in
  milliseconds. The store is not changed.\<close>

theorem clients_see_name_space:
  assumes "connected env now client server cenv c" "store_inv (mw_store (worker_of c))" "host_faults (env_host env) = no_faults"
    "nul_free p" "length p < 2 ^ 19" "plain_path (relative_elems p)"
    "node_at (ms_disk (mw_store (worker_of c))) (physical (mw_store (worker_of c)) (relative_elems p)) = Some Dir"
    "\<And>infos. list_directory (env_host env) p (mw_store (worker_of c)) = Inr infos \<Longrightarrow> listing_sendable infos"
    "nul_free q" "length q < 2 ^ 19" "get_metadata q (mw_store (worker_of c)) = Inr m" "entry_sendable m"
  shows "\<exists>infos c1 c2. client_list cenv p c = (Inr (Inr infos), c1) \<and> client_stat cenv q c1 = (Inr (Inr (entry_stat m)), c2)
    \<and> mw_store (worker_of c2) = mw_store (worker_of c) \<and> distinct (map fi_path infos)
    \<and> (\<forall>n. good_key (relative_elems p @ [n]) \<longrightarrow>
        (\<lparr>fi_path = n, fi_is_directory = False\<rparr> \<in> set infos \<longleftrightarrow> name_space (mw_store (worker_of c)) (relative_elems p @ [n]) \<noteq> None))"
proof -
  let ?st = "mw_store (worker_of c)" and ?k = "relative_elems p"
  from directory_listed [OF assms(3,2,6,7)] obtain infos where infos: "list_directory (env_host env) p ?st = Inr infos"
    "distinct (map fi_path infos)"
    "\<And>n b. \<lparr>fi_path = n, fi_is_directory = b\<rparr> \<in> set infos \<longleftrightarrow> (\<exists>x. node_at (ms_disk ?st) (physical ?st ?k @ [n]) = Some x \<and> b = (x = Dir))"
    by blast
  have p: "length p < 2 ^ 31" "length q < 2 ^ 31" using assms(5,10) by simp_all
  from list_served [OF assms(1,4) p(1) infos(1) assms(8) [OF infos(1)]] obtain c1 where c1:
    "client_list cenv p c = (Inr (Inr infos), c1)" "connected env now client server cenv c1" "mw_store (worker_of c1) = ?st" by blast
  have "map_of (ms_data ?st) (elems q) = Some m" using assms(11) by (auto simp: get_metadata_def split: if_splits option.splits)
  with assms(2) have "md_ok m" by (auto simp: store_inv_def)
  from stat_served [OF c1(2) assms(9) p(2) _ this assms(12)] assms(11) c1(3) obtain c2 where c2:
    "client_stat cenv q c1 = (Inr (Inr (entry_stat m)), c2)" "mw_store (worker_of c2) = ?st" by auto
  have "\<lparr>fi_path = n, fi_is_directory = False\<rparr> \<in> set infos \<longleftrightarrow> name_space ?st (?k @ [n]) \<noteq> None" if "good_key (?k @ [n])" for n
  proof -
    have "\<lparr>fi_path = n, fi_is_directory = False\<rparr> \<in> set infos \<longleftrightarrow> stored_file ?st (?k @ [n]) \<noteq> None"
      unfolding infos(3) by (auto simp: stored_file_def physical_def split: option.splits node.splits)
    then show ?thesis using store_invD(6) [OF assms(2) that] by (simp add: name_space_def)
  qed
  with c1(1) c2 infos(2) show ?thesis by blast
qed

theorem clients_see_name_space_witness:
  "\<exists>infos c1 c2. client_list sample_remote_env [] sample_remote = (Inr (Inr infos), c1)
    \<and> \<lparr>fi_path = ''f'', fi_is_directory = False\<rparr> \<in> set infos \<and> \<lparr>fi_path = ''x'', fi_is_directory = False\<rparr> \<notin> set infos
    \<and> client_stat sample_remote_env ''f'' c1 = (Inr (Inr (entry_stat sample_entry)), c2)"
proof -
  have store: "mw_store (worker_of sample_remote) = sample_store" by (simp add: sample_remote_def)
  have host: "host_faults (env_host silent_env) = no_faults" by (simp add: silent_env_def)
  have root: "relative_elems [] = []" by (simp add: relative_elems_def elems_def is_absolute_def)
  have list: "listing_sendable infos" if "list_directory (env_host silent_env) [] sample_store = Inr infos" for infos
    using that by (auto simp: list_directory_def root physical_def sample_store_def silent_env_def no_faults_def fs_exists_def
        fs_is_directory_def fs_status_def fs_list_def opened_directory_def node_at_def slash_def listing_sendable_def nul_free_def MAX_MESSAGE_SIZE_def)
  have "elems ''f'' = [''f'']" by (simp add: elems_plain slash_def)
  then have f: "get_metadata ''f'' sample_store = Inr sample_entry"
    by (simp add: get_metadata_def valid_filename_iff good_key_def is_absolute_def slash_def extension_of_def sample_store_def)
  have sent: "entry_sendable sample_entry" by (simp add: entry_sendable_def sample_entry_def nul_free_def MAX_MESSAGE_SIZE_def)
  have dir: "node_at (ms_disk sample_store) (physical sample_store []) = Some Dir" by (simp add: physical_def sample_store_def node_at_def)
  have good: "good_key [''f'']" "good_key [''x'']" by (simp_all add: good_key_def slash_def extension_of_def)
  have has: "name_space sample_store [''f''] \<noteq> None" "name_space sample_store [''x''] = None" by (simp_all add: name_space_def sample_store_def)
  have p: "nul_free []" "length ([] :: path) < 2 ^ 19" "nul_free ''f''" "length ''f'' < 2 ^ 19" by (simp_all add: nul_free_def)
  from clients_see_name_space [of silent_env 0 sample_user sample_server sample_remote_env sample_remote "[]" "''f''" sample_entry, unfolded store root,
    OF sample_connected sample_store_inv host p(1,2) _ dir list p(3,4) f sent]
  obtain infos c1 c2 where "client_list sample_remote_env [] sample_remote = (Inr (Inr infos), c1)"
    "client_stat sample_remote_env ''f'' c1 = (Inr (Inr (entry_stat sample_entry)), c2)"
    "\<And>n. good_key ([] @ [n]) \<Longrightarrow> \<lparr>fi_path = n, fi_is_directory = False\<rparr> \<in> set infos \<longleftrightarrow> name_space sample_store ([] @ [n]) \<noteq> None"
    by auto
  with good has show ?thesis by (metis append_Nil)
qed

end
