(* ===== verification/Spec2Isabelle.thy ===== *)
theory Spec2Isabelle
  imports FrameIO StoreInvariant Durability StorageWorker NetworkSafety StorageNode ClientSafety RemoteStore Programs
    Concurrency Timeouts Browsing
begin

text \<open>
  A verification development for a distributed file system in C++. File names are relative to
  \<^verbatim>\<open>src/\<close> of the repository.

  \<^bold>\<open>The program.\<close> A metadata node keeps the name space: for every path the size, the object id and
  the two storage nodes that hold the object. Storage nodes keep objects, one file each. Clients
  talk to the metadata node only: it takes a file in chunks of 512 KiB, sends every chunk to both
  replicas, and tells the client the outcome; to read, it asks one replica and, when that gives
  nothing, the other. All nodes exchange length-prefixed frames over TCP; a frame holds a message
  with a request id, a job and a kind. In a node the network thread fills a queue, a producer
  thread turns messages into jobs, and a worker thread handles them; while a handler of the
  metadata node waits for a storage node it takes the replies out of the same queue, with a
  predicate. Storage nodes send heartbeats, and a node that is silent for ten seconds is no
  longer chosen.

  \<^bold>\<open>How it is modelled.\<close> Exceptions are the left side of a sum (\<open>Prelude\<close>), integers are words of
  their width, strings are character lists, \<^verbatim>\<open>std::map\<close> and \<^verbatim>\<open>unordered_map\<close> are association
  lists. A handler is an \<open>act\<close>, a function from the state to a result or an exception and the
  state (\<open>Actions\<close>); \<open>wp\<close> and \<open>passes\<close> read off what an action guarantees. What a thread meets
  outside itself is a parameter: of a disk, which system calls fail (\<open>Faults\<close>, \<open>Host\<close>); of the
  network, what becomes of a posted frame and what arrives during a wait (\<open>Outside\<close>); of a
  generator, the numbers drawn; of yaml-cpp, what its calls return. Theorems hold for all of
  these unless they say otherwise. Loops are recursive functions with termination proofs; there
  is no fuel. A thread that runs for ever is the step it repeats, and runs are lists of steps.

  \<^bold>\<open>The parts\<close>, in the order of the theories.

  \<^item> \<open>Prelude\<close>: words, exceptions and their sequencing, association lists, counting on words.
  \<^item> \<open>Serializer\<close> (\<^verbatim>\<open>common/Serializer\<close>): \<open>BinaryWriter\<close>, \<open>BinaryReader\<close> and their operations; the
    locales \<open>field_codec\<close> and \<open>enum_codec\<close> state that a field is read back as written, and every
    type the code serializes is an interpretation, collected in \<open>codec\<close>.
  \<^item> \<open>Messages\<close> (\<^verbatim>\<open>common/network/Node.hpp\<close>, \<^verbatim>\<open>Message.hpp\<close>): roles, identities, headers, frames.
  \<^item> \<open>FrameIO\<close> (\<^verbatim>\<open>common/network/FrameIO.cpp\<close>): frames on a socket, which is the locale
    \<open>byte_source\<close>; a stream delivers the frames that were written, and bad headers are errors.
  \<^item> \<open>BlockingQueue\<close> (\<^verbatim>\<open>common/util/BlockingQueue.hpp\<close>): the queue and its four operations, the
    locale \<open>message_queue\<close> for its users, order and conservation under interleaved consumers.
  \<^item> \<open>Rpc\<close>, \<open>ClientProtocol\<close>, \<open>StorageProtocol\<close> (\<^verbatim>\<open>common/rpc\<close>): every message type, encoder and
    decoder; each pair interprets the locale \<open>rpc_call\<close>, from which come the round trips.
  \<^item> \<open>ObjectId\<close> (\<^verbatim>\<open>common/ObjectId.hpp\<close>): the text of a version 4 UUID from two draws.
  \<^item> \<open>Paths\<close>, \<open>FileSystem\<close>: what the code uses of \<^verbatim>\<open>std::filesystem\<close> and \<^verbatim>\<open>std::fstream\<close>, on a
    tree of directories and files whose calls may fail.
  \<^item> \<open>MetadataStore\<close> (\<^verbatim>\<open>metadata/MetadataStore\<close>): the table and its directory, every operation.
    \<open>StoreInvariant\<close>: table and disk agree after every run whatever calls fail, the operations
    implement the map \<open>name_space\<close>, a restart recovers it, and which names are accepted.
  \<^item> \<open>StorageWorker\<close> (\<^verbatim>\<open>storage/StorageWorker\<close>): put, get and delete of objects; what an
    acknowledged chunk means (\<open>write_chunk_outcome\<close>), uploads as sequences of chunks among other
    requests.
  \<^item> \<open>StorageNode\<close> (\<^verbatim>\<open>storage/StorageNode.hpp\<close>, \<^verbatim>\<open>StorageHeart.hpp\<close>): its three threads as turns of a
    schedule; every schedule answers the calls in order, each once.
  \<^item> \<open>MetadataWorker\<close> (\<^verbatim>\<open>metadata/MetadataWorker\<close>): the ten request handlers, the tables of pending
    transfers, the placement of new files. \<open>WorkerInvariant\<close>: one response per request, the
    order of the tables, the choice of replicas. \<open>Isolation\<close>: transfers do not touch each other,
    and where that ends.
  \<^item> \<open>MetadataNode\<close> (\<^verbatim>\<open>metadata/MetadataNode\<close>): the producer and the worker thread as steps,
    heartbeats and their timeouts, the dispatch of requests. \<open>Durability\<close>: what every handler
    does to the store is a sequence of checked calls, so table and disk agree in every state the
    process has, over all its lifetimes (\<open>lives\<close>), and a killed process comes back with the same
    name space.
  \<^item> \<open>Connection\<close>, \<open>Network\<close>, \<open>NetworkSafety\<close> (\<^verbatim>\<open>common/network\<close>): \<open>start\<close>, which dials the seeds and
    opens the acceptor, and the completion handlers of the network thread as events; handshakes,
    the order of frames, and that every registered peer introduced itself over its connection, on
    dialled connections as the seed that was dialled (\<open>introduced\<close>).
  \<^item> \<open>Client\<close>, \<open>Chunks\<close>, \<open>ClientSafety\<close> (\<^verbatim>\<open>client/Client\<close>): all operations of the library on any
    network, and what they guarantee alone: one request per exchange, downloads that replace
    their destination or leave it, uploads that send the file, loops that end.
  \<^item> \<open>Configuration\<close> (\<^verbatim>\<open>common/Yaml.cpp\<close>) and \<open>Programs\<close> (the three \<^verbatim>\<open>main.cpp\<close>).

  \<^bold>\<open>How the parts are put together.\<close>

  \<^item> \<open>RemoteStore\<close>: a client and its metadata node. The client's view of a server is the locale
    \<open>service\<close>, and the modelled node provides it: \<open>node_outside\<close> runs the producer and the
    worker while the client waits (\<open>exchange_run\<close>). \<open>Browsing\<close>: listings and stats show the same
    name space.
  \<^item> \<open>Acceptance\<close>, \<open>Saving\<close>: when a chunk is taken by a storage node and an entry is written by the
    store: no call fails, there is room, and nothing is in the way of the names (\<open>takes\<close>,
    \<open>saveable\<close>). The outcomes elsewhere say what a result means; these say when it is good.
  \<^item> \<open>Cluster\<close>: the metadata worker's view of its storage nodes is the locale \<open>storage_service\<close>: by
    the time it has waited, every node that runs has answered its call, in any order. The
    modelled storage nodes provide it (interpretation \<open>nodes\<close>), each with a host of its own.
  \<^item> \<open>Replication\<close>, \<open>Sessions\<close>, \<open>Starting\<close>, \<open>Reading\<close>: inside that locale, what the handlers of the four
    transfer requests achieve: an acknowledged chunk is staged on both replicas, the last one is
    committed on both before the metadata changes, and a chunk is read from the first replica
    that gives it, which is the right one. \<open>Starting\<close> says when an upload is begun: two storage
    nodes are available for it.
  \<^item> \<open>Exchanges\<close>, \<open>EndToEnd\<close>, \<open>Progress\<close>, \<open>Availability\<close>: client, metadata node and storage nodes together, with
    the loops of the client by induction over chunks: what the client was told is stored is on
    both replicas, and can be read back after an outage, in which the metadata node is killed
    and started again and storage nodes are lost or started again, when one replica is left. \<open>Progress\<close>: when
    nothing fails on the hosts concerned (\<open>healthy\<close>), every step of an upload succeeds, so it
    ends with success and can be read back at once. \<open>Removal\<close>: a removal that succeeded took
    the object off both replicas and the entry out of the table, any other left the name space.
  \<^item> \<open>Interference\<close>: one upload while the metadata node serves other clients. The requests between
    its chunks are the inductive relation \<open>interleaved\<close>; requests that stay \<open>away\<close> from the path keep
    its entry, its object on every storage node and its transfer (\<open>handle_guarded\<close>), and an
    acknowledged chunk takes it a step on (\<open>chunk_undisturbed\<close>). A rename of the path is not
    such a request, and what it does to the upload is shown as well, as is what an upload does to
    a download of the same path that has begun before.
  \<^item> \<open>Concurrency\<close>: the same for whole uploads and downloads as their client runs them. The world outside that client
    is \<open>busy_outside\<close>, a metadata node that does other work after each wait of the client; an
    exchange with it is one with the idle node followed by that work (\<open>busy_call\<close>), so the
    exchanges of \<open>Exchanges\<close> carry over and the loop over the chunks is a run of \<open>interleaved\<close>;
    the chunks of a download still come from a replica that holds the file (\<open>busy_download_loop\<close>).

  \<^item> \<open>Timeouts\<close>: the client's operations that change the name space, over a network that may lose a
    request or have its response come after the client gave up (\<open>slow_outside\<close>, \<open>fate\<close>). An exchange over
    it is one with the server alone, whose result the client may not see (\<open>slow_call\<close>); late responses
    stay in the client's queue and match no later request, as ids do not repeat. The results and the name
    space follow the relation \<open>follows\<close>.

  \<^bold>\<open>Assumptions of the joint theorems.\<close> While one client waits, the metadata node serves its request
  and no other client's; transfers of other clients may be pending. \<open>Interference\<close> and \<open>Concurrency\<close>
  drop this for uploads and downloads: between two requests of the client the node serves any others that stay
  away from the path. Responses come before the client gives up, except in \<open>Timeouts\<close>, which covers
  creations, new directories, renames and removals. The metadata node draws no object id twice in
  \<open>Interference\<close> and \<open>Concurrency\<close>, and the storage nodes keep running. Frames between nodes that run
  are not lost, a frame to a node that does not run is. Paths are
  shorter than 2^19 characters, so that requests fit into a frame (\<open>RemoteStore\<close> alone allows
  longer ones), and a file has fewer than 2^64 bytes. \<open>Isolation\<close> and \<open>interleaved_uploads_mix\<close> show what goes wrong
  when two clients upload to the same path at once.

  \<^bold>\<open>Not modelled.\<close> asio and the sockets, except as the byte source and the completion events;
  yaml-cpp, except as the parameter of \<open>Configuration\<close>; both are third-party code under
  \<^verbatim>\<open>dependencies/\<close>. The real durations of timed waits: a wait either finds its message or gives up.
  Which calls fail (\<open>Faults\<close>) is fixed for one operation: a local file that can be read for some chunks of
  an upload and not for later ones, or for a part of a chunk, is not represented, and neither is a
  directory iterator that fails after it was opened. Allocations do not fail, and the conversion of
  times from milliseconds to nanoseconds is without overflow.
  The steps of the threads are taken to be atomic; the threads share only queues behind locks and
  atomics.
  Console output other than the client program's, log lines, \<^verbatim>\<open>FileStat::print\<close>, the unused
  \<^verbatim>\<open>struct Hello\<close> and the never instantiated \<^verbatim>\<open>nodes_of_role\<close> have no definition.
\<close>

end
